(* ===== verification/Prelude.thy ===== *)
theory Prelude
  imports Main "HOL-Library.Word"
begin

unbundle bit_operations_syntax

text \<open>
  Shared vocabulary of the development: the machine types of the LP64 target the mailer is
  built for, and the generic lemmas on words and lists that the component theories use.

  \<^item> \<open>char\<close> buffers that carry protocol data are lists of \<open>byte\<close> (an 8-bit word);
  \<^item> \<open>unsigned short\<close>, \<open>unsigned int\<close> and \<open>unsigned long\<close> are words of 16, 32
    and 64 bits (\<open>unsigned long\<close> is 64 bits wide on LP64, which the checksum and cipher code
    does not expect and is shown not to mind).
\<close>

type_synonym byte = "8 word"
type_synonym u16 = "16 word"
type_synonym u32 = "32 word"
type_synonym u64 = "64 word"

named_theorems word_bits \<open>bit-level characterisations used to prove word identities\<close>

lemmas [word_bits] =
  bit_simps bit_and_iff bit_or_iff bit_xor_iff bit_not_iff

section \<open>Words: low and high parts\<close>

text \<open>A word whose low \<open>k\<close> bits are zero, and the split of a word at bit \<open>k\<close>.\<close>

definition low_zero :: "nat \<Rightarrow> 'a::len word \<Rightarrow> bool" where
  "low_zero k w \<longleftrightarrow> (\<forall>i<k. \<not> bit w i)"

lemma low_zero_0 [simp]: "low_zero 0 w"
  by (simp add: low_zero_def)

lemma take_bit_xor_high:
  "take_bit k w XOR (push_bit k (drop_bit k w)) = (w::'a::len word)"
  by (rule bit_word_eqI) (auto simp: bit_simps)

lemma low_zero_push_bit [simp]: "low_zero k (push_bit k w)"
  by (simp add: low_zero_def bit_simps)

lemma low_zero_Suc: "low_zero (Suc k) w \<longleftrightarrow> \<not> bit w 0 \<and> low_zero k (drop_bit 1 w)"
  by (auto simp: low_zero_def bit_simps less_Suc_eq_0_disj)

lemma unat_and_255_less [simp]: "unat (w AND (255::'a::len word)) < 256"
proof -
  have "unat (w AND 255) \<le> unat (255 :: 'a word)"
    by (rule word_le_nat_alt [THEN iffD1]) (simp add: word_and_le1)
  also have "unat (255 :: 'a word) \<le> 255"
    by (simp add: unsigned_numeral take_bit_nat_less_eq_self)
  finally show ?thesis by simp
qed


text \<open>A word that fits in its low \<open>n\<close> bits.\<close>

definition fits :: "nat \<Rightarrow> 'a::len word \<Rightarrow> bool" where
  "fits n w \<longleftrightarrow> (\<forall>i\<ge>n. \<not> bit w i)"

lemma fits_xor [intro]: "fits n a \<Longrightarrow> fits n b \<Longrightarrow> fits n (a XOR b)"
  by (auto simp: fits_def bit_simps)

lemma fits_mono: "fits m w \<Longrightarrow> m \<le> n \<Longrightarrow> fits n w"
  by (auto simp: fits_def)

lemma fits_ucast_byte [simp, intro]: "8 \<le> n \<Longrightarrow> fits n (ucast (b::byte))"
  by (auto simp: fits_def bit_simps dest: bit_imp_le_length)

lemma fits_width [simp]: "LENGTH('a) \<le> n \<Longrightarrow> fits n (w :: 'a::len word)"
  by (auto simp: fits_def dest: bit_imp_le_length)

lemma fits_iff_take_bit: "fits n w \<longleftrightarrow> take_bit n w = w"
proof
  assume f: "fits n w"
  show "take_bit n w = w"
    by (rule bit_word_eqI) (use f in \<open>auto simp: fits_def bit_take_bit_iff not_le\<close>)
next
  assume e: "take_bit n w = w"
  show "fits n w" by (subst e [symmetric]) (simp add: fits_def bit_take_bit_iff)
qed

lemma drop_push_fits:
  fixes w :: "'a::len word"
  assumes "fits n w" and "n + k \<le> LENGTH('a)"
  shows "drop_bit k (push_bit k w) = w"
proof (rule bit_word_eqI)
  fix i
  have "i < n" if "bit w i"
    using assms(1) that by (metis fits_def not_le)
  then show "bit (drop_bit k (push_bit k w)) i = bit w i"
    using assms(2) by (auto simp: bit_drop_bit_eq bit_push_bit_iff)
qed

lemma xor_cancel_right [simp]: "(a::'a::len word) XOR c = b XOR c \<longleftrightarrow> a = b"
  by (metis xor.assoc xor.right_neutral xor_self_eq)

lemma xor_cancel_left [simp]: "(c::'a::len word) XOR a = c XOR b \<longleftrightarrow> a = b"
  by (metis xor.assoc xor.left_neutral xor_self_eq)


lemma and_255_take_bit: "(w::'a::len word) AND 0xff = take_bit 8 w"
  by (simp add: take_bit_eq_mask mask_eq_exp_minus_1)


lemma unat_ucast_up:
  "LENGTH('a) \<le> LENGTH('b) \<Longrightarrow> unat (ucast (w::'a::len word) :: 'b::len word) = unat w"
  by (simp add: unsigned_ucast_eq take_bit_nat_eq_self_iff)
    (meson le_less_trans less_le_trans one_le_numeral power_increasing unsigned_less order_less_le_trans)

lemma unat_ucast_byte [simp]: "8 \<le> LENGTH('b) \<Longrightarrow> unat (ucast (b::byte) :: 'b::len word) = unat b"
  by (simp add: unat_ucast_up)


lemma drop_8_fits_32:
  assumes "fits 32 (c::u64)"
  shows "drop_bit 8 c AND 0x00ffffff = drop_bit 8 c"
proof -
  have "n < 24" if "bit c (8 + n)" for n
    using assms that by (auto simp: fits_def not_less dest: spec [of _ "8 + n"])
  then have "drop_bit 8 c AND mask 24 = drop_bit 8 c"
    by (intro bit_word_eqI) (auto simp: bit_drop_bit_eq bit_and_iff bit_mask_iff)
  then show ?thesis by (simp add: mask_eq_exp_minus_1)
qed

lemma ucast_xor_down: "ucast (a XOR b :: 'a::len word) = (ucast a XOR ucast b :: 'b::len word)"
  by (rule bit_word_eqI) (auto simp: bit_ucast_iff bit_xor_iff dest: bit_imp_le_length)

lemma ucast_byte_twice:
  "8 \<le> LENGTH('a) \<Longrightarrow> (ucast (ucast (b::byte) :: 'a::len word) :: 'b::len word) = ucast b"
  by (rule bit_word_eqI) (auto simp: bit_ucast_iff dest: bit_imp_le_length)

section \<open>Bytes\<close>

text \<open>Ranges of a few bytes are proved by cases.\<close>

lemma byte_in_upt: "n < word_of_nat k \<Longrightarrow> k < 256 \<Longrightarrow> (n::byte) \<in> set (map word_of_nat [0..<k])"
proof -
  assume "n < word_of_nat k" "k < 256"
  then have "unat n < k" by (simp add: word_less_nat_alt unsigned_of_nat take_bit_nat_eq_self)
  then show ?thesis by (simp only: set_map set_upt) (rule image_eqI [of _ _ "unat n"], simp_all)
qed

lemma control_cases:
  assumes "(n::byte) < 32"
  shows "n \<in> {0, 1, 2, 3, 4, 5, 6, 7, 8, 9, 10, 11, 12, 13, 14, 15, 16, 17, 18, 19, 20, 21, 22, 23, 24, 25, 26, 27, 28, 29, 30, 31}"
  using byte_in_upt [of n 32] assms by (simp add: upt_rec) 

lemma nibble_cases:
  assumes "(d::byte) < 16"
  shows "d \<in> {0, 1, 2, 3, 4, 5, 6, 7, 8, 9, 10, 11, 12, 13, 14, 15}"
  using byte_in_upt [of d 16] assms by (simp add: upt_rec)

lemma nibble_less: "(c::byte) AND 0x0f < 16"
  using word_and_le1 [of c 15] by (simp add: word_less_nat_alt word_le_nat_alt and.commute)

lemma split_nibbles: "push_bit 4 (drop_bit 4 c AND 0x0f) OR (c AND 0x0f) = (c::byte)"
proof -
  have m: "(0x0f :: byte) = mask 4" by (simp add: mask_eq_exp_minus_1)
  show ?thesis
    unfolding m by (rule bit_word_eqI) (auto simp: bit_simps bit_mask_iff)
qed

lemma byte_eqI:
  assumes "bit a 0 = bit b 0" "bit a 1 = bit b 1" "bit a 2 = bit b 2" "bit a 3 = bit b 3"
    "bit a 4 = bit b 4" "bit a 5 = bit b 5" "bit a 6 = bit b 6" "bit a 7 = bit b 7"
  shows "a = (b::byte)"
proof (rule bit_word_eqI)
  fix n assume "n < LENGTH(8)"
  then have "n = 0 \<or> n = 1 \<or> n = 2 \<or> n = 3 \<or> n = 4 \<or> n = 5 \<or> n = 6 \<or> n = 7" by (simp, linarith)
  then show "bit a n = bit b n" using assms by (elim disjE) (simp_all only:)
qed

lemma bit_64: "bit (0x40 :: int) n \<longleftrightarrow> n = 6"
proof -
  have "(0x40 :: int) = 2 ^ 6" by simp
  then show ?thesis by (simp only: bit_exp_iff) auto
qed

end
