(* ===== verification/UString.thy ===== *)
theory UString
  imports CString
begin

text \<open>
  The string library of the mailer (\<open>u_string.c\<close>). Functions that return a pointer into their
  argument return the suffix it points to; functions that write through a pointer take and
  return the buffer, and give \<open>None\<close> where the code would write outside it.
\<close>

section \<open>The code\<close>

subsection \<open>Bounded copies\<close>

text \<open>
  \<open>dst[len - 1] = 0\<close> followed by \<open>strncpy(dst, src, len - 1)\<close>, which pads with NUL. A zero
  \<open>len\<close> writes before the buffer, a \<open>len\<close> larger than the buffer behind it.
\<close>

definition strnxcpy :: "char list \<Rightarrow> string \<Rightarrow> nat \<Rightarrow> char list option" where
  "strnxcpy dst src len =
     (if len = 0 \<or> length dst < len then None
      else Some (take (len - 1) (src @ replicate (len - 1) NUL) @ [NUL] @ drop len dst))"

definition strnxcat :: "char list \<Rightarrow> string \<Rightarrow> nat \<Rightarrow> char list option" where
  "strnxcat dst src len =
     (let pos = length (cstr dst) in
      if pos \<ge> length dst \<or> len \<le> pos then None
      else map_option (\<lambda>t. take pos dst @ t) (strnxcpy (drop pos dst) src (len - pos)))"

definition xstrcpy :: "string option \<Rightarrow> string option" where
  "xstrcpy src = (case src of None \<Rightarrow> None | Some s \<Rightarrow> Some s)"

definition xstrcat :: "string option \<Rightarrow> string option \<Rightarrow> string option" where
  "xstrcat src add =
     (case add of
        None \<Rightarrow> src
      | Some a \<Rightarrow> if a = [] then src else Some ((case src of None \<Rightarrow> [] | Some s \<Rightarrow> s) @ a))"

subsection \<open>Tokens\<close>

text \<open>\<open>delim\<close> is empty where the code passes NULL or an empty string.\<close>

definition is_delim :: "string \<Rightarrow> char \<Rightarrow> bool" where
  "is_delim delim c = (if delim \<noteq> [] then c \<in> set delim else isspace c)"

definition string_token ::
  "string option \<Rightarrow> string option \<Rightarrow> string \<Rightarrow> bool \<Rightarrow> (string option \<times> string option)" where
  "string_token str next delim quoted =
     (case (case str of Some s \<Rightarrow> Some s | None \<Rightarrow> next) of
        None \<Rightarrow> (None, next)
      | Some yield \<Rightarrow>
          (let yield = dropWhile (is_delim delim) yield in
           if yield = [] then (None, None)
           else
             let (yield, stop) =
               (if quoted \<and> hd yield = CHR 0x22 then (tl yield, \<lambda>c. c = CHR 0x22)
                else (yield, is_delim delim));
               p = dropWhile (\<lambda>c. \<not> stop c) yield
             in (Some (takeWhile (\<lambda>c. \<not> stop c) yield),
                 if p = [] then None else Some (tl p))))"

text \<open>
  The loop every caller writes:
  \<open>for( p = string_token(s, &n, delim, 0); p; p = string_token(NULL, &n, delim, 0) )\<close>.
\<close>

function string_tokens :: "string option \<Rightarrow> string \<Rightarrow> bool \<Rightarrow> string list" where
  "string_tokens None delim quoted = []"
| "string_tokens (Some s) delim quoted =
     (case string_token (Some s) None delim quoted of
        (None, _) \<Rightarrow> []
      | (Some p, n) \<Rightarrow> p # string_tokens n delim quoted)"
  by pat_completeness auto

lemma string_token_shrinks:
  assumes "string_token (Some s) nx delim quoted = (Some p, Some n)"
  shows "length n < length s"
proof -
  let ?y = "dropWhile (is_delim delim) s"
  have ne: "?y \<noteq> []" using assms by (auto simp: string_token_def Let_def split: if_splits)
  have lt: "length (tl (dropWhile P y)) < length y" if "y \<noteq> []" for P and y :: string
  proof -
    have "0 < length y" using that by simp
    then show ?thesis using length_dropWhile_le [of P y] unfolding length_tl by linarith
  qed
  have lt': "length (tl (dropWhile P (tl ?y))) < length ?y" for P
    using ne length_dropWhile_le [of P "tl ?y"] by (cases ?y) auto
  have "length n < length ?y"
    using assms ne lt [OF ne] lt'
    by (auto simp: string_token_def Let_def simp del: length_tl dropWhile_eq_Nil_conv split: if_splits)
  also have "\<dots> \<le> length s" by (rule length_dropWhile_le)
  finally show ?thesis .
qed

termination string_tokens
  by (relation "measure (\<lambda>(s, _, _). case s of None \<Rightarrow> 0 | Some s \<Rightarrow> Suc (length s))")
    (auto split: option.splits dest: string_token_shrinks [OF sym])


subsection \<open>Trimming, searching and case\<close>

definition string_chomp :: "string \<Rightarrow> string" where
  "string_chomp str =
     (if str = [] then str
      else let str = (if last str = CHR 0x0A then butlast str else str)
           in if str \<noteq> [] \<and> last str = CHR 0x0D then butlast str else str)"

fun string_casestr :: "string \<Rightarrow> string \<Rightarrow> string option" where
  "string_casestr [] substr = None"
| "string_casestr (c # cs) substr =
     (if length (c # cs) < length substr then None
      else if map tolower (take (length substr) (c # cs)) = map tolower substr then Some (c # cs)
      else string_casestr cs substr)"

text \<open>\<open>string_casechr\<close> as the offset of the character found.\<close>

fun string_casechr_from :: "nat \<Rightarrow> string \<Rightarrow> char \<Rightarrow> nat option" where
  "string_casechr_from i [] ch = None"
| "string_casechr_from i (c # str) ch =
     (if tolower c = ch then Some i else string_casechr_from (Suc i) str ch)"

definition string_casechr :: "string \<Rightarrow> char \<Rightarrow> nat option" where
  "string_casechr str ch = string_casechr_from 0 str (tolower ch)"

definition string_toupper :: "string \<Rightarrow> string" where
  "string_toupper str = map toupper str"

definition string_tolower :: "string \<Rightarrow> string" where
  "string_tolower str = map tolower str"

fun string_isupper :: "string \<Rightarrow> bool" where
  "string_isupper [] = True"
| "string_isupper (c # str) = (if isalpha c \<and> islower c then False else string_isupper str)"

fun string_islower :: "string \<Rightarrow> bool" where
  "string_islower [] = True"
| "string_islower (c # str) = (if isalpha c \<and> isupper c then False else string_islower str)"

definition string_trimright :: "string \<Rightarrow> string" where
  "string_trimright str = rev (dropWhile isspace (rev str))"

definition string_trimleft :: "string \<Rightarrow> string" where
  "string_trimleft str = dropWhile isspace str"

definition string_trimboth :: "string \<Rightarrow> string" where
  "string_trimboth str =
     (if str = [] then str else string_trimright (dropWhile isspace str))"

definition string_replchar :: "string \<Rightarrow> char \<Rightarrow> char \<Rightarrow> string" where
  "string_replchar str oldchar newchar = map (\<lambda>c. if c = oldchar then newchar else c) str"

fun string_is_empty :: "string \<Rightarrow> bool" where
  "string_is_empty [] = True"
| "string_is_empty (c # string) = (if \<not> isspace c then False else string_is_empty string)"

definition string_concat :: "string \<Rightarrow> string list \<Rightarrow> string" where
  "string_concat str args = foldl (@) str args"

subsection \<open>Hexadecimal text and quoting\<close>

definition hexdigits :: string where
  "hexdigits = ''0123456789abcdef''"

text \<open>\<open>"\\x%02x"\<close>\<close>

definition hex_escape :: "char \<Rightarrow> string" where
  "hex_escape c = [CHR 0x5C, CHR ''x'', hexdigits ! (ord c div 16), hexdigits ! (ord c mod 16)]"

text \<open>Both results come with the size of the block that was allocated for them.\<close>

definition string_printable_buffer :: "char list \<Rightarrow> nat \<times> string" where
  "string_printable_buffer buffer =
     (let nonprintcount = length (filter (\<lambda>c. \<not> isprint c) buffer)
      in (length buffer + nonprintcount * 4 + 1,
          if nonprintcount = 0 then buffer
          else concat (map (\<lambda>c. if \<not> isprint c then hex_escape c else [c]) buffer)))"

text \<open>
  \<open>string_printable\<close> cycles through five result slots; \<open>printable_pos\<close> is \<open>-1\<close> before the
  first call. A string with nothing to quote is returned as it is.
\<close>

record printable =
  printable_storage :: "string option list"
  printable_pos :: int

definition PRINTABLE_MAXITEMS :: int where
  "PRINTABLE_MAXITEMS = 5"

definition printable_init :: printable where
  "printable_init = \<lparr>printable_storage = replicate 5 None, printable_pos = -1\<rparr>"

datatype printable_result = Literal string | Same string | Slot nat

definition string_printable :: "string option \<Rightarrow> printable \<Rightarrow> printable_result \<times> printable" where
  "string_printable str st =
     (let st = (if printable_pos st = -1
                then st\<lparr>printable_storage := replicate 5 None, printable_pos := 0\<rparr> else st) in
      case str of
        None \<Rightarrow> (Literal ''(null)'', st)
      | Some s \<Rightarrow>
          if \<not> (\<exists>c\<in>set s. iscntrl c \<or> \<not> isprint c) then (Same s, st)
          else
            let st = (if printable_pos st \<ge> PRINTABLE_MAXITEMS then st\<lparr>printable_pos := 0\<rparr> else st);
                i = nat (printable_pos st);
                p = concat (map (\<lambda>c. if iscntrl c \<or> \<not> isprint c then hex_escape c else [c]) s)
            in (Slot i, st\<lparr>printable_storage := (printable_storage st)[i := Some p],
                           printable_pos := printable_pos st + 1\<rparr>))"

fun string_bin_to_hex :: "byte list \<Rightarrow> string" where
  "string_bin_to_hex [] = []"
| "string_bin_to_hex (b # bs) =
     hexdigits ! unat (drop_bit 4 b AND 0x0f) # hexdigits ! unat (b AND 0x0f) # string_bin_to_hex bs"

text \<open>
  \<open>string_hex_to_bin\<close>: 0 on a character that is no hexadecimal digit (the NUL after an odd
  number of digits included), else the decoded bytes; the loop runs for \<open>2 * i < len\<close>.
\<close>

fun string_hex_to_bin :: "string \<Rightarrow> byte list option" where
  "string_hex_to_bin [] = Some []"
| "string_hex_to_bin [c] = None"
| "string_hex_to_bin (c # d # cs) =
     (case string_casechr hexdigits c of
        None \<Rightarrow> None
      | Some h \<Rightarrow>
          (case string_casechr hexdigits d of
             None \<Rightarrow> None
           | Some l \<Rightarrow> map_option (\<lambda>bs. (of_nat (h * 16 + l) AND 0xff) # bs) (string_hex_to_bin cs)))"


subsection \<open>Splitting, substitution, escapes\<close>

text \<open>\<open>string_parse\<close>: the pieces stored in \<open>dest\<close>, at most \<open>items\<close> of them.\<close>

function string_parse_from :: "nat \<Rightarrow> nat \<Rightarrow> string \<Rightarrow> char \<Rightarrow> string list" where
  "string_parse_from count items str separator =
     (let p = dropWhile (\<lambda>c. c \<noteq> separator) str in
      if count < items \<and> p \<noteq> []
      then takeWhile (\<lambda>c. c \<noteq> separator) str # string_parse_from (Suc count) items (tl p) separator
      else [str])"
  by pat_completeness auto
termination
  by (relation "measure (\<lambda>(count, items, _, _). items - count)") auto

declare string_parse_from.simps [simp del]

definition string_parse :: "nat \<Rightarrow> string \<Rightarrow> char \<Rightarrow> string list" where
  "string_parse items str separator = string_parse_from 1 items str separator"

text \<open>\<open>string_parse_regular\<close>: one round of its loop per call.\<close>

definition regular_piece :: "string \<Rightarrow> string option \<times> string" where
  "regular_piece p =
     (let p = dropWhile isspace p in
      if peek p = CHR 0x22 \<and> tl p \<noteq> [] then
        (Some (takeWhile (\<lambda>c. c \<noteq> CHR 0x22) (tl p)), dropWhile (\<lambda>c. c \<noteq> CHR 0x22) (tl p))
      else
        let p = (if peek p = CHR 0x22 then tl p else p) in
        if p \<noteq> [] then (Some (takeWhile (\<lambda>c. \<not> isspace c) p), dropWhile (\<lambda>c. \<not> isspace c) p)
        else (None, []))"

lemma regular_piece_shrinks: "length (snd (regular_piece p)) \<le> length p"
proof -
  have t: "length (dropWhile P (tl q)) \<le> length q" for P and q :: string
    by (rule order.trans [OF length_dropWhile_le]) simp
  have d: "length (dropWhile P (dropWhile Q q)) \<le> length q" for P Q and q :: string
    by (rule order.trans [OF length_dropWhile_le length_dropWhile_le])
  show ?thesis
    using order.trans [OF t length_dropWhile_le, of _ isspace p] d [of _ isspace p]
    by (auto simp: regular_piece_def Let_def simp del: length_tl dropWhile_eq_Nil_conv)
qed

function string_parse_regular_from :: "nat \<Rightarrow> nat \<Rightarrow> string \<Rightarrow> string list" where
  "string_parse_regular_from count items p =
     (if p = [] then []
      else
        (case regular_piece p of
           (piece, p') \<Rightarrow>
             let out = (case piece of None \<Rightarrow> [] | Some w \<Rightarrow> [w]);
                 count' = count + length out
             in if p' \<noteq> [] \<and> count' < items
                then out @ string_parse_regular_from count' items (tl p')
                else out))"
  by pat_completeness auto
termination
proof (relation "measure (\<lambda>(_, _, p). length p)", goal_cases)
  case (2 count items p piece p' out c)
  then have "length p' \<le> length p" using regular_piece_shrinks [of p] by (cases "regular_piece p") simp
  moreover have "length (tl p') < length p'" using 2 by simp
  ultimately show ?case by simp
qed auto

declare string_parse_regular_from.simps [simp del]

definition string_parse_regular :: "nat \<Rightarrow> string \<Rightarrow> string list" where
  "string_parse_regular items str = string_parse_regular_from 0 items str"

text \<open>
  \<open>string_translate\<close>: the text after the NUL that the last \<open>memcmp\<close> calls look at differs from
  \<open>find\<close> (which has no NUL), so a match lies inside the string.
\<close>

function string_translate :: "string \<Rightarrow> string \<Rightarrow> string \<Rightarrow> string" where
  "string_translate str fnd repl =
     (if fnd = [] \<or> str = [] then str
      else if take (length fnd) str = fnd
      then repl @ string_translate (drop (length fnd) str) fnd repl
      else hd str # string_translate (tl str) fnd repl)"
  by pat_completeness auto
termination
  by (relation "measure (\<lambda>(str, _, _). length str)") auto

declare string_translate.simps [simp del]

text \<open>
  \<open>string_get_escape\<close> on the text after the backslash. The second component is where
  \<open>*pptr\<close> is left, \<open>None\<close> when that is behind the terminating NUL. A plain \<open>char\<close> is signed.
\<close>

definition schar :: "char \<Rightarrow> int" where
  "schar c = (if ord c < 128 then int (ord c) else int (ord c) - 256)"

definition past :: "string \<Rightarrow> string option" where
  "past p = (case p of [] \<Rightarrow> None | _ # p' \<Rightarrow> Some p')"

definition isoctal :: "char \<Rightarrow> bool" where
  "isoctal c \<longleftrightarrow> isdigit c \<and> c \<noteq> CHR ''8'' \<and> c \<noteq> CHR ''9''"

definition digit :: "char \<Rightarrow> int" where
  "digit c = int (ord c) - 48"

definition string_get_escape :: "string \<Rightarrow> int \<times> string option" where
  "string_get_escape p =
     (let (ch, p) =
        (if peek p = CHR ''x'' then
           (case string_casechr hexdigits (peek (tl p)) of
              None \<Rightarrow> (0, tl p)
            | Some h \<Rightarrow>
                (case string_casechr hexdigits (peek (tl (tl p))) of
                   None \<Rightarrow> (int h, tl (tl p))
                 | Some l \<Rightarrow> (int h * 16 + int l, tl (tl p))))
         else if peek p \<in> {CHR ''0'', CHR ''1'', CHR ''2'', CHR ''3''} then
           let ch = digit (peek p); p = tl p in
           if isoctal (peek p) then
             let ch = ch * 8 + digit (peek p); p = tl p in
             if isoctal (peek p) then (ch * 8 + digit (peek p), p) else (ch, p)
           else (ch, p)
         else if peek p = CHR ''a'' then (7, p)
         else if peek p = CHR ''b'' then (8, p)
         else if peek p = CHR ''f'' then (12, p)
         else if peek p = CHR ''n'' then (10, p)
         else if peek p = CHR ''r'' then (13, p)
         else if peek p = CHR ''t'' then (9, p)
         else if peek p = CHR 0x5C then (92, p)
         else (schar (peek p), p))
      in (if ch > 0 then ch mod 256 else -1, past p))"

text \<open>
  \<open>string_dequote\<close>: \<open>None\<close> where it goes on reading behind the end of its argument.
\<close>

function string_dequote :: "string \<Rightarrow> string option" where
  "string_dequote s =
     (if s = [] then Some []
      else if hd s = CHR 0x5C \<and> tl s \<noteq> [] then
        (case string_get_escape (tl s) of
           (ch, None) \<Rightarrow> None
         | (ch, Some s') \<Rightarrow>
             map_option (\<lambda>d. (if ch \<noteq> -1 then [char_of (nat ch)] else []) @ d) (string_dequote s'))
      else map_option (\<lambda>d. hd s # d) (string_dequote (tl s)))"
  by pat_completeness auto

lemma string_get_escape_shrinks:
  assumes "string_get_escape p = (ch, Some p')" shows "length p' \<le> length p"
proof -
  have "length p' \<le> length q" if "past q = Some p'" for q
    using that by (auto simp: past_def split: list.splits)
  note P = this
  have T: "length (tl q) \<le> length q" "length (tl (tl q)) \<le> length q" for q :: string
    by simp_all
  from assms have "past p = Some p' \<or> past (tl p) = Some p' \<or> past (tl (tl p)) = Some p'"
    by (auto simp: string_get_escape_def Let_def split: if_splits option.splits)
  with P T show ?thesis by (meson order.trans)
qed

termination string_dequote
proof (relation "measure length", goal_cases)
  case (2 s x y s')
  then have "length s' \<le> length (tl s)"
    by (metis string_get_escape_shrinks)
  moreover have "length (tl s) < length s" using 2 by (cases s) auto
  ultimately show ?case by simp
qed auto

declare string_dequote.simps [simp del]


section \<open>Bounded copies stay in bounds and terminate\<close>

lemma cstr_id: "nul_free s \<Longrightarrow> cstr s = s"
  by (auto simp: cstr_def nul_free_def takeWhile_eq_all_conv)

lemma cstr_pad: "nul_free s \<Longrightarrow> cstr (s @ replicate k NUL @ NUL # t) = s"
  by (cases k) simp_all

lemma length_strnxcpy: "strnxcpy dst src len = Some b \<Longrightarrow> length b = length dst"
  by (auto simp: strnxcpy_def split: if_splits)

lemma strnxcpy_defined: "strnxcpy dst src len \<noteq> None \<longleftrightarrow> 0 < len \<and> len \<le> length dst"
  by (auto simp: strnxcpy_def)

lemma strnxcpy_cstr:
  assumes "nul_free src" "strnxcpy dst src len = Some b"
  shows "cstr b = take (len - 1) src"
  using assms by (auto simp: strnxcpy_def cstr_pad split: if_splits)

lemma length_cstr: "length (cstr b) \<le> length b"
  by (simp add: cstr_def length_takeWhile_le)

lemma cstr_prefix: "take (length (cstr b)) b = cstr b"
  by (simp add: cstr_def takeWhile_eq_take [symmetric])

lemma cstr_append: "nul_free s \<Longrightarrow> cstr (s @ t) = s @ cstr t"
  by (induction s) (auto simp: cstr_def)

lemma strnxcat_cstr:
  assumes "nul_free src" "strnxcat dst src len = Some b"
  shows "length b = length dst \<and> cstr b = take (len - 1) (cstr dst @ src)"
proof -
  let ?n = "length (cstr dst)"
  from assms(2) obtain t where n: "?n < length dst" "?n < len"
    and t: "strnxcpy (drop ?n dst) src (len - ?n) = Some t" and b: "b = take ?n dst @ t"
    by (auto simp: strnxcat_def Let_def split: if_splits)
  have "cstr b = cstr dst @ cstr t"
    unfolding b cstr_prefix by (rule cstr_append) simp
  moreover have "length b = length dst"
    using length_strnxcpy [OF t] n by (simp add: b)
  ultimately show ?thesis
    using n strnxcpy_cstr [OF assms(1) t] by (simp add: take_append diff_commute)
qed

section \<open>Tokens\<close>

text \<open>A text as gaps and words: every gap but the first is non-empty.\<close>

definition gap :: "string \<Rightarrow> string \<Rightarrow> bool" where
  "gap delim g \<longleftrightarrow> (\<forall>c\<in>set g. is_delim delim c)"

definition word :: "string \<Rightarrow> string \<Rightarrow> bool" where
  "word delim w \<longleftrightarrow> w \<noteq> [] \<and> (\<forall>c\<in>set w. \<not> is_delim delim c)"

fun spaced :: "string \<Rightarrow> (string \<times> string) list \<Rightarrow> bool" where
  "spaced delim [] = True"
| "spaced delim ((g, w) # gws) =
     (gap delim g \<and> word delim w \<and> spaced delim gws \<and> (\<forall>g' w' r. gws = (g', w') # r \<longrightarrow> g' \<noteq> []))"

definition layout :: "(string \<times> string) list \<Rightarrow> string \<Rightarrow> string" where
  "layout gws trail = concat (map (\<lambda>(g, w). g @ w) gws) @ trail"

lemma dropWhile_gap: "gap delim g \<Longrightarrow> dropWhile (is_delim delim) (g @ r) = dropWhile (is_delim delim) r"
  by (induction g) (auto simp: gap_def)

lemma word_split:
  assumes "word delim w" and "r = [] \<or> is_delim delim (hd r)"
  shows "takeWhile (\<lambda>c. \<not> is_delim delim c) (w @ r) = w"
    and "dropWhile (\<lambda>c. \<not> is_delim delim c) (w @ r) = r"
  using assms by (cases r; auto simp: word_def)+

lemma token_step:
  assumes "gap delim g" "word delim w" "r = [] \<or> is_delim delim (hd r)"
  shows "string_token (Some (g @ w @ r)) n delim False = (Some w, if r = [] then None else Some (tl r))"
proof -
  have "dropWhile (is_delim delim) (g @ w @ r) = w @ r"
    using assms(1,2) by (cases w) (auto simp: dropWhile_gap word_def)
  moreover have "w \<noteq> []" using assms(2) by (simp add: word_def)
  ultimately show ?thesis
    using word_split [OF assms(2,3)] by (simp add: string_token_def del: dropWhile_eq_Nil_conv)
qed

lemma string_tokens_gap: "gap delim g \<Longrightarrow> string_tokens (Some g) delim False = []"
  by (auto simp: string_token_def gap_def)

lemma layout_head: "spaced delim gws \<Longrightarrow> (case gws of [] \<Rightarrow> True | (g, w) # _ \<Rightarrow> g \<noteq> []) \<Longrightarrow>
    gap delim trail \<Longrightarrow> layout gws trail = [] \<or> is_delim delim (hd (layout gws trail))"
  by (cases gws; cases trail) (auto simp: layout_def gap_def neq_Nil_conv)

lemma string_tokens_layout:
  "spaced delim gws \<Longrightarrow> gap delim trail \<Longrightarrow>
    string_tokens (Some (layout gws trail)) delim False = map snd gws"
proof (induction gws)
  case Nil
  then show ?case by (simp add: layout_def string_tokens_gap del: string_tokens.simps)
next
  case (Cons gw gws)
  obtain g w where gw: "gw = (g, w)" by (cases gw)
  let ?r = "layout gws trail"
  have r: "?r = [] \<or> is_delim delim (hd ?r)"
    using Cons.prems gw by (intro layout_head) (auto split: list.splits)
  have IH: "string_tokens (Some ?r) delim False = map snd gws"
    using Cons gw by simp
  have skip: "string_tokens (Some (tl ?r)) delim False = string_tokens (Some ?r) delim False" if "?r \<noteq> []"
    using r that by (cases ?r) (auto simp: string_token_def)
  have "layout (gw # gws) trail = g @ w @ ?r" by (simp add: layout_def gw)
  moreover have "gap delim g" "word delim w" using Cons.prems gw by auto
  ultimately show ?case
    using token_step [OF _ _ r, of g w None] IH skip gw
    by (cases "?r = []") (auto simp: string_token_def)
qed

text \<open>Every string is laid out so, and the words come back without their gaps.\<close>

lemma layout_exists: "\<exists>gws trail. s = layout gws trail \<and> spaced delim gws \<and> gap delim trail"
proof (induction "length s" arbitrary: s rule: less_induct)
  case less
  let ?g = "takeWhile (is_delim delim) s" and ?y = "dropWhile (is_delim delim) s"
  have g: "gap delim ?g" by (auto simp: gap_def dest: set_takeWhileD)
  show ?case
  proof (cases "?y = []")
    case True
    then have "s = layout [] s \<and> spaced delim [] \<and> gap delim s"
      by (auto simp: layout_def gap_def)
    then show ?thesis by blast
  next
    case False
    let ?w = "takeWhile (\<lambda>c. \<not> is_delim delim c) ?y" and ?r = "dropWhile (\<lambda>c. \<not> is_delim delim c) ?y"
    have h: "\<not> is_delim delim (hd ?y)" using False by (rule hd_dropWhile)
    then have w: "word delim ?w"
      using False by (cases ?y) (auto simp: word_def dest: set_takeWhileD)
    have "length ?r < length ?y"
      using False h length_dropWhile_le [of _ "tl ?y"] by (cases ?y) (auto simp: le_imp_less_Suc)
    from this length_dropWhile_le have "length ?r < length s" by (rule less_le_trans)
    from less [OF this] obtain gws trail where
      r: "?r = layout gws trail" "spaced delim gws" "gap delim trail" by blast
    have r0: "?r = [] \<or> is_delim delim (hd ?r)" using hd_dropWhile [of _ ?y] by blast
    have "g' \<noteq> []" if "gws = (g', w') # gws'" for g' w' gws'
      using r0 r(1,2) that by (auto simp: layout_def word_def hd_append split: if_splits)
    with g w r have "spaced delim ((?g, ?w) # gws)" by auto
    moreover have "s = layout ((?g, ?w) # gws) trail"
    proof -
      have "s = ?g @ ?w @ ?r" by simp
      then show ?thesis by (simp add: r(1) layout_def)
    qed
    ultimately show ?thesis using r(3) by blast
  qed
qed

lemma string_tokens_words: "w \<in> set (string_tokens (Some s) delim False) \<Longrightarrow> word delim w"
proof -
  assume w: "w \<in> set (string_tokens (Some s) delim False)"
  obtain gws trail where s: "s = layout gws trail" "spaced delim gws" "gap delim trail"
    using layout_exists by blast
  have "word delim w" if "spaced delim gws" "w \<in> set (map snd gws)" for gws
    using that by (induction gws) force+
  then show "word delim w"
    using w s string_tokens_layout by metis
qed


section \<open>Hexadecimal text\<close>

lemma casechr_hexdigits: "d < 16 \<Longrightarrow> string_casechr hexdigits (hexdigits ! d) = Some d"
proof -
  have "\<forall>d\<in>set [0..<16]. string_casechr hexdigits (hexdigits ! d) = Some d"
    by code_simp
  moreover assume "d < 16"
  ultimately show ?thesis by simp
qed

lemma nibbles:
  fixes b :: byte
  shows "unat (drop_bit 4 b) mod 16 = unat b div 16" and "unat (b AND 0x0f) = unat b mod 16"
proof -
  have m: "w AND 0x0f = take_bit 4 w" for w :: byte
    by (simp add: take_bit_eq_mask mask_eq_exp_minus_1)
  show "unat (b AND 0x0f) = unat b mod 16"
    by (simp add: m unsigned_take_bit_eq take_bit_eq_mod unat_mod_distrib)
  have "unat b div 16 < 16" using unsigned_less [of b] by (auto intro: less_mult_imp_div_less)
  then show "unat (drop_bit 4 b) mod 16 = unat b div 16"
    by (simp add: unsigned_drop_bit_eq drop_bit_eq_div unat_div_distrib)
qed

lemma unat_byte_less [simp]: "unat (b::byte) < 256"
  using unsigned_less [of b] by simp

lemma hex_byte: "of_nat (unat b div 16 * 16 + unat b mod 16) AND 0xff = (b::byte)"
proof -
  have "unat b div 16 * 16 + unat b mod 16 = unat b" by simp
  then show ?thesis by (simp only: of_nat_unat) (simp add: and_255_take_bit)
qed

lemma hex_roundtrip: "string_hex_to_bin (string_bin_to_hex bs) = Some bs"
proof (induction bs)
  case (Cons b bs)
  have "unat b div 16 < 16" "unat b mod 16 < 16"
    using unat_byte_less [of b] by (auto intro: less_mult_imp_div_less)
  with Cons show ?case
    by (simp only: string_bin_to_hex.simps string_hex_to_bin.simps nibbles casechr_hexdigits
        option.case option.map hex_byte)
qed simp

lemma length_hex: "length (string_bin_to_hex bs) = 2 * length bs"
  by (induction bs) auto

lemma length_hex_to_bin: "string_hex_to_bin s = Some bs \<Longrightarrow> length s = 2 * length bs"
  by (induction s arbitrary: bs rule: string_hex_to_bin.induct) (auto split: option.splits)

lemma case_hex: "string_casechr hexdigits (toupper c) = string_casechr hexdigits c"
proof -
  have "tolower (toupper c) = tolower c"
  proof (cases "islower c")
    case True
    then have "ord (toupper c) = ord c - 32" "65 \<le> ord c - 32" "ord c - 32 \<le> 90" "32 \<le> ord c"
      by (auto simp: toupper_def islower_def)
    then show ?thesis using True
      by (auto simp: tolower_def isupper_def islower_def)
  qed (simp add: toupper_def)
  then show ?thesis by (simp add: string_casechr_def)
qed

section \<open>Escapes\<close>

lemma peek_hex: "d < 16 \<Longrightarrow> hexdigits ! d \<noteq> NUL"
proof -
  have "\<forall>d\<in>set [0..<16]. hexdigits ! d \<noteq> NUL" by code_simp
  moreover assume "d < 16"
  ultimately show ?thesis by simp
qed

lemma get_escape_digits:
  assumes "h < 16" "l < 16"
  shows "string_get_escape (CHR ''x'' # hexdigits ! h # hexdigits ! l # s)
    = (if 0 < int h * 16 + int l then (int h * 16 + int l) mod 256 else -1, Some s)"
  using assms by (simp add: string_get_escape_def casechr_hexdigits past_def)

lemma get_escape_hex:
  assumes "c \<noteq> NUL"
  shows "string_get_escape (tl (hex_escape c @ s)) = (int (ord c), Some s)"
proof -
  have lt: "ord c div 16 < 16" "ord c mod 16 < 16"
    using nat_of_char_less_256 [of c] by (auto intro: less_mult_imp_div_less)
  have "ord c div 16 * 16 + ord c mod 16 = ord c" by simp
  from arg_cong [OF this, of int]
  have e: "int (ord c div 16) * 16 + int (ord c mod 16) = int (ord c)"
    by (simp only: of_nat_add of_nat_mult of_nat_numeral)
  have "ord c \<noteq> 0" using assms by simp
  then have "0 < int (ord c)" by linarith
  moreover have "int (ord c) mod 256 = int (ord c)"
    using nat_of_char_less_256 [of c] by simp
  ultimately show ?thesis
    using get_escape_digits [OF lt, of s] unfolding e by (simp add: hex_escape_def)
qed

lemma dequote_escape:
  assumes "c \<noteq> NUL"
  shows "string_dequote (hex_escape c @ s) = map_option ((#) c) (string_dequote s)"
proof -
  have "string_dequote (hex_escape c @ s) =
      map_option (\<lambda>d. [char_of (nat (int (ord c)))] @ d) (string_dequote s)"
    using get_escape_hex [OF assms, of s]
    by (subst string_dequote.simps) (simp add: hex_escape_def)
  then show ?thesis by simp
qed

lemma dequote_plain: "c \<noteq> CHR 0x5C \<Longrightarrow>
    string_dequote (c # s) = map_option ((#) c) (string_dequote s)"
  by (subst string_dequote.simps) simp

lemma printable_buffer_quoted:
  "snd (string_printable_buffer b) = concat (map (\<lambda>c. if \<not> isprint c then hex_escape c else [c]) b)"
proof -
  have "concat (map (\<lambda>c. if \<not> isprint c then hex_escape c else [c]) b) = b" if "\<forall>c\<in>set b. isprint c"
    using that by (induction b) auto
  then show ?thesis by (auto simp: string_printable_buffer_def Let_def filter_empty_conv)
qed


section \<open>Splitting on a separator\<close>

fun join :: "char \<Rightarrow> string list \<Rightarrow> string" where
  "join c [] = []"
| "join c [w] = w"
| "join c (w # ws) = w @ c # join c ws"

lemma string_parse_from_props:
  "join sep (string_parse_from count items s sep) = s
    \<and> string_parse_from count items s sep \<noteq> []
    \<and> count + length (string_parse_from count items s sep) \<le> Suc (max count items)"
proof (induction count items s sep rule: string_parse_from.induct)
  case (1 count items s sep)
  let ?p = "dropWhile (\<lambda>c. c \<noteq> sep) s"
  show ?case
  proof (cases "count < items \<and> ?p \<noteq> []")
    case True
    let ?ps = "string_parse_from (Suc count) items (tl ?p) sep"
    have e: "string_parse_from count items s sep = takeWhile (\<lambda>c. c \<noteq> sep) s # ?ps"
      using True by (subst string_parse_from.simps) (simp add: Let_def)
    have IH: "join sep ?ps = tl ?p" "?ps \<noteq> []" "Suc count + length ?ps \<le> Suc (max (Suc count) items)"
      using "1.IH" True by auto
    have "hd ?p = sep" using True hd_dropWhile [of "\<lambda>c. c \<noteq> sep" s] by simp
    then have "sep # tl ?p = ?p" using True by (cases ?p) auto
    then have "takeWhile (\<lambda>c. c \<noteq> sep) s @ sep # tl ?p = s" by simp
    then show ?thesis using IH True by (cases ?ps) (auto simp: e)
  next
    case False
    then have "string_parse_from count items s sep = [s]"
      by (subst string_parse_from.simps) (auto simp: Let_def)
    then show ?thesis by simp
  qed
qed

lemma string_parse_join: "join sep (string_parse items s sep) = s"
  by (simp add: string_parse_def string_parse_from_props)

lemma string_parse_bound: "length (string_parse items s sep) \<le> max 1 items"
  using string_parse_from_props [of sep 1 items s] by (simp add: string_parse_def)

lemma string_parse_regular_bound:
  "count \<le> items \<Longrightarrow> count + length (string_parse_regular_from count items p) \<le> max (Suc count) items"
proof (induction count items p rule: string_parse_regular_from.induct)
  case (1 count items p)
  obtain piece p' where r: "regular_piece p = (piece, p')" by (cases "regular_piece p")
  have "length (case piece of None \<Rightarrow> [] | Some w \<Rightarrow> [w]) \<le> 1" by (auto split: option.split)
  then show ?case
    using "1.IH" [OF _ r [symmetric]] "1.prems"
    by (subst string_parse_regular_from.simps) (fastforce simp: r Let_def)
qed

text \<open>A bounded copy into a cleared array of \<open>len\<close> characters, read back as a string.\<close>

definition strncopy :: "nat \<Rightarrow> string \<Rightarrow> string" where
  "strncopy len src = cstr (the (strnxcpy (replicate len NUL) src len))"

lemma strncopy_eq: "nul_free src \<Longrightarrow> 0 < len \<Longrightarrow> strncopy len src = take (len - 1) src"
  using strnxcpy_defined [of "replicate len NUL" src len]
  by (auto simp: strncopy_def strnxcpy_cstr)

text \<open>The text that the pointer returned by \<open>string_printable\<close> shows.\<close>

definition printable_text :: "string \<Rightarrow> string" where
  "printable_text s = concat (map (\<lambda>c. if iscntrl c \<or> \<not> isprint c then hex_escape c else [c]) s)"

lemma printable_text_id: "\<forall>c\<in>set s. isprint c \<Longrightarrow> printable_text s = s"
  by (induction s) (auto simp: printable_text_def isprint_def iscntrl_def)

lemma string_printable_text:
  assumes "string_printable (Some s) st = (r, st')" "length (printable_storage st) = 5" "-1 \<le> printable_pos st"
  shows "(case r of Literal t \<Rightarrow> Some t | Same t \<Rightarrow> Some t | Slot i \<Rightarrow> printable_storage st' ! i)
      = Some (printable_text s)"
proof (cases "\<exists>c\<in>set s. iscntrl c \<or> \<not> isprint c")
  case True
  with assms show ?thesis
    by (auto simp: string_printable_def printable_text_def PRINTABLE_MAXITEMS_def Let_def nat_less_iff split: if_splits)
next
  case False
  then have "printable_text s = s" by (intro printable_text_id) blast
  moreover have "r = Same s" using False assms(1) by (auto simp: string_printable_def Let_def)
  ultimately show ?thesis by simp
qed

section \<open>Properties\<close>

text \<open>
  the bounded copy and append are defined exactly when they stay inside the destination;
  they keep its size, always leave it terminated, and the string in it is the source (the old
  contents followed by the source) cut to \<open>len - 1\<close> characters.
\<close>

theorem strnx_bounded:
  assumes "nul_free src"
  shows "(strnxcpy dst src len = None \<longleftrightarrow> len = 0 \<or> length dst < len)
    \<and> (\<forall>b. strnxcpy dst src len = Some b \<longrightarrow>
          length b = length dst \<and> cstr b = take (len - 1) src \<and> drop len b = drop len dst)
    \<and> (length (cstr dst) < len \<longrightarrow> len \<le> length dst \<longrightarrow>
          (\<exists>b. strnxcat dst src len = Some b \<and> length b = length dst
             \<and> cstr b = take (len - 1) (cstr dst @ src)))"
proof (intro conjI impI allI)
  show "strnxcpy dst src len = None \<longleftrightarrow> len = 0 \<or> length dst < len"
    by (simp add: strnxcpy_def)
  fix b assume b: "strnxcpy dst src len = Some b"
  show "length b = length dst" using b by (rule length_strnxcpy)
  show "cstr b = take (len - 1) src" using assms b by (rule strnxcpy_cstr)
  from b have "b = take (len - 1) (src @ replicate (len - 1) NUL) @ [NUL] @ drop len dst" "0 < len"
    by (auto simp: strnxcpy_def split: if_splits)
  moreover have "length (take (len - 1) (src @ replicate (len - 1) NUL) @ [NUL]) = len" if "0 < len"
    using that by simp
  ultimately show "drop len b = drop len dst"
    by (metis append.assoc append_eq_conv_conj)
next
  assume "length (cstr dst) < len" "len \<le> length dst"
  then have "strnxcpy (drop (length (cstr dst)) dst) src (len - length (cstr dst)) \<noteq> None"
    unfolding strnxcpy_defined by simp
  with \<open>length (cstr dst) < len\<close> \<open>len \<le> length dst\<close> obtain b where "strnxcat dst src len = Some b"
    by (auto simp: strnxcat_def Let_def)
  with strnxcat_cstr [OF assms this]
  show "\<exists>b. strnxcat dst src len = Some b \<and> length b = length dst
             \<and> cstr b = take (len - 1) (cstr dst @ src)" by blast
qed

theorem strnx_bounded_witness:
  "\<exists>b. strnxcat (''ab'' @ [NUL, NUL, NUL]) ''cdef'' 5 = Some b \<and> length b = 5 \<and> cstr b = ''abcd''"
  using strnx_bounded [of "''cdef''" "''ab'' @ [NUL, NUL, NUL]" 5]
  by (auto simp: cstr_def)

text \<open>
  tokenising a text gives exactly its words in order: every string is a sequence of
  delimiter gaps and delimiter-free words, and whatever the gaps are, \<open>string_token\<close> iterated
  over it returns the words (and terminates).
\<close>

theorem string_tokens_correct:
  "\<exists>gws trail. s = layout gws trail \<and> spaced delim gws \<and> gap delim trail
      \<and> string_tokens (Some s) delim False = map snd gws"
  using layout_exists [of s delim] string_tokens_layout by blast

lemma hex_to_bin_upper: "string_hex_to_bin (map toupper s) = string_hex_to_bin s"
  by (induction s rule: string_hex_to_bin.induct) (auto simp: case_hex split: option.splits)

text \<open>
  the hexadecimal form of a challenge or digest decodes to the bytes it was made from, in
  either letter case of the text; a successful decoding stores half as many bytes as the text
  has characters.
\<close>

theorem string_hex_roundtrip:
  "string_hex_to_bin (string_bin_to_hex bs) = Some bs
    \<and> string_hex_to_bin (string_toupper (string_bin_to_hex bs)) = Some bs
    \<and> length (string_bin_to_hex bs) = 2 * length bs
    \<and> (string_hex_to_bin s = Some r \<longrightarrow> 2 * length r = length s)"
  by (auto simp: hex_roundtrip hex_to_bin_upper string_toupper_def length_hex
      dest: length_hex_to_bin)

theorem string_hex_roundtrip_witness:
  "string_hex_to_bin (string_bin_to_hex [0x4f, 0xa0]) = Some [0x4f, 0xa0]
    \<and> length (string_bin_to_hex [0x4f, 0xa0 :: byte]) = 4"
  using string_hex_roundtrip [of "[0x4f, 0xa0]" "[]" "[]"] by simp

lemma hexdigits_printable: "d < 16 \<Longrightarrow> isprint (hexdigits ! d)"
proof -
  have "\<forall>d\<in>set [0..<16]. isprint (hexdigits ! d)" by code_simp
  moreover assume "d < 16"
  ultimately show ?thesis by simp
qed

lemma isprint_hex_escape: "x \<in> set (hex_escape c) \<Longrightarrow> isprint x"
proof -
  have "ord c div 16 < 16" "ord c mod 16 < 16"
    using nat_of_char_less_256 [of c] by (auto intro: less_mult_imp_div_less)
  moreover assume "x \<in> set (hex_escape c)"
  ultimately show ?thesis
    by (auto simp: hex_escape_def hexdigits_printable) (simp_all add: isprint_def)
qed

lemma length_quoted:
  "length (concat (map (\<lambda>c. if \<not> isprint c then hex_escape c else [c]) b))
    = length b + 3 * length (filter (\<lambda>c. \<not> isprint c) b)"
  by (induction b) (auto simp: hex_escape_def)

lemma dequote_quoted: "nul_free b \<Longrightarrow> CHR 0x5C \<notin> set b \<Longrightarrow>
    string_dequote (concat (map (\<lambda>c. if \<not> isprint c then hex_escape c else [c]) b)) = Some b"
proof (induction b)
  case Nil
  then show ?case by (simp add: string_dequote.simps)
qed (auto simp: dequote_escape dequote_plain)

text \<open>
  quoting the unprintable characters of a string fits the block allocated for it, prints
  only printable characters, and is undone by \<open>string_dequote\<close> when the text has no backslash
  of its own.
\<close>

theorem string_printable_roundtrip:
  "(\<forall>c\<in>set (snd (string_printable_buffer b)). isprint c)
    \<and> length (snd (string_printable_buffer b)) < fst (string_printable_buffer b)
    \<and> (nul_free b \<and> CHR 0x5C \<notin> set b \<longrightarrow> string_dequote (snd (string_printable_buffer b)) = Some b)"
  unfolding printable_buffer_quoted
  by (auto simp: length_quoted dequote_quoted string_printable_buffer_def Let_def
      dest: isprint_hex_escape split: if_splits)

theorem string_printable_roundtrip_witness:
  "string_dequote (snd (string_printable_buffer [CHR ''a'', CHR 0x07])) = Some [CHR ''a'', CHR 0x07]"
  using string_printable_roundtrip [of "[CHR ''a'', CHR 0x07]"] by simp

text \<open>
  the decoder mishandles every shorter escape: an octal escape of one or two digits, or
  \<open>\x\<close> with fewer than two hexadecimal digits, swallows the character after it, and at the end
  of the text it moves behind the terminating NUL, so that \<open>string_dequote\<close> reads on outside
  its argument.
\<close>

theorem short_escapes_overrun:
  "string_dequote (CHR 0x5C # ''1zebra'') = Some (CHR 0x01 # ''ebra'')
    \<and> string_dequote (CHR 0x5C # ''12zebra'') = Some (CHR 0x0A # ''ebra'')
    \<and> string_dequote (CHR 0x5C # ''x7zebra'') = Some (CHR 0x07 # ''ebra'')
    \<and> string_dequote (CHR 0x5C # ''1'') = None
    \<and> string_dequote (CHR 0x5C # ''12'') = None
    \<and> string_dequote (CHR 0x5C # ''x7'') = None
    \<and> string_dequote (CHR 0x5C # ''x'') = None"
  by (simp add: string_dequote.simps string_get_escape_def string_casechr_def hexdigits_def
      tolower_def ctype_defs isoctal_def digit_def past_def schar_def char_of_eq_iff)

end
