(* ===== verification/UMisc.thy ===== *)
theory UMisc
  imports UString
begin

text \<open>
  Mask matching and byte-order helpers (\<open>u_misc.c\<close>): \<open>strcasemask\<close> against a declarative
  matcher, \<open>checkmasks\<close> with its aliases and negations, and the little-endian packers.
\<close>

section \<open>The code\<close>

subsection \<open>Masks\<close>

text \<open>0 is a match, as in the code. The second function is the \<open>do\<close> loop of the star branch.\<close>

function strcasemask :: "string \<Rightarrow> string \<Rightarrow> int"
  and star_loop :: "string \<Rightarrow> string \<Rightarrow> int" where
  "strcasemask s m =
     (if s = [] then (if m \<noteq> [] then 1 else 0)
      else
        (case m of
           [] \<Rightarrow> 1
         | c # m' \<Rightarrow>
             if c = CHR 0x5C then
               (case m' of
                  [] \<Rightarrow> if hd s = CHR 0x5C \<and> tl s = [] then 0 else 1
                | d # m'' \<Rightarrow> if toupper d \<noteq> toupper (hd s) then 1 else strcasemask (tl s) m'')
             else if c = CHR ''?'' then strcasemask (tl s) m'
             else if c = CHR ''*'' then (if m' \<noteq> [] then star_loop s m' else 0)
             else if toupper c \<noteq> toupper (hd s) then 1
             else strcasemask (tl s) m'))"
| "star_loop s m =
     (let m = dropWhile (\<lambda>c. c = CHR ''*'') m;
          s = (if peek m \<noteq> CHR 0x5C \<and> peek m \<noteq> CHR ''?''
               then dropWhile (\<lambda>c. toupper c \<noteq> toupper (peek m)) s else s)
      in if s = [] then 1
         else if strcasemask s m = 0 then 0
         else star_loop (tl s) m)"
  by pat_completeness auto
termination
proof (relation "measures [\<lambda>x. case x of Inl (s, m) \<Rightarrow> length s + length m | Inr (s, m) \<Rightarrow> length s + length m,
    \<lambda>x. case x of Inl _ \<Rightarrow> 0 | Inr _ \<Rightarrow> 1]", goal_cases)
  case 1
  show ?case by simp
next
  case (6 s m m' s')
  have "length s' \<le> length s" "length m' \<le> length m"
    using 6 by (auto simp: length_dropWhile_le)
  then show ?case by auto
next
  case (7 s m m' s')
  have "length s' \<le> length s" "length m' \<le> length m"
    using 7 by (auto simp: length_dropWhile_le)
  moreover have "length (tl s') < length s'" using 7 by simp
  ultimately show ?case by auto
qed auto

declare strcasemask.simps [simp del] star_loop.simps [simp del]

definition magfname :: "(string \<times> string) list" where
  "magfname =
     [(''netmail'', ''*.pkt *.out *.cut *.hut *.dut *.iut''),
      (''arcmail'', ''*.su? *.mo? *.tu? *.we? *.th? *.fr? *.sa?''),
      (''ticfile'', ''*.tic''),
      (''archive'', ''*.tgz *.bz2 *.zip *.rar *.arj *.lha *.ha'')]"

definition strcasecmp_eq :: "string \<Rightarrow> string \<Rightarrow> bool" where
  "strcasecmp_eq a b \<longleftrightarrow> map tolower a = map tolower b"

text \<open>
  The loop of \<open>checkmasks\<close> over the remaining tokens with the running \<open>yield\<close>; \<open>sub\<close> is the
  recursive call on the masks of an alias. 0 means that the name conforms.
\<close>

fun checkmasks_loop :: "(string \<Rightarrow> int) \<Rightarrow> string list \<Rightarrow> string \<Rightarrow> int \<Rightarrow> int" where
  "checkmasks_loop sub [] str yield = yield"
| "checkmasks_loop sub (p # ps) str yield =
     (let neg = (peek p = CHR ''!''); p = (if neg then tl p else p) in
      if peek p = CHR ''%'' then
        (case find (\<lambda>(alias, masks). strcasecmp_eq (tl p) alias) magfname of
           None \<Rightarrow> checkmasks_loop sub ps str yield
         | Some (alias, masks) \<Rightarrow>
             if sub masks = 0 then (if neg then 1 else 0)
             else checkmasks_loop sub ps str (if neg then 0 else yield))
      else if strcasemask str p = 0 then (if neg then 1 else 0)
      else checkmasks_loop sub ps str (if neg then 0 else yield))"

text \<open>Recursion depth as fuel; the aliases name no aliases, so two levels suffice.\<close>

fun checkmasks_depth :: "nat \<Rightarrow> string \<Rightarrow> string \<Rightarrow> int" where
  "checkmasks_depth 0 masks str = 1"
| "checkmasks_depth (Suc n) masks str =
     checkmasks_loop (\<lambda>ms. checkmasks_depth n ms str) (string_tokens (Some masks) [] True) str 1"

definition checkmasks :: "string \<Rightarrow> string \<Rightarrow> int" where
  "checkmasks masks str = checkmasks_depth 2 masks str"

subsection \<open>Little-endian integers\<close>

text \<open>A \<open>long\<close> has 64 bits, an \<open>int\<close> 32; the first four (two) bytes of the buffer are written.\<close>

definition buffer_putlong :: "u64 \<Rightarrow> byte list" where
  "buffer_putlong val =
     [ucast (val AND 0xff), ucast (drop_bit 8 val AND 0xff),
      ucast (drop_bit 16 val AND 0xff), ucast (drop_bit 24 val AND 0xff)]"

definition buffer_putint :: "u32 \<Rightarrow> byte list" where
  "buffer_putint val = [ucast (val AND 0xff), ucast (drop_bit 8 val AND 0xff)]"

definition buffer_getlong :: "byte list \<Rightarrow> u64" where
  "buffer_getlong buf =
     ucast (buf ! 0) OR push_bit 8 (ucast (buf ! 1)) OR push_bit 16 (ucast (buf ! 2))
     OR push_bit 24 (ucast (buf ! 3))"

definition buffer_getint :: "byte list \<Rightarrow> u32" where
  "buffer_getint buf = ucast (buf ! 0) OR push_bit 8 (ucast (buf ! 1))"

section \<open>A declarative mask matcher\<close>

datatype glob = Lit char | One | Many

fun parse_mask :: "string \<Rightarrow> glob list" where
  "parse_mask [] = []"
| "parse_mask (c # m) =
     (if c = CHR 0x5C then (case m of [] \<Rightarrow> [Lit (CHR 0x5C)] | d # m' \<Rightarrow> Lit d # parse_mask m')
      else if c = CHR ''?'' then One # parse_mask m
      else if c = CHR ''*'' then Many # parse_mask m
      else Lit c # parse_mask m)"

fun gmatch :: "glob list \<Rightarrow> string \<Rightarrow> bool" where
  "gmatch [] s = (s = [])"
| "gmatch (Lit d # g) s = (case s of [] \<Rightarrow> False | c # s' \<Rightarrow> toupper d = toupper c \<and> gmatch g s')"
| "gmatch (One # g) s = (case s of [] \<Rightarrow> False | c # s' \<Rightarrow> gmatch g s')"
| "gmatch (Many # g) [] = gmatch g []"
| "gmatch (Many # g) (c # s) = (gmatch g (c # s) \<or> gmatch (Many # g) s)"

text \<open>
  What the code makes of the stars at the end of a mask: a single one has to match at least one
  character, two or more match nothing.
\<close>

fun code_stars :: "glob list \<Rightarrow> glob list option" where
  "code_stars [] = Some []"
| "code_stars (x # g) =
     (if x = Many \<and> g = [] then Some [One, Many]
      else if x = Many \<and> (\<forall>y\<in>set g. y = Many) then None
      else map_option ((#) x) (code_stars g))"

definition mask_spec :: "string \<Rightarrow> string \<Rightarrow> bool" where
  "mask_spec m s = (case code_stars (parse_mask m) of None \<Rightarrow> False | Some g \<Rightarrow> gmatch g s)"

text \<open>Some non-empty suffix satisfies \<open>P\<close>.\<close>

fun nsuf :: "(string \<Rightarrow> bool) \<Rightarrow> string \<Rightarrow> bool" where
  "nsuf P [] = False"
| "nsuf P (c # s) = (P (c # s) \<or> nsuf P s)"

lemma nsuf_dropWhile: "(\<And>c s. P (c # s) \<Longrightarrow> \<not> skip c) \<Longrightarrow> nsuf P (dropWhile skip s) = nsuf P s"
  by (induction s) auto

lemma nsuf_step: "s \<noteq> [] \<Longrightarrow> nsuf P s \<longleftrightarrow> P s \<or> nsuf P (tl s)"
  by (cases s) auto

lemma nsuf_False [simp]: "\<not> nsuf (\<lambda>_. False) s"
  by (induction s) auto

lemma gmatch_Many: "gmatch (Many # g) s \<longleftrightarrow> gmatch g [] \<or> nsuf (gmatch g) s"
  by (induction s) auto

lemma gmatch_Many_Many: "gmatch (Many # Many # g) s \<longleftrightarrow> gmatch (Many # g) s"
  by (induction s) auto

lemma code_stars_nonempty: "code_stars h = Some g \<Longrightarrow> h \<noteq> [] \<Longrightarrow> \<not> gmatch g []"
proof (induction h arbitrary: g)
  case (Cons x h)
  then show ?case by (cases x; cases h) (auto split: if_splits)
qed simp

lemma parse_mask_head:
  assumes "m \<noteq> []" "hd m \<noteq> CHR ''*''"
  shows "\<exists>x g. parse_mask m = x # g \<and> x \<noteq> Many"
  using assms by (cases m) (auto split: list.split)

lemma parse_mask_eq_Nil [simp]: "parse_mask m = [] \<longleftrightarrow> m = []"
  by (cases m) (auto split: list.split)

text \<open>A run of stars in front of the rest of a mask.\<close>

lemma mask_spec_stars:
  "m \<noteq> [] \<Longrightarrow> mask_spec (CHR ''*'' # m) s \<longleftrightarrow>
    dropWhile (\<lambda>c. c = CHR ''*'') m \<noteq> [] \<and> nsuf (mask_spec (dropWhile (\<lambda>c. c = CHR ''*'') m)) s"
proof (induction m)
  case (Cons c m)
  show ?case
  proof (cases "c = CHR ''*''")
    case True
    show ?thesis
    proof (cases "m = []")
      case True
      with \<open>c = CHR ''*''\<close> show ?thesis by (simp add: mask_spec_def)
    next
      case False
      have all: "(\<forall>y\<in>set (Many # parse_mask m). y = Many) = (\<forall>y\<in>set (parse_mask m). y = Many)" by simp
      have "mask_spec (CHR ''*'' # c # m) s = mask_spec (CHR ''*'' # m) s"
        using True False
        by (auto simp: mask_spec_def gmatch_Many_Many split: option.splits simp del: gmatch.simps)
      with Cons.IH [OF False] True show ?thesis by simp
    qed
  next
    case False
    then obtain x g where x: "parse_mask (c # m) = x # g" "x \<noteq> Many"
      using parse_mask_head [of "c # m"] by auto
    have "mask_spec (CHR ''*'' # c # m) s \<longleftrightarrow>
        (case code_stars (x # g) of None \<Rightarrow> False | Some h \<Rightarrow> gmatch (Many # h) s)"
      using x by (auto simp: mask_spec_def simp del: gmatch.simps parse_mask.simps(2) split: option.split)
        (simp_all add: x)
    also have "\<dots> \<longleftrightarrow> (case code_stars (x # g) of None \<Rightarrow> False | Some h \<Rightarrow> nsuf (gmatch h) s)"
      using code_stars_nonempty [of "x # g"] by (auto simp: gmatch_Many simp del: code_stars.simps split: option.split)
    also have "\<dots> \<longleftrightarrow> nsuf (mask_spec (c # m)) s"
      using x(1) by (cases "code_stars (x # g)") (simp_all add: mask_spec_def [abs_def] del: code_stars.simps)
    finally show ?thesis using False by simp
  qed
qed simp

lemma mask_spec_literal_head:
  assumes "mask_spec m (c # s)" "m \<noteq> []" "hd m \<noteq> CHR 0x5C" "hd m \<noteq> CHR ''?''" "hd m \<noteq> CHR ''*''"
  shows "toupper c = toupper (hd m)"
  using assms by (cases m) (auto simp: mask_spec_def split: option.splits)

lemma mask_spec_simps [simp]:
  "mask_spec [] s \<longleftrightarrow> s = []"
  "m \<noteq> [] \<Longrightarrow> \<not> mask_spec m []"
  "mask_spec (CHR ''?'' # m) (c # s) \<longleftrightarrow> mask_spec m s"
  "mask_spec [CHR ''*''] (c # s)"
  "mask_spec [CHR 0x5C] (c # s) \<longleftrightarrow> c = CHR 0x5C \<and> s = []"
  "mask_spec (CHR 0x5C # d # m) (c # s) \<longleftrightarrow> toupper d = toupper c \<and> mask_spec m s"
  "d \<noteq> CHR 0x5C \<Longrightarrow> d \<noteq> CHR ''?'' \<Longrightarrow> d \<noteq> CHR ''*'' \<Longrightarrow>
    mask_spec (d # m) (c # s) \<longleftrightarrow> toupper d = toupper c \<and> mask_spec m s"
proof -
  show "m \<noteq> [] \<Longrightarrow> \<not> mask_spec m []"
    using code_stars_nonempty [of "parse_mask m"] by (auto simp: mask_spec_def split: option.split)
  have "gmatch [Many] s" by (induction s) auto
  then show "mask_spec [CHR ''*''] (c # s)" by (simp add: mask_spec_def)
  have "toupper (CHR 0x5C) = toupper c \<longleftrightarrow> c = CHR 0x5C"
  proof
    assume e: "toupper (CHR 0x5C) = toupper c"
    show "c = CHR 0x5C"
    proof (cases "islower c")
      case True
      then have "ord (toupper c) = ord c - 32"
        using nat_of_char_less_256 [of c] by (simp add: toupper_def islower_def less_imp_diff_less)
      moreover have "ord (toupper (CHR 0x5C)) = 92" by (simp add: toupper_def islower_def)
      ultimately show ?thesis using True e by (auto simp: islower_def)
    next
      case False
      then have "toupper c = c" by (simp add: toupper_def)
      moreover have "toupper (CHR 0x5C) = CHR 0x5C" by (simp add: toupper_def islower_def)
      ultimately show ?thesis using e by simp
    qed
  qed simp
  then show "mask_spec [CHR 0x5C] (c # s) \<longleftrightarrow> c = CHR 0x5C \<and> s = []"
    by (simp add: mask_spec_def)
qed (auto simp: mask_spec_def split: option.splits)

lemma strcasemask_eqs:
  "strcasemask [] m = (if m = [] then 0 else 1)"
  "strcasemask (b # s) [] = 1"
  "strcasemask (b # s) [CHR 0x5C] = (if b = CHR 0x5C \<and> s = [] then 0 else 1)"
  "strcasemask (b # s) (CHR 0x5C # d # m) = (if toupper d = toupper b then strcasemask s m else 1)"
  "strcasemask (b # s) (CHR ''?'' # m) = strcasemask s m"
  "strcasemask (b # s) (CHR ''*'' # m) = (if m \<noteq> [] then star_loop (b # s) m else 0)"
  "c \<noteq> CHR 0x5C \<Longrightarrow> c \<noteq> CHR ''?'' \<Longrightarrow> c \<noteq> CHR ''*'' \<Longrightarrow>
    strcasemask (b # s) (c # m) = (if toupper c = toupper b then strcasemask s m else 1)"
  by (subst strcasemask.simps, simp)+

lemma strcasemask_spec_aux:
  "strcasemask s m = (if mask_spec m s then 0 else 1)"
  "star_loop s m = (if dropWhile (\<lambda>c. c = CHR ''*'') m \<noteq> []
        \<and> nsuf (mask_spec (dropWhile (\<lambda>c. c = CHR ''*'') m)) s then 0 else 1)"
proof (induction s m and s m rule: strcasemask_star_loop.induct)
  case (1 s m)
  show ?case
  proof (cases s)
    case Nil
    then show ?thesis by (simp add: strcasemask_eqs)
  next
    case s: (Cons b s')
    show ?thesis
    proof (cases m)
      case Nil
      with s show ?thesis by (simp add: strcasemask_eqs)
    next
      case m: (Cons c m')
      consider "c = CHR 0x5C" "m' = []" | d m'' where "c = CHR 0x5C" "m' = d # m''"
        | "c = CHR ''?''" | "c = CHR ''*''" "m' = []" | "c = CHR ''*''" "m' \<noteq> []"
        | "c \<noteq> CHR 0x5C" "c \<noteq> CHR ''?''" "c \<noteq> CHR ''*''"
        by (cases m') auto
      then show ?thesis
      proof cases
        case 5
        from 5 have "star_loop s m' = (if mask_spec m s then 0 else 1)"
          using "1.IH"(3) [of c m'] s m mask_spec_stars [of m' s] by simp
        moreover have "strcasemask s m = star_loop s m'" using 5 s m by (simp add: strcasemask_eqs)
        ultimately show ?thesis by simp
      next
        case 1
        with s m show ?thesis by (simp add: strcasemask_eqs)
      next
        case (2 d m'')
        with s m "1.IH"(1) show ?thesis by (simp add: strcasemask_eqs)
      next
        case 3
        with s m "1.IH"(2) show ?thesis by (simp add: strcasemask_eqs)
      next
        case 4
        with s m show ?thesis by (simp add: strcasemask_eqs)
      next
        case 6
        with s m "1.IH"(4) show ?thesis by (simp add: strcasemask_eqs)
      qed
    qed
  qed
next
  case (2 s m)
  define n where "n = dropWhile (\<lambda>c. c = CHR ''*'') m"
  define t where "t = (if peek n \<noteq> CHR 0x5C \<and> peek n \<noteq> CHR ''?''
            then dropWhile (\<lambda>c. toupper c \<noteq> toupper (peek n)) s else s)"
  have star: "n \<noteq> [] \<Longrightarrow> hd n \<noteq> CHR ''*''"
    unfolding n_def using hd_dropWhile [of "\<lambda>c. c = CHR ''*''" m] by blast
  have d: "dropWhile (\<lambda>c. c = CHR ''*'') n = n" by (simp add: n_def dropWhile_idem)
  have s: "nsuf (mask_spec n) t = nsuf (mask_spec n) s" if "n \<noteq> []"
    unfolding t_def using that star mask_spec_literal_head [of n]
    by (auto intro!: nsuf_dropWhile simp: peek_def split: list.splits)
  have unf: "star_loop s m = (if t = [] then 1 else if strcasemask t n = 0 then 0 else star_loop (tl t) n)"
    unfolding t_def n_def by (subst star_loop.simps) (simp only: Let_def)
  have goal: "star_loop s m = (if n \<noteq> [] \<and> nsuf (mask_spec n) s then 0 else 1)"
  proof (cases "t = []")
    case True
    with s have "n \<noteq> [] \<Longrightarrow> \<not> nsuf (mask_spec n) s" by simp
    with True unf show ?thesis by auto
  next
    case False
    note IH = "2.IH"(1) [OF n_def t_def False] "2.IH"(2) [OF n_def t_def False]
    have ne: "mask_spec n t \<Longrightarrow> n \<noteq> []" using False by auto
    have "star_loop s m = (if mask_spec n t then 0 else star_loop (tl t) n)"
      using unf False IH(1) by simp
    moreover have "\<not> mask_spec n t \<Longrightarrow>
        star_loop (tl t) n = (if n \<noteq> [] \<and> nsuf (mask_spec n) (tl t) then 0 else 1)"
      using IH d by simp
    ultimately show ?thesis using ne s nsuf_step [OF False, of "mask_spec n"] by auto
  qed
  then show ?case by (simp add: n_def)
qed

lemma strcasemask_spec: "strcasemask s m = 0 \<longleftrightarrow> mask_spec m s"
  by (simp add: strcasemask_spec_aux(1))

lemma code_stars_no_trailing: "g = [] \<or> last g \<noteq> Many \<Longrightarrow> code_stars g = Some g"
proof (induction g)
  case (Cons x g)
  show ?case
  proof (cases "g = []")
    case True
    with Cons.prems show ?thesis by simp
  next
    case False
    with Cons.prems have "last g \<noteq> Many" by simp
    with False have "\<not> (\<forall>y\<in>set g. y = Many)" using last_in_set by blast
    with False \<open>last g \<noteq> Many\<close> show ?thesis using Cons.IH by auto
  qed
qed simp

lemma code_stars_double: "code_stars (g @ [Many, Many]) = None"
  by (induction g) auto

lemma code_stars_single: "g = [] \<or> last g \<noteq> Many \<Longrightarrow> code_stars (g @ [Many]) = Some (g @ [One, Many])"
proof (induction g)
  case (Cons x g)
  show ?case
  proof (cases "g = []")
    case True
    with Cons.prems show ?thesis by simp
  next
    case False
    with Cons.prems have "last g \<noteq> Many" by simp
    with False have "\<not> (\<forall>y\<in>set g. y = Many)" using last_in_set by blast
    then show ?thesis using Cons.IH \<open>last g \<noteq> Many\<close> by auto
  qed
qed simp

definition end_stars :: "glob list \<Rightarrow> nat" where
  "end_stars g = length (takeWhile (\<lambda>x. x = Many) (rev g))"

section \<open>Properties\<close>

text \<open>
  C3: \<open>strcasemask\<close> decides its mask language: a mask that does not end in a star matches exactly the
  names its pattern generates (\<open>*\<close> any group, \<open>?\<close> one character, a backslash the next one
  literally, letters in any case); a single star at the end wants at least one character, although
  the comment promises that a star matches the empty group; two stars at the end match nothing.
\<close>

theorem strcasemask_correct:
  "(strcasemask s m = 0) =
     (let g = parse_mask m in
      if end_stars g = 0 then gmatch g s
      else if end_stars g = 1 then gmatch (butlast g @ [One, Many]) s
      else False)"
proof -
  let ?g = "parse_mask m"
  consider "?g = [] \<or> last ?g \<noteq> Many"
    | h where "?g = h @ [Many]" "h = [] \<or> last h \<noteq> Many" | h where "?g = h @ [Many, Many]"
    by (cases ?g rule: rev_cases; cases "butlast ?g" rule: rev_cases) auto
  then show ?thesis
  proof cases
    case 1
    then have "end_stars ?g = 0" by (cases ?g rule: rev_cases) (auto simp: end_stars_def)
    with 1 show ?thesis using code_stars_no_trailing by (simp add: strcasemask_spec mask_spec_def)
  next
    case 2
    then have "end_stars ?g = 1" by (cases h rule: rev_cases) (auto simp: end_stars_def)
    with 2 show ?thesis by (simp add: strcasemask_spec mask_spec_def code_stars_single)
  next
    case 3
    then have "2 \<le> end_stars ?g" by (simp add: end_stars_def)
    with 3 show ?thesis by (simp add: strcasemask_spec mask_spec_def code_stars_double)
  qed
qed

text \<open>The tokens a mask list is decided by: with its sign, and with what it matches.\<close>

definition token_neg :: "string \<Rightarrow> bool" where "token_neg p \<longleftrightarrow> peek p = CHR ''!''"
definition token_body :: "string \<Rightarrow> string" where "token_body p = (if token_neg p then tl p else p)"

definition alias_masks :: "string \<Rightarrow> string option" where
  "alias_masks a = map_option snd (find (\<lambda>(alias, masks). strcasecmp_eq a alias) magfname)"

definition token_hits :: "(string \<Rightarrow> bool) \<Rightarrow> string \<Rightarrow> string \<Rightarrow> bool" where
  "token_hits sub str p \<longleftrightarrow>
     (if peek (token_body p) = CHR ''%''
      then (case alias_masks (tl (token_body p)) of None \<Rightarrow> False | Some ms \<Rightarrow> sub ms)
      else strcasemask str (token_body p) = 0)"

definition token_known :: "string \<Rightarrow> bool" where
  "token_known p \<longleftrightarrow> peek (token_body p) = CHR ''%'' \<longrightarrow> alias_masks (tl (token_body p)) \<noteq> None"

lemma checkmasks_loop_first_hit:
  assumes "y \<in> {0, 1}"
  shows "checkmasks_loop sub ps str y =
    (case find (token_hits (\<lambda>ms. sub ms = 0) str) ps of
       Some p \<Rightarrow> if token_neg p then 1 else 0
     | None \<Rightarrow> if \<exists>p\<in>set ps. token_neg p \<and> token_known p then 0 else y)"
  using assms
proof (induction ps arbitrary: y)
  case (Cons p ps)
  have step: "checkmasks_loop sub (p # ps) str y =
      (if token_hits (\<lambda>ms. sub ms = 0) str p then if token_neg p then 1 else 0
       else checkmasks_loop sub ps str (if token_neg p \<and> token_known p then 0 else y))"
    by (cases "find (\<lambda>(alias, masks). strcasecmp_eq (tl (token_body p)) alias) magfname")
      (simp_all add: token_hits_def token_known_def token_neg_def token_body_def alias_masks_def Let_def
        split: prod.split)
  show ?case
    unfolding step using Cons.prems Cons.IH [of y] Cons.IH [of 0] by (auto split: option.split)
qed simp

declare string_tokens.simps [simp del]

lemma alias_tokens_plain:
  "(a, ms) \<in> set magfname \<Longrightarrow> p \<in> set (string_tokens (Some ms) [] True) \<Longrightarrow>
    peek p \<noteq> CHR ''!'' \<and> peek p \<noteq> CHR ''%''"
proof -
  have "\<forall>(a, ms)\<in>set magfname. \<forall>p\<in>set (string_tokens (Some ms) [] True). peek p \<noteq> CHR ''!'' \<and> peek p \<noteq> CHR ''%''"
    by code_simp
  then show "(a, ms) \<in> set magfname \<Longrightarrow> p \<in> set (string_tokens (Some ms) [] True) \<Longrightarrow>
    peek p \<noteq> CHR ''!'' \<and> peek p \<noteq> CHR ''%''" by fast
qed

lemma find_SomeD: "find P xs = Some x \<Longrightarrow> x \<in> set xs \<and> P x"
  by (auto simp: find_Some_iff)

lemma alias_masks_mem: "alias_masks a = Some ms \<Longrightarrow> \<exists>al. (al, ms) \<in> set magfname"
  by (auto simp: alias_masks_def dest: find_SomeD)

lemma checkmasks_loop_plain:
  "\<forall>p\<in>set ps. peek p \<noteq> CHR ''!'' \<and> peek p \<noteq> CHR ''%'' \<Longrightarrow>
    checkmasks_loop sub ps str 1 = (if \<exists>p\<in>set ps. strcasemask str p = 0 then 0 else 1)"
  by (induction ps) (auto simp: Let_def)

text \<open>What an alias stands for: one of its masks matches.\<close>

definition alias_hits :: "string \<Rightarrow> string \<Rightarrow> bool" where
  "alias_hits str ms \<longleftrightarrow> (\<exists>p\<in>set (string_tokens (Some ms) [] True). strcasemask str p = 0)"

lemma checkmasks_depth_alias:
  "alias_masks a = Some ms \<Longrightarrow> checkmasks_depth (Suc n) ms str = (if alias_hits str ms then 0 else 1)"
  using alias_tokens_plain
  by (auto dest!: alias_masks_mem simp: alias_hits_def checkmasks_loop_plain)

text \<open>
  \<open>checkmasks\<close> is decided by the first mask of the list that hits the name: the name conforms
  iff that mask is not negated; if no mask hits, the name conforms iff some negated mask (with a
  known alias, when it names one) stands in the list. The recursion into the aliases ends after one
  level, whatever the depth allowed beyond it.
\<close>

theorem checkmasks_first_hit:
  "checkmasks_depth (n + 2) masks str =
     (let ps = string_tokens (Some masks) [] True in
      case find (token_hits (alias_hits str) str) ps of
        Some p \<Rightarrow> if token_neg p then 1 else 0
      | None \<Rightarrow> if \<exists>p\<in>set ps. token_neg p \<and> token_known p then 0 else 1)
   \<and> checkmasks masks str = checkmasks_depth (n + 2) masks str"
proof -
  have hits: "token_hits (\<lambda>ms. checkmasks_depth (Suc k) ms str = 0) str = token_hits (alias_hits str) str" for k
    by (rule ext) (auto simp: token_hits_def checkmasks_depth_alias simp del: checkmasks_depth.simps split: option.split)
  have "checkmasks_depth (Suc (Suc k)) masks str =
     (let ps = string_tokens (Some masks) [] True in
      case find (token_hits (alias_hits str) str) ps of
        Some p \<Rightarrow> if token_neg p then 1 else 0
      | None \<Rightarrow> if \<exists>p\<in>set ps. token_neg p \<and> token_known p then 0 else 1)" for k
    unfolding checkmasks_depth.simps(2) [of "Suc k"]
    by (subst checkmasks_loop_first_hit) (simp_all add: hits Let_def del: checkmasks_depth.simps)
  then show ?thesis by (simp add: checkmasks_def numeral_2_eq_2 del: checkmasks_depth.simps)
qed

lemma checkmasks_examples:
  "checkmasks ''%netmail !*.tic'' ''0001.PKT'' = 0" "checkmasks ''!*.tic *'' ''a.TIC'' = 1"
  "checkmasks ''!*.tic'' ''a.zip'' = 0" "strcasemask ''abc'' ''a**'' = 1" "strcasemask ''a'' ''a*'' = 1"
  by code_simp+

text \<open>
  the packers write little-endian words: reading back what \<open>buffer_putlong\<close> wrote gives the
  value modulo \<open>2 ^ 32\<close>, for every \<open>long\<close>; with 64-bit longs the result is never negative, so a
  negative value does not survive. \<open>buffer_putint\<close> keeps the value modulo \<open>2 ^ 16\<close>.
\<close>

theorem buffer_roundtrip:
  "unat (buffer_getlong (buffer_putlong v)) = unat v mod 2 ^ 32
   \<and> 0 \<le> sint (buffer_getlong b) \<and> length (buffer_putlong v) = 4
   \<and> unat (buffer_getint (buffer_putint i)) = unat i mod 2 ^ 16 \<and> 0 \<le> sint (buffer_getint b)"
proof -
  have nonneg: "\<not> bit w (LENGTH('a) - 1) \<Longrightarrow> 0 \<le> sint w" for w :: "'a::len word"
    by (simp add: bit_last_iff)
  have "bit (buffer_getlong (buffer_putlong v)) n = bit (take_bit 32 v) n" for n
    by (cases "n < 16"; cases "n < 24"; cases "24 + (n - 24) = n"; cases "16 + (n - 16) = n")
      (auto simp: buffer_getlong_def buffer_putlong_def and_255_take_bit bit_simps dest: bit_imp_le_length)
  then have "buffer_getlong (buffer_putlong v) = take_bit 32 v" by (simp add: bit_eq_iff)
  moreover have "buffer_getint (buffer_putint i) = take_bit 16 i"
    by (rule bit_word_eqI)
      (auto simp: buffer_getint_def buffer_putint_def and_255_take_bit bit_simps dest: bit_imp_le_length)
  moreover have "\<not> bit (buffer_getlong b) 63"
    by (auto simp: buffer_getlong_def bit_simps dest: bit_imp_le_length)
  moreover have "\<not> bit (buffer_getint b) 31"
    by (auto simp: buffer_getint_def bit_simps dest: bit_imp_le_length)
  ultimately show ?thesis
    using nonneg [of "buffer_getlong b"] nonneg [of "buffer_getint b"]
    by (simp add: buffer_putlong_def unsigned_take_bit_eq) (simp add: take_bit_eq_mod)
qed

end
