(* ===== verification/Crc.thy ===== *)
theory Crc
  imports Prelude
begin

text \<open>
  The checksums of \<open>u_crc.c\<close>: the three feedback tables as the file prints them, the three
  table-driven routines and the two \<open>updcrc\<close> macros of \<open>util.h\<close>, against a reference that
  shifts one bit at a time. A locale states what a byte-at-a-time checksum register promises;
  its client lemmas (bursts are detected, an appended complement leaves a constant residue)
  hold for every routine through its interpretation.
\<close>

section \<open>The code\<close>

subsection \<open>Feedback tables\<close>

definition TableCRC32CCITT :: "u64 list" where
  "TableCRC32CCITT = [0x00000000, 0x77073096, 0xee0e612c, 0x990951ba, 0x076dc419, 0x706af48f, 0xe963a535, 0x9e6495a3,
    0x0edb8832, 0x79dcb8a4, 0xe0d5e91e, 0x97d2d988, 0x09b64c2b, 0x7eb17cbd, 0xe7b82d07, 0x90bf1d91,
    0x1db71064, 0x6ab020f2, 0xf3b97148, 0x84be41de, 0x1adad47d, 0x6ddde4eb, 0xf4d4b551, 0x83d385c7,
    0x136c9856, 0x646ba8c0, 0xfd62f97a, 0x8a65c9ec, 0x14015c4f, 0x63066cd9, 0xfa0f3d63, 0x8d080df5,
    0x3b6e20c8, 0x4c69105e, 0xd56041e4, 0xa2677172, 0x3c03e4d1, 0x4b04d447, 0xd20d85fd, 0xa50ab56b,
    0x35b5a8fa, 0x42b2986c, 0xdbbbc9d6, 0xacbcf940, 0x32d86ce3, 0x45df5c75, 0xdcd60dcf, 0xabd13d59,
    0x26d930ac, 0x51de003a, 0xc8d75180, 0xbfd06116, 0x21b4f4b5, 0x56b3c423, 0xcfba9599, 0xb8bda50f,
    0x2802b89e, 0x5f058808, 0xc60cd9b2, 0xb10be924, 0x2f6f7c87, 0x58684c11, 0xc1611dab, 0xb6662d3d,
    0x76dc4190, 0x01db7106, 0x98d220bc, 0xefd5102a, 0x71b18589, 0x06b6b51f, 0x9fbfe4a5, 0xe8b8d433,
    0x7807c9a2, 0x0f00f934, 0x9609a88e, 0xe10e9818, 0x7f6a0dbb, 0x086d3d2d, 0x91646c97, 0xe6635c01,
    0x6b6b51f4, 0x1c6c6162, 0x856530d8, 0xf262004e, 0x6c0695ed, 0x1b01a57b, 0x8208f4c1, 0xf50fc457,
    0x65b0d9c6, 0x12b7e950, 0x8bbeb8ea, 0xfcb9887c, 0x62dd1ddf, 0x15da2d49, 0x8cd37cf3, 0xfbd44c65,
    0x4db26158, 0x3ab551ce, 0xa3bc0074, 0xd4bb30e2, 0x4adfa541, 0x3dd895d7, 0xa4d1c46d, 0xd3d6f4fb,
    0x4369e96a, 0x346ed9fc, 0xad678846, 0xda60b8d0, 0x44042d73, 0x33031de5, 0xaa0a4c5f, 0xdd0d7cc9,
    0x5005713c, 0x270241aa, 0xbe0b1010, 0xc90c2086, 0x5768b525, 0x206f85b3, 0xb966d409, 0xce61e49f,
    0x5edef90e, 0x29d9c998, 0xb0d09822, 0xc7d7a8b4, 0x59b33d17, 0x2eb40d81, 0xb7bd5c3b, 0xc0ba6cad,
    0xedb88320, 0x9abfb3b6, 0x03b6e20c, 0x74b1d29a, 0xead54739, 0x9dd277af, 0x04db2615, 0x73dc1683,
    0xe3630b12, 0x94643b84, 0x0d6d6a3e, 0x7a6a5aa8, 0xe40ecf0b, 0x9309ff9d, 0x0a00ae27, 0x7d079eb1,
    0xf00f9344, 0x8708a3d2, 0x1e01f268, 0x6906c2fe, 0xf762575d, 0x806567cb, 0x196c3671, 0x6e6b06e7,
    0xfed41b76, 0x89d32be0, 0x10da7a5a, 0x67dd4acc, 0xf9b9df6f, 0x8ebeeff9, 0x17b7be43, 0x60b08ed5,
    0xd6d6a3e8, 0xa1d1937e, 0x38d8c2c4, 0x4fdff252, 0xd1bb67f1, 0xa6bc5767, 0x3fb506dd, 0x48b2364b,
    0xd80d2bda, 0xaf0a1b4c, 0x36034af6, 0x41047a60, 0xdf60efc3, 0xa867df55, 0x316e8eef, 0x4669be79,
    0xcb61b38c, 0xbc66831a, 0x256fd2a0, 0x5268e236, 0xcc0c7795, 0xbb0b4703, 0x220216b9, 0x5505262f,
    0xc5ba3bbe, 0xb2bd0b28, 0x2bb45a92, 0x5cb36a04, 0xc2d7ffa7, 0xb5d0cf31, 0x2cd99e8b, 0x5bdeae1d,
    0x9b64c2b0, 0xec63f226, 0x756aa39c, 0x026d930a, 0x9c0906a9, 0xeb0e363f, 0x72076785, 0x05005713,
    0x95bf4a82, 0xe2b87a14, 0x7bb12bae, 0x0cb61b38, 0x92d28e9b, 0xe5d5be0d, 0x7cdcefb7, 0x0bdbdf21,
    0x86d3d2d4, 0xf1d4e242, 0x68ddb3f8, 0x1fda836e, 0x81be16cd, 0xf6b9265b, 0x6fb077e1, 0x18b74777,
    0x88085ae6, 0xff0f6a70, 0x66063bca, 0x11010b5c, 0x8f659eff, 0xf862ae69, 0x616bffd3, 0x166ccf45,
    0xa00ae278, 0xd70dd2ee, 0x4e048354, 0x3903b3c2, 0xa7672661, 0xd06016f7, 0x4969474d, 0x3e6e77db,
    0xaed16a4a, 0xd9d65adc, 0x40df0b66, 0x37d83bf0, 0xa9bcae53, 0xdebb9ec5, 0x47b2cf7f, 0x30b5ffe9,
    0xbdbdf21c, 0xcabac28a, 0x53b39330, 0x24b4a3a6, 0xbad03605, 0xcdd70693, 0x54de5729, 0x23d967bf,
    0xb3667a2e, 0xc4614ab8, 0x5d681b02, 0x2a6f2b94, 0xb40bbe37, 0xc30c8ea1, 0x5a05df1b, 0x2d02ef8d]"

definition TableCRC16Xmodem :: "u16 list" where
  "TableCRC16Xmodem = [0x0000, 0x1021, 0x2042, 0x3063, 0x4084, 0x50a5, 0x60c6, 0x70e7,
    0x8108, 0x9129, 0xa14a, 0xb16b, 0xc18c, 0xd1ad, 0xe1ce, 0xf1ef,
    0x1231, 0x0210, 0x3273, 0x2252, 0x52b5, 0x4294, 0x72f7, 0x62d6,
    0x9339, 0x8318, 0xb37b, 0xa35a, 0xd3bd, 0xc39c, 0xf3ff, 0xe3de,
    0x2462, 0x3443, 0x0420, 0x1401, 0x64e6, 0x74c7, 0x44a4, 0x5485,
    0xa56a, 0xb54b, 0x8528, 0x9509, 0xe5ee, 0xf5cf, 0xc5ac, 0xd58d,
    0x3653, 0x2672, 0x1611, 0x0630, 0x76d7, 0x66f6, 0x5695, 0x46b4,
    0xb75b, 0xa77a, 0x9719, 0x8738, 0xf7df, 0xe7fe, 0xd79d, 0xc7bc,
    0x48c4, 0x58e5, 0x6886, 0x78a7, 0x0840, 0x1861, 0x2802, 0x3823,
    0xc9cc, 0xd9ed, 0xe98e, 0xf9af, 0x8948, 0x9969, 0xa90a, 0xb92b,
    0x5af5, 0x4ad4, 0x7ab7, 0x6a96, 0x1a71, 0x0a50, 0x3a33, 0x2a12,
    0xdbfd, 0xcbdc, 0xfbbf, 0xeb9e, 0x9b79, 0x8b58, 0xbb3b, 0xab1a,
    0x6ca6, 0x7c87, 0x4ce4, 0x5cc5, 0x2c22, 0x3c03, 0x0c60, 0x1c41,
    0xedae, 0xfd8f, 0xcdec, 0xddcd, 0xad2a, 0xbd0b, 0x8d68, 0x9d49,
    0x7e97, 0x6eb6, 0x5ed5, 0x4ef4, 0x3e13, 0x2e32, 0x1e51, 0x0e70,
    0xff9f, 0xefbe, 0xdfdd, 0xcffc, 0xbf1b, 0xaf3a, 0x9f59, 0x8f78,
    0x9188, 0x81a9, 0xb1ca, 0xa1eb, 0xd10c, 0xc12d, 0xf14e, 0xe16f,
    0x1080, 0x00a1, 0x30c2, 0x20e3, 0x5004, 0x4025, 0x7046, 0x6067,
    0x83b9, 0x9398, 0xa3fb, 0xb3da, 0xc33d, 0xd31c, 0xe37f, 0xf35e,
    0x02b1, 0x1290, 0x22f3, 0x32d2, 0x4235, 0x5214, 0x6277, 0x7256,
    0xb5ea, 0xa5cb, 0x95a8, 0x8589, 0xf56e, 0xe54f, 0xd52c, 0xc50d,
    0x34e2, 0x24c3, 0x14a0, 0x0481, 0x7466, 0x6447, 0x5424, 0x4405,
    0xa7db, 0xb7fa, 0x8799, 0x97b8, 0xe75f, 0xf77e, 0xc71d, 0xd73c,
    0x26d3, 0x36f2, 0x0691, 0x16b0, 0x6657, 0x7676, 0x4615, 0x5634,
    0xd94c, 0xc96d, 0xf90e, 0xe92f, 0x99c8, 0x89e9, 0xb98a, 0xa9ab,
    0x5844, 0x4865, 0x7806, 0x6827, 0x18c0, 0x08e1, 0x3882, 0x28a3,
    0xcb7d, 0xdb5c, 0xeb3f, 0xfb1e, 0x8bf9, 0x9bd8, 0xabbb, 0xbb9a,
    0x4a75, 0x5a54, 0x6a37, 0x7a16, 0x0af1, 0x1ad0, 0x2ab3, 0x3a92,
    0xfd2e, 0xed0f, 0xdd6c, 0xcd4d, 0xbdaa, 0xad8b, 0x9de8, 0x8dc9,
    0x7c26, 0x6c07, 0x5c64, 0x4c45, 0x3ca2, 0x2c83, 0x1ce0, 0x0cc1,
    0xef1f, 0xff3e, 0xcf5d, 0xdf7c, 0xaf9b, 0xbfba, 0x8fd9, 0x9ff8,
    0x6e17, 0x7e36, 0x4e55, 0x5e74, 0x2e93, 0x3eb2, 0x0ed1, 0x1ef0]"

definition TableCRC16CCITT :: "u16 list" where
  "TableCRC16CCITT = [0x0000, 0x1189, 0x2312, 0x329b, 0x4624, 0x57ad, 0x6536, 0x74bf,
    0x8c48, 0x9dc1, 0xaf5a, 0xbed3, 0xca6c, 0xdbe5, 0xe97e, 0xf8f7,
    0x1081, 0x0108, 0x3393, 0x221a, 0x56a5, 0x472c, 0x75b7, 0x643e,
    0x9cc9, 0x8d40, 0xbfdb, 0xae52, 0xdaed, 0xcb64, 0xf9ff, 0xe876,
    0x2102, 0x308b, 0x0210, 0x1399, 0x6726, 0x76af, 0x4434, 0x55bd,
    0xad4a, 0xbcc3, 0x8e58, 0x9fd1, 0xeb6e, 0xfae7, 0xc87c, 0xd9f5,
    0x3183, 0x200a, 0x1291, 0x0318, 0x77a7, 0x662e, 0x54b5, 0x453c,
    0xbdcb, 0xac42, 0x9ed9, 0x8f50, 0xfbef, 0xea66, 0xd8fd, 0xc974,
    0x4204, 0x538d, 0x6116, 0x709f, 0x0420, 0x15a9, 0x2732, 0x36bb,
    0xce4c, 0xdfc5, 0xed5e, 0xfcd7, 0x8868, 0x99e1, 0xab7a, 0xbaf3,
    0x5285, 0x430c, 0x7197, 0x601e, 0x14a1, 0x0528, 0x37b3, 0x263a,
    0xdecd, 0xcf44, 0xfddf, 0xec56, 0x98e9, 0x8960, 0xbbfb, 0xaa72,
    0x6306, 0x728f, 0x4014, 0x519d, 0x2522, 0x34ab, 0x0630, 0x17b9,
    0xef4e, 0xfec7, 0xcc5c, 0xddd5, 0xa96a, 0xb8e3, 0x8a78, 0x9bf1,
    0x7387, 0x620e, 0x5095, 0x411c, 0x35a3, 0x242a, 0x16b1, 0x0738,
    0xffcf, 0xee46, 0xdcdd, 0xcd54, 0xb9eb, 0xa862, 0x9af9, 0x8b70,
    0x8408, 0x9581, 0xa71a, 0xb693, 0xc22c, 0xd3a5, 0xe13e, 0xf0b7,
    0x0840, 0x19c9, 0x2b52, 0x3adb, 0x4e64, 0x5fed, 0x6d76, 0x7cff,
    0x9489, 0x8500, 0xb79b, 0xa612, 0xd2ad, 0xc324, 0xf1bf, 0xe036,
    0x18c1, 0x0948, 0x3bd3, 0x2a5a, 0x5ee5, 0x4f6c, 0x7df7, 0x6c7e,
    0xa50a, 0xb483, 0x8618, 0x9791, 0xe32e, 0xf2a7, 0xc03c, 0xd1b5,
    0x2942, 0x38cb, 0x0a50, 0x1bd9, 0x6f66, 0x7eef, 0x4c74, 0x5dfd,
    0xb58b, 0xa402, 0x9699, 0x8710, 0xf3af, 0xe226, 0xd0bd, 0xc134,
    0x39c3, 0x284a, 0x1ad1, 0x0b58, 0x7fe7, 0x6e6e, 0x5cf5, 0x4d7c,
    0xc60c, 0xd785, 0xe51e, 0xf497, 0x8028, 0x91a1, 0xa33a, 0xb2b3,
    0x4a44, 0x5bcd, 0x6956, 0x78df, 0x0c60, 0x1de9, 0x2f72, 0x3efb,
    0xd68d, 0xc704, 0xf59f, 0xe416, 0x90a9, 0x8120, 0xb3bb, 0xa232,
    0x5ac5, 0x4b4c, 0x79d7, 0x685e, 0x1ce1, 0x0d68, 0x3ff3, 0x2e7a,
    0xe70e, 0xf687, 0xc41c, 0xd595, 0xa12a, 0xb0a3, 0x8238, 0x93b1,
    0x6b46, 0x7acf, 0x4854, 0x59dd, 0x2d62, 0x3ceb, 0x0e70, 0x1ff9,
    0xf78f, 0xe606, 0xd49d, 0xc514, 0xb1ab, 0xa022, 0x92b9, 0x8330,
    0x7bc7, 0x6a4e, 0x58d5, 0x495c, 0x3de3, 0x2c6a, 0x1ef1, 0x0f78]"

subsection \<open>Routines\<close>

text \<open>
  \<open>getcrc32ccitt\<close> keeps its register in an \<open>unsigned long\<close>; the cast \<open>(int) crc\<close> keeps the
  low 32 bits, of which \<open>& 0xff\<close> keeps eight.
\<close>

definition crc32_step :: "u64 \<Rightarrow> byte \<Rightarrow> u64" where
  "crc32_step crc b =
     TableCRC32CCITT ! unat (((ucast crc :: u32) XOR ucast b) AND 0xff)
     XOR (drop_bit 8 crc AND 0x00ffffff)"

definition getcrc32ccitt :: "byte list \<Rightarrow> u64" where
  "getcrc32ccitt buffer = foldl crc32_step 0xffffffff buffer"

text \<open>
  The 16-bit registers are \<open>unsigned short\<close>: the operands are promoted to \<open>int\<close> and the
  assignment keeps the low 16 bits.
\<close>

definition crc16x_step :: "u16 \<Rightarrow> byte \<Rightarrow> u16" where
  "crc16x_step crc b =
     TableCRC16Xmodem ! unat (((drop_bit 8 crc AND 0xff) XOR ucast b) AND 0xff)
     XOR push_bit 8 crc"

definition getcrc16xmodem :: "byte list \<Rightarrow> u16" where
  "getcrc16xmodem buffer = foldl crc16x_step 0 buffer"

definition crc16c_step :: "u16 \<Rightarrow> byte \<Rightarrow> u16" where
  "crc16c_step crc b =
     TableCRC16CCITT ! unat ((crc XOR ucast b) AND 0xff) XOR (drop_bit 8 crc AND 0x00ff)"

definition getcrc16ccitt :: "byte list \<Rightarrow> u16" where
  "getcrc16ccitt buffer = foldl crc16c_step 0xffff buffer"

text \<open>
  The macros the Zmodem code folds over a frame by hand. \<open>updcrc16\<close> is the form that needs two
  zero bytes at the end of the message.
\<close>

definition updcrc16 :: "byte \<Rightarrow> u16 \<Rightarrow> u16" where
  "updcrc16 cp crc =
     TableCRC16Xmodem ! unat (drop_bit 8 crc AND 0xff) XOR push_bit 8 crc XOR ucast cp"

definition updcrc32 :: "byte \<Rightarrow> u64 \<Rightarrow> u64" where
  "updcrc32 cp crc =
     TableCRC32CCITT ! unat (((ucast crc :: u32) XOR ucast cp) AND 0xff)
     XOR (drop_bit 8 crc AND 0x00FFFFFF)"

definition CRC16TEST :: "u16 \<Rightarrow> bool" where
  "CRC16TEST crc \<longleftrightarrow> crc = 0xf0b8"

definition CRC32TEST :: "u64 \<Rightarrow> bool" where
  "CRC32TEST crc \<longleftrightarrow> crc = 0xdebb20e3"

section \<open>Reference: one bit at a time\<close>

text \<open>Least significant bit first (the two CCITT routines) and most significant bit first.\<close>

definition lsb_bit :: "'a::len word \<Rightarrow> 'a word \<Rightarrow> 'a word" where
  "lsb_bit poly c = (if bit c 0 then drop_bit 1 c XOR poly else drop_bit 1 c)"

definition msb_bit :: "'a::len word \<Rightarrow> 'a word \<Rightarrow> 'a word" where
  "msb_bit poly c =
     (if bit c (LENGTH('a) - 1) then push_bit 1 c XOR poly else push_bit 1 c)"

definition lsb_crc :: "'a::len word \<Rightarrow> 'a word \<Rightarrow> byte list \<Rightarrow> 'a word" where
  "lsb_crc poly init buffer = foldl (\<lambda>c b. (lsb_bit poly ^^ 8) (c XOR ucast b)) init buffer"

definition msb_crc :: "'a::len word \<Rightarrow> 'a word \<Rightarrow> byte list \<Rightarrow> 'a word" where
  "msb_crc poly init buffer =
     foldl (\<lambda>c b. (msb_bit poly ^^ 8) (c XOR push_bit (LENGTH('a) - 8) (ucast b))) init buffer"

lemma lsb_bit_xor: "lsb_bit p (a XOR b) = lsb_bit p a XOR lsb_bit p b"
  by (rule bit_word_eqI) (auto simp: lsb_bit_def bit_simps)

lemma msb_bit_xor: "msb_bit p (a XOR b) = msb_bit p a XOR msb_bit p b"
  by (rule bit_word_eqI) (auto simp: msb_bit_def bit_simps)

lemma funpow_xor:
  fixes f :: "'a::len word \<Rightarrow> 'a word"
  assumes "\<And>a b. f (a XOR b) = f a XOR f b"
  shows "(f ^^ k) (a XOR b) = (f ^^ k) a XOR (f ^^ k) b"
  by (induction k) (simp_all add: assms)

lemmas lsb_pow_xor = funpow_xor [of "lsb_bit p" for p, OF lsb_bit_xor]
lemmas msb_pow_xor = funpow_xor [of "msb_bit p" for p, OF msb_bit_xor]

lemma lsb_pow_low_zero: "low_zero k y \<Longrightarrow> (lsb_bit p ^^ k) y = drop_bit k y"
proof (induction k arbitrary: y)
  case (Suc k)
  then have "lsb_bit p y = drop_bit 1 y" and "low_zero k (drop_bit 1 y)"
    by (auto simp: lsb_bit_def low_zero_Suc)
  with Suc.IH show ?case by (simp add: funpow_swap1)
qed simp

lemma msb_pow_high_zero:
  fixes y :: "'a::len word"
  assumes "\<And>i. LENGTH('a) - k \<le> i \<Longrightarrow> \<not> bit y i" and "k \<le> LENGTH('a)"
  shows "(msb_bit p ^^ k) y = push_bit k y"
  using assms
proof (induction k arbitrary: y)
  case (Suc k)
  from Suc.prems(1) [of "LENGTH('a) - 1"] have s: "msb_bit p y = push_bit 1 y"
    by (auto simp: msb_bit_def)
  have "\<not> bit (push_bit 1 y) i" if "LENGTH('a) - k \<le> i" for i :: nat
    using Suc.prems(1) [of "i - 1"] Suc.prems(2) that
    by (auto simp only: bit_push_bit_iff)
  with Suc.IH [of "push_bit 1 y"] Suc.prems(2) show ?case
    by (simp add: funpow_swap1 s)
qed simp

section \<open>What a byte-at-a-time checksum promises\<close>

text \<open>
  The register is advanced by a byte with \<open>S\<close> (eight bit shifts) after the byte has been added
  at the position \<open>emb\<close> gives it; \<open>up\<close> undoes the shift for the packed bytes of a message,
  \<open>nb\<close> is the number of bytes the register holds and \<open>C\<close> says which words are registers.
\<close>

primrec pack :: "('a::len word \<Rightarrow> 'a word) \<Rightarrow> (byte \<Rightarrow> 'a word) \<Rightarrow> byte list \<Rightarrow> 'a word" where
  "pack up emb [] = 0"
| "pack up emb (b # bs) = emb b XOR up (pack up emb bs)"

locale byte_crc =
  fixes S :: "'a::len word \<Rightarrow> 'a word"
    and up :: "'a word \<Rightarrow> 'a word"
    and emb :: "byte \<Rightarrow> 'a word"
    and nb :: nat
    and C :: "'a word \<Rightarrow> bool"
  assumes S_xor: "S (a XOR b) = S a XOR S b"
    and S_inj: "C a \<Longrightarrow> C b \<Longrightarrow> S a = S b \<Longrightarrow> a = b"
    and C_S: "C a \<Longrightarrow> C (S a)"
    and C_xor: "C a \<Longrightarrow> C b \<Longrightarrow> C (a XOR b)"
    and C_emb: "C (emb x)"
    and C_pack: "length bs \<le> nb \<Longrightarrow> C (pack up emb bs)"
    and S_up: "length bs < nb \<Longrightarrow> S (up (pack up emb bs)) = pack up emb bs"
    and pack_inj: "length bs = length bs' \<Longrightarrow> length bs \<le> nb \<Longrightarrow>
      pack up emb bs = pack up emb bs' \<Longrightarrow> bs = bs'"
begin

abbreviation feed :: "'a word \<Rightarrow> byte list \<Rightarrow> 'a word" where
  "feed c bs \<equiv> foldl (\<lambda>c b. S (c XOR emb b)) c bs"

lemma pow_xor: "(S ^^ k) (a XOR b) = (S ^^ k) a XOR (S ^^ k) b"
  by (rule funpow_xor) (rule S_xor)

lemma C_pow: "C a \<Longrightarrow> C ((S ^^ k) a)"
  by (induction k) (auto intro: C_S)

lemma pow_inj: "C a \<Longrightarrow> C b \<Longrightarrow> (S ^^ k) a = (S ^^ k) b \<Longrightarrow> a = b"
proof (induction k)
  case (Suc k)
  then have "S ((S ^^ k) a) = S ((S ^^ k) b)" by simp
  with Suc.prems have "(S ^^ k) a = (S ^^ k) b" by (blast intro: S_inj C_pow)
  with Suc show ?case by blast
qed simp

lemma C_feed: "C c \<Longrightarrow> C (feed c bs)"
  by (induction bs arbitrary: c) (auto intro: C_S C_xor C_emb)

text \<open>Up to a register's worth of bytes is one addition followed by the shifts.\<close>

lemma feed_pack: "length bs \<le> nb \<Longrightarrow> feed c bs = (S ^^ length bs) (c XOR pack up emb bs)"
proof (induction bs arbitrary: c)
  case (Cons b bs)
  then have "feed c (b # bs) = (S ^^ length bs) (S (c XOR emb b) XOR S (up (pack up emb bs)))"
    by (simp add: S_up)
  also have "\<dots> = (S ^^ length bs) (S (c XOR pack up emb (b # bs)))"
    by (simp add: S_xor [symmetric] xor.assoc)
  finally show ?case by (simp add: funpow_swap1)
qed simp

lemma step_inj: "C c \<Longrightarrow> C c' \<Longrightarrow> S (c XOR emb b) = S (c' XOR emb b) \<Longrightarrow> c = c'"
  using S_inj [OF C_xor C_xor, of c "emb b" c' "emb b"] C_emb [of b]
  by (metis xor.assoc xor.right_neutral xor_self_eq)

lemma feed_inj: "C c \<Longrightarrow> C c' \<Longrightarrow> feed c bs = feed c' bs \<Longrightarrow> c = c'"
proof (induction bs arbitrary: c c')
  case (Cons b bs)
  have "S (c XOR emb b) = S (c' XOR emb b)"
    by (rule Cons.IH) (use Cons.prems in \<open>simp_all add: C_S C_xor C_emb\<close>)
  with Cons.prems(1,2) show ?case by (rule step_inj)
qed simp

text \<open>Two messages that differ inside a window of \<open>nb\<close> bytes have different checksums.\<close>

lemma burst_detected:
  assumes "C c" "length bs = length bs'" "length bs \<le> nb" "bs \<noteq> bs'"
  shows "feed c (pre @ bs @ post) \<noteq> feed c (pre @ bs' @ post)"
proof
  let ?c = "feed c pre"
  assume "feed c (pre @ bs @ post) = feed c (pre @ bs' @ post)"
  then have "feed (feed ?c bs) post = feed (feed ?c bs') post" by simp
  then have "feed ?c bs = feed ?c bs'"
    by (rule feed_inj [rotated 2]) (intro C_feed assms(1))+
  then have e: "(S ^^ length bs) (?c XOR pack up emb bs)
      = (S ^^ length bs) (?c XOR pack up emb bs')"
    using feed_pack [of bs ?c] feed_pack [of bs' ?c] assms(2,3) by simp
  have "C (?c XOR pack up emb bs)" "C (?c XOR pack up emb bs')"
    using C_xor [OF C_feed [OF assms(1), of pre] C_pack] assms(2,3) by simp_all
  from pow_inj [OF this e]
  have "?c XOR pack up emb bs = ?c XOR pack up emb bs'" .
  then have "pack up emb bs = pack up emb bs'" by simp
  with assms show False by (blast dest: pack_inj)
qed

text \<open>Appending bytes that pack to the complement of the register leaves the same residue.\<close>

lemma residue:
  assumes "length t = nb" "feed c msg XOR pack up emb t = ones"
  shows "feed c (msg @ t) = (S ^^ nb) ones"
  using assms feed_pack [of t "feed c msg"] by simp

end


section \<open>Both bit orders keep the promise\<close>

lemma fits_pack_lsb: "fits (8 * length bs) (pack (push_bit 8) (\<lambda>b. ucast b) bs :: 'a::len word)"
proof (induction bs)
  case (Cons b bs)
  then show ?case
    by (auto simp: fits_def bit_xor_iff bit_ucast_iff bit_push_bit_iff dest: bit_imp_le_length)
qed (simp add: fits_def)

locale lsb_poly =
  fixes poly :: "'a::len word" and n :: nat
  assumes n_le: "n \<le> LENGTH('a)" and n_bytes: "n = 8 * (n div 8)" and n_pos: "0 < n"
    and top: "bit poly (n - 1)" and poly_fits: "fits n poly"
begin

lemma fits_lsb_bit: "fits n c \<Longrightarrow> fits n (lsb_bit poly c)"
  using poly_fits by (auto simp: lsb_bit_def fits_def bit_simps)

lemma fits_pow: "fits n c \<Longrightarrow> fits n ((lsb_bit poly ^^ k) c)"
  by (induction k) (auto intro: fits_lsb_bit)

lemma lsb_bit_inj:
  assumes a: "fits n a" and b: "fits n b" and e: "lsb_bit poly a = lsb_bit poly b"
  shows "a = b"
proof -
  have *: "bit (lsb_bit poly w) (n - 1) \<longleftrightarrow> bit w 0" if "fits n w" for w
    using that top n_pos by (auto simp: lsb_bit_def fits_def bit_simps)
  from *[OF a] *[OF b] e have 0: "bit a 0 = bit b 0" by simp
  with e have d: "drop_bit 1 a = drop_bit 1 b"
    by (auto simp: lsb_bit_def split: if_splits)
  have "bit a i = bit b i" for i
    using 0 arg_cong [OF d, of "\<lambda>w. bit w (i - 1)"] by (cases i) (auto simp: bit_drop_bit_eq)
  then show ?thesis by (auto intro: bit_word_eqI)
qed

lemma pow_bit_inj: "fits n a \<Longrightarrow> fits n b \<Longrightarrow>
    (lsb_bit poly ^^ k) a = (lsb_bit poly ^^ k) b \<Longrightarrow> a = b"
proof (induction k)
  case (Suc k)
  then have "lsb_bit poly ((lsb_bit poly ^^ k) a) = lsb_bit poly ((lsb_bit poly ^^ k) b)" by simp
  from lsb_bit_inj [OF _ _ this] Suc show ?case by (simp add: fits_pow)
qed simp

lemma pack_bytes_inj:
  "length bs = length bs' \<Longrightarrow> length bs \<le> n div 8 \<Longrightarrow>
    pack (push_bit 8) (\<lambda>b. ucast b) bs = (pack (push_bit 8) (\<lambda>b. ucast b) bs' :: 'a word) \<Longrightarrow> bs = bs'"
proof (induction bs bs' rule: list_induct2')
  case (4 b bs b' bs')
  let ?p = "pack (push_bit 8) (\<lambda>b. ucast b) :: byte list \<Rightarrow> 'a word"
  have len: "8 * length bs + 8 \<le> LENGTH('a)" "length bs' = length bs"
    using 4(2,3) n_le n_bytes by auto
  have bits: "bit (?p (b # bs)) i = bit (?p (b' # bs')) i" for i
    using 4(4) by simp
  have "bit b i = bit b' i" if "i < 8" for i
    using bits [of i] that len by (simp add: bit_simps)
  then have "b = b'" by (intro bit_word_eqI) simp
  moreover have "?p bs = ?p bs'"
  proof -
    have "push_bit 8 (?p bs) = push_bit 8 (?p bs')"
      using 4(4) \<open>b = b'\<close> by simp
    then have "drop_bit 8 (push_bit 8 (?p bs)) = drop_bit 8 (push_bit 8 (?p bs'))" by simp
    moreover have "drop_bit 8 (push_bit 8 (?p xs)) = ?p xs" if "length xs = length bs" for xs
      using fits_pack_lsb [of xs] by (rule drop_push_fits) (use len that in simp)
    ultimately show ?thesis using len by simp
  qed
  ultimately show ?case using 4 by simp
qed auto

end

sublocale lsb_poly \<subseteq> byte_crc "lsb_bit poly ^^ 8" "push_bit 8" "\<lambda>b. ucast b" "n div 8" "fits n"
proof
  fix bs :: "byte list" assume l: "length bs < n div 8"
  have "low_zero 8 (push_bit 8 (pack (push_bit 8) (\<lambda>b. ucast b) bs :: 'a word))" by simp
  then have "(lsb_bit poly ^^ 8) (push_bit 8 (pack (push_bit 8) (\<lambda>b. ucast b) bs))
      = drop_bit 8 (push_bit 8 (pack (push_bit 8) (\<lambda>b. ucast b) bs))"
    by (rule lsb_pow_low_zero)
  also have "\<dots> = pack (push_bit 8) (\<lambda>b. ucast b) bs"
    using fits_pack_lsb [of bs] by (rule drop_push_fits) (use l n_le n_bytes in linarith)
  finally show "(lsb_bit poly ^^ 8) (push_bit 8 (pack (push_bit 8) (\<lambda>b. ucast b) bs))
      = pack (push_bit 8) (\<lambda>b. ucast b) bs" .
next
  fix bs :: "byte list" assume l: "length bs \<le> n div 8"
  show "fits n (pack (push_bit 8) (\<lambda>b. ucast b) bs)"
    using fits_pack_lsb [of bs] by (rule fits_mono) (use l n_bytes in linarith)
next
  show "fits n (ucast x)" for x :: byte
    by (rule fits_ucast_byte) (use n_pos n_bytes in presburger)
qed (auto intro: lsb_pow_xor fits_pow pow_bit_inj pack_bytes_inj)


text \<open>Most significant bit first, at the one width the code uses.\<close>

lemma msb_bit_inj:
  assumes "bit poly 0" and e: "msb_bit poly a = msb_bit poly b"
  shows "a = (b::u16)"
proof -
  have *: "bit (msb_bit poly w) 0 \<longleftrightarrow> bit w 15" for w :: u16
  proof -
    have "\<not> bit (w * 2) 0" by (simp add: bit_0)
    with assms(1) show ?thesis by (auto simp: msb_bit_def bit_xor_iff)
  qed
  from *[of a] *[of b] e have t: "bit a 15 = bit b 15" by simp
  with e have p: "push_bit 1 a = push_bit 1 b"
    by (auto simp: msb_bit_def split: if_splits)
  have "bit a i = bit b i" if "i < 16" for i
  proof (cases "i = 15")
    case False
    with that arg_cong [OF p, of "\<lambda>w. bit w (Suc i)"] show ?thesis
      by (simp only: bit_push_bit_iff) auto
  qed (simp add: t)
  then show ?thesis by (auto intro: bit_word_eqI)
qed

lemma msb_pow_inj: "bit poly 0 \<Longrightarrow> (msb_bit poly ^^ k) a = (msb_bit poly ^^ k) b \<Longrightarrow> a = (b::u16)"
proof (induction k)
  case (Suc k)
  then have "msb_bit poly ((msb_bit poly ^^ k) a) = msb_bit poly ((msb_bit poly ^^ k) b)" by simp
  from msb_bit_inj [OF Suc.prems(1) this] Suc show ?case by simp
qed simp

definition hi_byte :: "byte \<Rightarrow> u16" where
  "hi_byte b = push_bit 8 (ucast b)"

lemma bit_hi_byte [bit_simps]: "bit (hi_byte b) i \<longleftrightarrow> 8 \<le> i \<and> i < 16 \<and> bit b (i - 8)"
  by (auto simp: hi_byte_def bit_simps)

lemma byte_high_bits [simp]: "\<not> bit (b::byte) (i + 8)"
  by (auto dest: bit_imp_le_length)

lemma drop_hi_byte: "drop_bit 8 (hi_byte b) = ucast b"
  by (rule bit_word_eqI) (auto simp: bit_simps dest: bit_imp_le_length)

lemma hi_lo_inj:
  assumes "hi_byte a XOR ucast (b::byte) = hi_byte a' XOR ucast (b'::byte)"
  shows "a = a' \<and> b = b'"
proof -
  have e: "bit (hi_byte a XOR ucast b) i = bit (hi_byte a' XOR ucast b') i" for i :: nat
    using assms by simp
  have "bit a i = bit a' i" if "i < 8" for i
    using e [of "i + 8"] that by (simp add: bit_simps)
  moreover have "bit b i = bit b' i" if "i < 8" for i
    using e [of i] that by (simp add: bit_simps)
  ultimately show ?thesis by (auto intro: bit_word_eqI)
qed

lemma hi_byte_inj [simp]: "hi_byte a = hi_byte b \<longleftrightarrow> a = b"
  using hi_lo_inj [of a 0 b 0] by auto

lemma short_lists: "length bs \<le> 2 \<Longrightarrow>
    bs = [] \<or> (\<exists>a. bs = [a]) \<or> (\<exists>a b. bs = [a, b])"
  by (cases bs; cases "tl bs"; cases "tl (tl bs)") auto

interpretation xm: byte_crc "msb_bit 0x1021 ^^ 8" "drop_bit 8" hi_byte 2 "\<lambda>_. True"
proof
  fix bs :: "byte list" assume "length bs < 2"
  then consider "bs = []" | a where "bs = [a]" using short_lists [of bs] by auto
  then show "(msb_bit 0x1021 ^^ 8) (drop_bit 8 (pack (drop_bit 8) hi_byte bs)) =
      pack (drop_bit 8) hi_byte bs"
  proof cases
    case 2
    have "(msb_bit 0x1021 ^^ 8) (ucast a :: u16) = hi_byte a"
      unfolding hi_byte_def
      by (rule msb_pow_high_zero) (auto simp: bit_simps dest: bit_imp_le_length)
    with 2 show ?thesis by (simp add: drop_hi_byte)
  qed (simp add: msb_pow_high_zero)
next
  fix bs bs' :: "byte list"
  assume "length bs = length bs'" "length bs \<le> 2"
    "pack (drop_bit 8) hi_byte bs = pack (drop_bit 8) hi_byte bs'"
  then show "bs = bs'"
    using short_lists [of bs] short_lists [of bs'] by (auto simp: drop_hi_byte dest: hi_lo_inj)
next
  fix a b :: u16 assume "(msb_bit 0x1021 ^^ 8) a = (msb_bit 0x1021 ^^ 8) b"
  then show "a = b" by (rule msb_pow_inj [rotated]) (simp add: bit_0)
qed (auto intro: msb_pow_xor)

interpretation c32: lsb_poly "0xedb88320 :: u64" 32
  by unfold_locales (simp_all add: fits_iff_take_bit bit_iff_odd_drop_bit)

interpretation c16: lsb_poly "0x8408 :: u16" 16
  by unfold_locales (simp_all add: bit_iff_odd_drop_bit)

section \<open>The tables hold eight reference steps\<close>

lemma funpow_8: "(f ^^ 8) x = f (f (f (f (f (f (f (f x)))))))"
  by (simp add: numeral_nat)

lemma lsb_bit_eval: "lsb_bit p c = (if odd c then drop_bit 1 c XOR p else drop_bit 1 c)"
  by (simp add: lsb_bit_def bit_0)

lemma msb_bit_eval:
  "msb_bit p (c::u16) = (if c AND 0x8000 = 0 then 2 * c else (2 * (c AND 0x7fff)) XOR p)"
proof -
  have "bit c 15 \<longleftrightarrow> c AND 0x8000 \<noteq> 0"
    using and_exp_eq_0_iff_not_bit [of c 15] by simp
  moreover have "push_bit 1 c = push_bit 1 (c AND mask 15)"
    by (rule bit_word_eqI) (simp only: bit_push_bit_iff bit_and_iff bit_mask_iff, auto)
  moreover have "push_bit 1 w = 2 * w" for w :: u16
    by simp
  moreover have "mask 15 = (0x7fff::u16)"
    by (simp add: mask_eq_exp_minus_1)
  moreover have "LENGTH(16) - 1 = 15" by simp
  ultimately show ?thesis by (simp only: msb_bit_def if_False if_True not_True_eq_False not_False_eq_True split: if_split) simp
qed

fun tabulates :: "('b \<Rightarrow> 'b) \<Rightarrow> ('a::len word \<Rightarrow> 'b) \<Rightarrow> 'a word \<Rightarrow> 'b list \<Rightarrow> bool" where
  "tabulates f g w [] = True"
| "tabulates f g w (t # ts) = (f (g w) = t \<and> tabulates f g (w + 1) ts)"

lemma tabulates_nth: "tabulates f g w ts \<Longrightarrow> i < length ts \<Longrightarrow> ts ! i = f (g (w + of_nat i))"
proof (induction ts arbitrary: i w)
  case (Cons t ts)
  then show ?case by (cases i) (auto simp: algebra_simps)
qed simp

lemma length_tables [simp]:
  "length TableCRC32CCITT = 256" "length TableCRC16CCITT = 256" "length TableCRC16Xmodem = 256"
  by (simp_all add: TableCRC32CCITT_def TableCRC16CCITT_def TableCRC16Xmodem_def)

lemma TableCRC16CCITT_tabulates: "tabulates (lsb_bit 0x8408 ^^ 8) id 0 TableCRC16CCITT"
  by (simp add: TableCRC16CCITT_def lsb_bit_eval funpow_8)

lemma TableCRC32CCITT_tabulates: "tabulates (lsb_bit 0xedb88320 ^^ 8) id 0 TableCRC32CCITT"
  by (simp add: TableCRC32CCITT_def lsb_bit_eval funpow_8)

lemma TableCRC16Xmodem_tabulates: "tabulates (msb_bit 0x1021 ^^ 8) ((*) 256) 0 TableCRC16Xmodem"
  by (simp add: TableCRC16Xmodem_def msb_bit_eval funpow_8)

lemma table_entry:
  fixes w :: "'a::len word"
  assumes "tabulates f g (0::'a word) t" "length t = 256"
  shows "t ! unat (w AND 0xff) = f (g (w AND 0xff))"
  using tabulates_nth [OF assms(1), of "unat (w AND 0xff)"] assms(2) by simp


section \<open>The routines against the reference\<close>

text \<open>
  A 64-bit \<open>unsigned long\<close> register keeps its upper half clear, so the missing truncation to
  32 bits is invisible.
\<close>

lemma lsb_split:
  fixes c :: "'a::len word" and b :: byte
  assumes "8 \<le> LENGTH('a)"
  shows "(lsb_bit p ^^ 8) (c XOR ucast b)
     = (lsb_bit p ^^ 8) (take_bit 8 (c XOR ucast b)) XOR drop_bit 8 c"
proof -
  let ?x = "c XOR ucast b"
  have "?x = take_bit 8 ?x XOR push_bit 8 (drop_bit 8 ?x)"
    by (rule take_bit_xor_high [symmetric])
  then have "(lsb_bit p ^^ 8) ?x
      = (lsb_bit p ^^ 8) (take_bit 8 ?x) XOR (lsb_bit p ^^ 8) (push_bit 8 (drop_bit 8 ?x))"
    by (metis lsb_pow_xor)
  also have "(lsb_bit p ^^ 8) (push_bit 8 (drop_bit 8 ?x)) = drop_bit 8 c"
  proof -
    have "(lsb_bit p ^^ 8) (push_bit 8 (drop_bit 8 ?x)) = drop_bit 8 (push_bit 8 (drop_bit 8 ?x))"
      by (rule lsb_pow_low_zero) (rule low_zero_push_bit)
    also have "\<dots> = drop_bit 8 c"
      by (rule bit_word_eqI)
        (auto simp: bit_drop_bit_eq bit_push_bit_iff bit_xor_iff bit_ucast_iff dest: bit_imp_le_length)
    finally show ?thesis .
  qed
  finally show ?thesis .
qed

lemma crc32_step_ref:
  assumes "fits 32 c"
  shows "crc32_step c b = (lsb_bit 0xedb88320 ^^ 8) (c XOR ucast b)"
proof -
  have m: "drop_bit 8 c AND 0x00ffffff = drop_bit 8 c"
    using assms by (rule drop_8_fits_32)
  have i: "unat (((ucast c :: u32) XOR ucast b) AND 0xff) = unat ((c XOR ucast b) AND 0xff)"
  proof -
    have "ucast (((ucast c :: u32) XOR ucast b) AND 0xff) = (c XOR ucast b) AND 0xff"
      unfolding and_255_take_bit
      by (rule bit_word_eqI)
        (auto simp: bit_ucast_iff bit_take_bit_iff bit_xor_iff dest: bit_imp_le_length)
    then show ?thesis
      using unat_ucast_up [of "((ucast c :: u32) XOR ucast b) AND 0xff", where 'b = 64] by simp
  qed
  show ?thesis
    using table_entry [OF TableCRC32CCITT_tabulates length_tables(1), of "c XOR ucast b"]
      lsb_split [of _ c b]
    unfolding crc32_step_def m i by (simp add: and_255_take_bit)
qed


lemma crc16c_step_ref: "crc16c_step c b = (lsb_bit 0x8408 ^^ 8) (c XOR ucast b)"
proof -
  have "drop_bit 8 c AND mask 8 = drop_bit 8 c"
    by (rule bit_word_eqI)
      (auto simp: bit_drop_bit_eq bit_and_iff bit_mask_iff dest: bit_imp_le_length)
  then have "drop_bit 8 c AND 0x00ff = drop_bit 8 c" by (simp add: mask_eq_exp_minus_1)
  then show ?thesis
    using table_entry [OF TableCRC16CCITT_tabulates length_tables(2), of "c XOR ucast b"]
      lsb_split [of _ c b]
    by (simp add: crc16c_step_def and_255_take_bit)
qed

lemma msb_table_entry:
  "TableCRC16Xmodem ! unat (w AND 0xff) = (msb_bit 0x1021 ^^ 8) (push_bit 8 w)"
proof -
  have "256 * (w AND 0xff) = push_bit 8 (take_bit 8 w)"
    by (simp add: and_255_take_bit push_bit_eq_mult)
  also have "\<dots> = push_bit 8 w"
    by (rule bit_word_eqI) (auto simp: bit_push_bit_iff bit_take_bit_iff)
  finally show ?thesis
    using table_entry [OF TableCRC16Xmodem_tabulates length_tables(3), of w] by simp
qed

lemma msb_pow_low_byte: "(msb_bit p ^^ 8) (take_bit 8 (c::u16)) = push_bit 8 c"
proof -
  have "(msb_bit p ^^ 8) (take_bit 8 c) = push_bit 8 (take_bit 8 c)"
    by (rule msb_pow_high_zero) (auto simp: bit_take_bit_iff)
  also have "\<dots> = push_bit 8 c"
    by (rule bit_word_eqI) (auto simp: bit_push_bit_iff bit_take_bit_iff)
  finally show ?thesis .
qed

lemma high_byte_split: "push_bit 8 (drop_bit 8 c) XOR take_bit 8 c = (c::'a::len word)"
  by (rule bit_word_eqI) (auto simp: bit_push_bit_iff bit_drop_bit_eq bit_take_bit_iff bit_xor_iff)

lemma push_bit_xor: "push_bit k (a XOR b) = push_bit k a XOR push_bit k (b::'a::len word)"
  by (rule bit_word_eqI) (auto simp: bit_push_bit_iff bit_xor_iff)

lemma crc16x_step_ref: "crc16x_step c b = (msb_bit 0x1021 ^^ 8) (c XOR hi_byte b)"
proof -
  have "(drop_bit 8 c AND 0xff) XOR ucast b = drop_bit 8 c XOR ucast b"
    by (rule bit_word_eqI)
      (auto simp: and_255_take_bit bit_xor_iff bit_take_bit_iff bit_drop_bit_eq dest: bit_imp_le_length)
  then have "crc16x_step c b = (msb_bit 0x1021 ^^ 8) (push_bit 8 (drop_bit 8 c) XOR hi_byte b)
      XOR (msb_bit 0x1021 ^^ 8) (take_bit 8 c)"
    by (simp add: crc16x_step_def msb_table_entry msb_pow_low_byte push_bit_xor hi_byte_def)
  also have "\<dots> = (msb_bit 0x1021 ^^ 8) ((push_bit 8 (drop_bit 8 c) XOR take_bit 8 c) XOR hi_byte b)"
    by (simp add: msb_pow_xor ac_simps)
  finally show ?thesis by (simp add: high_byte_split)
qed

lemma updcrc16_ref: "updcrc16 b c = (msb_bit 0x1021 ^^ 8) c XOR ucast b"
proof -
  have "updcrc16 b c = (msb_bit 0x1021 ^^ 8) (push_bit 8 (drop_bit 8 c))
      XOR (msb_bit 0x1021 ^^ 8) (take_bit 8 c) XOR ucast b"
    by (simp add: updcrc16_def msb_table_entry msb_pow_low_byte)
  also have "\<dots> = (msb_bit 0x1021 ^^ 8) (push_bit 8 (drop_bit 8 c) XOR take_bit 8 c) XOR ucast b"
    by (simp only: msb_pow_xor xor.assoc)
  finally show ?thesis by (simp only: high_byte_split)
qed

lemma updcrc32_step: "updcrc32 b c = crc32_step c b"
  by (simp add: updcrc32_def crc32_step_def)

text \<open>The register of the 32-bit routine never leaves 32 bits.\<close>

lemma crc32_fold: "fits 32 c \<Longrightarrow> foldl crc32_step c bs = c32.feed c bs"
proof (induction bs arbitrary: c)
  case (Cons b bs)
  have "fits 32 (crc32_step c b)"
    using Cons.prems by (simp add: crc32_step_ref c32.fits_pow fits_xor)
  with Cons show ?case by (simp add: crc32_step_ref)
qed simp

lemma fits_init32: "fits 32 (0xffffffff :: u64)"
  by (simp add: fits_iff_take_bit)

lemma getcrc32ccitt_feed: "getcrc32ccitt bs = c32.feed 0xffffffff bs"
  using crc32_fold [OF fits_init32] by (simp add: getcrc32ccitt_def)

lemma crc16c_fold: "foldl crc16c_step c bs = c16.feed c bs"
  by (induction bs arbitrary: c) (simp_all add: crc16c_step_ref)

lemma getcrc16ccitt_feed: "getcrc16ccitt bs = c16.feed 0xffff bs"
  by (simp add: getcrc16ccitt_def crc16c_fold)

lemma crc16x_fold: "foldl crc16x_step c bs = xm.feed c bs"
  by (induction bs arbitrary: c) (simp_all add: crc16x_step_ref)

lemma getcrc16xmodem_feed: "getcrc16xmodem bs = xm.feed 0 bs"
  by (simp add: getcrc16xmodem_def crc16x_fold)


section \<open>Properties\<close>

text \<open>
  C4: each table-driven routine computes the bit-serial checksum of its polynomial on every
  buffer: CRC-32 (reflected polynomial \<open>0xedb88320\<close>), CRC-16/X.25 (reflected \<open>0x8408\<close>) and
  CRC-16/XMODEM (\<open>0x1021\<close>, most significant bit first). In particular every one of the 768
  table entries is right, and the 64-bit register of the 32-bit routine does no harm.
\<close>

theorem crc_routines_reference:
  "getcrc32ccitt buf = lsb_crc 0xedb88320 0xffffffff buf
    \<and> getcrc16ccitt buf = lsb_crc 0x8408 0xffff buf
    \<and> getcrc16xmodem buf = msb_crc 0x1021 0 buf"
  by (simp add: getcrc32ccitt_feed getcrc16ccitt_feed getcrc16xmodem_feed lsb_crc_def msb_crc_def
      hi_byte_def)

text \<open>
  C1: a corruption confined to a window no longer than the register (four bytes for CRC-32, two
  for the CRC-16 routines) always changes the checksum, wherever it sits in the message.
\<close>

theorem crc_detects_bursts:
  assumes "length bs = length bs'" and "bs \<noteq> bs'"
  shows "(length bs \<le> 4 \<longrightarrow>
        getcrc32ccitt (pre @ bs @ post) \<noteq> getcrc32ccitt (pre @ bs' @ post))
    \<and> (length bs \<le> 2 \<longrightarrow>
        getcrc16ccitt (pre @ bs @ post) \<noteq> getcrc16ccitt (pre @ bs' @ post)
      \<and> getcrc16xmodem (pre @ bs @ post) \<noteq> getcrc16xmodem (pre @ bs' @ post))"
  unfolding getcrc32ccitt_feed getcrc16ccitt_feed getcrc16xmodem_feed
  using assms c32.burst_detected [OF fits_init32 assms(1) _ assms(2), of pre post]
    c16.burst_detected [OF _ assms(1) _ assms(2), of _ pre post]
    xm.burst_detected [OF _ assms(1) _ assms(2), of _ pre post]
  by simp

theorem crc_detects_bursts_witness:
  "getcrc32ccitt ([1] @ [2, 3] @ [4]) \<noteq> getcrc32ccitt ([1] @ [7, 3] @ [4])
    \<and> getcrc16ccitt ([1] @ [2, 3] @ [4]) \<noteq> getcrc16ccitt ([1] @ [7, 3] @ [4])
    \<and> getcrc16xmodem ([1] @ [2, 3] @ [4]) \<noteq> getcrc16xmodem ([1] @ [7, 3] @ [4])"
  using crc_detects_bursts [of "[2, 3]" "[7, 3]" "[1]" "[4]"] by simp

lemma funpow_16: "(f ^^ 16) x = (f ^^ 8) ((f ^^ 8) x)"
  by (simp add: numeral_nat)

lemma funpow_4: "(f ^^ 4) x = f (f (f (f x)))"
  by (simp add: numeral_nat)

lemma pack16:
  fixes c :: u16
  shows "c XOR pack (push_bit 8) (\<lambda>b. ucast b) [ucast (NOT c), ucast (drop_bit 8 (NOT c))] = 0xffff"
    (is "?l = _")
proof -
  have "?l = mask 16"
    by (rule bit_word_eqI)
      (auto simp: bit_xor_iff bit_push_bit_iff bit_ucast_iff bit_not_iff bit_drop_bit_eq bit_mask_iff)
  then show ?thesis by (simp add: mask_eq_exp_minus_1)
qed

lemma pack32:
  fixes c :: u64
  assumes "fits 32 c"
  shows "c XOR pack (push_bit 8) (\<lambda>b. ucast b) [ucast (NOT c), ucast (drop_bit 8 (NOT c)),
     ucast (drop_bit 16 (NOT c)), ucast (drop_bit 24 (NOT c))] = 0xffffffff" (is "?l = _")
proof -
  have "?l = mask 32"
    by (rule bit_word_eqI)
      (use assms in \<open>auto simp: fits_def bit_xor_iff bit_push_bit_iff bit_ucast_iff bit_not_iff
         bit_drop_bit_eq bit_mask_iff\<close>)
  then show ?thesis by (simp add: mask_eq_exp_minus_1)
qed

text \<open>The bytes a sender appends.\<close>

definition fcs16 :: "byte list \<Rightarrow> byte list" where
  "fcs16 msg = (let c = NOT (getcrc16ccitt msg) in [ucast c, ucast (drop_bit 8 c)])"

definition fcs32 :: "byte list \<Rightarrow> byte list" where
  "fcs32 msg = (let c = NOT (getcrc32ccitt msg) in
     [ucast c, ucast (drop_bit 8 c), ucast (drop_bit 16 c), ucast (drop_bit 24 c)])"

lemma length_fcs [simp]: "length (fcs16 msg) = 2" "length (fcs32 msg) = 4"
  by (simp_all add: fcs16_def fcs32_def Let_def)

lemma crc16_residue: "getcrc16ccitt (msg @ fcs16 msg) = 0xf0b8"
proof -
  have "(lsb_bit 0x8408 ^^ 8) ((lsb_bit 0x8408 ^^ 8) (0xffff::u16)) = 0xf0b8"
    by (simp add: lsb_bit_eval funpow_8)
  then show ?thesis
    using c16.residue [of "fcs16 msg" "0xffff" msg "0xffff"] pack16 [of "getcrc16ccitt msg"]
    by (simp add: getcrc16ccitt_feed fcs16_def Let_def numeral_2_eq_2)
qed

lemma crc32_residue: "getcrc32ccitt (msg @ fcs32 msg) = 0xdebb20e3"
proof -
  let ?S = "lsb_bit (0xedb88320::u64) ^^ 8"
  have "?S (?S (?S (?S 0xffffffff))) = 0xdebb20e3"
    by (simp add: lsb_bit_eval funpow_8)
  moreover have "fits 32 (getcrc32ccitt msg)"
    unfolding getcrc32ccitt_feed by (rule c32.C_feed [OF fits_init32])
  ultimately show ?thesis
    using c32.residue [of "fcs32 msg" "0xffffffff" msg "0xffffffff"] pack32 [of "getcrc32ccitt msg"]
    by (simp add: getcrc32ccitt_feed funpow_4) (simp add: fcs32_def Let_def getcrc32ccitt_feed)
qed

text \<open>
  the test the receiving protocols apply. A sender that appends the complement of the
  checksum, low byte first, makes the checksum of the whole frame the constant that
  \<open>CRC16TEST\<close> (\<open>CRC32TEST\<close>) compares with, whatever the message.
\<close>

theorem crc_residue:
  "CRC16TEST (getcrc16ccitt (msg @ fcs16 msg)) \<and> CRC32TEST (getcrc32ccitt (msg @ fcs32 msg))"
  by (simp add: CRC16TEST_def CRC32TEST_def crc16_residue crc32_residue)

lemma xm_step_u:
  "crc16x_step ((msb_bit 0x1021 ^^ 8) ((msb_bit 0x1021 ^^ 8) c)) b
    = (msb_bit 0x1021 ^^ 8) ((msb_bit 0x1021 ^^ 8) (updcrc16 b c))"
proof -
  have "(msb_bit 0x1021 ^^ 8) (ucast b :: u16) = hi_byte b"
    unfolding hi_byte_def by (rule msb_pow_high_zero) (auto simp: bit_simps dest: bit_imp_le_length)
  then show ?thesis by (simp add: crc16x_step_ref updcrc16_ref msb_pow_xor)
qed

lemma updcrc16_fold:
  "foldl crc16x_step ((msb_bit 0x1021 ^^ 8) ((msb_bit 0x1021 ^^ 8) c)) bs
    = (msb_bit 0x1021 ^^ 8) ((msb_bit 0x1021 ^^ 8) (foldl (\<lambda>c b. updcrc16 b c) c bs))"
  by (induction bs arbitrary: c) (simp_all add: xm_step_u)

lemma msb_bit_0 [simp]: "(msb_bit p ^^ k) 0 = 0"
  by (induction k) (simp_all add: msb_bit_def)

text \<open>
  the macro \<open>updcrc16\<close> that the Zmodem code folds over a header or block, closed with two
  zero bytes, is \<open>getcrc16xmodem\<close>, and folding \<open>updcrc32\<close> is \<open>getcrc32ccitt\<close>; so the
  Zmodem frames carry the same checksums as the block routines compute.
\<close>

theorem updcrc_macros:
  "foldl (\<lambda>c b. updcrc16 b c) 0 (buf @ [0, 0]) = getcrc16xmodem buf
    \<and> foldl (\<lambda>c b. updcrc32 b c) 0xffffffff buf = getcrc32ccitt buf"
  using updcrc16_fold [of 0 buf]
  by (simp add: getcrc16xmodem_def getcrc32ccitt_def updcrc32_step updcrc16_ref)

end
