(* ===== verification/BinkpCrypt.thy ===== *)
theory BinkpCrypt
  imports Crc
begin

text \<open>
  The traffic cipher of the binkp protocol (\<open>prot_binkp_crypt.c\<close>): three \<open>unsigned long\<close>
  keys, a keystream byte derived from the third, and key updates fed by the plaintext. A locale
  states what such a plaintext-feedback cipher promises; decryption undoing encryption, also
  when the traffic arrives in other chunks than it was sent in, is proved in it. The keys are 64
  bits wide here, so a simulation shows that the keystream is that of the 32-bit original.
\<close>

section \<open>The code\<close>

definition crc_32_tab :: "u64 list" where
  "crc_32_tab = [0x00000000, 0x77073096, 0xee0e612c, 0x990951ba, 0x076dc419,
    0x706af48f, 0xe963a535, 0x9e6495a3, 0x0edb8832, 0x79dcb8a4,
    0xe0d5e91e, 0x97d2d988, 0x09b64c2b, 0x7eb17cbd, 0xe7b82d07,
    0x90bf1d91, 0x1db71064, 0x6ab020f2, 0xf3b97148, 0x84be41de,
    0x1adad47d, 0x6ddde4eb, 0xf4d4b551, 0x83d385c7, 0x136c9856,
    0x646ba8c0, 0xfd62f97a, 0x8a65c9ec, 0x14015c4f, 0x63066cd9,
    0xfa0f3d63, 0x8d080df5, 0x3b6e20c8, 0x4c69105e, 0xd56041e4,
    0xa2677172, 0x3c03e4d1, 0x4b04d447, 0xd20d85fd, 0xa50ab56b,
    0x35b5a8fa, 0x42b2986c, 0xdbbbc9d6, 0xacbcf940, 0x32d86ce3,
    0x45df5c75, 0xdcd60dcf, 0xabd13d59, 0x26d930ac, 0x51de003a,
    0xc8d75180, 0xbfd06116, 0x21b4f4b5, 0x56b3c423, 0xcfba9599,
    0xb8bda50f, 0x2802b89e, 0x5f058808, 0xc60cd9b2, 0xb10be924,
    0x2f6f7c87, 0x58684c11, 0xc1611dab, 0xb6662d3d, 0x76dc4190,
    0x01db7106, 0x98d220bc, 0xefd5102a, 0x71b18589, 0x06b6b51f,
    0x9fbfe4a5, 0xe8b8d433, 0x7807c9a2, 0x0f00f934, 0x9609a88e,
    0xe10e9818, 0x7f6a0dbb, 0x086d3d2d, 0x91646c97, 0xe6635c01,
    0x6b6b51f4, 0x1c6c6162, 0x856530d8, 0xf262004e, 0x6c0695ed,
    0x1b01a57b, 0x8208f4c1, 0xf50fc457, 0x65b0d9c6, 0x12b7e950,
    0x8bbeb8ea, 0xfcb9887c, 0x62dd1ddf, 0x15da2d49, 0x8cd37cf3,
    0xfbd44c65, 0x4db26158, 0x3ab551ce, 0xa3bc0074, 0xd4bb30e2,
    0x4adfa541, 0x3dd895d7, 0xa4d1c46d, 0xd3d6f4fb, 0x4369e96a,
    0x346ed9fc, 0xad678846, 0xda60b8d0, 0x44042d73, 0x33031de5,
    0xaa0a4c5f, 0xdd0d7cc9, 0x5005713c, 0x270241aa, 0xbe0b1010,
    0xc90c2086, 0x5768b525, 0x206f85b3, 0xb966d409, 0xce61e49f,
    0x5edef90e, 0x29d9c998, 0xb0d09822, 0xc7d7a8b4, 0x59b33d17,
    0x2eb40d81, 0xb7bd5c3b, 0xc0ba6cad, 0xedb88320, 0x9abfb3b6,
    0x03b6e20c, 0x74b1d29a, 0xead54739, 0x9dd277af, 0x04db2615,
    0x73dc1683, 0xe3630b12, 0x94643b84, 0x0d6d6a3e, 0x7a6a5aa8,
    0xe40ecf0b, 0x9309ff9d, 0x0a00ae27, 0x7d079eb1, 0xf00f9344,
    0x8708a3d2, 0x1e01f268, 0x6906c2fe, 0xf762575d, 0x806567cb,
    0x196c3671, 0x6e6b06e7, 0xfed41b76, 0x89d32be0, 0x10da7a5a,
    0x67dd4acc, 0xf9b9df6f, 0x8ebeeff9, 0x17b7be43, 0x60b08ed5,
    0xd6d6a3e8, 0xa1d1937e, 0x38d8c2c4, 0x4fdff252, 0xd1bb67f1,
    0xa6bc5767, 0x3fb506dd, 0x48b2364b, 0xd80d2bda, 0xaf0a1b4c,
    0x36034af6, 0x41047a60, 0xdf60efc3, 0xa867df55, 0x316e8eef,
    0x4669be79, 0xcb61b38c, 0xbc66831a, 0x256fd2a0, 0x5268e236,
    0xcc0c7795, 0xbb0b4703, 0x220216b9, 0x5505262f, 0xc5ba3bbe,
    0xb2bd0b28, 0x2bb45a92, 0x5cb36a04, 0xc2d7ffa7, 0xb5d0cf31,
    0x2cd99e8b, 0x5bdeae1d, 0x9b64c2b0, 0xec63f226, 0x756aa39c,
    0x026d930a, 0x9c0906a9, 0xeb0e363f, 0x72076785, 0x05005713,
    0x95bf4a82, 0xe2b87a14, 0x7bb12bae, 0x0cb61b38, 0x92d28e9b,
    0xe5d5be0d, 0x7cdcefb7, 0x0bdbdf21, 0x86d3d2d4, 0xf1d4e242,
    0x68ddb3f8, 0x1fda836e, 0x81be16cd, 0xf6b9265b, 0x6fb077e1,
    0x18b74777, 0x88085ae6, 0xff0f6a70, 0x66063bca, 0x11010b5c,
    0x8f659eff, 0xf862ae69, 0x616bffd3, 0x166ccf45, 0xa00ae278,
    0xd70dd2ee, 0x4e048354, 0x3903b3c2, 0xa7672661, 0xd06016f7,
    0x4969474d, 0x3e6e77db, 0xaed16a4a, 0xd9d65adc, 0x40df0b66,
    0x37d83bf0, 0xa9bcae53, 0xdebb9ec5, 0x47b2cf7f, 0x30b5ffe9,
    0xbdbdf21c, 0xcabac28a, 0x53b39330, 0x24b4a3a6, 0xbad03605,
    0xcdd70693, 0x54de5729, 0x23d967bf, 0xb3667a2e, 0xc4614ab8,
    0x5d681b02, 0x2a6f2b94, 0xb40bbe37, 0xc30c8ea1, 0x5a05df1b,
    0x2d02ef8d]"

record binkp_keys =
  key0 :: u64
  key1 :: u64
  key2 :: u64

text \<open>The macro \<open>CRC32(c, b)\<close>; its second argument is an \<open>int\<close>.\<close>

definition CRC32 :: "u64 \<Rightarrow> u32 \<Rightarrow> u64" where
  "CRC32 c b = crc_32_tab ! unat (((ucast c :: u32) XOR b) AND 0xff) XOR drop_bit 8 c"

definition update_keys :: "binkp_keys \<Rightarrow> u32 \<Rightarrow> binkp_keys" where
  "update_keys keys c =
     (let k0 = CRC32 (key0 keys) c;
          k1 = key1 keys + (k0 AND 0xff);
          k1 = k1 * 134775813 + 1;
          keyshift = ucast (drop_bit 24 k1) :: u32;
          k2 = CRC32 (key2 keys) keyshift
      in \<lparr>key0 = k0, key1 = k1, key2 = k2\<rparr>)"

text \<open>A \<open>char\<close> is signed: \<open>(int)*passwd\<close> extends its sign.\<close>

definition init_keys :: "byte list \<Rightarrow> binkp_keys" where
  "init_keys passwd =
     foldl (\<lambda>keys ch. update_keys keys (scast ch))
       \<lparr>key0 = 305419896, key1 = 591751049, key2 = 878082192\<rparr> passwd"

definition decrypt_byte :: "binkp_keys \<Rightarrow> byte" where
  "decrypt_byte keys =
     (let temp = ((ucast (key2 keys) :: u32) AND 0xffff) OR 2
      in ucast (drop_bit 8 (temp * (temp XOR 1)) AND 0xff))"

fun decrypt_buf :: "byte list \<Rightarrow> binkp_keys \<Rightarrow> byte list \<times> binkp_keys" where
  "decrypt_buf [] keys = ([], keys)"
| "decrypt_buf (b # buf) keys =
     (let p = b XOR decrypt_byte keys;
          (out, keys') = decrypt_buf buf (update_keys keys (scast p))
      in (p # out, keys'))"

fun encrypt_buf :: "byte list \<Rightarrow> binkp_keys \<Rightarrow> byte list \<times> binkp_keys" where
  "encrypt_buf [] keys = ([], keys)"
| "encrypt_buf (b # buf) keys =
     (let t = decrypt_byte keys;
          (out, keys') = encrypt_buf buf (update_keys keys (scast b))
      in ((b XOR t) # out, keys'))"

text \<open>
  The caller's key setup (\<open>binkp_outgoing\<close>) and the answerer's (the end of the incoming
  handshake in \<open>binkp_getforsend\<close>), as pairs of outbound and inbound keys.
\<close>

definition minus_keys :: "byte list \<Rightarrow> binkp_keys" where
  "minus_keys passwd = foldl (\<lambda>keys ch. update_keys keys (scast ch)) (init_keys [0x2d]) passwd"

definition caller_keys :: "byte list \<Rightarrow> binkp_keys \<times> binkp_keys" where
  "caller_keys passwd = (init_keys passwd, minus_keys passwd)"

definition answerer_keys :: "byte list \<Rightarrow> binkp_keys \<times> binkp_keys" where
  "answerer_keys pbuf = (minus_keys pbuf, init_keys pbuf)"

text \<open>
  \<open>binkp_loop\<close> hands the traffic over block by block (\<open>encrypt_buf\<close> per block written,
  \<open>decrypt_buf\<close> per read, of however many bytes arrived), the keys carried along in the state.
\<close>

primrec chunks ::
  "(byte list \<Rightarrow> 'k \<Rightarrow> byte list \<times> 'k) \<Rightarrow> byte list list \<Rightarrow> 'k \<Rightarrow> byte list \<times> 'k" where
  "chunks f [] k = ([], k)"
| "chunks f (c # cs) k = (let (p, k1) = f c k; (q, k2) = chunks f cs k1 in (p @ q, k2))"

section \<open>What a plaintext-feedback cipher promises\<close>

locale feedback_cipher =
  fixes gen :: "'k \<Rightarrow> byte"
    and upd :: "'k \<Rightarrow> byte \<Rightarrow> 'k"
    and enc dec :: "byte list \<Rightarrow> 'k \<Rightarrow> byte list \<times> 'k"
  assumes enc_Nil: "enc [] k = ([], k)"
    and enc_Cons: "enc (b # bs) k = (let (out, k') = enc bs (upd k b) in ((b XOR gen k) # out, k'))"
    and dec_Nil: "dec [] k = ([], k)"
    and dec_Cons: "dec (b # bs) k =
      (let p = b XOR gen k; (out, k') = dec bs (upd k p) in (p # out, k'))"
begin

lemma dec_enc: "dec (fst (enc bs k)) k = (bs, snd (enc bs k))"
  by (induction bs arbitrary: k)
    (simp_all add: enc_Nil enc_Cons dec_Nil dec_Cons split_beta Let_def xor.assoc)

lemma length_enc [simp]: "length (fst (enc bs k)) = length bs"
  by (induction bs arbitrary: k) (simp_all add: enc_Nil enc_Cons split_beta)

lemma dec_append: "dec (a @ b) k =
    (fst (dec a k) @ fst (dec b (snd (dec a k))), snd (dec b (snd (dec a k))))"
  by (induction a arbitrary: k) (simp_all add: dec_Nil dec_Cons split_beta Let_def)

lemma enc_append: "enc (a @ b) k =
    (fst (enc a k) @ fst (enc b (snd (enc a k))), snd (enc b (snd (enc a k))))"
  by (induction a arbitrary: k) (simp_all add: enc_Nil enc_Cons split_beta Let_def)

lemma dec_chunks_concat: "chunks dec cs k = dec (concat cs) k"
  by (induction cs arbitrary: k) (simp_all add: dec_Nil dec_append split_beta Let_def)

lemma enc_chunks_concat: "chunks enc cs k = enc (concat cs) k"
  by (induction cs arbitrary: k) (simp_all add: enc_Nil enc_append split_beta Let_def)

lemma rechunked_traffic:
  assumes "concat received = fst (chunks enc sent k)"
  shows "chunks dec received k = (concat sent, snd (chunks enc sent k))"
  using assms by (simp add: dec_chunks_concat enc_chunks_concat dec_enc)

end

interpretation bc: feedback_cipher decrypt_byte "\<lambda>k b. update_keys k (scast b)" encrypt_buf decrypt_buf
  by unfold_locales (simp_all add: Let_def split_beta)

section \<open>The 32-bit cipher\<close>

text \<open>
  The traditional PKZIP cipher on 32-bit keys, with the CRC taken one bit at a time.
\<close>

type_synonym zip_keys = "u32 \<times> u32 \<times> u32"

definition zip_crc :: "u32 \<Rightarrow> byte \<Rightarrow> u32" where
  "zip_crc c b = (lsb_bit 0xedb88320 ^^ 8) (c XOR ucast b)"

definition zip_update :: "zip_keys \<Rightarrow> byte \<Rightarrow> zip_keys" where
  "zip_update = (\<lambda>(k0, k1, k2) c.
     (let k0' = zip_crc k0 c;
          k1' = (k1 + (k0' AND 0xff)) * 134775813 + 1
      in (k0', k1', zip_crc k2 (ucast (drop_bit 24 k1')))))"

definition zip_init :: "byte list \<Rightarrow> zip_keys" where
  "zip_init passwd = foldl zip_update (0x12345678, 0x23456789, 0x34567890) passwd"

definition zip_stream :: "zip_keys \<Rightarrow> byte" where
  "zip_stream = (\<lambda>(k0, k1, k2).
     (let temp = k2 AND 0xffff OR 2 in of_nat (unat temp * unat (temp XOR 1) div 256)))"

fun zip_encrypt :: "byte list \<Rightarrow> zip_keys \<Rightarrow> byte list" where
  "zip_encrypt [] k = []"
| "zip_encrypt (b # bs) k = (b XOR zip_stream k) # zip_encrypt bs (zip_update k b)"

text \<open>The simulation: 64-bit keys against their low halves.\<close>

definition low_keys :: "binkp_keys \<Rightarrow> zip_keys" where
  "low_keys k = (ucast (key0 k), ucast (key1 k), ucast (key2 k))"

definition keys_ok :: "binkp_keys \<Rightarrow> bool" where
  "keys_ok k \<longleftrightarrow> fits 32 (key0 k) \<and> fits 32 (key2 k)"

lemma crc_32_tab_same: "crc_32_tab = TableCRC32CCITT"
  by (simp add: crc_32_tab_def TableCRC32CCITT_def)

lemma lsb_bit_low:
  assumes "fits 32 (c::u64)"
  shows "(ucast (lsb_bit p c) :: u32) = lsb_bit (ucast p) (ucast c)"
proof (rule bit_word_eqI)
  fix n assume "n < LENGTH(32)"
  moreover have "\<not> bit c 32" using assms by (simp add: fits_def)
  ultimately show "bit (ucast (lsb_bit p c) :: u32) n = bit (lsb_bit (ucast p) (ucast c) :: u32) n"
    by (cases "n = 31") (auto simp: lsb_bit_def bit_ucast_iff bit_xor_iff bit_drop_bit_eq)
qed

lemma lsb_pow_low:
  "fits 32 (c::u64) \<Longrightarrow>
    (ucast ((lsb_bit 0xedb88320 ^^ k) c) :: u32) = (lsb_bit 0xedb88320 ^^ k) (ucast c)"
  by (induction k) (simp_all add: lsb_bit_low c32.fits_pow)

lemma CRC32_ref:
  assumes "fits 32 c"
  shows "CRC32 c b = crc32_step c (ucast b)"
proof -
  have "((ucast c :: u32) XOR b) AND 0xff = ((ucast c :: u32) XOR ucast (ucast b :: byte)) AND 0xff"
    unfolding and_255_take_bit
    by (rule bit_word_eqI) (auto simp: bit_take_bit_iff bit_xor_iff bit_ucast_iff)
  moreover have "drop_bit 8 c AND 0x00ffffff = drop_bit 8 c"
    using assms by (rule drop_8_fits_32)
  ultimately show ?thesis by (simp add: CRC32_def crc32_step_def crc_32_tab_same)
qed

lemma CRC32_sim:
  assumes "fits 32 c"
  shows "fits 32 (CRC32 c b)" and "ucast (CRC32 c b) = zip_crc (ucast c) (ucast b)"
proof -
  have f: "fits 32 (c XOR ucast (ucast b :: byte))" using assms by (simp add: fits_xor)
  show "fits 32 (CRC32 c b)"
    using f by (simp add: CRC32_ref [OF assms] crc32_step_ref [OF assms] c32.fits_pow)
  show "ucast (CRC32 c b) = zip_crc (ucast c) (ucast b)"
    using lsb_pow_low [OF f, of 8]
    by (simp add: CRC32_ref [OF assms] crc32_step_ref [OF assms] zip_crc_def ucast_xor_down
        ucast_byte_twice)
qed

lemma take_bit_32_64:
  fixes a b :: int
  shows "take_bit 32 (take_bit 64 a + take_bit 64 b) = take_bit 32 (a + b)"
    and "take_bit 32 (take_bit 64 a * take_bit 64 b) = take_bit 32 (a * b)"
  using take_bit_add [of 32 "take_bit 64 a" "take_bit 64 b"] take_bit_add [of 32 a b]
    take_bit_mult [of 32 "take_bit 64 a" "take_bit 64 b"] take_bit_mult [of 32 a b]
  by simp_all

lemma ucast_add_down: "(ucast (a + b :: u64) :: u32) = ucast a + ucast b"
  by transfer (simp add: take_bit_32_64)

lemma ucast_mult_down: "(ucast (a * b :: u64) :: u32) = ucast a * ucast b"
  by transfer (simp add: take_bit_32_64)

lemma ucast_and_down: "(ucast (a AND b :: u64) :: u32) = ucast a AND ucast b"
  by (rule bit_word_eqI) (auto simp: bit_ucast_iff bit_and_iff)

lemma ucast_scast_byte [simp]: "ucast (scast (b::byte) :: u32) = b"
  by (rule bit_word_eqI) (auto simp: bit_ucast_iff bit_signed_iff)

lemma keyshift_sim:
  "(ucast (ucast (drop_bit 24 (k::u64)) :: u32) :: byte) = ucast (drop_bit 24 (ucast k :: u32))"
  by (rule bit_word_eqI) (auto simp: bit_ucast_iff bit_drop_bit_eq)

lemma update_keys_sim:
  assumes "keys_ok k"
  shows "keys_ok (update_keys k c)"
    and "low_keys (update_keys k c) = zip_update (low_keys k) (ucast c)"
proof -
  have f: "fits 32 (key0 k)" "fits 32 (key2 k)" using assms by (simp_all add: keys_ok_def)
  then show "keys_ok (update_keys k c)"
    by (simp add: keys_ok_def update_keys_def Let_def CRC32_sim)
  show "low_keys (update_keys k c) = zip_update (low_keys k) (ucast c)"
    using f by (simp add: low_keys_def zip_update_def update_keys_def Let_def CRC32_sim
        keyshift_sim ucast_add_down ucast_mult_down ucast_and_down)
qed

lemma init_keys_sim: "keys_ok (init_keys pw) \<and> low_keys (init_keys pw) = zip_init pw"
proof -
  have "keys_ok (foldl (\<lambda>k ch. update_keys k (scast ch)) k pw)
      \<and> low_keys (foldl (\<lambda>k ch. update_keys k (scast ch)) k pw) = foldl zip_update (low_keys k) pw"
    if "keys_ok k" for k
    using that by (induction pw arbitrary: k) (simp_all add: update_keys_sim)
  then show ?thesis
    by (simp add: init_keys_def zip_init_def keys_ok_def low_keys_def fits_iff_take_bit)
qed

text \<open>The product of two 16-bit numbers does not overflow 32 bits.\<close>

lemma decrypt_byte_sim: "decrypt_byte k = zip_stream (low_keys k)"
proof -
  let ?t = "((ucast (key2 k) :: u32) AND 0xffff) OR 2"
  have lt: "unat w < 65536" if "fits 16 w" for w :: u32
  proof -
    have "unat (take_bit 16 w) < 2 ^ 16"
      unfolding unsigned_take_bit_eq by (rule take_bit_nat_less_exp)
    with that show ?thesis by (simp add: fits_iff_take_bit)
  qed
  have "fits 16 ?t"
  proof -
    have "?t = (take_bit 16 (ucast (key2 k))) OR 2"
      by (simp add: take_bit_eq_mask mask_eq_exp_minus_1)
    then show ?thesis by (simp add: fits_iff_take_bit take_bit_or)
  qed
  moreover from this have "fits 16 (?t XOR 1)"
    by (rule fits_xor) (simp add: fits_iff_take_bit)
  ultimately have "unat ?t * unat (?t XOR 1) < 65536 * 65536"
    by (intro mult_strict_mono lt) auto
  then have "unat (?t * (?t XOR 1)) = unat ?t * unat (?t XOR 1)"
    by (simp add: unat_word_ariths)
  then have "unat (drop_bit 8 (?t * (?t XOR 1))) = unat ?t * unat (?t XOR 1) div 256"
    by (simp add: unsigned_drop_bit_eq drop_bit_eq_div unat_div_distrib)
  moreover have "(ucast (take_bit 8 w) :: byte) = of_nat (unat w)" for w :: u32
    by (simp, rule bit_word_eqI) (auto simp: bit_ucast_iff bit_take_bit_iff)
  ultimately show ?thesis
    by (simp only: decrypt_byte_def zip_stream_def low_keys_def Let_def and_255_take_bit case_prod_conv)
qed

lemmas cipher_sim = update_keys_sim init_keys_sim decrypt_byte_sim

section \<open>Properties\<close>

text \<open>
  C2: whatever the receiver's read sizes, decrypting the arriving chunks with the sender's
  initial keys gives the sender's blocks back, and both ends finish with the same keys.
\<close>

theorem binkp_crypt_roundtrip:
  assumes "concat received = fst (chunks encrypt_buf sent keys)"
  shows "chunks decrypt_buf received keys = (concat sent, snd (chunks encrypt_buf sent keys))"
  using assms by (rule bc.rechunked_traffic)

theorem binkp_crypt_roundtrip_witness:
  "chunks decrypt_buf
      [take 1 (fst (chunks encrypt_buf [[1, 2], [3]] (init_keys [65]))),
       drop 1 (fst (chunks encrypt_buf [[1, 2], [3]] (init_keys [65])))] (init_keys [65])
    = ([1, 2, 3], snd (chunks encrypt_buf [[1, 2], [3]] (init_keys [65])))"
  using binkp_crypt_roundtrip [of
      "[take 1 (fst (chunks encrypt_buf [[1, 2], [3]] (init_keys [65]))),
        drop 1 (fst (chunks encrypt_buf [[1, 2], [3]] (init_keys [65])))]"
      "[[1, 2], [3]]" "init_keys [65]"]
  by simp

lemma encrypt_buf_sim: "keys_ok k \<Longrightarrow> fst (encrypt_buf buf k) = zip_encrypt buf (low_keys k)"
  by (induction buf arbitrary: k) (simp_all add: Let_def split_beta cipher_sim)

text \<open>
  C5: the 64-bit keys of an LP64 build produce the ciphertext of the 32-bit PKZIP cipher for
  every password and every block, so the two kinds of build understand each other; the caller's
  outbound keys are the answerer's inbound keys and the other way round.
\<close>

theorem binkp_crypt_is_zip:
  "fst (encrypt_buf buf (init_keys passwd)) = zip_encrypt buf (zip_init passwd)
    \<and> fst (encrypt_buf buf (minus_keys passwd)) = zip_encrypt buf (zip_init (0x2d # passwd))
    \<and> answerer_keys passwd = prod.swap (caller_keys passwd)"
proof -
  have "minus_keys passwd = init_keys (0x2d # passwd)"
    by (simp add: minus_keys_def init_keys_def)
  then show ?thesis
    by (simp add: encrypt_buf_sim cipher_sim answerer_keys_def caller_keys_def)
qed

end
