(* ===== verification/Md5.thy ===== *)
theory Md5
  imports CString
begin

text \<open>
  MD5 and CRAM-MD5 (\<open>u_md5.c\<close>), against the padding and the round functions of RFC 1321 and the
  keyed construction of RFC 2104 that RFC 2195 uses.
\<close>

unbundle bit_operations_syntax

section \<open>The code\<close>

type_synonym regs = "u32 \<times> u32 \<times> u32 \<times> u32"

record s_md5 =
  md5_count :: int
  md5_buf :: regs

definition md5_F :: "u32 \<Rightarrow> u32 \<Rightarrow> u32 \<Rightarrow> u32" where "md5_F x y z = (x AND y) OR (NOT x AND z)"
definition md5_G :: "u32 \<Rightarrow> u32 \<Rightarrow> u32 \<Rightarrow> u32" where "md5_G x y z = (x AND z) OR (y AND NOT z)"
definition md5_H :: "u32 \<Rightarrow> u32 \<Rightarrow> u32 \<Rightarrow> u32" where "md5_H x y z = x XOR y XOR z"
definition md5_I :: "u32 \<Rightarrow> u32 \<Rightarrow> u32 \<Rightarrow> u32" where "md5_I x y z = y XOR (x OR NOT z)"

definition ROTATE_LEFT :: "u32 \<Rightarrow> nat \<Rightarrow> u32" where
  "ROTATE_LEFT x n = push_bit n x OR drop_bit (32 - n) x"

datatype transformation = FF | GG | HH | II

fun basic :: "transformation \<Rightarrow> u32 \<Rightarrow> u32 \<Rightarrow> u32 \<Rightarrow> u32" where
  "basic FF = md5_F" | "basic GG = md5_G" | "basic HH = md5_H" | "basic II = md5_I"

text \<open>
  The 64 calls of \<open>md5_update\<close> in their order: the macro, the index into \<open>in\<close>, the rotation and the
  constant. The roles of the registers rotate from call to call, \<open>(a, b, c, d)\<close>, \<open>(d, a, b, c)\<close>, \<dots>,
  so the state of the fold below lists them in the order of the next call.
\<close>

definition md5_steps :: "(transformation \<times> nat \<times> nat \<times> u32) list" where
  "md5_steps =
    [
      (FF, 0, 7, 3614090360), (FF, 1, 12, 3905402710), (FF, 2, 17, 606105819), (FF, 3, 22, 3250441966),
      (FF, 4, 7, 4118548399), (FF, 5, 12, 1200080426), (FF, 6, 17, 2821735955), (FF, 7, 22, 4249261313),
      (FF, 8, 7, 1770035416), (FF, 9, 12, 2336552879), (FF, 10, 17, 4294925233), (FF, 11, 22, 2304563134),
      (FF, 12, 7, 1804603682), (FF, 13, 12, 4254626195), (FF, 14, 17, 2792965006), (FF, 15, 22, 1236535329),
      (GG, 1, 5, 4129170786), (GG, 6, 9, 3225465664), (GG, 11, 14, 643717713), (GG, 0, 20, 3921069994),
      (GG, 5, 5, 3593408605), (GG, 10, 9, 38016083), (GG, 15, 14, 3634488961), (GG, 4, 20, 3889429448),
      (GG, 9, 5, 568446438), (GG, 14, 9, 3275163606), (GG, 3, 14, 4107603335), (GG, 8, 20, 1163531501),
      (GG, 13, 5, 2850285829), (GG, 2, 9, 4243563512), (GG, 7, 14, 1735328473), (GG, 12, 20, 2368359562),
      (HH, 5, 4, 4294588738), (HH, 8, 11, 2272392833), (HH, 11, 16, 1839030562), (HH, 14, 23, 4259657740),
      (HH, 1, 4, 2763975236), (HH, 4, 11, 1272893353), (HH, 7, 16, 4139469664), (HH, 10, 23, 3200236656),
      (HH, 13, 4, 681279174), (HH, 0, 11, 3936430074), (HH, 3, 16, 3572445317), (HH, 6, 23, 76029189),
      (HH, 9, 4, 3654602809), (HH, 12, 11, 3873151461), (HH, 15, 16, 530742520), (HH, 2, 23, 3299628645),
      (II, 0, 6, 4096336452), (II, 7, 10, 1126891415), (II, 14, 15, 2878612391), (II, 5, 21, 4237533241),
      (II, 12, 6, 1700485571), (II, 3, 10, 2399980690), (II, 10, 15, 4293915773), (II, 1, 21, 2240044497),
      (II, 8, 6, 1873313359), (II, 15, 10, 4264355552), (II, 6, 15, 2734768916), (II, 13, 21, 1309151649),
      (II, 4, 6, 4149444226), (II, 11, 10, 3174756917), (II, 2, 15, 718787259), (II, 9, 21, 3951481745)
    ]"

fun md5_step :: "u32 list \<Rightarrow> transformation \<times> nat \<times> nat \<times> u32 \<Rightarrow> regs \<Rightarrow> regs" where
  "md5_step inp (f, i, s, ac) (a, b, c, d) =
     (let a = a + (basic f b c d + inp ! i + ac); a = ROTATE_LEFT a s; a = a + b in (d, a, b, c))"

definition md5_init :: s_md5 where
  "md5_init = \<lparr>md5_count = 0, md5_buf = (0x67452301, 0xefcdab89, 0x98badcfe, 0x10325476)\<rparr>"

definition unpack :: "byte list \<Rightarrow> u32 list" where
  "unpack buffer =
     map (\<lambda>i. ucast (buffer ! (4 * i)) OR push_bit 8 (ucast (buffer ! (4 * i + 1)))
              OR push_bit 16 (ucast (buffer ! (4 * i + 2))) OR push_bit 24 (ucast (buffer ! (4 * i + 3))))
       [0..<16]"

fun add_regs :: "regs \<Rightarrow> regs \<Rightarrow> regs" where
  "add_regs (a, b, c, d) (a', b', c', d') = (a + a', b + b', c + c', d + d')"

definition md5_update :: "s_md5 \<Rightarrow> byte list \<Rightarrow> s_md5" where
  "md5_update md buffer =
     \<lparr>md5_count = md5_count md + 1,
      md5_buf = add_regs (md5_buf md) (fold (md5_step (unpack buffer)) md5_steps (md5_buf md))\<rparr>"

text \<open>The first loop of \<open>md5_compute\<close>: whole chunks; the rest is returned.\<close>

function md5_chunks :: "s_md5 \<Rightarrow> byte list \<Rightarrow> s_md5 \<times> byte list" where
  "md5_chunks md data =
     (if length data \<ge> 64 then md5_chunks (md5_update md data) (drop 64 data) else (md, data))"
  by pat_completeness auto
termination
  by (relation "measure (\<lambda>(md, data). length data)") auto

declare md5_chunks.simps [simp del]

definition bytes_of_reg :: "u32 \<Rightarrow> byte list" where
  "bytes_of_reg x =
     [ucast (x AND 0xff), ucast (drop_bit 8 x AND 0xff), ucast (drop_bit 16 x AND 0xff),
      ucast (drop_bit 24 x AND 0xff)]"

text \<open>The length in bits is a 64-bit \<open>size_t\<close>, of which the four low bytes are stored.\<close>

definition md5_compute :: "s_md5 \<Rightarrow> byte list \<Rightarrow> byte list" where
  "md5_compute md data =
     (let (md, rest) = md5_chunks md data;
          len = length rest;
          buffer = rest @ [0x80] @ replicate (63 - len) 0;
          (md, buffer) =
            (if len > 55
             then let md = md5_update md buffer in (md\<lparr>md5_count := md5_count md - 1\<rparr>, replicate 64 0)
             else (md, buffer));
          bits = push_bit 3 (of_nat len + of_int (md5_count md) * 64) :: u64;
          buffer = buffer[56 := ucast (bits AND 0xff), 57 := ucast (drop_bit 8 bits AND 0xff),
                          58 := ucast (drop_bit 16 bits AND 0xff), 59 := ucast (drop_bit 24 bits AND 0xff)];
          md = md5_update md buffer
      in case md5_buf md of (a, b, c, d) \<Rightarrow>
           bytes_of_reg a @ bytes_of_reg b @ bytes_of_reg c @ bytes_of_reg d)"

definition md5_get :: "byte list \<Rightarrow> byte list" where
  "md5_get data = md5_compute md5_init data"

definition md5_cram_get :: "byte list \<Rightarrow> byte list \<Rightarrow> byte list" where
  "md5_cram_get secret challenge =
     (let secret = (if length secret > 64 then md5_get secret else secret);
          padded = secret @ replicate (64 - length secret) 0;
          osecret = map (\<lambda>b. b XOR 0x5c) padded;
          isecret = map (\<lambda>b. b XOR 0x36) padded;
          secret_md5 = md5_compute (md5_update md5_init isecret) challenge
      in md5_compute (md5_update md5_init osecret) secret_md5)"

section \<open>The reference\<close>

text \<open>
  RFC 1321, with nothing taken from the code: pad with a one bit, zeros and the 64-bit length in bits; then compress
  block by block. Step \<open>i\<close> of a block takes its auxiliary function, message word and rotation by arithmetic on \<open>i\<close>, and
  its constant from the table \<open>T\<close> of the RFC, the integer part of \<open>2 ^ 32\<close> times the absolute value of the sine of
  \<open>i + 1\<close>, in the hexadecimal digits of its appendix.
\<close>

definition rfc_T :: "u32 list" where
  "rfc_T =
    [0xd76aa478, 0xe8c7b756, 0x242070db, 0xc1bdceee, 0xf57c0faf, 0x4787c62a, 0xa8304613, 0xfd469501,
     0x698098d8, 0x8b44f7af, 0xffff5bb1, 0x895cd7be, 0x6b901122, 0xfd987193, 0xa679438e, 0x49b40821,
     0xf61e2562, 0xc040b340, 0x265e5a51, 0xe9b6c7aa, 0xd62f105d, 0x02441453, 0xd8a1e681, 0xe7d3fbc8,
     0x21e1cde6, 0xc33707d6, 0xf4d50d87, 0x455a14ed, 0xa9e3e905, 0xfcefa3f8, 0x676f02d9, 0x8d2a4c8a,
     0xfffa3942, 0x8771f681, 0x6d9d6122, 0xfde5380c, 0xa4beea44, 0x4bdecfa9, 0xf6bb4b60, 0xbebfbc70,
     0x289b7ec6, 0xeaa127fa, 0xd4ef3085, 0x04881d05, 0xd9d4d039, 0xe6db99e5, 0x1fa27cf8, 0xc4ac5665,
     0xf4292244, 0x432aff97, 0xab9423a7, 0xfc93a039, 0x655b59c3, 0x8f0ccc92, 0xffeff47d, 0x85845dd1,
     0x6fa87e4f, 0xfe2ce6e0, 0xa3014314, 0x4e0811a1, 0xf7537e82, 0xbd3af235, 0x2ad7d2bb, 0xeb86d391]"

definition rfc_index :: "nat \<Rightarrow> nat" where
  "rfc_index i = (if i < 16 then i else if i < 32 then (5 * i + 1) mod 16
                  else if i < 48 then (3 * i + 5) mod 16 else (7 * i) mod 16)"

definition rfc_shift :: "nat \<Rightarrow> nat" where
  "rfc_shift i = [[7, 12, 17, 22], [5, 9, 14, 20], [4, 11, 16, 23], [6, 10, 15, 21]] ! (i div 16) ! (i mod 4)"

definition rfc_fun :: "nat \<Rightarrow> u32 \<Rightarrow> u32 \<Rightarrow> u32 \<Rightarrow> u32" where
  "rfc_fun i x y z =
     (if i < 16 then (x AND y) OR (NOT x AND z)
      else if i < 32 then (x AND z) OR (y AND NOT z)
      else if i < 48 then x XOR y XOR z
      else y XOR (x OR NOT z))"

text \<open>The words of a block, low-order byte first.\<close>

definition rfc_word :: "byte list \<Rightarrow> nat \<Rightarrow> u32" where
  "rfc_word block i = word_rcat [block ! (4 * i + 3), block ! (4 * i + 2), block ! (4 * i + 1), block ! (4 * i)]"

definition rfc_step :: "byte list \<Rightarrow> nat \<Rightarrow> u32 \<times> u32 \<times> u32 \<times> u32 \<Rightarrow> u32 \<times> u32 \<times> u32 \<times> u32" where
  "rfc_step block i st =
     (case st of (a, b, c, d) \<Rightarrow>
        (d, b + word_rotl (rfc_shift i) (a + rfc_fun i b c d + rfc_word block (rfc_index i) + rfc_T ! i), b, c))"

definition rfc_compress :: "u32 \<times> u32 \<times> u32 \<times> u32 \<Rightarrow> byte list \<Rightarrow> u32 \<times> u32 \<times> u32 \<times> u32" where
  "rfc_compress st block =
     (case (st, fold (rfc_step block) [0..<64] st) of
        ((aa, bb, cc, dd), (a, b, c, d)) \<Rightarrow> (a + aa, b + bb, c + cc, d + dd))"

function rfc_blocks :: "u32 \<times> u32 \<times> u32 \<times> u32 \<Rightarrow> byte list \<Rightarrow> u32 \<times> u32 \<times> u32 \<times> u32" where
  "rfc_blocks st m = (if length m < 64 then st else rfc_blocks (rfc_compress st (take 64 m)) (drop 64 m))"
  by pat_completeness auto
termination
  by (relation "measure (\<lambda>(st, m). length m)") auto

declare rfc_blocks.simps [simp del]

definition le64 :: "nat \<Rightarrow> byte list" where
  "le64 n = map (\<lambda>i. of_nat (n div 256 ^ i)) [0..<8]"

text \<open>The padding behind a message of \<open>n\<close> bytes.\<close>

definition rfc_padding :: "nat \<Rightarrow> byte list" where
  "rfc_padding n = 0x80 # replicate ((119 - n mod 64) mod 64) 0 @ le64 (8 * n)"

text \<open>The digest, low-order bytes first.\<close>

definition rfc_bytes :: "u32 \<Rightarrow> byte list" where
  "rfc_bytes x = map (\<lambda>i. of_nat (unat x div 256 ^ i)) [0..<4]"

definition rfc_output :: "u32 \<times> u32 \<times> u32 \<times> u32 \<Rightarrow> byte list" where
  "rfc_output st = (case st of (a, b, c, d) \<Rightarrow> rfc_bytes a @ rfc_bytes b @ rfc_bytes c @ rfc_bytes d)"

definition rfc_md5 :: "byte list \<Rightarrow> byte list" where
  "rfc_md5 m = rfc_output (rfc_blocks (0x67452301, 0xefcdab89, 0x98badcfe, 0x10325476) (m @ rfc_padding (length m)))"

text \<open>RFC 2104.\<close>

definition rfc_hmac :: "byte list \<Rightarrow> byte list \<Rightarrow> byte list" where
  "rfc_hmac key m =
     (let k = (if length key > 64 then rfc_md5 key else key); k = k @ replicate (64 - length k) 0
      in rfc_md5 (map (\<lambda>b. b XOR 0x5c) k @ rfc_md5 (map (\<lambda>b. b XOR 0x36) k @ m)))"

section \<open>Lemmas\<close>

definition round_of :: "nat \<Rightarrow> transformation" where
  "round_of i = (if i < 16 then FF else if i < 32 then GG else if i < 48 then HH else II)"

lemma md5_steps_schedule: "md5_steps = map (\<lambda>i. (round_of i, rfc_index i, rfc_shift i, rfc_T ! i)) [0..<64]"
  by code_simp

lemma basic_rfc: "basic (round_of i) = rfc_fun i"
  by (intro ext) (simp add: round_of_def rfc_fun_def md5_F_def md5_G_def md5_H_def md5_I_def)

lemma ROTATE_LEFT_rotl: "n < 32 \<Longrightarrow> ROTATE_LEFT x n = word_rotl n x"
proof (rule bit_word_eqI)
  fix k assume k: "n < 32" "k < LENGTH(32)"
  have "(k + 32 - n) mod 32 = (if n \<le> k then k - n else 32 + k - n)"
  proof (cases "n \<le> k")
    case True
    then have "k + 32 - n = (k - n) + 32" by simp
    with True k show ?thesis by (simp add: mod_add_self2 del: add_diff_assoc2)
  qed (use k in simp)
  moreover have "\<not> bit x (32 + k - n)" if "n \<le> k" using that by (auto dest: bit_imp_le_length)
  ultimately show "bit (ROTATE_LEFT x n) k = bit (word_rotl n x) k"
    using k by (auto simp: ROTATE_LEFT_def bit_simps)
qed

lemma byte_bit: "bit (b :: byte) k \<Longrightarrow> k < 8"
  by (auto dest: bit_imp_le_length)

lemma bit_rcat:
  "k < 32 \<Longrightarrow> bit (word_rcat (ws :: byte list) :: u32) k \<longleftrightarrow> k div 8 < length ws \<and> bit (rev ws ! (k div 8)) (k mod 8)"
  using bit_horner_sum_uint_exp_iff [of "rev ws" k] by (simp add: word_rcat_def bit_word_of_int_iff)

lemma unpack_rfc: "i < 16 \<Longrightarrow> unpack block ! i = rfc_word block i"
proof (rule bit_word_eqI)
  fix k assume k: "i < 16" "k < LENGTH(32)"
  define b0 b1 b2 b3 where b: "b0 = block ! (4 * i)" "b1 = block ! (4 * i + 1)" "b2 = block ! (4 * i + 2)" "b3 = block ! (4 * i + 3)"
  have l: "bit (unpack block ! i) k \<longleftrightarrow>
      bit b0 k \<or> 8 \<le> k \<and> bit b1 (k - 8) \<or> 16 \<le> k \<and> bit b2 (k - 16) \<or> 24 \<le> k \<and> bit b3 (k - 24)"
    using k by (auto simp: unpack_def b bit_simps)
  have r: "bit (rfc_word block i) k \<longleftrightarrow> bit ([b0, b1, b2, b3] ! (k div 8)) (k mod 8)"
    using k by (simp add: rfc_word_def bit_rcat b div_less_iff_less_mult)
  consider "k < 8" | "8 \<le> k" "k < 16" | "16 \<le> k" "k < 24" | "24 \<le> k" "k < 32" using k by force
  then show "bit (unpack block ! i) k = bit (rfc_word block i) k"
    unfolding l r
  proof cases
    case 2
    then have "k div 8 = 1" "k mod 8 = k - 8" by presburger+
    with 2 show "(bit b0 k \<or> 8 \<le> k \<and> bit b1 (k - 8) \<or> 16 \<le> k \<and> bit b2 (k - 16) \<or> 24 \<le> k \<and> bit b3 (k - 24))
      = bit ([b0, b1, b2, b3] ! (k div 8)) (k mod 8)" by (auto dest: byte_bit)
  next
    case 3
    then have "k div 8 = 2" "k mod 8 = k - 16" by presburger+
    with 3 show "(bit b0 k \<or> 8 \<le> k \<and> bit b1 (k - 8) \<or> 16 \<le> k \<and> bit b2 (k - 16) \<or> 24 \<le> k \<and> bit b3 (k - 24))
      = bit ([b0, b1, b2, b3] ! (k div 8)) (k mod 8)" by (auto dest: byte_bit)
  next
    case 4
    then have "k div 8 = 3" "k mod 8 = k - 24" by presburger+
    with 4 show "(bit b0 k \<or> 8 \<le> k \<and> bit b1 (k - 8) \<or> 16 \<le> k \<and> bit b2 (k - 16) \<or> 24 \<le> k \<and> bit b3 (k - 24))
      = bit ([b0, b1, b2, b3] ! (k div 8)) (k mod 8)" by (auto dest: byte_bit)
  qed auto
qed

lemma reg_byte: "(ucast (drop_bit k x AND 0xff) :: byte) = of_nat (unat (x :: u32) div 2 ^ k)"
proof (rule word_unat_eq_iff [THEN iffD2])
  have "unat (drop_bit k x AND 0xff) = unat x div 2 ^ k mod 256"
    unfolding and_255_take_bit unsigned_take_bit_eq unsigned_drop_bit_eq
    using unsigned_less [of x, where 'a = nat] by (simp add: take_bit_eq_mod drop_bit_eq_div)
  then show "unat (ucast (drop_bit k x AND 0xff) :: byte) = unat (of_nat (unat x div 2 ^ k) :: byte)"
    by (simp add: unat_of_nat unsigned_ucast_eq take_bit_eq_mod)
qed

lemma bytes_of_reg_rfc: "bytes_of_reg x = rfc_bytes x"
  using reg_byte [of 0 x] reg_byte [of 8 x] reg_byte [of 16 x] reg_byte [of 24 x]
  by (simp add: bytes_of_reg_def rfc_bytes_def upt_rec)

lemma rfc_index_less: "i < 64 \<Longrightarrow> rfc_index i < 16"
  by (simp add: rfc_index_def)

lemma rfc_shift_less: "i < 64 \<Longrightarrow> rfc_shift i < 32"
proof -
  have "\<forall>i\<in>set [0..<64]. rfc_shift i < 32" by code_simp
  then show "i < 64 \<Longrightarrow> rfc_shift i < 32" by simp
qed

lemma md5_step_rfc:
  assumes "i < 64"
  shows "md5_step (unpack block) (round_of i, rfc_index i, rfc_shift i, rfc_T ! i) st = rfc_step block i st"
  using assms
  by (cases st) (simp add: rfc_step_def Let_def basic_rfc ROTATE_LEFT_rotl rfc_shift_less unpack_rfc rfc_index_less ac_simps)

lemma compress_rfc: "md5_buf (md5_update md block) = rfc_compress (md5_buf md) block"
proof -
  have "fold (md5_step (unpack block)) (map (\<lambda>i. (round_of i, rfc_index i, rfc_shift i, rfc_T ! i)) is) st
     = fold (rfc_step block) is st" if "\<forall>i\<in>set is. i < 64" for "is" st
    using that by (induction "is" arbitrary: st) (simp_all add: md5_step_rfc del: md5_step.simps)
  then have "fold (md5_step (unpack block)) md5_steps (md5_buf md) = fold (rfc_step block) [0..<64] (md5_buf md)"
    by (simp add: md5_steps_schedule del: upt.simps)
  then show ?thesis
    by (cases "md5_buf md"; cases "fold (rfc_step block) [0..<64] (md5_buf md)")
      (simp add: md5_update_def rfc_compress_def add.commute)
qed

lemma unpack_take: "64 \<le> length b \<Longrightarrow> unpack (take 64 b) = unpack b"
  by (auto simp: unpack_def)

lemma rfc_blocks_step: "length b = 64 \<Longrightarrow> rfc_blocks st (b @ m) = rfc_blocks (rfc_compress st b) m"
  by (subst rfc_blocks.simps) simp

lemma rfc_blocks_last: "length b = 64 \<Longrightarrow> rfc_blocks st b = rfc_compress st b"
  using rfc_blocks_step [of b st "[]"] by (simp add: rfc_blocks.simps [of _ "[]"])

lemma md5_chunks_rfc:
  assumes "md5_chunks md data = (md', rest)"
  shows "length rest = length data mod 64 \<and> md5_count md' = md5_count md + int (length data div 64)
    \<and> rfc_blocks (md5_buf md) (data @ tail) = rfc_blocks (md5_buf md') (rest @ tail)"
  using assms
proof (induction md data rule: md5_chunks.induct)
  case (1 md data)
  show ?case
  proof (cases "64 \<le> length data")
    case True
    have "rfc_blocks (md5_buf md) (data @ tail) = rfc_blocks (md5_buf (md5_update md data)) (drop 64 data @ tail)"
    proof -
      have e: "data @ tail = take 64 data @ drop 64 data @ tail" by simp
      have "md5_buf (md5_update md (take 64 data)) = md5_buf (md5_update md data)"
        using True by (simp add: md5_update_def unpack_take)
      then have "rfc_compress (md5_buf md) (take 64 data) = md5_buf (md5_update md data)"
        by (simp add: compress_rfc)
      then show ?thesis
        using True by (subst e, subst rfc_blocks_step) simp_all
    qed
    moreover have "md5_count (md5_update md data) = md5_count md + 1" by (simp add: md5_update_def)
    moreover have "md5_chunks (md5_update md data) (drop 64 data) = (md', rest)"
      using 1(2) True by (simp add: md5_chunks.simps [of md])
    moreover have "length data mod 64 = (length data - 64) mod 64" "length data div 64 = Suc ((length data - 64) div 64)"
      using True by (auto simp: le_mod_geq le_div_geq)
    ultimately show ?thesis using 1(1) [OF True] by simp
  next
    case False
    with 1(2) show ?thesis by (simp add: md5_chunks.simps [of md])
  qed
qed

lemma length_byte:
  assumes "n < 2 ^ 64"
  shows "(ucast (drop_bit k (of_nat n :: u64) AND 0xff) :: byte) = of_nat (n div 2 ^ k)"
proof (rule word_unat_eq_iff [THEN iffD2])
  have "unat (drop_bit k (of_nat n :: u64) AND 0xff) = n div 2 ^ k mod 256"
    unfolding and_255_take_bit unsigned_take_bit_eq unsigned_drop_bit_eq
    using assms by (simp add: unat_of_nat take_bit_eq_mod drop_bit_eq_div)
  then show "unat (ucast (drop_bit k (of_nat n :: u64) AND 0xff) :: byte) = unat (of_nat (n div 2 ^ k) :: byte)"
    by (simp add: unat_of_nat unsigned_ucast_eq take_bit_eq_mod)
qed

lemma length_bytes:
  assumes "n < 2 ^ 32"
  shows "le64 n = map (\<lambda>k. ucast (drop_bit k (of_nat n :: u64) AND 0xff)) [0, 8, 16, 24] @ [0, 0, 0, 0]"
proof -
  have "n < 2 ^ 64" using assms by simp
  note b = length_byte [OF this]
  show ?thesis
    unfolding le64_def using assms by (simp add: upt_rec b)
qed

lemma store_length:
  "length p = 56 \<Longrightarrow> (p @ replicate 8 0)[56 := a, 57 := b, 58 := c, 59 := d] = p @ [a, b, c, d, 0, 0, 0, 0]"
  by (simp add: list_update_append eval_nat_numeral)

lemma md5_compute_rfc:
  assumes "md5_count md = int c" "n = 64 * c + length data" "n < 2 ^ 29"
  shows "md5_compute md data = rfc_output (rfc_blocks (md5_buf md) (data @ rfc_padding n))"
proof -
  obtain md' rest where ch: "md5_chunks md data = (md', rest)" by fastforce
  note r = md5_chunks_rfc [OF ch, of "rfc_padding n"]
  let ?len = "length rest"
  have len: "?len < 64" "n mod 64 = ?len" using r assms(2) by simp_all
  have count: "of_nat ?len + of_int (md5_count md') * 64 = (of_nat n :: u64)"
  proof -
    have "int ?len + md5_count md' * 64 = int n"
      using r assms(1,2) by (simp add: zmod_int zdiv_int)
    then show ?thesis by (metis of_int_add of_int_mult of_int_numeral of_int_of_nat_eq)
  qed
  define bs where "bs = map (\<lambda>k. ucast (drop_bit k (of_nat (8 * n) :: u64) AND 0xff) :: byte) [0, 8, 16, 24]"
  have le: "le64 (8 * n) = bs @ [0, 0, 0, 0]"
    unfolding bs_def using assms(3) by (intro length_bytes) simp
  have out: "(case md5_buf m of (a, b, c, d) \<Rightarrow>
      bytes_of_reg a @ bytes_of_reg b @ bytes_of_reg c @ bytes_of_reg d) = rfc_output (md5_buf m)" for m
    by (simp add: rfc_output_def bytes_of_reg_rfc)
  have bits: "push_bit 3 (of_nat n) = (of_nat (8 * n) :: u64)"
    by (simp add: push_bit_eq_mult)
  have recount: "md5_buf (md5_update (m\<lparr>md5_count := k\<rparr>) blk) = md5_buf (md5_update m blk)" for m k blk
    by (simp add: compress_rfc)
  have cnt: "md5_count (md5_update m blk) = md5_count m + 1" for m blk by (simp add: md5_update_def)
  obtain b0 b1 b2 b3 where b: "bs = [b0, b1, b2, b3]" unfolding bs_def by simp
  show ?thesis
  proof (cases "?len \<le> 55")
    case True
    let ?p = "rest @ [0x80] @ replicate (55 - ?len) 0"
    have pad: "rest @ rfc_padding n = ?p @ [b0, b1, b2, b3, 0, 0, 0, 0]"
    proof -
      have "119 - ?len = (55 - ?len) + 64" using True by simp
      then have "(119 - ?len) mod 64 = 55 - ?len" using True by (simp add: mod_add_self2 del: add_diff_assoc2)
      then show ?thesis using len by (simp add: rfc_padding_def le b)
    qed
    have "replicate (63 - ?len) (0::byte) = replicate (55 - ?len) 0 @ replicate 8 0"
      using True by (simp add: replicate_add [symmetric])
    then have buffer: "(rest @ [0x80] @ replicate (63 - ?len) 0)[56 := b0, 57 := b1, 58 := b2, 59 := b3]
        = ?p @ [b0, b1, b2, b3, 0, 0, 0, 0]"
      using store_length [of ?p b0 b1 b2 b3] True by simp
    have "md5_compute md data = rfc_output (md5_buf (md5_update md' (?p @ [b0, b1, b2, b3, 0, 0, 0, 0])))"
      using True bs_def b buffer by (simp add: md5_compute_def ch count bits out Let_def)
    also have "\<dots> = rfc_output (rfc_blocks (md5_buf md') (rest @ rfc_padding n))"
      using True by (simp add: pad compress_rfc rfc_blocks_last)
    finally show ?thesis using r by simp
  next
    case False
    let ?b = "rest @ [0x80] @ replicate (63 - ?len) 0"
    have pad: "rest @ rfc_padding n = ?b @ replicate 56 0 @ [b0, b1, b2, b3, 0, 0, 0, 0]"
    proof -
      have e: "119 - ?len = (63 - ?len) + 56" using len by simp
      have "(119 - ?len) mod 64 = 119 - ?len" using False by simp
      then show ?thesis using len by (simp add: rfc_padding_def le b) (simp only: e replicate_add append.assoc)
    qed
    have buffer: "(replicate 64 (0::byte))[56 := b0, 57 := b1, 58 := b2, 59 := b3]
        = replicate 56 0 @ [b0, b1, b2, b3, 0, 0, 0, 0]"
      using store_length [of "replicate 56 0" b0 b1 b2 b3] by (simp add: replicate_add [symmetric])
    have "md5_compute md data = rfc_output (md5_buf (md5_update (md5_update md' ?b) (replicate 56 0 @ [b0, b1, b2, b3, 0, 0, 0, 0])))"
      using False bs_def b buffer cnt
      by (simp add: md5_compute_def ch count bits out Let_def recount)
    also have "\<dots> = rfc_output (rfc_blocks (md5_buf md') (?b @ replicate 56 0 @ [b0, b1, b2, b3, 0, 0, 0, 0]))"
    proof -
      have "length ?b = 64" using len by simp
      then show ?thesis by (subst rfc_blocks_step) (simp_all add: compress_rfc rfc_blocks_last)
    qed
    also have "\<dots> = rfc_output (rfc_blocks (md5_buf md') (rest @ rfc_padding n))"
      unfolding pad ..
    finally show ?thesis using r by simp
  qed
qed

lemma length_md5_compute: "length (md5_compute md data) = 16"
  by (simp add: md5_compute_def Let_def bytes_of_reg_def split: prod.split)

section \<open>Properties\<close>

text \<open>
  C9: \<open>md5_get\<close> is the MD5 of RFC 1321 and \<open>md5_cram_get\<close> the keyed construction of RFC 2104 with it:
  padding, length field, auxiliary functions, rotations, constants and the schedule of all 64 steps agree with
  those of the RFC, for every message (and key) shorter
  than \<open>2 ^ 28\<close> bytes; the digest has 16 bytes.
\<close>

theorem md5_rfc:
  assumes "length secret < 2 ^ 28" "length data < 2 ^ 28"
  shows "md5_get data = rfc_md5 data \<and> md5_cram_get secret data = rfc_hmac secret data
    \<and> length (md5_get data) = 16 \<and> length (md5_cram_get secret data) = 16"
proof -
  have get: "md5_get m = rfc_md5 m" if "length m < 2 ^ 29" for m
    using md5_compute_rfc [of md5_init 0 "length m" m] that
    by (simp add: md5_get_def rfc_md5_def md5_init_def)
  have keyed: "md5_compute (md5_update md5_init k) m = rfc_md5 (k @ m)" if "length k = 64" "length m < 2 ^ 28" for k m
  proof -
    have "md5_compute (md5_update md5_init k) m
        = rfc_output (rfc_blocks (md5_buf (md5_update md5_init k)) (m @ rfc_padding (64 + length m)))"
      using that by (intro md5_compute_rfc [where c = 1]) (simp_all add: md5_update_def md5_init_def)
    then show ?thesis
      using that rfc_blocks_step [OF that(1)] by (simp add: rfc_md5_def compress_rfc md5_init_def)
  qed
  have short: "length (rfc_md5 m) = 16" if "length m < 2 ^ 29" for m
    using get [OF that] length_md5_compute by (metis md5_get_def)
  have "md5_cram_get secret data = rfc_hmac secret data"
  proof -
    define k where "k = (if 64 < length secret then rfc_md5 secret else secret)"
    have k: "(if 64 < length secret then md5_get secret else secret) = k" "length k \<le> 64"
      using get [of secret] short [of secret] assms by (auto simp: k_def)
    define p where "p = k @ replicate (64 - length k) 0"
    have p: "length p = 64" using k by (simp add: p_def)

    have l: "length (map (\<lambda>b. b XOR 0x36) p) = 64" "length (map (\<lambda>b. b XOR 0x5c) p) = 64" using p by simp_all
    have "md5_cram_get secret data = md5_compute (md5_update md5_init (map (\<lambda>b. b XOR 0x5c) p))
        (md5_compute (md5_update md5_init (map (\<lambda>b. b XOR 0x36) p)) data)"
      unfolding md5_cram_get_def Let_def k(1) p_def by simp
    also have "\<dots> = rfc_md5 (map (\<lambda>b. b XOR 0x5c) p @ rfc_md5 (map (\<lambda>b. b XOR 0x36) p @ data))"
      unfolding keyed [OF l(1) assms(2), symmetric]
      by (rule keyed [OF l(2)]) (simp add: length_md5_compute)
    finally show ?thesis
      unfolding rfc_hmac_def Let_def k_def [symmetric] p_def [symmetric] .
  qed
  moreover have "length (md5_get data) = 16" "length (md5_cram_get secret data) = 16"
    by (simp_all add: md5_get_def md5_cram_get_def Let_def length_md5_compute)
  ultimately show ?thesis using get [of data] assms by simp
qed

theorem md5_rfc_witness:
  "md5_get [0x61] = rfc_md5 [0x61] \<and> md5_cram_get [0x62] [0x61] = rfc_hmac [0x62] [0x61]
    \<and> length (md5_get [0x61]) = 16 \<and> length (md5_cram_get [0x62] [0x61]) = 16"
  by (rule md5_rfc) simp_all

end
