(* ===== verification/CNum.thy ===== *)
theory CNum
  imports UString
begin

text \<open>
  Numbers as text: what \<open>sprintf\<close> writes for \<open>%d\<close>, \<open>%u\<close>, \<open>%x\<close>, \<open>%o\<close> and their zero-padded forms,
  and what \<open>atoi\<close>, \<open>strtol\<close> and \<open>strtoul\<close> read back, shared by every component that exchanges
  numbers with a peer or a file.
\<close>

section \<open>Printing\<close>

text \<open>The digits of a number in a base up to 16, most significant first, without leading zeros.\<close>

function radix :: "nat \<Rightarrow> nat \<Rightarrow> string" where
  "radix b n = (if n < b \<or> b < 2 then [hexdigits ! (n mod 16)]
                else radix b (n div b) @ [hexdigits ! (n mod b)])"
  by pat_completeness auto
termination
  by (relation "measure snd") auto

declare radix.simps [simp del]

abbreviation dec :: "nat \<Rightarrow> string" where "dec \<equiv> radix 10"
abbreviation hex :: "nat \<Rightarrow> string" where "hex \<equiv> radix 16"
abbreviation oct :: "nat \<Rightarrow> string" where "oct \<equiv> radix 8"

text \<open>\<open>%d\<close> of an \<open>int\<close>, and \<open>%0<w>\<close> padding.\<close>

definition dec_int :: "int \<Rightarrow> string" where
  "dec_int v = (if v < 0 then CHR ''-'' # dec (nat (- v)) else dec (nat v))"

definition pad0 :: "nat \<Rightarrow> string \<Rightarrow> string" where
  "pad0 w s = replicate (w - length s) (CHR ''0'') @ s"

section \<open>Reading\<close>

text \<open>The value of a digit in bases up to 16; 16 for any other character.\<close>

definition digit_val :: "char \<Rightarrow> nat" where
  "digit_val c = (if isdigit c then ord c - 48
                  else if 97 \<le> ord c \<and> ord c \<le> 102 then ord c - 87
                  else if 65 \<le> ord c \<and> ord c \<le> 70 then ord c - 55 else 16)"

definition radix_val :: "nat \<Rightarrow> string \<Rightarrow> nat" where
  "radix_val b s = foldl (\<lambda>v c. v * b + digit_val c) 0 s"

text \<open>
  \<open>strtol\<close>: white space, a sign, then the longest run of digits; out of range it saturates at the
  limits of a 64-bit \<open>long\<close>. The result comes with the rest of the string (\<open>endptr\<close>, which is the
  whole string when there is no digit). The prefix \<open>0x\<close> that base 16 allows is not needed here.
  \<open>atoi\<close> converts the \<open>long\<close> to an \<open>int\<close>, that is, modulo \<open>2 ^ 32\<close>, as glibc does.
\<close>

definition long_max :: int where "long_max = 2 ^ 63 - 1"

definition strtol :: "nat \<Rightarrow> string \<Rightarrow> int \<times> string" where
  "strtol b s =
     (let t = dropWhile isspace s;
          neg = (peek t = CHR ''-'');
          t = (if neg \<or> peek t = CHR ''+'' then tl t else t);
          ds = takeWhile (\<lambda>c. digit_val c < b) t;
          v = (if neg then - int (radix_val b ds) else int (radix_val b ds))
      in if ds = [] then (0, s) else (max (- long_max - 1) (min long_max v), drop (length ds) t))"

definition to_int :: "int \<Rightarrow> int" where
  "to_int v = signed_take_bit 31 v"

definition atoi :: "string \<Rightarrow> int" where
  "atoi s = to_int (fst (strtol 10 s))"

definition atol :: "string \<Rightarrow> int" where
  "atol s = fst (strtol 10 s)"

section \<open>Lemmas\<close>

lemma hexdigits_nth: "n < 16 \<Longrightarrow> digit_val (hexdigits ! n) = n \<and> (n < 10 \<longleftrightarrow> isdigit (hexdigits ! n))"
proof -
  have "\<forall>n\<in>set [0..<16]. digit_val (hexdigits ! n) = n \<and> (n < 10 \<longleftrightarrow> isdigit (hexdigits ! n))"
    by code_simp
  then show "n < 16 \<Longrightarrow> digit_val (hexdigits ! n) = n \<and> (n < 10 \<longleftrightarrow> isdigit (hexdigits ! n))" by simp
qed

lemma hexdigits_range: "n < 16 \<Longrightarrow> isdigit (hexdigits ! n) \<or> 97 \<le> ord (hexdigits ! n) \<and> ord (hexdigits ! n) \<le> 102"
proof -
  have "\<forall>n\<in>set [0..<16]. isdigit (hexdigits ! n) \<or> 97 \<le> ord (hexdigits ! n) \<and> ord (hexdigits ! n) \<le> 102"
    by code_simp
  then show "n < 16 \<Longrightarrow> isdigit (hexdigits ! n) \<or> 97 \<le> ord (hexdigits ! n) \<and> ord (hexdigits ! n) \<le> 102" by simp
qed

lemma radix_val_snoc [simp]: "radix_val b (s @ [c]) = radix_val b s * b + digit_val c"
  by (simp add: radix_val_def)

lemma radix_val_Nil [simp]: "radix_val b [] = 0"
  by (simp add: radix_val_def)

lemma radix_val_zeros: "radix_val b (replicate k (CHR ''0'') @ s) = radix_val b s"
proof (induction k)
  case (Suc k)
  then show ?case by (simp add: radix_val_def digit_val_def isdigit_def)
qed simp

lemma radix_induct [consumes 1, case_names digit more]:
  assumes "2 \<le> (b::nat)" "\<And>n. n < b \<Longrightarrow> P n" "\<And>n. b \<le> n \<Longrightarrow> P (n div b) \<Longrightarrow> P n"
  shows "P n"
proof (induction n rule: less_induct)
  case (less n)
  show ?case
  proof (cases "n < b")
    case False
    with assms(1) have "n div b < n" by simp
    with False less assms(3) show ?thesis by simp
  qed (use assms in simp)
qed

lemma radix_rec:
  assumes "2 \<le> b"
  shows "n < b \<Longrightarrow> radix b n = [hexdigits ! (n mod 16)]"
    "b \<le> n \<Longrightarrow> radix b n = radix b (n div b) @ [hexdigits ! (n mod b)]"
  using assms by (subst radix.simps, simp)+

lemma hexdigits_facts:
  assumes "k < b" "b \<le> 16"
  shows "digit_val (hexdigits ! k) < b \<and> (b \<le> 10 \<longrightarrow> isdigit (hexdigits ! k))
    \<and> (isdigit (hexdigits ! k) \<or> 97 \<le> ord (hexdigits ! k) \<and> ord (hexdigits ! k) \<le> 102)"
  using assms hexdigits_nth [of k] hexdigits_range [of k] by (cases "k < 10") simp_all

lemma radix_digits:
  assumes "2 \<le> b" "b \<le> 16" "c \<in> set (radix b n)"
  shows "digit_val c < b \<and> (b \<le> 10 \<longrightarrow> isdigit c) \<and> (isdigit c \<or> 97 \<le> ord c \<and> ord c \<le> 102)"
  using assms(3)
proof (induction n rule: radix_induct [OF assms(1)])
  case (1 n)
  then have "c = hexdigits ! n" using assms by (simp add: radix_rec)
  with 1 assms show ?case using hexdigits_facts [of n b] by simp
next
  case (2 n)
  have "n mod b < b" using assms by simp
  moreover have "c \<in> set (radix b (n div b)) \<or> c = hexdigits ! (n mod b)"
    using 2 assms by (auto simp: radix_rec)
  ultimately show ?case using 2(2) assms hexdigits_facts [of "n mod b" b] by blast
qed

lemma radix_nonempty [simp]: "radix b n \<noteq> []"
  by (subst radix.simps) simp

lemma radix_val_radix [simp]:
  assumes "2 \<le> b" "b \<le> 16"
  shows "radix_val b (radix b n) = n"
proof (induction n rule: radix_induct [OF assms(1)])
  case (1 n)
  then show ?case using assms hexdigits_nth [of n] by (simp add: radix_rec radix_val_def)
next
  case (2 n)
  have "n mod b < b" using assms by simp
  then have "n mod b < 16" using assms by linarith
  then show ?case using 2 assms hexdigits_nth [of "n mod b"] by (simp add: radix_rec)
qed

lemma radix_inject: "2 \<le> b \<Longrightarrow> b \<le> 16 \<Longrightarrow> radix b m = radix b n \<longleftrightarrow> m = n"
  by (metis radix_val_radix)

lemma pad0_inject: "2 \<le> b \<Longrightarrow> b \<le> 16 \<Longrightarrow> pad0 w (radix b m) = pad0 w (radix b n) \<longleftrightarrow> m = n"
  by (metis pad0_def radix_val_zeros radix_val_radix)

lemma radix_length:
  assumes "2 \<le> b" "n < b ^ k" "0 < k"
  shows "length (radix b n) \<le> k"
  using assms(2,3)
proof (induction n arbitrary: k rule: radix_induct [OF assms(1)])
  case (1 n)
  then show ?case using assms by (simp add: radix_rec)
next
  case (2 n)
  then obtain k' where k: "k = Suc k'" by (cases k) auto
  show ?case
  proof (cases k')
    case 0
    with 2 k show ?thesis by simp
  next
    case (Suc k'')
    have "n div b < b ^ k'" using 2(3) k assms by (simp add: less_mult_imp_div_less mult.commute)
    with 2 k Suc assms show ?thesis by (simp add: radix_rec)
  qed
qed

lemma pad0_length: "2 \<le> b \<Longrightarrow> n < b ^ w \<Longrightarrow> 0 < w \<Longrightarrow> length (pad0 w (radix b n)) = w"
  using radix_length [of b n w] by (simp add: pad0_def)

lemma pad0_digits:
  "2 \<le> b \<Longrightarrow> b \<le> 16 \<Longrightarrow> c \<in> set (pad0 w (radix b n)) \<Longrightarrow> digit_val c < b"
  using radix_digits [of b c n] by (auto simp: pad0_def digit_val_def isdigit_def split: if_splits)

lemma takeWhile_run: "\<forall>x\<in>set xs. P x \<Longrightarrow> ys = [] \<or> \<not> P (hd ys) \<Longrightarrow> takeWhile P (xs @ ys) = xs"
  by (cases ys) auto

lemma strtol_digits:
  assumes "\<forall>c\<in>set ds. digit_val c < b \<and> \<not> isspace c \<and> c \<noteq> CHR ''-'' \<and> c \<noteq> CHR ''+''"
    "ds \<noteq> []" "rest = [] \<or> b \<le> digit_val (hd rest)" "radix_val b ds < 2 ^ 63"
  shows "strtol b (ds @ rest) = (int (radix_val b ds), rest)"
proof -
  obtain d ds' where ds: "ds = d # ds'" using assms(2) by (cases ds) auto
  have sp: "dropWhile isspace (ds @ rest) = ds @ rest" using assms(1) ds by simp
  have sg: "peek (ds @ rest) \<noteq> CHR ''-''" "peek (ds @ rest) \<noteq> CHR ''+''"
    using assms(1) ds by (auto simp: peek_def)
  have tw: "takeWhile (\<lambda>c. digit_val c < b) (ds @ rest) = ds"
  proof (rule takeWhile_run)
    show "\<forall>c\<in>set ds. digit_val c < b" using assms(1) by simp
    show "rest = [] \<or> \<not> digit_val (hd rest) < b" using assms(3) by (simp add: not_less)
  qed
  have "int (radix_val b ds) < int (2 ^ 63)" using assms(4) by (simp only: of_nat_less_iff)
  with sp sg tw assms(2) show ?thesis
    by (simp add: strtol_def Let_def long_max_def)
qed

lemma dec_chars: "c \<in> set (dec n) \<Longrightarrow> isdigit c"
  using radix_digits [of 10 c n] by simp

lemma isdigit_vals: "isdigit c \<Longrightarrow> digit_val c < 10 \<and> \<not> isspace c \<and> c \<noteq> CHR ''-'' \<and> c \<noteq> CHR ''+''"
  by (auto simp: isdigit_def digit_val_def isspace_def)

lemma digit_val_nondigit: "\<not> isdigit c \<Longrightarrow> 10 \<le> digit_val c"
  by (auto simp: digit_val_def)

lemma to_int_small: "- (2 ^ 31) \<le> v \<Longrightarrow> v < 2 ^ 31 \<Longrightarrow> to_int v = v"
  by (simp add: to_int_def signed_take_bit_int_eq_self)

lemma atoi_dec:
  assumes "n < 2 ^ 31" "rest = [] \<or> \<not> isdigit (hd rest)"
  shows "atoi (dec n @ rest) = int n"
proof -
  have "strtol 10 (dec n @ rest) = (int (radix_val 10 (dec n)), rest)"
  proof (rule strtol_digits)
    show "\<forall>c\<in>set (dec n). digit_val c < 10 \<and> \<not> isspace c \<and> c \<noteq> CHR ''-'' \<and> c \<noteq> CHR ''+''"
      using dec_chars isdigit_vals by blast
    show "rest = [] \<or> 10 \<le> digit_val (hd rest)" using assms(2) digit_val_nondigit by blast
    show "radix_val 10 (dec n) < 2 ^ 63" using assms(1) by simp
  qed simp
  then have "strtol 10 (dec n @ rest) = (int n, rest)" by simp
  moreover have "to_int (int n) = int n" using assms(1) by (intro to_int_small) auto
  ultimately show ?thesis by (simp add: atoi_def)
qed

lemma dec_hd: "isdigit (hd (dec n))"
  by (meson dec_chars hd_in_set radix_nonempty)

end
