(* ===== verification/Ftn.thy ===== *)
theory Ftn
  imports CNum "HOL-Library.List_Lexorder"
begin

text \<open>
  FTN addresses (\<open>u_ftn.c\<close>): parsing of the traditional form \<open>zone:net/node.point@domain\<close> and of
  the domain form \<open>p.f.n.z.domain\<close>, printing, comparison; and the file names of an address in the
  outbound (\<open>outb_getname.c\<close>).
\<close>

section \<open>The code\<close>

text \<open>\<open>domain\<close> is the string in the array of 41 characters.\<close>

record s_faddr =
  inetform :: bool
  zone :: int
  net :: int
  node :: int
  point :: int
  domain :: string

definition BF_MAXDOMAIN :: nat where "BF_MAXDOMAIN = 40"
definition BF_MAXADDRSTR :: nat where "BF_MAXADDRSTR = 80"
definition ADDRNUM_MIN :: int where "ADDRNUM_MIN = 0"
definition ADDRNUM_MAX :: int where "ADDRNUM_MAX = 0x7fff"

definition addrstr2int :: "string \<Rightarrow> int" where
  "addrstr2int s =
     (let val = atoi s in
      if val < ADDRNUM_MIN then ADDRNUM_MIN
      else if val > ADDRNUM_MAX then ADDRNUM_MAX else val)"

definition addrint2str :: "int \<Rightarrow> string" where
  "addrint2str val =
     (if val = -1 then ''*''
      else if val < ADDRNUM_MIN then ''MIN''
      else if val > ADDRNUM_MAX then ''MAX''
      else dec_int val)"

subsection \<open>The traditional form\<close>

record gots =
  gotzone :: bool
  gotnet :: bool
  gotnode :: bool
  gotpoint :: bool

definition no_gots :: gots where
  "no_gots = \<lparr>gotzone = False, gotnet = False, gotnode = False, gotpoint = False\<rparr>"

text \<open>A field at \<open>s\<close>: a number, or the wildcard where it is allowed.\<close>

definition field_at :: "bool \<Rightarrow> string \<Rightarrow> int option" where
  "field_at wildcard s =
     (if isdigit (peek s) then Some (addrstr2int s)
      else if wildcard \<and> peek s = CHR ''*'' then Some (-1) else None)"

text \<open>The branch for \<open>@\<close> and the end of the string; the result is \<open>badaddr\<close> and the address.\<close>

definition fido_last :: "bool \<Rightarrow> string \<Rightarrow> gots \<Rightarrow> s_faddr \<Rightarrow> bool \<times> s_faddr" where
  "fido_last wildcard s g addr =
     (if gotzone g \<and> \<not> gotnet g then (True, addr)
      else if peek s = CHR ''/'' then
        (case (gotnode g, field_at wildcard (tl s)) of
           (False, Some v) \<Rightarrow> (False, addr\<lparr>node := v\<rparr>)
         | _ \<Rightarrow> (True, addr))
      else if peek s = CHR ''.'' then
        (case (gotpoint g, field_at wildcard (tl s)) of
           (False, Some v) \<Rightarrow> (False, addr\<lparr>point := v\<rparr>)
         | _ \<Rightarrow> (True, addr))
      else
        (case field_at wildcard s of
           None \<Rightarrow> (True, addr)
         | Some v \<Rightarrow>
             if \<not> gotnode g then (False, addr\<lparr>node := v\<rparr>)
             else if \<not> gotpoint g then (False, addr\<lparr>point := v\<rparr>)
             else (True, addr)))"

text \<open>
  The loop over \<open>p\<close>, with \<open>s\<close> the start of the current field; it returns \<open>badaddr\<close>, the address
  and where \<open>p\<close> stopped.
\<close>

fun fido_loop :: "bool \<Rightarrow> string \<Rightarrow> string \<Rightarrow> gots \<Rightarrow> s_faddr \<Rightarrow> bool \<times> s_faddr \<times> string" where
  "fido_loop wildcard [] s g addr = (let (bad, addr) = fido_last wildcard s g addr in (bad, addr, []))"
| "fido_loop wildcard (c # p) s g addr =
     (if c = CHR '':'' then
        (case (gotzone g, field_at wildcard s) of
           (False, Some v) \<Rightarrow> fido_loop wildcard p p (g\<lparr>gotzone := True\<rparr>) (addr\<lparr>zone := v\<rparr>)
         | _ \<Rightarrow> (True, addr, c # p))
      else if c = CHR ''/'' then
        (case (gotnet g, field_at wildcard s) of
           (False, Some v) \<Rightarrow> fido_loop wildcard p p (g\<lparr>gotnet := True\<rparr>) (addr\<lparr>net := v\<rparr>)
         | _ \<Rightarrow> if peek s \<noteq> CHR ''/'' then (True, addr, c # p) else fido_loop wildcard p s g addr)
      else if c = CHR ''.'' then
        (let s = (if peek s = CHR ''/'' then tl s else s) in
         case (gotnode g, field_at wildcard s) of
           (False, Some v) \<Rightarrow> fido_loop wildcard p p (g\<lparr>gotnode := True\<rparr>) (addr\<lparr>node := v\<rparr>)
         | _ \<Rightarrow> if peek s \<noteq> CHR ''.'' then (True, addr, c # p) else fido_loop wildcard p s g addr)
      else if c = CHR ''@'' then
        (let (bad, addr) = fido_last wildcard s g addr in (bad, addr, c # p))
      else if isdigit c \<or> (wildcard \<and> c = CHR ''*'') then fido_loop wildcard p s g addr
      else (True, addr, c # p))"

definition ftn_addrparse_fido :: "s_faddr \<Rightarrow> string \<Rightarrow> bool \<Rightarrow> bool \<times> s_faddr" where
  "ftn_addrparse_fido addr s wildcard =
     (let (bad, addr, p) = fido_loop wildcard s s no_gots addr in
      (bad,
       if \<not> bad \<and> peek p = CHR ''@'' \<and> tl p \<noteq> []
       then addr\<lparr>domain := strncopy (BF_MAXDOMAIN + 1) (printable_text (tl p))\<rparr> else addr))"

subsection \<open>The domain form\<close>

text \<open>
  One component, from \<open>s\<close> to \<open>p\<close>, where \<open>p\<close> is the dot or the end. \<open>Inl\<close> is the end of the
  loop with \<open>badaddr\<close>; \<open>Inr\<close> goes on behind the dot.
\<close>

definition inet_component ::
    "string \<Rightarrow> string \<Rightarrow> gots \<Rightarrow> s_faddr \<Rightarrow> (bool \<times> s_faddr) + (gots \<times> s_faddr)" where
  "inet_component s p g addr =
     (let k = peek s; v = addrstr2int (tl s); num = (s \<noteq> [] \<and> isdigit (peek (tl s))) in
      if k = CHR ''p'' \<or> k = CHR ''P'' then
        (if \<not> gotpoint g \<and> num then Inr (g\<lparr>gotpoint := True\<rparr>, addr\<lparr>point := v\<rparr>) else Inl (True, addr))
      else if k = CHR ''f'' \<or> k = CHR ''F'' then
        (if \<not> gotnet g \<and> \<not> gotzone g \<and> \<not> gotnode g \<and> num
         then Inr (g\<lparr>gotnode := True\<rparr>, addr\<lparr>node := v\<rparr>) else Inl (True, addr))
      else if k = CHR ''n'' \<or> k = CHR ''N'' then
        (if gotnode g \<and> \<not> gotzone g \<and> \<not> gotnet g \<and> num
         then Inr (g\<lparr>gotnet := True\<rparr>, addr\<lparr>net := v\<rparr>) else Inl (True, addr))
      else if k = CHR ''z'' \<or> k = CHR ''Z'' then
        (if gotnode g \<and> gotnet g \<and> \<not> gotzone g \<and> num
         then Inl (False, let addr = addr\<lparr>zone := v\<rparr> in
                          if peek p = CHR ''.'' \<and> tl p \<noteq> []
                          then addr\<lparr>domain := strncopy (BF_MAXDOMAIN + 1) (printable_text (tl p))\<rparr>
                          else addr)
         else Inl (True, addr))
      else Inl (True, addr))"

fun inet_loop :: "string \<Rightarrow> string \<Rightarrow> gots \<Rightarrow> s_faddr \<Rightarrow> bool \<times> s_faddr" where
  "inet_loop [] s g addr =
     (case inet_component s [] g addr of Inl r \<Rightarrow> r | Inr (g, addr) \<Rightarrow> (False, addr))"
| "inet_loop (c # p) s g addr =
     (if c = CHR ''.'' then
        (case inet_component s (c # p) g addr of Inl r \<Rightarrow> r | Inr (g, addr) \<Rightarrow> inet_loop p p g addr)
      else inet_loop p s g addr)"

definition ftn_addrparse_inet :: "s_faddr \<Rightarrow> string \<Rightarrow> bool \<Rightarrow> bool \<times> s_faddr" where
  "ftn_addrparse_inet addr s wildcard = inet_loop s s no_gots addr"

subsection \<open>Parsing and printing\<close>

text \<open>Which form? The result is \<open>badaddr\<close> and \<open>inetform\<close>.\<close>

fun detect_form :: "string \<Rightarrow> bool \<Rightarrow> bool \<Rightarrow> bool \<times> bool" where
  "detect_form [] wildcard inet = (False, inet)"
| "detect_form (c # p) wildcard inet =
     (if c = CHR ''*'' then (\<not> wildcard, False)
      else if c = CHR ''@'' then (False, False)
      else if c \<in> {CHR '':'', CHR ''/'', CHR ''.''} then detect_form p wildcard False
      else if c \<in> {CHR ''p'', CHR ''P'', CHR ''f'', CHR ''F''} then (False, True)
      else if \<not> isdigit c then (True, inet)
      else detect_form p wildcard inet)"

definition zero_faddr :: s_faddr where
  "zero_faddr = \<lparr>inetform = False, zone = 0, net = 0, node = 0, point = 0, domain = ''''\<rparr>"

definition ftn_addrparse :: "string \<Rightarrow> bool \<Rightarrow> bool \<times> s_faddr" where
  "ftn_addrparse s wildcard =
     (let (bad, inet) = detect_form s wildcard False; addr = zero_faddr\<lparr>inetform := inet\<rparr> in
      if bad then (True, addr)
      else
        let addr = addr\<lparr>zone := 2, net := 5020, node := 0, point := 0\<rparr> in
        if inet then ftn_addrparse_inet addr s wildcard else ftn_addrparse_fido addr s wildcard)"

text \<open>\<open>sprintf\<close> into an array; \<open>None\<close> when the text and its NUL do not fit.\<close>

definition sprintf :: "char list \<Rightarrow> string \<Rightarrow> char list option" where
  "sprintf buf s = (if length s < length buf then Some (s @ NUL # drop (length s + 1) buf) else None)"

definition append_domain :: "string \<Rightarrow> s_faddr \<Rightarrow> char list \<Rightarrow> char list option" where
  "append_domain sep addr buf =
     (if domain addr \<noteq> []
      then Option.bind (strnxcat buf sep BF_MAXADDRSTR) (\<lambda>buf. strnxcat buf (domain addr) BF_MAXADDRSTR)
      else Some buf)"

definition ftn_addrstr_fido :: "char list \<Rightarrow> s_faddr \<Rightarrow> char list option" where
  "ftn_addrstr_fido buf addr =
     Option.bind
       (sprintf buf
          (if point addr \<noteq> 0
           then addrint2str (zone addr) @ '':'' @ addrint2str (net addr) @ ''/'' @
                addrint2str (node addr) @ ''.'' @ addrint2str (point addr)
           else addrint2str (zone addr) @ '':'' @ addrint2str (net addr) @ ''/'' @
                addrint2str (node addr)))
       (append_domain ''@'' addr)"

definition ftn_addrstr_inet :: "char list \<Rightarrow> s_faddr \<Rightarrow> char list option" where
  "ftn_addrstr_inet buf addr =
     Option.bind
       (sprintf buf
          (if point addr \<noteq> 0
           then ''p'' @ addrint2str (point addr) @ ''.f'' @ addrint2str (node addr) @ ''.n'' @
                addrint2str (net addr) @ ''.z'' @ addrint2str (zone addr)
           else ''f'' @ addrint2str (node addr) @ ''.n'' @ addrint2str (net addr) @ ''.z'' @
                addrint2str (zone addr)))
       (append_domain ''.'' addr)"

definition ftn_addrstr :: "char list \<Rightarrow> s_faddr \<Rightarrow> char list option" where
  "ftn_addrstr buf addr =
     (if inetform addr then ftn_addrstr_inet buf addr else ftn_addrstr_fido buf addr)"

subsection \<open>Comparison\<close>

text \<open>0 is true, as in the code.\<close>

definition ftn_addrcomp :: "s_faddr \<Rightarrow> s_faddr \<Rightarrow> int" where
  "ftn_addrcomp a b =
     (if zone a = zone b \<and> net a = net b \<and> node a = node b \<and> point a = point b then 0 else 1)"

datatype addr_op = ADDR_EQ | ADDR_GT | ADDR_LT

definition matr :: "s_faddr \<Rightarrow> int list" where
  "matr a = [zone a, net a, node a, point a]"

fun addrcomp_loop :: "addr_op \<Rightarrow> (int \<times> int) list \<Rightarrow> int" where
  "addrcomp_loop oper [] = 0"
| "addrcomp_loop oper ((x, y) # r) =
     (case oper of
        ADDR_EQ \<Rightarrow> if x \<noteq> y then 1 else addrcomp_loop oper r
      | ADDR_GT \<Rightarrow> if x > y then 0 else if x < y then 1 else addrcomp_loop oper r
      | ADDR_LT \<Rightarrow> if x < y then 0 else if x > y then 1 else addrcomp_loop oper r)"

definition ftn_addrcomp_logic :: "s_faddr \<Rightarrow> addr_op \<Rightarrow> s_faddr \<Rightarrow> int" where
  "ftn_addrcomp_logic a oper b = addrcomp_loop oper (zip (matr a) (matr b))"

definition ftn_addrcomp_mask :: "s_faddr \<Rightarrow> s_faddr \<Rightarrow> int" where
  "ftn_addrcomp_mask a m =
     (if (zone a = zone m \<or> zone m = -1) \<and> (net a = net m \<or> net m = -1)
         \<and> (node a = node m \<or> node m = -1) \<and> (point a = point m \<or> point m = -1) then 0 else 1)"

definition ftn_addrsmetric :: "s_faddr \<Rightarrow> s_faddr \<Rightarrow> int" where
  "ftn_addrsmetric a b =
     (if zone a = zone b then
        if net a = net b then
          if node a = node b then
            if point a = point b then 4 else 3
          else 2
        else 1
      else 0)"

subsection \<open>Names in the outbound\<close>

text \<open>
  \<open>out_get_root\<close> on a non-empty path: a trailing separator is dropped, and the rest split behind
  the last one. \<open>None\<close> is the result \<open>-1\<close>.
\<close>

definition out_get_root :: "string \<Rightarrow> (string \<times> string) option" where
  "out_get_root path =
     (let outb = (if last path = CHR ''/'' then butlast path else path);
          main = rev (takeWhile (\<lambda>c. c \<noteq> CHR ''/'') (rev outb))
      in if CHR ''/'' \<notin> set outb then None
         else Some (take (length outb - length main - 1) outb @ ''/'', main))"

text \<open>\<open>%0<w>x\<close> of an \<open>int\<close>.\<close>

definition hex_int :: "nat \<Rightarrow> int \<Rightarrow> string" where
  "hex_int w v = pad0 w (hex (nat (v mod 2 ^ 32)))"

definition bso_name :: "s_faddr \<Rightarrow> string" where
  "bso_name addr =
     (if point addr = 0 then hex_int 4 (net addr) @ hex_int 4 (node addr)
      else hex_int 4 (net addr) @ hex_int 4 (node addr) @ ''.pnt/'' @ hex_int 8 (point addr))"

definition out_getname_4d :: "string option \<Rightarrow> s_faddr option \<Rightarrow> s_faddr \<Rightarrow> string option" where
  "out_getname_4d p_outbound cf_address addr =
     (case (p_outbound, cf_address) of
        (Some p, Some mainaddr) \<Rightarrow>
          if p = [] then None
          else
            (case out_get_root p of
               None \<Rightarrow> None
             | Some (out_root, out_main) \<Rightarrow>
                 if out_root = [] \<or> out_main = [] then None
                 else if zone addr = zone mainaddr then Some (string_concat p [bso_name addr])
                 else Some (string_concat out_root
                        [out_main, ''.'' @ hex_int 3 (zone addr) @ ''/'' @ bso_name addr]))
      | _ \<Rightarrow> None)"

definition out_getname_domain :: "(int \<times> string) list \<Rightarrow> s_faddr \<Rightarrow> string option" where
  "out_getname_domain cf_domain addr =
     map_option (\<lambda>(z, path). string_concat path [bso_name addr])
       (find (\<lambda>(z, path). z = zone addr) cf_domain)"

definition out_getname_amiga :: "string option \<Rightarrow> s_faddr \<Rightarrow> string option" where
  "out_getname_amiga p_amigaoutbound addr =
     (case p_amigaoutbound of
        None \<Rightarrow> None
      | Some p \<Rightarrow>
          if p = [] then None
          else Some (string_concat p
            [dec_int (zone addr) @ ''.'' @ dec_int (net addr) @ ''.'' @ dec_int (node addr)
             @ ''.'' @ dec_int (point addr)]))"

section \<open>Numbers in addresses\<close>

definition num_ok :: "int \<Rightarrow> bool" where
  "num_ok v \<longleftrightarrow> 0 \<le> v \<and> v \<le> ADDRNUM_MAX"

definition addr_ok :: "s_faddr \<Rightarrow> bool" where
  "addr_ok a \<longleftrightarrow> num_ok (zone a) \<and> num_ok (net a) \<and> num_ok (node a) \<and> num_ok (point a)
     \<and> length (domain a) \<le> BF_MAXDOMAIN \<and> (\<forall>c\<in>set (domain a). isprint c)"

text \<open>What any parse leaves in the address: fields in range, or the wildcard where it is allowed.\<close>

definition field_ok :: "bool \<Rightarrow> int \<Rightarrow> bool" where
  "field_ok w v \<longleftrightarrow> num_ok v \<or> w \<and> v = -1"

definition parsed_ok :: "bool \<Rightarrow> s_faddr \<Rightarrow> bool" where
  "parsed_ok w a \<longleftrightarrow> field_ok w (zone a) \<and> field_ok w (net a) \<and> field_ok w (node a)
     \<and> field_ok w (point a) \<and> length (domain a) \<le> BF_MAXDOMAIN \<and> (\<forall>c\<in>set (domain a). isprint c)"

lemma num_ok_addrstr2int [simp]: "num_ok (addrstr2int s)"
  by (simp add: num_ok_def addrstr2int_def ADDRNUM_MIN_def ADDRNUM_MAX_def Let_def)

lemma field_ok_addrstr2int [simp]: "field_ok w (addrstr2int s)"
  by (simp add: field_ok_def)

lemma field_at_ok: "field_at w s = Some v \<Longrightarrow> field_ok w v"
  by (auto simp: field_at_def field_ok_def split: if_splits)

lemma addrint2str_num: "num_ok v \<Longrightarrow> addrint2str v = dec (nat v)"
  by (simp add: num_ok_def addrint2str_def dec_int_def ADDRNUM_MIN_def ADDRNUM_MAX_def)

lemma addrstr2int_dec:
  "num_ok v \<Longrightarrow> r = [] \<or> \<not> isdigit (hd r) \<Longrightarrow> addrstr2int (dec (nat v) @ r) = v"
proof -
  assume "num_ok v" and r: "r = [] \<or> \<not> isdigit (hd r)"
  then have v: "0 \<le> v" "v \<le> 32767" by (simp_all add: num_ok_def ADDRNUM_MAX_def)
  then have "nat v < 2 ^ 31" by (simp add: nat_less_iff)
  from atoi_dec [OF this r] v show "addrstr2int (dec (nat v) @ r) = v"
    by (simp add: addrstr2int_def ADDRNUM_MIN_def ADDRNUM_MAX_def)
qed

lemma peek_dec [simp]: "isdigit (peek (dec n @ r))"
  using dec_hd [of n] by (cases "dec n") (auto simp: peek_def)

lemma field_at_dec: "num_ok v \<Longrightarrow> r = [] \<or> \<not> isdigit (hd r) \<Longrightarrow> field_at w (dec (nat v) @ r) = Some v"
  by (simp add: field_at_def addrstr2int_dec)

lemma length_addrint2str: "length (addrint2str v) \<le> 5"
proof (cases "num_ok v")
  case True
  then have "nat v < 10 ^ 5" by (simp add: num_ok_def ADDRNUM_MAX_def nat_less_iff)
  with True show ?thesis using radix_length [of 10 "nat v" 5] by (simp add: addrint2str_num)
next
  case False
  then show ?thesis by (auto simp: num_ok_def addrint2str_def ADDRNUM_MIN_def)
qed

lemma isprint_hex: "\<forall>c\<in>set (hex_escape d). isprint c"
  using isprint_hex_escape by blast

lemma isprint_printable_text: "\<forall>c\<in>set (printable_text s). isprint c"
  using isprint_hex by (auto simp: printable_text_def split: if_splits)

lemma nul_free_printable: "\<forall>c\<in>set s. isprint c \<Longrightarrow> nul_free s"
  by (auto simp: nul_free_def isprint_def)

lemma copied_domain: "length (strncopy (BF_MAXDOMAIN + 1) (printable_text s)) \<le> BF_MAXDOMAIN
    \<and> (\<forall>c\<in>set (strncopy (BF_MAXDOMAIN + 1) (printable_text s)). isprint c)"
  using isprint_printable_text [of s] nul_free_printable [of "printable_text s"]
  by (auto simp: strncopy_eq dest: in_set_takeD)

section \<open>The parser keeps the fields in range\<close>

lemma fido_last_ok: "parsed_ok w a \<Longrightarrow> parsed_ok w (snd (fido_last w s g a))"
  by (auto simp: fido_last_def parsed_ok_def split: option.split bool.split dest: field_at_ok)

lemma parsed_ok_upd [simp]:
  "field_at w s = Some v \<Longrightarrow> parsed_ok w a \<Longrightarrow> parsed_ok w (a\<lparr>zone := v\<rparr>)"
  "field_at w s = Some v \<Longrightarrow> parsed_ok w a \<Longrightarrow> parsed_ok w (a\<lparr>net := v\<rparr>)"
  "field_at w s = Some v \<Longrightarrow> parsed_ok w a \<Longrightarrow> parsed_ok w (a\<lparr>node := v\<rparr>)"
  "field_at w s = Some v \<Longrightarrow> parsed_ok w a \<Longrightarrow> parsed_ok w (a\<lparr>point := v\<rparr>)"
  using field_at_ok [of w s v] by (simp_all add: parsed_ok_def)

lemma fido_loop_ok: "parsed_ok w a \<Longrightarrow> parsed_ok w (fst (snd (fido_loop w p s g a)))"
proof (induction w p s g a rule: fido_loop.induct)
  case (1 w s g a)
  then show ?case using fido_last_ok [of w a s g] by (auto split: prod.split)
next
  case (2 w c p s g a)
  consider "c = CHR '':''" | "c = CHR ''/''" | "c = CHR ''.''" | "c = CHR ''@''"
    | "c \<notin> {CHR '':'', CHR ''/'', CHR ''.'', CHR ''@''}" by blast
  then show ?case
  proof cases
    case 1
    with "2.IH"(1) "2.prems" show ?thesis
      by (auto split: option.split bool.split)
  next
    case 2
    with "2.IH" "2.prems" show ?thesis
      by (auto split: option.split bool.split)
  next
    case 3
    with "2.IH" "2.prems" show ?thesis
      by (auto split: option.split bool.split simp: Let_def)
  next
    case 4
    then show ?thesis using fido_last_ok [OF "2.prems", of s g] by (auto split: prod.split)
  next
    case 5
    with "2.IH" "2.prems" show ?thesis by simp
  qed
qed

lemma inet_component_ok:
  assumes "parsed_ok w a"
  shows "(case inet_component s p g a of Inl r \<Rightarrow> parsed_ok w (snd r) | Inr r \<Rightarrow> parsed_ok w (snd r))"
  using assms copied_domain [of "tl p"] by (auto simp: inet_component_def parsed_ok_def Let_def)

lemma inet_loop_ok: "parsed_ok w a \<Longrightarrow> parsed_ok w (snd (inet_loop p s g a))"
proof (induction p s g a rule: inet_loop.induct)
  case (1 s g a)
  then show ?case using inet_component_ok [of w a s "[]" g] by (auto split: sum.splits prod.splits)
next
  case (2 c p s g a)
  show ?case
    using 2 inet_component_ok [of w a s "c # p" g] by (auto split: sum.splits prod.splits)
qed

lemma parsed_ok_domain: "parsed_ok w a \<Longrightarrow>
    parsed_ok w (a\<lparr>domain := strncopy (BF_MAXDOMAIN + 1) (printable_text s)\<rparr>)"
  using copied_domain [of s] by (simp add: parsed_ok_def)

lemma addrparse_fido_ok: "parsed_ok w a \<Longrightarrow> parsed_ok w (snd (ftn_addrparse_fido a s w))"
  using fido_loop_ok [of w a s s no_gots]
  by (cases "fido_loop w s s no_gots a") (auto simp: ftn_addrparse_fido_def intro: parsed_ok_domain [simplified])

lemma ftn_addrparse_ok: "parsed_ok w (snd (ftn_addrparse s w))"
proof -
  obtain bad i where d: "detect_form s w False = (bad, i)" by force
  have start: "parsed_ok w (zero_faddr\<lparr>inetform := i, zone := 2, net := 5020, node := 0, point := 0\<rparr>)"
    "parsed_ok w (zero_faddr\<lparr>inetform := i\<rparr>)"
    by (simp_all add: zero_faddr_def parsed_ok_def field_ok_def num_ok_def ADDRNUM_MAX_def)
  with addrparse_fido_ok [OF start(1), of s] inet_loop_ok [OF start(1), of s s no_gots] show ?thesis
    by (cases i) (simp_all add: ftn_addrparse_def d ftn_addrparse_inet_def Let_def)
qed

section \<open>Printing stays in the buffer\<close>

lemma sprintf_cstr: "sprintf b s = Some b' \<Longrightarrow> nul_free s \<Longrightarrow> cstr b' = s \<and> length b' = length b"
  by (auto simp: sprintf_def split: if_splits)

lemma nul_free_addrint2str [simp]: "nul_free (addrint2str v)"
proof (cases "num_ok v")
  case True
  then show ?thesis using dec_chars [of NUL "nat v"] by (auto simp: addrint2str_num nul_free_def)
next
  case False
  then show ?thesis by (auto simp: num_ok_def addrint2str_def ADDRNUM_MIN_def)
qed

lemma strnx_append:
  assumes "nul_free src" "length (cstr b) < len" "len \<le> length b"
  shows "\<exists>b'. strnxcat b src len = Some b' \<and> length b' = length b \<and> cstr b' = take (len - 1) (cstr b @ src)"
proof -
  have "strnxcpy (drop (length (cstr b)) b) src (len - length (cstr b)) \<noteq> None"
    unfolding strnxcpy_defined using assms by simp
  with assms obtain b' where "strnxcat b src len = Some b'" by (auto simp: strnxcat_def Let_def)
  with strnxcat_cstr [OF assms(1) this] show ?thesis by blast
qed

lemma append_domain_ok:
  assumes "BF_MAXADDRSTR \<le> length b" "length (cstr b) < BF_MAXADDRSTR" "nul_free (domain a)" "nul_free sep"
  shows "\<exists>b'. append_domain sep a b = Some b' \<and> length b' = length b
    \<and> cstr b' = (if domain a = [] then cstr b else take (BF_MAXADDRSTR - 1) (cstr b @ sep @ domain a))"
proof (cases "domain a = []")
  case False
  from strnx_append [OF assms(4,2,1)]
  obtain b1 where b1: "strnxcat b sep BF_MAXADDRSTR = Some b1" "length b1 = length b"
      "cstr b1 = take (BF_MAXADDRSTR - 1) (cstr b @ sep)" by blast
  then have "length (cstr b1) < BF_MAXADDRSTR" by (simp add: BF_MAXADDRSTR_def)
  from strnx_append [OF assms(3) this] b1 assms(1)
  obtain b2 where b2: "strnxcat b1 (domain a) BF_MAXADDRSTR = Some b2" "length b2 = length b"
      "cstr b2 = take (BF_MAXADDRSTR - 1) (cstr b1 @ domain a)" by auto
  have "cstr b2 = take (BF_MAXADDRSTR - 1) (cstr b @ sep @ domain a)"
    unfolding b2(3) b1(3)
    using assms(2) by (cases "length (cstr b @ sep) \<le> BF_MAXADDRSTR - 1") (simp_all add: BF_MAXADDRSTR_def min_def)
  with False b1 b2 show ?thesis by (simp add: append_domain_def)
qed (simp add: append_domain_def)

definition fido_text :: "s_faddr \<Rightarrow> string" where
  "fido_text a = addrint2str (zone a) @ '':'' @ addrint2str (net a) @ ''/'' @ addrint2str (node a)
     @ (if point a \<noteq> 0 then ''.'' @ addrint2str (point a) else [])"

definition inet_text :: "s_faddr \<Rightarrow> string" where
  "inet_text a = (if point a \<noteq> 0 then ''p'' @ addrint2str (point a) @ ''.'' else []) @ ''f'' @ addrint2str (node a)
     @ ''.n'' @ addrint2str (net a) @ ''.z'' @ addrint2str (zone a)"

lemma text_length: "length (fido_text a) \<le> 23" "length (inet_text a) \<le> 27"
  using length_addrint2str [of "zone a"] length_addrint2str [of "net a"]
    length_addrint2str [of "node a"] length_addrint2str [of "point a"]
  by (simp_all add: fido_text_def inet_text_def)

lemma nul_free_text [simp]: "nul_free (fido_text a)" "nul_free (inet_text a)"
  by (simp_all add: fido_text_def inet_text_def)

lemma addrstr_alt:
  "ftn_addrstr_fido b a = Option.bind (sprintf b (fido_text a)) (append_domain ''@'' a)"
  "ftn_addrstr_inet b a = Option.bind (sprintf b (inet_text a)) (append_domain ''.'' a)"
  by (simp_all add: ftn_addrstr_fido_def ftn_addrstr_inet_def fido_text_def inet_text_def)

text \<open>The text a print leaves: the numbers, and as much of the domain as fits.\<close>

definition addr_text :: "s_faddr \<Rightarrow> string" where
  "addr_text a =
     (let t = (if inetform a then inet_text a else fido_text a);
          sep = (if inetform a then ''.'' else ''@'')
      in if domain a = [] then t else take (BF_MAXADDRSTR - 1) (t @ sep @ domain a))"

lemma ftn_addrstr_text:
  assumes "BF_MAXADDRSTR \<le> length b" "nul_free (domain a)"
  shows "\<exists>b'. ftn_addrstr b a = Some b' \<and> length b' = length b \<and> cstr b' = addr_text a"
proof -
  have main: "\<exists>b'. Option.bind (sprintf b t) (append_domain sep a) = Some b' \<and> length b' = length b
      \<and> cstr b' = (if domain a = [] then t else take (BF_MAXADDRSTR - 1) (t @ sep @ domain a))"
    if "length t \<le> 27" "nul_free t" "nul_free sep" for t sep
  proof -
    have "sprintf b t \<noteq> None" using that(1) assms(1) by (simp add: sprintf_def BF_MAXADDRSTR_def)
    then obtain b0 where b0: "sprintf b t = Some b0" by blast
    with sprintf_cstr [OF b0 that(2)] append_domain_ok [of b0 a sep] that assms
    show ?thesis by (auto simp: BF_MAXADDRSTR_def)
  qed
  show ?thesis
    using main [of "fido_text a" "''@''"] main [of "inet_text a" "''.''"] text_length [of a]
    by (auto simp add: ftn_addrstr_def addrstr_alt addr_text_def Let_def simp del: take_append)
qed

section \<open>Printing and parsing are inverse\<close>

lemma digit_neq: "isdigit c \<Longrightarrow> c \<noteq> CHR '':'' \<and> c \<noteq> CHR ''/'' \<and> c \<noteq> CHR ''.'' \<and> c \<noteq> CHR ''@'' \<and> c \<noteq> CHR ''*''
    \<and> c \<noteq> CHR ''p'' \<and> c \<noteq> CHR ''P'' \<and> c \<noteq> CHR ''f'' \<and> c \<noteq> CHR ''F''"
  by (auto simp: isdigit_def)

lemma fido_digits:
  "\<forall>c\<in>set ds. isdigit c \<Longrightarrow> fido_loop w (ds @ r) s g a = fido_loop w r s g a"
  by (induction ds) (simp_all add: digit_neq)

lemma inet_digits:
  "\<forall>c\<in>set ds. isdigit c \<Longrightarrow> inet_loop (ds @ r) s g a = inet_loop r s g a"
  by (induction ds) (simp_all add: digit_neq)

lemma detect_digits:
  "\<forall>c\<in>set ds. isdigit c \<Longrightarrow> detect_form (ds @ r) w i = detect_form r w i"
  by (induction ds) (simp_all add: digit_neq)

lemmas over_digits = fido_digits [OF ballI [OF dec_chars]] inet_digits [OF ballI [OF dec_chars]]
  detect_digits [OF ballI [OF dec_chars]]
lemmas only_digits = over_digits [where r = "[]", simplified]

lemma peek_dec_neq [simp]:
  "peek (dec n @ r) \<noteq> CHR ''/''" "peek (dec n @ r) \<noteq> CHR ''.''" "peek (dec n) \<noteq> CHR ''/''" "peek (dec n) \<noteq> CHR ''.''"
  using peek_dec [of n r] peek_dec [of n "[]"] by (auto simp: isdigit_def simp del: peek_dec)

lemma domain_copy: "\<forall>c\<in>set d. isprint c \<Longrightarrow> length d \<le> BF_MAXDOMAIN \<Longrightarrow>
    strncopy (Suc BF_MAXDOMAIN) (printable_text d) = d"
  by (simp add: printable_text_id strncopy_eq nul_free_printable)

lemma addr_text_whole:
  "addr_ok a \<Longrightarrow> addr_text a = (if inetform a then inet_text a else fido_text a)
     @ (if domain a = [] then [] else (if inetform a then CHR ''.'' else CHR ''@'') # domain a)"
  using text_length [of a] by (auto simp: addr_text_def addr_ok_def Let_def BF_MAXDOMAIN_def BF_MAXADDRSTR_def)

lemma not_digit [simp]: "\<not> isdigit (CHR '':'')" "\<not> isdigit (CHR ''/'')" "\<not> isdigit (CHR ''.'')"
  "\<not> isdigit (CHR ''@'')" "\<not> isdigit (CHR ''p'')" "\<not> isdigit (CHR ''f'')" "\<not> isdigit (CHR ''n'')" "\<not> isdigit (CHR ''z'')"
  by (simp_all add: isdigit_def)

lemma parse_fido_text:
  assumes "addr_ok a" "\<not> inetform a"
  shows "ftn_addrparse (addr_text a) w = (False, a)"
proof -
  obtain z n f p d where a: "a = \<lparr>inetform = False, zone = z, net = n, node = f, point = p, domain = d\<rparr>"
    using assms(2) by (cases a) auto
  have ok: "num_ok z" "num_ok n" "num_ok f" "num_ok p" "length d \<le> BF_MAXDOMAIN" "\<forall>c\<in>set d. isprint c"
    using assms(1) a by (auto simp: addr_ok_def)
  let ?tail = "if d = [] then [] else CHR ''@'' # d"
  let ?rest = "if p \<noteq> 0 then CHR ''.'' # dec (nat p) @ ?tail else ?tail"
  have str: "addr_text a = dec (nat z) @ CHR '':'' # dec (nat n) @ CHR ''/'' # dec (nat f) @ ?rest"
    using assms ok a by (simp add: addr_text_whole fido_text_def addrint2str_num)
  have form: "detect_form (addr_text a) w False = (False, False)"
    by (simp add: str over_digits)
  have f1: "field_at w (dec (nat v) @ c # r) = Some v" if "num_ok v" "\<not> isdigit c" for v c r
    using that by (intro field_at_dec) auto
  have f2: "field_at w (dec (nat v)) = Some v" if "num_ok v" for v
    using field_at_dec [OF that, of "[]"] by simp
  have loop: "fido_loop w (addr_text a) (addr_text a) no_gots
      (zero_faddr\<lparr>inetform := False, zone := 2, net := 5020, node := 0, point := 0\<rparr>)
      = (False, a\<lparr>domain := []\<rparr>, ?tail)"
    unfolding str using ok by (cases "p = 0"; cases "d = []")
      (simp_all add: over_digits only_digits f1 f2 fido_last_def no_gots_def zero_faddr_def a)
  show ?thesis
    using ok by (simp add: ftn_addrparse_def form ftn_addrparse_fido_def loop domain_copy) (simp add: a)
qed

lemma parse_inet_text:
  assumes "addr_ok a" "inetform a"
  shows "ftn_addrparse (addr_text a) w = (False, a)"
proof -
  obtain z n f p d where a: "a = \<lparr>inetform = True, zone = z, net = n, node = f, point = p, domain = d\<rparr>"
    using assms(2) by (cases a) auto
  have ok: "num_ok z" "num_ok n" "num_ok f" "num_ok p" "length d \<le> BF_MAXDOMAIN" "\<forall>c\<in>set d. isprint c"
    using assms(1) a by (auto simp: addr_ok_def)
  let ?tail = "if d = [] then [] else CHR ''.'' # d"
  let ?body = "CHR ''f'' # dec (nat f) @ CHR ''.'' # CHR ''n'' # dec (nat n) @ CHR ''.'' # CHR ''z'' # dec (nat z) @ ?tail"
  have str: "addr_text a = (if p \<noteq> 0 then CHR ''p'' # dec (nat p) @ CHR ''.'' # ?body else ?body)"
    using assms ok a by (simp add: addr_text_whole inet_text_def addrint2str_num)
  have form: "detect_form (addr_text a) w False = (False, True)"
    by (simp add: str)
  have f1: "addrstr2int (dec (nat v) @ c # r) = v" if "num_ok v" "\<not> isdigit c" for v c r
    using that by (intro addrstr2int_dec) auto
  have f2: "addrstr2int (dec (nat v)) = v" if "num_ok v" for v
    using addrstr2int_dec [OF that, of "[]"] by simp
  have pk: "isdigit (peek (dec k))" for k using peek_dec [of k "[]"] by simp
  have loop: "inet_loop (addr_text a) (addr_text a) no_gots
      (zero_faddr\<lparr>inetform := True, zone := 2, net := 5020, node := 0, point := 0\<rparr>) = (False, a)"
    unfolding str using ok by (cases "p = 0"; cases "d = []")
      (simp_all add: over_digits only_digits f1 f2 inet_component_def no_gots_def zero_faddr_def a pk domain_copy Let_def)
  show ?thesis
    by (simp add: ftn_addrparse_def form ftn_addrparse_inet_def loop)
qed

section \<open>Outbound names\<close>

lemma hex_int_num: "num_ok v \<Longrightarrow> hex_int w v = pad0 w (hex (nat v))"
  by (simp add: hex_int_def num_ok_def ADDRNUM_MAX_def)

lemma hex_int_inject: "num_ok u \<Longrightarrow> num_ok v \<Longrightarrow> hex_int w u = hex_int w v \<longleftrightarrow> u = v"
  by (auto simp: hex_int_num pad0_inject num_ok_def nat_eq_iff)

lemma hex_int_4: "num_ok v \<Longrightarrow> length (hex_int 4 v) = 4"
  by (subst hex_int_num, simp, rule pad0_length) (simp_all add: num_ok_def ADDRNUM_MAX_def nat_less_iff)

lemma hex_int_chars: "num_ok v \<Longrightarrow> c \<in> set (hex_int w v) \<Longrightarrow> digit_val c < 16"
  using pad0_digits [of 16 c w "nat v"] by (simp add: hex_int_num)

lemma hex_int_nonempty [simp]: "hex_int w v \<noteq> []"
  by (simp add: hex_int_def pad0_def)

lemma bso_name_inject:
  assumes "addr_ok a" "addr_ok b" "bso_name a = bso_name b"
  shows "net a = net b \<and> node a = node b \<and> point a = point b"
proof -
  have ok: "num_ok (net a)" "num_ok (node a)" "num_ok (point a)" "num_ok (net b)" "num_ok (node b)" "num_ok (point b)"
    using assms by (simp_all add: addr_ok_def)
  have "length (hex_int 4 (net a)) = length (hex_int 4 (net b))"
    "length (hex_int 4 (node a)) = length (hex_int 4 (node b))"
    using ok hex_int_4 by simp_all
  with assms(3) show ?thesis
    using ok by (auto simp: bso_name_def hex_int_inject split: if_splits)
      (drule arg_cong [where f = length], simp)+
qed

lemma takeWhile_slash: "CHR ''/'' \<notin> set u \<Longrightarrow> takeWhile (\<lambda>c. c \<noteq> CHR ''/'') (u @ CHR ''/'' # v) = u"
  by (induction u) auto

lemma split_at_slash:
  assumes "s @ CHR ''/'' # r = t @ CHR ''/'' # q" "CHR ''/'' \<notin> set s" "CHR ''/'' \<notin> set t"
  shows "s = t \<and> r = q"
proof -
  have "s = t"
    using takeWhile_slash [OF assms(2), of r] takeWhile_slash [OF assms(3), of q] assms(1) by simp
  with assms(1) show ?thesis by simp
qed

lemma hex_no_slash: "num_ok v \<Longrightarrow> CHR ''/'' \<notin> set (hex_int w v)" "num_ok v \<Longrightarrow> CHR ''.'' \<notin> set (hex_int w v)"
  by (auto dest: hex_int_chars simp: digit_val_def isdigit_def)

lemma take_main:
  assumes "CHR ''/'' \<in> set s" "m = rev (takeWhile (\<lambda>c. c \<noteq> CHR ''/'') (rev s))"
  shows "take (length s - length m - 1) s @ ''/'' @ m = s"
proof -
  obtain r t where s: "s = r @ CHR ''/'' # t" "CHR ''/'' \<notin> set t"
    using split_list_last [OF assms(1)] by blast
  then have "m = t" using takeWhile_slash [of "rev t" "rev r"] assms(2) by simp
  with s show ?thesis by simp
qed

lemma out_get_root_parts:
  assumes "path \<noteq> []" "out_get_root path = Some (root, main)"
  shows "path = root @ main \<or> path = root @ main @ ''/''"
proof -
  define s where "s = (if last path = CHR ''/'' then butlast path else path)"
  have parts: "CHR ''/'' \<in> set s" "main = rev (takeWhile (\<lambda>c. c \<noteq> CHR ''/'') (rev s))"
    "root = take (length s - length main - 1) s @ ''/''"
    using assms(2) unfolding out_get_root_def Let_def s_def [symmetric]
    by (auto split: if_splits)
  have "root @ main = s"
    using take_main [OF parts(1,2)] parts(3) by simp
  moreover have "path = s \<or> path = s @ ''/''"
    using append_butlast_last_id [OF assms(1)] by (auto simp: s_def split: if_splits)
  ultimately show ?thesis by auto
qed

lemma bso_name_head: "addr_ok a \<Longrightarrow> \<exists>c r. bso_name a = c # r \<and> c \<noteq> CHR ''.'' \<and> c \<noteq> CHR ''/''"
  using hex_no_slash [of "net a" 4]
  by (cases "hex_int 4 (net a)") (auto simp: bso_name_def addr_ok_def)

lemma main_vs_zone:
  assumes "addr_ok a" "p = root @ main \<or> p = root @ main @ ''/''"
  shows "p @ bso_name a \<noteq> root @ main @ ''.'' @ r"
  using assms(2) bso_name_head [OF assms(1)] by auto

lemma four_dims:
  assumes "dec_int a @ ''.'' @ r = dec_int b @ ''.'' @ q" "num_ok a" "num_ok b"
  shows "a = b \<and> r = q"
proof -
  have dot: "CHR ''.'' \<notin> set (dec (nat v))" for v using dec_chars [of "CHR ''.''" "nat v"] by auto
  have tw: "takeWhile (\<lambda>c. c \<noteq> CHR ''.'') (u @ CHR ''.'' # v) = u" if "CHR ''.'' \<notin> set u" for u v
    using that by (induction u) auto
  have e: "dec (nat a) @ CHR ''.'' # r = dec (nat b) @ CHR ''.'' # q"
    using assms by (simp add: dec_int_def num_ok_def)
  then have "dec (nat a) = dec (nat b)"
    using tw [OF dot, of a r] tw [OF dot, of b q] by simp
  with e assms(2,3) show ?thesis by (auto simp: radix_inject num_ok_def nat_eq_iff)
qed

section \<open>Properties\<close>

text \<open>
  C7: printing and parsing are inverse: for every address with its numbers in range and a printable
  domain that fits, in either form, \<open>ftn_addrstr\<close> stays inside a buffer of \<open>BF_MAXADDRSTR\<close>
  characters and \<open>ftn_addrparse\<close> reads the same address back, wildcards allowed or not.
\<close>

theorem ftn_addr_roundtrip:
  assumes "addr_ok a" "BF_MAXADDRSTR \<le> length buf"
  shows "\<exists>b. ftn_addrstr buf a = Some b \<and> length b = length buf \<and> ftn_addrparse (cstr b) w = (False, a)"
proof -
  have "nul_free (domain a)" using assms(1) by (simp add: addr_ok_def nul_free_printable)
  from ftn_addrstr_text [OF assms(2) this] obtain b where
    b: "ftn_addrstr buf a = Some b" "length b = length buf" "cstr b = addr_text a" by blast
  with parse_fido_text [OF assms(1)] parse_inet_text [OF assms(1)] show ?thesis by metis
qed

theorem ftn_addr_roundtrip_witness:
  "\<exists>b. ftn_addrstr (replicate 80 NUL) \<lparr>inetform = False, zone = 2, net = 5020, node = 1398, point = 11, domain = ''fidonet''\<rparr> = Some b
    \<and> length b = length (replicate 80 NUL)
    \<and> ftn_addrparse (cstr b) False = (False, \<lparr>inetform = False, zone = 2, net = 5020, node = 1398, point = 11, domain = ''fidonet''\<rparr>)"
  by (rule ftn_addr_roundtrip) (simp_all add: addr_ok_def num_ok_def ADDRNUM_MAX_def BF_MAXDOMAIN_def BF_MAXADDRSTR_def isprint_def)

text \<open>
  C8: whatever text comes in, from a peer or a file, and whether the parse succeeds or not, the
  address it leaves has its numbers between 0 and 32767 (or the wildcard \<open>-1\<close>, where the caller
  allowed one) and a printable domain of at most 40 characters, and printing it, in full or cut at
  the size, never leaves a buffer of \<open>BF_MAXADDRSTR\<close> characters.
\<close>

theorem ftn_addrparse_bounds:
  assumes "BF_MAXADDRSTR \<le> length buf"
  shows "let a = snd (ftn_addrparse s w) in
      (\<forall>v\<in>{zone a, net a, node a, point a}. v \<in> {0..0x7fff} \<or> w \<and> v = -1)
      \<and> length (domain a) \<le> BF_MAXDOMAIN \<and> (\<forall>c\<in>set (domain a). isprint c)
      \<and> (\<exists>b. ftn_addrstr buf a = Some b \<and> length b = length buf \<and> length (cstr b) < BF_MAXADDRSTR)"
proof -
  let ?a = "snd (ftn_addrparse s w)"
  have ok: "parsed_ok w ?a" by (rule ftn_addrparse_ok)
  then have "nul_free (domain ?a)" by (simp add: parsed_ok_def nul_free_printable)
  from ftn_addrstr_text [OF assms this] obtain b where
    b: "ftn_addrstr buf ?a = Some b" "length b = length buf" "cstr b = addr_text ?a" by blast
  have "length (addr_text ?a) < BF_MAXADDRSTR"
    using text_length [of ?a]
    by (cases "inetform ?a"; cases "domain ?a = []") (simp_all add: addr_text_def BF_MAXADDRSTR_def Let_def)
  with ok b show ?thesis by (auto simp: parsed_ok_def field_ok_def num_ok_def ADDRNUM_MAX_def Let_def)
qed

theorem ftn_addrparse_bounds_witness:
  "let a = snd (ftn_addrparse ''2:99999/1.3@dom'' False) in
      (\<forall>v\<in>{zone a, net a, node a, point a}. v \<in> {0..0x7fff} \<or> False \<and> v = -1)
      \<and> length (domain a) \<le> BF_MAXDOMAIN \<and> (\<forall>c\<in>set (domain a). isprint c)
      \<and> (\<exists>b. ftn_addrstr (replicate 80 NUL) a = Some b \<and> length b = length (replicate 80 NUL)
           \<and> length (cstr b) < BF_MAXADDRSTR)"
  by (rule ftn_addrparse_bounds) (simp add: BF_MAXADDRSTR_def)

lemma addrcomp_loop_lex:
  "length xs = length ys \<Longrightarrow> (addrcomp_loop ADDR_GT (zip xs ys) = 0) = (ys \<le> xs)"
  "length xs = length ys \<Longrightarrow> (addrcomp_loop ADDR_LT (zip xs ys) = 0) = (xs \<le> ys)"
  "length xs = length ys \<Longrightarrow> (addrcomp_loop ADDR_EQ (zip xs ys) = 0) = (xs = ys)"
  by (induction xs ys rule: list_induct2) auto

text \<open>
  the comparisons agree: \<open>ftn_addrcomp\<close> is zero exactly when the metric is 4, when the mask
  comparison without wildcards is zero, and when \<open>ADDR_EQ\<close> is true (zero); \<open>ADDR_GT\<close> and \<open>ADDR_LT\<close>
  compare zone, net, node and point lexicographically, and both are also true of equal addresses,
  although the names and the description promise the strict order. The metric counts the leading
  components that agree.
\<close>

theorem ftn_addrcomp_agree:
  "(ftn_addrcomp a b = 0) = (matr a = matr b) \<and> (ftn_addrsmetric a b = 4) = (matr a = matr b)
   \<and> (ftn_addrcomp_logic a ADDR_EQ b = 0) = (matr a = matr b)
   \<and> (ftn_addrcomp_logic a ADDR_GT b = 0) = (matr b \<le> matr a)
   \<and> (ftn_addrcomp_logic a ADDR_LT b = 0) = (matr a \<le> matr b)
   \<and> (ftn_addrcomp_mask a b = 0) = list_all2 (\<lambda>x m. m \<in> {x, -1}) (matr a) (matr b)
   \<and> ftn_addrsmetric a b = int (length (takeWhile (\<lambda>(x, y). x = y) (zip (matr a) (matr b))))"
proof (intro conjI)
  show "(ftn_addrcomp_logic a ADDR_EQ b = 0) = (matr a = matr b)"
    "(ftn_addrcomp_logic a ADDR_GT b = 0) = (matr b \<le> matr a)"
    "(ftn_addrcomp_logic a ADDR_LT b = 0) = (matr a \<le> matr b)"
    unfolding ftn_addrcomp_logic_def by (rule addrcomp_loop_lex; simp add: matr_def)+
qed (auto simp: ftn_addrcomp_def ftn_addrsmetric_def ftn_addrcomp_mask_def matr_def)

text \<open>
  two different nodes never share a name in the outbound: with numbers in range, equal names
  of the four-dimensional outbound come from the same zone, net, node and point (whatever the
  configured directory and main address), and so do equal names of the Amiga outbound.
\<close>

theorem out_getname_injective:
  assumes "addr_ok a" "addr_ok b"
    "out_getname_4d dir me a = out_getname_4d dir me b \<and> out_getname_4d dir me a \<noteq> None
     \<or> out_getname_amiga adir a = out_getname_amiga adir b \<and> out_getname_amiga adir a \<noteq> None"
  shows "ftn_addrcomp a b = 0"
  using assms(3)
proof
  assume e: "out_getname_4d dir me a = out_getname_4d dir me b \<and> out_getname_4d dir me a \<noteq> None"
  then obtain p m root main where cfg: "dir = Some p" "me = Some m" "p \<noteq> []" "out_get_root p = Some (root, main)"
    "root \<noteq> []" "main \<noteq> []"
    by (auto simp: out_getname_4d_def split: option.splits if_splits)
  have ok: "num_ok (zone a)" "num_ok (zone b)" using assms by (simp_all add: addr_ok_def)
  note p = out_get_root_parts [OF cfg(3,4)]
  define t where "t z c = hex_int 3 z @ CHR ''/'' # bso_name c" for z c
  note ne = main_vs_zone [OF assms(1) p, of "t (zone b) b"] main_vs_zone [OF assms(2) p, of "t (zone a) a"]
  have "zone a = zone b \<and> bso_name a = bso_name b"
  proof (cases "zone a = zone m"; cases "zone b = zone m")
    assume "zone a = zone m" "zone b = zone m"
    with e cfg show ?thesis by (simp add: out_getname_4d_def string_concat_def)
  next
    assume "zone a = zone m" "zone b \<noteq> zone m"
    with e cfg ne(1) show ?thesis by (simp add: out_getname_4d_def string_concat_def t_def)
  next
    assume "zone a \<noteq> zone m" "zone b = zone m"
    with e cfg ne(2) [symmetric] show ?thesis by (simp add: out_getname_4d_def string_concat_def t_def)
  next
    assume "zone a \<noteq> zone m" "zone b \<noteq> zone m"
    with e cfg have "hex_int 3 (zone a) @ CHR ''/'' # bso_name a = hex_int 3 (zone b) @ CHR ''/'' # bso_name b"
      by (simp add: out_getname_4d_def string_concat_def)
    from split_at_slash [OF this] ok show ?thesis by (simp add: hex_no_slash hex_int_inject)
  qed
  then show ?thesis using bso_name_inject [OF assms(1,2)] by (simp add: ftn_addrcomp_def)
next
  assume e: "out_getname_amiga adir a = out_getname_amiga adir b \<and> out_getname_amiga adir a \<noteq> None"
  have ok: "num_ok (zone a)" "num_ok (net a)" "num_ok (node a)" "num_ok (point a)"
    "num_ok (zone b)" "num_ok (net b)" "num_ok (node b)" "num_ok (point b)"
    using assms by (simp_all add: addr_ok_def)
  have "dec_int (zone a) @ ''.'' @ dec_int (net a) @ ''.'' @ dec_int (node a) @ ''.'' @ dec_int (point a)
      = dec_int (zone b) @ ''.'' @ dec_int (net b) @ ''.'' @ dec_int (node b) @ ''.'' @ dec_int (point b)"
    using e by (auto simp: out_getname_amiga_def string_concat_def split: option.splits if_splits)
  from four_dims [OF this ok(1,5)] have z: "zone a = zone b"
    and r: "dec_int (net a) @ ''.'' @ dec_int (node a) @ ''.'' @ dec_int (point a)
      = dec_int (net b) @ ''.'' @ dec_int (node b) @ ''.'' @ dec_int (point b)" by blast+
  from four_dims [OF r ok(2,6)] have n: "net a = net b"
    and r2: "dec_int (node a) @ ''.'' @ dec_int (point a) = dec_int (node b) @ ''.'' @ dec_int (point b)" by blast+
  from four_dims [OF r2 ok(3,7)] have "node a = node b" "dec_int (point a) = dec_int (point b)" by blast+
  with z n ok(4,8) show ?thesis
    by (auto simp: ftn_addrcomp_def dec_int_def num_ok_def radix_inject nat_eq_iff)
qed

theorem out_getname_injective_witness:
  "ftn_addrcomp (zero_faddr\<lparr>zone := 2, net := 5020\<rparr>) (zero_faddr\<lparr>zone := 2, net := 5020, domain := ''fidonet''\<rparr>) = 0"
proof (rule out_getname_injective [where dir = None and me = None and adir = "Some ''/out/''"])
  show "addr_ok (zero_faddr\<lparr>zone := 2, net := 5020\<rparr>)"
    "addr_ok (zero_faddr\<lparr>zone := 2, net := 5020, domain := ''fidonet''\<rparr>)"
    by (simp_all add: addr_ok_def zero_faddr_def num_ok_def ADDRNUM_MAX_def isprint_def BF_MAXDOMAIN_def)
qed (simp add: out_getname_amiga_def zero_faddr_def)

end
