(* ===== verification/Locks.thy ===== *)
theory Locks
  imports Ftn
begin

text \<open>
  Locks on addresses: the PID lock files (\<open>u_plock.c\<close>) and the \<open>.bsy\<close> and \<open>.csy\<close> files of an address in
  the three outbounds (\<open>outb_bsy.c\<close>), with \<open>BFORCE_USE_CSY\<close>, as \<open>configure\<close> sets it by default.
\<close>

section \<open>The code\<close>

subsection \<open>PID lock files\<close>

text \<open>
  The part of the system the locks depend on: the lock files with the number \<open>fscanf\<close> reads from
  them (0 when there is none), the living processes, our own process, whether files can be
  created and removed in the directory of a path, whether \<open>file_open\<close> opens a file that is there for reading
  (it needs the permission, a free descriptor and the shared lock of the file), whether a write finds room, the six
  characters \<open>mktemp\<close> chooses for a template, and whether \<open>errno\<close> happens to be \<open>ENOENT\<close> when \<open>plock_read\<close> has
  returned 0.
\<close>

record lockfs =
  locks :: "string \<Rightarrow> int option"
  running :: "int \<Rightarrow> bool"
  mypid :: int
  writable :: "string \<Rightarrow> bool"
  opens :: "string \<Rightarrow> bool"
  disk_full :: bool
  tmpname :: "string \<Rightarrow> string"
  stale_errno :: bool

datatype plock = PLOCK_OK | PLOCK_EXIST | PLOCK_ERROR | PLOCK_OURLOCK

text \<open>
  The system calls: \<open>unlink\<close>, \<open>link\<close>, and \<open>mktemp\<close>, which replaces the six \<open>X\<close> by letters and digits
  and never returns the name of a file.
\<close>

definition unlink :: "string \<Rightarrow> lockfs \<Rightarrow> bool \<times> lockfs" where
  "unlink path w =
     (if writable w path \<and> locks w path \<noteq> None then (True, w\<lparr>locks := (locks w)(path := None)\<rparr>)
      else (False, w))"

datatype link_result = Linked | Exists | Link_failed

definition link :: "string \<Rightarrow> string \<Rightarrow> lockfs \<Rightarrow> link_result \<times> lockfs" where
  "link old new w =
     (case locks w old of
        None \<Rightarrow> (Link_failed, w)
      | Some pid \<Rightarrow>
          if locks w new \<noteq> None then (Exists, w)
          else if writable w new then (Linked, w\<lparr>locks := (locks w)(new \<mapsto> pid)\<rparr>)
          else (Link_failed, w))"

definition mktemp :: "string \<Rightarrow> lockfs \<Rightarrow> string option" where
  "mktemp template w =
     (let x = tmpname w template; n = take (length template - 6) template @ x in
      if length x = 6 \<and> (\<forall>c\<in>set x. isalpha c \<or> isdigit c) \<and> locks w n = None then Some n else None)"

definition plock_read :: "string \<Rightarrow> lockfs \<Rightarrow> int" where
  "plock_read lockname w =
     (case locks w lockname of None \<Rightarrow> 0 | Some pid \<Rightarrow> if opens w lockname then pid else 0)"

definition plock_write :: "string \<Rightarrow> lockfs \<Rightarrow> plock \<times> lockfs" where
  "plock_write lockname w =
     (if \<not> writable w lockname then (PLOCK_ERROR, w)
      else
        let w = w\<lparr>locks := (locks w)(lockname \<mapsto> (if disk_full w then 0 else mypid w))\<rparr> in
        if disk_full w then (PLOCK_ERROR, snd (unlink lockname w)) else (PLOCK_OK, w))"

definition plock_check :: "string \<Rightarrow> lockfs \<Rightarrow> plock \<times> lockfs" where
  "plock_check lockname w =
     (if locks w lockname = None then (PLOCK_OK, w)
      else
        let pid = plock_read lockname w in
        if pid = 0 then (if stale_errno w then PLOCK_OK else PLOCK_ERROR, w)
        else if pid = mypid w then (PLOCK_OURLOCK, w)
        else if \<not> running w pid then
          (case unlink lockname w of (ok, w) \<Rightarrow> (if ok then PLOCK_OK else PLOCK_ERROR, w))
        else (PLOCK_EXIST, w))"

definition plock_link :: "string \<Rightarrow> string \<Rightarrow> lockfs \<Rightarrow> plock \<times> lockfs" where
  "plock_link lockname tmp w =
     (case link tmp lockname w of
        (Linked, w) \<Rightarrow> (PLOCK_OK, snd (unlink tmp w))
      | (Exists, w) \<Rightarrow>
          (let (rc, w) = plock_check lockname w;
               (rc, w) =
                 (if rc \<noteq> PLOCK_OK then (if rc = PLOCK_OURLOCK then PLOCK_OK else rc, w)
                  else case link tmp lockname w of
                         (Linked, w) \<Rightarrow> (PLOCK_OK, w)
                       | (_, w) \<Rightarrow> (PLOCK_ERROR, w))
           in (rc, snd (unlink tmp w)))
      | (Link_failed, w) \<Rightarrow> (PLOCK_ERROR, snd (unlink tmp w)))"

text \<open>The directory part of the name up to its last separator, which must not be its first character.\<close>

definition dir_part :: "string \<Rightarrow> string" where
  "dir_part s = rev (dropWhile (\<lambda>c. c \<noteq> CHR ''/'') (rev s))"

definition plock_create :: "string \<Rightarrow> lockfs \<Rightarrow> plock \<times> lockfs" where
  "plock_create lockname w =
     (if length (dir_part lockname) \<le> 1 then (PLOCK_ERROR, w)
      else
        case mktemp (dir_part lockname @ ''bforce-XXXXXX'') w of
          None \<Rightarrow> (PLOCK_ERROR, w)
        | Some p \<Rightarrow>
            (case plock_write p w of
               (PLOCK_OK, w) \<Rightarrow> plock_link lockname p w
             | (rc, w) \<Rightarrow> (rc, w)))"

text \<open>0 is success.\<close>

definition plock_remove :: "string \<Rightarrow> lockfs \<Rightarrow> int \<times> lockfs" where
  "plock_remove lockname w =
     (let pid = plock_read lockname w in
      if pid = 0 then (1, w)
      else if pid = mypid w then
        (case unlink lockname w of (ok, w) \<Rightarrow> (if ok then 0 else 1, w))
      else (0, w))"

subsection \<open>Lock files of an address\<close>

text \<open>The configured outbounds, and the list of our locks.\<close>

record outbounds =
  cf_outbound_directory :: "string option"
  cf_address :: "s_faddr option"
  cf_domain :: "(int \<times> string) list"
  cf_amiga_outbound_directory :: "string option"

record s_bsylist =
  bsy_addr :: s_faddr
  name_4d :: "string option"
  name_domain :: "string option"
  name_amiga :: "string option"
  is_csy :: bool

definition BFORCE_MAX_PATH :: nat where "BFORCE_MAX_PATH = 256"

text \<open>\<open>strnxcpy\<close> and \<open>strnxcat\<close> into \<open>lockname\<close>.\<close>

definition lock_path :: "string \<Rightarrow> string \<Rightarrow> string" where
  "lock_path name ext = take BFORCE_MAX_PATH (take BFORCE_MAX_PATH name @ ext)"

definition out_bsy_file_check :: "string \<Rightarrow> string \<Rightarrow> lockfs \<Rightarrow> plock \<times> lockfs" where
  "out_bsy_file_check name ext = plock_check (lock_path name ext)"

definition out_bsy_file_create :: "string \<Rightarrow> string \<Rightarrow> lockfs \<Rightarrow> plock \<times> lockfs" where
  "out_bsy_file_create name ext = plock_create (lock_path name ext)"

definition out_bsy_file_link ::
    "string \<Rightarrow> string \<Rightarrow> string \<Rightarrow> string \<Rightarrow> lockfs \<Rightarrow> plock \<times> lockfs" where
  "out_bsy_file_link oldname oldext newname newext =
     plock_link (lock_path newname newext) (lock_path oldname oldext)"

definition out_bsy_file_unlink :: "string \<Rightarrow> string \<Rightarrow> lockfs \<Rightarrow> lockfs" where
  "out_bsy_file_unlink name ext w = snd (plock_remove (lock_path name ext) w)"

text \<open>The disjunction over the three names, left to right, stopping at the first living lock.\<close>

fun any_exist :: "string option list \<Rightarrow> string \<Rightarrow> lockfs \<Rightarrow> bool \<times> lockfs" where
  "any_exist [] ext w = (False, w)"
| "any_exist (None # ns) ext w = any_exist ns ext w"
| "any_exist (Some n # ns) ext w =
     (case out_bsy_file_check n ext w of
        (rc, w) \<Rightarrow> if rc = PLOCK_EXIST then (True, w) else any_exist ns ext w)"

definition bsy_names :: "outbounds \<Rightarrow> s_faddr \<Rightarrow> string option list" where
  "bsy_names cf addr =
     [out_getname_4d (cf_outbound_directory cf) (cf_address cf) addr,
      out_getname_domain (cf_domain cf) addr,
      out_getname_amiga (cf_amiga_outbound_directory cf) addr]"

definition out_bsy_check :: "outbounds \<Rightarrow> s_faddr \<Rightarrow> lockfs \<Rightarrow> int \<times> lockfs" where
  "out_bsy_check cf addr w =
     (let names = bsy_names cf addr;
          (failed, w) = any_exist names ''.bsy'' w;
          (failed, w) = (if failed then (True, w) else any_exist names ''.csy'' w)
      in (if failed then -1 else 0, w))"

text \<open>
  Creation goes through the names in order; it stops at a living lock, and an error only leaves
  that name unlocked. The result is \<open>isfailed\<close> and the names that are locked now.
\<close>

fun create_locks ::
    "string option list \<Rightarrow> (string \<Rightarrow> lockfs \<Rightarrow> plock \<times> lockfs) \<Rightarrow> lockfs
     \<Rightarrow> bool \<times> string option list \<times> lockfs" where
  "create_locks [] mk w = (False, [], w)"
| "create_locks (None # ns) mk w =
     (case create_locks ns mk w of (failed, locked, w) \<Rightarrow> (failed, None # locked, w))"
| "create_locks (Some n # ns) mk w =
     (case mk n w of (rc, w) \<Rightarrow>
        if rc = PLOCK_EXIST then (True, map (\<lambda>_. None) (Some n # ns), w)
        else
          case create_locks ns mk w of
            (failed, locked, w) \<Rightarrow> (failed, (if rc = PLOCK_OK then Some n else None) # locked, w))"

definition remove_locks :: "string option list \<Rightarrow> string \<Rightarrow> lockfs \<Rightarrow> lockfs" where
  "remove_locks ns ext w =
     fold (\<lambda>n w. case n of None \<Rightarrow> w | Some n \<Rightarrow> out_bsy_file_unlink n ext w) ns w"

definition out_bsy_convert_csy_to_bsy :: "s_bsylist \<Rightarrow> lockfs \<Rightarrow> int \<times> s_bsylist \<times> lockfs" where
  "out_bsy_convert_csy_to_bsy ptrl w =
     (if \<not> is_csy ptrl then (0, ptrl, w)
      else
        case create_locks [name_4d ptrl, name_domain ptrl, name_amiga ptrl]
               (\<lambda>n. out_bsy_file_link n ''.csy'' n ''.bsy'') w of
          (failed, locked, w) \<Rightarrow>
            if failed then (1, ptrl, remove_locks locked ''.bsy'' w)
            else (0, ptrl\<lparr>is_csy := False\<rparr>, w))"

text \<open>The search for a lock of our own that has to be converted: its index.\<close>

fun find_csy :: "s_faddr \<Rightarrow> bool \<Rightarrow> s_bsylist list \<Rightarrow> nat option" where
  "find_csy addr csy_locks [] = None"
| "find_csy addr csy_locks (b # bs) =
     (if ftn_addrcomp (bsy_addr b) addr = 0 \<and> is_csy b \<and> \<not> csy_locks then Some 0
      else map_option Suc (find_csy addr csy_locks bs))"

definition out_bsy_lock ::
    "outbounds \<Rightarrow> s_faddr \<Rightarrow> bool \<Rightarrow> s_bsylist list \<Rightarrow> lockfs \<Rightarrow> int \<times> s_bsylist list \<times> lockfs" where
  "out_bsy_lock cf addr csy_locks bsylist w =
     (case find_csy addr csy_locks bsylist of
        Some i \<Rightarrow>
          (case out_bsy_convert_csy_to_bsy (bsylist ! i) w of (rc, b, w) \<Rightarrow> (rc, bsylist[i := b], w))
      | None \<Rightarrow>
          let lockext = (if csy_locks then ''.csy'' else ''.bsy'');
              names = bsy_names cf addr;
              (failed, w) = any_exist names ''.bsy'' w;
              (failed, w) = (if failed then (True, w) else any_exist names ''.csy'' w);
              (failed, locked, w) =
                (if failed then (True, [None, None, None], w)
                 else create_locks names (\<lambda>n. out_bsy_file_create n lockext) w);
              (failed, w) = (if failed then (True, w) else any_exist names ''.bsy'' w)
          in if failed then (-1, bsylist, remove_locks locked lockext w)
             else (0, bsylist @ [\<lparr>bsy_addr = addr, name_4d = locked ! 0, name_domain = locked ! 1,
                                  name_amiga = locked ! 2, is_csy = csy_locks\<rparr>], w))"

definition out_bsy_unlockall :: "s_bsylist list \<Rightarrow> lockfs \<Rightarrow> lockfs" where
  "out_bsy_unlockall bsylist w =
     fold (\<lambda>b w. remove_locks [name_4d b, name_domain b, name_amiga b]
                   (if is_csy b then ''.csy'' else ''.bsy'') w) bsylist w"

section \<open>What the operations keep\<close>

text \<open>
  A lock of another living process, and one of our own. \<open>keeps T\<close> relates two states when the
  second still has every lock of both kinds of the first, except on the paths in \<open>T\<close>.
\<close>

definition live :: "lockfs \<Rightarrow> string \<Rightarrow> bool" where
  "live w path \<longleftrightarrow> (\<exists>p. locks w path = Some p \<and> p \<noteq> 0 \<and> p \<noteq> mypid w \<and> running w p)"

definition mine :: "lockfs \<Rightarrow> string \<Rightarrow> bool" where
  "mine w path \<longleftrightarrow> locks w path = Some (mypid w) \<and> mypid w \<noteq> 0"

definition same_env :: "lockfs \<Rightarrow> lockfs \<Rightarrow> bool" where
  "same_env w w' \<longleftrightarrow> w'\<lparr>locks := locks w\<rparr> = w"

definition keeps :: "string set \<Rightarrow> lockfs \<Rightarrow> lockfs \<Rightarrow> bool" where
  "keeps T w w' \<longleftrightarrow> same_env w w' \<and> (\<forall>p. p \<notin> T \<longrightarrow> live w p \<or> mine w p \<longrightarrow> locks w' p = locks w p)"

lemma same_env_simps:
  assumes "same_env w w'"
  shows "mypid w' = mypid w" "running w' = running w" "writable w' = writable w" "disk_full w' = disk_full w"
    "tmpname w' = tmpname w" "stale_errno w' = stale_errno w" "opens w' = opens w"
proof -
  have e: "w'\<lparr>locks := locks w\<rparr> = w" using assms by (simp add: same_env_def)
  show "mypid w' = mypid w" "running w' = running w" "writable w' = writable w" "disk_full w' = disk_full w"
    "tmpname w' = tmpname w" "stale_errno w' = stale_errno w" "opens w' = opens w"
    using arg_cong [OF e, of mypid] arg_cong [OF e, of running] arg_cong [OF e, of writable]
      arg_cong [OF e, of disk_full] arg_cong [OF e, of tmpname] arg_cong [OF e, of stale_errno]
      arg_cong [OF e, of opens]
    by simp_all
qed

lemma same_env_refl [simp]: "same_env w w" by (simp add: same_env_def)

lemma same_env_trans: "same_env a b \<Longrightarrow> same_env b c \<Longrightarrow> same_env a c"
  by (cases a; cases b; cases c) (simp add: same_env_def)

lemma same_env_locks [simp]: "same_env w (w\<lparr>locks := f\<rparr>)"
  by (simp add: same_env_def)

lemma keeps_refl [simp]: "keeps T w w" by (simp add: keeps_def)

lemma keeps_live: "keeps T w w' \<Longrightarrow> p \<notin> T \<Longrightarrow> live w p \<Longrightarrow> live w' p"
  using same_env_simps(1,2) [of w w'] by (auto simp: keeps_def live_def)

lemma keeps_mine: "keeps T w w' \<Longrightarrow> p \<notin> T \<Longrightarrow> mine w p \<Longrightarrow> mine w' p"
  using same_env_simps(1) [of w w'] by (auto simp: keeps_def mine_def)

lemma keeps_trans [trans]: "keeps T a b \<Longrightarrow> keeps T b c \<Longrightarrow> keeps T a c"
  using same_env_trans [of a b c] keeps_live [of T a b] keeps_mine [of T a b]
  unfolding keeps_def by metis

lemma keeps_weaken: "keeps S a b \<Longrightarrow> S \<subseteq> T \<Longrightarrow> keeps T a b"
  by (auto simp: keeps_def)

lemma keeps_strengthen: "keeps T a b \<Longrightarrow> \<forall>p\<in>T. locks a p = None \<Longrightarrow> keeps {} a b"
  unfolding keeps_def live_def mine_def by (metis option.distinct(1))

lemma keeps_set: "p \<in> T \<or> \<not> live w p \<and> \<not> mine w p \<Longrightarrow> keeps T w (w\<lparr>locks := (locks w)(p := x)\<rparr>)"
  by (auto simp: keeps_def)

lemma keeps_unlink: "p \<in> T \<or> \<not> live w p \<and> \<not> mine w p \<Longrightarrow> keeps T w (snd (unlink p w))"
  by (simp add: unlink_def keeps_set)

lemma plock_check_keeps: "keeps T w (snd (plock_check p w))"
proof (cases "locks w p")
  case (Some pid)
  have u: "keeps T w (snd (unlink p w))" if "pid \<noteq> mypid w" "\<not> running w pid"
    using that Some by (intro keeps_unlink) (auto simp: live_def mine_def)
  show ?thesis
    using Some u by (cases "unlink p w") (auto simp: plock_check_def plock_read_def Let_def)
qed (simp add: plock_check_def)

text \<open>The lock of another process is noticed, provided its file can be opened.\<close>

lemma plock_check_live: "fst (plock_check p w) = PLOCK_EXIST \<longleftrightarrow> live w p \<and> opens w p"
  by (auto simp: plock_check_def plock_read_def live_def Let_def split: prod.split option.split)

lemma plock_check_ok: "fst (plock_check p w) = PLOCK_OURLOCK \<Longrightarrow> mine w p"
  by (auto simp: plock_check_def plock_read_def mine_def Let_def split: prod.splits option.splits if_splits)

lemma link_keeps: "keeps T w (snd (link old new w))"
  using keeps_set [of new T w] by (auto simp: link_def live_def mine_def split: option.split)

lemma link_linked: "fst (link old new w) = Linked \<Longrightarrow> locks (snd (link old new w)) new = locks w old"
  by (auto simp: link_def split: option.splits if_splits)

lemma plock_link_keeps:
  assumes "tmp \<in> T"
  shows "keeps T w (snd (plock_link p tmp w))"
proof -
  obtain r w1 where l: "link tmp p w = (r, w1)" by fastforce
  have k1: "keeps T w w1" using link_keeps [of T w tmp p] l by simp
  have u: "keeps T v (snd (unlink tmp v))" for v using assms by (simp add: keeps_unlink)
  obtain rc w2 where c: "plock_check p w1 = (rc, w2)" by fastforce
  have k2: "keeps T w1 w2" using plock_check_keeps [of T w1 p] c by simp
  obtain r3 w3 where l3: "link tmp p w2 = (r3, w3)" by fastforce
  have k3: "keeps T w2 w3" using link_keeps [of T w2 tmp p] l3 by simp
  show ?thesis
    using u [of w1] u [of w2] u [of w3] k1 k2 k3
    by (auto simp: plock_link_def l c l3 Let_def split: link_result.split intro: keeps_trans)
qed

lemma unlink_other: "p \<noteq> tmp \<Longrightarrow> locks (snd (unlink tmp w)) p = locks w p \<and> mypid (snd (unlink tmp w)) = mypid w"
  by (simp add: unlink_def)

lemma plock_link_ok:
  assumes "fst (plock_link p tmp w) = PLOCK_OK" "mine w tmp" "tmp \<noteq> p"
  shows "mine (snd (plock_link p tmp w)) p"
proof -
  obtain r w1 where l: "link tmp p w = (r, w1)" by fastforce
  have m: "mypid w1 = mypid w" "mine w1 tmp"
    using keeps_mine [OF link_keeps [of "{}" w tmp p]] same_env_simps(1) [of w w1] link_keeps [of "{}" w tmp p] l assms(2)
    by (auto simp: keeps_def)
  have u: "mine (snd (unlink tmp v)) p" if "mine v p" for v
    using that unlink_other [of p tmp v] assms(3) by (auto simp: mine_def)
  show ?thesis
  proof (cases r)
    case Linked
    then have "mine w1 p" using link_linked [of tmp p w] l assms(2) m by (auto simp: mine_def)
    with u Linked show ?thesis by (simp add: plock_link_def l)
  next
    case Exists
    obtain rc w2 where c: "plock_check p w1 = (rc, w2)" by fastforce
    have k: "keeps {} w1 w2" using plock_check_keeps [of "{}" w1 p] c by simp
    show ?thesis
    proof (cases "rc = PLOCK_OURLOCK")
      case True
      then have "mine w2 p" using plock_check_ok [of p w1] c keeps_mine [OF k] by simp
      with u True Exists show ?thesis by (simp add: plock_link_def l c)
    next
      case False
      obtain r3 w3 where l3: "link tmp p w2 = (r3, w3)" by fastforce
      have "rc = PLOCK_OK \<and> r3 = Linked"
        using assms(1) Exists False by (auto simp: plock_link_def l c l3 split: if_splits link_result.splits)
      moreover have "mine w2 tmp" using keeps_mine [OF k _ m(2)] by simp
      moreover have "mypid w3 = mypid w2"
        using link_keeps [of "{}" w2 tmp p] l3 same_env_simps(1) by (auto simp: keeps_def)
      ultimately have "mine w3 p" using link_linked [of tmp p w2] l3 by (auto simp: mine_def)
      with u Exists \<open>rc = PLOCK_OK \<and> r3 = Linked\<close> show ?thesis by (simp add: plock_link_def l c l3)
    qed
  next
    case Link_failed
    with assms(1) show ?thesis by (simp add: plock_link_def l)
  qed
qed

lemma mktemp_fresh: "mktemp t w = Some n \<Longrightarrow> locks w n = None"
  by (auto simp: mktemp_def Let_def split: if_splits)

lemma plock_write_ok:
  "plock_write n w = (PLOCK_OK, w') \<Longrightarrow> mypid w \<noteq> 0 \<Longrightarrow> mine w' n"
  by (auto simp: plock_write_def mine_def Let_def split: if_splits)

lemma plock_write_keeps: "n \<in> T \<Longrightarrow> keeps T w (snd (plock_write n w))"
proof (cases "writable w n")
  case True
  assume n: "n \<in> T"
  define v where "v = w\<lparr>locks := (locks w)(n \<mapsto> (if disk_full w then 0 else mypid w))\<rparr>"
  have "keeps T w v" unfolding v_def using n by (intro keeps_set) simp
  moreover have "keeps T v (snd (unlink n v))" using n by (simp add: keeps_unlink)
  moreover have "snd (plock_write n w) = (if disk_full w then snd (unlink n v) else v)"
    unfolding v_def using True by (simp add: plock_write_def Let_def)
  ultimately show ?thesis using keeps_trans [of T w v] by simp
qed (simp add: plock_write_def)

lemma plock_create_keeps: "keeps {} w (snd (plock_create p w))"
proof -
  have "keeps {} w (snd (case plock_write n w of (PLOCK_OK, w) \<Rightarrow> plock_link p n w | (rc, w) \<Rightarrow> (rc, w)))"
    if n: "mktemp (dir_part p @ ''bforce-XXXXXX'') w = Some n" for n
  proof (rule keeps_strengthen [where T = "{n}"])
    obtain rc w1 where pw: "plock_write n w = (rc, w1)" by fastforce
    have "keeps {n} w w1" using plock_write_keeps [of n "{n}" w] pw by simp
    with plock_link_keeps [of n "{n}" w1 p] keeps_trans
    show "keeps {n} w (snd (case plock_write n w of (PLOCK_OK, w) \<Rightarrow> plock_link p n w | (rc, w) \<Rightarrow> (rc, w)))"
      by (auto simp: pw split: plock.split)
  qed (use mktemp_fresh [OF n] in simp)
  then show ?thesis by (auto simp: plock_create_def split: option.split)
qed

text \<open>A name that \<open>mktemp\<close> makes is no name of a \<open>.bsy\<close> or \<open>.csy\<close> file.\<close>

lemma mktemp_no_lock:
  assumes "mktemp (d @ ''bforce-XXXXXX'') w = Some n"
  shows "n \<noteq> p @ CHR ''.'' # [x, CHR ''s'', CHR ''y'']"
proof
  assume e: "n = p @ CHR ''.'' # [x, CHR ''s'', CHR ''y'']"
  from assms obtain t where t: "n = (d @ ''bforce-'') @ t" "length t = 6" "\<forall>c\<in>set t. isalpha c \<or> isdigit c"
    by (auto simp: mktemp_def Let_def split: if_splits)
  have "drop (length n - 4) n = CHR ''.'' # [x, CHR ''s'', CHR ''y'']" using e by simp
  moreover have "drop (length n - 4) n = drop 2 t" using t(1,2) by simp
  ultimately have "CHR ''.'' \<in> set t" by (metis in_set_dropD list.set_intros(1))
  with t(3) show False by (auto simp: isalpha_def isupper_def islower_def isdigit_def)
qed

lemma plock_create_ok:
  assumes "fst (plock_create p w) = PLOCK_OK" "mypid w \<noteq> 0" "p = q @ CHR ''.'' # [x, CHR ''s'', CHR ''y'']"
  shows "mine (snd (plock_create p w)) p"
proof -
  from assms(1) obtain n where n: "mktemp (dir_part p @ ''bforce-XXXXXX'') w = Some n"
      "\<not> length (dir_part p) \<le> 1"
    by (auto simp: plock_create_def split: if_splits option.splits)
  obtain rc w1 where pw: "plock_write n w = (rc, w1)" by fastforce
  with assms(1) n have rc: "rc = PLOCK_OK" by (cases rc) (auto simp: plock_create_def)
  with pw plock_write_ok assms(2) have m: "mine w1 n" by blast
  have "n \<noteq> p" using mktemp_no_lock [OF n(1)] assms(3) by blast
  from plock_link_ok [OF _ m this] assms(1) n pw rc show ?thesis by (simp add: plock_create_def)
qed

section \<open>Locking several names\<close>

text \<open>
  The loop over the outbounds, for any way of making one lock: what it leaves alone, and what it
  has got. It is used with \<open>plock_create\<close> and with the link from \<open>.csy\<close> to \<open>.bsy\<close>.
\<close>

locale lock_op =
  fixes mk :: "string \<Rightarrow> lockfs \<Rightarrow> plock \<times> lockfs" and T :: "string set"
  assumes mk_keeps: "keeps T w (snd (mk n w))"
begin

lemma create_keeps: "create_locks ns mk w = (failed, locked, w') \<Longrightarrow>
    keeps T w w' \<and> length locked = length ns \<and> (\<forall>n. Some n \<in> set locked \<longrightarrow> Some n \<in> set ns)"
proof (induction ns arbitrary: w failed locked w')
  case (Cons n ns)
  obtain f l v where rec0: "create_locks ns mk w = (f, l, v)" by (metis prod_cases3)
  show ?case
  proof (cases n)
    case None
    with Cons.prems rec0 Cons.IH [OF rec0] show ?thesis by auto
  next
    case (Some m)
    obtain rc w1 where mk: "mk m w = (rc, w1)" by fastforce
    have k: "keeps T w w1" using mk_keeps [of w m] mk by simp
    obtain f l v where rec: "create_locks ns mk w1 = (f, l, v)" by (metis prod_cases3)
    show ?thesis
      using Cons.prems Some mk rec Cons.IH [OF rec] k keeps_trans [OF k, of v]
      by (auto split: if_splits)
  qed
qed simp

end

text \<open>A way that leaves a lock of ours at \<open>path n\<close> when it succeeds, with no exceptions.\<close>

locale lock_maker = lock_op mk "{}" for mk +
  fixes path :: "string \<Rightarrow> string" and good :: "string \<Rightarrow> bool"
  assumes mk_ok: "good n \<Longrightarrow> mypid w \<noteq> 0 \<Longrightarrow> fst (mk n w) = PLOCK_OK \<Longrightarrow> mine (snd (mk n w)) (path n)"
begin

lemma create_mine:
  "create_locks ns mk w = (failed, locked, w') \<Longrightarrow> mypid w \<noteq> 0 \<Longrightarrow> \<forall>n. Some n \<in> set ns \<longrightarrow> good n \<Longrightarrow>
    Some n \<in> set locked \<Longrightarrow> mine w' (path n)"
proof (induction ns arbitrary: w failed locked w')
  case (Cons a ns)
  obtain f l v where rec0: "create_locks ns mk w = (f, l, v)" by (metis prod_cases3)
  show ?case
  proof (cases a)
    case None
    with Cons.prems rec0 Cons.IH [OF rec0] show ?thesis by auto
  next
    case (Some m)
    obtain rc w1 where mk: "mk m w = (rc, w1)" by fastforce
    have k: "keeps {} w w1" using mk_keeps [of w m] mk by simp
    have pid: "mypid w1 = mypid w" using k same_env_simps(1) by (auto simp: keeps_def)
    obtain f l v where rec: "create_locks ns mk w1 = (f, l, v)" by (metis prod_cases3)
    have v: "keeps {} w1 v" using create_keeps [OF rec] by simp
    show ?thesis
    proof (cases "Some n \<in> set l")
      case True
      with Cons.IH [OF rec] Cons.prems pid Some mk rec show ?thesis by (auto split: if_splits)
    next
      case False
      with Cons.prems Some mk rec have "rc = PLOCK_OK" "m = n" "w' = v" by (auto split: if_splits)
      moreover have "mine w1 (path m)" using mk_ok [of m w] Cons.prems Some mk \<open>rc = PLOCK_OK\<close> by simp
      ultimately show ?thesis using keeps_mine [OF v] by simp
    qed
  qed
qed simp

end

interpretation csy_link: lock_op "\<lambda>n. out_bsy_file_link n ''.csy'' n ''.bsy''" "{p. \<exists>n. p = lock_path n ''.csy''}"
  by unfold_locales (auto simp: out_bsy_file_link_def intro!: plock_link_keeps)

definition short_name :: "string \<Rightarrow> bool" where
  "short_name n \<longleftrightarrow> length n + 4 \<le> BFORCE_MAX_PATH"

lemma lock_path_short: "short_name n \<Longrightarrow> length ext = 4 \<Longrightarrow> lock_path n ext = n @ ext"
  by (simp add: short_name_def lock_path_def)

interpretation bsy_create: lock_maker "\<lambda>n. out_bsy_file_create n ''.bsy''" "\<lambda>n. lock_path n ''.bsy''" short_name
  by unfold_locales (auto simp: out_bsy_file_create_def plock_create_keeps lock_path_short intro!: plock_create_ok)

interpretation csy_create: lock_maker "\<lambda>n. out_bsy_file_create n ''.csy''" "\<lambda>n. lock_path n ''.csy''" short_name
  by unfold_locales (auto simp: out_bsy_file_create_def plock_create_keeps lock_path_short intro!: plock_create_ok)

section \<open>Checks and removals\<close>

lemma any_exist_keeps: "keeps T w (snd (any_exist ns ext w))"
proof (induction ns ext w rule: any_exist.induct)
  case (3 n ns ext w)
  obtain rc w1 where c: "out_bsy_file_check n ext w = (rc, w1)" by fastforce
  have k: "keeps T w w1" using plock_check_keeps [of T w "lock_path n ext"] c by (simp add: out_bsy_file_check_def)
  show ?case using 3 c k keeps_trans [OF k] by auto
qed simp_all

lemma any_exist_live:
  "Some n \<in> set ns \<Longrightarrow> live w (lock_path n ext) \<Longrightarrow> opens w (lock_path n ext) \<Longrightarrow> fst (any_exist ns ext w)"
proof (induction ns ext w rule: any_exist.induct)
  case (3 m ns ext w)
  obtain rc w1 where c: "out_bsy_file_check m ext w = (rc, w1)" by fastforce
  have k: "keeps {} w w1" using plock_check_keeps [of "{}" w "lock_path m ext"] c by (simp add: out_bsy_file_check_def)
  have op: "opens w1 = opens w" using k same_env_simps(7) by (auto simp: keeps_def)
  have e: "rc = PLOCK_EXIST \<longleftrightarrow> live w (lock_path m ext) \<and> opens w (lock_path m ext)"
    using plock_check_live [of "lock_path m ext" w] c by (simp add: out_bsy_file_check_def)
  show ?case
  proof (cases "m = n")
    case True
    with e 3(3,4) c show ?thesis by simp
  next
    case False
    with 3(2) have "Some n \<in> set ns" by simp
    with 3(1) [OF c [symmetric]] keeps_live [OF k _ 3(3)] 3(4) op c show ?thesis
      by (cases "rc = PLOCK_EXIST") simp_all
  qed
qed simp_all

lemma remove_keeps_live: "live w p \<Longrightarrow> live (out_bsy_file_unlink n ext w) p
    \<and> locks (out_bsy_file_unlink n ext w) p = locks w p"
  by (auto simp: out_bsy_file_unlink_def plock_remove_def plock_read_def unlink_def live_def Let_def
      split: option.splits)

lemma remove_env: "same_env w (out_bsy_file_unlink n ext w)"
  by (auto simp: out_bsy_file_unlink_def plock_remove_def unlink_def Let_def)

lemma remove_locks_live: "live w p \<Longrightarrow> live (remove_locks ns ext w) p \<and> locks (remove_locks ns ext w) p = locks w p"
  unfolding remove_locks_def
proof (induction ns arbitrary: w)
  case (Cons n ns)
  then show ?case by (cases n) (auto simp: remove_keeps_live)
qed simp

lemma unlockall_live: "live w p \<Longrightarrow> live (out_bsy_unlockall bs w) p \<and> locks (out_bsy_unlockall bs w) p = locks w p"
  unfolding out_bsy_unlockall_def by (induction bs arbitrary: w) (auto simp: remove_locks_live)

text \<open>A removal of our own file, where the directory allows it, leaves no lock of ours there.\<close>

lemma remove_not_mine:
  "writable w (lock_path n ext) \<Longrightarrow> opens w (lock_path n ext) \<Longrightarrow> \<not> mine (out_bsy_file_unlink n ext w) (lock_path n ext)"
  by (auto simp: out_bsy_file_unlink_def plock_remove_def plock_read_def unlink_def mine_def Let_def
      split: option.splits)

lemma remove_stays_gone: "\<not> mine w p \<Longrightarrow> \<not> mine (out_bsy_file_unlink n ext w) p"
  by (auto simp: out_bsy_file_unlink_def plock_remove_def plock_read_def unlink_def mine_def Let_def
      split: option.splits)

lemma remove_locks_gone:
  "\<not> mine w p \<or> (Some n \<in> set ns \<and> p = lock_path n ext \<and> writable w p \<and> opens w p) \<Longrightarrow> \<not> mine (remove_locks ns ext w) p"
  unfolding remove_locks_def
proof (induction ns arbitrary: w)
  case (Cons m ns)
  show ?case
  proof (cases m)
    case None
    with Cons show ?thesis by auto
  next
    case (Some k)
    let ?w = "out_bsy_file_unlink k ext w"
    have env: "writable ?w = writable w" "opens ?w = opens w"
      using same_env_simps(3,7) [OF remove_env [of w k ext]] by simp_all
    have "\<not> mine ?w p \<or> (Some n \<in> set ns \<and> p = lock_path n ext \<and> writable ?w p \<and> opens ?w p)"
      using Cons.prems Some remove_stays_gone [of w p k ext] remove_not_mine [of w k ext] env by auto
    from Cons.IH [OF this] Some show ?thesis by simp
  qed
qed auto

lemma remove_locks_env: "same_env w (remove_locks ns ext w)"
  unfolding remove_locks_def
proof (induction ns arbitrary: w)
  case (Cons m ns)
  then show ?case
    using same_env_trans [OF remove_env] by (cases m) (auto, blast)
qed simp

section \<open>The lock of an address\<close>

lemma find_csy_none_rec:
  assumes "find_csy addr csy bs = None"
  shows "out_bsy_lock cf addr csy bs w =
    (let lockext = (if csy then ''.csy'' else ''.bsy'');
         names = bsy_names cf addr;
         (failed, w) = any_exist names ''.bsy'' w;
         (failed, w) = (if failed then (True, w) else any_exist names ''.csy'' w);
         (failed, locked, w) =
           (if failed then (True, [None, None, None], w)
            else create_locks names (\<lambda>n. out_bsy_file_create n lockext) w);
         (failed, w) = (if failed then (True, w) else any_exist names ''.bsy'' w)
     in if failed then (-1, bs, remove_locks locked lockext w)
        else (0, bs @ [\<lparr>bsy_addr = addr, name_4d = locked ! 0, name_domain = locked ! 1,
                         name_amiga = locked ! 2, is_csy = csy\<rparr>], w))"
  using assms by (simp add: out_bsy_lock_def)

text \<open>Another process's lock on one of the names, of either kind, makes the call fail.\<close>

lemma lock_fails:
  assumes "find_csy addr csy bs = None" "Some n \<in> set (bsy_names cf addr)"
    "live w (lock_path n ext) \<and> opens w (lock_path n ext)" "ext \<in> {''.bsy'', ''.csy''}"
  shows "fst (out_bsy_lock cf addr csy bs w) = -1"
proof -
  obtain f1 w1 where c1: "any_exist (bsy_names cf addr) ''.bsy'' w = (f1, w1)" by fastforce
  obtain f2 w2 where c2: "any_exist (bsy_names cf addr) ''.csy'' w1 = (f2, w2)" by fastforce
  have "keeps {} w w1" using any_exist_keeps [of "{}" w _ "''.bsy''"] c1 by (metis snd_conv)
  moreover from this have "opens w1 = opens w" using same_env_simps(7) by (auto simp: keeps_def)
  ultimately have "f1 \<or> f2"
    using any_exist_live [OF assms(2), of w "''.bsy''"] any_exist_live [OF assms(2), of w1 "''.csy''"]
      assms(3,4) c1 c2 keeps_live [of "{}" w w1] by auto
  then show ?thesis
    by (cases f1) (simp_all add: find_csy_none_rec [OF assms(1)] c1 c2 Let_def)
qed

lemma lock_keeps_live:
  assumes "find_csy addr csy bs = None" "live w p"
  shows "locks (snd (snd (out_bsy_lock cf addr csy bs w))) p = locks w p"
proof -
  let ?names = "bsy_names cf addr"
  let ?ext = "if csy then ''.csy'' else ''.bsy''"
  obtain f1 w1 where c1: "any_exist ?names ''.bsy'' w = (f1, w1)" by fastforce
  obtain f2 w2 where c2: "any_exist ?names ''.csy'' w1 = (f2, w2)" by fastforce
  obtain f3 locked w3 where c3: "create_locks ?names (\<lambda>n. out_bsy_file_create n ?ext) w2 = (f3, locked, w3)"
    by (metis prod_cases3)
  obtain f4 w4 where c4: "any_exist ?names ''.bsy'' w3 = (f4, w4)" by fastforce
  have k1: "keeps {} w w1" using any_exist_keeps [of "{}" w ?names "''.bsy''"] c1 by simp
  have k2: "keeps {} w1 w2" using any_exist_keeps [of "{}" w1 ?names "''.csy''"] c2 by simp
  have k3: "keeps {} w2 w3" using bsy_create.create_keeps csy_create.create_keeps c3 by (cases csy) auto
  have k4: "keeps {} w3 w4" using any_exist_keeps [of "{}" w3 ?names "''.bsy''"] c4 by simp
  have live: "live v p \<and> locks v p = locks w p" if "keeps {} w v" for v
    using that assms(2) keeps_live [OF that] by (simp add: keeps_def)
  note l = live [OF k1] live [OF keeps_trans [OF k1 k2]] live [OF keeps_trans [OF keeps_trans [OF k1 k2] k3]]
    live [OF keeps_trans [OF keeps_trans [OF keeps_trans [OF k1 k2] k3] k4]]
  show ?thesis
    using l remove_locks_live [of w1 p] remove_locks_live [of w2 p] remove_locks_live [of w3 p] remove_locks_live [of w4 p]
    by (cases f1; cases f2; cases f3; cases f4) (simp_all add: find_csy_none_rec [OF assms(1)] c1 c2 c3 c4 Let_def)
qed

lemma lock_succeeds:
  assumes "out_bsy_lock cf addr csy bs w = (0, bs', w')" "find_csy addr csy bs = None" "mypid w \<noteq> 0"
    "\<forall>n. Some n \<in> set (bsy_names cf addr) \<longrightarrow> short_name n"
  shows "\<exists>b. bs' = bs @ [b] \<and> bsy_addr b = addr \<and> is_csy b = csy \<and> keeps {} w w' \<and>
    (\<forall>n. Some n \<in> {name_4d b, name_domain b, name_amiga b} \<longrightarrow>
       Some n \<in> set (bsy_names cf addr) \<and> mine w' (lock_path n (if csy then ''.csy'' else ''.bsy'')))"
proof -
  let ?names = "bsy_names cf addr"
  let ?ext = "if csy then ''.csy'' else ''.bsy''"
  obtain f1 w1 where c1: "any_exist ?names ''.bsy'' w = (f1, w1)" by fastforce
  obtain f2 w2 where c2: "any_exist ?names ''.csy'' w1 = (f2, w2)" by fastforce
  obtain f3 locked w3 where c3: "create_locks ?names (\<lambda>n. out_bsy_file_create n ?ext) w2 = (f3, locked, w3)"
    by (metis prod_cases3)
  obtain f4 w4 where c4: "any_exist ?names ''.bsy'' w3 = (f4, w4)" by fastforce
  have ok: "\<not> f1" "\<not> f2" "\<not> f3" "\<not> f4"
    and res: "w' = w4" "bs' = bs @ [\<lparr>bsy_addr = addr, name_4d = locked ! 0, name_domain = locked ! 1,
                         name_amiga = locked ! 2, is_csy = csy\<rparr>]"
    using assms(1) by (auto simp: find_csy_none_rec [OF assms(2)] c1 c2 c3 c4 Let_def split: if_splits)
  have k12: "keeps {} w w2"
    using keeps_trans [of "{}" w w1 w2] any_exist_keeps [of "{}" w ?names "''.bsy''"]
      any_exist_keeps [of "{}" w1 ?names "''.csy''"] c1 c2 by simp
  have k34: "keeps {} w3 w4" using any_exist_keeps [of "{}" w3 ?names "''.bsy''"] c4 by simp
  have cr: "keeps {} w2 w3 \<and> length locked = length ?names \<and> (\<forall>n. Some n \<in> set locked \<longrightarrow> Some n \<in> set ?names)"
    using bsy_create.create_keeps csy_create.create_keeps c3 by (cases csy) auto
  have pid: "mypid w2 \<noteq> 0" using k12 assms(3) same_env_simps(1) by (auto simp: keeps_def)
  have got: "mine w3 (lock_path n ?ext)" if "Some n \<in> set locked" for n
    using bsy_create.create_mine [OF _ pid assms(4) that] csy_create.create_mine [OF _ pid assms(4) that] c3
    by (cases csy) auto
  have len: "length locked = 3" using cr by (simp add: bsy_names_def)
  then have "locked ! 0 \<in> set locked" "locked ! 1 \<in> set locked" "locked ! 2 \<in> set locked" by simp_all
  then have mem: "Some n \<in> {locked ! 0, locked ! 1, locked ! 2} \<Longrightarrow> Some n \<in> set locked" for n
    by auto
  have each: "Some n \<in> set ?names \<and> mine w' (lock_path n ?ext)" if "Some n \<in> {locked ! 0, locked ! 1, locked ! 2}" for n
    using mem [OF that] cr got [of n] keeps_mine [OF k34] res(1) by blast
  have "keeps {} w w'"
    using keeps_trans [OF k12 keeps_trans [OF _ k34]] cr res(1) by blast
  with each res(2) show ?thesis by (intro exI [of _ "last bs'"]) simp
qed

section \<open>Properties\<close>

text \<open>A configuration and a system for the examples: one Amiga style outbound, process 8.\<close>

definition lock_example_cf :: outbounds where
  "lock_example_cf = \<lparr>cf_outbound_directory = None, cf_address = None, cf_domain = [],
     cf_amiga_outbound_directory = Some ''/o/''\<rparr>"

definition lock_example_fs :: lockfs where
  "lock_example_fs = \<lparr>locks = (\<lambda>_. None), running = (\<lambda>p. p = 8 \<or> p = 9), mypid = 8, writable = (\<lambda>_. True), opens = (\<lambda>_. True),
     disk_full = False, tmpname = (\<lambda>_. ''abcdef''), stale_errno = False\<rparr>"

text \<open>
  C6: locks exclude. Suppose \<open>out_bsy_lock\<close> gives a process the lock of an address, either kind, and with it a file in
  at least one outbound (the names of the outbounds fit the array, and process numbers are not 0). Then another
  process that does not hold the address itself is refused, with either kind of lock, as long as the first one lives,
  its file is there as it was written, and the other can open that file. The attempt leaves the file as it is.
\<close>

theorem bsy_mutual_exclusion:
  assumes "out_bsy_lock cf addr csy bs w = (0, bs @ [b], w1)" "find_csy addr csy bs = None"
    "Some n \<in> {name_4d b, name_domain b, name_amiga b}"
    "\<forall>n. Some n \<in> set (bsy_names cf addr) \<longrightarrow> short_name n" "mypid w \<noteq> 0"
    "path = lock_path n (if csy then ''.csy'' else ''.bsy'')" "locks w2 path = locks w1 path" "opens w2 path"
    "running w2 (mypid w)" "mypid w2 \<noteq> mypid w" "find_csy addr csy2 bs2 = None"
  shows "fst (out_bsy_lock cf addr csy2 bs2 w2) = -1
    \<and> locks (snd (snd (out_bsy_lock cf addr csy2 bs2 w2))) path = Some (mypid w)"
proof -
  from lock_succeeds [OF assms(1,2,5,4)] assms(3,6)
  have b: "Some n \<in> set (bsy_names cf addr)" "mine w1 path" "keeps {} w w1" by auto
  have pid: "mypid w1 = mypid w" using b(3) same_env_simps(1) by (auto simp: keeps_def)
  have l: "live w2 path" using b(2) assms(5,7,9,10) pid by (auto simp: live_def mine_def)
  have fail: "fst (out_bsy_lock cf addr csy2 bs2 w2) = -1"
    using lock_fails [OF assms(11) b(1), of w2 "''.csy''"] lock_fails [OF assms(11) b(1), of w2 "''.bsy''"] l assms(6,8)
    by (cases csy) simp_all
  moreover have "locks w2 path = Some (mypid w)" using b(2) assms(7) pid by (simp add: mine_def)
  ultimately show ?thesis using lock_keeps_live [OF assms(11) l, of cf] by simp
qed

theorem bsy_mutual_exclusion_witness:
  "fst (out_bsy_lock lock_example_cf zero_faddr True []
     ((snd (snd (out_bsy_lock lock_example_cf zero_faddr False [] lock_example_fs)))\<lparr>mypid := 9\<rparr>)) = -1
   \<and> locks (snd (snd (out_bsy_lock lock_example_cf zero_faddr True []
     ((snd (snd (out_bsy_lock lock_example_cf zero_faddr False [] lock_example_fs)))\<lparr>mypid := 9\<rparr>))))
       (lock_path ''/o/0.0.0.0'' ''.bsy'') = Some (mypid lock_example_fs)"
proof (rule bsy_mutual_exclusion)
  let ?r = "out_bsy_lock lock_example_cf zero_faddr False [] lock_example_fs"
  let ?b = "\<lparr>bsy_addr = zero_faddr, name_4d = None, name_domain = None, name_amiga = Some ''/o/0.0.0.0'', is_csy = False\<rparr>"
  have "fst ?r = 0" by code_simp
  moreover have "fst (snd ?r) = [?b]" by code_simp
  ultimately show "?r = (0, [] @ [?b], snd (snd ?r))" by (cases ?r) simp
  show "Some ''/o/0.0.0.0'' \<in> {name_4d ?b, name_domain ?b, name_amiga ?b}" by simp
  show "lock_path ''/o/0.0.0.0'' ''.bsy'' = lock_path ''/o/0.0.0.0'' (if False then ''.csy'' else ''.bsy'')" by simp
  show "running (snd (snd ?r)\<lparr>mypid := 9\<rparr>) (mypid lock_example_fs)" by code_simp
  show "opens (snd (snd ?r)\<lparr>mypid := 9\<rparr>) (lock_path ''/o/0.0.0.0'' ''.bsy'')" by code_simp
  have "bsy_names lock_example_cf zero_faddr = [None, None, Some ''/o/0.0.0.0'']" by code_simp
  then show "\<forall>n. Some n \<in> set (bsy_names lock_example_cf zero_faddr) \<longrightarrow> short_name n"
    by (simp add: short_name_def BFORCE_MAX_PATH_def)
  show "mypid (snd (snd ?r)\<lparr>mypid := 9\<rparr>) \<noteq> mypid lock_example_fs" "mypid lock_example_fs \<noteq> 0"
    by (simp_all add: lock_example_fs_def)
qed simp_all

text \<open>
  \<open>out_bsy_unlockall\<close> gives every lock back and takes nobody else's: where the directory allows
  it and the file can be opened, no file that the list names carries our number afterwards, and the lock of every other living
  process is as before, on every path.
\<close>

theorem unlockall_releases:
  assumes "b \<in> set bs" "Some n \<in> {name_4d b, name_domain b, name_amiga b}"
    "path = lock_path n (if is_csy b then ''.csy'' else ''.bsy'')" "writable w path" "opens w path"
  shows "\<not> mine (out_bsy_unlockall bs w) path
    \<and> locks (out_bsy_unlockall bs w) |` {p. live w p} = locks w |` {p. live w p}"
proof
  have gone: "\<not> mine v path \<Longrightarrow> \<not> mine (out_bsy_unlockall cs v) path" for cs v
    unfolding out_bsy_unlockall_def
    by (induction cs arbitrary: v) (auto simp: remove_locks_gone)
  show "\<not> mine (out_bsy_unlockall bs w) path"
    using assms(1,4,5)
  proof (induction bs arbitrary: w)
    case (Cons c cs)
    let ?w = "remove_locks [name_4d c, name_domain c, name_amiga c] (if is_csy c then ''.csy'' else ''.bsy'') w"
    have unf: "out_bsy_unlockall (c # cs) w = out_bsy_unlockall cs ?w" by (simp add: out_bsy_unlockall_def)
    show ?case
    proof (cases "c = b")
      case True
      have "\<not> mine ?w path"
        using assms(2) Cons.prems(2,3) True by (intro remove_locks_gone) (auto simp: assms(3))
      then show ?thesis unfolding unf by (rule gone)
    next
      case False
      then show ?thesis
        unfolding unf using Cons same_env_simps(3,7) [OF remove_locks_env] by simp
    qed
  qed simp
  show "locks (out_bsy_unlockall bs w) |` {p. live w p} = locks w |` {p. live w p}"
    using unlockall_live by (auto simp: restrict_map_def)
qed

theorem unlockall_releases_witness:
  "\<not> mine (out_bsy_unlockall [\<lparr>bsy_addr = zero_faddr, name_4d = Some ''/o/x'', name_domain = None, name_amiga = None, is_csy = True\<rparr>]
       (lock_example_fs\<lparr>locks := [''/o/x.csy'' \<mapsto> 8, ''/o/y.bsy'' \<mapsto> 9]\<rparr>)) (lock_path ''/o/x'' ''.csy'')
   \<and> locks (out_bsy_unlockall [\<lparr>bsy_addr = zero_faddr, name_4d = Some ''/o/x'', name_domain = None, name_amiga = None, is_csy = True\<rparr>]
         (lock_example_fs\<lparr>locks := [''/o/x.csy'' \<mapsto> 8, ''/o/y.bsy'' \<mapsto> 9]\<rparr>))
       |` {p. live (lock_example_fs\<lparr>locks := [''/o/x.csy'' \<mapsto> 8, ''/o/y.bsy'' \<mapsto> 9]\<rparr>) p}
     = locks (lock_example_fs\<lparr>locks := [''/o/x.csy'' \<mapsto> 8, ''/o/y.bsy'' \<mapsto> 9]\<rparr>)
       |` {p. live (lock_example_fs\<lparr>locks := [''/o/x.csy'' \<mapsto> 8, ''/o/y.bsy'' \<mapsto> 9]\<rparr>) p}"
  by (rule unlockall_releases [where b = "\<lparr>bsy_addr = zero_faddr, name_4d = Some ''/o/x'', name_domain = None, name_amiga = None, is_csy = True\<rparr>"
        and n = "''/o/x''"]) (simp_all add: lock_example_fs_def)

text \<open>
  a conversion from \<open>.csy\<close> to \<open>.bsy\<close> that meets another living process's \<open>.bsy\<close> fails, but although
  the code means to leave the \<open>.csy\<close> file untouched, the file is gone: \<open>plock_link\<close> removes it, and the
  address is left without any lock of ours while the list still has it as locked.
\<close>

theorem failed_conversion_drops_csy:
  assumes "is_csy b" "name_4d b = Some n" "short_name n"
    "mine w (n @ ''.csy'')" "live w (n @ ''.bsy'')" "writable w (n @ ''.csy'')" "opens w (n @ ''.bsy'')"
  shows "\<exists>w'. out_bsy_convert_csy_to_bsy b w = (1, b, w') \<and> locks w' (n @ ''.csy'') = None"
proof -
  let ?csy = "n @ ''.csy''" and ?bsy = "n @ ''.bsy''"
  have p: "lock_path n ''.csy'' = ?csy" "lock_path n ''.bsy'' = ?bsy"
    using lock_path_short [OF assms(3)] by simp_all
  from assms(5) have "link ?csy ?bsy w = (Exists, w)"
    using assms(4) by (auto simp: link_def live_def mine_def)
  moreover have "fst (plock_check ?bsy w) = PLOCK_EXIST" using assms(5,7) by (simp add: plock_check_live)
  moreover have "snd (plock_check ?bsy w) = w"
    using assms(5,7) by (auto simp: plock_check_def plock_read_def live_def Let_def)
  ultimately have l: "plock_link ?bsy ?csy w = (PLOCK_EXIST, snd (unlink ?csy w))"
    by (cases "plock_check ?bsy w") (simp add: plock_link_def)
  have "locks (snd (unlink ?csy w)) ?csy = None"
    using assms(4,6) by (simp add: unlink_def mine_def)
  then show ?thesis
    using assms(1,2) by (simp add: out_bsy_convert_csy_to_bsy_def out_bsy_file_link_def p l remove_locks_def)
qed

theorem failed_conversion_drops_csy_witness:
  "\<exists>w'. out_bsy_convert_csy_to_bsy
      \<lparr>bsy_addr = zero_faddr, name_4d = Some ''/o/x'', name_domain = None, name_amiga = None, is_csy = True\<rparr>
      (lock_example_fs\<lparr>locks := [''/o/x.csy'' \<mapsto> 8, ''/o/x.bsy'' \<mapsto> 9]\<rparr>)
    = (1, \<lparr>bsy_addr = zero_faddr, name_4d = Some ''/o/x'', name_domain = None, name_amiga = None, is_csy = True\<rparr>, w')
    \<and> locks w' (''/o/x'' @ ''.csy'') = None"
  by (rule failed_conversion_drops_csy)
    (simp_all add: lock_example_fs_def mine_def live_def short_name_def BFORCE_MAX_PATH_def)

text \<open>
  A lock file that cannot be opened is no error for the one who wants the lock: \<open>out_bsy_lock\<close> returns success and
  puts an entry without any file on the list, while process 9 lives and has the address.
\<close>

lemma unreadable_lock_ignored:
  "let w = lock_example_fs\<lparr>locks := [''/o/0.0.0.0.bsy'' \<mapsto> 9], opens := (\<lambda>_. False)\<rparr>;
       r = out_bsy_lock lock_example_cf zero_faddr False [] w
   in live w ''/o/0.0.0.0.bsy'' \<and> fst r = 0
      \<and> fst (snd r) = [\<lparr>bsy_addr = zero_faddr, name_4d = None, name_domain = None, name_amiga = None, is_csy = False\<rparr>]
      \<and> locks (snd (snd r)) ''/o/0.0.0.0.bsy'' = Some 9"
proof -
  let ?w = "lock_example_fs\<lparr>locks := [''/o/0.0.0.0.bsy'' \<mapsto> 9], opens := (\<lambda>_. False)\<rparr>"
  let ?r = "out_bsy_lock lock_example_cf zero_faddr False [] ?w"
  have "live ?w ''/o/0.0.0.0.bsy''" by (simp add: live_def lock_example_fs_def)
  moreover have "fst ?r = 0" by code_simp
  moreover have "fst (snd ?r)
      = [\<lparr>bsy_addr = zero_faddr, name_4d = None, name_domain = None, name_amiga = None, is_csy = False\<rparr>]"
    by code_simp
  moreover have "locks (snd (snd ?r)) ''/o/0.0.0.0.bsy'' = Some 9" by code_simp
  ultimately show ?thesis by (simp add: Let_def)
qed

end
