(* ===== verification/UTime.thy ===== *)
theory UTime
  imports UMisc CNum "HOL-Library.Signed_Division"
begin

text \<open>
  Times (\<open>u_time.c\<close>): timers, the offset from Greenwich, the texts of times, and the time intervals
  of the configuration (working hours). The clock (\<open>time\<close>, \<open>localtime\<close>, \<open>gmtime\<close>) is an argument.
  \<open>strftime\<close> and \<open>ctime\<close> only format for the log and are left out.
\<close>

section \<open>The code\<close>

subsection \<open>Timers\<close>

definition time_settimer :: "int \<Rightarrow> int \<Rightarrow> int" where
  "time_settimer now value = now + value"

definition time_timerout :: "int \<Rightarrow> int \<Rightarrow> bool" where
  "time_timerout now timer \<longleftrightarrow> timer > 0 \<and> now \<ge> timer"

definition time_timeleft :: "int \<Rightarrow> int \<Rightarrow> int" where
  "time_timeleft now timer = (if timer > 0 then max (now - timer) 0 else 0)"

definition time_elapsed :: "int \<Rightarrow> int \<Rightarrow> int" where
  "time_elapsed now since_time =
     (if since_time > 0 then (let yield = to_int (now - since_time) in if yield > 0 then yield else 0)
      else 0)"

definition timer_expired :: "int \<Rightarrow> int \<Rightarrow> bool" where
  "timer_expired now tm \<longleftrightarrow> now > tm"

definition timer_running :: "int \<Rightarrow> bool" where
  "timer_running tm \<longleftrightarrow> tm > 0"

subsection \<open>Broken-down times\<close>

record tm =
  tm_sec :: int
  tm_min :: int
  tm_hour :: int
  tm_mday :: int
  tm_mon :: int
  tm_year :: int
  tm_wday :: int
  tm_yday :: int

definition time_gmtoffset :: "tm \<Rightarrow> tm \<Rightarrow> int" where
  "time_gmtoffset gmt local =
     (let tz = tm_yday gmt - tm_yday local;
          tz = (if tz > 1 then -24 else if tz < -1 then 24 else tz * 24);
          tz = tz + (tm_hour gmt - tm_hour local)
      in tz * 60 + (tm_min gmt - tm_min local))"

definition localtogmt :: "int \<Rightarrow> int \<Rightarrow> int" where
  "localtogmt offset t = t - offset * 60"

definition gmttolocal :: "int \<Rightarrow> int \<Rightarrow> int" where
  "gmttolocal offset t = t + offset * 60"

text \<open>\<open>%0wd\<close>: a minus sign counts for the width.\<close>

definition fmt_0d :: "nat \<Rightarrow> int \<Rightarrow> string" where
  "fmt_0d w v = (if v < 0 then CHR ''-'' # pad0 (w - 1) (dec (nat (- v))) else pad0 w (dec (nat v)))"

definition time_string_gmtoffset :: "int \<Rightarrow> string" where
  "time_string_gmtoffset tz =
     (if tz > 0 then ''+'' else ''-'') @ fmt_0d 2 (tz sdiv 60) @ fmt_0d 2 (tz smod 60)"

definition months :: "string list" where
  "months = [''Jan'',''Feb'',''Mar'',''Apr'',''May'',''Jun'',''Jul'',''Aug'',''Sep'',''Oct'',''Nov'',''Dec'']"

definition time_string_log :: "tm \<Rightarrow> string" where
  "time_string_log ptm =
     months ! nat (tm_mon ptm) @ '' '' @ fmt_0d 2 (tm_mday ptm) @ '' '' @ fmt_0d 2 (tm_hour ptm) @ '':''
     @ fmt_0d 2 (tm_min ptm) @ '':'' @ fmt_0d 2 (tm_sec ptm)"

definition time_string_msghdr :: "tm \<Rightarrow> string" where
  "time_string_msghdr ptm =
     fmt_0d 2 (tm_mday ptm) @ '' '' @ months ! nat (tm_mon ptm) @ '' ''
     @ fmt_0d 2 (if tm_year ptm < 100 then tm_year ptm else tm_year ptm smod 100) @ ''  ''
     @ fmt_0d 2 (tm_hour ptm) @ '':'' @ fmt_0d 2 (tm_min ptm) @ '':'' @ fmt_0d 2 (tm_sec ptm)"

definition time_string_timer :: "int \<Rightarrow> string" where
  "time_string_timer timer =
     (let hour = timer sdiv 3600; min = (timer smod 3600) sdiv 60; sec = timer smod 60 in
      if hour \<noteq> 0
      then fmt_0d 2 (if hour < 100 then hour else 99) @ '':'' @ fmt_0d 2 min @ '':'' @ fmt_0d 2 sec
      else fmt_0d 2 min @ '':'' @ fmt_0d 2 sec)"

definition time_string_approx_interval :: "int \<Rightarrow> string" where
  "time_string_approx_interval seconds =
     (if seconds < 0 then ''error''
      else if seconds = 0 then ''up-to-date''
      else if seconds = 1 then ''1 second''
      else if seconds < 60 then dec_int seconds @ '' seconds''
      else if seconds < 120 then ''1 minute''
      else if seconds < 3600 then dec_int (seconds sdiv 60) @ '' minutes''
      else if seconds < 7200 then ''1 hour''
      else if seconds < 86400 then dec_int (seconds sdiv 3600) @ '' hours''
      else if seconds < 172800 then ''1 day''
      else if seconds < 999 * 86400 then dec_int (seconds sdiv 86400) @ '' days''
      else dec_int (seconds sdiv (366 * 86400)) @ '' years'')"

subsection \<open>Reading an interval\<close>

text \<open>
  \<open>sscanf\<close> with \<open>%d\<close> and a field width: white space is skipped, then at most that many characters
  are a number. The format \<open>%02d:%02d-%02d:%02d\<close> has the width 2.
\<close>

definition scan_int :: "nat \<Rightarrow> string \<Rightarrow> (int \<times> string) option" where
  "scan_int width s =
     (let t = dropWhile isspace s; f = take width t; (v, r) = strtol 10 f in
      if r = f then None else Some (to_int v, r @ drop width t))"

definition scan_char :: "char \<Rightarrow> string \<Rightarrow> string option" where
  "scan_char c s = (if s \<noteq> [] \<and> hd s = c then Some (tl s) else None)"

definition scan_hours :: "string \<Rightarrow> (int \<times> int \<times> int \<times> int) option" where
  "scan_hours s =
     Option.bind (scan_int 2 s) (\<lambda>(h1, s).
     Option.bind (scan_char (CHR '':'') s) (\<lambda>s.
     Option.bind (scan_int 2 s) (\<lambda>(m1, s).
     Option.bind (scan_char (CHR ''-'') s) (\<lambda>s.
     Option.bind (scan_int 2 s) (\<lambda>(h2, s).
     Option.bind (scan_char (CHR '':'') s) (\<lambda>s.
     Option.bind (scan_int 2 s) (\<lambda>(m2, s). Some (h1, m1, h2, m2))))))))"

definition strncasecmp_eq :: "string \<Rightarrow> string \<Rightarrow> nat \<Rightarrow> bool" where
  "strncasecmp_eq a b n \<longleftrightarrow> map tolower (take n a) = map tolower (take n b)"

datatype day =
  DAY_MONDAY | DAY_TUESDAY | DAY_WEDNESDAY | DAY_THURSDAY | DAY_FRIDAY | DAY_SATURDAY | DAY_SUNDAY
| DAY_ANY | DAY_WORKDAY | DAY_WEEKEND | DAY_UNDEF

text \<open>The enumeration is ordered by its values.\<close>

fun day_num :: "day \<Rightarrow> nat" where
  "day_num DAY_MONDAY = 0" | "day_num DAY_TUESDAY = 1" | "day_num DAY_WEDNESDAY = 2"
| "day_num DAY_THURSDAY = 3" | "day_num DAY_FRIDAY = 4" | "day_num DAY_SATURDAY = 5"
| "day_num DAY_SUNDAY = 6" | "day_num DAY_ANY = 7" | "day_num DAY_WORKDAY = 8"
| "day_num DAY_WEEKEND = 9" | "day_num DAY_UNDEF = 10"

lemma day_num_inj: "day_num a = day_num b \<Longrightarrow> a = b"
  by (cases a; cases b) simp_all

instantiation day :: linorder
begin
definition less_eq_day :: "day \<Rightarrow> day \<Rightarrow> bool" where "a \<le> b \<longleftrightarrow> day_num a \<le> day_num b"
definition less_day :: "day \<Rightarrow> day \<Rightarrow> bool" where "a < b \<longleftrightarrow> day_num a < day_num b"
instance
  by standard (auto simp: less_eq_day_def less_day_def dest: day_num_inj)
end

text \<open>The name of a day at the start of a string.\<close>

definition day_of :: "string \<Rightarrow> day" where
  "day_of str =
     (if strncasecmp_eq str ''Sun'' 3 then DAY_SUNDAY
      else if strncasecmp_eq str ''Mon'' 3 then DAY_MONDAY
      else if strncasecmp_eq str ''Tue'' 3 then DAY_TUESDAY
      else if strncasecmp_eq str ''Wed'' 3 then DAY_WEDNESDAY
      else if strncasecmp_eq str ''Thu'' 3 then DAY_THURSDAY
      else if strncasecmp_eq str ''Fri'' 3 then DAY_FRIDAY
      else if strncasecmp_eq str ''Sat'' 3 then DAY_SATURDAY
      else if strncasecmp_eq str ''Any'' 3 then DAY_ANY
      else if strncasecmp_eq str ''Wk'' 2 then DAY_WORKDAY
      else if strncasecmp_eq str ''We'' 2 then DAY_WEEKEND
      else DAY_UNDEF)"

subsection \<open>Interval lists\<close>

record s_timeint =
  day_beg :: day
  day_end :: day
  ti_beg :: int
  ti_end :: int

type_synonym s_timevec = "s_timeint list"

definition TIMEVEC_MAX_ELEMENTS :: nat where "TIMEVEC_MAX_ELEMENTS = 10"

definition timevec_add :: "s_timevec \<Rightarrow> day \<Rightarrow> day \<Rightarrow> int \<Rightarrow> int \<Rightarrow> int \<times> s_timevec" where
  "timevec_add dest db de b e =
     (if \<exists>t\<in>set dest. day_beg t \<le> db \<and> day_end t \<ge> de \<and> ti_beg t = b \<and> ti_end t = e then (0, dest)
      else if length dest \<ge> TIMEVEC_MAX_ELEMENTS then (-1, dest)
      else (0, dest @ [\<lparr>day_beg = db, day_end = de, ti_beg = b, ti_end = e\<rparr>]))"

definition timevec_parse :: "s_timevec \<Rightarrow> string \<Rightarrow> int \<times> s_timevec" where
  "timevec_parse dest str =
     (let beg_day = day_of str; end_day = beg_day;
          str = (if DAY_MONDAY \<le> beg_day \<and> beg_day \<le> DAY_SUNDAY then drop 3 str
                 else if beg_day = DAY_ANY then drop 3 str
                 else if beg_day = DAY_WORKDAY \<or> beg_day = DAY_WEEKEND then drop 2 str
                 else str)
      in case scan_hours str of
           None \<Rightarrow> (-1, dest)
         | Some (beg_hour, beg_min, end_hour, end_min) \<Rightarrow>
             (let b = beg_hour * 60 + beg_min; e = end_hour * 60 + end_min in
              if b = e then (-1, dest)
              else
                (0, snd (if beg_day \<le> DAY_SUNDAY then timevec_add dest beg_day end_day b e
                         else if beg_day = DAY_WORKDAY then timevec_add dest DAY_MONDAY DAY_FRIDAY b e
                         else if beg_day = DAY_WEEKEND then timevec_add dest DAY_SATURDAY DAY_SUNDAY b e
                         else timevec_add dest DAY_MONDAY DAY_SUNDAY b e))))"

text \<open>\<open>strtok\<close> with one separator gives the tokens that \<open>string_token\<close> gives.\<close>

fun parse_pieces :: "s_timevec \<Rightarrow> string list \<Rightarrow> int \<Rightarrow> int \<times> s_timevec" where
  "parse_pieces dest [] rc = (rc, dest)"
| "parse_pieces dest (p # ps) rc =
     (case timevec_parse dest p of (r, dest) \<Rightarrow> parse_pieces dest ps (if r = -1 then -1 else rc))"

definition timevec_parse_list :: "s_timevec \<Rightarrow> string \<Rightarrow> int \<times> s_timevec" where
  "timevec_parse_list dest str = parse_pieces dest (string_tokens (Some str) '','' False) 0"

definition wday_day :: "int \<Rightarrow> day" where
  "wday_day w =
     (if w = 0 then DAY_SUNDAY else if w = 1 then DAY_MONDAY else if w = 2 then DAY_TUESDAY
      else if w = 3 then DAY_WEDNESDAY else if w = 4 then DAY_THURSDAY else if w = 5 then DAY_FRIDAY
      else if w = 6 then DAY_SATURDAY else DAY_UNDEF)"

definition in_hours :: "int \<Rightarrow> int \<Rightarrow> int \<Rightarrow> bool" where
  "in_hours cur b e \<longleftrightarrow> (if e > b then cur \<ge> b \<and> cur \<le> e else cur \<ge> b \<or> cur \<le> e)"

definition timevec_check :: "s_timevec \<Rightarrow> tm \<Rightarrow> int" where
  "timevec_check tv now =
     (let cur = tm_hour now * 60 + tm_min now; cur_day = wday_day (tm_wday now) in
      if cur_day = DAY_UNDEF then -1
      else if \<exists>t\<in>set tv. cur_day \<ge> day_beg t \<and> cur_day \<le> day_end t \<and> in_hours cur (ti_beg t) (ti_end t)
      then 0 else 1)"

definition timevec_isdefined :: "s_timevec \<Rightarrow> bool" where
  "timevec_isdefined tv \<longleftrightarrow> length tv \<noteq> 0"

definition timevec_isnow :: "s_timevec \<Rightarrow> tm \<Rightarrow> bool" where
  "timevec_isnow tv now \<longleftrightarrow> timevec_check tv now = 0"

definition hhmm :: "int \<Rightarrow> string" where
  "hhmm t = fmt_0d 2 (t sdiv 60) @ '':'' @ fmt_0d 2 (t smod 60)"

definition interval_string :: "s_timeint \<Rightarrow> string" where
  "interval_string t =
     (if day_beg t = DAY_MONDAY \<and> day_end t = DAY_SUNDAY
      then hhmm (ti_beg t) @ ''-'' @ hhmm (ti_end t) @ '',''
      else if day_beg t = day_end t
      then dec (day_num (day_beg t)) @ ''.'' @ hhmm (ti_beg t) @ ''-'' @ hhmm (ti_end t) @ '',''
      else dec (day_num (day_beg t)) @ ''.'' @ hhmm (ti_beg t) @ ''-'' @ dec (day_num (day_end t)) @ ''.''
           @ hhmm (ti_end t) @ '','')"

definition timevec_string :: "s_timevec \<Rightarrow> string" where
  "timevec_string tv = butlast (concat (map interval_string tv))"

subsection \<open>The intervals of expressions\<close>

text \<open>The days of \<open>time_check\<close>: a day of the week, or one of the codes -1 to -4.\<close>

definition check_day :: "string \<Rightarrow> int" where
  "check_day str =
     (case day_of str of
        DAY_SUNDAY \<Rightarrow> 0 | DAY_MONDAY \<Rightarrow> 1 | DAY_TUESDAY \<Rightarrow> 2 | DAY_WEDNESDAY \<Rightarrow> 3 | DAY_THURSDAY \<Rightarrow> 4
      | DAY_FRIDAY \<Rightarrow> 5 | DAY_SATURDAY \<Rightarrow> 6 | DAY_ANY \<Rightarrow> -1 | DAY_WORKDAY \<Rightarrow> -2 | DAY_WEEKEND \<Rightarrow> -3
      | DAY_UNDEF \<Rightarrow> -4)"

definition time_check :: "string \<Rightarrow> tm \<Rightarrow> int" where
  "time_check str now =
     (if str = [] then 1
      else
        let day = check_day str;
            (dayok, str) =
              (if day \<ge> 0 then (tm_wday now = day, drop 3 str)
               else if day = -3 then (tm_wday now = 0 \<or> tm_wday now = 6, drop 2 str)
               else if day = -2 then (tm_wday now \<noteq> 0 \<and> tm_wday now \<noteq> 6, drop 2 str)
               else if day = -1 then (True, drop 3 str)
               else (True, str))
        in if \<not> dayok then 1
           else if str = [] then (if day = -4 then -1 else 0)
           else case scan_hours str of
                  None \<Rightarrow> -1
                | Some (h1, m1, h2, m2) \<Rightarrow>
                    (let cur = tm_hour now * 60 + tm_min now; b = h1 * 60 + m1; e = h2 * 60 + m2 in
                     if in_hours cur b e then 0 else 1))"

fun check_pieces :: "string list \<Rightarrow> tm \<Rightarrow> int" where
  "check_pieces [] now = 1"
| "check_pieces (p # ps) now =
     (let r = time_check p now in if r = 0 then 0 else if r = -1 then -1 else check_pieces ps now)"

definition time_checkintervals :: "string \<Rightarrow> tm \<Rightarrow> int" where
  "time_checkintervals timestr now = check_pieces (string_tokens (Some timestr) '','' False) now"

section \<open>The scanner\<close>

abbreviation two :: "nat \<Rightarrow> string" where "two n \<equiv> pad0 2 (dec n)"

lemma two_digits: "c \<in> set (two n) \<Longrightarrow> isdigit c"
  using pad0_digits [of 10 c 2 n] digit_val_nondigit [of c] by auto

lemma length_two: "n < 100 \<Longrightarrow> length (two n) = 2"
  by (rule pad0_length) simp_all

lemma scan_two [simp]:
  assumes "n < 100"
  shows "scan_int 2 (two n @ rest) = Some (int n, rest)"
proof -
  have len: "length (two n) = 2" using assms by (rule length_two)
  then have ne: "two n \<noteq> []" by auto
  have dig: "\<forall>c\<in>set (two n). digit_val c < 10 \<and> \<not> isspace c \<and> c \<noteq> CHR ''-'' \<and> c \<noteq> CHR ''+''"
    using two_digits isdigit_vals by blast
  have val: "radix_val 10 (two n) = n" by (simp add: pad0_def radix_val_zeros)
  have "dropWhile isspace (two n @ rest) = two n @ rest"
    using dig ne by (cases "two n") auto
  moreover have "strtol 10 (two n @ []) = (int (radix_val 10 (two n)), [])"
    by (rule strtol_digits [OF dig ne]) (use val assms in simp_all)
  then have "strtol 10 (two n) = (int n, [])" using val by simp
  moreover have "to_int (int n) = int n" using assms by (intro to_int_small) auto
  ultimately show ?thesis using len ne by (simp add: scan_int_def)
qed

lemma scan_char_same [simp]: "scan_char c (c # s) = Some s"
  by (simp add: scan_char_def)

definition hours_text :: "nat \<Rightarrow> nat \<Rightarrow> nat \<Rightarrow> nat \<Rightarrow> string" where
  "hours_text h1 m1 h2 m2 = two h1 @ '':'' @ two m1 @ ''-'' @ two h2 @ '':'' @ two m2"

lemma scan_hours_text [simp]:
  assumes "h1 < 100" "m1 < 100" "h2 < 100" "m2 < 100"
  shows "scan_hours (hours_text h1 m1 h2 m2) = Some (int h1, int m1, int h2, int m2)"
  using assms scan_two [of m2 "[]"] by (simp add: scan_hours_def hours_text_def)

lemma hours_text_hd: "isdigit (hd (hours_text h1 m1 h2 m2))" "hours_text h1 m1 h2 m2 \<noteq> []"
proof -
  have "two h1 \<noteq> []" by (simp add: pad0_def)
  then have "hd (hours_text h1 m1 h2 m2) \<in> set (two h1)" by (simp add: hours_text_def)
  then show "isdigit (hd (hours_text h1 m1 h2 m2))" by (rule two_digits)
  show "hours_text h1 m1 h2 m2 \<noteq> []" by (simp add: hours_text_def)
qed

section \<open>The days\<close>

text \<open>
  The names of the configuration with the days of the week they stand for, in the numbering of
  \<open>struct tm\<close>, and the range of the enumeration they are stored as.
\<close>

definition day_names :: "(string \<times> int set \<times> day \<times> day) list" where
  "day_names =
     [(''Sun'', {0}, DAY_SUNDAY, DAY_SUNDAY), (''Mon'', {1}, DAY_MONDAY, DAY_MONDAY),
      (''Tue'', {2}, DAY_TUESDAY, DAY_TUESDAY), (''Wed'', {3}, DAY_WEDNESDAY, DAY_WEDNESDAY),
      (''Thu'', {4}, DAY_THURSDAY, DAY_THURSDAY), (''Fri'', {5}, DAY_FRIDAY, DAY_FRIDAY),
      (''Sat'', {6}, DAY_SATURDAY, DAY_SATURDAY), (''Any'', {0..6}, DAY_MONDAY, DAY_SUNDAY),
      (''Wk'', {1..5}, DAY_MONDAY, DAY_FRIDAY), (''We'', {0, 6}, DAY_SATURDAY, DAY_SUNDAY),
      ([], {0..6}, DAY_MONDAY, DAY_SUNDAY)]"

lemma tolower_digit: "isdigit d \<Longrightarrow> tolower d = d \<and> d \<notin> set ''sunmotewdhfriak''"
  by (auto simp: isdigit_def tolower_def isupper_def)

lemmas day_order = less_eq_day_def less_day_def

lemma tolower_day_letters [simp]:
  "tolower (CHR ''S'') = CHR ''s''" "tolower (CHR ''M'') = CHR ''m''"
  "tolower (CHR ''T'') = CHR ''t''" "tolower (CHR ''W'') = CHR ''w''"
  "tolower (CHR ''F'') = CHR ''f''" "tolower (CHR ''A'') = CHR ''a''"
  "tolower (CHR ''K'') = CHR ''k''" "tolower (CHR ''s'') = CHR ''s''"
  "tolower (CHR ''u'') = CHR ''u''" "tolower (CHR ''n'') = CHR ''n''"
  "tolower (CHR ''m'') = CHR ''m''" "tolower (CHR ''o'') = CHR ''o''"
  "tolower (CHR ''t'') = CHR ''t''" "tolower (CHR ''e'') = CHR ''e''"
  "tolower (CHR ''w'') = CHR ''w''" "tolower (CHR ''d'') = CHR ''d''"
  "tolower (CHR ''h'') = CHR ''h''" "tolower (CHR ''f'') = CHR ''f''"
  "tolower (CHR ''r'') = CHR ''r''" "tolower (CHR ''i'') = CHR ''i''"
  "tolower (CHR ''a'') = CHR ''a''" "tolower (CHR ''k'') = CHR ''k''"
  "tolower (CHR ''y'') = CHR ''y''"
  by code_simp+

lemma day_of_text:
  assumes "(p, ds, db, de) \<in> set day_names" "isdigit (hd t)" "t \<noteq> []"
  shows "(DAY_MONDAY \<le> day_of (p @ t) \<and> day_of (p @ t) \<le> DAY_SUNDAY \<and> day_of (p @ t) = db \<and> db = de \<and> length p = 3)
    \<or> (day_of (p @ t), db, de, length p) \<in>
        {(DAY_ANY, DAY_MONDAY, DAY_SUNDAY, 3), (DAY_WORKDAY, DAY_MONDAY, DAY_FRIDAY, 2),
         (DAY_WEEKEND, DAY_SATURDAY, DAY_SUNDAY, 2), (DAY_UNDEF, DAY_MONDAY, DAY_SUNDAY, 0)}"
proof -
  obtain d t' where t: "t = d # t'" and d: "isdigit d" using assms(2,3) by (cases t) auto
  note td = tolower_digit [OF d]
  have names: "day_of (''Sun'' @ t) = DAY_SUNDAY"
    "day_of (''Mon'' @ t) = DAY_MONDAY"
    "day_of (''Tue'' @ t) = DAY_TUESDAY"
    "day_of (''Wed'' @ t) = DAY_WEDNESDAY"
    "day_of (''Thu'' @ t) = DAY_THURSDAY"
    "day_of (''Fri'' @ t) = DAY_FRIDAY"
    "day_of (''Sat'' @ t) = DAY_SATURDAY"
    "day_of (''Any'' @ t) = DAY_ANY"
    "day_of (''Wk'' @ t) = DAY_WORKDAY"
    "day_of (''We'' @ t) = DAY_WEEKEND"
    "day_of ([] @ t) = DAY_UNDEF"
    using td by (simp_all add: t day_of_def strncasecmp_eq_def)
  from assms(1) show ?thesis
    unfolding day_names_def set_simps
    by (elim insertE emptyE) (simp_all only: prod.inject names, simp_all add: day_order)
qed

lemma day_names_range:
  assumes "(p, ds, db, de) \<in> set day_names" "0 \<le> w" "w \<le> 6"
  shows "db \<le> wday_day w \<and> wday_day w \<le> de \<longleftrightarrow> w \<in> ds"
proof -
  have "w = 0 \<or> w = 1 \<or> w = 2 \<or> w = 3 \<or> w = 4 \<or> w = 5 \<or> w = 6" using assms(2,3) by arith
  moreover have "list_all (\<lambda>(p, ds, db, de). \<forall>w\<in>{0, 1, 2, 3, 4, 5, 6}. (db \<le> wday_day w \<and> wday_day w \<le> de \<longleftrightarrow> w \<in> ds)) day_names"
    unfolding day_names_def by (simp add: wday_day_def day_order)
  ultimately show ?thesis using assms(1) by (auto simp: list_all_iff)
qed

section \<open>What an interval means\<close>

lemma wday_day_range: "0 \<le> w \<Longrightarrow> w \<le> 6 \<Longrightarrow> wday_day w \<noteq> DAY_UNDEF"
  by (auto simp: wday_day_def)

lemma timevec_parse_text:
  assumes "(p, ds, db, de) \<in> set day_names" "h1 < 100" "m1 < 100" "h2 < 100" "m2 < 100"
    "h1 * 60 + m1 \<noteq> h2 * 60 + m2"
  shows "timevec_parse dest (p @ hours_text h1 m1 h2 m2)
    = (0, snd (timevec_add dest db de (int h1 * 60 + int m1) (int h2 * 60 + int m2)))"
proof -
  let ?t = "hours_text h1 m1 h2 m2"
  have ne: "int h1 * 60 + int m1 \<noteq> int h2 * 60 + int m2" using assms(6) by linarith
  have ord: "\<not> DAY_ANY \<le> DAY_SUNDAY" "\<not> DAY_WORKDAY \<le> DAY_SUNDAY" "\<not> DAY_WEEKEND \<le> DAY_SUNDAY"
    "\<not> DAY_UNDEF \<le> DAY_SUNDAY"
    by (simp_all add: day_order)
  have dr: "drop 3 (p @ ?t) = ?t" if "length p = 3" using that by simp
  have dr2: "drop 2 (p @ ?t) = ?t" if "length p = 2" using that by simp
  note sc = scan_hours_text [OF assms(2-5)]
  from day_of_text [OF assms(1), of ?t] hours_text_hd [of h1 m1 h2 m2]
  consider "DAY_MONDAY \<le> day_of (p @ ?t)" "day_of (p @ ?t) \<le> DAY_SUNDAY" "day_of (p @ ?t) = db" "db = de" "length p = 3"
    | "day_of (p @ ?t) = DAY_ANY" "db = DAY_MONDAY" "de = DAY_SUNDAY" "length p = 3"
    | "day_of (p @ ?t) = DAY_WORKDAY" "db = DAY_MONDAY" "de = DAY_FRIDAY" "length p = 2"
    | "day_of (p @ ?t) = DAY_WEEKEND" "db = DAY_SATURDAY" "de = DAY_SUNDAY" "length p = 2"
    | "day_of (p @ ?t) = DAY_UNDEF" "db = DAY_MONDAY" "de = DAY_SUNDAY" "p = []"
    by auto
  then show ?thesis
    by cases (simp_all add: timevec_parse_def Let_def ord ne dr dr2 sc del: drop_append)
qed

text \<open>
  C10: a time interval means its hours on its days. For each name of a day (or none) followed by
  two different times, the parser accepts the text and the interval then holds exactly on the days the
  name stands for, from the first minute to the last, and round midnight when the first is the later
  one: of the same day, so that the hours after midnight are those of the day named, not of the next.
\<close>

theorem timevec_hours:
  assumes "(p, ds, db, de) \<in> set day_names" "h1 < 100" "m1 < 100" "h2 < 100" "m2 < 100"
    "h1 * 60 + m1 \<noteq> h2 * 60 + m2" "0 \<le> tm_wday now" "tm_wday now \<le> 6"
  shows "fst (timevec_parse [] (p @ hours_text h1 m1 h2 m2)) = 0
    \<and> timevec_isnow (snd (timevec_parse [] (p @ hours_text h1 m1 h2 m2))) now
      = (tm_wday now \<in> ds
         \<and> (let cur = tm_hour now * 60 + tm_min now; b = int h1 * 60 + int m1; e = int h2 * 60 + int m2
            in if b < e then b \<le> cur \<and> cur \<le> e else \<not> (e < cur \<and> cur < b)))"
proof -
  have "in_hours cur b e = (if b < e then b \<le> cur \<and> cur \<le> e else \<not> (e < cur \<and> cur < b))" for cur b e
    by (simp add: in_hours_def not_less not_le)
      (simp add: disj_commute not_less [symmetric])
  note hours = this
  have "timevec_isnow [\<lparr>day_beg = db, day_end = de, ti_beg = b, ti_end = e\<rparr>] now
    \<longleftrightarrow> (db \<le> wday_day (tm_wday now) \<and> wday_day (tm_wday now) \<le> de)
        \<and> in_hours (tm_hour now * 60 + tm_min now) b e" for b e
    by (simp add: timevec_isnow_def timevec_check_def Let_def wday_day_range [OF assms(7,8)])
  then show ?thesis
    unfolding timevec_parse_text [OF assms(1-6)]
    by (simp add: timevec_add_def TIMEVEC_MAX_ELEMENTS_def Let_def hours day_names_range [OF assms(1,7,8)]
        del: if_not_P)
qed

theorem timevec_hours_witness:
  "fst (timevec_parse [] (''We'' @ hours_text 22 0 6 30)) = 0
   \<and> timevec_isnow (snd (timevec_parse [] (''We'' @ hours_text 22 0 6 30)))
       \<lparr>tm_sec = 0, tm_min = 15, tm_hour = 5, tm_mday = 2, tm_mon = 0, tm_year = 100, tm_wday = 0, tm_yday = 1\<rparr>
     = ((0::int) \<in> {0, 6}
        \<and> (let cur = 5 * 60 + 15; b = int 22 * 60 + int 0; e = int 6 * 60 + int 30
           in if b < e then b \<le> cur \<and> cur \<le> e else \<not> (e < cur \<and> cur < b)))"
  using timevec_hours [of "''We''" "{0, 6}" DAY_SATURDAY DAY_SUNDAY 22 0 6 30
      "\<lparr>tm_sec = 0, tm_min = 15, tm_hour = 5, tm_mday = 2, tm_mon = 0, tm_year = 100, tm_wday = 0, tm_yday = 1\<rparr>"]
  by (simp add: day_names_def)

text \<open>
  The invariant of an interval list: it fits its ten places, the same interval is there once, no
  interval is empty and the days are a range of the week.
\<close>

definition timevec_ok :: "s_timevec \<Rightarrow> bool" where
  "timevec_ok tv \<longleftrightarrow> length tv \<le> TIMEVEC_MAX_ELEMENTS \<and> distinct tv
     \<and> list_all (\<lambda>t. ti_beg t \<noteq> ti_end t \<and> day_beg t \<le> day_end t \<and> day_end t \<le> DAY_SUNDAY) tv"

lemma timevec_add_ok:
  assumes "timevec_ok tv" "b \<noteq> e" "db \<le> de" "de \<le> DAY_SUNDAY"
  shows "timevec_ok (snd (timevec_add tv db de b e))"
proof (cases "\<exists>t\<in>set tv. day_beg t \<le> db \<and> day_end t \<ge> de \<and> ti_beg t = b \<and> ti_end t = e")
  case False
  then have "\<lparr>day_beg = db, day_end = de, ti_beg = b, ti_end = e\<rparr> \<notin> set tv" by force
  then show ?thesis using assms False by (simp add: timevec_add_def timevec_ok_def)
qed (use assms in \<open>simp add: timevec_add_def\<close>)

lemma timevec_parse_ok:
  assumes "timevec_ok tv"
  shows "timevec_ok (snd (timevec_parse tv s))"
proof -
  have "DAY_MONDAY \<le> DAY_FRIDAY" "DAY_FRIDAY \<le> DAY_SUNDAY" "DAY_SATURDAY \<le> DAY_SUNDAY"
    "DAY_MONDAY \<le> DAY_SUNDAY"
    by (simp_all add: day_order)
  then have add: "b \<noteq> e \<Longrightarrow> timevec_ok
      (snd (if d \<le> DAY_SUNDAY then timevec_add tv d d b e
            else if d = DAY_WORKDAY then timevec_add tv DAY_MONDAY DAY_FRIDAY b e
            else if d = DAY_WEEKEND then timevec_add tv DAY_SATURDAY DAY_SUNDAY b e
            else timevec_add tv DAY_MONDAY DAY_SUNDAY b e))" for d b e
    using assms by (auto intro: timevec_add_ok)
  define str where "str = (if DAY_MONDAY \<le> day_of s \<and> day_of s \<le> DAY_SUNDAY then drop 3 s
                 else if day_of s = DAY_ANY then drop 3 s
                 else if day_of s = DAY_WORKDAY \<or> day_of s = DAY_WEEKEND then drop 2 s else s)"
  show ?thesis
    unfolding timevec_parse_def Let_def str_def [symmetric]
    using assms add by (cases "scan_hours str") (auto simp del: split_paired_All)
qed

lemma parse_pieces_ok: "timevec_ok tv \<Longrightarrow> timevec_ok (snd (parse_pieces tv ps rc))"
proof (induction ps arbitrary: tv rc)
  case (Cons p ps)
  then show ?case using timevec_parse_ok [OF Cons.prems, of p] by (cases "timevec_parse tv p") simp
qed simp

text \<open>
  whatever the configuration says, the list of intervals stays within its ten places, without
  duplicates or empty intervals, so that \<open>timevec_check\<close> only reads what was stored; and the list is
  unchanged when the text is empty.
\<close>

theorem timevec_invariant:
  assumes "timevec_ok tv"
  shows "timevec_ok (snd (timevec_parse_list tv s)) \<and> timevec_parse_list tv [] = (0, tv)"
  using parse_pieces_ok [OF assms] by (simp add: timevec_parse_list_def string_token_def)

theorem timevec_invariant_witness:
  "timevec_ok (snd (timevec_parse_list [] ''Mon08:00-12:00,Mon08:00-12:00,junk''))
   \<and> timevec_parse_list ([]::s_timevec) [] = (0, [])"
  by (rule timevec_invariant) (simp add: timevec_ok_def)

text \<open>
  Converting a time to GMT and back is the identity, but two texts are not what they are meant to be:
  an offset west of Greenwich prints its minutes with a second sign, and a timer that has time left
  reports none, while an expired one reports the time since.
\<close>

lemma gmt_inverse [simp]: "gmttolocal off (localtogmt off t) = t" "localtogmt off (gmttolocal off t) = t"
  by (simp_all add: localtogmt_def gmttolocal_def)

lemma gmtoffset_sign: "time_string_gmtoffset (- 210) = ''--3-30''"
  by (simp add: time_string_gmtoffset_def fmt_0d_def pad0_def radix.simps hexdigits_def signed_divide_int_def signed_modulo_int_def)

lemma timeleft_zero: "0 < timer \<Longrightarrow> now \<le> timer \<Longrightarrow> time_timeleft now timer = 0"
  by (simp add: time_timeleft_def)

end
