(* ===== verification/Conf.thy ===== *)
theory Conf
  imports UTime Ftn
begin

text \<open>
  The configuration: the table of keywords and the parsers of their values (\<open>conf_proc.c\<close>), the access
  functions (\<open>conf_get.c\<close>) and the reader of configuration files (\<open>conf_read.c\<close>). Values read from
  files are stored under the name of their keyword; the condition of an entry is evaluated whenever
  the entry is looked at. The evaluator of conditions and the file system are arguments.
\<close>

section \<open>The code\<close>

subsection \<open>Values\<close>

datatype conf_type =
  CT_ADDRESS | CT_BOOLEAN | CT_CONNLIST | CT_DIALRESP | CT_DOMAIN | CT_FILEMODE | CT_MODEMPORT
| CT_NODELIST | CT_NUMBER | CT_OPTIONS | CT_OVERRIDE | CT_PATH | CT_PASSWORD | CT_STRING
| CT_TRANSLATE | CT_TRIES | CT_FILEBOX

record s_override =
  ov_addr :: s_faddr
  sIpaddr :: "string option"
  sPhone :: "string option"
  sFlags :: "string option"
  worktime :: s_timevec
  freqtime :: s_timevec
  ov_run :: "string option"

text \<open>
  The union of an entry: \<open>s_falist\<close> (address, text), \<open>s_domain\<close> (domain, path, zone), an override with
  its hidden lines in the order of the list, \<open>s_options\<close> (value, mask), and so on.
\<close>

datatype cval =
  Falist s_faddr "string option"
| Domain string string int
| Override "s_override list"
| Options u64 u64
| Translate string "string option"
| Connlist int int
| Number int
| Boolean bool
| Text string
| Modemport string int
| Dialresp string int int
| Tries int int int
| Filemode int
| Filebox s_faddr string int

definition OPTIONS_NO_ZMODEM :: u64 where "OPTIONS_NO_ZMODEM = 0x1"
definition OPTIONS_NO_ZEDZAP :: u64 where "OPTIONS_NO_ZEDZAP = 0x2"
definition OPTIONS_NO_DIRZAP :: u64 where "OPTIONS_NO_DIRZAP = 0x4"
definition OPTIONS_NO_JANUS :: u64 where "OPTIONS_NO_JANUS = 0x8"
definition OPTIONS_NO_HYDRA :: u64 where "OPTIONS_NO_HYDRA = 0x10"
definition OPTIONS_NO_BINKP :: u64 where "OPTIONS_NO_BINKP = 0x20"
definition OPTIONS_NO_TCP :: u64 where "OPTIONS_NO_TCP = 0x40"
definition OPTIONS_NO_CHAT :: u64 where "OPTIONS_NO_CHAT = 0x80"
definition OPTIONS_NO_FTS1 :: u64 where "OPTIONS_NO_FTS1 = 0x100"
definition OPTIONS_NO_YOOHOO :: u64 where "OPTIONS_NO_YOOHOO = 0x200"
definition OPTIONS_NO_EMSI :: u64 where "OPTIONS_NO_EMSI = 0x400"
definition OPTIONS_NO_EMSI_II :: u64 where "OPTIONS_NO_EMSI_II = 0x800"
definition OPTIONS_NO_FREQS :: u64 where "OPTIONS_NO_FREQS = 0x1000"
definition OPTIONS_MAILONLY :: u64 where "OPTIONS_MAILONLY = 0x2000"
definition OPTIONS_HOLDXT :: u64 where "OPTIONS_HOLDXT = 0x4000"
definition OPTIONS_HOLDREQ :: u64 where "OPTIONS_HOLDREQ = 0x8000"
definition OPTIONS_HOLDALL :: u64 where "OPTIONS_HOLDALL = 0x10000"
definition OPTIONS_HOLDHOLD :: u64 where "OPTIONS_HOLDHOLD = 0x20000"
definition OPTIONS_NO_PICKUP :: u64 where "OPTIONS_NO_PICKUP = 0x40000"
definition OPTIONS_NO_RH1 :: u64 where "OPTIONS_NO_RH1 = 0x80000"
definition OPTIONS_NO_INTRO :: u64 where "OPTIONS_NO_INTRO = 0x100000"

lemmas option_bits = OPTIONS_NO_ZMODEM_def OPTIONS_NO_ZEDZAP_def OPTIONS_NO_DIRZAP_def
  OPTIONS_NO_JANUS_def OPTIONS_NO_HYDRA_def OPTIONS_NO_BINKP_def OPTIONS_NO_TCP_def
  OPTIONS_NO_CHAT_def OPTIONS_NO_FTS1_def OPTIONS_NO_YOOHOO_def OPTIONS_NO_EMSI_def
  OPTIONS_NO_EMSI_II_def OPTIONS_NO_FREQS_def OPTIONS_MAILONLY_def OPTIONS_HOLDXT_def
  OPTIONS_HOLDREQ_def OPTIONS_HOLDALL_def OPTIONS_HOLDHOLD_def OPTIONS_NO_PICKUP_def
  OPTIONS_NO_RH1_def OPTIONS_NO_INTRO_def

text \<open>The table of options: name, the bits a prefix \<open>no\<close> sets, the bits the plain name sets.\<close>

definition options_tab :: "(string \<times> u64 \<times> u64) list" where
  "options_tab =
     [(''Zmodem'', OPTIONS_NO_ZMODEM, 0), (''ZedZap'', OPTIONS_NO_ZEDZAP, 0),
      (''DirZap'', OPTIONS_NO_DIRZAP, 0), (''Janus'', OPTIONS_NO_JANUS, 0),
      (''Hydra'', OPTIONS_NO_HYDRA, 0), (''BinkP'', OPTIONS_NO_BINKP, 0), (''TCP'', OPTIONS_NO_TCP, 0),
      (''Chat'', OPTIONS_NO_CHAT, 0), (''FTS1'', OPTIONS_NO_FTS1, 0), (''YooHoo'', OPTIONS_NO_YOOHOO, 0),
      (''EMSI'', OPTIONS_NO_EMSI, 0), (''EMSI-II'', OPTIONS_NO_EMSI_II, 0),
      (''Freqs'', OPTIONS_NO_FREQS, 0), (''MailOnly'', 0, OPTIONS_MAILONLY),
      (''HoldXT'', 0, OPTIONS_HOLDXT), (''HoldReq'', 0, OPTIONS_HOLDREQ), (''HoldAll'', 0, OPTIONS_HOLDALL),
      (''HoldHold'', 0, OPTIONS_HOLDHOLD), (''PickUp'', OPTIONS_NO_PICKUP, 0), (''RH1'', OPTIONS_NO_RH1, 0),
      (''Intro'', OPTIONS_NO_INTRO, 0)]"

definition resptypes :: "(string \<times> int \<times> int) list" where
  "resptypes =
     [(''Connect'', 0, 0), (''Busy'', 1, 11), (''Nocarrier'', 2, 12), (''Nodialtone'', 4, 13),
      (''Noanswer'', 8, 14), (''Error'', 16, 15)]"

text \<open>The table of keywords, with those of the syslog, debug and netspool builds (the default).\<close>

definition config_table :: "(string \<times> conf_type) list" where
  "config_table =
     [(''address'', CT_ADDRESS), (''amiga_outbound_directory'', CT_PATH), (''binkp_timeout'', CT_NUMBER),
      (''daemon_circle'', CT_NUMBER), (''daemon_circle_crash'', CT_NUMBER),
      (''daemon_circle_direct'', CT_NUMBER), (''daemon_circle_immed'', CT_NUMBER),
      (''daemon_circle_modem'', CT_NUMBER), (''daemon_circle_normal'', CT_NUMBER),
      (''daemon_circle_rescan'', CT_NUMBER), (''daemon_maxclients_modem'', CT_NUMBER),
      (''daemon_maxclients_tcpip'', CT_NUMBER), (''daemon_pid_file'', CT_STRING),
      (''delay_files_recv'', CT_STRING), (''delay_files_send'', CT_STRING),
      (''disable_aka_matching'', CT_BOOLEAN), (''domain'', CT_DOMAIN), (''emsi_FR_time'', CT_STRING),
      (''emsi_OH_time'', CT_STRING), (''emsi_slave_sends_nak'', CT_BOOLEAN), (''filebox'', CT_FILEBOX),
      (''filebox_directory'', CT_PATH), (''flags'', CT_STRING), (''flo_translate'', CT_TRANSLATE),
      (''freq_alias_list'', CT_STRING), (''freq_dir_list'', CT_STRING),
      (''freq_ignore_masks'', CT_STRING), (''freq_limit_number'', CT_NUMBER),
      (''freq_limit_size'', CT_NUMBER), (''freq_limit_time'', CT_NUMBER),
      (''freq_min_speed'', CT_NUMBER), (''freq_srif_command'', CT_STRING),
      (''hide_our_aka'', CT_ADDRESS), (''history_file'', CT_STRING), (''hydra_options'', CT_OPTIONS),
      (''hydra_mincps_recv'', CT_CONNLIST), (''hydra_mincps_send'', CT_CONNLIST),
      (''hydra_tx_window'', CT_NUMBER), (''hydra_rx_window'', CT_NUMBER),
      (''inbound_directory'', CT_PATH), (''location'', CT_STRING), (''log_file'', CT_STRING),
      (''log_file_daemon'', CT_STRING), (''max_speed'', CT_NUMBER), (''maxtries'', CT_TRIES),
      (''maxtries_nodial'', CT_TRIES), (''maxtries_noansw'', CT_TRIES), (''maxtries_noconn'', CT_TRIES),
      (''maxtries_hshake'', CT_TRIES), (''maxtries_sessions'', CT_TRIES), (''min_cps_recv'', CT_NUMBER),
      (''min_cps_send'', CT_NUMBER), (''min_cps_time'', CT_NUMBER), (''min_free_space'', CT_NUMBER),
      (''min_speed_in'', CT_NUMBER), (''min_speed_out'', CT_NUMBER), (''mode_netmail'', CT_FILEMODE),
      (''mode_arcmail'', CT_FILEMODE), (''mode_request'', CT_FILEMODE), (''mode_ticfile'', CT_FILEMODE),
      (''mode_default'', CT_FILEMODE), (''modem_can_send_break'', CT_BOOLEAN),
      (''modem_dial_prefix'', CT_STRING), (''modem_dial_suffix'', CT_STRING),
      (''modem_dial_response'', CT_DIALRESP), (''modem_hangup_command'', CT_STRING),
      (''modem_port'', CT_MODEMPORT), (''modem_reset_command'', CT_STRING),
      (''modem_stat_command'', CT_STRING), (''nodelist'', CT_NODELIST),
      (''nodelist_directory'', CT_PATH), (''nodial_flag'', CT_STRING), (''override'', CT_OVERRIDE),
      (''options'', CT_OPTIONS), (''outbound_directory'', CT_PATH), (''password'', CT_PASSWORD),
      (''phone'', CT_STRING), (''phone_translate'', CT_TRANSLATE), (''recode_file_in'', CT_STRING),
      (''recode_file_out'', CT_STRING), (''recode_intro_in'', CT_STRING),
      (''recv_buffer_size'', CT_NUMBER), (''rescan_delay'', CT_NUMBER),
      (''run_after_handshake'', CT_STRING), (''run_after_session'', CT_STRING),
      (''run_before_session'', CT_STRING), (''session_limit_in'', CT_NUMBER),
      (''session_limit_out'', CT_NUMBER), (''skip_files_recv'', CT_STRING),
      (''status_directory'', CT_PATH), (''system_name'', CT_STRING), (''sysop_name'', CT_STRING),
      (''uucp_lock_directory'', CT_PATH), (''wait_carrier_in'', CT_NUMBER),
      (''wait_carrier_out'', CT_NUMBER), (''zmodem_mincps_recv'', CT_CONNLIST),
      (''zmodem_mincps_send'', CT_CONNLIST), (''zmodem_send_dummy_pkt'', CT_BOOLEAN),
      (''zmodem_skip_by_pos'', CT_BOOLEAN), (''zmodem_start_block_size'', CT_NUMBER),
      (''zmodem_tx_window'', CT_NUMBER), (''nomail_flag'', CT_STRING), (''bind_ip'', CT_STRING),
      (''recieved_to_lower'', CT_BOOLEAN), (''syslog_facility'', CT_NUMBER),
      (''debug_file'', CT_STRING), (''debug_level'', CT_STRING), (''split_inbound'', CT_BOOLEAN),
      (''netspool_host'', CT_STRING), (''netspool_port'', CT_STRING), (''fidodnszone'', CT_STRING)]"

subsection \<open>Access\<close>

text \<open>The entries of each keyword with their condition, and the evaluator of conditions.\<close>

record conf =
  conf_data :: "string \<Rightarrow> (string option \<times> cval) list"
  eventexpr :: "string \<Rightarrow> bool"

text \<open>The entries \<open>conf_first\<close> and \<open>conf_next\<close> visit, in order.\<close>

definition conf_entries :: "conf \<Rightarrow> string \<Rightarrow> cval list" where
  "conf_entries cf key =
     map snd (filter (\<lambda>(e, v). case e of None \<Rightarrow> True | Some x \<Rightarrow> eventexpr cf x) (conf_data cf key))"

definition conf_first :: "conf \<Rightarrow> string \<Rightarrow> cval option" where
  "conf_first cf key = (case conf_entries cf key of [] \<Rightarrow> None | v # _ \<Rightarrow> Some v)"

text \<open>A keyword only holds values of its type; on another the union would be misread (0 here).\<close>

definition conf_boolean :: "conf \<Rightarrow> string \<Rightarrow> bool" where
  "conf_boolean cf key = (case conf_first cf key of Some (Boolean b) \<Rightarrow> b | _ \<Rightarrow> False)"

definition conf_filemode :: "conf \<Rightarrow> string \<Rightarrow> int" where
  "conf_filemode cf key = (case conf_first cf key of Some (Filemode m) \<Rightarrow> m | _ \<Rightarrow> 0)"

definition conf_string :: "conf \<Rightarrow> string \<Rightarrow> string option" where
  "conf_string cf key = (case conf_first cf key of Some (Text s) \<Rightarrow> Some s | _ \<Rightarrow> None)"

definition conf_number :: "conf \<Rightarrow> string \<Rightarrow> int" where
  "conf_number cf key = (case conf_first cf key of Some (Number n) \<Rightarrow> n | _ \<Rightarrow> 0)"

definition add_options :: "cval \<Rightarrow> u64 \<Rightarrow> u64" where
  "add_options v result = (case v of Options val msk \<Rightarrow> (NOT msk AND result) OR val | _ \<Rightarrow> result)"

definition conf_options :: "conf \<Rightarrow> string \<Rightarrow> u64" where
  "conf_options cf key = fold add_options (conf_entries cf key) 0"

definition conf_connlist :: "conf \<Rightarrow> string \<Rightarrow> int \<Rightarrow> int" where
  "conf_connlist cf key speed =
     (case find (\<lambda>v. case v of Connlist s _ \<Rightarrow> s = speed | _ \<Rightarrow> False) (conf_entries cf key) of
        Some (Connlist _ value) \<Rightarrow> value | _ \<Rightarrow> 0)"

definition conf_override :: "conf \<Rightarrow> string \<Rightarrow> s_faddr \<Rightarrow> s_override list" where
  "conf_override cf key addr =
     (case find (\<lambda>v. case v of Override (ov # _) \<Rightarrow> ftn_addrcomp (ov_addr ov) addr = 0 | _ \<Rightarrow> False)
        (conf_entries cf key) of
        Some (Override ovs) \<Rightarrow> ovs | _ \<Rightarrow> [])"

definition conf_tries :: "conf \<Rightarrow> string \<Rightarrow> (int \<times> int \<times> int) option" where
  "conf_tries cf key = (case conf_first cf key of Some (Tries t a g) \<Rightarrow> Some (t, a, g) | _ \<Rightarrow> None)"

subsection \<open>Parsers of values\<close>

definition PROC_RC_OK :: int where "PROC_RC_OK = 0"
definition PROC_RC_WARN :: int where "PROC_RC_WARN = 1"
definition PROC_RC_IGNORE :: int where "PROC_RC_IGNORE = 2"
definition PROC_RC_ABORT :: int where "PROC_RC_ABORT = 3"

lemmas proc_rc = PROC_RC_OK_def PROC_RC_WARN_def PROC_RC_IGNORE_def PROC_RC_ABORT_def

definition ISDEC :: "string \<Rightarrow> bool" where
  "ISDEC s \<longleftrightarrow> list_all (\<lambda>c. c \<in> set ''0123456789'') s"

definition ISOCT :: "string \<Rightarrow> bool" where
  "ISOCT s \<longleftrightarrow> list_all (\<lambda>c. c \<in> set ''01234567'') s"

text \<open>Successive calls of \<open>string_token\<close>, and the test for a token that is there and not empty.\<close>

fun next_tokens :: "nat \<Rightarrow> bool \<Rightarrow> string option \<Rightarrow> string option \<Rightarrow> string option list" where
  "next_tokens 0 quoted str n = []"
| "next_tokens (Suc k) quoted str n =
     (case string_token str n [] quoted of (t, n) \<Rightarrow> t # next_tokens k quoted None n)"

definition filled :: "string option \<Rightarrow> bool" where
  "filled p \<longleftrightarrow> p \<noteq> None \<and> p \<noteq> Some []"

text \<open>An empty path is stored as the separator here; the code reads the byte before it.\<close>

definition with_separator :: "string \<Rightarrow> string" where
  "with_separator path = (if path \<noteq> [] \<and> last path = CHR ''/'' then path else path @ ''/'')"

definition proc_string :: "string \<Rightarrow> int \<times> cval" where
  "proc_string value = (PROC_RC_OK, Text value)"

definition proc_number :: "string \<Rightarrow> int \<times> cval" where
  "proc_number value =
     (if \<not> ISDEC value then (PROC_RC_IGNORE, Number 0) else (PROC_RC_OK, Number (atol value)))"

text \<open>\<open>sscanf\<close> with \<open>%o\<close> stores an \<open>unsigned int\<close>; with no digit the field stays zero.\<close>

definition proc_filemode :: "string \<Rightarrow> int \<times> cval" where
  "proc_filemode value =
     (if \<not> ISOCT value then (PROC_RC_IGNORE, Filemode 0)
      else (PROC_RC_OK, Filemode (fst (strtol 8 value) mod 2 ^ 32)))"

definition proc_boolean :: "string \<Rightarrow> int \<times> cval" where
  "proc_boolean value =
     (if strcasecmp_eq value ''yes'' \<or> strcasecmp_eq value ''true'' then (PROC_RC_OK, Boolean True)
      else if strcasecmp_eq value ''no'' \<or> strcasecmp_eq value ''false'' then (PROC_RC_OK, Boolean False)
      else (PROC_RC_IGNORE, Boolean False))"

definition proc_address :: "string \<Rightarrow> int \<times> cval" where
  "proc_address value =
     (case ftn_addrparse value False of
        (True, _) \<Rightarrow> (PROC_RC_IGNORE, Falist zero_faddr None)
      | (False, addr) \<Rightarrow> (PROC_RC_OK, Falist addr None))"

definition proc_nodelist :: "string \<Rightarrow> int \<times> cval" where
  "proc_nodelist value =
     (let toks = next_tokens 2 True (Some value) None; p_name = toks ! 0; p_addr = toks ! 1 in
      if filled p_name \<and> filled p_addr then
        (case ftn_addrparse (the p_addr) True of
           (False, addr) \<Rightarrow> (PROC_RC_OK, Falist addr p_name)
         | (True, _) \<Rightarrow> (PROC_RC_IGNORE, Falist zero_faddr None))
      else (PROC_RC_IGNORE, Falist zero_faddr None))"

definition proc_domain :: "string \<Rightarrow> int \<times> cval" where
  "proc_domain value =
     (let toks = next_tokens 3 True (Some value) None; p_domn = toks ! 0; p_path = toks ! 1; p_zone = toks ! 2 in
      if filled p_domn \<and> filled p_path \<and> filled p_zone then
        if ISDEC (the p_zone)
        then (PROC_RC_OK, Domain (the p_domn) (with_separator (the p_path)) (atoi (the p_zone)))
        else (PROC_RC_IGNORE, Domain [] [] 0)
      else (PROC_RC_IGNORE, Domain [] [] 0))"

text \<open>The text after the last colon is the speed.\<close>

definition proc_modemport :: "string \<Rightarrow> int \<times> cval" where
  "proc_modemport value =
     (if CHR '':'' \<in> set value then
        let p_speed = rev (takeWhile (\<lambda>c. c \<noteq> CHR '':'') (rev value)) in
        if ISDEC p_speed
        then (PROC_RC_OK, Modemport (take (length value - length p_speed - 1) value) (atol p_speed))
        else (PROC_RC_IGNORE, Modemport [] 0)
      else (PROC_RC_OK, Modemport value 0))"

definition proc_password :: "string \<Rightarrow> int \<times> cval" where
  "proc_password value =
     (let toks = next_tokens 2 True (Some value) None; p_addr = toks ! 0; p_passwd = toks ! 1 in
      if filled p_addr \<and> filled p_passwd then
        (case ftn_addrparse (the p_addr) False of
           (False, addr) \<Rightarrow> (PROC_RC_OK, Falist addr p_passwd)
         | (True, _) \<Rightarrow> (PROC_RC_IGNORE, Falist zero_faddr None))
      else (PROC_RC_IGNORE, Falist zero_faddr None))"

definition proc_path :: "string \<Rightarrow> int \<times> cval" where
  "proc_path value = (PROC_RC_OK, Text (with_separator value))"

definition proc_dialresp :: "string \<Rightarrow> int \<times> cval" where
  "proc_dialresp value =
     (let toks = next_tokens 3 True (Some value) None; p_mstr = toks ! 0; p_type = toks ! 1; p_retv = toks ! 2 in
      if filled p_mstr \<and> filled p_type then
        if p_retv \<noteq> None \<and> \<not> ISDEC (the p_retv) then (PROC_RC_IGNORE, Dialresp [] 0 0)
        else
          (case find (\<lambda>(str, _). strcasecmp_eq (the p_type) str) resptypes of
             Some (_, t, retv) \<Rightarrow>
               (PROC_RC_OK, Dialresp (the p_mstr) t (case p_retv of None \<Rightarrow> retv | Some r \<Rightarrow> atoi r))
           | None \<Rightarrow> (PROC_RC_IGNORE, Dialresp [] 0 0))
      else (PROC_RC_IGNORE, Dialresp [] 0 0))"

definition proc_translate :: "string \<Rightarrow> int \<times> cval" where
  "proc_translate value =
     (let toks = next_tokens 2 True (Some value) None; p_find = toks ! 0; p_repl = toks ! 1 in
      if filled p_find then (PROC_RC_OK, Translate (the p_find) p_repl)
      else (PROC_RC_IGNORE, Translate [] None))"

definition proc_speeddep :: "string \<Rightarrow> int \<times> cval" where
  "proc_speeddep value =
     (let toks = next_tokens 2 True (Some value) None; p_speed = toks ! 0; p_value = toks ! 1 in
      if filled p_speed \<and> filled p_value then
        if ISDEC (the p_speed) \<and> ISDEC (the p_value)
        then (PROC_RC_OK, Connlist (atoi (the p_speed)) (atoi (the p_value)))
        else (PROC_RC_IGNORE, Connlist 0 0)
      else (PROC_RC_IGNORE, Connlist 0 0))"

definition proc_tries :: "string \<Rightarrow> int \<times> cval" where
  "proc_tries value =
     (let toks = next_tokens 3 False (Some value) None; p_tries = toks ! 0; p_action = toks ! 1;
          p_arg = toks ! 2; bad = (PROC_RC_IGNORE, Tries 0 0 0);
          hold = (\<lambda>act. if filled p_arg \<and> \<not> ISDEC (the p_arg) then bad
                        else if p_arg = None then bad
                        else (PROC_RC_OK, Tries (atoi (the p_tries)) act (atoi (the p_arg))))
      in if filled p_tries \<and> ISDEC (the p_tries) then
           if filled p_action then
             if strcasecmp_eq (the p_action) ''undialable''
             then (if filled p_arg then PROC_RC_WARN else PROC_RC_OK, Tries (atoi (the p_tries)) 1 0)
             else if strcasecmp_eq (the p_action) ''hold'' then hold 2
             else if strcasecmp_eq (the p_action) ''holdall'' then hold 4
             else bad
           else (PROC_RC_OK, Tries (atoi (the p_tries)) 1 0)
         else bad)"

definition FLAVOR_HOLD :: int where "FLAVOR_HOLD = 0x001"
definition FLAVOR_NORMAL :: int where "FLAVOR_NORMAL = 0x002"
definition FLAVOR_DIRECT :: int where "FLAVOR_DIRECT = 0x004"
definition FLAVOR_IMMED :: int where "FLAVOR_IMMED = 0x008"
definition FLAVOR_CRASH :: int where "FLAVOR_CRASH = 0x010"

definition proc_filebox :: "(string \<Rightarrow> bool) \<Rightarrow> string \<Rightarrow> int \<times> cval" where
  "proc_filebox is_directory value =
     (let toks = next_tokens 3 True (Some value) None; p_path = toks ! 0; p_addr = toks ! 1; p_flav = toks ! 2;
          bad = (PROC_RC_IGNORE, Filebox zero_faddr [] 0)
      in if filled p_path \<and> filled p_addr then
           (case ftn_addrparse (the p_addr) True of
              (True, _) \<Rightarrow> bad
            | (False, addr) \<Rightarrow>
                (let rc = (if is_directory (the p_path) then PROC_RC_OK else PROC_RC_WARN);
                     (rc, flavor) =
                       (if filled p_flav then
                          let f = the p_flav in
                          if strcasecmp_eq f ''hold'' then (rc, FLAVOR_HOLD)
                          else if strcasecmp_eq f ''normal'' then (rc, FLAVOR_NORMAL)
                          else if strcasecmp_eq f ''crash'' then (rc, FLAVOR_CRASH)
                          else if strcasecmp_eq f ''immediate'' then (rc, FLAVOR_IMMED)
                          else (PROC_RC_WARN, FLAVOR_HOLD)
                        else (rc, FLAVOR_HOLD))
                 in (rc, Filebox addr (with_separator (the p_path)) flavor)))
         else bad)"

text \<open>One word of an \<open>options\<close> line: the first line of the table it names, plainly or negated.\<close>

definition option_word :: "string \<Rightarrow> u64 \<times> u64 \<Rightarrow> (u64 \<times> u64) option" where
  "option_word key d =
     (case find (\<lambda>(str, no, yes). strcasecmp_eq key str \<or> strncasecmp_eq key ''no'' 2 \<and> strcasecmp_eq (drop 2 key) str
                  \<or> peek key = CHR ''!'' \<and> strcasecmp_eq (drop 1 key) str) options_tab of
        None \<Rightarrow> None
      | Some (str, no, yes) \<Rightarrow>
          (case d of (value, msk) \<Rightarrow>
             Some (if strcasecmp_eq key str
                   then ((value AND NOT no) OR yes, msk OR no OR yes)
                   else ((value OR no) AND NOT yes, msk OR no OR yes))))"

fun proc_options_words :: "string list \<Rightarrow> u64 \<times> u64 \<Rightarrow> int \<Rightarrow> int \<times> cval" where
  "proc_options_words [] (value, msk) rc = (rc, Options value msk)"
| "proc_options_words (key # keys) d rc =
     (case option_word key d of
        None \<Rightarrow> proc_options_words keys d (if rc < PROC_RC_WARN then PROC_RC_WARN else rc)
      | Some d' \<Rightarrow> proc_options_words keys d' rc)"

definition proc_options :: "string \<Rightarrow> int \<times> cval" where
  "proc_options value = proc_options_words (string_tokens (Some value) [] False) (0, 0) PROC_RC_OK"

text \<open>
  The loop of \<open>proc_override\<close> over the tokens that remain, with the pending keyword. The list holds the
  override and its hidden lines; \<open>neednew\<close> asks for another line before the next value.
\<close>

definition new_override :: "s_faddr \<Rightarrow> s_override" where
  "new_override addr =
     \<lparr>ov_addr = addr, sIpaddr = None, sPhone = None, sFlags = None, worktime = [], freqtime = [], ov_run = None\<rparr>"

definition at_last :: "(s_override \<Rightarrow> s_override) \<Rightarrow> s_override list \<Rightarrow> s_override list" where
  "at_last f ovs = butlast ovs @ [f (last ovs)]"

fun override_loop ::
  "s_faddr \<Rightarrow> string option \<Rightarrow> string list \<Rightarrow> bool \<Rightarrow> s_override list \<Rightarrow> int \<Rightarrow> int \<times> s_override list" where
  "override_loop addr None [] neednew ovs rc = (rc, ovs)"
| "override_loop addr None (key # toks) neednew ovs rc = override_loop addr (Some key) toks neednew ovs rc"
| "override_loop addr (Some key) [] neednew ovs rc = (max rc PROC_RC_WARN, ovs)"
| "override_loop addr (Some key) (arg # toks) neednew ovs rc =
     (if arg = [] then (max rc PROC_RC_WARN, ovs)
      else
        let ovs = (if neednew then ovs @ [new_override addr] else ovs) in
        if strcasecmp_eq key ''phone''
        then override_loop addr None toks False (at_last (sPhone_update (\<lambda>_. Some arg)) ovs) rc
        else if strcasecmp_eq key ''ipaddr''
        then override_loop addr None toks False (at_last (sIpaddr_update (\<lambda>_. Some arg)) ovs) rc
        else if strcasecmp_eq key ''run''
        then override_loop addr None toks False (at_last (ov_run_update (\<lambda>_. Some arg)) ovs) rc
        else if strcasecmp_eq key ''worktime'' then
          (case timevec_parse_list (worktime (last ovs)) arg of
             (r, tv) \<Rightarrow> override_loop addr None toks False (at_last (worktime_update (\<lambda>_. tv)) ovs)
                          (if r = -1 then max rc PROC_RC_WARN else rc))
        else if strcasecmp_eq key ''freqtime'' then
          (case timevec_parse_list (freqtime (last ovs)) arg of
             (r, tv) \<Rightarrow> override_loop addr None toks False (at_last (freqtime_update (\<lambda>_. tv)) ovs)
                          (if r = -1 then max rc PROC_RC_WARN else rc))
        else if strcasecmp_eq key ''flags''
        then override_loop addr None toks False (at_last (sFlags_update (\<lambda>_. Some arg)) ovs) rc
        else if strcasecmp_eq key ''hidden'' then override_loop addr (Some arg) toks True ovs rc
        else override_loop addr (Some arg) toks False ovs (max rc PROC_RC_WARN))"

definition proc_override :: "string \<Rightarrow> int \<times> cval" where
  "proc_override value =
     (case string_token (Some value) None [] False of
        (p_addr, n) \<Rightarrow>
          if \<not> filled p_addr \<or> fst (ftn_addrparse (the p_addr) False) then (PROC_RC_IGNORE, Override [])
          else
            let addr = snd (ftn_addrparse (the p_addr) False) in
            (case override_loop addr None (string_tokens n [] True) False [new_override addr] PROC_RC_OK of
               (rc, ovs) \<Rightarrow> (rc, Override ovs)))"

subsection \<open>Lines\<close>

fun proc_value :: "(string \<Rightarrow> bool) \<Rightarrow> conf_type \<Rightarrow> string \<Rightarrow> int \<times> cval" where
  "proc_value isdir CT_ADDRESS v = proc_address v"
| "proc_value isdir CT_BOOLEAN v = proc_boolean v"
| "proc_value isdir CT_CONNLIST v = proc_speeddep v"
| "proc_value isdir CT_DIALRESP v = proc_dialresp v"
| "proc_value isdir CT_DOMAIN v = proc_domain v"
| "proc_value isdir CT_FILEMODE v = proc_filemode v"
| "proc_value isdir CT_MODEMPORT v = proc_modemport v"
| "proc_value isdir CT_NODELIST v = proc_nodelist v"
| "proc_value isdir CT_NUMBER v = proc_number v"
| "proc_value isdir CT_OPTIONS v = proc_options v"
| "proc_value isdir CT_OVERRIDE v = proc_override v"
| "proc_value isdir CT_PATH v = proc_path v"
| "proc_value isdir CT_PASSWORD v = proc_password v"
| "proc_value isdir CT_STRING v = proc_string v"
| "proc_value isdir CT_TRANSLATE v = proc_translate v"
| "proc_value isdir CT_TRIES v = proc_tries v"
| "proc_value isdir CT_FILEBOX v = proc_filebox isdir v"

definition append_config_entry :: "string \<Rightarrow> string option \<times> cval \<Rightarrow> conf \<Rightarrow> conf" where
  "append_config_entry k entry cf = cf\<lparr>conf_data := (conf_data cf)(k := conf_data cf k @ [entry])\<rparr>"

definition proc_configline ::
  "(string \<Rightarrow> bool) \<Rightarrow> string \<Rightarrow> string option \<Rightarrow> string \<Rightarrow> conf \<Rightarrow> int \<times> conf" where
  "proc_configline isdir k e v cf =
     (case map_of config_table k of
        None \<Rightarrow> (PROC_RC_IGNORE, cf)
      | Some type \<Rightarrow>
          (case proc_value isdir type v of
             (rc, val) \<Rightarrow>
               (rc, if rc = PROC_RC_OK \<or> rc = PROC_RC_WARN
                    then append_config_entry k (if filled e then e else None, val) cf else cf)))"

text \<open>
  \<open>conf_checkstr\<close> returns its result, the line, and what remains in the buffer behind a line that has
  become empty because it is a comment, where the reader goes on looking. The byte before the
  buffer is taken not to be a backslash.
\<close>

definition conf_checkstr :: "string \<Rightarrow> int \<times> string \<times> string" where
  "conf_checkstr str =
     (let str = (if isspace (peek str) then string_trimleft str else str);
          rc = (if str = [] \<or> hd str = CHR ''#'' then 1 else 0);
          after = rev (takeWhile (\<lambda>c. c \<noteq> CHR ''#'') (rev str));
          before = take (length str - length after - 1) str;
          str' = (if CHR ''#'' \<in> set str \<and> (before = [] \<or> last before \<noteq> CHR 0x5C) then before else str)
      in (rc, string_trimright str', if str' = [] then after else []))"

text \<open>
  The text of a condition, from behind its opening bracket to the bracket that closes it; a bracket
  behind a backslash does not count. The first argument is the character before.
\<close>

fun scan_expr :: "char \<Rightarrow> nat \<Rightarrow> string \<Rightarrow> (string \<times> string) option" where
  "scan_expr prev brackets [] = None"
| "scan_expr prev brackets (c # cs) =
     (let brackets = (if prev = CHR 0x5C then brackets
                      else if c = CHR ''('' then brackets + 1
                      else if c = CHR '')'' then brackets - 1 else brackets)
      in if brackets = 0 then Some ([], cs)
         else map_option (\<lambda>(e, r). (c # e, r)) (scan_expr c brackets cs))"

definition conf_parsestr :: "string \<Rightarrow> string option \<times> string option \<times> string option" where
  "conf_parsestr str =
     (let k = dropWhile isspace str;
          key = takeWhile (\<lambda>c. \<not> isspace c) k;
          p = dropWhile (\<lambda>c. \<not> isspace c) k
      in if p = [] then (Some key, None, None)
         else
           let v = dropWhile isspace (tl p);
               ev = (if peek v = CHR ''('' then
                       let e0 = dropWhile isspace (tl v);
                           prev = (if e0 = tl v then CHR ''('' else CHR '' '')
                       in map_option (\<lambda>(e, r). (Some (string_trimright e), r)) (scan_expr prev 1 e0)
                     else Some (None, v))
           in case ev of
                None \<Rightarrow> (None, None, None)
              | Some (e, v) \<Rightarrow>
                  (let v = dropWhile isspace v in
                   if v = [] then (Some key, e, None) else (Some key, e, Some (string_trimright v))))"

subsection \<open>Files\<close>

definition BF_MAXCFGLINE :: nat where "BF_MAXCFGLINE = 512"
definition MAXINCLUDELEVEL :: nat where "MAXINCLUDELEVEL = 10"

text \<open>
  \<open>fgets\<close> until the end of the file with a buffer for \<open>n\<close> characters: a line with its newline, or the
  first \<open>n\<close> characters of a longer one. What the program sees of it ends at a NUL.
\<close>

function fgets_lines :: "nat \<Rightarrow> string \<Rightarrow> string list" where
  "fgets_lines n s =
     (if s = [] \<or> n = 0 then []
      else
        let l = takeWhile (\<lambda>c. c \<noteq> CHR 0x0A) s;
            len = min n (if length l < length s then length l + 1 else length l)
        in cstr (take len s) # fgets_lines n (drop len s))"
  by pat_completeness auto
termination
proof (relation "measure (\<lambda>(n, s). length s)")
  show "wf (measure (\<lambda>(n, s). length s))" by simp
next
  fix n :: nat and s x xa
  assume a: "\<not> (s = [] \<or> n = 0)" "x = takeWhile (\<lambda>c. c \<noteq> CHR 0x0A) (s::string)"
    "xa = min n (if length x < length s then length x + 1 else length x)"
  have "length x \<noteq> 0 \<or> length x < length s" using a(1) by auto
  then have "0 < xa" using a(1,3) by auto
  then show "((n, drop xa s), (n, s)) \<in> measure (\<lambda>(n, s). length s)" using a(1) by simp
qed

declare fgets_lines.simps [simp del]

text \<open>The local variables of the reader.\<close>

record reader =
  fullstr :: "string option"
  isappend :: bool
  ifexpr :: "string option"
  isifexpr :: bool
  rd_conf :: conf

definition COMMENTCHR :: char where "COMMENTCHR = CHR ''#''"
definition PREPROCCHR :: char where "PREPROCCHR = CHR ''$''"
definition ESCAPECHR :: char where "ESCAPECHR = CHR 0x5C"

text \<open>The last character of the line is a backslash and the one before is not.\<close>

definition continued :: "string \<Rightarrow> string \<Rightarrow> bool" where
  "continued tmp stale =
     (let buf = (if tmp \<noteq> [] then tmp else if stale \<noteq> [] then NUL # stale else []) in
      buf \<noteq> [] \<and> last buf = ESCAPECHR \<and> (butlast buf = [] \<or> last (butlast buf) \<noteq> ESCAPECHR))"

text \<open>
  A directive, or a keyword with its value; \<open>inc\<close> reads an included file, unless the files are nested
  too deep. \<open>None\<close> is the read of a directive's file that ran into an escape at the end of its text.
\<close>

definition conf_directive ::
  "(string \<Rightarrow> conf \<Rightarrow> (int \<times> conf) option) option \<Rightarrow> string \<Rightarrow> string option \<Rightarrow> string option \<Rightarrow> reader
   \<Rightarrow> (int \<times> reader) option" where
  "conf_directive inc key expr value rd =
     (if strcasecmp_eq key ''include'' then
        (if value = None \<or> expr \<noteq> None then Some (PROC_RC_IGNORE, rd)
         else case inc of
                None \<Rightarrow> Some (PROC_RC_IGNORE, rd)
              | Some f \<Rightarrow>
                  map_option (\<lambda>(rc, cf). (if rc \<noteq> 0 then PROC_RC_IGNORE else rc, rd\<lparr>rd_conf := cf\<rparr>))
                    (f (the value) (rd_conf rd)))
      else if strcasecmp_eq key ''ifexp'' then
        (if value \<noteq> None \<or> isifexpr rd then Some (PROC_RC_ABORT, rd)
         else Some (PROC_RC_OK, rd\<lparr>ifexpr := expr, isifexpr := True\<rparr>))
      else if strcasecmp_eq key ''endif'' then
        (if value \<noteq> None \<or> expr \<noteq> None \<or> \<not> isifexpr rd then Some (PROC_RC_IGNORE, rd)
         else Some (PROC_RC_OK, rd\<lparr>ifexpr := None, isifexpr := False\<rparr>))
      else Some (PROC_RC_IGNORE, rd))"

definition dequoted :: "string option \<Rightarrow> string option option" where
  "dequoted p = (case p of None \<Rightarrow> Some None | Some s \<Rightarrow> map_option Some (string_dequote s))"

definition conf_statement ::
  "(string \<Rightarrow> bool) \<Rightarrow> (string \<Rightarrow> conf \<Rightarrow> (int \<times> conf) option) option \<Rightarrow> string \<Rightarrow> reader \<Rightarrow> (int \<times> reader) option" where
  "conf_statement isdir inc str rd =
     (case conf_parsestr str of
        (key, p_expr, p_value) \<Rightarrow>
          Option.bind (dequoted p_value) (\<lambda>value.
          Option.bind (dequoted p_expr) (\<lambda>expr.
            if key \<noteq> None \<and> peek (the key) = PREPROCCHR then conf_directive inc (tl (the key)) expr value rd
            else if key \<noteq> None \<and> value \<noteq> None then
              if isifexpr rd \<and> expr \<noteq> None then Some (PROC_RC_IGNORE, rd)
              else
                (case proc_configline isdir (the key) (if isifexpr rd then ifexpr rd else expr) (the value)
                        (rd_conf rd) of
                   (rc, cf) \<Rightarrow> Some (rc, rd\<lparr>rd_conf := cf\<rparr>))
            else Some (PROC_RC_IGNORE, rd))))"

text \<open>One turn of the loop: whether the reader stops at this line, and its variables.\<close>

definition conf_line ::
  "(string \<Rightarrow> bool) \<Rightarrow> (string \<Rightarrow> conf \<Rightarrow> (int \<times> conf) option) option \<Rightarrow> string \<Rightarrow> reader \<Rightarrow> (bool \<times> reader) option" where
  "conf_line isdir inc line rd =
     (case conf_checkstr (string_chomp line) of
        (rc, tmp, stale) \<Rightarrow>
          let rd' = (if rc \<noteq> 0 \<and> isifexpr rd then rd\<lparr>ifexpr := None, isifexpr := False\<rparr> else rd) in
          if rc \<noteq> 0 \<and> \<not> isappend rd then Some (False, rd')
          else
            let rd = (if rc \<noteq> 0 then rd'\<lparr>isappend := False\<rparr> else rd') in
            if continued tmp stale then
              let part = butlast tmp in
              Some (False,
                if fullstr rd \<noteq> None \<and> isappend rd then rd\<lparr>fullstr := xstrcat (fullstr rd) (Some part)\<rparr>
                else rd\<lparr>fullstr := Some part, isappend := True\<rparr>)
            else
              let rd = (if isappend rd then rd\<lparr>fullstr := xstrcat (fullstr rd) (Some tmp), isappend := False\<rparr> else rd)
              in map_option (\<lambda>(rc, rd). (rc = PROC_RC_ABORT, rd\<lparr>fullstr := None\<rparr>))
                   (conf_statement isdir inc (case fullstr rd of Some s \<Rightarrow> s | None \<Rightarrow> tmp) rd))"

fun conf_lines ::
  "(string \<Rightarrow> bool) \<Rightarrow> (string \<Rightarrow> conf \<Rightarrow> (int \<times> conf) option) option \<Rightarrow> string list \<Rightarrow> reader \<Rightarrow> (bool \<times> reader) option" where
  "conf_lines isdir inc [] rd = Some (False, rd)"
| "conf_lines isdir inc (l # ls) rd =
     Option.bind (conf_line isdir inc l rd)
       (\<lambda>(stop, rd). if stop then Some (True, rd) else conf_lines isdir inc ls rd)"

definition conf_readfile ::
  "(string \<Rightarrow> bool) \<Rightarrow> (string \<Rightarrow> string option) \<Rightarrow> (string \<Rightarrow> conf \<Rightarrow> (int \<times> conf) option) option \<Rightarrow> string \<Rightarrow> conf
   \<Rightarrow> (int \<times> conf) option" where
  "conf_readfile isdir fs inc confname cf =
     (case fs confname of
        None \<Rightarrow> Some (PROC_RC_IGNORE, cf)
      | Some text \<Rightarrow>
          map_option (\<lambda>(stop, rd). (if stop \<or> isifexpr rd then 1 else 0, rd_conf rd))
            (conf_lines isdir inc (fgets_lines BF_MAXCFGLINE text)
              \<lparr>fullstr = None, isappend = False, ifexpr = None, isifexpr = False, rd_conf = cf\<rparr>))"

text \<open>The argument is how many more levels of \<open>$include\<close> are allowed.\<close>

primrec conf_readlevel ::
  "(string \<Rightarrow> bool) \<Rightarrow> (string \<Rightarrow> string option) \<Rightarrow> nat \<Rightarrow> string \<Rightarrow> conf \<Rightarrow> (int \<times> conf) option" where
  "conf_readlevel isdir fs 0 = conf_readfile isdir fs None"
| "conf_readlevel isdir fs (Suc d) = conf_readfile isdir fs (Some (conf_readlevel isdir fs d))"

definition conf_readconf ::
  "(string \<Rightarrow> bool) \<Rightarrow> (string \<Rightarrow> string option) \<Rightarrow> string \<Rightarrow> conf \<Rightarrow> (int \<times> conf) option" where
  "conf_readconf isdir fs = conf_readlevel isdir fs MAXINCLUDELEVEL"

section \<open>Options\<close>

text \<open>
  What a word of an option line says about a bit: nothing, or the vl it gives it. A word names the
  first line of the table that it equals or negates.
\<close>

definition word_says :: "string \<Rightarrow> nat \<Rightarrow> bool option" where
  "word_says key n =
     (case find (\<lambda>(str, no, yes). strcasecmp_eq key str \<or> strncasecmp_eq key ''no'' 2 \<and> strcasecmp_eq (drop 2 key) str
                  \<or> peek key = CHR ''!'' \<and> strcasecmp_eq (drop 1 key) str) options_tab of
        Some (str, no, yes) \<Rightarrow>
          if bit yes n then Some (strcasecmp_eq key str)
          else if bit no n then Some (\<not> strcasecmp_eq key str) else None
      | None \<Rightarrow> None)"

text \<open>The last word that says something decides.\<close>

definition last_word :: "string list \<Rightarrow> nat \<Rightarrow> bool option" where
  "last_word ws n = fold (\<lambda>w d. case word_says w n of None \<Rightarrow> d | Some b \<Rightarrow> Some b) ws None"

lemma option_word_bits:
  "(case option_word key (vl, msk) of None \<Rightarrow> (bit vl n, bit msk n)
      | Some (vl', msk') \<Rightarrow> (bit vl' n, bit msk' n))
   = (case word_says key n of None \<Rightarrow> (bit vl n, bit msk n) | Some b \<Rightarrow> (b, True))"
proof (cases "find (\<lambda>(str, no, yes). strcasecmp_eq key str \<or> strncasecmp_eq key ''no'' 2 \<and> strcasecmp_eq (drop 2 key) str
                  \<or> peek key = CHR ''!'' \<and> strcasecmp_eq (drop 1 key) str) options_tab")
  case (Some e)
  obtain str no yes where e: "e = (str, no, yes)" by (cases e) auto
  have lt: "n < 64" if "bit yes n \<or> bit no n \<or> bit vl n \<or> bit msk n" using that by (auto dest: bit_imp_le_length)
  show ?thesis
    unfolding option_word_def word_says_def Some e
    using lt by (auto simp: bit_and_iff bit_or_iff bit_not_iff)
qed (simp add: option_word_def word_says_def)

lemma option_word_None: "option_word key d = None \<Longrightarrow> word_says key n = None"
  by (auto simp: option_word_def word_says_def split: option.splits prod.splits)

text \<open>A bit and its mask bit as what they decide; an undecided bit is clear.\<close>

definition decided :: "bool \<Rightarrow> bool \<Rightarrow> bool option \<Rightarrow> bool" where
  "decided b m d \<longleftrightarrow> m = (d \<noteq> None) \<and> b = (d = Some True)"

lemma decided_simps [simp]:
  "decided b m None \<longleftrightarrow> \<not> m \<and> \<not> b" "decided b m (Some c) \<longleftrightarrow> m \<and> b = c"
  by (auto simp: decided_def)

lemma proc_options_words_bits:
  assumes "decided (bit vl n) (bit msk n) d"
  shows "\<exists>vl' msk'. snd (proc_options_words ws (vl, msk) rc) = Options vl' msk'
    \<and> decided (bit vl' n) (bit msk' n)
        (fold (\<lambda>w d. case word_says w n of None \<Rightarrow> d | Some b \<Rightarrow> Some b) ws d)"
  using assms
proof (induction ws arbitrary: vl msk rc d)
  case (Cons key ws)
  show ?case
  proof (cases "option_word key (vl, msk)")
    case None
    then show ?thesis using Cons.IH [OF Cons.prems] option_word_None [OF None] by simp
  next
    case (Some vm)
    obtain v' m' where vm: "vm = (v', m')" by (cases vm)
    have "decided (bit v' n) (bit m' n) (case word_says key n of None \<Rightarrow> d | Some b \<Rightarrow> Some b)"
      using option_word_bits [where key = key and vl = vl and msk = msk and n = n] Some vm Cons.prems by (auto split: option.splits)
    from Cons.IH [OF this] show ?thesis using Some vm by simp
  qed
qed simp

lemma fold_last_word:
  "fold (\<lambda>w d. case word_says w n of None \<Rightarrow> d | Some b \<Rightarrow> Some b) ws d
   = (case last_word ws n of None \<Rightarrow> d | Some b \<Rightarrow> Some b)"
proof (induction ws arbitrary: d)
  case Nil
  then show ?case by (simp add: last_word_def)
next
  case (Cons key ws)
  have "last_word (key # ws) n = (case last_word ws n of None \<Rightarrow> word_says key n | Some b \<Rightarrow> Some b)"
    using Cons.IH [of "word_says key n"] by (cases "word_says key n") (simp_all add: last_word_def)
  then show ?case
    using Cons.IH [of d] Cons.IH [of "word_says key n"]
    by (cases "word_says key n") (simp_all split: option.splits)
qed

lemma last_word_append:
  "last_word (vs @ ws) n = (case last_word ws n of None \<Rightarrow> last_word vs n | Some b \<Rightarrow> Some b)"
  using fold_last_word [of n ws "last_word vs n"] by (simp add: last_word_def)

abbreviation option_words :: "string \<Rightarrow> string list" where
  "option_words line \<equiv> string_tokens (Some line) [] False"

lemma proc_options_bits:
  "\<exists>vl msk. snd (proc_options line) = Options vl msk
    \<and> decided (bit vl n) (bit msk n) (last_word (option_words line) n)"
  using proc_options_words_bits [of 0 n 0 None "option_words line" PROC_RC_OK]
  by (simp add: proc_options_def last_word_def)

lemma add_options_bits:
  assumes "n < 64"
  shows "bit (add_options (snd (proc_options line)) result) n
    = (case last_word (option_words line) n of None \<Rightarrow> bit result n | Some b \<Rightarrow> b)"
proof -
  obtain vl msk where "snd (proc_options line) = Options vl msk"
    "decided (bit vl n) (bit msk n) (last_word (option_words line) n)"
    using proc_options_bits by blast
  then show ?thesis
    using assms by (cases "last_word (option_words line) n") (auto simp: add_options_def bit_or_iff bit_and_iff bit_not_iff)
qed

text \<open>
  C11: options are the last word said. With the lines of an options keyword that are active at the
  moment, in the order of the files, an option is set exactly when the last word of all these
  lines that names it, plainly or negated, sets it; with no such word it is clear. Words of one line
  and words of later lines count alike, and unknown words say nothing.
\<close>

theorem conf_options_last_word:
  assumes "conf_entries cf key = map (snd \<circ> proc_options) lines" "n < 64"
  shows "bit (conf_options cf key) n = (last_word (concat (map option_words lines)) n = Some True)"
proof -
  have "bit (fold add_options (map (snd \<circ> proc_options) ls) r) n
    = (case last_word (concat (map option_words ls)) n of None \<Rightarrow> bit r n | Some b \<Rightarrow> b)" for ls r
  proof (induction ls arbitrary: r)
    case Nil
    then show ?case by (simp add: last_word_def)
  next
    case (Cons l ls)
    then show ?case
      using add_options_bits [OF assms(2), of l r] by (simp add: last_word_append split: option.split)
  qed
  then show ?thesis unfolding conf_options_def assms(1) by (auto split: option.split)
qed

theorem conf_options_last_word_witness:
  "bit (conf_options \<lparr>conf_data = (\<lambda>_. [(None, snd (proc_options ''HoldAll NoFreqs'')), (None, snd (proc_options ''!holdall''))]),
         eventexpr = (\<lambda>_. True)\<rparr> ''options'') 12
   = (last_word (concat (map option_words [''HoldAll NoFreqs'', ''!holdall''])) 12 = Some True)"
  by (rule conf_options_last_word) (simp_all add: conf_entries_def)

section \<open>Lines\<close>

text \<open>
  Conditions whose brackets match: other characters, a backslash with the character it quotes (not
  another backslash, which the code would take for a second quoting one), and brackets in pairs.
\<close>

inductive bracketed :: "string \<Rightarrow> bool" where
  empty: "bracketed []"
| plain: "c \<notin> {CHR ''('', CHR '')'', CHR 0x5C} \<Longrightarrow> bracketed s \<Longrightarrow> bracketed (c # s)"
| quoted: "c \<noteq> CHR 0x5C \<Longrightarrow> bracketed s \<Longrightarrow> bracketed (CHR 0x5C # c # s)"
| pair: "bracketed s \<Longrightarrow> bracketed t \<Longrightarrow> bracketed (CHR ''('' # s @ CHR '')'' # t)"

definition onto :: "string \<Rightarrow> (string \<times> string) option \<Rightarrow> (string \<times> string) option" where
  "onto e p = map_option (\<lambda>(x, y). (e @ x, y)) p"

lemma onto_onto: "onto a (onto b p) = onto (a @ b) p"
  by (cases p) (auto simp: onto_def)

lemma onto_Nil: "onto [] p = p"
  by (cases p) (auto simp: onto_def)

lemma onto_Cons: "map_option (\<lambda>(x, y). (c # x, y)) p = onto [c] p"
  by (simp add: onto_def)

lemma scan_plain:
  "prev = CHR 0x5C \<or> c \<noteq> CHR ''('' \<and> c \<noteq> CHR '')'' \<Longrightarrow> 0 < n \<Longrightarrow>
    scan_expr prev n (c # s) = onto [c] (scan_expr c n s)"
  by (auto simp: onto_Cons)

lemma scan_open: "prev \<noteq> CHR 0x5C \<Longrightarrow> scan_expr prev n (CHR ''('' # s) = onto ''('' (scan_expr (CHR ''('') (n + 1) s)"
  by (simp add: onto_Cons)

lemma scan_close: "prev \<noteq> CHR 0x5C \<Longrightarrow> 0 < n \<Longrightarrow>
    scan_expr prev (n + 1) (CHR '')'' # s) = onto '')'' (scan_expr (CHR '')'') n s)"
  by (simp add: onto_Cons)

declare scan_expr.simps [simp del]

lemma scan_bracketed:
  assumes "bracketed e" "prev \<noteq> CHR 0x5C" "0 < n"
  shows "\<exists>prev'. prev' \<noteq> CHR 0x5C \<and> scan_expr prev n (e @ r) = onto e (scan_expr prev' n r)"
  using assms
proof (induction arbitrary: prev n r rule: bracketed.induct)
  case empty
  then show ?case by (auto simp: onto_Nil)
next
  case (plain c s)
  from plain.hyps(1) have "c \<noteq> CHR 0x5C" "c \<noteq> CHR ''(''" "c \<noteq> CHR '')''" by simp_all
  with plain.IH [of c n r] plain.prems obtain prev' where
    "prev' \<noteq> CHR 0x5C" "scan_expr c n (s @ r) = onto s (scan_expr prev' n r)" by blast
  with plain.prems \<open>c \<noteq> CHR ''(''\<close> \<open>c \<noteq> CHR '')''\<close> show ?case
    using scan_plain [of prev c n "s @ r"] by (intro exI [of _ prev']) (simp add: onto_onto)
next
  case (quoted c s)
  from quoted.IH [of c n r] quoted.prems quoted.hyps(1) obtain prev' where
    p: "prev' \<noteq> CHR 0x5C" "scan_expr c n (s @ r) = onto s (scan_expr prev' n r)" by blast
  have "scan_expr prev n (CHR 0x5C # c # s @ r) = onto [CHR 0x5C] (scan_expr (CHR 0x5C) n (c # s @ r))"
    by (rule scan_plain) (simp_all add: quoted.prems)
  moreover have "scan_expr (CHR 0x5C) n (c # s @ r) = onto [c] (scan_expr c n (s @ r))"
    by (rule scan_plain) (simp_all add: quoted.prems)
  ultimately have "scan_expr prev n (CHR 0x5C # c # s @ r) = onto [CHR 0x5C] (onto [c] (scan_expr c n (s @ r)))"
    by simp
  with p show ?case by (intro exI [of _ prev']) (simp add: onto_onto)
next
  case (pair s t)
  from pair.IH(2) [of "CHR '')''" n r] pair.prems obtain p2 where
    p2: "p2 \<noteq> CHR 0x5C" "scan_expr (CHR '')'') n (t @ r) = onto t (scan_expr p2 n r)" by auto
  from pair.IH(1) [of "CHR ''(''" "n + 1" "CHR '')'' # t @ r"] obtain p1 where
    p1: "p1 \<noteq> CHR 0x5C" "scan_expr (CHR ''('') (n + 1) (s @ CHR '')'' # t @ r)
      = onto s (scan_expr p1 (n + 1) (CHR '')'' # t @ r))" by auto
  have "scan_expr prev n (CHR ''('' # s @ CHR '')'' # t @ r)
    = onto ''('' (onto s (onto '')'' (onto t (scan_expr p2 n r))))"
    by (simp only: scan_open [OF pair.prems(1)] p1 scan_close [OF p1(1) pair.prems(2)] p2)
  with p2(1) show ?case by (intro exI [of _ p2]) (simp add: onto_onto)
qed

lemma scan_condition:
  assumes "bracketed e" "prev \<noteq> CHR 0x5C"
  shows "scan_expr prev 1 (e @ CHR '')'' # r) = Some (e, r)"
proof -
  from scan_bracketed [OF assms, of 1 "CHR '')'' # r"] obtain prev' where
    "prev' \<noteq> CHR 0x5C" "scan_expr prev 1 (e @ CHR '')'' # r) = onto e (scan_expr prev' 1 (CHR '')'' # r))"
    by auto
  then show ?thesis by (simp add: onto_def scan_expr.simps)
qed

text \<open>A text that trimming leaves as it is.\<close>

definition trimmed :: "string \<Rightarrow> bool" where
  "trimmed s \<longleftrightarrow> s = [] \<or> \<not> isspace (hd s) \<and> \<not> isspace (last s)"

lemma trimmed_right: "trimmed s \<Longrightarrow> string_trimright s = s"
  by (cases s rule: rev_cases) (auto simp: trimmed_def string_trimright_def)

lemma trimmed_left: "trimmed s \<Longrightarrow> dropWhile isspace s = s"
  by (cases s) (auto simp: trimmed_def)

lemma dropWhile_spaces: "list_all isspace g \<Longrightarrow> dropWhile isspace (g @ s) = dropWhile isspace s"
  by (induction g) auto

lemma dropWhile_front:
  "list_all isspace g \<Longrightarrow> s \<noteq> [] \<Longrightarrow> \<not> isspace (hd s) \<Longrightarrow> dropWhile isspace (g @ s @ r) = s @ r"
  by (cases s) (auto simp: dropWhile_spaces)

lemma key_split:
  assumes "list_all isspace g0" "k \<noteq> []" "list_all (\<lambda>c. \<not> isspace c) k" "list_all isspace g1" "g1 \<noteq> []"
  shows "dropWhile isspace (g0 @ k @ g1 @ r) = k @ g1 @ r"
    and "takeWhile (\<lambda>c. \<not> isspace c) (k @ g1 @ r) = k"
    and "dropWhile (\<lambda>c. \<not> isspace c) (k @ g1 @ r) = g1 @ r"
proof -
  obtain a g where g1: "g1 = a # g" "isspace a" using assms(4,5) by (cases g1) auto
  show "dropWhile isspace (g0 @ k @ g1 @ r) = k @ g1 @ r"
    using assms(1-3) by (cases k) (auto simp: dropWhile_spaces)
  show "takeWhile (\<lambda>c. \<not> isspace c) (k @ g1 @ r) = k" "dropWhile (\<lambda>c. \<not> isspace c) (k @ g1 @ r) = g1 @ r"
    using assms(3) g1 by (auto simp: list_all_iff takeWhile_append dropWhile_append)
qed

lemma bracketed_append: "bracketed s \<Longrightarrow> bracketed t \<Longrightarrow> bracketed (s @ t)"
proof (induction rule: bracketed.induct)
  case (pair s u)
  then have "bracketed (CHR ''('' # s @ CHR '')'' # (u @ t))" by (intro bracketed.pair)
  then show ?case by simp
qed (auto intro: bracketed.intros)

lemma space_plain: "isspace c \<Longrightarrow> c \<notin> {CHR ''('', CHR '')'', CHR 0x5C}"
  by (auto simp: isspace_def)

lemma bracketed_spaces: "list_all isspace g \<Longrightarrow> bracketed g"
  by (induction g) (auto intro: bracketed.intros dest: space_plain)

lemma trimright_gap:
  assumes "trimmed s" "list_all isspace g"
  shows "string_trimright (s @ g) = s"
proof -
  have "dropWhile isspace (rev g @ rev s) = dropWhile isspace (rev s)"
    using assms(2) by (intro dropWhile_spaces) (simp add: list_all_iff)
  then show ?thesis using trimmed_right [OF assms(1)] by (simp add: string_trimright_def)
qed

lemma parse_key:
  assumes "list_all isspace g0" "k \<noteq> []" "list_all (\<lambda>c. \<not> isspace c) k" "isspace a"
    "dropWhile isspace r = x" "x \<noteq> []"
  shows "conf_parsestr (g0 @ k @ a # r) =
    (case (if hd x = CHR ''('' then
             let e0 = dropWhile isspace (tl x);
                 prev = (if e0 = tl x then CHR ''('' else CHR '' '')
             in map_option (\<lambda>(e, r). (Some (string_trimright e), r)) (scan_expr prev 1 e0)
           else Some (None, x)) of
       None \<Rightarrow> (None, None, None)
     | Some (e, v) \<Rightarrow>
         (let v = dropWhile isspace v in
          if v = [] then (Some k, e, None) else (Some k, e, Some (string_trimright v))))"
proof -
  from key_split [OF assms(1-3), of "[a]" r] assms(4)
  have k: "dropWhile isspace (g0 @ k @ a # r) = k @ a # r"
    "takeWhile (\<lambda>c. \<not> isspace c) (k @ a # r) = k"
    "dropWhile (\<lambda>c. \<not> isspace c) (k @ a # r) = a # r" by simp_all
  have "peek x = hd x" using assms(6) by (cases x) (simp_all add: peek_def)
  then show ?thesis
    unfolding conf_parsestr_def Let_def k list.sel assms(5) by (simp only: list.distinct if_False k list.sel assms(5))
qed

lemma condition_found:
  assumes "list_all isspace g2" "list_all isspace g3" "bracketed e" "trimmed e" "prev \<noteq> CHR 0x5C"
  shows "\<exists>e'. scan_expr prev 1 (dropWhile isspace (g2 @ e @ g3 @ CHR '')'' # r)) = Some (e', r)
    \<and> string_trimright e' = e"
proof (cases "e = []")
  case True
  then have "dropWhile isspace (g2 @ e @ g3 @ CHR '')'' # r) = CHR '')'' # r"
    using assms(1,2) by (simp add: dropWhile_spaces isspace_def)
  then show ?thesis
    using True scan_condition [OF bracketed.empty assms(5), of r] by (simp add: string_trimright_def)
next
  case False
  then have "dropWhile isspace (g2 @ e @ g3 @ CHR '')'' # r) = (e @ g3) @ CHR '')'' # r"
    using assms(1,4) dropWhile_front [of g2 e] by (simp add: trimmed_def)
  moreover have "scan_expr prev 1 ((e @ g3) @ CHR '')'' # r) = Some (e @ g3, r)"
    using scan_condition [OF bracketed_append [OF assms(3) bracketed_spaces [OF assms(2)]] assms(5)] .
  ultimately show ?thesis using trimright_gap [OF assms(4,2)] by simp
qed

text \<open>
  C12: A line of the configuration is split into its keyword, condition and value whatever white
  space stands before, between and behind them: the keyword is any text without white space; the
  condition, in brackets, may hold brackets of its own as long as they match or are quoted, and is
  stored without its outer brackets; the value is the rest of the line, inner white space included.
  Without a bracket at its start the rest is the value and there is no condition.
\<close>

theorem conf_parsestr_roundtrip:
  assumes "list_all (list_all isspace) [g0, a # g1, g2, g3, g4, g5]"
    "k \<noteq> []" "list_all (\<lambda>c. \<not> isspace c) k" "bracketed e" "trimmed e" "v \<noteq> []" "trimmed v"
  shows "conf_parsestr (g0 @ k @ (a # g1) @ ''('' @ g2 @ e @ g3 @ '')'' @ g4 @ v @ g5) = (Some k, Some e, Some v) \<and>
    (if hd v = CHR ''('' then True else conf_parsestr (g0 @ k @ (a # g1) @ v @ g5) = (Some k, None, Some v))"
proof -
  from assms(6,7) have v: "v \<noteq> []" "\<not> isspace (hd v)" by (simp_all add: trimmed_def)
  let ?r = "g4 @ v @ g5"
  have r: "dropWhile isspace ?r = v @ g5" using assms(1) v by (simp add: dropWhile_front)
  have vr: "(v @ g5 = []) = False" "string_trimright (v @ g5) = v"
    using v assms(1,7) by (simp_all add: trimright_gap)
  have open_plain: "\<not> isspace (CHR ''('')" by (simp add: isspace_def)
  let ?x = "g2 @ e @ g3 @ CHR '')'' # ?r"
  have 1: "conf_parsestr (g0 @ k @ a # (g1 @ CHR ''('' # ?x)) = (Some k, Some e, Some v)"
  proof -
    let ?e = "dropWhile isspace ?x"
    let ?p = "if ?e = ?x then CHR ''('' else CHR '' ''"
    have p: "?p \<noteq> CHR 0x5C" by (rule if_split [THEN iffD2]) simp
    from assms(1) have gs: "list_all isspace g2" "list_all isspace g3" by simp_all
    obtain e' where s: "scan_expr ?p 1 ?e = Some (e', ?r)" "string_trimright e' = e"
      using condition_found [OF gs assms(4,5) p, of ?r] by blast
    have b: "dropWhile isspace (g1 @ CHR ''('' # ?x) = CHR ''('' # ?x"
      using assms(1) by (simp add: dropWhile_spaces open_plain)
    have g: "list_all isspace g0" "isspace a" using assms(1) by simp_all
    note parse_key [OF g(1) assms(2,3) g(2) b list.distinct(2)]
    then show ?thesis
      by (simp only: simp_thms list.sel if_True Let_def s option.map option.case prod.case r vr if_False)
  qed
  have 2: "conf_parsestr (g0 @ k @ a # (g1 @ v @ g5)) = (Some k, None, Some v)" if "hd v \<noteq> CHR ''(''"
  proof -
    have g: "list_all isspace g0" "isspace a" using assms(1) by simp_all
    have b: "dropWhile isspace (g1 @ v @ g5) = v @ g5" using assms(1) v by (simp add: dropWhile_front)
    have c: "dropWhile isspace (v @ g5) = v @ g5" using v dropWhile_front [of "[]"] by simp
    have h: "(hd (v @ g5) = CHR ''('') = False" using v that by simp
    have ne: "v @ g5 \<noteq> []" using v by simp
    note parse_key [OF g(1) assms(2,3) g(2) b ne]
    then show ?thesis
      by (simp only: h if_False Let_def option.case prod.case c vr)
  qed
  from 1 2 show ?thesis by simp
qed

theorem conf_parsestr_roundtrip_witness:
  "conf_parsestr ('''' @ ''phone'' @ ('' '' @ []) @ ''('' @ '' '' @ ''speed(1)x'' @ [] @ '')'' @ '' '' @ ''5 1'' @ '' '')
     = (Some ''phone'', Some ''speed(1)x'', Some ''5 1'') \<and>
   conf_parsestr ('''' @ ''phone'' @ ('' '' @ []) @ ''5 1'' @ '' '') = (Some ''phone'', None, Some ''5 1'')"
proof -
  have b: "bracketed (''speed'' @ CHR ''('' # ''1'' @ CHR '')'' # ''x'')"
    by (intro bracketed_append bracketed.pair) (auto intro!: bracketed.intros)
  have g: "list_all (list_all isspace) ['''', CHR '' '' # '''', '' '', '''', '' '', '' '']"
    and k: "list_all (\<lambda>c. \<not> isspace c) ''phone''"
    and t: "trimmed ''speed(1)x''" "trimmed ''5 1''" "hd ''5 1'' \<noteq> CHR ''(''"
    by code_simp+
  from conf_parsestr_roundtrip [OF g _ k _ t(1) _ t(2)] b t(3) show ?thesis by simp
qed

section \<open>Included files\<close>

definition self_including :: string where
  "self_including = ''phone 1'' @ [CHR 0x0A] @ ''$include c'' @ [CHR 0x0A]"

lemma self_including_lines:
  "fgets_lines BF_MAXCFGLINE self_including = [''phone 1'' @ [CHR 0x0A], ''$include c'' @ [CHR 0x0A]]"
  by code_simp

lemma plain_line:
  assumes "conf_checkstr (string_chomp l) = (0, t, [])" "\<not> continued t []"
    "fullstr rd = None" "\<not> isappend rd"
  shows "conf_line isdir inc l rd
    = map_option (\<lambda>(rc, rd). (rc = PROC_RC_ABORT, rd\<lparr>fullstr := None\<rparr>)) (conf_statement isdir inc t rd)"
  using assms by (simp add: conf_line_def)

abbreviation fresh_reader :: "conf \<Rightarrow> reader" where
  "fresh_reader cf \<equiv> \<lparr>fullstr = None, isappend = False, ifexpr = None, isifexpr = False, rd_conf = cf\<rparr>"

lemma phone_line:
  "conf_line isdir inc (''phone 1'' @ [CHR 0x0A]) (fresh_reader cf)
   = Some (False, fresh_reader (append_config_entry ''phone'' (None, Text ''1'') cf))"
proof -
  have 1: "conf_checkstr (string_chomp (''phone 1'' @ [CHR 0x0A])) = (0, ''phone 1'', [])"
    "\<not> continued ''phone 1'' []"
    "conf_parsestr ''phone 1'' = (Some ''phone'', None, Some ''1'')" "dequoted (Some ''1'') = Some (Some ''1'')"
    "dequoted None = Some None" "(peek ''phone'' = PREPROCCHR) = False"
    "map_of config_table ''phone'' = Some CT_STRING" "filled None = False" by code_simp+
  have "conf_statement isdir inc ''phone 1'' (fresh_reader cf)
    = Some (0, fresh_reader (append_config_entry ''phone'' (None, Text ''1'') cf))"
    by (simp add: 1 conf_statement_def proc_configline_def proc_string_def PROC_RC_OK_def PREPROCCHR_def)
  with plain_line [OF 1(1,2), of "fresh_reader cf" isdir inc] show ?thesis by (simp add: PROC_RC_ABORT_def)
qed

lemma include_line:
  "conf_line isdir inc (''$include c'' @ [CHR 0x0A]) (fresh_reader cf)
   = (case inc of
        None \<Rightarrow> Some (False, fresh_reader cf)
      | Some f \<Rightarrow> map_option (\<lambda>(rc, cf). (False, fresh_reader cf)) (f ''c'' cf))"
proof -
  have 1: "conf_checkstr (string_chomp (''$include c'' @ [CHR 0x0A])) = (0, ''$include c'', [])"
    "\<not> continued ''$include c'' []"
    "conf_parsestr ''$include c'' = (Some ''$include'', None, Some ''c'')" "dequoted (Some ''c'') = Some (Some ''c'')"
    "dequoted None = Some None" "(peek ''$include'' = PREPROCCHR) = True" "strcasecmp_eq ''include'' ''include''"
    by code_simp+
  have "conf_statement isdir inc ''$include c'' (fresh_reader cf)
    = conf_directive inc ''include'' None (Some ''c'') (fresh_reader cf)"
    by (simp add: 1 conf_statement_def PREPROCCHR_def)
  with plain_line [OF 1(1,2), of "fresh_reader cf" isdir inc] show ?thesis
    by (cases inc; cases "the inc ''c'' cf")
      (auto simp: conf_directive_def 1(7) PROC_RC_IGNORE_def PROC_RC_ABORT_def split: if_splits)
qed

lemma append_config_replicate:
  "cf\<lparr>conf_data := (conf_data cf)(k := conf_data cf k @ replicate n e)\<rparr>
    = (append_config_entry k e ^^ n) cf"
proof (induction n)
  case (Suc n)
  have "(append_config_entry k e ^^ Suc n) cf
    = append_config_entry k e (cf\<lparr>conf_data := (conf_data cf)(k := conf_data cf k @ replicate n e)\<rparr>)"
    unfolding Suc.IH by simp
  also have "\<dots> = cf\<lparr>conf_data := (conf_data cf)(k := conf_data cf k @ replicate (Suc n) e)\<rparr>"
    unfolding append_config_entry_def by (simp add: replicate_append_same)
  finally show ?case ..
qed simp

lemma self_including_level:
  "conf_readlevel isdir (\<lambda>_. Some self_including) d f cf
    = Some (0, (append_config_entry ''phone'' (None, Text ''1'') ^^ Suc d) cf)"
proof (induction d arbitrary: f cf)
  case 0
  then show ?case
    by (simp add: conf_readfile_def self_including_lines phone_line include_line del: append.simps)
next
  case (Suc d)
  then show ?case
    by (simp add: conf_readfile_def self_including_lines phone_line include_line funpow_swap1 del: append.simps)
qed

text \<open>
  An example: reading a configuration ends even when files include each other without end: where every file
  that is opened holds one entry and an \<open>$include\<close> of another such file, the reader returns success
  with the entry added exactly once for the file itself and once for each of the ten levels of
  inclusion allowed, whatever the configuration was before.
\<close>

theorem conf_include_bounded:
  "conf_readconf isdir (\<lambda>_. Some (''phone 1'' @ [CHR 0x0A] @ ''$include c'' @ [CHR 0x0A])) f cf
    = Some (0, cf\<lparr>conf_data := (conf_data cf)(''phone'' := conf_data cf ''phone'' @ replicate 11 (None, Text ''1''))\<rparr>)"
  unfolding conf_readconf_def append_config_replicate
  using self_including_level [of isdir 10 f cf] by (simp add: self_including_def MAXINCLUDELEVEL_def)

end
