(* ===== verification/Files.thy ===== *)
theory Files
  imports UString UMisc UTime
begin

text \<open>
  Files. The first part is the part of the operating system and of the C library the program works
  on: a directory of paths, files that live on while they are open, streams with a position, the
  clock, the random numbers, and system calls of which any may fail. The second part is
  \<open>u_file.c\<close>, and the recoding of names of \<open>u_recode.c\<close>.
\<close>

section \<open>The system\<close>

record fnode =
  content :: string
  mtime :: int
  fmode :: int
  is_dir :: bool

text \<open>
  \<open>dir\<close> maps paths, as they are written, to the files of \<open>inode\<close>. The \<open>n\<close>-th system call that may fail
  does so when \<open>fails n\<close>; whether locks are supported at all, what \<open>statvfs\<close> says of a file system,
  the names a directory lists, and the random numbers are given as well.
\<close>

record world =
  dir :: "string \<Rightarrow> nat option"
  inode :: "nat \<Rightarrow> fnode"
  next_inode :: nat
  now :: int
  gmtoff :: int
  fails :: "nat \<Rightarrow> bool"
  calls :: nat
  no_locks :: bool
  statvfs :: "string \<Rightarrow> int option"
  listing :: "string \<Rightarrow> string list option"
  rands :: "nat \<Rightarrow> nat"
  drawn :: nat

record stream =
  st_inode :: nat
  st_pos :: nat
  st_append :: bool
  st_eof :: bool

definition syscall :: "world \<Rightarrow> bool \<times> world" where
  "syscall w = (\<not> fails w (calls w), w\<lparr>calls := calls w + 1\<rparr>)"

definition rand :: "world \<Rightarrow> nat \<times> world" where
  "rand w = (rands w (drawn w) mod 2 ^ 31, w\<lparr>drawn := drawn w + 1\<rparr>)"

definition stat :: "string \<Rightarrow> world \<Rightarrow> fnode option" where
  "stat path w = map_option (inode w) (dir w path)"

definition exists :: "string \<Rightarrow> world \<Rightarrow> bool" where
  "exists path w \<longleftrightarrow> dir w path \<noteq> None"

definition set_inode :: "nat \<Rightarrow> (fnode \<Rightarrow> fnode) \<Rightarrow> world \<Rightarrow> world" where
  "set_inode i f w = w\<lparr>inode := (inode w)(i := f (inode w i))\<rparr>"

definition set_file :: "string \<Rightarrow> (fnode \<Rightarrow> fnode) \<Rightarrow> world \<Rightarrow> bool \<times> world" where
  "set_file path f w =
     (case dir w path of
        None \<Rightarrow> (False, w)
      | Some i \<Rightarrow> (case syscall w of (ok, w) \<Rightarrow> if ok then (True, set_inode i f w) else (False, w)))"

text \<open>\<open>unlink\<close> and \<open>rename\<close>; the flag is success.\<close>

definition unlink_file :: "string \<Rightarrow> world \<Rightarrow> bool \<times> world" where
  "unlink_file path w =
     (case syscall w of (ok, w) \<Rightarrow>
        if ok \<and> exists path w \<and> \<not> is_dir (the (stat path w))
        then (True, w\<lparr>dir := (dir w)(path := None)\<rparr>) else (False, w))"

definition rename_file :: "string \<Rightarrow> string \<Rightarrow> world \<Rightarrow> bool \<times> world" where
  "rename_file old new w =
     (case syscall w of (ok, w) \<Rightarrow>
        if ok \<and> exists old w then (True, w\<lparr>dir := (dir w)(old := None, new := dir w old)\<rparr>) else (False, w))"

definition mkdir_file :: "string \<Rightarrow> int \<Rightarrow> world \<Rightarrow> bool \<times> world" where
  "mkdir_file path md w =
     (case syscall w of (ok, w) \<Rightarrow>
        if ok \<and> path \<noteq> [] \<and> \<not> exists path w
        then (True, w\<lparr>dir := (dir w)(path \<mapsto> next_inode w),
                      inode := (inode w)(next_inode w := \<lparr>content = [], mtime = now w, fmode = md, is_dir = True\<rparr>),
                      next_inode := next_inode w + 1\<rparr>)
        else (False, w))"

definition new_file :: "string \<Rightarrow> world \<Rightarrow> nat \<times> world" where
  "new_file path w =
     (next_inode w,
      w\<lparr>dir := (dir w)(path \<mapsto> next_inode w),
        inode := (inode w)(next_inode w := \<lparr>content = [], mtime = now w, fmode = 384, is_dir = False\<rparr>),
        next_inode := next_inode w + 1\<rparr>)"

text \<open>\<open>fopen\<close> in the modes the program uses: read, update, write anew, append.\<close>

datatype openmode = Mode_r | Mode_rp | Mode_w | Mode_a

definition fopen :: "string \<Rightarrow> openmode \<Rightarrow> world \<Rightarrow> stream option \<times> world" where
  "fopen path md w =
     (case syscall w of (ok, w) \<Rightarrow>
        if \<not> ok then (None, w)
        else case dir w path of
          None \<Rightarrow>
            if md = Mode_r \<or> md = Mode_rp then (None, w)
            else (case new_file path w of
                    (i, w) \<Rightarrow> (Some \<lparr>st_inode = i, st_pos = 0, st_append = (md = Mode_a), st_eof = False\<rparr>, w))
        | Some i \<Rightarrow>
            if is_dir (inode w i) \<and> md \<noteq> Mode_r then (None, w)
            else
              let w = (if md = Mode_w then set_inode i (\<lambda>f. f\<lparr>content := [], mtime := now w\<rparr>) w else w)
              in (Some \<lparr>st_inode = i, st_pos = (if md = Mode_a then length (content (inode w i)) else 0),
                        st_append = (md = Mode_a), st_eof = False\<rparr>, w))"

definition fclose :: "stream \<Rightarrow> world \<Rightarrow> bool \<times> world" where
  "fclose s w = syscall w"

definition ftell :: "stream \<Rightarrow> world \<Rightarrow> int \<times> world" where
  "ftell s w = (case syscall w of (ok, w) \<Rightarrow> (if ok then int (st_pos s) else -1, w))"

definition fseek :: "stream \<Rightarrow> nat \<Rightarrow> world \<Rightarrow> bool \<times> stream \<times> world" where
  "fseek s pos w =
     (case syscall w of (ok, w) \<Rightarrow> (ok, if ok then s\<lparr>st_pos := pos, st_eof := False\<rparr> else s, w))"

text \<open>Reading: the bytes, and the stream, at its end when fewer were there. A failed read has no bytes.\<close>

definition fread :: "nat \<Rightarrow> stream \<Rightarrow> world \<Rightarrow> string \<times> stream \<times> world" where
  "fread n s w =
     (case syscall w of (ok, w) \<Rightarrow>
        if \<not> ok \<or> is_dir (inode w (st_inode s)) then ([], s, w)
        else
          let d = take n (drop (st_pos s) (content (inode w (st_inode s)))) in
          (d, s\<lparr>st_pos := st_pos s + length d, st_eof := (length d < n \<or> st_eof s)\<rparr>, w))"

text \<open>\<open>fgets\<close> with a buffer for \<open>n\<close> characters and the NUL; what is seen of a line ends at a NUL.\<close>

definition fgets :: "nat \<Rightarrow> stream \<Rightarrow> world \<Rightarrow> string option \<times> stream \<times> world" where
  "fgets n s w =
     (case syscall w of (ok, w) \<Rightarrow>
        let rest = drop (st_pos s) (content (inode w (st_inode s)));
            l = takeWhile (\<lambda>c. c \<noteq> CHR 0x0A) rest;
            full = take n (if length l < length rest then l @ [CHR 0x0A] else l)
        in if \<not> ok \<or> is_dir (inode w (st_inode s)) then (None, s, w)
           else if full = [] then (None, s\<lparr>st_eof := True\<rparr>, w)
           else (Some (cstr full),
                 s\<lparr>st_pos := st_pos s + length full,
                   st_eof := (length full = length rest \<and> length full < n \<and> last full \<noteq> CHR 0x0A \<or> st_eof s)\<rparr>, w))"

definition overwrite :: "nat \<Rightarrow> string \<Rightarrow> string \<Rightarrow> string" where
  "overwrite pos d c = take pos c @ replicate (pos - length c) NUL @ d @ drop (pos + length d) c"

definition fwrite :: "string \<Rightarrow> stream \<Rightarrow> world \<Rightarrow> bool \<times> stream \<times> world" where
  "fwrite d s w =
     (case syscall w of (ok, w) \<Rightarrow>
        if \<not> ok then (False, s, w)
        else
          let f = inode w (st_inode s); pos = (if st_append s then length (content f) else st_pos s)
          in (True, s\<lparr>st_pos := pos + length d\<rparr>,
              set_inode (st_inode s) (\<lambda>f. f\<lparr>content := overwrite pos d (content f), mtime := now w\<rparr>) w))"

section \<open>The code\<close>

subsection \<open>Opening and locking\<close>

text \<open>\<open>fcntl\<close> with \<open>F_SETLK\<close>: of the failures only those of a system without locks are told apart.\<close>

definition file_lock :: "world \<Rightarrow> bool \<times> world" where
  "file_lock w = (case syscall w of (ok, w) \<Rightarrow> (ok \<and> \<not> no_locks w, w))"

primrec lock_tries :: "nat \<Rightarrow> world \<Rightarrow> bool \<times> world" where
  "lock_tries 0 w = (False, w)"
| "lock_tries (Suc n) w = (case file_lock w of (ok, w) \<Rightarrow> if ok then (True, w) else lock_tries n w)"

definition file_lock_wait :: "world \<Rightarrow> bool \<times> world" where
  "file_lock_wait = lock_tries 50"

definition file_open :: "string \<Rightarrow> openmode \<Rightarrow> world \<Rightarrow> stream option \<times> world" where
  "file_open path md w =
     (case fopen path md w of
        (None, w) \<Rightarrow> (None, w)
      | (Some s, w) \<Rightarrow>
          (case file_lock w of (ok, w) \<Rightarrow>
             if ok \<or> no_locks w then (Some s, w)
             else
               (case file_lock_wait w of (ok, w) \<Rightarrow>
                  if ok then (Some s, w) else (None, snd (fclose s w)))))"

text \<open>True is success, where the code returns zero.\<close>

definition file_close :: "stream \<Rightarrow> world \<Rightarrow> bool \<times> world" where
  "file_close s w = fclose s (snd (syscall w))"

subsection \<open>Names\<close>

definition file_name_issafe :: "char \<Rightarrow> bool" where
  "file_name_issafe c \<longleftrightarrow> c \<in> set ''!\"#$&+,-.@_^~'' \<or> 47 < ord c \<and> ord c < 58 \<or> 64 < ord c \<and> ord c < 91
     \<or> 96 < ord c \<and> ord c < 123 \<or> 127 < ord c \<and> ord c < 256"

definition file_name_makesafe :: "string \<Rightarrow> string" where
  "file_name_makesafe = map (\<lambda>c. if file_name_issafe c then c else CHR ''_'')"

definition file_getname :: "string \<Rightarrow> string" where
  "file_getname s = rev (takeWhile (\<lambda>c. c \<noteq> CHR ''/'') (rev s))"

definition fnctab :: "(string \<times> string) list" where
  "fnctab = [(''.tar.gz'', ''.tgz''), (''.tar.bz2'', ''.tbz''), (''.html'', ''.htm''), (''.desc'', ''.dsc'')]"

text \<open>\<open>strstr\<close>: the text before the first occurrence, and from it on.\<close>

fun strstr :: "string \<Rightarrow> string \<Rightarrow> (string \<times> string) option" where
  "strstr s f =
     (if take (length f) s = f then Some ([], s)
      else case s of [] \<Rightarrow> None | c # cs \<Rightarrow> map_option (\<lambda>(a, b). (c # a, b)) (strstr cs f))"

text \<open>\<open>strcat\<close> of the replacement overwrites the text it then wants to append from there.\<close>

fun fnc_replace :: "(string \<times> string) list \<Rightarrow> string \<Rightarrow> string" where
  "fnc_replace [] s = s"
| "fnc_replace ((f, r) # tab) s =
     (case strstr s f of
        None \<Rightarrow> fnc_replace tab s
      | Some (before, found) \<Rightarrow> before @ r @ drop (length f) found)"


text \<open>
  The pass from the last character to the first, with the text behind the place (as the pass has left
  it) and the length of the extension found so far.
\<close>

fun dos_chars :: "string \<Rightarrow> string \<Rightarrow> nat \<Rightarrow> string \<times> nat" where
  "dos_chars [] behind ext = (behind, ext)"
| "dos_chars (c # cs) behind ext =
     (if ord c \<le> 32 \<or> c = CHR ''*'' \<or> c = CHR ''?'' then dos_chars cs (CHR ''_'' # behind) ext
      else if c = CHR ''.'' then
        (if length behind + 1 \<le> 4 \<and> 1 < length behind + 1 \<and> ext = 0
         then dos_chars cs (c # behind) (length behind)
         else dos_chars cs (CHR ''_'' # behind) ext)
      else dos_chars cs (c # behind) ext)"

definition file_get_dos_name :: "string \<Rightarrow> string" where
  "file_get_dos_name filename =
     (case dos_chars (rev (fnc_replace fnctab filename)) [] 0 of
        (copy, ext) \<Rightarrow>
          string_tolower
            (if 0 < ext \<and> length copy \<le> 9 + ext \<or> ext = 0 \<and> length copy \<le> 8 then copy
             else if 0 < ext then take 5 copy @ ''~'' @ drop (length copy - 3 - ext) copy
             else take 5 copy @ ''~'' @ drop (length copy - 2) copy))"

subsection \<open>Directories\<close>

definition is_directory :: "string \<Rightarrow> world \<Rightarrow> bool" where
  "is_directory dirname w = (case stat dirname w of None \<Rightarrow> False | Some f \<Rightarrow> is_dir f)"

definition is_regfile :: "string \<Rightarrow> world \<Rightarrow> bool" where
  "is_regfile filename w = (case stat filename w of None \<Rightarrow> False | Some f \<Rightarrow> \<not> is_dir f)"

text \<open>
  The path up to the place (turned round), and the rest. The third component of an outcome tells
  whether a failed \<open>mkdir\<close> found the path already there.
\<close>

definition dir_step :: "string \<Rightarrow> int \<Rightarrow> world \<Rightarrow> bool \<times> world" where
  "dir_step path md w =
     (if is_directory path w then (True, w)
      else
        (case mkdir_file path md w of (ok, w') \<Rightarrow>
           if \<not> ok \<and> \<not> exists path w then (False, w')
           else (True, snd (set_file path (\<lambda>f. f\<lparr>fmode := md\<rparr>) w'))))"

fun dir_walk :: "string \<Rightarrow> string \<Rightarrow> int \<Rightarrow> world \<Rightarrow> bool \<times> world" where
  "dir_walk done [] md w = (if done = [] then (True, w) else dir_step (rev done) md w)"
| "dir_walk done (c # cs) md w =
     (if c \<noteq> CHR ''/'' then dir_walk (c # done) cs md w
      else
        (case dir_step (rev done) md w of (ok, w) \<Rightarrow>
           if \<not> ok then (False, w)
           else if cs = [] then (True, w) else dir_walk (c # done) cs md w))"

definition BFORCE_PATH :: nat where "BFORCE_PATH = 256"

definition directory_create :: "string \<Rightarrow> int \<Rightarrow> world \<Rightarrow> bool \<times> world" where
  "directory_create dirname md w = dir_walk [] (take BFORCE_PATH dirname) md w"

section \<open>Directories\<close>

lemma syscall_dir [simp]: "dir (snd (syscall w)) = dir w"
  by (simp add: syscall_def)

lemma mkdir_nothing: "dir w [] = None \<Longrightarrow> fst (mkdir_file [] md w) = False \<and> dir (snd (mkdir_file [] md w)) = dir w"
  by (simp add: mkdir_file_def syscall_def)

text \<open>
  The status directory of every configuration in use is given by its full path, and is never created
  when it does not exist: the part in front of the first separator is empty, it cannot be created, and
  the failure is not \<open>EEXIST\<close>.
\<close>

lemma directory_create_absolute:
  assumes "dir w [] = None"
  shows "fst (directory_create (CHR ''/'' # path) md w) = False
    \<and> dir (snd (directory_create (CHR ''/'' # path) md w)) = dir w"
proof -
  have "is_directory [] w = False" "exists [] w = False"
    using assms by (simp_all add: is_directory_def stat_def exists_def)
  moreover have "directory_create (CHR ''/'' # path) md w
    = dir_walk [] (CHR ''/'' # take (BFORCE_PATH - 1) path) md w"
    by (simp add: directory_create_def BFORCE_PATH_def)
  ultimately show ?thesis
    using mkdir_nothing [OF assms, of md] by (auto simp: dir_step_def split: prod.splits)
qed

section \<open>Names in the 8+3 form\<close>

definition dos_char :: "char \<Rightarrow> bool" where
  "dos_char c \<longleftrightarrow> 32 < ord c \<and> c \<noteq> CHR ''*'' \<and> c \<noteq> CHR ''?''"

definition dotted :: "string \<Rightarrow> nat \<Rightarrow> bool" where
  "dotted s ext \<longleftrightarrow> list_all dos_char s \<and>
     (if ext = 0 then CHR ''.'' \<notin> set s
      else ext \<le> 3 \<and> (\<exists>b x. s = b @ CHR ''.'' # x \<and> CHR ''.'' \<notin> set b \<and> CHR ''.'' \<notin> set x \<and> length x = ext))"

lemma dotted_Cons:
  "dotted behind ext \<Longrightarrow> dos_char c \<Longrightarrow> c \<noteq> CHR ''.'' \<Longrightarrow> dotted (c # behind) ext"
proof (cases "ext = 0")
  case False
  assume a: "dotted behind ext" "dos_char c" "c \<noteq> CHR ''.''"
  with False obtain b x where "behind = b @ CHR ''.'' # x" "CHR ''.'' \<notin> set b" "CHR ''.'' \<notin> set x"
    "length x = ext" "ext \<le> 3" "list_all dos_char behind" by (auto simp: dotted_def)
  then have "c # behind = (c # b) @ CHR ''.'' # x" "CHR ''.'' \<notin> set (c # b)" using a(3) by simp_all
  with \<open>CHR ''.'' \<notin> set x\<close> \<open>length x = ext\<close>
  have "\<exists>b x. c # behind = b @ CHR ''.'' # x \<and> CHR ''.'' \<notin> set b \<and> CHR ''.'' \<notin> set x \<and> length x = ext"
    by blast
  with False \<open>ext \<le> 3\<close> \<open>list_all dos_char behind\<close> a(2) show ?thesis by (simp add: dotted_def)
qed (auto simp: dotted_def)

lemma dotted_ext:
  assumes "dotted behind 0" "length behind \<le> 3" "behind \<noteq> []"
  shows "dotted (CHR ''.'' # behind) (length behind)"
proof -
  have "CHR ''.'' # behind = [] @ CHR ''.'' # behind" "CHR ''.'' \<notin> set behind" "dos_char (CHR ''.'')"
    using assms(1) by (simp_all add: dotted_def dos_char_def)
  then have "\<exists>b x. CHR ''.'' # behind = b @ CHR ''.'' # x \<and> CHR ''.'' \<notin> set b \<and> CHR ''.'' \<notin> set x
    \<and> length x = length behind" by (metis empty_iff empty_set)
  with assms \<open>dos_char (CHR ''.'')\<close> show ?thesis by (simp add: dotted_def)
qed

lemma dos_chars_dotted:
  "dotted behind ext \<Longrightarrow> (case dos_chars cs behind ext of (s, e) \<Rightarrow> dotted s e)"
proof (induction cs behind ext rule: dos_chars.induct)
  case (2 c cs behind ext)
  have u: "dotted (CHR ''_'' # behind) ext"
    using 2(5) by (intro dotted_Cons) (simp_all add: dos_char_def)
  consider (bad) "ord c \<le> 32 \<or> c = CHR ''*'' \<or> c = CHR ''?''"
    | (ext) "\<not> (ord c \<le> 32 \<or> c = CHR ''*'' \<or> c = CHR ''?'')" "c = CHR ''.''"
        "length behind + 1 \<le> 4 \<and> 1 < length behind + 1 \<and> ext = 0"
    | (dot) "\<not> (ord c \<le> 32 \<or> c = CHR ''*'' \<or> c = CHR ''?'')" "c = CHR ''.''"
        "\<not> (length behind + 1 \<le> 4 \<and> 1 < length behind + 1 \<and> ext = 0)"
    | (plain) "\<not> (ord c \<le> 32 \<or> c = CHR ''*'' \<or> c = CHR ''?'')" "c \<noteq> CHR ''.''" by blast
  then show ?case
  proof cases
    case bad
    then show ?thesis using 2(1) u by (simp only: dos_chars.simps if_True)
  next
    case ext
    have "dotted (c # behind) (length behind)"
      using dotted_ext [of behind] ext 2(5) by simp
    then show ?thesis using 2(2) ext by (simp only: dos_chars.simps if_True if_False simp_thms)
  next
    case dot
    then show ?thesis using 2(3) u by (simp only: dos_chars.simps if_True if_False simp_thms)
  next
    case plain
    have "dotted (c # behind) ext"
      using plain 2(5) by (intro dotted_Cons) (auto simp: dos_char_def)
    then show ?thesis using 2(4) plain by (simp only: dos_chars.simps if_True if_False simp_thms)
  qed
qed simp

text \<open>A name of the form 8+3: what is in front of the first dot, and one extension.\<close>

definition dos_name :: "string \<Rightarrow> bool" where
  "dos_name s \<longleftrightarrow> list_all (\<lambda>c. dos_char c \<and> tolower c = c) s \<and> length (takeWhile (\<lambda>c. c \<noteq> CHR ''.'') s) \<le> 8 \<and>
     (case dropWhile (\<lambda>c. c \<noteq> CHR ''.'') s of
        [] \<Rightarrow> True | d # e \<Rightarrow> 1 \<le> length e \<and> length e \<le> 3 \<and> CHR ''.'' \<notin> set e)"

lemma ord_tolower: "ord (tolower c) = (if isupper c then ord c + 32 else ord c)"
  by (simp add: tolower_def isupper_def)

lemma tolower_plain: "ord d < 65 \<Longrightarrow> (tolower c = d) = (c = d)"
proof (cases "isupper c")
  case True
  moreover from True have "97 \<le> ord (tolower c)" "65 \<le> ord c" using ord_tolower [of c] by (simp_all add: isupper_def)
  moreover assume "ord d < 65"
  ultimately show ?thesis by auto
qed (simp add: tolower_def)

lemma tolower_dot: "(tolower c = CHR ''.'') = (c = CHR ''.'')"
  by (rule tolower_plain) simp

lemma tolower_idem: "tolower (tolower c) = tolower c"
  using ord_tolower [of c] by (auto simp: tolower_def isupper_def)

lemma dos_char_tolower: "dos_char c \<Longrightarrow> dos_char (tolower c)"
  using tolower_plain [of "CHR ''*''" c] tolower_plain [of "CHR ''?''" c] ord_tolower [of c]
  by (simp add: dos_char_def)

lemma takeWhile_dot: "CHR ''.'' \<notin> set b \<Longrightarrow> takeWhile (\<lambda>c. c \<noteq> CHR ''.'') (b @ CHR ''.'' # x) = b"
  "CHR ''.'' \<notin> set b \<Longrightarrow> dropWhile (\<lambda>c. c \<noteq> CHR ''.'') (b @ CHR ''.'' # x) = CHR ''.'' # x"
  by (induction b) auto

lemma no_dot: "CHR ''.'' \<notin> set b \<Longrightarrow> takeWhile (\<lambda>c. c \<noteq> CHR ''.'') b = b"
  "CHR ''.'' \<notin> set b \<Longrightarrow> dropWhile (\<lambda>c. c \<noteq> CHR ''.'') b = []"
  by (induction b) auto

lemma tolower_no_dot: "CHR ''.'' \<notin> set b \<Longrightarrow> CHR ''.'' \<notin> set (map tolower b)"
  by (induction b) (simp_all add: tolower_dot eq_commute [of "CHR ''.''"])

lemma tolower_all: "list_all dos_char b \<Longrightarrow> list_all (\<lambda>c. dos_char c \<and> tolower c = c) (map tolower b)"
  by (induction b) (simp_all add: dos_char_tolower tolower_idem)

lemma dos_name_plain:
  assumes "CHR ''.'' \<notin> set b" "list_all dos_char b" "length b \<le> 8"
  shows "dos_name (string_tolower b)"
  unfolding dos_name_def string_tolower_def no_dot [OF tolower_no_dot [OF assms(1)]]
  using tolower_all [OF assms(2)] assms(3) by simp

lemma dos_name_ext:
  assumes "CHR ''.'' \<notin> set b" "CHR ''.'' \<notin> set x" "list_all dos_char b" "list_all dos_char x" "length b \<le> 8"
    "1 \<le> length x" "length x \<le> 3"
  shows "dos_name (string_tolower (b @ CHR ''.'' # x))"
proof -
  have dot: "dos_char (CHR ''.'')" "tolower (CHR ''.'') = CHR ''.''" by (code_simp, code_simp)
  then have "string_tolower (b @ CHR ''.'' # x) = map tolower b @ CHR ''.'' # map tolower x"
    by (simp add: string_tolower_def)
  then show ?thesis
    using assms(5-7) dot takeWhile_dot [OF tolower_no_dot [OF assms(1)]] tolower_no_dot [OF assms(2)]
      tolower_all [OF assms(3)] tolower_all [OF assms(4)]
    by (simp add: dos_name_def)
qed

lemma dos_name_result: "dos_name (file_get_dos_name f)"
proof -
  obtain s e where d: "dos_chars (rev (fnc_replace fnctab f)) [] 0 = (s, e)" by fastforce
  with dos_chars_dotted [of "[]" 0 "rev (fnc_replace fnctab f)"] have i: "dotted s e" by (simp add: dotted_def)
  show ?thesis
  proof (cases "e = 0")
    case True
    have tilde: "dos_char (CHR ''~'')" by (simp add: dos_char_def)
    from i True have s: "CHR ''.'' \<notin> set s" "list_all dos_char s" by (simp_all add: dotted_def)
    let ?t = "take 5 s @ ''~'' @ drop (length s - 2) s"
    have "CHR ''.'' \<notin> set ?t" "list_all dos_char ?t" "length ?t \<le> 8"
      using s tilde by (auto simp: list_all_iff dest: in_set_takeD in_set_dropD)
    then show ?thesis
      using True d s by (simp add: file_get_dos_name_def dos_name_plain del: append.simps)
  next
    case False
    with i obtain b x where s: "s = b @ CHR ''.'' # x" "CHR ''.'' \<notin> set b" "CHR ''.'' \<notin> set x" "length x = e"
      "e \<le> 3" "list_all dos_char b" "list_all dos_char x" by (auto simp: dotted_def)
    show ?thesis
    proof (cases "length s \<le> 9 + e")
      case True
      then have "length b \<le> 8" using s by simp
      then show ?thesis using dos_name_ext [of b x] False True s d by (simp add: file_get_dos_name_def)
    next
      case long: False
      let ?b = "take 5 b @ ''~'' @ drop (length b - 2) b"
      have b: "8 < length b" using long s by simp
      have "take 5 s @ ''~'' @ drop (length s - 3 - e) s = ?b @ CHR ''.'' # x"
        using b s(1,4) by simp
      moreover have "CHR ''.'' \<notin> set ?b" "list_all dos_char ?b" "length ?b \<le> 8"
        using s b by (auto simp: list_all_iff dos_char_def dest: in_set_takeD in_set_dropD)
      ultimately show ?thesis
        using False long d s dos_name_ext [of ?b x] by (simp add: file_get_dos_name_def del: append.simps)
    qed
  qed
qed

declare strstr.simps [simp del]

lemma strstr_found: "strstr s f = Some (a, b) \<Longrightarrow> s = a @ b \<and> take (length f) b = f"
proof (induction s arbitrary: a b)
  case Nil
  then show ?case by (auto simp: strstr.simps [of "[]"] split: if_splits)
next
  case (Cons c cs)
  show ?case
  proof (cases "take (length f) (c # cs) = f")
    case True
    then show ?thesis using Cons.prems by (simp add: strstr.simps [of "c # cs"])
  next
    case False
    then obtain a' where "strstr cs f = Some (a', b)" "a = c # a'"
      using Cons.prems by (auto simp: strstr.simps [of "c # cs"])
    then show ?thesis using Cons.IH [of a' b] by simp
  qed
qed

lemma dos_name_absent:
  assumes "dos_name s" "f = CHR ''.'' # g" "3 < length g \<or> CHR ''.'' \<in> set g" "set g \<noteq> {}"
  shows "strstr s f = None"
proof (rule ccontr)
  assume "strstr s f \<noteq> None"
  then obtain a b where ab: "s = a @ b" "take (length f) b = f" using strstr_found [of s f] by auto
  then obtain b' where s: "s = (a @ CHR ''.'' # g) @ b'"
    using assms(2) append_take_drop_id [of "length f" b] by (metis append.assoc)
  obtain d e where de: "dropWhile (\<lambda>c. c \<noteq> CHR ''.'') s = d # e" "length e \<le> 3" "CHR ''.'' \<notin> set e"
    using assms(1) s no_dot(2) by (auto simp: dos_name_def split: list.splits)
  have "\<exists>u. e = u @ g @ b'"
  proof (cases "CHR ''.'' \<in> set a")
    case True
    then obtain p q where "a = p @ CHR ''.'' # q" "CHR ''.'' \<notin> set p" by (meson split_list_first)
    then show ?thesis using s de(1) by (auto simp: takeWhile_dot)
  next
    case False
    then show ?thesis using s de(1) by (auto simp: takeWhile_dot)
  qed
  then show False using de(2,3) assms(3) by auto
qed

lemma dos_chars_skip:
  "list_all dos_char cs \<Longrightarrow> CHR ''.'' \<notin> set cs \<Longrightarrow> dos_chars (cs @ r) behind ext = dos_chars r (rev cs @ behind) ext"
  by (induction cs arbitrary: behind) (auto simp: dos_char_def)

lemma dos_chars_id:
  "list_all dos_char cs \<Longrightarrow> CHR ''.'' \<notin> set cs \<Longrightarrow> dos_chars cs behind ext = (rev cs @ behind, ext)"
  using dos_chars_skip [of cs "[]" behind ext] by simp

lemma dos_name_fixed:
  assumes "dos_name s"
  shows "file_get_dos_name s = s"
proof -
  have f: "fnc_replace fnctab s = s"
    by (simp add: fnctab_def dos_name_absent [OF assms refl])
  let ?b = "takeWhile (\<lambda>c. c \<noteq> CHR ''.'') s"
  have b: "list_all dos_char s" "CHR ''.'' \<notin> set ?b" "length ?b \<le> 8" "string_tolower s = s"
    using assms by (auto simp: dos_name_def list_all_iff string_tolower_def map_idI dest: set_takeWhileD)
  then have bc: "list_all dos_char ?b" using set_takeWhileD by (fastforce simp: list_all_iff)
  show ?thesis
  proof (cases "dropWhile (\<lambda>c. c \<noteq> CHR ''.'') s")
    case Nil
    then have s: "s = ?b" using takeWhile_dropWhile_id [of "\<lambda>c. c \<noteq> CHR ''.''" s] by (metis append_Nil2)
    then have "dos_chars (rev s) [] 0 = (s, 0)"
      using dos_chars_id [of "rev s" "[]" 0] b(1,2) by (simp add: list_all_iff)
    then show ?thesis using f b(3,4) s by (simp add: file_get_dos_name_def)
  next
    case (Cons d e)
    then have s: "s = ?b @ d # e" using takeWhile_dropWhile_id [of "\<lambda>c. c \<noteq> CHR ''.''" s] by simp
    have d: "d = CHR ''.''" using Cons hd_dropWhile [of "\<lambda>c. c \<noteq> CHR ''.''" s] by auto
    have e: "1 \<le> length e" "length e \<le> 3" "CHR ''.'' \<notin> set e" "list_all dos_char e"
      using assms Cons b(1) s by (auto simp: dos_name_def list_all_iff) (metis in_set_conv_decomp list.set_intros(2) Un_iff set_append)
    have "rev s = rev e @ CHR ''.'' # rev ?b" using s d by (metis rev.simps(2) rev_append append.assoc append_Cons append_Nil)
    moreover have "dos_chars (rev e @ CHR ''.'' # rev ?b) [] 0 = dos_chars (CHR ''.'' # rev ?b) e 0"
      using dos_chars_skip [of "rev e"] e(3,4) by (simp add: list_all_iff)
    moreover have "dos_chars (CHR ''.'' # rev ?b) e 0 = dos_chars (rev ?b) (CHR ''.'' # e) (length e)"
      using e(1,2) by (cases e) simp_all
    ultimately have "dos_chars (rev s) [] 0 = (s, length e)"
      using dos_chars_id [of "rev ?b" "CHR ''.'' # e" "length e"] bc b(2) s d by (simp add: list_all_iff)
    moreover have "length s \<le> 9 + length e" using b(3) arg_cong [OF s, of length] by simp
    ultimately show ?thesis using f b(4) e(1) by (cases e) (simp_all add: file_get_dos_name_def)
  qed
qed

text \<open>
  Whatever the name of a file, the name \<open>file_get_dos_name\<close> makes of it has the 8+3 form: at most
  eight characters, then nothing or one dot and one to three characters, all of them printable or
  from the upper half, none a wildcard or an upper case letter; and a name of that form is kept.
\<close>

theorem file_get_dos_name_form:
  "dos_name (file_get_dos_name name) \<and> (if dos_name name then file_get_dos_name name = name else True)"
  using dos_name_result dos_name_fixed by simp

section \<open>Operations that leave the files alone\<close>

definition same_files :: "world \<Rightarrow> world \<Rightarrow> bool" where
  "same_files v w \<longleftrightarrow> dir v = dir w \<and> inode v = inode w \<and> listing v = listing w"

lemma same_files_refl [simp]: "same_files w w"
  by (simp add: same_files_def)

lemma same_files_trans: "same_files u v \<Longrightarrow> same_files v w \<Longrightarrow> same_files u w"
  by (simp add: same_files_def)

lemma syscall_same [simp]: "same_files w (snd (syscall w))"
  by (simp add: syscall_def same_files_def)

lemma lock_tries_same: "same_files w (snd (lock_tries n w))"
proof (induction n arbitrary: w)
  case (Suc n)
  obtain ok v where "syscall w = (ok, v)" by fastforce
  then show ?case using syscall_same [of w] Suc [of v]
    by (auto simp: file_lock_def intro: same_files_trans)
qed simp

lemma file_open_same: "same_files w (snd (file_open p Mode_r w))"
proof -
  have f: "same_files w (snd (fopen p Mode_r w))"
    by (auto simp: fopen_def syscall_def same_files_def Let_def split: option.split)
  obtain s v where fo: "fopen p Mode_r w = (s, v)" by fastforce
  show ?thesis
  proof (cases s)
    case None
    then show ?thesis using f fo by (simp add: file_open_def)
  next
    case (Some fp)
    obtain ok v1 where l: "file_lock v = (ok, v1)" by fastforce
    have 1: "same_files v v1" using l syscall_same [of v] by (cases "syscall v") (simp add: file_lock_def)
    obtain ok2 v2 where t: "file_lock_wait v1 = (ok2, v2)" by fastforce
    have 2: "same_files v1 v2" using lock_tries_same [of v1 50] t by (simp add: file_lock_wait_def)
    have "same_files v2 (snd (fclose fp v2))" by (simp add: fclose_def)
    with f fo 1 2 Some l t show ?thesis
      by (auto simp: file_open_def intro: same_files_trans)
  qed
qed

lemma ftell_fgets_same: "same_files w (snd (ftell fp w))" "same_files w (snd (snd (fgets n fp w)))"
  by (auto simp: ftell_def fgets_def syscall_def same_files_def Let_def)

lemma file_close_same: "same_files w (snd (file_close fp w))"
  using same_files_trans [OF syscall_same syscall_same] by (simp add: file_close_def fclose_def)

end
