(* ===== verification/Outbound.thy ===== *)
theory Outbound
  imports Conf Files
begin

unbundle bit_operations_syntax

text \<open>
  The outbound: what is to be sent to whom. \<open>outb_flo.c\<close> reads and marks the lists of attached files,
  \<open>outb_scan.c\<close> goes through the directories of the five kinds of outbound and calls back for each
  file of the addresses asked for, and \<open>outb_fsqueue.c\<close> is the callback that builds the queue of files.
\<close>

section \<open>The code\<close>

definition FLAVOR_NONE :: int where "FLAVOR_NONE = 0"

definition ACTION_NOTHING :: nat where "ACTION_NOTHING = 0"
definition ACTION_UNLINK :: nat where "ACTION_UNLINK = 1"
definition ACTION_TRUNCATE :: nat where "ACTION_TRUNCATE = 2"
definition ACTION_FORCEUNLINK :: nat where "ACTION_FORCEUNLINK = 4"
definition ACTION_ACKNOWLEDGE :: nat where "ACTION_ACKNOWLEDGE = 8"

definition TYPE_UNKNOWN :: u16 where "TYPE_UNKNOWN = 0"
definition TYPE_NETMAIL :: u16 where "TYPE_NETMAIL = 0x001"
definition TYPE_ARCMAIL :: u16 where "TYPE_ARCMAIL = 0x002"
definition TYPE_TICFILE :: u16 where "TYPE_TICFILE = 0x004"
definition TYPE_FILEBOX :: u16 where "TYPE_FILEBOX = 0x010"
definition TYPE_FROMFLO :: u16 where "TYPE_FROMFLO = 0x020"
definition TYPE_REQUEST :: u16 where "TYPE_REQUEST = 0x040"
definition TYPE_REQANSW :: u16 where "TYPE_REQANSW = 0x080"
definition TYPE_FLOFILE :: u16 where "TYPE_FLOFILE = 0x100"
definition TYPE_ASONAME :: u16 where "TYPE_ASONAME = 0x200"

lemmas type_bits = TYPE_UNKNOWN_def TYPE_NETMAIL_def TYPE_ARCMAIL_def TYPE_TICFILE_def TYPE_FILEBOX_def
  TYPE_FROMFLO_def TYPE_REQUEST_def TYPE_REQANSW_def TYPE_FLOFILE_def TYPE_ASONAME_def

text \<open>The test of one bit, for which the code writes \<open>type & BIT\<close> or \<open>(type & BIT) == BIT\<close>.\<close>

definition has :: "u16 \<Rightarrow> u16 \<Rightarrow> bool" where
  "has t b \<longleftrightarrow> t AND b \<noteq> 0"

definition outtab :: "(string \<times> u16 \<times> int \<times> nat) list" where
  "outtab =
     [(''.iut'', TYPE_NETMAIL, FLAVOR_IMMED, ACTION_UNLINK),
      (''.cut'', TYPE_NETMAIL, FLAVOR_CRASH, ACTION_UNLINK),
      (''.dut'', TYPE_NETMAIL, FLAVOR_DIRECT, ACTION_UNLINK),
      (''.out'', TYPE_NETMAIL, FLAVOR_NORMAL, ACTION_UNLINK),
      (''.hut'', TYPE_NETMAIL, FLAVOR_HOLD, ACTION_UNLINK),
      (''.ikt'', TYPE_NETMAIL, FLAVOR_IMMED, ACTION_UNLINK),
      (''.ckt'', TYPE_NETMAIL, FLAVOR_CRASH, ACTION_UNLINK),
      (''.dkt'', TYPE_NETMAIL, FLAVOR_DIRECT, ACTION_UNLINK),
      (''.pkt'', TYPE_NETMAIL, FLAVOR_NORMAL, ACTION_UNLINK),
      (''.hkt'', TYPE_NETMAIL, FLAVOR_HOLD, ACTION_UNLINK),
      (''.ilo'', TYPE_FLOFILE, FLAVOR_IMMED, ACTION_NOTHING),
      (''.clo'', TYPE_FLOFILE, FLAVOR_CRASH, ACTION_NOTHING),
      (''.dlo'', TYPE_FLOFILE, FLAVOR_DIRECT, ACTION_NOTHING),
      (''.flo'', TYPE_FLOFILE, FLAVOR_NORMAL, ACTION_NOTHING),
      (''.hlo'', TYPE_FLOFILE, FLAVOR_HOLD, ACTION_NOTHING),
      (''.req'', TYPE_REQUEST, FLAVOR_NONE, ACTION_NOTHING)]"

definition exttab :: "(string \<times> u16 \<times> int \<times> nat) list" where
  "exttab =
     [(''.tic'', TYPE_TICFILE, FLAVOR_NORMAL, ACTION_TRUNCATE),
      (''.su?'', TYPE_ARCMAIL, FLAVOR_NORMAL, ACTION_TRUNCATE),
      (''.mo?'', TYPE_ARCMAIL, FLAVOR_NORMAL, ACTION_TRUNCATE),
      (''.tu?'', TYPE_ARCMAIL, FLAVOR_NORMAL, ACTION_TRUNCATE),
      (''.we?'', TYPE_ARCMAIL, FLAVOR_NORMAL, ACTION_TRUNCATE),
      (''.th?'', TYPE_ARCMAIL, FLAVOR_NORMAL, ACTION_TRUNCATE),
      (''.fr?'', TYPE_ARCMAIL, FLAVOR_NORMAL, ACTION_TRUNCATE),
      (''.sa?'', TYPE_ARCMAIL, FLAVOR_NORMAL, ACTION_TRUNCATE)]"

subsection \<open>Lists of attached files\<close>

record s_FLO =
  FLO_fp :: stream
  att_path :: string
  att_action :: nat
  att_offs :: int

definition FLO_PATH :: nat where "FLO_PATH = 256"

text \<open>
  \<open>flo_translate\<close>. An entry without a replacement makes the code read a null pointer when its text is
  found; it is taken to be empty here.
\<close>

definition flo_translate :: "conf \<Rightarrow> string \<Rightarrow> string" where
  "flo_translate cf buffer =
     fold (\<lambda>v b. case v of
             Translate f r \<Rightarrow>
               (if strstr b f = None then b
                else take (FLO_PATH - 1) (string_translate b f (case r of Some r \<Rightarrow> r | None \<Rightarrow> [])))
           | _ \<Rightarrow> b)
       (conf_entries cf ''flo_translate'') buffer"

definition flo_open :: "string \<Rightarrow> openmode \<Rightarrow> world \<Rightarrow> s_FLO option \<times> world" where
  "flo_open path md w =
     (case file_open path md w of
        (None, w) \<Rightarrow> (None, w)
      | (Some fp, w) \<Rightarrow> (Some \<lparr>FLO_fp = fp, att_path = [], att_action = ACTION_NOTHING, att_offs = 0\<rparr>, w))"

definition flo_prefix :: "string \<Rightarrow> nat \<times> string" where
  "flo_prefix s =
     (if peek s = CHR ''@'' then (ACTION_NOTHING, tl s)
      else if peek s = CHR ''^'' \<or> peek s = CHR ''-'' then (ACTION_UNLINK, tl s)
      else if peek s = CHR ''#'' then (ACTION_TRUNCATE, tl s)
      else (ACTION_NOTHING, s))"

lemma fgets_advances:
  assumes "fgets n s w = (Some l, s', w')" "0 < n"
  shows "inode w' = inode w \<and> dir w' = dir w \<and> st_inode s' = st_inode s \<and> st_pos s < st_pos s'
    \<and> st_pos s < length (content (inode w (st_inode s)))"
proof (cases "st_pos s < length (content (inode w (st_inode s)))")
  case True
  then show ?thesis using assms by (auto simp: fgets_def syscall_def Let_def split: if_splits prod.splits)
next
  case False
  then show ?thesis using assms by (auto simp: fgets_def syscall_def Let_def split: if_splits prod.splits)
qed

lemma ftell_same: "snd (ftell s w) = w\<lparr>calls := calls w + 1\<rparr>"
  by (simp add: ftell_def syscall_def)

lemma flo_measure:
  assumes "(x, w1) = ftell fp w" "(Some l, s', w2) = fgets (FLO_PATH - Suc 0) fp w1"
  shows "length (content (inode w2 (st_inode s'))) - st_pos s' < length (content (inode w (st_inode fp))) - st_pos fp"
proof -
  have "w1 = w\<lparr>calls := calls w + 1\<rparr>" using assms(1) ftell_same [of fp w] by (metis snd_conv)
  moreover from assms(2) have "fgets (FLO_PATH - Suc 0) fp w1 = (Some l, s', w2)" by simp
  note fgets_advances [OF this]
  ultimately show ?thesis by (auto simp: FLO_PATH_def)
qed

text \<open>The next line that is neither empty nor marked as sent; the flag is the end or an error.\<close>

function flo_next :: "conf \<Rightarrow> s_FLO \<Rightarrow> world \<Rightarrow> bool \<times> s_FLO \<times> world" where
  "flo_next cf FLO w =
     (case ftell (FLO_fp FLO) w of (offs, w1) \<Rightarrow>
        let FLO = FLO\<lparr>att_offs := offs\<rparr> in
        if offs = -1 then (True, FLO, w1)
        else
          (case fgets (FLO_PATH - 1) (FLO_fp FLO) w1 of
             (None, fp, w2) \<Rightarrow> (True, FLO\<lparr>FLO_fp := fp\<rparr>, w2)
           | (Some l, fp, w2) \<Rightarrow>
               (if string_is_empty l \<or> peek l = CHR ''~''
                then flo_next cf (FLO\<lparr>FLO_fp := fp, att_path := l\<rparr>) w2
                else
                  case flo_prefix (string_chomp l) of (action, path) \<Rightarrow>
                    (False, FLO\<lparr>FLO_fp := fp, att_path := flo_translate cf path, att_action := action\<rparr>, w2))))"
  by pat_completeness auto
termination
proof (relation "measure (\<lambda>(cf, FLO, w). length (content (inode w (st_inode (FLO_fp FLO)))) - st_pos (FLO_fp FLO))",
    goal_cases)
  case 2
  then show ?case by (auto dest!: flo_measure)
qed simp

declare flo_next.simps [simp del]

lemma flo_next_eq:
  assumes "ftell (FLO_fp FLO) w = (offs, w1)" "fgets (FLO_PATH - 1) (FLO_fp FLO) w1 = (r, fp, w2)"
  shows "flo_next cf FLO w =
    (if offs = -1 then (True, FLO\<lparr>att_offs := offs\<rparr>, w1)
     else case r of None \<Rightarrow> (True, FLO\<lparr>att_offs := offs, FLO_fp := fp\<rparr>, w2)
       | Some l \<Rightarrow>
           if string_is_empty l \<or> peek l = CHR ''~''
           then flo_next cf (FLO\<lparr>att_offs := offs, FLO_fp := fp, att_path := l\<rparr>) w2
           else case flo_prefix (string_chomp l) of (action, path) \<Rightarrow>
             (False, FLO\<lparr>att_offs := offs, FLO_fp := fp, att_path := flo_translate cf path, att_action := action\<rparr>, w2))"
proof -
  have f: "FLO_fp (FLO\<lparr>att_offs := offs\<rparr>) = FLO_fp FLO" by simp
  show ?thesis
    by (subst flo_next.simps, cases r) (simp_all only: assms f Let_def prod.case option.case)
qed

definition flo_mark_sent :: "s_FLO \<Rightarrow> world \<Rightarrow> bool \<times> s_FLO \<times> world" where
  "flo_mark_sent FLO w =
     (case ftell (FLO_fp FLO) w of (myoffs, w) \<Rightarrow>
      case fseek (FLO_fp FLO) (nat (att_offs FLO)) w of (ok, fp, w) \<Rightarrow>
        if \<not> ok then (False, FLO\<lparr>FLO_fp := fp\<rparr>, w)
        else
          (case fwrite ''~'' fp w of (ok, fp, w) \<Rightarrow>
             if \<not> ok then (False, FLO\<lparr>FLO_fp := fp\<rparr>, w)
             else if 0 \<le> myoffs then
               (case fseek fp (nat myoffs) w of (_, fp, w) \<Rightarrow> (True, FLO\<lparr>FLO_fp := fp\<rparr>, w))
             else (True, FLO\<lparr>FLO_fp := fp\<rparr>, w)))"

definition flo_eof :: "s_FLO \<Rightarrow> bool" where
  "flo_eof FLO = st_eof (FLO_fp FLO)"

definition flo_close :: "s_FLO \<Rightarrow> world \<Rightarrow> bool \<times> world" where
  "flo_close FLO w = file_close (FLO_fp FLO) w"

text \<open>
  The loops over a list of files: the remaining lines are as many as the file has characters at
  most, which bounds the number of turns.
\<close>

definition flo_left :: "s_FLO \<Rightarrow> world \<Rightarrow> nat" where
  "flo_left FLO w = length (content (inode w (st_inode (FLO_fp FLO)))) - st_pos (FLO_fp FLO)"

primrec isempty_loop :: "nat \<Rightarrow> conf \<Rightarrow> s_FLO \<Rightarrow> world \<Rightarrow> bool \<times> world" where
  "isempty_loop 0 cf FLO w = (flo_eof FLO, snd (flo_close FLO w))"
| "isempty_loop (Suc n) cf FLO w =
     (case flo_next cf FLO w of (stop, FLO, w) \<Rightarrow>
        if stop then (flo_eof FLO, snd (flo_close FLO w))
        else if exists (att_path FLO) w then (False, w)
        else isempty_loop n cf FLO w)"

definition out_flo_isempty :: "conf \<Rightarrow> string \<Rightarrow> world \<Rightarrow> bool \<times> world" where
  "out_flo_isempty cf path w =
     (case flo_open path Mode_r w of
        (None, w) \<Rightarrow> (False, w)
      | (Some FLO, w) \<Rightarrow> isempty_loop (flo_left FLO w + 1) cf FLO w)"

primrec marksent_loop :: "nat \<Rightarrow> conf \<Rightarrow> string \<Rightarrow> s_FLO \<Rightarrow> world \<Rightarrow> bool \<times> s_FLO \<times> world" where
  "marksent_loop 0 cf fname FLO w = (False, FLO, w)"
| "marksent_loop (Suc n) cf fname FLO w =
     (case flo_next cf FLO w of (stop, FLO, w) \<Rightarrow>
        if stop then (False, FLO, w)
        else if fname = att_path FLO then flo_mark_sent FLO w
        else marksent_loop n cf fname FLO w)"

text \<open>True is success, where the code returns zero.\<close>

definition out_flo_marksent :: "conf \<Rightarrow> string \<Rightarrow> string \<Rightarrow> world \<Rightarrow> bool \<times> world" where
  "out_flo_marksent cf fname floname w =
     (case flo_open floname Mode_rp w of
        (None, w) \<Rightarrow> (False, w)
      | (Some FLO, w) \<Rightarrow>
          (case marksent_loop (flo_left FLO w + 1) cf fname FLO w of (ok, FLO, w) \<Rightarrow>
             (ok \<or> flo_eof FLO, snd (flo_close FLO w))))"

subsection \<open>The queue of files\<close>

datatype send_status = STATUS_WILLSEND | STATUS_SKIP | STATUS_SENDING | STATUS_SENT

record s_filelist =
  fl_fname :: string
  fl_size :: int
  fl_type :: u16
  fl_status :: send_status
  fl_action :: nat
  fl_flavor :: int
  fl_flodsc :: int

record s_flofile =
  ff_fname :: string
  ff_flavor :: int

record s_fsqueue =
  flotab :: "s_flofile list"
  fslist :: "s_filelist list"

definition out_flo_unlinkempty :: "conf \<Rightarrow> s_flofile list \<Rightarrow> world \<Rightarrow> world" where
  "out_flo_unlinkempty cf tab w =
     fold (\<lambda>f w. case out_flo_isempty cf (ff_fname f) w of
                   (none, w) \<Rightarrow> if none then snd (unlink_file (ff_fname f) w) else w) tab w"

text \<open>The name behind the last separator, and its last dot and what follows it.\<close>

definition last_ext :: "string \<Rightarrow> string option" where
  "last_ext s = (if CHR ''.'' \<in> set s then Some (CHR ''.'' # rev (takeWhile (\<lambda>c. c \<noteq> CHR ''.'') (rev s))) else None)"

definition out_filetype :: "string \<Rightarrow> u16" where
  "out_filetype fname =
     (case last_ext (file_getname fname) of
        None \<Rightarrow> TYPE_UNKNOWN
      | Some p_ext \<Rightarrow>
          (case find (\<lambda>(ext, _). strcasemask p_ext ext = 0) (outtab @ exttab) of
             None \<Rightarrow> TYPE_UNKNOWN | Some (_, type, _) \<Rightarrow> type))"

primrec readflo_loop ::
  "nat \<Rightarrow> conf \<Rightarrow> int \<Rightarrow> bool \<Rightarrow> int \<Rightarrow> s_FLO \<Rightarrow> world \<Rightarrow> s_filelist list \<times> s_FLO \<times> world" where
  "readflo_loop 0 cf flavor aso flodsc FLO w = ([], FLO, w)"
| "readflo_loop (Suc n) cf flavor aso flodsc FLO w =
     (case flo_next cf FLO w of (stop, FLO, w) \<Rightarrow>
        if stop then ([], FLO, w)
        else
          (case readflo_loop n cf flavor aso flodsc FLO w of (l, FLO', w') \<Rightarrow>
             ((case stat (att_path FLO) w of
                 None \<Rightarrow> l
               | Some st \<Rightarrow>
                   \<lparr>fl_fname = att_path FLO, fl_size = int (length (content st)),
                    fl_type = out_filetype (att_path FLO) OR TYPE_FROMFLO OR (if aso then TYPE_ASONAME else 0),
                    fl_status = STATUS_WILLSEND, fl_action = att_action FLO, fl_flavor = flavor,
                    fl_flodsc = flodsc\<rparr> # l), FLO', w')))"

definition out_readflo ::
  "conf \<Rightarrow> string \<Rightarrow> int \<Rightarrow> bool \<Rightarrow> int \<Rightarrow> s_filelist list \<Rightarrow> world \<Rightarrow> s_filelist list \<times> world" where
  "out_readflo cf floname flavor aso flodsc l w =
     (case flo_open floname Mode_r w of
        (None, w) \<Rightarrow> (l, w)
      | (Some FLO, w) \<Rightarrow>
          (case readflo_loop (flo_left FLO w + 1) cf flavor aso flodsc FLO w of
             (new, FLO, w) \<Rightarrow> (l @ new, snd (flo_close FLO w))))"

definition out_addfloentry :: "s_fsqueue \<Rightarrow> string \<Rightarrow> int \<Rightarrow> int \<times> s_fsqueue" where
  "out_addfloentry q floname flavor =
     (int (length (flotab q)), q\<lparr>flotab := flotab q @ [\<lparr>ff_fname = floname, ff_flavor = flavor\<rparr>]\<rparr>)"

datatype outb_type = OUTB_TYPE_BSO | OUTB_TYPE_DOMAIN | OUTB_TYPE_ASO | OUTB_TYPE_FBOX

record outbound_callback_data =
  cb_addr :: s_faddr
  cb_path :: string
  cb_flavor :: int
  cb_type :: outb_type

definition out_handle_fsqueue :: "conf \<Rightarrow> outbound_callback_data \<Rightarrow> s_fsqueue \<Rightarrow> world \<Rightarrow> s_fsqueue \<times> world" where
  "out_handle_fsqueue cf cb queue w =
     (let kind =
            (if cb_type cb \<noteq> OUTB_TYPE_FBOX then
               (case last_ext (cb_path cb) of
                  None \<Rightarrow> None
                | Some p_ext \<Rightarrow> map_option snd (find (\<lambda>(ext, _). strcasecmp_eq p_ext ext) outtab))
             else Some (out_filetype (cb_path cb) OR TYPE_FILEBOX,
                        if cb_flavor cb \<noteq> -1 then cb_flavor cb else FLAVOR_HOLD, ACTION_UNLINK))
      in case kind of
           None \<Rightarrow> (queue, w)
         | Some (type, flavor, action) \<Rightarrow>
             if has type TYPE_NETMAIL \<or> has type TYPE_REQUEST \<or> has type TYPE_FILEBOX then
               (case stat (cb_path cb) w of
                  None \<Rightarrow> (queue, w)
                | Some st \<Rightarrow>
                    (queue\<lparr>fslist := fslist queue @
                       [\<lparr>fl_fname = cb_path cb, fl_size = int (length (content st)),
                         fl_type = type OR (if cb_type cb = OUTB_TYPE_ASO then TYPE_ASONAME else 0),
                         fl_status = STATUS_WILLSEND, fl_action = action, fl_flavor = flavor,
                         fl_flodsc = -1\<rparr>]\<rparr>, w))
             else if has type TYPE_FLOFILE then
               (case out_addfloentry queue (cb_path cb) flavor of (dsc, queue) \<Rightarrow>
                case out_readflo cf (cb_path cb) flavor (cb_type cb = OUTB_TYPE_ASO) dsc (fslist queue) w of
                  (l, w) \<Rightarrow> (queue\<lparr>fslist := l\<rparr>, w))
             else (queue, w))"

subsection \<open>Scanning\<close>

text \<open>
  The callback changes the state of its owner and the files; \<open>fa_list\<close> is \<open>None\<close> for every address.
  The address that is filled in from directory and file names goes along.
\<close>

type_synonym 's callback = "outbound_callback_data \<Rightarrow> 's \<Rightarrow> world \<Rightarrow> 's \<times> world"

definition HEXSET :: string where "HEXSET = ''0123456789abcdefABCDEF''"

definition strspn :: "string \<Rightarrow> string \<Rightarrow> nat" where
  "strspn s accept = length (takeWhile (\<lambda>c. c \<in> set accept) s)"

text \<open>\<open>sscanf\<close> with \<open>%04x\<close>, \<open>%08x\<close> and \<open>%03x\<close> on text that begins with that many digits.\<close>

definition scan_hex :: "nat \<Rightarrow> string \<Rightarrow> int" where
  "scan_hex n s = to_int (fst (strtol 16 (take n s)))"

definition wanted :: "s_faddr list option \<Rightarrow> (s_faddr \<Rightarrow> bool) \<Rightarrow> bool" where
  "wanted fa_list p = (case fa_list of None \<Rightarrow> True | Some l \<Rightarrow> list_ex p l)"

text \<open>The names of the binkley-style outbound: eight digits and one of the extensions.\<close>

definition bso_filename :: "string \<Rightarrow> bool" where
  "bso_filename name \<longleftrightarrow> length name = 12 \<and> strspn name HEXSET = 8 \<and>
     (strncasecmp_eq (drop 8 name) ''.PNT'' 4 \<or> strncasecmp_eq (drop 8 name) ''.REQ'' 4
      \<or> strncasecmp_eq (drop 10 name) ''UT'' 2 \<or> strncasecmp_eq (drop 10 name) ''LO'' 2)"

definition bso_file ::
  "'s callback \<Rightarrow> s_faddr list option \<Rightarrow> string \<Rightarrow> s_faddr \<Rightarrow> string \<Rightarrow> 's \<Rightarrow> world \<Rightarrow> 's \<times> world" where
  "bso_file cb fa_list path addr name s w =
     (if wanted fa_list (\<lambda>a. ftn_addrcomp addr a = 0)
      then cb \<lparr>cb_addr = addr, cb_path = path @ name, cb_flavor = -1, cb_type = OUTB_TYPE_BSO\<rparr> s w
      else (s, w))"

text \<open>One name in the directory of a node's points.\<close>

definition bso_point_entry ::
  "'s callback \<Rightarrow> s_faddr list option \<Rightarrow> string \<Rightarrow> string \<Rightarrow> s_faddr \<times> 's \<times> world \<Rightarrow> s_faddr \<times> 's \<times> world" where
  "bso_point_entry cb fa_list path name = (\<lambda>(addr, s, w).
     if bso_filename name then
       let addr = addr\<lparr>point := scan_hex 8 name\<rparr> in (addr, bso_file cb fa_list path addr name s w)
     else (addr, s, w))"

definition out_scan_point_dir ::
  "'s callback \<Rightarrow> s_faddr list option \<Rightarrow> string \<Rightarrow> s_faddr \<times> 's \<times> world \<Rightarrow> s_faddr \<times> 's \<times> world" where
  "out_scan_point_dir cb fa_list path st =
     (case listing (snd (snd st)) path of
        None \<Rightarrow> st
      | Some names \<Rightarrow> fold (bso_point_entry cb fa_list path) names st)"

definition bso_entry ::
  "'s callback \<Rightarrow> s_faddr list option \<Rightarrow> string \<Rightarrow> string \<Rightarrow> s_faddr \<times> 's \<times> world \<Rightarrow> s_faddr \<times> 's \<times> world" where
  "bso_entry cb fa_list path name = (\<lambda>(addr, s, w).
     if bso_filename name then
       if strncasecmp_eq (drop 8 name) ''.PNT'' 4 then
         let addr = addr\<lparr>net := scan_hex 4 name, node := scan_hex 4 (drop 4 name)\<rparr> in
         if wanted fa_list (\<lambda>a. net addr = net a \<and> node addr = node a)
         then out_scan_point_dir cb fa_list (path @ name @ ''/'') (addr, s, w)
         else (addr, s, w)
       else
         let addr = addr\<lparr>point := 0, net := scan_hex 4 name, node := scan_hex 4 (drop 4 name)\<rparr> in
         (addr, bso_file cb fa_list path addr name s w)
     else (addr, s, w))"

definition out_scan_bso_dir ::
  "'s callback \<Rightarrow> s_faddr list option \<Rightarrow> s_faddr \<Rightarrow> string \<Rightarrow> 's \<Rightarrow> world \<Rightarrow> 's \<times> world" where
  "out_scan_bso_dir cb fa_list addr path s w =
     (case listing w path of
        None \<Rightarrow> (s, w)
      | Some names \<Rightarrow> snd (fold (bso_entry cb fa_list path) names (addr, s, w)))"

text \<open>The zone a directory beside the main outbound stands for; 0 for none.\<close>

definition bso_zone :: "conf \<Rightarrow> string \<Rightarrow> string \<Rightarrow> int" where
  "bso_zone cf out_main name =
     (if name = out_main then
        (case conf_first cf ''address'' of Some (Falist a _) \<Rightarrow> zone a | _ \<Rightarrow> 666)
      else
        let ext = drop (length out_main + 1) name in
        if take (length out_main) name = out_main \<and> peek (drop (length out_main) name) = CHR ''.''
           \<and> strspn ext HEXSET = 3
        then scan_hex 3 ext else 0)"

definition out_scan_bso ::
  "conf \<Rightarrow> 's callback \<Rightarrow> s_faddr list option \<Rightarrow> string \<Rightarrow> 's \<Rightarrow> world \<Rightarrow> 's \<times> world" where
  "out_scan_bso cf cb fa_list path s w =
     (case out_get_root path of
        None \<Rightarrow> (s, w)
      | Some (out_root, out_main) \<Rightarrow>
          (case listing w out_root of
             None \<Rightarrow> (s, w)
           | Some names \<Rightarrow>
               fold (\<lambda>name (s, w).
                   let z = bso_zone cf out_main name in
                   if z \<noteq> 0 \<and> wanted fa_list (\<lambda>a. z = zone a)
                   then out_scan_bso_dir cb fa_list (zero_faddr\<lparr>zone := z\<rparr>) (out_root @ name @ ''/'') s w
                   else (s, w)) names (s, w)))"

definition out_scan_fbox_dir ::
  "'s callback \<Rightarrow> string \<Rightarrow> s_faddr \<Rightarrow> int \<Rightarrow> 's \<Rightarrow> world \<Rightarrow> 's \<times> world" where
  "out_scan_fbox_dir cb path addr flavor s w =
     (case listing w path of
        None \<Rightarrow> (s, w)
      | Some names \<Rightarrow>
          fold (\<lambda>name (s, w).
              if is_regfile (path @ name) w
              then cb \<lparr>cb_addr = addr, cb_path = path @ name, cb_flavor = flavor, cb_type = OUTB_TYPE_FBOX\<rparr> s w
              else (s, w)) names (s, w))"

text \<open>\<open>sscanf\<close> with \<open>%d.%d.%d.%d\<close>, and with \<open>.%*s\<close> behind it, which assigns nothing.\<close>

definition scan_dec :: "string \<Rightarrow> (int \<times> string) option" where
  "scan_dec s = (case strtol 10 s of (v, r) \<Rightarrow> if r = s then None else Some (to_int v, r))"

definition out_parse_name_aso :: "string \<Rightarrow> s_faddr option" where
  "out_parse_name_aso filename =
     Option.bind (scan_dec filename) (\<lambda>(z, s). Option.bind (scan_char (CHR ''.'') s) (\<lambda>s.
     Option.bind (scan_dec s) (\<lambda>(n, s). Option.bind (scan_char (CHR ''.'') s) (\<lambda>s.
     Option.bind (scan_dec s) (\<lambda>(f, s). Option.bind (scan_char (CHR ''.'') s) (\<lambda>s.
     Option.bind (scan_dec s) (\<lambda>(p, s). Some (zero_faddr\<lparr>zone := z, net := n, node := f, point := p\<rparr>))))))))"

definition out_parse_name_lbox :: "string \<Rightarrow> s_faddr option" where
  "out_parse_name_lbox = out_parse_name_aso"

definition out_scan_lbox ::
  "'s callback \<Rightarrow> s_faddr list option \<Rightarrow> string \<Rightarrow> 's \<Rightarrow> world \<Rightarrow> 's \<times> world" where
  "out_scan_lbox cb fa_list path s w =
     (case listing w path of
        None \<Rightarrow> (s, w)
      | Some names \<Rightarrow>
          fold (\<lambda>name (s, w).
              case out_parse_name_lbox name of
                None \<Rightarrow> (s, w)
              | Some addr \<Rightarrow>
                  if wanted fa_list (\<lambda>a. ftn_addrcomp addr a = 0)
                  then out_scan_fbox_dir cb (path @ name @ ''/'') addr FLAVOR_HOLD s w
                  else (s, w)) names (s, w))"

definition out_scan_aso ::
  "'s callback \<Rightarrow> s_faddr list option \<Rightarrow> string \<Rightarrow> 's \<Rightarrow> world \<Rightarrow> 's \<times> world" where
  "out_scan_aso cb fa_list path s w =
     (case listing w path of
        None \<Rightarrow> (s, w)
      | Some names \<Rightarrow>
          fold (\<lambda>name (s, w).
              case out_parse_name_aso name of
                None \<Rightarrow> (s, w)
              | Some addr \<Rightarrow>
                  if wanted fa_list (\<lambda>a. ftn_addrcomp addr a = 0)
                  then cb \<lparr>cb_addr = addr, cb_path = path @ name, cb_flavor = -1, cb_type = OUTB_TYPE_ASO\<rparr> s w
                  else (s, w)) names (s, w))"

text \<open>The domain outbounds are only looked at for the addresses of a list, even when every address is wanted.\<close>

definition scan_domains ::
  "conf \<Rightarrow> 's callback \<Rightarrow> s_faddr list option \<Rightarrow> 's \<Rightarrow> world \<Rightarrow> 's \<times> world" where
  "scan_domains cf cb fa_list s w =
     fold (\<lambda>v (s, w). case v of
             Domain _ path z \<Rightarrow>
               if fa_list \<noteq> None \<and> list_ex (\<lambda>a. z = zone a \<or> zone a = -1) (the fa_list)
               then out_scan_bso_dir cb fa_list (zero_faddr\<lparr>zone := z\<rparr>) path s w
               else (s, w)
           | _ \<Rightarrow> (s, w)) (conf_entries cf ''domain'') (s, w)"

definition scan_fileboxes ::
  "conf \<Rightarrow> 's callback \<Rightarrow> s_faddr list option \<Rightarrow> 's \<Rightarrow> world \<Rightarrow> 's \<times> world" where
  "scan_fileboxes cf cb fa_list s w =
     fold (\<lambda>v (s, w). case v of
             Filebox addr path flavor \<Rightarrow>
               (case fa_list of
                  None \<Rightarrow> out_scan_fbox_dir cb path addr flavor s w
                | Some l \<Rightarrow>
                    fold (\<lambda>a (s, w). if ftn_addrcomp a addr = 0 then out_scan_fbox_dir cb path addr flavor s w
                                     else (s, w)) l (s, w))
           | _ \<Rightarrow> (s, w)) (conf_entries cf ''filebox'') (s, w)"

definition scan_path ::
  "string option \<Rightarrow> (string \<Rightarrow> 's \<Rightarrow> world \<Rightarrow> 's \<times> world) \<Rightarrow> 's \<Rightarrow> world \<Rightarrow> 's \<times> world" where
  "scan_path path f s w = (if filled path then f (the path) s w else (s, w))"

definition out_scan ::
  "conf \<Rightarrow> 's callback \<Rightarrow> s_faddr list option \<Rightarrow> 's \<Rightarrow> world \<Rightarrow> 's \<times> world" where
  "out_scan cf cb fa_list s w =
     (let (s, w) = scan_path (conf_string cf ''outbound_directory'') (out_scan_bso cf cb fa_list) s w;
          (s, w) = scan_domains cf cb fa_list s w;
          (s, w) = scan_path (conf_string cf ''amiga_outbound_directory'') (out_scan_aso cb fa_list) s w;
          (s, w) = scan_fileboxes cf cb fa_list s w
      in scan_path (conf_string cf ''filebox_directory'') (out_scan_lbox cb fa_list) s w)"

section \<open>Reading the names of the outbound\<close>

lemma hexset_digit: "digit_val c < 16 \<longleftrightarrow> c \<in> set HEXSET"
proof -
  have "map ord HEXSET = [48..<58] @ [97..<103] @ [65..<71]"
    by (simp add: HEXSET_def upt_rec)
  then have "set (map ord HEXSET) = {48..<58} \<union> {97..<103} \<union> {65..<71}"
    by (simp only: set_append set_upt Un_assoc)
  moreover have "c \<in> set HEXSET \<longleftrightarrow> ord c \<in> set (map ord HEXSET)" by auto
  moreover have "digit_val c < 16 \<longleftrightarrow> ord c \<in> {48..<58} \<union> {97..<103} \<union> {65..<71}"
    by (auto simp: digit_val_def isdigit_def)
  ultimately show ?thesis by simp
qed

lemma hex_int_hexset: "num_ok v \<Longrightarrow> c \<in> set (hex_int w v) \<Longrightarrow> c \<in> set HEXSET"
  using hex_int_chars hexset_digit by blast

lemma hex_int_length: "num_ok v \<Longrightarrow> v < 16 ^ w \<Longrightarrow> 0 < w \<Longrightarrow> length (hex_int w v) = w"
  by (subst hex_int_num, simp, rule pad0_length) (auto simp: num_ok_def nat_less_iff)

lemma scan_hex_hex_int:
  assumes "num_ok v" "v < 16 ^ w" "0 < w"
  shows "scan_hex w (hex_int w v @ r) = v"
proof -
  have d: "digit_val c < 16" if "c \<in> set (hex_int w v)" for c using hex_int_chars [OF assms(1) that] .
  then have "\<not> isspace c \<and> c \<noteq> CHR ''-'' \<and> c \<noteq> CHR ''+''" if "c \<in> set (hex_int w v)" for c
    using that by (force simp: digit_val_def isdigit_def isspace_def)
  moreover have "radix_val 16 (hex_int w v) = nat v"
    using assms(1) by (simp add: hex_int_num pad0_def radix_val_zeros)
  moreover have "radix_val 16 (hex_int w v) < 2 ^ 63"
    using \<open>radix_val 16 (hex_int w v) = nat v\<close> assms(1) by (simp add: num_ok_def ADDRNUM_MAX_def nat_less_iff)
  ultimately have "strtol 16 (hex_int w v @ []) = (int (nat v), [])"
    using d strtol_digits [of "hex_int w v" 16 "[]"] by simp
  then show ?thesis
    using assms hex_int_length [OF assms] to_int_small [of v]
    by (simp add: scan_hex_def num_ok_def ADDRNUM_MAX_def)
qed

lemma strspn_hex:
  "(\<And>c. c \<in> set s \<Longrightarrow> c \<in> set HEXSET) \<Longrightarrow> r = [] \<or> hd r \<notin> set HEXSET \<Longrightarrow> strspn (s @ r) HEXSET = length s"
proof -
  assume "\<And>c. c \<in> set s \<Longrightarrow> c \<in> set HEXSET" "r = [] \<or> hd r \<notin> set HEXSET"
  then have "takeWhile (\<lambda>c. c \<in> set HEXSET) (s @ r) = s" by (intro takeWhile_run) auto
  then show ?thesis by (simp add: strspn_def)
qed

text \<open>The extensions of the files of the outbound.\<close>

definition bso_ext :: "string \<Rightarrow> bool" where
  "bso_ext ext \<longleftrightarrow> length ext = 4 \<and> hd ext = CHR ''.'' \<and>
     (strncasecmp_eq ext ''.REQ'' 4 \<or> strncasecmp_eq (drop 2 ext) ''UT'' 2 \<or> strncasecmp_eq (drop 2 ext) ''LO'' 2)"

lemma bso_filename_hex:
  assumes "\<And>c. c \<in> set h \<Longrightarrow> c \<in> set HEXSET" "length h = 8" "length ext = 4" "hd ext = CHR ''.''"
    "strncasecmp_eq ext ''.PNT'' 4 \<or> bso_ext ext"
  shows "bso_filename (h @ ext)"
proof -
  have "CHR ''.'' \<notin> set HEXSET" by code_simp
  then have "strspn (h @ ext) HEXSET = 8"
    using strspn_hex [of h ext] assms(1,2,4) by simp
  moreover have "drop 10 (h @ ext) = drop 2 ext" using assms(2) by simp
  ultimately show ?thesis using assms(2-5) unfolding bso_filename_def bso_ext_def by auto
qed

lemma bso_ext_not_pnt: "bso_ext ext \<Longrightarrow> strncasecmp_eq ext ''.PNT'' 4 = False"
proof -
  assume e: "bso_ext ext"
  then obtain a b c d where "ext = [a, b, c, d]"
    by (auto simp: bso_ext_def length_Suc_conv numeral_eq_Suc)
  moreover have "map tolower ''.PNT'' = ''.pnt''" "map tolower ''.REQ'' = ''.req''" "map tolower ''UT'' = ''ut''"
    "map tolower ''LO'' = ''lo''" by code_simp+
  ultimately show ?thesis using e by (auto simp: bso_ext_def strncasecmp_eq_def)
qed

section \<open>What a scan finds\<close>

text \<open>The callback that collects what it is called with.\<close>

definition collect :: "outbound_callback_data list callback" where
  "collect d s w = (s @ [d], w)"

text \<open>A scan keeps the world, only adds to the list, and what it adds has the property \<open>P\<close>.\<close>

definition adds :: "(outbound_callback_data \<Rightarrow> bool) \<Rightarrow>
    outbound_callback_data list \<times> world \<Rightarrow> outbound_callback_data list \<times> world \<Rightarrow> bool" where
  "adds P a b \<longleftrightarrow> (\<exists>e. b = (fst a @ e, snd a) \<and> list_all P e)"

lemma adds_refl [simp]: "adds P a a"
  by (cases a) (auto simp: adds_def)

lemma adds_trans: "adds P a b \<Longrightarrow> adds P b c \<Longrightarrow> adds P a c"
  by (auto simp: adds_def)

lemma adds_collect: "P d \<Longrightarrow> adds P (s, w) (collect d s w)"
  by (simp add: adds_def collect_def)

lemma adds_snd: "adds P a b \<Longrightarrow> snd b = snd a"
  by (auto simp: adds_def)

lemma adds_member: "adds P a b \<Longrightarrow> list_ex Q (fst a) \<Longrightarrow> list_ex Q (fst b)"
  by (auto simp: adds_def)

lemma adds_fold:
  assumes "\<And>x a. adds P (g a) (g (f x a))"
  shows "adds P (g a) (g (fold f xs a))"
proof (induction xs arbitrary: a)
  case (Cons x xs)
  then show ?case using assms [of a x] adds_trans by fastforce
qed simp

lemma fold_passes:
  "x \<in> set xs \<Longrightarrow> \<exists>ys zs. fold f xs a = fold f zs (f x (fold f ys a))"
  by (metis fold_append fold_simps(2) o_apply split_list)

lemma adds_pair_fold:
  assumes "\<And>x s w. adds P (s, w) (f x (s, w))"
  shows "adds P (s, w) (fold f xs (s, w))"
  using adds_fold [of P id f "(s, w)" xs] assms by auto

abbreviation asked :: "s_faddr list option \<Rightarrow> outbound_callback_data \<Rightarrow> bool" where
  "asked fa_list \<equiv> (\<lambda>d. wanted fa_list (\<lambda>a. ftn_addrcomp (cb_addr d) a = 0))"

lemma asked_file: "adds (asked fa) (s, w) (bso_file collect fa path addr name s w)"
  by (auto simp: bso_file_def intro: adds_collect)

lemma asked_point_entry: "adds (asked fa) (snd st) (snd (bso_point_entry collect fa path name st))"
  by (cases st) (auto simp: bso_point_entry_def Let_def asked_file)

lemma asked_point_dir: "adds (asked fa) (snd st) (snd (out_scan_point_dir collect fa path st))"
  by (auto simp: out_scan_point_dir_def intro!: adds_fold [where g = snd] asked_point_entry split: option.split)

lemma asked_entry: "adds (asked fa) (snd st) (snd (bso_entry collect fa path name st))"
proof (cases st)
  case (fields addr s w)
  then show ?thesis
    using asked_point_dir [of fa "(addr\<lparr>net := scan_hex 4 name, node := scan_hex 4 (drop 4 name)\<rparr>, s, w)"]
    by (simp add: bso_entry_def Let_def asked_file)
qed

lemma asked_bso_dir: "adds (asked fa) (s, w) (out_scan_bso_dir collect fa addr path s w)"
  using adds_fold [of "asked fa" snd, OF asked_entry, of "(addr, s, w)"]
  by (auto simp: out_scan_bso_dir_def split: option.split)

lemma asked_bso: "adds (asked fa) (s, w) (out_scan_bso cf collect fa path s w)"
  by (auto simp: out_scan_bso_def Let_def asked_bso_dir intro!: adds_pair_fold split: option.split)

lemma asked_fbox:
  "wanted fa (\<lambda>a. ftn_addrcomp addr a = 0) \<Longrightarrow> adds (asked fa) (s, w) (out_scan_fbox_dir collect path addr fl s w)"
  by (auto simp: out_scan_fbox_dir_def intro!: adds_pair_fold adds_collect split: option.split)

lemma asked_fbox_all: "adds (\<lambda>_. True) (s, w) (out_scan_fbox_dir collect path addr fl s w)"
  using asked_fbox [of None addr] by (simp add: wanted_def)

lemma asked_lbox: "adds (asked fa) (s, w) (out_scan_lbox collect fa path s w)"
  by (auto simp: out_scan_lbox_def asked_fbox intro!: adds_pair_fold split: option.split)

lemma asked_aso: "adds (asked fa) (s, w) (out_scan_aso collect fa path s w)"
  by (auto simp: out_scan_aso_def intro!: adds_pair_fold adds_collect split: option.split)

lemma asked_domains: "adds (asked fa) (s, w) (scan_domains cf collect fa s w)"
  by (auto simp: scan_domains_def asked_bso_dir intro!: adds_pair_fold split: cval.split)

lemma ftn_addrcomp_sym: "ftn_addrcomp a b = 0 \<longleftrightarrow> ftn_addrcomp b a = 0"
  by (auto simp: ftn_addrcomp_def)

lemma asked_fileboxes: "adds (asked fa) (s, w) (scan_fileboxes cf collect fa s w)"
proof -
  have "adds (asked (Some l)) (s, w)
      (fold (\<lambda>a (s, w). if ftn_addrcomp a addr = 0 then out_scan_fbox_dir collect path addr flavor s w else (s, w))
         l' (s, w))" if "set l' \<subseteq> set l" for l l' addr path flavor s w
    using that
  proof (induction l' arbitrary: s w)
    case (Cons a l')
    then have m: "ftn_addrcomp a addr = 0 \<Longrightarrow> wanted (Some l) (\<lambda>a. ftn_addrcomp addr a = 0)"
      using ftn_addrcomp_sym [of a addr] by (auto simp: wanted_def list_ex_iff)
    obtain s' w' where sw: "(if ftn_addrcomp a addr = 0 then out_scan_fbox_dir collect path addr flavor s w
      else (s, w)) = (s', w')" by fastforce
    then have "adds (asked (Some l)) (s, w) (s', w')" using asked_fbox [OF m] by (metis adds_refl)
    moreover have "adds (asked (Some l)) (s', w')
      (fold (\<lambda>a (s, w). if ftn_addrcomp a addr = 0 then out_scan_fbox_dir collect path addr flavor s w else (s, w))
         l' (s', w'))" using Cons by simp
    ultimately show ?case using sw adds_trans by fastforce
  qed simp
  then show ?thesis
    by (auto simp: scan_fileboxes_def wanted_def asked_fbox_all intro!: adds_pair_fold split: cval.split option.split)
qed

lemma asked_path:
  "(\<And>p s w. adds P (s, w) (f p s w)) \<Longrightarrow> adds P (s, w) (scan_path path f s w)"
  by (simp add: scan_path_def)

lemma asked_rest:
  assumes "scan_path (conf_string cf ''outbound_directory'') (out_scan_bso cf collect fa) s w = (s1, w1)"
  shows "adds (asked fa) (s1, w1) (out_scan cf collect fa s w)"
proof -
  let ?P = "asked fa"
  obtain s2 w2 where 2: "scan_domains cf collect fa s1 w1 = (s2, w2)" by fastforce
  obtain s3 w3 where 3: "scan_path (conf_string cf ''amiga_outbound_directory'') (out_scan_aso collect fa) s2 w2
    = (s3, w3)" by fastforce
  obtain s4 w4 where 4: "scan_fileboxes cf collect fa s3 w3 = (s4, w4)" by fastforce
  have "adds ?P (s1, w1) (s2, w2)" unfolding 2 [symmetric] by (rule asked_domains)
  moreover have "adds ?P (s2, w2) (s3, w3)" unfolding 3 [symmetric] by (rule asked_path) (rule asked_aso)
  moreover have "adds ?P (s3, w3) (s4, w4)" unfolding 4 [symmetric] by (rule asked_fileboxes)
  moreover have "adds ?P (s4, w4) (scan_path (conf_string cf ''filebox_directory'') (out_scan_lbox collect fa) s4 w4)"
    by (auto intro: asked_path asked_lbox)
  ultimately have "adds ?P (s1, w1) (scan_path (conf_string cf ''filebox_directory'') (out_scan_lbox collect fa) s4 w4)"
    by (meson adds_trans)
  then show ?thesis by (simp only: out_scan_def Let_def assms 2 3 4 prod.case)
qed

lemma asked_scan: "adds (asked fa) (s, w) (out_scan cf collect fa s w)"
proof -
  obtain s1 w1 where 1: "scan_path (conf_string cf ''outbound_directory'') (out_scan_bso cf collect fa) s w = (s1, w1)"
    by fastforce
  have "adds (asked fa) (s, w) (s1, w1)" unfolding 1 [symmetric] by (rule asked_path) (rule asked_bso)
  then show ?thesis using asked_rest [OF 1] by (rule adds_trans)
qed

text \<open>A path below a directory is listed: each name in the directory before it.\<close>

fun listed :: "world \<Rightarrow> string \<Rightarrow> string list \<Rightarrow> bool" where
  "listed w d [] = True"
| "listed w d (n # ns) = ((case listing w d of None \<Rightarrow> False | Some l \<Rightarrow> n \<in> set l) \<and> listed w (d @ n @ ''/'') ns)"

lemma found_file:
  assumes "wanted fa (\<lambda>a. ftn_addrcomp addr a = 0)" "Q (path @ name) addr"
  shows "list_ex (\<lambda>d. Q (cb_path d) (cb_addr d)) (fst (bso_file collect fa path addr name s w))"
  using assms by (simp add: bso_file_def collect_def)

text \<open>What a fold keeps of its state while it goes over other names, and what it has found then stays.\<close>

lemma fold_finds:
  assumes "name \<in> set names"
    and keep: "\<And>x st. R st \<Longrightarrow> R (f x st) \<and> adds P (g st) (g (f x st))"
    and hit: "\<And>st. R st \<Longrightarrow> list_ex Q (fst (g (f name st)))"
    and "R st"
  shows "list_ex Q (fst (g (fold f names st)))"
proof -
  have r: "R st \<Longrightarrow> R (fold f ys st) \<and> adds P (g st) (g (fold f ys st))" for ys st
  proof (induction ys arbitrary: st)
    case (Cons y ys)
    then show ?case using keep [OF Cons.prems, of y] adds_trans by fastforce
  qed simp
  obtain ys zs where yz: "fold f names st = fold f zs (f name (fold f ys st))"
    using fold_passes [OF assms(1), of f st] by blast
  have "R (fold f ys st)" using r assms(4) by blast
  with hit keep have "list_ex Q (fst (g (f name (fold f ys st))))" "R (f name (fold f ys st))" by blast+
  with r show ?thesis unfolding yz using adds_member by blast
qed

text \<open>The part of the address that comes from the directory, while its names are gone through.\<close>

definition in_zone :: "int \<Rightarrow> s_faddr \<times> 's \<times> world \<Rightarrow> world \<Rightarrow> bool" where
  "in_zone z st w \<longleftrightarrow> zone (fst st) = z \<and> snd (snd st) = w"

lemma point_entry_keeps:
  "in_zone z st w \<and> net (fst st) = n \<and> node (fst st) = f \<Longrightarrow>
   in_zone z (bso_point_entry collect fa path name st) w
     \<and> net (fst (bso_point_entry collect fa path name st)) = n
     \<and> node (fst (bso_point_entry collect fa path name st)) = f"
  using asked_point_entry [of fa st path name]
  by (cases st) (auto simp: bso_point_entry_def in_zone_def Let_def adds_def)

lemma point_dir_keeps:
  "in_zone z st w \<Longrightarrow> in_zone z (out_scan_point_dir collect fa path st) w"
proof -
  assume a: "in_zone z st w"
  have "in_zone z (fold (bso_point_entry collect fa path) names st) w" if "in_zone z st w" for names st
    using that
  proof (induction names arbitrary: st)
    case (Cons n names)
    then show ?case using point_entry_keeps [of z st w "net (fst st)" "node (fst st)" fa path n] by simp
  qed simp
  with a show ?thesis by (simp add: out_scan_point_dir_def split: option.split)
qed

lemma entry_keeps: "in_zone z st w \<Longrightarrow> in_zone z (bso_entry collect fa path name st) w"
proof (cases st)
  case (fields addr s w')
  assume "in_zone z st w"
  then show ?thesis
    using fields point_dir_keeps asked_file [of fa s w' path]
    by (auto simp: bso_entry_def in_zone_def Let_def adds_def bso_file_def collect_def)
qed

text \<open>The file of a node or a point in the directory of its zone.\<close>

definition node_hex :: "s_faddr \<Rightarrow> string" where
  "node_hex a = hex_int 4 (net a) @ hex_int 4 (node a)"

definition bso_parts :: "s_faddr \<Rightarrow> string \<Rightarrow> string list" where
  "bso_parts a ext =
     (if point a = 0 then [node_hex a @ ext] else [node_hex a @ ''.pnt'', hex_int 8 (point a) @ ext])"

lemma node_hex_scan:
  assumes "addr_ok a"
  shows "scan_hex 4 (node_hex a @ r) = net a" "scan_hex 4 (drop 4 (node_hex a @ r)) = node a"
    "length (node_hex a) = 8" "c \<in> set (node_hex a) \<Longrightarrow> c \<in> set HEXSET"
proof -
  have ok: "num_ok (net a)" "num_ok (node a)" "net a < 16 ^ 4" "node a < 16 ^ 4"
    using assms by (auto simp: addr_ok_def num_ok_def ADDRNUM_MAX_def)
  note l = hex_int_length [OF ok(1,3)] hex_int_length [OF ok(2,4)]
  show "scan_hex 4 (node_hex a @ r) = net a" "scan_hex 4 (drop 4 (node_hex a @ r)) = node a"
    using scan_hex_hex_int [OF ok(1,3), of "hex_int 4 (node a) @ r"] scan_hex_hex_int [OF ok(2,4), of r] l
    by (simp_all add: node_hex_def)
  show "length (node_hex a) = 8" using l by (simp add: node_hex_def)
  show "c \<in> set (node_hex a) \<Longrightarrow> c \<in> set HEXSET"
    using hex_int_hexset ok(1,2) by (auto simp: node_hex_def)
qed

abbreviation finds :: "s_faddr \<Rightarrow> string \<Rightarrow> outbound_callback_data list \<Rightarrow> bool" where
  "finds a path \<equiv> list_ex (\<lambda>d. cb_path d = path \<and> ftn_addrcomp (cb_addr d) a = 0)"

lemma node_found:
  assumes "addr_ok a" "bso_ext ext" "point a = 0" "wanted fa (\<lambda>b. ftn_addrcomp a b = 0)" "in_zone (zone a) st w"
  shows "finds a (path @ node_hex a @ ext) (fst (snd (bso_entry collect fa path (node_hex a @ ext) st)))"
proof -
  obtain addr s where st: "st = (addr, s, w)" "zone addr = zone a" using assms(5) by (cases st) (auto simp: in_zone_def)
  have "bso_filename (node_hex a @ ext)"
    using assms(2) by (intro bso_filename_hex) (auto simp: node_hex_scan [OF assms(1)] bso_ext_def)
  moreover have "drop 8 (node_hex a @ ext) = ext" using node_hex_scan(3) [OF assms(1)] by simp
  moreover have "wanted fa (\<lambda>b. ftn_addrcomp (addr\<lparr>point := 0, net := net a, node := node a\<rparr>) b = 0)"
    using assms(3,4) st(2) by (simp add: ftn_addrcomp_def)
  ultimately show ?thesis
    using st assms(3) bso_ext_not_pnt [OF assms(2)]
    by (simp add: bso_entry_def node_hex_scan [OF assms(1)] Let_def bso_file_def collect_def ftn_addrcomp_def
        del: drop_append)
qed

lemma point_found:
  assumes "addr_ok a" "bso_ext ext" "point a \<noteq> 0" "wanted fa (\<lambda>b. ftn_addrcomp a b = 0)"
    "in_zone (zone a) st w \<and> net (fst st) = net a \<and> node (fst st) = node a"
  shows "finds a (path @ hex_int 8 (point a) @ ext) (fst (snd (bso_point_entry collect fa path (hex_int 8 (point a) @ ext) st)))"
proof -
  obtain addr s where st: "st = (addr, s, w)" "zone addr = zone a" "net addr = net a" "node addr = node a"
    using assms(5) by (cases st) (auto simp: in_zone_def)
  have ok: "num_ok (point a)" "point a < 16 ^ 8" using assms(1) by (auto simp: addr_ok_def num_ok_def ADDRNUM_MAX_def)
  have "bso_filename (hex_int 8 (point a) @ ext)"
    using assms(2) ok
    by (intro bso_filename_hex) (auto simp: hex_int_hexset hex_int_length bso_ext_def)
  moreover have "wanted fa (\<lambda>b. ftn_addrcomp (addr\<lparr>point := point a\<rparr>) b = 0)"
    using assms(4) st by (simp add: ftn_addrcomp_def)
  ultimately show ?thesis
    using st scan_hex_hex_int [OF ok, of ext]
    by (simp add: bso_point_entry_def Let_def bso_file_def collect_def ftn_addrcomp_def)
qed

lemma point_dir_found:
  assumes "addr_ok a" "bso_ext ext" "point a \<noteq> 0" "wanted fa (\<lambda>b. ftn_addrcomp a b = 0)" "in_zone (zone a) st w"
    "listed w path (bso_parts a ext)"
  shows "finds a (path @ node_hex a @ ''.pnt/'' @ hex_int 8 (point a) @ ext)
    (fst (snd (bso_entry collect fa path (node_hex a @ ''.pnt'') st)))"
proof -
  obtain addr s where st: "st = (addr, s, w)" "zone addr = zone a" using assms(5) by (cases st) (auto simp: in_zone_def)
  let ?dir = "path @ node_hex a @ ''.pnt/''" and ?name = "hex_int 8 (point a) @ ext"
  let ?st = "(addr\<lparr>net := net a, node := node a\<rparr>, s, w)"
  obtain pts where pts: "listing w ?dir = Some pts" "?name \<in> set pts"
    using assms(3,6) by (auto simp: bso_parts_def split: option.splits)
  have pnt: "strncasecmp_eq ''.pnt'' ''.PNT'' 4" by code_simp
  have "bso_filename (node_hex a @ ''.pnt'')"
    using pnt by (intro bso_filename_hex) (auto simp: node_hex_scan [OF assms(1)])
  moreover have "drop 8 (node_hex a @ ''.pnt'') = ''.pnt''" using node_hex_scan(3) [OF assms(1)] by simp
  moreover have "wanted fa (\<lambda>b. net a = net b \<and> node a = node b)"
    using assms(4) by (auto simp: wanted_def list_ex_iff ftn_addrcomp_def split: option.splits if_splits)
  ultimately have "bso_entry collect fa path (node_hex a @ ''.pnt'') st = out_scan_point_dir collect fa ?dir ?st"
    using st pnt by (simp add: bso_entry_def Let_def node_hex_scan [OF assms(1)] del: drop_append)
  moreover have "finds a (?dir @ ?name) (fst (snd (fold (bso_point_entry collect fa ?dir) pts ?st)))"
  proof (rule fold_finds [where R = "\<lambda>st. in_zone (zone a) st w \<and> net (fst st) = net a \<and> node (fst st) = node a",
        OF pts(2)])
    show "finds a (?dir @ ?name) (fst (snd (bso_point_entry collect fa ?dir ?name x)))"
      if "in_zone (zone a) x w \<and> net (fst x) = net a \<and> node (fst x) = node a" for x
      using point_found [OF assms(1-4) that] .
  qed (use st(2) point_entry_keeps asked_point_entry in \<open>auto simp: in_zone_def\<close>)
  ultimately show ?thesis using pts(1) by (simp add: out_scan_point_dir_def)
qed

lemma bso_dir_found:
  assumes "addr_ok a" "bso_ext ext" "wanted fa (\<lambda>b. ftn_addrcomp a b = 0)" "zone addr = zone a"
    "listed w path (bso_parts a ext)"
  shows "finds a (path @ bso_name a @ ext) (fst (out_scan_bso_dir collect fa addr path s w))"
proof -
  let ?name = "if point a = 0 then node_hex a @ ext else node_hex a @ ''.pnt''"
  obtain names where n: "listing w path = Some names" "?name \<in> set names"
    using assms(5) by (auto simp: bso_parts_def split: option.splits if_splits)
  have b: "path @ bso_name a @ ext
    = (if point a = 0 then path @ node_hex a @ ext else path @ node_hex a @ ''.pnt/'' @ hex_int 8 (point a) @ ext)"
    by (simp add: bso_name_def node_hex_def)
  have "finds a (path @ bso_name a @ ext) (fst (snd (fold (bso_entry collect fa path) names (addr, s, w))))"
  proof (rule fold_finds [where R = "\<lambda>st. in_zone (zone a) st w", OF n(2)])
    show "finds a (path @ bso_name a @ ext) (fst (snd (bso_entry collect fa path ?name x)))"
      if "in_zone (zone a) x w" for x
      unfolding b using node_found [OF assms(1,2) _ assms(3) that] point_dir_found [OF assms(1,2) _ assms(3) that assms(5)]
      by auto
  qed (use assms(4) entry_keeps asked_entry in \<open>auto simp: in_zone_def\<close>)
  then show ?thesis using n(1) by (simp add: out_scan_bso_dir_def)
qed

text \<open>The directory of a zone beside the main outbound.\<close>

definition zone_dir :: "s_faddr \<Rightarrow> s_faddr \<Rightarrow> string \<Rightarrow> string" where
  "zone_dir m a main = (if zone a = zone m then main else main @ ''.'' @ hex_int 3 (zone a))"

lemma zone_dir_zone:
  assumes "conf_first cf ''address'' = Some (Falist m t)" "addr_ok a" "zone a < 4096"
  shows "bso_zone cf main (zone_dir m a main) = zone a"
proof -
  have ok: "num_ok (zone a)" "zone a < 16 ^ 3" using assms(2,3) by (auto simp: addr_ok_def num_ok_def)
  have "strspn (hex_int 3 (zone a)) HEXSET = 3"
    using strspn_hex [of "hex_int 3 (zone a)" "[]"] hex_int_hexset [OF ok(1)] hex_int_length [OF ok] by simp
  then show ?thesis
    using assms(1) scan_hex_hex_int [OF ok, of "[]"] by (simp add: bso_zone_def zone_dir_def Let_def)
qed

lemma bso_found:
  assumes "addr_ok a" "0 < zone a" "zone a < 4096" "bso_ext ext" "wanted fa (\<lambda>b. ftn_addrcomp a b = 0)"
    "conf_first cf ''address'' = Some (Falist m t)" "out_get_root p = Some (root, main)"
    "listed w root (zone_dir m a main # bso_parts a ext)"
  shows "finds a (root @ zone_dir m a main @ ''/'' @ bso_name a @ ext) (fst (out_scan_bso cf collect fa p s w))"
proof -
  let ?path = "root @ zone_dir m a main @ ''/''"
  obtain names where n: "listing w root = Some names" "zone_dir m a main \<in> set names"
    "listed w ?path (bso_parts a ext)"
    using assms(8) by (auto split: option.splits)
  define f where "f = (\<lambda>name (s, w).
      let z = bso_zone cf main name in
      if z \<noteq> 0 \<and> wanted fa (\<lambda>a. z = zone a)
      then out_scan_bso_dir collect fa (zero_faddr\<lparr>zone := z\<rparr>) (root @ name @ ''/'') s w
      else (s, w))"
  have "wanted fa (\<lambda>b. zone a = zone b)"
    using assms(5) by (auto simp: wanted_def list_ex_iff ftn_addrcomp_def split: option.splits if_splits)
  then have hit: "f (zone_dir m a main) (s, w)
    = out_scan_bso_dir collect fa (zero_faddr\<lparr>zone := zone a\<rparr>) ?path s w" for s
    using zone_dir_zone [OF assms(6,1,3)] assms(2) by (simp add: f_def)
  have "finds a (?path @ bso_name a @ ext) (fst (id (fold f names (s, w))))"
  proof (rule fold_finds [where R = "\<lambda>st. snd st = w", OF n(2)])
    show "finds a (?path @ bso_name a @ ext) (fst (id (f (zone_dir m a main) x)))" if "snd x = w" for x
      using hit [of "fst x"] that bso_dir_found [OF assms(1,4,5) _ n(3)] by (cases x) simp
    show "snd (f name x) = w \<and> adds (asked fa) (id x) (id (f name x))" if "snd x = w" for name x
      using that adds_snd [OF asked_bso_dir [of fa]] asked_bso_dir [of fa] by (cases x) (simp add: f_def Let_def)
  qed simp
  then show ?thesis using n(1) assms(7) by (simp add: out_scan_bso_def f_def)
qed

text \<open>
  C14: A scan of the outbound only ever hands out files of the addresses it was asked for, whatever
  the five kinds of outbound contain, and leaves the files alone.
\<close>

theorem out_scan_only_asked:
  "list_all (\<lambda>d. wanted fa (\<lambda>a. ftn_addrcomp (cb_addr d) a = 0)) (fst (out_scan cf collect fa [] w))
    \<and> snd (out_scan cf collect fa [] w) = w"
  using asked_scan [of fa "[]" w cf] by (auto simp: adds_def)

text \<open>
  C13: What is put under the name of a node is found again when the outbound is scanned for it: the
  scan asked for the address calls back with the file \<open>out_getname_4d\<close> names, for the node itself and
  for its points, in the main zone and in others up to 4095, for every extension of mail, lists and
  requests in any case, with the address read back from the names.
\<close>

theorem outbound_mail_found:
  assumes "addr_ok a" "0 < zone a" "zone a < 4096" "bso_ext ext" "wanted fa (\<lambda>b. ftn_addrcomp a b = 0)"
    "conf_first cf ''address'' = Some (Falist m t)" "conf_string cf ''outbound_directory'' = Some (p @ ''/'')"
    "out_get_root (p @ ''/'') = Some (root, main)"
    "out_getname_4d (Some (p @ ''/'')) (Some m) a = Some name"
    "listed w root (zone_dir m a main # bso_parts a ext)"
  shows "list_ex (\<lambda>d. cb_path d = name @ ext \<and> ftn_addrcomp (cb_addr d) a = 0) (fst (out_scan cf collect fa [] w))"
proof -
  have ne: "root \<noteq> []" "main \<noteq> []" using assms(8,9) by (auto simp: out_getname_4d_def split: if_splits)
  have "p @ ''/'' = root @ main @ ''/''"
  proof -
    have "p @ ''/'' \<noteq> []" by simp
    from out_get_root_parts [OF this assms(8)] have "p @ ''/'' = root @ main \<or> p @ ''/'' = root @ main @ ''/''" .
    moreover have "CHR ''/'' \<notin> set main"
      using assms(8) by (auto simp: out_get_root_def Let_def dest: set_takeWhileD split: if_splits)
    ultimately show ?thesis using ne(2) by (cases main rule: rev_cases) auto
  qed
  then have name: "name @ ext = root @ zone_dir m a main @ ''/'' @ bso_name a @ ext"
    using assms(8,9) ne by (auto simp: out_getname_4d_def string_concat_def zone_dir_def)
  let ?s = "scan_path (conf_string cf ''outbound_directory'') (out_scan_bso cf collect fa) [] w"
  have "finds a (name @ ext) (fst ?s)"
    unfolding name using assms(7) bso_found [OF assms(1-6,8,10), of "[]"] by (simp add: scan_path_def filled_def)
  moreover have "adds (asked fa) ?s (out_scan cf collect fa [] w)"
    using asked_rest [of cf fa "[]" w "fst ?s" "snd ?s"] by simp
  ultimately show ?thesis by (rule adds_member [rotated])
qed

definition example_addr :: s_faddr where
  "example_addr = zero_faddr\<lparr>zone := 2, net := 5020, node := 545, point := 7\<rparr>"

definition example_conf :: conf where
  "example_conf = \<lparr>conf_data = (\<lambda>k. if k = ''address'' then [(None, Falist (zero_faddr\<lparr>zone := 2, net := 5020, node := 1\<rparr>) None)]
     else if k = ''outbound_directory'' then [(None, Text ''/bf/out/'')] else []), eventexpr = (\<lambda>_. False)\<rparr>"

definition example_world :: world where
  "example_world = \<lparr>dir = (\<lambda>_. None), inode = (\<lambda>_. \<lparr>content = [], mtime = 0, fmode = 0, is_dir = False\<rparr>),
     next_inode = 0, now = 0, gmtoff = 0, fails = (\<lambda>_. False), calls = 0, no_locks = False, statvfs = (\<lambda>_. None),
     listing = (\<lambda>d. if d = ''/bf/'' then Some [''out''] else if d = ''/bf/out/'' then Some [''.'', ''139c0221.pnt'']
        else if d = ''/bf/out/139c0221.pnt/'' then Some [''.'', ''00000007.cut''] else None),
     rands = (\<lambda>_. 0), drawn = 0\<rparr>"

lemma example_hex: "hex 5020 = ''139c''" "hex 545 = ''221''" "hex 7 = ''7''"
  by (simp_all add: radix.simps hexdigits_def)

lemma example_zeros: "replicate 7 c = [c, c, c, c, c, c, c]"
  by (simp add: numeral_eq_Suc)

theorem outbound_mail_found_witness:
  "list_ex (\<lambda>d. cb_path d = ''/bf/out/139c0221.pnt/00000007'' @ ''.cut'' \<and> ftn_addrcomp (cb_addr d) example_addr = 0)
     (fst (out_scan example_conf collect (Some [example_addr]) [] example_world))"
proof (rule outbound_mail_found [where m = "zero_faddr\<lparr>zone := 2, net := 5020, node := 1\<rparr>" and t = None
      and p = "''/bf/out''" and root = "''/bf/''" and main = "''out''"])
  show "addr_ok example_addr"
    by (simp add: addr_ok_def example_addr_def zero_faddr_def num_ok_def ADDRNUM_MAX_def)
  show "0 < zone example_addr" "zone example_addr < 4096" by (simp_all add: example_addr_def)
  show "bso_ext ''.cut''" by code_simp
  show "wanted (Some [example_addr]) (\<lambda>b. ftn_addrcomp example_addr b = 0)"
    by (simp add: wanted_def ftn_addrcomp_def)
  show "conf_first example_conf ''address'' = Some (Falist (zero_faddr\<lparr>zone := 2, net := 5020, node := 1\<rparr>) None)"
    by (simp add: example_conf_def conf_first_def conf_entries_def)
  show "conf_string example_conf ''outbound_directory'' = Some (''/bf/out'' @ ''/'')"
    by (simp add: example_conf_def conf_string_def conf_first_def conf_entries_def)
  show "out_get_root (''/bf/out'' @ ''/'') = Some (''/bf/'', ''out'')" by code_simp
  show "out_getname_4d (Some (''/bf/out'' @ ''/'')) (Some (zero_faddr\<lparr>zone := 2, net := 5020, node := 1\<rparr>)) example_addr
    = Some ''/bf/out/139c0221.pnt/00000007''"
    by (simp add: out_getname_4d_def out_get_root_def string_concat_def bso_name_def hex_int_def pad0_def
        example_addr_def zero_faddr_def example_hex example_zeros)
  show "listed example_world ''/bf/'' (zone_dir (zero_faddr\<lparr>zone := 2, net := 5020, node := 1\<rparr>) example_addr ''out''
     # bso_parts example_addr ''.cut'')"
    by (simp add: zone_dir_def bso_parts_def node_hex_def hex_int_def pad0_def example_addr_def example_world_def
        zero_faddr_def example_hex example_zeros)
qed

section \<open>The loops over a list of files end\<close>

lemma flo_next_left: "flo_next cf FLO w = (False, FLO', w') \<Longrightarrow> flo_left FLO' w' < flo_left FLO w"
proof (induction "flo_left FLO w" arbitrary: FLO w rule: less_induct)
  case less
  obtain offs w1 where t: "ftell (FLO_fp FLO) w = (offs, w1)" by fastforce
  obtain r fp w2 where g: "fgets (FLO_PATH - 1) (FLO_fp FLO) w1 = (r, fp, w2)" by (metis prod_cases3)
  let ?flo = "FLO\<lparr>att_offs := offs, FLO_fp := fp\<rparr>"
  note e = flo_next_eq [OF t g]
  show ?case
  proof (cases "offs = -1 \<or> r = None")
    case True
    then show ?thesis using less.prems e by (cases "offs = -1"; cases r) simp_all
  next
    case False
    then obtain l where r: "offs \<noteq> -1" "r = Some l" by auto
    have m: "flo_left (?flo\<lparr>att_path := p\<rparr>) w2 < flo_left FLO w"
      "flo_left (?flo\<lparr>att_path := p, att_action := a\<rparr>) w2 < flo_left FLO w" for p a
      using flo_measure [of offs w1 "FLO_fp FLO" w l fp w2] t g r by (simp_all add: flo_left_def)
    show ?thesis
    proof (cases "string_is_empty l \<or> peek l = CHR ''~''")
      case True
      then have "flo_next cf (?flo\<lparr>att_path := l\<rparr>) w2 = (False, FLO', w')" using less.prems e r by simp
      from less.hyps [OF m(1) this] m(1) [of l] show ?thesis by simp
    next
      case no: False
      obtain action path where p: "flo_prefix (string_chomp l) = (action, path)" by (rule prod.exhaust)
      have n: "flo_next cf FLO w = (False, ?flo\<lparr>att_path := flo_translate cf path, att_action := action\<rparr>, w2)"
        unfolding e using r no p by (simp only: if_False option.case prod.case simp_thms)
      have "FLO' = ?flo\<lparr>att_path := flo_translate cf path, att_action := action\<rparr>" "w' = w2"
        using less.prems unfolding n by blast+
      then show ?thesis using m(2) by (simp only:)
    qed
  qed
qed

lemma readflo_enough:
  "flo_left FLO w < n \<Longrightarrow>
    readflo_loop (n + k) cf flavor aso flodsc FLO w = readflo_loop n cf flavor aso flodsc FLO w"
proof (induction n arbitrary: FLO w)
  case (Suc n)
  obtain stop FLO' w' where f: "flo_next cf FLO w = (stop, FLO', w')" by (metis prod_cases3)
  show ?case
  proof (cases stop)
    case False
    then have "flo_left FLO' w' < n" using flo_next_left f Suc.prems by fastforce
    then show ?thesis using Suc.IH [of FLO' w'] f False by simp
  qed (simp add: f)
qed simp

lemma marksent_enough:
  "flo_left FLO w < n \<Longrightarrow> marksent_loop (n + k) cf fname FLO w = marksent_loop n cf fname FLO w"
proof (induction n arbitrary: FLO w)
  case (Suc n)
  obtain stop FLO' w' where f: "flo_next cf FLO w = (stop, FLO', w')" by (metis prod_cases3)
  show ?case
  proof (cases stop)
    case False
    then have "flo_left FLO' w' < n" using flo_next_left f Suc.prems by fastforce
    then show ?thesis using Suc.IH [of FLO' w'] f False by simp
  qed (simp add: f)
qed simp

lemma isempty_enough:
  "flo_left FLO w < n \<Longrightarrow> isempty_loop (n + k) cf FLO w = isempty_loop n cf FLO w"
proof (induction n arbitrary: FLO w)
  case (Suc n)
  obtain stop FLO' w' where f: "flo_next cf FLO w = (stop, FLO', w')" by (metis prod_cases3)
  show ?case
  proof (cases stop)
    case False
    then have "flo_left FLO' w' < n" using flo_next_left f Suc.prems by fastforce
    then show ?thesis using Suc.IH [of FLO' w'] f False by simp
  qed (simp add: f)
qed simp

end
