(* ===== verification/SessStat.thy ===== *)
theory SessStat
  imports Conf Files
begin

text \<open>
  The statistics of the sessions with an address (\<open>sess_stat.c\<close>): counters of failed calls, the times
  until which a system is left alone, the times of the last sessions, in one small text file for each
  address, into which the outcome of a session is merged.
\<close>

section \<open>The code\<close>

record s_sess_stat =
  undialable :: bool
  tries :: u32
  tries_noconn :: u32
  tries_nodial :: u32
  tries_noansw :: u32
  tries_hshake :: u32
  tries_sessns :: u32
  hold_until :: u64
  hold_freqs :: u64
  last_success :: u64
  last_success_in :: u64
  last_success_out :: u64

definition TRIES_RESET :: u32 where "TRIES_RESET = -1"
definition HOLD_RESET :: u64 where "HOLD_RESET = 1"

definition zero_stat :: s_sess_stat where
  "zero_stat = \<lparr>undialable = False, tries = 0, tries_noconn = 0, tries_nodial = 0, tries_noansw = 0, tries_hshake = 0, tries_sessns = 0,
     hold_until = 0, hold_freqs = 0, last_success = 0, last_success_in = 0, last_success_out = 0\<rparr>"

definition session_stat_reset_counters :: "s_sess_stat \<Rightarrow> s_sess_stat" where
  "session_stat_reset_counters st =
     st\<lparr>tries := TRIES_RESET, tries_noansw := TRIES_RESET, tries_noconn := TRIES_RESET,
        tries_nodial := TRIES_RESET, tries_hshake := TRIES_RESET, tries_sessns := TRIES_RESET\<rparr>"

text \<open>\<open>%u\<close> of an \<open>int\<close>.\<close>

definition fmt_u :: "int \<Rightarrow> string" where
  "fmt_u v = dec (nat (v mod 2 ^ 32))"

definition session_stat_get_stsfile :: "conf \<Rightarrow> s_faddr \<Rightarrow> string option" where
  "session_stat_get_stsfile cf addr =
     (case conf_string cf ''status_directory'' of
        None \<Rightarrow> None
      | Some d \<Rightarrow>
          if d = [] then None
          else Some (string_concat d [fmt_u (zone addr) @ ''.'' @ fmt_u (net addr) @ ''.'' @ fmt_u (node addr)
                       @ ''.'' @ fmt_u (point addr) @ ''.sts'']))"

text \<open>
  \<open>fscanf\<close> with \<open>%u\<close> and \<open>%lu\<close>: \<open>strtoul\<close>, which saturates, and then the width of the field. The
  fields that are not there keep what they had.
\<close>

definition scan_unsigned :: "string \<Rightarrow> (nat \<times> string) option" where
  "scan_unsigned s =
     (let t = dropWhile isspace s;
          neg = (peek t = CHR ''-'');
          t = (if neg \<or> peek t = CHR ''+'' then tl t else t);
          ds = takeWhile isdigit t;
          v = min (2 ^ 64 - 1) (radix_val 10 ds)
      in if ds = [] then None else Some (if neg then (2 ^ 64 - v) mod 2 ^ 64 else v, drop (length ds) t))"

primrec scan_fields :: "nat \<Rightarrow> string \<Rightarrow> nat list" where
  "scan_fields 0 s = []"
| "scan_fields (Suc n) s =
     (case scan_unsigned s of None \<Rightarrow> [] | Some (v, r) \<Rightarrow> v # scan_fields n r)"

definition field :: "nat list \<Rightarrow> nat \<Rightarrow> 'a::len word" where
  "field vs i = (if i < length vs then of_nat (vs ! i) else 0)"

definition sts_parse :: "string \<Rightarrow> s_sess_stat" where
  "sts_parse s =
     (let v = scan_fields 10 s in
      \<lparr>undialable = False, tries = field v 0, tries_noconn = field v 1, tries_nodial = field v 3, tries_noansw = field v 2,
       tries_hshake = field v 4, tries_sessns = field v 5, hold_until = field v 6, hold_freqs = field v 7,
       last_success = max (field v 8) (field v 9), last_success_in = field v 9, last_success_out = field v 8\<rparr>)"

definition sts_text :: "s_sess_stat \<Rightarrow> string" where
  "sts_text st =
     dec (unat (tries st)) @ '' '' @ dec (unat (tries_noconn st)) @ '' '' @ dec (unat (tries_noansw st)) @ '' ''
     @ dec (unat (tries_nodial st)) @ '' '' @ dec (unat (tries_hshake st)) @ '' '' @ dec (unat (tries_sessns st)) @ '' ''
     @ dec (unat (hold_until st)) @ '' '' @ dec (unat (hold_freqs st)) @ '' ''
     @ dec (unat (last_success_out st)) @ '' '' @ dec (unat (last_success_in st))"

text \<open>The flag is success. A failed read leaves the zeros.\<close>

definition session_stat_read_stsfile :: "stream \<Rightarrow> world \<Rightarrow> bool \<times> s_sess_stat option \<times> stream \<times> world" where
  "session_stat_read_stsfile fp w =
     (case fseek fp 0 w of (ok, fp, w) \<Rightarrow>
        if \<not> ok then (False, None, fp, w)
        else
          (case syscall w of (ok, w) \<Rightarrow>
             (True, Some (sts_parse (if ok then content (inode w (st_inode fp)) else [])), fp, w)))"

definition session_stat_write_stsfile :: "stream \<Rightarrow> s_sess_stat \<Rightarrow> world \<Rightarrow> bool \<times> stream \<times> world" where
  "session_stat_write_stsfile fp st w =
     (case fseek fp 0 w of (ok, fp, w) \<Rightarrow>
        if \<not> ok then (False, fp, w)
        else case fwrite (sts_text st) fp w of (_, fp, w) \<Rightarrow> (True, fp, w))"

text \<open>The update of each field.\<close>

definition count :: "u32 \<Rightarrow> u32 \<Rightarrow> u32" where
  "count old d = (if d = TRIES_RESET then 0 else old + d)"

definition hold :: "u64 \<Rightarrow> u64 \<Rightarrow> u64" where
  "hold old d = (if d = HOLD_RESET then 0 else if d > old then d else old)"

definition merge_stat :: "s_sess_stat \<Rightarrow> s_sess_stat \<Rightarrow> s_sess_stat" where
  "merge_stat d old =
     old\<lparr>tries := count (tries old) (tries d),
         tries_noconn := count (tries_noconn old) (tries_noconn d),
         tries_nodial := count (tries_nodial old) (tries_nodial d),
         tries_noansw := count (tries_noansw old) (tries_noansw d),
         tries_hshake := count (tries_hshake old) (tries_hshake d),
         tries_sessns := count (tries_sessns old) (tries_sessns d),
         hold_until := hold (hold_until old) (hold_until d),
         hold_freqs := hold (hold_freqs old) (hold_freqs d),
         last_success_out := (if last_success_out d > last_success_out old then last_success_out d else last_success_out old),
         last_success_in := (if last_success_in d > last_success_in old then last_success_in d else last_success_in old)\<rparr>"

definition ftruncate :: "stream \<Rightarrow> world \<Rightarrow> bool \<times> world" where
  "ftruncate fp w =
     (case syscall w of (ok, w) \<Rightarrow> if ok then (True, set_inode (st_inode fp) (\<lambda>f. f\<lparr>content := []\<rparr>) w) else (False, w))"

definition session_stat_update_stsfile :: "string \<Rightarrow> s_sess_stat \<Rightarrow> world \<Rightarrow> int \<times> world" where
  "session_stat_update_stsfile stsname st w =
     (let stsexist = exists stsname w in
      case file_open stsname (if stsexist then Mode_rp else Mode_w) w of
        (None, w) \<Rightarrow> (-1, w)
      | (Some fp, w) \<Rightarrow>
          let (ok, tmpstat, fp, w) =
                (if stsexist then
                   (case session_stat_read_stsfile fp w of (_, t, fp, w) \<Rightarrow>
                    case ftruncate fp w of (ok, w) \<Rightarrow>
                      (ok, (case t of None \<Rightarrow> zero_stat | Some t \<Rightarrow> t), fp, w))
                 else (True, zero_stat, fp, w));
              (ok, fp, w) =
                (if ok then session_stat_write_stsfile fp (merge_stat st tmpstat) w else (False, fp, w))
          in (if ok then 0 else -1, snd (file_close fp w)))"

definition session_stat_get :: "conf \<Rightarrow> s_faddr \<Rightarrow> world \<Rightarrow> int \<times> s_sess_stat \<times> world" where
  "session_stat_get cf addr w =
     (case session_stat_get_stsfile cf addr of
        None \<Rightarrow> (0, zero_stat, w)
      | Some stsname \<Rightarrow>
          (case file_open stsname Mode_r w of
             (None, w) \<Rightarrow> (-1, zero_stat, w)
           | (Some fp, w) \<Rightarrow>
               (case session_stat_read_stsfile fp w of (_, t, fp, w) \<Rightarrow>
                  (0, (case t of None \<Rightarrow> zero_stat | Some t \<Rightarrow> t), snd (file_close fp w)))))"

definition session_stat_apply_diff :: "conf \<Rightarrow> s_faddr \<Rightarrow> s_sess_stat \<Rightarrow> world \<Rightarrow> int \<times> world" where
  "session_stat_apply_diff cf addr st w =
     (case session_stat_get_stsfile cf addr of
        None \<Rightarrow> (-1, w) | Some stsname \<Rightarrow> session_stat_update_stsfile stsname st w)"

definition BFERR_NOERROR :: int where "BFERR_NOERROR = 0"
definition BFERR_FATALERROR :: int where "BFERR_FATALERROR = 1"
definition BFERR_PHONE_UNKNOWN :: int where "BFERR_PHONE_UNKNOWN = 2"
definition BFERR_PORTBUSY :: int where "BFERR_PORTBUSY = 3"
definition BFERR_SYSTEM_LOCKED :: int where "BFERR_SYSTEM_LOCKED = 4"
definition BFERR_TRY_LATER :: int where "BFERR_TRY_LATER = 5"
definition BFERR_NOMODEM :: int where "BFERR_NOMODEM = 6"
definition BFERR_NOTWORKING :: int where "BFERR_NOTWORKING = 7"
definition BFERR_CANT_CONNECT10 :: int where "BFERR_CANT_CONNECT10 = 10"
definition BFERR_CANT_CONNECT11 :: int where "BFERR_CANT_CONNECT11 = 11"
definition BFERR_CANT_CONNECT12 :: int where "BFERR_CANT_CONNECT12 = 12"
definition BFERR_CANT_CONNECT13 :: int where "BFERR_CANT_CONNECT13 = 13"
definition BFERR_CANT_CONNECT14 :: int where "BFERR_CANT_CONNECT14 = 14"
definition BFERR_CANT_CONNECT15 :: int where "BFERR_CANT_CONNECT15 = 15"
definition BFERR_CANT_CONNECT16 :: int where "BFERR_CANT_CONNECT16 = 16"
definition BFERR_CANT_CONNECT17 :: int where "BFERR_CANT_CONNECT17 = 17"
definition BFERR_CANT_CONNECT18 :: int where "BFERR_CANT_CONNECT18 = 18"
definition BFERR_CANT_CONNECT19 :: int where "BFERR_CANT_CONNECT19 = 19"
definition BFERR_CONNECT_TOOLOW :: int where "BFERR_CONNECT_TOOLOW = 20"
definition BFERR_HANDSHAKE_ERROR :: int where "BFERR_HANDSHAKE_ERROR = 21"
definition BFERR_XMITERROR :: int where "BFERR_XMITERROR = 22"
definition BFERR_CPSTOOLOW :: int where "BFERR_CPSTOOLOW = 23"
definition BFERR_STOPTIME :: int where "BFERR_STOPTIME = 24"

lemmas bferr = BFERR_NOERROR_def BFERR_FATALERROR_def BFERR_PHONE_UNKNOWN_def BFERR_PORTBUSY_def
  BFERR_SYSTEM_LOCKED_def BFERR_TRY_LATER_def BFERR_NOMODEM_def BFERR_NOTWORKING_def
  BFERR_CANT_CONNECT10_def BFERR_CANT_CONNECT11_def BFERR_CANT_CONNECT12_def BFERR_CANT_CONNECT13_def
  BFERR_CANT_CONNECT14_def BFERR_CANT_CONNECT15_def BFERR_CANT_CONNECT16_def BFERR_CANT_CONNECT17_def
  BFERR_CANT_CONNECT18_def BFERR_CANT_CONNECT19_def BFERR_CONNECT_TOOLOW_def BFERR_HANDSHAKE_ERROR_def
  BFERR_XMITERROR_def BFERR_CPSTOOLOW_def BFERR_STOPTIME_def

definition outcome_stat :: "int \<Rightarrow> s_sess_stat \<Rightarrow> bool \<Rightarrow> int \<Rightarrow> s_sess_stat" where
  "outcome_stat time st caller rc =
     (if rc = BFERR_NOERROR then
        session_stat_reset_counters
          (if caller then st\<lparr>last_success_out := word_of_int time\<rparr> else st\<lparr>last_success_in := word_of_int time\<rparr>)
      else if caller then
        let st = st\<lparr>tries := tries st + 1\<rparr>;
            st = (if rc = BFERR_HANDSHAKE_ERROR then st\<lparr>tries_hshake := tries_hshake st + 1\<rparr> else st);
            st = (if rc = BFERR_CANT_CONNECT14 then st\<lparr>tries_noansw := tries_noansw st + 1\<rparr> else st);
            st = (if rc = BFERR_CANT_CONNECT13 then st\<lparr>tries_nodial := tries_nodial st + 1\<rparr> else st);
            st = (if BFERR_CANT_CONNECT10 \<le> rc \<and> rc \<le> BFERR_CANT_CONNECT19
                  then st\<lparr>tries_noconn := tries_noconn st + 1\<rparr> else st);
            st = (if rc \<ge> BFERR_CONNECT_TOOLOW then st\<lparr>tries_sessns := tries_sessns st + 1\<rparr> else st);
            st = (if rc \<ge> BFERR_CONNECT_TOOLOW
                  then st\<lparr>tries_noansw := TRIES_RESET, tries_noconn := TRIES_RESET\<rparr> else st)
        in (if rc > BFERR_HANDSHAKE_ERROR then st\<lparr>tries_hshake := TRIES_RESET\<rparr> else st)
      else st)"

definition session_stat_update :: "conf \<Rightarrow> s_faddr \<Rightarrow> s_sess_stat \<Rightarrow> bool \<Rightarrow> int \<Rightarrow> world \<Rightarrow> int \<times> s_sess_stat \<times> world" where
  "session_stat_update cf addr st caller rc w =
     (let st = outcome_stat (now w) st caller rc in
      case session_stat_get_stsfile cf addr of
        None \<Rightarrow> (-1, st, w)
      | Some stsname \<Rightarrow> (case session_stat_update_stsfile stsname st w of (rc, w) \<Rightarrow> (rc, st, w)))"

section \<open>Reading back what was written\<close>

lemma scan_unsigned_dec:
  assumes "n < 2 ^ 64" "r = [] \<or> \<not> isdigit (hd r)"
  shows "scan_unsigned (dec n @ r) = Some (n, r)" "scan_unsigned (CHR '' '' # dec n @ r) = Some (n, r)"
proof -
  have d: "isdigit c" if "c \<in> set (dec n)" for c using radix_digits [of 10 c n] that by auto
  then have s: "\<not> isspace c \<and> c \<noteq> CHR ''-'' \<and> c \<noteq> CHR ''+''" if "c \<in> set (dec n)" for c
    using that by (force simp: isdigit_def isspace_def)
  obtain c t where ct: "dec n = c # t" by (cases "dec n") auto
  have tw: "takeWhile isdigit (dec n @ r) = dec n" using d assms(2) by (intro takeWhile_run) auto
  show 1: "scan_unsigned (dec n @ r) = Some (n, r)"
    using s [of c] tw assms(1) by (simp add: scan_unsigned_def ct Let_def peek_def) (simp add: ct [symmetric])
  then show "scan_unsigned (CHR '' '' # dec n @ r) = Some (n, r)"
    by (simp add: scan_unsigned_def isspace_def)
qed

lemma u32_bound: "unat (x :: u32) < 2 ^ 64"
  using unsigned_less [of x, where 'a = nat] by simp

lemma u64_bound: "unat (x :: u64) < 2 ^ 64"
  using unsigned_less [of x, where 'a = nat] by simp

lemma scan_fields_dec:
  assumes "v < 2 ^ 64" "r = [] \<or> \<not> isdigit (hd r)"
  shows "scan_fields (Suc n) (dec v @ r) = v # scan_fields n r"
    "scan_fields (Suc n) (CHR '' '' # dec v @ r) = v # scan_fields n r"
  using assms by (simp_all only: scan_fields.simps scan_unsigned_dec option.case prod.case)

lemma sts_fields:
  "scan_fields 10 (sts_text st) =
    [unat (tries st), unat (tries_noconn st), unat (tries_noansw st), unat (tries_nodial st), unat (tries_hshake st),
     unat (tries_sessns st), unat (hold_until st), unat (hold_freqs st), unat (last_success_out st), unat (last_success_in st)]"
proof -
  have ten: "(10 :: nat) = Suc (Suc (Suc (Suc (Suc (Suc (Suc (Suc (Suc (Suc 0)))))))))" by simp
  have d: "\<not> isdigit (CHR '' '')" by (simp add: isdigit_def)
  have nil: "scan_fields (Suc 0) (CHR '' '' # dec (unat (last_success_in st))) = [unat (last_success_in st)]"
    using scan_fields_dec(2) [of "unat (last_success_in st)" "[]" 0] by (simp only: append_Nil2 u64_bound) simp
  have "scan_fields (Suc (Suc (Suc (Suc (Suc (Suc (Suc (Suc (Suc (Suc 0)))))))))) (sts_text st) =
    [unat (tries st), unat (tries_noconn st), unat (tries_noansw st), unat (tries_nodial st), unat (tries_hshake st),
     unat (tries_sessns st), unat (hold_until st), unat (hold_freqs st), unat (last_success_out st), unat (last_success_in st)]"
    by (simp only: sts_text_def append.simps scan_fields_dec u32_bound u64_bound d list.sel nil
        append_assoc not_False_eq_True disj_not1 simp_thms)
  then show ?thesis by (simp only: ten [symmetric])
qed

lemma sts_roundtrip:
  "sts_parse (sts_text st)
    = st\<lparr>undialable := False, last_success := max (last_success_out st) (last_success_in st)\<rparr>"
  by (simp add: sts_parse_def sts_fields field_def Let_def)

section \<open>A merge into the file\<close>

definition stored :: "string \<Rightarrow> world \<Rightarrow> s_sess_stat" where
  "stored p w = (case dir w p of None \<Rightarrow> zero_stat | Some i \<Rightarrow> sts_parse (content (inode w i)))"

definition plain_path :: "string \<Rightarrow> world \<Rightarrow> bool" where
  "plain_path p w \<longleftrightarrow> (case dir w p of None \<Rightarrow> True | Some i \<Rightarrow> \<not> is_dir (inode w i))"

definition no_failures :: "world \<Rightarrow> bool" where
  "no_failures w \<longleftrightarrow> fails w = (\<lambda>n. False)"

lemma syscall_ok: "no_failures w \<Longrightarrow> syscall w = (True, w\<lparr>calls := calls w + 1\<rparr>)"
  by (simp add: syscall_def no_failures_def)

lemma file_open_ok:
  assumes "no_failures w" "fopen p md w = (Some s, w')"
  shows "\<exists>n. file_open p md w = (Some s, w'\<lparr>calls := n\<rparr>)"
proof -
  have "no_failures w'"
    using assms by (auto simp: fopen_def new_file_def set_inode_def no_failures_def Let_def syscall_def
        split: prod.splits option.splits if_splits)
  then show ?thesis
    using assms(2) by (cases "no_locks w'") (auto simp: file_open_def file_lock_def syscall_ok)
qed

lemmas stream_ops = fopen_def fseek_def fwrite_def fclose_def file_close_def ftruncate_def syscall_def no_failures_def
  set_inode_def new_file_def overwrite_def exists_def

lemma get_stored:
  assumes "no_failures w" "session_stat_get_stsfile cf addr = Some p"
  shows "fst (snd (session_stat_get cf addr w)) = stored p w"
proof (cases "dir w p")
  case None
  then have "fst (file_open p Mode_r w) = None"
    using assms(1) by (simp add: file_open_def stream_ops)
  then show ?thesis
    using assms(2) None by (auto simp: session_stat_get_def stored_def split: prod.splits option.splits)
next
  case (Some i)
  then obtain n where "file_open p Mode_r w = (Some \<lparr>st_inode = i, st_pos = 0, st_append = False, st_eof = False\<rparr>, w\<lparr>calls := n\<rparr>)"
    using file_open_ok [OF assms(1), of p Mode_r] assms(1) by (auto simp: stream_ops)
  then show ?thesis
    using assms Some by (simp add: session_stat_get_def stored_def session_stat_read_stsfile_def stream_ops)
qed

lemma stored_dialable: "undialable (stored p w) = False"
  by (simp add: stored_def zero_stat_def sts_parse_def Let_def split: option.split)

lemma merge_dialable: "undialable (merge_stat d old) = undialable old"
  by (simp add: merge_stat_def)

lemma update_stored:
  assumes "no_failures w" "plain_path p w"
  shows "fst (session_stat_update_stsfile p d w) = 0
    \<and> stored p (snd (session_stat_update_stsfile p d w)) = sts_parse (sts_text (merge_stat d (stored p w)))
    \<and> no_failures (snd (session_stat_update_stsfile p d w))"
proof (cases "dir w p")
  case None
  then obtain n where "file_open p Mode_w w = (Some \<lparr>st_inode = next_inode w, st_pos = 0, st_append = False, st_eof = False\<rparr>,
      (snd (new_file p w))\<lparr>calls := n\<rparr>)"
    using file_open_ok [OF assms(1), of p Mode_w] assms(1) by (auto simp: stream_ops)
  then show ?thesis
    using assms None by (simp add: session_stat_update_stsfile_def session_stat_write_stsfile_def stored_def stream_ops)
next
  case (Some i)
  then obtain n where "file_open p Mode_rp w = (Some \<lparr>st_inode = i, st_pos = 0, st_append = False, st_eof = False\<rparr>, w\<lparr>calls := n\<rparr>)"
    using file_open_ok [OF assms(1), of p Mode_rp] assms by (auto simp: stream_ops plain_path_def)
  then show ?thesis
    using assms Some by (simp add: session_stat_update_stsfile_def session_stat_write_stsfile_def
        session_stat_read_stsfile_def stored_def stream_ops)
qed

text \<open>The file implements the merge: what is read afterwards is the merge of what was read before.\<close>

lemma session_stat_refines:
  assumes "fails w = (\<lambda>n. False)" "session_stat_get_stsfile cf addr = Some p"
    "case dir w p of None \<Rightarrow> True | Some i \<Rightarrow> \<not> is_dir (inode w i)"
  shows "case session_stat_apply_diff cf addr d w of (rc, w') \<Rightarrow>
    case merge_stat d (fst (snd (session_stat_get cf addr w))) of m \<Rightarrow>
      rc = 0 \<and> fst (snd (session_stat_get cf addr w'))
        = m\<lparr>last_success := max (last_success_out m) (last_success_in m)\<rparr>"
proof -
  have n: "no_failures w" and p: "plain_path p w" using assms by (simp_all add: no_failures_def plain_path_def)
  obtain rc w' where u: "session_stat_update_stsfile p d w = (rc, w')" by (cases "session_stat_update_stsfile p d w")
  then show ?thesis
    using update_stored [OF n p, of d] get_stored [OF n assms(2)] get_stored [of w', OF _ assms(2)] assms(2)
    by (simp add: session_stat_apply_diff_def sts_roundtrip merge_dialable stored_dialable)
qed

definition stat_conf :: conf where
  "stat_conf = \<lparr>conf_data = (\<lambda>k. if k = ''status_directory'' then [(None, Text ''/st/'')] else []), eventexpr = (\<lambda>_. False)\<rparr>"

definition stat_world :: world where
  "stat_world = \<lparr>dir = (\<lambda>_. None), inode = (\<lambda>_. \<lparr>content = [], mtime = 0, fmode = 0, is_dir = False\<rparr>),
     next_inode = 0, now = 0, gmtoff = 0, fails = (\<lambda>_. False), calls = 0, no_locks = False, statvfs = (\<lambda>_. None),
     listing = (\<lambda>_. None), rands = (\<lambda>_. 0), drawn = 0\<rparr>"

text \<open>The outcome of a session, merged: a counter goes up by one, back to zero, or stays.\<close>

lemma count_simps [simp]: "count old 0 = old" "count old 1 = old + 1" "count old (- 1) = 0"
  by (simp_all add: count_def TRIES_RESET_def)

lemma later: "(if old < d then d else old) = max old (d :: u64)"
  by (auto simp: max_def)

lemma merge_outcome:
  assumes "new = merge_stat (outcome_stat t (zero_stat\<lparr>hold_until := h, hold_freqs := f\<rparr>) caller rc) old"
  shows "tries new = (if rc = 0 then 0 else if caller then tries old + 1 else tries old)"
    "tries_hshake new = (if rc = 0 \<or> caller \<and> rc > 21 then 0 else if caller \<and> rc = 21 then tries_hshake old + 1 else tries_hshake old)"
    "tries_noansw new = (if rc = 0 \<or> caller \<and> rc \<ge> 20 then 0 else if caller \<and> rc = 14 then tries_noansw old + 1 else tries_noansw old)"
    "tries_nodial new = (if rc = 0 then 0 else if caller \<and> rc = 13 then tries_nodial old + 1 else tries_nodial old)"
    "tries_noconn new = (if rc = 0 \<or> caller \<and> rc \<ge> 20 then 0 else if caller \<and> 10 \<le> rc \<and> rc \<le> 19 then tries_noconn old + 1 else tries_noconn old)"
    "tries_sessns new = (if rc = 0 then 0 else if caller \<and> rc \<ge> 20 then tries_sessns old + 1 else tries_sessns old)"
    "last_success_out new = (if rc = 0 \<and> caller then max (last_success_out old) (word_of_int t) else last_success_out old)"
    "last_success_in new = (if rc = 0 \<and> \<not> caller then max (last_success_in old) (word_of_int t) else last_success_in old)"
    "hold_until new = (if h = 1 then 0 else max (hold_until old) h)"
    "hold_freqs new = (if f = 1 then 0 else max (hold_freqs old) f)"
  unfolding assms merge_stat_def outcome_stat_def session_stat_reset_counters_def zero_stat_def bferr hold_def HOLD_RESET_def
    TRIES_RESET_def
  by (simp_all add: Let_def later)

text \<open>
  C15: What a session leaves in the statistics of its system. Let nothing fail and the name of the file be no
  directory, and let the difference start from zeros, with a time until which to leave the system alone (1 to take
  such a time back). After \<open>session_stat_update\<close> the file reads, counter by counter and without loss of a bit:
  a successful session (code 0) sets all six counters to zero and the time of the last success in its direction to
  now; a session that failed changes nothing when the other side called; and when we called, the calls are one more,
  and further one more of those without a dial tone (code 13), without an answer (14), without a connection (10 to
  19), with a failed handshake (21), with a broken session (from 20), while a connection sets the counters of no
  answer and no connection, and a handshake that was passed the one of failed handshakes, to zero.
\<close>

theorem session_outcome_recorded:
  assumes "fails w = (\<lambda>n. False)" "session_stat_get_stsfile cf addr = Some p"
    "case dir w p of None \<Rightarrow> True | Some i \<Rightarrow> \<not> is_dir (inode w i)"
    "session_stat_update cf addr (zero_stat\<lparr>hold_until := h, hold_freqs := f\<rparr>) caller rc w = (res, st, w')"
    "old = fst (snd (session_stat_get cf addr w))" "new = fst (snd (session_stat_get cf addr w'))"
  shows "res = 0
    \<and> tries new = (if rc = 0 then 0 else if caller then tries old + 1 else tries old)
    \<and> tries_hshake new = (if rc = 0 \<or> caller \<and> rc > 21 then 0 else if caller \<and> rc = 21 then tries_hshake old + 1 else tries_hshake old)
    \<and> tries_noansw new = (if rc = 0 \<or> caller \<and> rc \<ge> 20 then 0 else if caller \<and> rc = 14 then tries_noansw old + 1 else tries_noansw old)
    \<and> tries_nodial new = (if rc = 0 then 0 else if caller \<and> rc = 13 then tries_nodial old + 1 else tries_nodial old)
    \<and> tries_noconn new = (if rc = 0 \<or> caller \<and> rc \<ge> 20 then 0
         else if caller \<and> 10 \<le> rc \<and> rc \<le> 19 then tries_noconn old + 1 else tries_noconn old)
    \<and> tries_sessns new = (if rc = 0 then 0 else if caller \<and> rc \<ge> 20 then tries_sessns old + 1 else tries_sessns old)
    \<and> last_success_out new = (if rc = 0 \<and> caller then max (last_success_out old) (word_of_int (now w)) else last_success_out old)
    \<and> last_success_in new = (if rc = 0 \<and> \<not> caller then max (last_success_in old) (word_of_int (now w)) else last_success_in old)
    \<and> last_success new = max (last_success_out new) (last_success_in new)
    \<and> hold_until new = (if h = 1 then 0 else max (hold_until old) h)
    \<and> hold_freqs new = (if f = 1 then 0 else max (hold_freqs old) f)"
proof -
  let ?d = "outcome_stat (now w) (zero_stat\<lparr>hold_until := h, hold_freqs := f\<rparr>) caller rc"
  define m where "m = merge_stat ?d old"
  have "session_stat_apply_diff cf addr ?d w = (res, w')"
    using assms(2,4) by (auto simp: session_stat_update_def session_stat_apply_diff_def Let_def split: prod.splits)
  with session_stat_refines [OF assms(1-3), of ?d] assms(5,6)
  have r: "res = 0" "new = m\<lparr>last_success := max (last_success_out m) (last_success_in m)\<rparr>" by (simp_all add: m_def)
  have "tries new = tries m" "tries_hshake new = tries_hshake m" "tries_noansw new = tries_noansw m"
    "tries_nodial new = tries_nodial m" "tries_noconn new = tries_noconn m" "tries_sessns new = tries_sessns m"
    "last_success_out new = last_success_out m" "last_success_in new = last_success_in m"
    "last_success new = max (last_success_out m) (last_success_in m)"
    "hold_until new = hold_until m" "hold_freqs new = hold_freqs m"
    by (simp_all add: r(2))
  then show ?thesis
    using r(1) merge_outcome [OF m_def] by (intro conjI) (simp_all only:)
qed

theorem session_outcome_recorded_witness:
  "\<exists>st w' new. session_stat_update stat_conf zero_faddr (zero_stat\<lparr>hold_until := 0, hold_freqs := 0\<rparr>) True 14 stat_world = (0, st, w')
    \<and> new = fst (snd (session_stat_get stat_conf zero_faddr w')) \<and> tries new = 1 \<and> tries_noansw new = 1
    \<and> tries_noconn new = 1 \<and> tries_hshake new = 0"
proof -
  have f: "session_stat_get_stsfile stat_conf zero_faddr = Some ''/st/0.0.0.0.sts''"
    by (simp add: session_stat_get_stsfile_def stat_conf_def conf_string_def conf_first_def conf_entries_def
        string_concat_def fmt_u_def zero_faddr_def radix.simps hexdigits_def)
  have w: "fails stat_world = (\<lambda>n. False)" "dir stat_world = (\<lambda>_. None)" by (simp_all add: stat_world_def)
  have old: "fst (snd (session_stat_get stat_conf zero_faddr stat_world)) = zero_stat"
    using get_stored [of stat_world, OF _ f] w by (simp add: no_failures_def stored_def)
  obtain res st w' where u: "session_stat_update stat_conf zero_faddr (zero_stat\<lparr>hold_until := 0, hold_freqs := 0\<rparr>) True 14 stat_world
      = (res, st, w')" by (metis prod_cases3)
  have "res = 0 \<and> tries (fst (snd (session_stat_get stat_conf zero_faddr w'))) = 1
      \<and> tries_noansw (fst (snd (session_stat_get stat_conf zero_faddr w'))) = 1
      \<and> tries_noconn (fst (snd (session_stat_get stat_conf zero_faddr w'))) = 1
      \<and> tries_hshake (fst (snd (session_stat_get stat_conf zero_faddr w'))) = 0"
    using session_outcome_recorded [OF w(1) f _ u refl refl] w(2) by (simp add: old zero_stat_def)
  with u show ?thesis by blast
qed

end
