(* ===== verification/Queue.thy ===== *)
theory Queue
  imports Outbound
begin

text \<open>
  The scan of the outbound and its callbacks. For every callback that leaves the files alone a scan is
  the same as first collecting what there is and then calling back for each: the interface between
  \<open>outb_scan.c\<close> and its users. \<open>out_handle_fsqueue\<close> is such a callback.
\<close>

section \<open>Callbacks that leave the files alone\<close>

definition follows :: "'s callback \<Rightarrow> 's \<times> world \<Rightarrow> outbound_callback_data list \<times> world \<Rightarrow> 's \<times> world \<Rightarrow> bool" where
  "follows cb start c r \<longleftrightarrow> r = fold (\<lambda>d (s, w). cb d s w) (fst c) start \<and> same_files (snd c) (snd r)"

lemma fold_rel:
  "R a b \<Longrightarrow> (\<And>x a b. R a b \<Longrightarrow> R (f x a) (g x b)) \<Longrightarrow> R (fold f xs a) (fold g xs b)"
  by (induction xs arbitrary: a b) simp_all

lemma if_rel: "R a c \<Longrightarrow> R b d \<Longrightarrow> R (if p then a else b) (if p then c else d)"
  by simp

locale quiet_callback =
  fixes cb :: "'s callback"
  assumes quiet: "same_files w (snd (cb d s w))"
begin

lemma follows_call: "follows cb st (l, v) (s, w) \<Longrightarrow> follows cb st (collect d l v) (cb d s w)"
proof -
  assume f: "follows cb st (l, v) (s, w)"
  then have e: "fold (\<lambda>d (s, w). cb d s w) l st = (s, w)" by (simp add: follows_def)
  show ?thesis
    using f same_files_trans [OF _ quiet, of v w d s] by (simp add: follows_def collect_def e)
qed

lemma follows_listing: "follows cb st (l, v) (s, w) \<Longrightarrow> listing v = listing w"
  by (simp add: follows_def same_files_def)

lemma follows_regfile: "follows cb st (l, v) (s, w) \<Longrightarrow> is_regfile p v = is_regfile p w"
  by (simp add: follows_def same_files_def is_regfile_def stat_def)

lemma follows_file:
  "follows cb st (l, v) (s, w) \<Longrightarrow> follows cb st (bso_file collect fa path addr name l v) (bso_file cb fa path addr name s w)"
  by (simp add: bso_file_def follows_call)

definition follows_at :: "'s \<times> world \<Rightarrow> s_faddr \<times> outbound_callback_data list \<times> world \<Rightarrow> s_faddr \<times> 's \<times> world \<Rightarrow> bool" where
  "follows_at st c r \<longleftrightarrow> fst c = fst r \<and> follows cb st (snd c) (snd r)"

lemma follows_point_entry:
  "follows_at st c r \<Longrightarrow> follows_at st (bso_point_entry collect fa path name c) (bso_point_entry cb fa path name r)"
  by (cases c; cases r) (auto simp: follows_at_def bso_point_entry_def Let_def follows_file)

lemma follows_point_dir:
  assumes "follows_at st c r"
  shows "follows_at st (out_scan_point_dir collect fa path c) (out_scan_point_dir cb fa path r)"
proof -
  have "listing (snd (snd c)) = listing (snd (snd r))"
    using assms by (simp add: follows_at_def follows_def same_files_def)
  moreover have "follows_at st (fold (bso_point_entry collect fa path) ns c) (fold (bso_point_entry cb fa path) ns r)" for ns
    using assms by (rule fold_rel) (rule follows_point_entry)
  ultimately show ?thesis using assms by (simp add: out_scan_point_dir_def split: option.split)
qed

lemma follows_entry:
  assumes "follows_at st c r"
  shows "follows_at st (bso_entry collect fa path name c) (bso_entry cb fa path name r)"
proof (cases c; cases r)
  fix a l v b s w assume f: "c = (a, l, v)" "r = (b, s, w)"
  with assms have a: "b = a" "follows cb st (l, v) (s, w)" by (simp_all add: follows_at_def)
  have here: "follows_at st (a', l, v) (a', s, w)" for a' using a(2) by (simp add: follows_at_def)
  have points: "follows_at st (out_scan_point_dir collect fa p (a', l, v)) (out_scan_point_dir cb fa p (a', s, w))" for p a'
    by (rule follows_point_dir) (rule here)
  have one: "follows_at st (a', bso_file collect fa path a' name l v) (a', bso_file cb fa path a' name s w)" for a'
    using follows_file [OF a(2)] by (simp add: follows_at_def)
  show ?thesis
    unfolding f a(1) bso_entry_def Let_def prod.case
    by (rule if_rel [where R = "follows_at st"], rule if_rel [where R = "follows_at st"],
        rule if_rel [where R = "follows_at st"]) (rule points here one)+
qed

lemma follows_bso_dir:
  assumes "follows cb st (l, v) (s, w)"
  shows "follows cb st (out_scan_bso_dir collect fa addr path l v) (out_scan_bso_dir cb fa addr path s w)"
proof -
  have "follows_at st (fold (bso_entry collect fa path) ns (addr, l, v)) (fold (bso_entry cb fa path) ns (addr, s, w))" for ns
    by (rule fold_rel [where R = "follows_at st"]) (simp add: follows_at_def assms, rule follows_entry)
  then show ?thesis
    using assms follows_listing [OF assms] by (auto simp: out_scan_bso_dir_def follows_at_def split: option.split)
qed

text \<open>A loop over pairs, each turn of which is followed.\<close>

lemma follows_fold:
  assumes "follows cb st (l, v) (s, w)"
    "\<And>x l v s w. follows cb st (l, v) (s, w) \<Longrightarrow> follows cb st (f x (l, v)) (g x (s, w))"
  shows "follows cb st (fold f xs (l, v)) (fold g xs (s, w))"
  using fold_rel [where R = "follows cb st", OF assms(1)] assms(2) by (metis prod.collapse)

lemma follows_bso:
  assumes "follows cb st (l, v) (s, w)"
  shows "follows cb st (out_scan_bso cf collect fa path l v) (out_scan_bso cf cb fa path s w)"
  using assms follows_listing [OF assms]
  by (auto simp: out_scan_bso_def Let_def follows_bso_dir intro!: follows_fold split: option.split)

lemma follows_fbox:
  assumes "follows cb st (l, v) (s, w)"
  shows "follows cb st (out_scan_fbox_dir collect path addr fl l v) (out_scan_fbox_dir cb path addr fl s w)"
  using assms follows_listing [OF assms]
  by (auto simp: out_scan_fbox_dir_def follows_regfile follows_call intro!: follows_fold split: option.split)

lemma follows_lbox:
  assumes "follows cb st (l, v) (s, w)"
  shows "follows cb st (out_scan_lbox collect fa path l v) (out_scan_lbox cb fa path s w)"
  using assms follows_listing [OF assms]
  by (auto simp: out_scan_lbox_def follows_fbox intro!: follows_fold split: option.split)

lemma follows_aso:
  assumes "follows cb st (l, v) (s, w)"
  shows "follows cb st (out_scan_aso collect fa path l v) (out_scan_aso cb fa path s w)"
  using assms follows_listing [OF assms]
  by (auto simp: out_scan_aso_def follows_call intro!: follows_fold split: option.split)

lemma follows_domains:
  assumes "follows cb st (l, v) (s, w)"
  shows "follows cb st (scan_domains cf collect fa l v) (scan_domains cf cb fa s w)"
  using assms by (auto simp: scan_domains_def follows_bso_dir intro!: follows_fold split: cval.split)

lemma follows_fileboxes:
  assumes "follows cb st (l, v) (s, w)"
  shows "follows cb st (scan_fileboxes cf collect fa l v) (scan_fileboxes cf cb fa s w)"
  unfolding scan_fileboxes_def using assms
proof (rule follows_fold)
  fix x l v s w assume f: "follows cb st (l, v) (s, w)"
  show "follows cb st
      ((\<lambda>(s, w). case x of Filebox addr path flavor \<Rightarrow>
          (case fa of None \<Rightarrow> out_scan_fbox_dir collect path addr flavor s w
           | Some l \<Rightarrow> fold (\<lambda>a (s, w). if ftn_addrcomp a addr = 0 then out_scan_fbox_dir collect path addr flavor s w else (s, w)) l (s, w))
        | _ \<Rightarrow> (s, w)) (l, v))
      ((\<lambda>(s, w). case x of Filebox addr path flavor \<Rightarrow>
          (case fa of None \<Rightarrow> out_scan_fbox_dir cb path addr flavor s w
           | Some l \<Rightarrow> fold (\<lambda>a (s, w). if ftn_addrcomp a addr = 0 then out_scan_fbox_dir cb path addr flavor s w else (s, w)) l (s, w))
        | _ \<Rightarrow> (s, w)) (s, w))"
    using f by (auto simp: follows_fbox intro!: follows_fold split: cval.split option.split)
qed

lemma follows_path:
  assumes "follows cb st c r" "\<And>p l v s w. follows cb st (l, v) (s, w) \<Longrightarrow> follows cb st (f p l v) (g p s w)"
  shows "follows cb st (scan_path path f (fst c) (snd c)) (scan_path path g (fst r) (snd r))"
  using assms by (cases c; cases r) (simp add: scan_path_def)

text \<open>A scan is the collection and then the calls.\<close>

lemma scan_collects:
  "out_scan cf cb fa s w = fold (\<lambda>d (s, w). cb d s w) (fst (out_scan cf collect fa [] w)) (s, w)"
proof -
  let ?st = "(s, w)"
  have 0: "follows cb ?st ([], w) (s, w)" by (simp add: follows_def)
  have path: "follows cb ?st (scan_path path f (fst c) (snd c)) (scan_path path g (fst r) (snd r))"
    if "follows cb ?st c r" "\<And>p l v s w. follows cb ?st (l, v) (s, w) \<Longrightarrow> follows cb ?st (f p l v) (g p s w)"
    for path and f g :: "string \<Rightarrow> _" and c r using that by (rule follows_path)
  have dom: "follows cb ?st (scan_domains cf collect fa (fst c) (snd c)) (scan_domains cf cb fa (fst r) (snd r))"
    and fbx: "follows cb ?st (scan_fileboxes cf collect fa (fst c) (snd c)) (scan_fileboxes cf cb fa (fst r) (snd r))"
    if "follows cb ?st c r" for c r
    using that by (cases c; cases r; simp add: follows_domains follows_fileboxes)+
  note 1 = path [OF 0 follows_bso [where cf = cf and fa = fa], where path = "conf_string cf ''outbound_directory''"]
  note 3 = path [OF dom [OF 1] follows_aso [where fa = fa], where path = "conf_string cf ''amiga_outbound_directory''"]
  note 5 = path [OF fbx [OF 3] follows_lbox [where fa = fa], where path = "conf_string cf ''filebox_directory''"]
  show ?thesis
    using 5 by (simp add: out_scan_def follows_def case_prod_unfold Let_def)
qed

end

section \<open>The queue\<close>

lemma flo_next_same: "same_files w (snd (snd (flo_next cf FLO w)))"
proof (induction cf FLO w rule: flo_next.induct)
  case (1 cf FLO w)
  obtain offs w1 where t: "ftell (FLO_fp FLO) w = (offs, w1)" by fastforce
  obtain r fp w2 where g: "fgets (FLO_PATH - 1) (FLO_fp FLO) w1 = (r, fp, w2)" by (metis prod_cases3)
  have s: "same_files w w1" "same_files w1 w2"
    using ftell_fgets_same(1) [of w "FLO_fp FLO"] ftell_fgets_same(2) [of w1 "FLO_PATH - 1" "FLO_fp FLO"] t g by simp_all
  have rec: "same_files w (snd (snd (flo_next cf (FLO\<lparr>att_offs := offs, FLO_fp := fp, att_path := l\<rparr>) w2)))"
    if "offs \<noteq> -1" "r = Some l" "string_is_empty l \<or> peek l = CHR ''~''" for l
    using 1 [OF t [symmetric] refl that(1)] g that same_files_trans [OF same_files_trans [OF s]] by simp
  show ?case
  proof (cases "offs = -1 \<or> r = None")
    case True
    then show ?thesis
      unfolding flo_next_eq [OF t g] using s(1) same_files_trans [OF s] by (cases r) simp_all
  next
    case False
    then obtain l where r: "offs \<noteq> -1" "r = Some l" by auto
    show ?thesis
    proof (cases "string_is_empty l \<or> peek l = CHR ''~''")
      case True
      then show ?thesis unfolding flo_next_eq [OF t g] using r rec [OF r] by simp
    next
      case no: False
      then show ?thesis
        unfolding flo_next_eq [OF t g] using r same_files_trans [OF s] by (simp split: prod.split)
    qed
  qed
qed

lemma readflo_loop_same: "same_files w (snd (snd (readflo_loop n cf fl aso dsc FLO w)))"
proof (induction n arbitrary: FLO w)
  case (Suc n)
  obtain stop FLO' v where f: "flo_next cf FLO w = (stop, FLO', v)" by (metis prod_cases3)
  then have "same_files w v" using flo_next_same [of w cf FLO] by simp
  then show ?case using Suc [of v FLO'] f by (auto split: prod.split intro: same_files_trans)
qed simp

lemma readflo_same: "same_files w (snd (out_readflo cf name fl aso dsc l w))"
proof -
  obtain f v where o: "file_open name Mode_r w = (f, v)" by fastforce
  have 1: "same_files w v" using file_open_same [of w name] o by simp
  show ?thesis
  proof (cases f)
    case None
    then show ?thesis using 1 o by (simp add: out_readflo_def flo_open_def)
  next
    case (Some fp)
    let ?FLO = "\<lparr>FLO_fp = fp, att_path = [], att_action = ACTION_NOTHING, att_offs = 0\<rparr>"
    obtain new FLO u where r: "readflo_loop (flo_left ?FLO v + 1) cf fl aso dsc ?FLO v = (new, FLO, u)" by (metis prod_cases3)
    have "same_files v u" using readflo_loop_same [of v "flo_left ?FLO v + 1" cf fl aso dsc ?FLO] r by simp
    then have "same_files w (snd (file_close (FLO_fp FLO) u))"
      using 1 file_close_same same_files_trans by blast
    then show ?thesis using o Some r by (simp add: out_readflo_def flo_open_def flo_close_def)
  qed
qed

interpretation fsqueue: quiet_callback "out_handle_fsqueue cf" for cf
proof
  fix w :: world and d :: outbound_callback_data and s :: s_fsqueue
  have read: "same_files w (snd (case out_addfloentry s (cb_path d) flavor of (dsc, queue) \<Rightarrow>
      case out_readflo cf (cb_path d) flavor aso dsc (fslist queue) w of (l, w) \<Rightarrow> (queue\<lparr>fslist := l\<rparr>, w)))" for flavor aso
    using readflo_same [of w cf "cb_path d" flavor aso] by (simp split: prod.split) (metis snd_conv)
  show "same_files w (snd (out_handle_fsqueue cf d s w))"
    unfolding out_handle_fsqueue_def Let_def
    by (rule option.induct) (simp_all add: read split: option.split prod.split)
qed

text \<open>
  Filling the queue of a session is the same as collecting the files of the wanted addresses and
  then handling them one after the other: reading the lists of attached files in between does not
  change what the scan finds, in any of the five kinds of outbound.
\<close>

theorem queue_of_scan:
  "out_scan cf (out_handle_fsqueue cf) fa q w
     = fold (\<lambda>d (q, w). out_handle_fsqueue cf d q w) (fst (out_scan cf collect fa [] w)) (q, w)"
  by (rule fsqueue.scan_collects)

end
