(* ===== verification/Session.thy ===== *)
theory Session
  imports SessStat Queue Md5 Locks
begin

text \<open>
  The state of a session and what is decided about it before and after the transfer (\<open>sess_main.c\<close>,
  \<open>sess_common.c\<close>, \<open>exec_file_exist\<close> of \<open>os_unix.c\<close>): the addresses of both sides, passwords, locks,
  the options for sending, the queue of files, the inbound, the traffic and the history.
\<close>

section \<open>The code\<close>

subsection \<open>The state\<close>

record s_sysaddr =
  sa_addr :: s_faddr
  sa_busy :: bool
  sa_good :: bool
  sa_flags :: int

record s_sendopts =
  so_fnc :: bool
  so_holdreq :: bool
  so_holdhold :: bool
  so_holdfiles :: bool
  so_holdxt :: bool
  so_holdall :: bool
  so_hydraRH1 :: bool

record s_traffic =
  netmail_num :: int
  netmail_time :: int
  netmail_size :: u64
  arcmail_num :: int
  arcmail_time :: int
  arcmail_size :: u64
  files_num :: int
  files_time :: int
  files_size :: u64
  freqed_num :: int
  freqed_time :: int
  freqed_size :: u64

definition zero_traffic :: s_traffic where
  "zero_traffic = \<lparr>netmail_num = 0, netmail_time = 0, netmail_size = 0, arcmail_num = 0, arcmail_time = 0,
     arcmail_size = 0, files_num = 0, files_time = 0, files_size = 0, freqed_num = 0, freqed_time = 0,
     freqed_size = 0\<rparr>"

datatype e_session = SESSION_UNKNOWN | SESSION_FTSC | SESSION_YOOHOO | SESSION_EMSI | SESSION_BINKP

datatype e_protocol = PROT_NOPROT | PROT_XMODEM | PROT_ZMODEM | PROT_ZEDZAP | PROT_DIRZAP | PROT_JANUS
  | PROT_HYDRA | PROT_TCP | PROT_BINKP

datatype e_reqstat = REQS_DISABLED | REQS_ALLOW | REQS_NOTALLOW

definition HRC_OK :: int where "HRC_OK = 0"
definition HRC_LOW_SPEED :: int where "HRC_LOW_SPEED = 1"
definition HRC_BAD_PASSWD :: int where "HRC_BAD_PASSWD = 2"
definition HRC_NO_ADDRESS :: int where "HRC_NO_ADDRESS = 3"
definition HRC_NO_PROTOS :: int where "HRC_NO_PROTOS = 4"
definition HRC_BUSY :: int where "HRC_BUSY = 5"
definition HRC_FATAL_ERR :: int where "HRC_FATAL_ERR = 6"
definition HRC_TEMP_ERR :: int where "HRC_TEMP_ERR = 7"
definition HRC_OTHER_ERR :: int where "HRC_OTHER_ERR = 8"

definition PRC_NOERROR :: int where "PRC_NOERROR = 0"
definition PRC_ERROR :: int where "PRC_ERROR = 20"
definition PRC_REMOTEABORTED :: int where "PRC_REMOTEABORTED = 21"
definition PRC_LOCALABORTED :: int where "PRC_LOCALABORTED = 22"
definition PRC_CPSTOOLOW :: int where "PRC_CPSTOOLOW = 23"
definition PRC_STOPTIME :: int where "PRC_STOPTIME = 24"

text \<open>
  The members of the global \<open>state\<close> that the modelled functions read and write. Of \<open>state.node\<close> that is the
  address; \<open>ses_protocol\<close> is \<open>state.handshake->protocol\<close>.
\<close>

record s_state =
  ses_node_addr :: s_faddr
  ses_linename :: "string option"
  ses_start_time :: int
  ses_kind :: e_session
  ses_caller :: bool
  ses_protected :: bool
  ses_listed :: bool
  ses_rc :: int
  ses_sopts :: s_sendopts
  ses_reqstat :: e_reqstat
  ses_connspeed :: int
  ses_minspeed :: int
  ses_inbound :: "string option"
  ses_tinbound :: "string option"
  ses_traff_send :: s_traffic
  ses_traff_recv :: s_traffic
  ses_protocol :: e_protocol
  ses_queue :: s_fsqueue
  ses_remoteaddrs :: "s_sysaddr list"
  ses_localaddrs :: "s_sysaddr list"

definition no_sendopts :: s_sendopts where
  "no_sendopts = \<lparr>so_fnc = False, so_holdreq = False, so_holdhold = False, so_holdfiles = False, so_holdxt = False,
     so_holdall = False, so_hydraRH1 = False\<rparr>"

definition init_state :: s_state where
  "init_state = \<lparr>ses_node_addr = zero_faddr, ses_linename = None, ses_start_time = 0, ses_kind = SESSION_UNKNOWN,
     ses_caller = False, ses_protected = False, ses_listed = False, ses_rc = -1, ses_sopts = no_sendopts,
     ses_reqstat = REQS_DISABLED, ses_connspeed = 0, ses_minspeed = 0, ses_inbound = None, ses_tinbound = None,
     ses_traff_send = zero_traffic, ses_traff_recv = zero_traffic, ses_protocol = PROT_NOPROT,
     ses_queue = \<lparr>flotab = [], fslist = []\<rparr>, ses_remoteaddrs = [], ses_localaddrs = []\<rparr>"

subsection \<open>Addresses\<close>

text \<open>The addresses of a keyword, each with its text; and the best one, with its metric.\<close>

definition conf_falist :: "conf \<Rightarrow> string \<Rightarrow> (s_faddr \<times> string option) list" where
  "conf_falist cf key = List.map_filter (\<lambda>v. case v of Falist a what \<Rightarrow> Some (a, what) | _ \<Rightarrow> None) (conf_entries cf key)"

definition bestaka_step :: "conf \<Rightarrow> s_faddr \<Rightarrow> s_faddr \<Rightarrow> (s_faddr \<times> int) option \<Rightarrow> (s_faddr \<times> int) option" where
  "bestaka_step cf addr ours best =
     (if list_ex (\<lambda>(h, _). ftn_addrcomp h ours = 0) (conf_falist cf ''hide_our_aka'') then best
      else
        let curl = ftn_addrsmetric ours addr in
        case best of
          None \<Rightarrow> Some (ours, curl)
        | Some (_, bestl) \<Rightarrow> if curl > bestl then Some (ours, curl) else best)"

definition session_get_bestaka :: "conf \<Rightarrow> s_faddr \<Rightarrow> s_faddr option" where
  "session_get_bestaka cf addr =
     map_option fst (fold (bestaka_step cf addr) (map fst (conf_falist cf ''address'')) None)"

text \<open>The parts of the configuration the locks depend on.\<close>

definition conf_outbounds :: "conf \<Rightarrow> outbounds" where
  "conf_outbounds cf =
     \<lparr>cf_outbound_directory = conf_string cf ''outbound_directory'',
      cf_address = (case conf_falist cf ''address'' of [] \<Rightarrow> None | (a, _) # _ \<Rightarrow> Some a),
      cf_domain = List.map_filter (\<lambda>v. case v of Domain _ p z \<Rightarrow> Some (z, p) | _ \<Rightarrow> None) (conf_entries cf ''domain''),
      cf_amiga_outbound_directory = conf_string cf ''amiga_outbound_directory''\<rparr>"

fun addrs_lock_loop ::
  "outbounds \<Rightarrow> s_sysaddr list \<Rightarrow> s_bsylist list \<Rightarrow> lockfs \<Rightarrow> bool \<times> s_sysaddr list \<times> s_bsylist list \<times> lockfs" where
  "addrs_lock_loop ob [] bl w = (False, [], bl, w)"
| "addrs_lock_loop ob (a # as) bl w =
     (let (one, a, bl, w) =
            (if sa_good a then
               (case out_bsy_lock ob (sa_addr a) False bl w of (rc, bl, w) \<Rightarrow>
                  if rc \<noteq> 0 then (False, a\<lparr>sa_busy := True\<rparr>, bl, w) else (True, a, bl, w))
             else (False, a, bl, w));
          (ones, as, bl, w) = addrs_lock_loop ob as bl w
      in (one \<or> ones, a # as, bl, w))"

definition session_addrs_lock ::
  "conf \<Rightarrow> s_sysaddr list \<Rightarrow> s_bsylist list \<Rightarrow> lockfs \<Rightarrow> int \<times> s_sysaddr list \<times> s_bsylist list \<times> lockfs" where
  "session_addrs_lock cf addrs bl w =
     (case addrs_lock_loop (conf_outbounds cf) addrs bl w of
        (one_lock, addrs, bl, w) \<Rightarrow> (if one_lock then 0 else -1, addrs, bl, w))"

definition session_addrs_add :: "s_sysaddr list \<Rightarrow> s_faddr \<Rightarrow> int \<times> s_sysaddr list" where
  "session_addrs_add addrs addr =
     (if list_ex (\<lambda>a. ftn_addrcomp (sa_addr a) addr = 0) addrs then (-1, addrs)
      else (0, addrs @ [\<lparr>sa_addr = addr, sa_busy = False, sa_good = False, sa_flags = 0\<rparr>]))"

text \<open>Non-zero, here true, for an address of our own.\<close>

definition session_check_addr :: "conf \<Rightarrow> s_faddr \<Rightarrow> bool" where
  "session_check_addr cf addr = list_ex (\<lambda>(ours, _). ftn_addrcomp addr ours = 0) (conf_falist cf ''address'')"

text \<open>The text is that of \<open>buffer\<close>, of \<open>buflen\<close> bytes; \<open>None\<close> that no password was found.\<close>

definition session_get_password :: "conf \<Rightarrow> s_faddr \<Rightarrow> nat \<Rightarrow> string option" where
  "session_get_password cf addr buflen =
     (case find (\<lambda>(a, _). ftn_addrcomp addr a = 0) (conf_falist cf ''password'') of
        None \<Rightarrow> None
      | Some (_, what) \<Rightarrow> Some (strncopy buflen (case what of None \<Rightarrow> [] | Some s \<Rightarrow> s)))"

definition bytes :: "string \<Rightarrow> byte list" where
  "bytes s = map (\<lambda>c. word_of_nat (ord c)) s"

definition good_password :: "string option \<Rightarrow> byte list option \<Rightarrow> string \<Rightarrow> bool" where
  "good_password passwd challenge pbuf =
     (case passwd of
        None \<Rightarrow> False
      | Some p \<Rightarrow>
          p \<noteq> [] \<and>
          (case challenge of
             Some c \<Rightarrow> strcasecmp_eq p (string_bin_to_hex (md5_cram_get (bytes pbuf) c))
           | None \<Rightarrow> strcasecmp_eq p pbuf))"

text \<open>
  One address: whether a password failed, whether one succeeded, and the address. The last assignment is
  outside of the conditional, whose \<open>else\<close> has no braces.
\<close>

definition addrs_check_step ::
  "conf \<Rightarrow> string option \<Rightarrow> byte list option \<Rightarrow> s_sysaddr \<Rightarrow> bool \<times> bool \<times> s_sysaddr" where
  "addrs_check_step cf passwd challenge a =
     (if session_check_addr cf (sa_addr a) then (False, False, a)
      else
        let (failure, success, a) =
              (case session_get_password cf (sa_addr a) 32 of
                 Some pbuf \<Rightarrow>
                   if good_password passwd challenge pbuf then (False, True, a\<lparr>sa_good := True\<rparr>)
                   else (True, False, a\<lparr>sa_good := False\<rparr>)
               | None \<Rightarrow> (False, False, a))
        in (failure, success, a\<lparr>sa_good := True\<rparr>))"

definition session_addrs_check ::
  "conf \<Rightarrow> s_sysaddr list \<Rightarrow> string option \<Rightarrow> byte list option \<Rightarrow> s_state \<Rightarrow> int \<times> s_sysaddr list \<times> s_state" where
  "session_addrs_check cf addrs passwd challenge st =
     (if addrs = [] then (-1, addrs, st)
      else
        let rs = map (addrs_check_step cf passwd challenge) addrs;
            failure = list_ex (\<lambda>(f, _, _). f) rs;
            success = list_ex (\<lambda>(_, s, _). s) rs
        in (if failure \<and> \<not> success then -1 else 0, map (snd \<circ> snd) rs,
            if success then st\<lparr>ses_protected := True\<rparr> else st))"

definition session_addrs_to_falist :: "s_sysaddr list \<Rightarrow> s_faddr list" where
  "session_addrs_to_falist addrs = map sa_addr (filter (\<lambda>a. \<not> sa_busy a \<and> sa_good a) addrs)"

text \<open>Zero, here false, when the address is among those presented.\<close>

definition session_addrs_check_genuine :: "s_sysaddr list \<Rightarrow> s_faddr \<Rightarrow> bool" where
  "session_addrs_check_genuine addrs expected \<longleftrightarrow> \<not> list_ex (\<lambda>a. ftn_addrcomp (sa_addr a) expected = 0) addrs"

definition session_check_speed :: "conf \<Rightarrow> s_state \<Rightarrow> bool \<times> s_state" where
  "session_check_speed cf st =
     (let st = st\<lparr>ses_minspeed := conf_number cf ''min_speed_in''\<rparr>
      in (ses_connspeed st > 0 \<and> ses_minspeed st > ses_connspeed st, st))"

definition session_1remote_address :: "s_state \<Rightarrow> s_faddr option" where
  "session_1remote_address st = (case ses_remoteaddrs st of [] \<Rightarrow> None | a # _ \<Rightarrow> Some (sa_addr a))"

definition session_1local_address :: "s_state \<Rightarrow> s_faddr option" where
  "session_1local_address st = (case ses_localaddrs st of [] \<Rightarrow> None | a # _ \<Rightarrow> Some (sa_addr a))"

text \<open>The override of a line: the code, and the override it finds, if it does.\<close>

definition override_get :: "conf \<Rightarrow> s_faddr \<Rightarrow> nat \<Rightarrow> int \<times> s_override option" where
  "override_get cf addr line =
     (let ovs = conf_override cf ''override'' addr in
      if line < length ovs then (0, Some (ovs ! line)) else if line = 0 then (0, None) else (1, None))"

subsection \<open>The inbound\<close>

definition PATH_MAX :: nat where "PATH_MAX = 4096"

text \<open>
  \<open>shell\<close> is \<open>system\<close>. Whether the temporary inbound can be read, written and searched is the outcome of a
  system call. True is a failure, where the code returns one.
\<close>

definition split_name :: "string \<Rightarrow> s_state \<Rightarrow> string" where
  "split_name p_inb st =
     take (PATH_MAX - 1)
       (p_inb @ dec_int (zone (ses_node_addr st)) @ ''.'' @ dec_int (net (ses_node_addr st)) @ ''.''
        @ dec_int (node (ses_node_addr st)) @ ''.'' @ dec_int (point (ses_node_addr st)) @ ''/''
        @ (if ses_protected st then ''pwd'' else ''unchecked'') @ ''-in/'')"

definition session_set_inbound :: "conf \<Rightarrow> (string \<Rightarrow> world \<Rightarrow> world) \<Rightarrow> s_state \<Rightarrow> world \<Rightarrow> bool \<times> s_state \<times> world" where
  "session_set_inbound cf shell st w =
     (let p_inb = (case conf_string cf ''inbound_directory'' of None \<Rightarrow> ''./'' | Some p \<Rightarrow> p);
          split = conf_boolean cf ''split_inbound'';
          inb = (if split then split_name p_inb st else p_inb);
          w = (if split then shell (take (PATH_MAX + 29) (''/bin/mkdir -p -m 700 '' @ inb)) w else w);
          tmp = inb @ ''tmp/'';
          st = st\<lparr>ses_inbound := Some inb, ses_tinbound := Some tmp\<rparr>
      in case syscall w of (ok, w) \<Rightarrow>
           if \<not> ok then (True, st, w)
           else
             (case stat tmp w of
                Some f \<Rightarrow>
                  if \<not> is_dir f then (True, st, w)
                  else (case syscall w of (ok, w) \<Rightarrow> (\<not> ok, st, w))
              | None \<Rightarrow>
                  (case mkdir_file tmp 448 w of (ok, w) \<Rightarrow>
                     if \<not> ok then (True, st, w)
                     else (False, st, snd (set_file tmp (\<lambda>f. f\<lparr>fmode := 448\<rparr>) w)))))"

subsection \<open>File requests and what is sent\<close>

definition exec_path :: "string \<Rightarrow> string option" where
  "exec_path command =
     (case command of
        [] \<Rightarrow> Some []
      | c # rest \<Rightarrow>
          if c = CHR ''['' then
            (case dropWhile (\<lambda>x. x \<noteq> CHR '']'') rest of [] \<Rightarrow> None | _ # p \<Rightarrow> Some p)
          else Some command)"

text \<open>True when the file exists and may be executed, by its mode.\<close>

definition exec_file_exist :: "string \<Rightarrow> world \<Rightarrow> bool" where
  "exec_file_exist command w =
     (case exec_path command of
        None \<Rightarrow> False
      | Some p \<Rightarrow> (case stat p w of None \<Rightarrow> False | Some f \<Rightarrow> (fmode f) AND 73 \<noteq> 0))"

definition has_option :: "u64 \<Rightarrow> u64 \<Rightarrow> bool" where
  "has_option opts x \<longleftrightarrow> opts AND x = x"

definition session_set_freqs_status :: "conf \<Rightarrow> s_state \<Rightarrow> world \<Rightarrow> s_state" where
  "session_set_freqs_status cf st w =
     (let opts = conf_options cf ''options'';
          given = (\<lambda>key. case conf_string cf key of None \<Rightarrow> None | Some p \<Rightarrow> if p = [] then None else Some p);
          readable = (\<lambda>key. case given key of None \<Rightarrow> False | Some p \<Rightarrow> exists p w)
      in if has_option opts OPTIONS_MAILONLY \<or> has_option opts OPTIONS_NO_FREQS
         then st\<lparr>ses_reqstat := REQS_NOTALLOW\<rparr>
         else if ses_connspeed st > 0 \<and> ses_connspeed st < conf_number cf ''freq_min_speed''
         then st\<lparr>ses_reqstat := REQS_NOTALLOW\<rparr>
         else
           (case given ''freq_srif_command'' of
              Some p \<Rightarrow> st\<lparr>ses_reqstat := (if exec_file_exist p w then REQS_ALLOW else REQS_DISABLED)\<rparr>
            | None \<Rightarrow>
                st\<lparr>ses_reqstat := (if readable ''freq_dir_list'' \<or> readable ''freq_alias_list''
                                  then REQS_ALLOW else REQS_DISABLED)\<rparr>))"

text \<open>
  The \<open>stat\<close> of the flag file is given a pointer that was never set: \<open>flag_seen\<close> is whether it returns
  success, which it does only for an existing file and when the pointer happens to be writable.
\<close>

definition session_set_send_options :: "conf \<Rightarrow> (string \<Rightarrow> bool) \<Rightarrow> s_state \<Rightarrow> s_state" where
  "session_set_send_options cf flag_seen st =
     (let opts = conf_options cf ''options'';
          flagged = (case conf_string cf ''nomail_flag'' of None \<Rightarrow> False | Some f \<Rightarrow> flag_seen f);
          so = ses_sopts st
      in st\<lparr>ses_sopts := so\<lparr>
           so_holdall := (so_holdall so \<or> flagged \<or> has_option opts OPTIONS_HOLDALL),
           so_holdhold := (so_holdhold so \<or> flagged \<or> has_option opts OPTIONS_HOLDHOLD),
           so_holdreq := (so_holdreq so \<or> \<not> ses_caller st \<or> has_option opts OPTIONS_HOLDREQ),
           so_holdxt := (so_holdxt so \<or> has_option opts OPTIONS_MAILONLY \<or> has_option opts OPTIONS_HOLDXT)\<rparr>\<rparr>)"

definition holdfile :: "s_sendopts \<Rightarrow> s_filelist \<Rightarrow> string option \<Rightarrow> int" where
  "holdfile so fi delayout =
     (if so_holdall so then 1
      else if so_holdxt so \<and> \<not> has (fl_type fi) TYPE_NETMAIL then 1
      else if so_holdreq so \<and> has (fl_type fi) TYPE_REQUEST then 1
      else if so_holdhold so \<and> fl_flavor fi = FLAVOR_HOLD then 1
      else if fl_status fi \<noteq> STATUS_WILLSEND then 1
      else case delayout of
             None \<Rightarrow> 0
           | Some masks \<Rightarrow> if checkmasks masks (fl_fname fi) = 0 then 2 else 0)"

definition session_set_send_files :: "conf \<Rightarrow> s_state \<Rightarrow> s_state" where
  "session_set_send_files cf st =
     (let delayout = conf_string cf ''delay_files_send'' in
      st\<lparr>ses_queue := (ses_queue st)\<lparr>fslist :=
           map (\<lambda>f. if holdfile (ses_sopts st) f delayout \<noteq> 0 then f\<lparr>fl_status := STATUS_SKIP\<rparr> else f)
             (fslist (ses_queue st))\<rparr>\<rparr>)"

definition count_outgoing :: "s_filelist \<Rightarrow> s_traffic \<Rightarrow> s_traffic" where
  "count_outgoing f t =
     (if has (fl_type f) TYPE_NETMAIL then
        t\<lparr>netmail_size := netmail_size t + word_of_int (fl_size f), netmail_num := netmail_num t + 1\<rparr>
      else if has (fl_type f) TYPE_ARCMAIL then
        t\<lparr>arcmail_size := arcmail_size t + word_of_int (fl_size f), arcmail_num := arcmail_num t + 1\<rparr>
      else t\<lparr>files_size := files_size t + word_of_int (fl_size f), files_num := files_num t + 1\<rparr>)"

definition session_traffic_set_outgoing :: "s_state \<Rightarrow> s_traffic" where
  "session_traffic_set_outgoing st = fold count_outgoing (fslist (ses_queue st)) zero_traffic"

definition session_create_files_queue :: "conf \<Rightarrow> s_sysaddr list \<Rightarrow> s_state \<Rightarrow> world \<Rightarrow> s_state \<times> world" where
  "session_create_files_queue cf addrs st w =
     (let mailfor = session_addrs_to_falist addrs in
      if mailfor = [] then (st, w)
      else
        (case out_scan cf (out_handle_fsqueue cf) (Some mailfor) (ses_queue st) w of (q, w) \<Rightarrow>
           let st = session_set_send_files cf (st\<lparr>ses_queue := q\<rparr>)
           in (st\<lparr>ses_traff_send := session_traffic_set_outgoing st\<rparr>, w)))"

text \<open>A line of the history; \<open>rc\<close> is the code of the session.\<close>

definition addr_string :: "s_faddr \<Rightarrow> string" where
  "addr_string addr = (case ftn_addrstr (replicate (BF_MAXADDRSTR + 1) NUL) addr of Some b \<Rightarrow> cstr b | None \<Rightarrow> [])"

definition fmt_lu :: "u64 \<Rightarrow> string" where
  "fmt_lu v = dec (unat v)"

definition history_line :: "s_state \<Rightarrow> s_traffic \<Rightarrow> s_traffic \<Rightarrow> int \<Rightarrow> int \<Rightarrow> string" where
  "history_line st send recv rc t =
     (case ses_linename st of None \<Rightarrow> [] | Some l \<Rightarrow> l) @ '',''
     @ (if zone (ses_node_addr st) \<noteq> 0 then addr_string (ses_node_addr st) else []) @ '',''
     @ fmt_lu (word_of_int (ses_start_time st)) @ '','' @ fmt_u (time_elapsed t (ses_start_time st)) @ '',''
     @ (if ses_listed st then ''L'' else []) @ (if ses_protected st then ''P'' else [])
     @ (if ses_caller st then ''O'' else ''I'') @ '','' @ dec_int rc @ '',''
     @ fmt_lu (netmail_size send) @ '','' @ fmt_lu (arcmail_size send) @ '','' @ fmt_lu (files_size send + freqed_size send) @ '',''
     @ fmt_lu (netmail_size recv) @ '','' @ fmt_lu (arcmail_size recv) @ '','' @ fmt_lu (files_size recv + freqed_size recv)
     @ [CHR 0x0A]"

definition session_update_history :: "conf \<Rightarrow> s_state \<Rightarrow> s_traffic \<Rightarrow> s_traffic \<Rightarrow> int \<Rightarrow> world \<Rightarrow> world" where
  "session_update_history cf st send recv rc w =
     (case conf_string cf ''history_file'' of
        None \<Rightarrow> w
      | Some f \<Rightarrow>
          (case file_open f Mode_a w of
             (None, w) \<Rightarrow> w
           | (Some fp, w) \<Rightarrow>
               (case fwrite (history_line st send recv rc (now w)) fp w of (_, fp, w) \<Rightarrow> snd (file_close fp w))))"

text \<open>The code of a session from that of a failed handshake, and from that of the transfer.\<close>

definition handshake_error :: "int \<Rightarrow> int" where
  "handshake_error rc = (if rc = HRC_LOW_SPEED then BFERR_CONNECT_TOOLOW else BFERR_HANDSHAKE_ERROR)"

definition transfer_error :: "int \<Rightarrow> int" where
  "transfer_error rc =
     (if rc = PRC_NOERROR then BFERR_NOERROR
      else if rc = PRC_ERROR \<or> rc = PRC_REMOTEABORTED \<or> rc = PRC_LOCALABORTED then BFERR_XMITERROR
      else if rc = PRC_CPSTOOLOW then BFERR_CPSTOOLOW
      else if rc = PRC_STOPTIME then BFERR_STOPTIME
      else rc)"

section \<open>Addresses and passwords\<close>

text \<open>The password of an address, whether its owner proves to know it, and whether a wrong one was given.\<close>

definition proves :: "conf \<Rightarrow> string option \<Rightarrow> byte list option \<Rightarrow> s_faddr \<Rightarrow> bool" where
  "proves cf passwd challenge addr \<longleftrightarrow> \<not> session_check_addr cf addr \<and>
     (case session_get_password cf addr 32 of None \<Rightarrow> False | Some p \<Rightarrow> good_password passwd challenge p)"

definition fails_to_prove :: "conf \<Rightarrow> string option \<Rightarrow> byte list option \<Rightarrow> s_faddr \<Rightarrow> bool" where
  "fails_to_prove cf passwd challenge addr \<longleftrightarrow> \<not> session_check_addr cf addr \<and>
     (case session_get_password cf addr 32 of None \<Rightarrow> False | Some p \<Rightarrow> \<not> good_password passwd challenge p)"

lemma addrs_check_step_eq:
  "addrs_check_step cf passwd ch a =
     (fails_to_prove cf passwd ch (sa_addr a), proves cf passwd ch (sa_addr a),
      if session_check_addr cf (sa_addr a) then a else a\<lparr>sa_good := True\<rparr>)"
  by (simp add: addrs_check_step_def proves_def fails_to_prove_def split: option.split)

text \<open>
  C16: What \<open>session_addrs_check\<close> decides, for every list of addresses. It refuses only an empty list,
  and a list with an address whose password was not proved while none was. When it accepts, every
  address that is not one of our own is marked good, those included whose password was wrong: a
  system that knows the password of one of its addresses gets the mail of every address it names.
\<close>

theorem one_password_opens_all:
  "case session_addrs_check cf addrs passwd ch st of (rc, addrs', st') \<Rightarrow>
     rc = (if addrs = [] \<or> list_ex (\<lambda>a. fails_to_prove cf passwd ch (sa_addr a)) addrs
                          \<and> list_all (\<lambda>a. \<not> proves cf passwd ch (sa_addr a)) addrs then -1 else 0)
     \<and> map sa_addr addrs' = map sa_addr addrs
     \<and> session_addrs_to_falist addrs'
         = map sa_addr (filter (\<lambda>a. \<not> sa_busy a \<and> (if session_check_addr cf (sa_addr a) then sa_good a else True)) addrs)
     \<and> ses_protected st' = (ses_protected st \<or> list_ex (\<lambda>a. proves cf passwd ch (sa_addr a)) addrs)"
proof (cases "addrs = []")
  case False
  let ?mark = "\<lambda>a. if session_check_addr cf (sa_addr a) then a else a\<lparr>sa_good := True\<rparr>"
  have "map sa_addr (map ?mark addrs) = map sa_addr addrs"
    and "session_addrs_to_falist (map ?mark addrs)
      = map sa_addr (filter (\<lambda>a. \<not> sa_busy a \<and> (if session_check_addr cf (sa_addr a) then sa_good a else True)) addrs)"
    by (induction addrs) (simp_all add: session_addrs_to_falist_def)
  then show ?thesis
    using False by (auto simp: session_addrs_check_def addrs_check_step_eq list_ex_iff list_all_iff o_def)
qed (simp add: session_addrs_check_def session_addrs_to_falist_def)

text \<open>The identity of an address is what \<open>ftn_addrcomp\<close> compares: its four numbers.\<close>

definition addr_key :: "s_faddr \<Rightarrow> int \<times> int \<times> int \<times> int" where
  "addr_key a = (zone a, net a, node a, point a)"

lemma addr_key: "ftn_addrcomp a b = 0 \<longleftrightarrow> addr_key a = addr_key b"
  by (simp add: ftn_addrcomp_def addr_key_def)

text \<open>
  C18: The addresses of a system, as they are collected one after the other, are those presented
  without repetition, in the order of their first occurrence.
\<close>

theorem addrs_add_distinct:
  "map (addr_key \<circ> sa_addr) (fold (\<lambda>a l. snd (session_addrs_add l a)) presented [])
     = rev (remdups (rev (map addr_key presented)))"
proof (induction presented rule: rev_induct)
  case (snoc a as)
  let ?l = "fold (\<lambda>a l. snd (session_addrs_add l a)) as []"
  have "set (map (addr_key \<circ> sa_addr) ?l) = set (map addr_key as)"
    unfolding snoc by (simp only: set_rev set_remdups)
  then have "list_ex (\<lambda>b. ftn_addrcomp (sa_addr b) a = 0) ?l \<longleftrightarrow> addr_key a \<in> set (map addr_key as)"
    by (simp add: list_ex_iff addr_key) (metis (mono_tags, lifting) comp_apply image_iff)
  then show ?case using snoc by (simp add: session_addrs_add_def)
qed simp

definition hidden :: "conf \<Rightarrow> s_faddr \<Rightarrow> bool" where
  "hidden cf a \<longleftrightarrow> list_ex (\<lambda>(h, _). ftn_addrcomp h a = 0) (conf_falist cf ''hide_our_aka'')"

definition best_of :: "conf \<Rightarrow> s_faddr \<Rightarrow> s_faddr list \<Rightarrow> (s_faddr \<times> int) option \<Rightarrow> bool" where
  "best_of cf addr ours best =
     (case best of
        None \<Rightarrow> list_all (hidden cf) ours
      | Some (a, m) \<Rightarrow> m = ftn_addrsmetric a addr \<and> \<not> hidden cf a \<and>
          (\<exists>pre post. ours = pre @ a # post
             \<and> list_all (\<lambda>b. hidden cf b \<or> ftn_addrsmetric b addr < m) pre
             \<and> list_all (\<lambda>b. hidden cf b \<or> ftn_addrsmetric b addr \<le> m) post))"

lemma bestaka_fold: "best_of cf addr ours (fold (bestaka_step cf addr) ours None)"
proof (induction ours rule: rev_induct)
  case (snoc x xs)
  let ?b = "fold (bestaka_step cf addr) xs None" and ?m = "ftn_addrsmetric x addr"
  have step: "fold (bestaka_step cf addr) (xs @ [x]) None
    = (if hidden cf x then ?b else case ?b of None \<Rightarrow> Some (x, ?m) | Some (a, m) \<Rightarrow> if ?m > m then Some (x, ?m) else ?b)"
    by (simp add: bestaka_step_def hidden_def Let_def)
  show ?case
  proof (cases ?b)
    case None
    with snoc have "list_all (hidden cf) xs" by (simp add: best_of_def)
    then have "list_all (\<lambda>b. hidden cf b \<or> ftn_addrsmetric b addr < ?m) xs" by (simp add: list_all_iff)
    with None snoc show ?thesis unfolding step by (fastforce simp: best_of_def)
  next
    case (Some am)
    then obtain a m where b: "?b = Some (a, m)" by (cases am) simp
    with snoc obtain pre post where p: "m = ftn_addrsmetric a addr" "\<not> hidden cf a" "xs = pre @ a # post"
      "list_all (\<lambda>b. hidden cf b \<or> ftn_addrsmetric b addr < m) pre"
      "list_all (\<lambda>b. hidden cf b \<or> ftn_addrsmetric b addr \<le> m) post" by (auto simp: best_of_def)
    show ?thesis
    proof (cases "\<not> hidden cf x \<and> ?m > m")
      case True
      then have "list_all (\<lambda>b. hidden cf b \<or> ftn_addrsmetric b addr < ?m) xs"
        using p by (auto simp: list_all_iff)
      with True show ?thesis unfolding step b by (fastforce simp: best_of_def)
    next
      case False
      then have "fold (bestaka_step cf addr) (xs @ [x]) None = Some (a, m)"
        "list_all (\<lambda>b. hidden cf b \<or> ftn_addrsmetric b addr \<le> m) (post @ [x])"
        using p(5) unfolding step b by auto
      then show ?thesis
        using p(1-4) by (simp add: best_of_def) (intro exI [of _ pre] exI [of _ "post @ [x]"], simp)
    qed
  qed
qed (simp add: best_of_def)

text \<open>
  C19: \<open>session_get_bestaka\<close> returns the first of our addresses that is not hidden and nearest to the
  given one: no other address that is not hidden has a greater metric, and none before it an equal
  one. It returns nothing only when all are hidden.
\<close>

theorem bestaka_nearest:
  "case session_get_bestaka cf addr of
     None \<Rightarrow> list_all (\<lambda>(a, _). hidden cf a) (conf_falist cf ''address'')
   | Some a \<Rightarrow> \<not> hidden cf a \<and>
       (\<exists>pre post. map fst (conf_falist cf ''address'') = pre @ a # post
          \<and> list_all (\<lambda>b. hidden cf b \<or> ftn_addrsmetric b addr < ftn_addrsmetric a addr) pre
          \<and> list_all (\<lambda>b. hidden cf b \<or> ftn_addrsmetric b addr \<le> ftn_addrsmetric a addr) post)"
  using bestaka_fold [of cf addr "map fst (conf_falist cf ''address'')"]
  by (auto simp: session_get_bestaka_def best_of_def list_all_iff split: option.splits)

end
