(* ===== verification/QueueProps.thy ===== *)
theory QueueProps
  imports Session
begin

text \<open>
  What gets into the queue of a session: only files that lie at a place of the outbound which by its name belongs to a
  verified address, and files from the lists at such places.
\<close>

section \<open>The places of an address\<close>








section \<open>A scan hands out files at the places of their addresses\<close>


















section \<open>What the handler puts into the queue\<close>

text \<open>A file that a list names carries the index of the list in the table.\<close>

definition from_list :: "s_fsqueue \<Rightarrow> s_filelist \<Rightarrow> string \<Rightarrow> bool" where
  "from_list q f p \<longleftrightarrow> 0 \<le> fl_flodsc f \<and> nat (fl_flodsc f) < length (flotab q) \<and> ff_fname (flotab q ! nat (fl_flodsc f)) = p"

definition list_grown :: "(string \<Rightarrow> bool) \<Rightarrow> s_fsqueue \<Rightarrow> s_fsqueue \<Rightarrow> bool" where
  "list_grown P q q' \<longleftrightarrow> (\<exists>new tab. fslist q' = fslist q @ new \<and> flotab q' = flotab q @ tab
     \<and> (\<forall>f\<in>set new. \<exists>p. P p \<and> (fl_fname f = p \<or> from_list q' f p)))"

lemma list_grown_refl [simp]: "list_grown P q q"
  by (simp add: list_grown_def)







section \<open>The queue of a session\<close>




end
