(* ===== verification/Recode.thy ===== *)
theory Recode
  imports Conf Files
begin

text \<open>
  The recoding of texts between character sets (\<open>u_recode.c\<close>): a table of 256 characters, kept with the
  name of the file it was loaded from.
\<close>

definition RECODE_MAX_CHAR :: nat where "RECODE_MAX_CHAR = 255"

record s_recode_table =
  rt_filename :: "string option"
  rt_table :: "char list"

definition default_table :: "char list" where
  "default_table = map (\<lambda>n. char_of (n :: nat)) [0..<256]"

text \<open>The table after \<open>recode_init\<close>.\<close>

definition recode_init :: s_recode_table where
  "recode_init = \<lparr>rt_filename = None, rt_table = default_table\<rparr>"

text \<open>\<open>sscanf\<close> with \<open>%i\<close>: decimal, octal behind a 0, hexadecimal behind 0x.\<close>

definition scan_i :: "string \<Rightarrow> (int \<times> string) option" where
  "scan_i s =
     (let t = dropWhile isspace s;
          neg = (peek t = CHR ''-'');
          t = (if neg \<or> peek t = CHR ''+'' then tl t else t);
          hexa = (peek t = CHR ''0'' \<and> (peek (tl t) = CHR ''x'' \<or> peek (tl t) = CHR ''X''));
          b = (if hexa then 16 else if peek t = CHR ''0'' then 8 else 10);
          t = (if hexa then drop 2 t else t);
          ds = takeWhile (\<lambda>c. digit_val c < b) t;
          v = (if neg then - int (radix_val b ds) else int (radix_val b ds))
      in if ds = [] then None
         else Some (to_int (max (- long_max - 1) (min long_max v)), drop (length ds) t))"

definition recode_line :: "string \<Rightarrow> char list \<Rightarrow> char list" where
  "recode_line buf dest =
     (let buf = string_trimboth (string_chomp buf) in
      if peek buf = CHR ''#'' then dest
      else
        (case scan_i buf of
           None \<Rightarrow> dest
         | Some (chr, rest) \<Rightarrow>
             (case scan_i rest of
                None \<Rightarrow> dest
              | Some (repl, _) \<Rightarrow>
                  if 0 > chr \<or> chr > int RECODE_MAX_CHAR then dest
                  else dest[nat chr := char_of (nat (repl mod 256))])))"

text \<open>The loop over the lines; each takes a character of the file at least, which bounds their number.\<close>

primrec recode_lines :: "nat \<Rightarrow> stream \<Rightarrow> char list \<Rightarrow> world \<Rightarrow> char list \<times> stream \<times> world" where
  "recode_lines 0 fp dest w = (dest, fp, w)"
| "recode_lines (Suc n) fp dest w =
     (case fgets 79 fp w of
        (None, fp, w) \<Rightarrow> (dest, fp, w)
      | (Some buf, fp, w) \<Rightarrow> recode_lines n fp (recode_line buf dest) w)"

definition recode_load_table :: "string \<Rightarrow> world \<Rightarrow> char list \<times> world" where
  "recode_load_table filename w =
     (case file_open filename Mode_r w of
        (None, w) \<Rightarrow> (default_table, w)
      | (Some fp, w) \<Rightarrow>
          (case recode_lines (length (content (inode w (st_inode fp))) + 1) fp default_table w of
             (dest, fp, w) \<Rightarrow> (dest, snd (file_close fp w))))"

definition recode_update_table :: "s_recode_table \<Rightarrow> string option \<Rightarrow> world \<Rightarrow> s_recode_table \<times> world" where
  "recode_update_table tab filename w =
     (if filled filename then
        (if rt_filename tab \<noteq> filename then
           (case recode_load_table (the filename) w of
              (t, w) \<Rightarrow> (\<lparr>rt_filename = filename, rt_table = t\<rparr>, w))
         else (tab, w))
      else if filled (rt_filename tab) then (recode_init, w)
      else (tab, w))"

definition recode :: "string \<Rightarrow> s_recode_table \<Rightarrow> string option \<Rightarrow> world \<Rightarrow> string \<times> s_recode_table \<times> world" where
  "recode str tab filename w =
     (case recode_update_table tab filename w of
        (tab, w) \<Rightarrow> (cstr (map (\<lambda>c. rt_table tab ! ord c) str), tab, w))"

section \<open>The table stays a table\<close>

definition table_ok :: "s_recode_table \<Rightarrow> bool" where
  "table_ok tab \<longleftrightarrow> length (rt_table tab) = 256"

lemma recode_line_length [simp]: "length (recode_line buf dest) = length dest"
  by (auto simp: recode_line_def Let_def split: option.split)

lemma recode_lines_length: "length (fst (recode_lines n fp dest w)) = length dest"
  by (induction n arbitrary: fp dest w) (auto split: prod.split option.split)

lemma default_length [simp]: "length default_table = 256"
  by (simp add: default_table_def)

lemma recode_load_length: "length (fst (recode_load_table f w)) = 256"
proof (cases "file_open f Mode_r w")
  case (Pair r v)
  show ?thesis
  proof (cases r)
    case (Some s)
    obtain d s' u where l: "recode_lines (length (content (inode v (st_inode s))) + 1) s default_table v = (d, s', u)"
      by (metis prod_cases3)
    then have "length d = 256" using recode_lines_length [of _ s default_table v] by (metis default_length fst_conv)
    then show ?thesis using Pair Some l by (simp add: recode_load_table_def)
  qed (simp add: recode_load_table_def Pair)
qed

lemma recode_table_ok: "table_ok tab \<Longrightarrow> table_ok (fst (snd (recode str tab f w)))"
  using recode_load_length [of "the f" w]
  by (auto simp: recode_def recode_update_table_def table_ok_def recode_init_def split: prod.split)

text \<open>Without a table a text is left as it is.\<close>

lemma recode_default:
  assumes "rt_filename tab = None" "rt_table tab = default_table" "nul_free str" "\<not> filled f"
  shows "recode str tab f w = (str, tab, w)"
proof -
  have cstr_same: "cstr str = str" using assms(3) by (auto simp: cstr_def nul_free_def)
  have "map (\<lambda>c. default_table ! ord c) str = str"
    by (intro map_idI) (simp add: default_table_def)
  then show ?thesis using assms by (auto simp: recode_def recode_update_table_def filled_def cstr_same)
qed

lemma recode_lines_same: "same_files w (snd (snd (recode_lines n fp dest w)))"
proof (induction n arbitrary: fp dest w)
  case (Suc n)
  obtain r fp' v where g: "fgets 79 fp w = (r, fp', v)" by (metis prod_cases3)
  then have "same_files w v" using ftell_fgets_same(2) [of w 79 fp] by simp
  then show ?case using Suc [of v fp'] g by (auto split: option.split intro: same_files_trans)
qed simp

lemma recode_load_same: "same_files w (snd (recode_load_table f w))"
proof -
  obtain fp v where o: "file_open f Mode_r w = (fp, v)" by fastforce
  then have 1: "same_files w v" using file_open_same [of w f] by simp
  show ?thesis
  proof (cases fp)
    case (Some s)
    obtain d s' u where l: "recode_lines (length (content (inode v (st_inode s))) + 1) s default_table v = (d, s', u)"
      by (metis prod_cases3)
    then have "same_files v u" using recode_lines_same [of v _ s default_table] by (metis snd_conv)
    then have "same_files w (snd (file_close s' u))" using 1 file_close_same same_files_trans by blast
    then show ?thesis using o l Some by (simp add: recode_load_table_def)
  qed (simp add: recode_load_table_def o 1)
qed

lemma recode_same: "same_files w (snd (snd (recode str tab f w)))"
  by (cases "recode_load_table (the f) w")
    (use recode_load_same [of w "the f"] in \<open>simp add: recode_def recode_update_table_def\<close>)

end
