(* ===== verification/ProtCommon.thy ===== *)
theory ProtCommon
  imports Session Recode Crc
begin

text \<open>
  The files of a transfer (\<open>prot_common.c\<close>): which file is sent next, opening, reading and closing it and
  what is done with it afterwards; under what name and whether a file is received, where it is put
  when it is complete; the limits on time and speed. The network spool is not configured: with
  \<open>netspool_host\<close> unset the code finds \<open>NS_UNCONF\<close> and sends local files only.
\<close>

section \<open>The code\<close>

subsection \<open>The state of a transfer\<close>

datatype fstat = FSTAT_PROCESS | FSTAT_WAITACK | FSTAT_SUCCESS | FSTAT_SKIPPED | FSTAT_REFUSED

record s_finfo =
  fi_fp :: "stream option"
  fi_local_name :: string
  fi_net_name :: string
  fi_fname :: "string option"
  fi_start_time :: int
  fi_mod_time :: int
  fi_mode :: int
  fi_total :: u64
  fi_sent :: u64
  fi_received :: u64
  fi_skipped :: u64
  fi_eofseen :: bool
  fi_status :: fstat
  fi_action :: nat
  fi_type :: u16
  fi_flodsc :: int
  fi_waitack :: bool
  fi_netspool :: bool

text \<open>\<open>send\<close> and \<open>recv\<close> point into the tables of files: they are indices here.\<close>

record s_protinfo =
  pi_reqs_only :: bool
  pi_stop_time :: int
  pi_freq_timelimit :: int
  pi_min_tx_cps :: int
  pi_min_rx_cps :: int
  pi_min_cps_time :: int
  pi_buflen :: u64
  pi_filelist :: "s_filelist list"
  pi_tx_cps :: int
  pi_rx_cps :: int
  pi_send_freqtime :: int
  pi_tx_low_cps_time :: int
  pi_rx_low_cps_time :: int
  pi_start_time :: int
  pi_traffic_sent :: s_traffic
  pi_traffic_rcvd :: s_traffic
  pi_send_left_size :: u64
  pi_recv_left_size :: u64
  pi_send_left_num :: int
  pi_recv_left_num :: int
  pi_send :: "nat option"
  pi_recv :: "nat option"
  pi_sentfiles :: "s_finfo list"
  pi_rcvdfiles :: "s_finfo list"

record s_filehint =
  hint_fn :: string
  hint_sz :: u64
  hint_tm :: int

text \<open>The global state of a session with the recoding tables.\<close>

record s_globals = s_state +
  recode_table_in :: s_recode_table
  recode_table_out :: s_recode_table

definition sending :: "s_protinfo \<Rightarrow> s_finfo option" where
  "sending pi = map_option (\<lambda>i. pi_sentfiles pi ! i) (pi_send pi)"

definition receiving :: "s_protinfo \<Rightarrow> s_finfo option" where
  "receiving pi = map_option (\<lambda>i. pi_rcvdfiles pi ! i) (pi_recv pi)"

definition set_send :: "s_finfo \<Rightarrow> s_protinfo \<Rightarrow> s_protinfo" where
  "set_send fi pi = (case pi_send pi of None \<Rightarrow> pi | Some i \<Rightarrow> pi\<lparr>pi_sentfiles := (pi_sentfiles pi)[i := fi]\<rparr>)"

definition set_recv :: "s_finfo \<Rightarrow> s_protinfo \<Rightarrow> s_protinfo" where
  "set_recv fi pi = (case pi_recv pi of None \<Rightarrow> pi | Some i \<Rightarrow> pi\<lparr>pi_rcvdfiles := (pi_rcvdfiles pi)[i := fi]\<rparr>)"

subsection \<open>The next file to send\<close>

datatype next_file = Queued nat | Answer nat | No_file

definition better :: "s_filelist \<Rightarrow> s_filelist \<Rightarrow> bool" where
  "better f best \<longleftrightarrow>
     (if has (fl_type f) TYPE_NETMAIL then
        (if has (fl_type best) TYPE_NETMAIL then fl_flavor f > fl_flavor best else True)
      else if has (fl_type f) TYPE_ARCMAIL then
        (if has (fl_type best) TYPE_ARCMAIL \<and> fl_flavor f > fl_flavor best then True
         else \<not> has (fl_type best) TYPE_NETMAIL \<and> \<not> has (fl_type best) TYPE_ARCMAIL)
      else \<not> has (fl_type f) TYPE_REQUEST \<and> has (fl_type best) TYPE_REQUEST)"

definition queue_step :: "nat \<times> s_filelist \<Rightarrow> (nat \<times> s_filelist) option \<Rightarrow> (nat \<times> s_filelist) option" where
  "queue_step x best =
     (if fl_status (snd x) \<noteq> STATUS_WILLSEND then best
      else case best of None \<Rightarrow> Some x | Some b \<Rightarrow> if better (snd x) (snd b) then Some x else best)"

definition first_index :: "('a \<Rightarrow> bool) \<Rightarrow> 'a list \<Rightarrow> nat option" where
  "first_index P xs = map_option fst (List.find (\<lambda>x. P (snd x)) (enumerate 0 xs))"

definition prot_get_next_file :: "s_filelist list \<Rightarrow> s_protinfo \<Rightarrow> next_file" where
  "prot_get_next_file q pi =
     (case (if pi_reqs_only pi
            then first_index (\<lambda>f. fl_status f = STATUS_WILLSEND \<and> has (fl_type f) TYPE_REQUEST) q
            else map_option fst (fold queue_step (enumerate 0 q) None)) of
        Some i \<Rightarrow> Queued i
      | None \<Rightarrow>
          (case first_index (\<lambda>f. fl_status f = STATUS_WILLSEND) (pi_filelist pi) of
             Some i \<Rightarrow> Answer i | None \<Rightarrow> No_file))"

subsection \<open>Names\<close>

text \<open>
  The name a file is sent under. Of a name that is all extension the code would take the checksum of
  \<open>-1\<close> bytes; arcmail and requests of an Amiga style outbound have numbers in front.
\<close>

definition p_convfilename :: "s_sendopts \<Rightarrow> string \<Rightarrow> u16 \<Rightarrow> world \<Rightarrow> string \<times> world" where
  "p_convfilename so origname type w =
     (if has type TYPE_NETMAIL then
        (case rand w of (r, w) \<Rightarrow> (pad0 8 (hex r) @ ''.pkt'', w))
      else if has type TYPE_ASONAME \<and> has type TYPE_ARCMAIL then
        (case last_ext origname of
           Some p \<Rightarrow>
             (pad0 8 (hex (unat (getcrc32ccitt (bytes (take (length origname - length p - 1) origname))))) @ p, w)
         | None \<Rightarrow> (pad0 8 (hex (unat (getcrc32ccitt (bytes origname)))) @ ''.fr0'', w))
      else if has type TYPE_ASONAME \<and> has type TYPE_REQUEST then
        (case out_parse_name_aso origname of
           Some addr \<Rightarrow> (hex_int 4 (net addr) @ hex_int 4 (node addr) @ ''.req'', w)
         | None \<Rightarrow> (case rand w of (r, w) \<Rightarrow> (pad0 8 (hex r) @ ''.req'', w)))
      else if so_fnc so then (file_get_dos_name origname, w)
      else (if string_isupper origname then string_tolower origname else origname, w))"

definition p_gettmpname :: "string option \<Rightarrow> string \<Rightarrow> s_faddr \<Rightarrow> u64 \<Rightarrow> int \<Rightarrow> string option" where
  "p_gettmpname inbound filename addr sz tm =
     (let bbuf = addr_string addr @ '' '' @ hex (unat sz) @ '' '' @ hex (nat (tm mod 2 ^ 64));
          cbuf = hex (unat (getcrc32ccitt (bytes bbuf)))
      in xstrcat (xstrcat (xstrcat (xstrcpy inbound) (Some filename)) (Some ''.'')) (Some cbuf))"

definition MAX_TRIES :: nat where "MAX_TRIES = 1024"

text \<open>
  The three loops for a new name. They end with a free name, and after the last try with none, even
  when that one would be free.
\<close>

primrec random_name :: "nat \<Rightarrow> string \<Rightarrow> string \<Rightarrow> world \<Rightarrow> string option \<times> world" where
  "random_name 0 dirname ext w = (None, snd (rand w))"
| "random_name (Suc n) dirname ext w =
     (case rand w of (r, w) \<Rightarrow>
        let result = dirname @ pad0 8 (hex r) @ ''.'' @ ext in
        if exists result w then random_name n dirname ext w else (Some result, w))"

definition next_char :: "char \<Rightarrow> char option" where
  "next_char c =
     (if ord c \<in> {48..56} \<or> ord c \<in> {65..89} \<or> ord c \<in> {97..121}
      then Some (char_of (ord c + 1))
      else if c = CHR ''9'' then Some (CHR ''a'')
      else if c = CHR ''z'' then Some (CHR ''A'')
      else None)"

primrec rotate_name :: "nat \<Rightarrow> string \<Rightarrow> nat \<Rightarrow> world \<Rightarrow> string option" where
  "rotate_name 0 result p w = None"
| "rotate_name (Suc n) result p w =
     (case next_char (result ! p) of
        Some c \<Rightarrow>
          (let result = result[p := c] in if exists result w then rotate_name n result p w else Some result)
      | None \<Rightarrow>
          if p = 0 \<or> result ! (p - 1) = CHR ''.'' \<or> result ! (p - 1) = CHR ''/'' then None
          else if exists result w then rotate_name n result (p - 1) w else Some result)"

primrec number_name :: "nat \<Rightarrow> nat \<Rightarrow> string \<Rightarrow> world \<Rightarrow> string option" where
  "number_name 0 k result w = None"
| "number_name (Suc n) k result w =
     (if exists (result @ dec k) w then number_name n (k + 1) result w else Some (result @ dec k))"

definition prot_unique_name :: "string \<Rightarrow> string \<Rightarrow> u16 \<Rightarrow> world \<Rightarrow> string option \<times> world" where
  "prot_unique_name dirname fname type w =
     (if has type TYPE_REQUEST then (Some (dirname @ fname), w)
      else if has type TYPE_NETMAIL \<or> has type TYPE_TICFILE then
        random_name (MAX_TRIES - 1) dirname (if has type TYPE_NETMAIL then ''pkt'' else ''tic'') w
      else if has type TYPE_ARCMAIL then
        (rotate_name (MAX_TRIES - 1) (dirname @ fname) (length (dirname @ fname) - 1) w, w)
      else
        (let result = dirname @ fname in
         (number_name (MAX_TRIES - 1) 1 (if last result = CHR ''.'' then result else result @ ''.'') w, w)))"

subsection \<open>Sending\<close>

definition mark_sending :: "next_file \<Rightarrow> s_globals \<Rightarrow> s_protinfo \<Rightarrow> s_globals \<times> s_protinfo" where
  "mark_sending nf g pi =
     (case nf of
        Queued i \<Rightarrow>
          (g\<lparr>ses_queue := (ses_queue g)\<lparr>fslist := (fslist (ses_queue g))
               [i := (fslist (ses_queue g) ! i)\<lparr>fl_status := STATUS_SENDING\<rparr>]\<rparr>\<rparr>, pi)
      | Answer i \<Rightarrow>
          (g, pi\<lparr>pi_filelist := (pi_filelist pi)[i := (pi_filelist pi ! i)\<lparr>fl_status := STATUS_SENDING\<rparr>]\<rparr>)
      | No_file \<Rightarrow> (g, pi))"

definition next_entry :: "next_file \<Rightarrow> s_globals \<Rightarrow> s_protinfo \<Rightarrow> s_filelist" where
  "next_entry nf g pi = (case nf of Queued i \<Rightarrow> fslist (ses_queue g) ! i | Answer i \<Rightarrow> pi_filelist pi ! i)"

definition count_left :: "s_filelist \<Rightarrow> s_protinfo \<Rightarrow> s_protinfo" where
  "count_left f pi =
     pi\<lparr>pi_send_left_num := max 0 (pi_send_left_num pi - 1),
        pi_send_left_size := pi_send_left_size pi - word_of_int (fl_size f)\<rparr>"

definition willsend :: "s_filelist list \<Rightarrow> nat" where
  "willsend l = length (filter (\<lambda>f. fl_status f = STATUS_WILLSEND) l)"

text \<open>How many files may still be sent.\<close>

definition left_to_send :: "s_globals \<Rightarrow> s_protinfo \<Rightarrow> nat" where
  "left_to_send g pi = willsend (fslist (ses_queue g)) + willsend (pi_filelist pi)"

text \<open>A file found by the time, size and name the other side gives is sent once more, if it is still open.\<close>

definition tx_hinted :: "s_filehint \<Rightarrow> s_protinfo \<Rightarrow> int \<times> s_protinfo" where
  "tx_hinted hint pi =
     (case first_index (\<lambda>f. fi_net_name f = hint_fn hint \<and> fi_total f = hint_sz hint \<and> fi_mod_time f = hint_tm hint)
             (pi_sentfiles pi) of
        None \<Rightarrow> (-1, pi)
      | Some i \<Rightarrow>
          if fi_fp (pi_sentfiles pi ! i) = None then (-1, pi)
          else
            (let pi = pi\<lparr>pi_send := Some i\<rparr>
             in (0, set_send ((pi_sentfiles pi ! i)\<lparr>fi_eofseen := False, fi_status := FSTAT_PROCESS\<rparr>) pi)))"

definition tx_entry :: "conf \<Rightarrow> s_filelist \<Rightarrow> fnode \<Rightarrow> stream \<Rightarrow> s_globals \<Rightarrow> world \<Rightarrow> s_finfo \<times> s_globals \<times> world" where
  "tx_entry cf f st fp g w =
     (let local_name = file_getname (fl_fname f);
          (net_name, w) = p_convfilename (ses_sopts g) local_name (fl_type f) w;
          (net_name, tab, w) = recode net_name (recode_table_out g) (conf_string cf ''recode_file_out'') w;
          t = localtogmt (gmtoff w) (if has (fl_type f) TYPE_REQUEST then now w else mtime st)
      in (\<lparr>fi_fp = Some fp, fi_local_name = local_name, fi_net_name = net_name, fi_fname = Some (fl_fname f),
           fi_start_time = now w, fi_mod_time = t + t smod 2, fi_mode = fmode st,
           fi_total = word_of_nat (length (content st)), fi_sent = 0, fi_received = 0, fi_skipped = 0,
           fi_eofseen = False, fi_status = FSTAT_PROCESS, fi_action = fl_action f, fi_type = fl_type f,
           fi_flodsc = fl_flodsc f, fi_waitack = False, fi_netspool = False\<rparr>,
          g\<lparr>recode_table_out := tab\<rparr>, w))"

lemma first_index_some:
  assumes "first_index P xs = Some i"
  shows "i < length xs \<and> P (xs ! i)"
proof -
  from assms obtain x where x: "List.find (\<lambda>x. P (snd x)) (enumerate 0 xs) = Some (i, x)"
    by (auto simp: first_index_def)
  then obtain k where "k < length xs" "enumerate 0 xs ! k = (i, x)" "P x"
    unfolding find_Some_iff by (metis length_enumerate snd_conv)
  then show ?thesis by (auto simp: nth_enumerate_eq)
qed

definition queue_inv :: "s_filelist list \<Rightarrow> (nat \<times> s_filelist) option \<Rightarrow> bool" where
  "queue_inv q best \<longleftrightarrow>
     (case best of None \<Rightarrow> True | Some (i, f) \<Rightarrow> i < length q \<and> q ! i = f \<and> fl_status f = STATUS_WILLSEND)"

lemma queue_best_inv: "queue_inv q (fold queue_step (enumerate 0 q) None)"
proof -
  have "queue_inv q (fold queue_step xs best)" if "queue_inv q best" "set xs \<subseteq> set (enumerate 0 q)" for xs best
    using that
  proof (induction xs arbitrary: best)
    case (Cons x xs)
    then have "queue_inv q (queue_step x best)"
      by (cases x; cases best) (auto simp: queue_step_def queue_inv_def in_set_enumerate_eq)
    then show ?case using Cons by simp
  qed simp
  then show ?thesis by (simp add: queue_inv_def)
qed

text \<open>What is taken next is there and is still to be sent; so marking it leaves less.\<close>

lemma next_file_queued:
  assumes "prot_get_next_file q pi = Queued i"
  shows "i < length q \<and> fl_status (q ! i) = STATUS_WILLSEND"
  using assms first_index_some [where xs = q and i = i] queue_best_inv [of q]
  by (auto simp: prot_get_next_file_def queue_inv_def split: option.splits if_splits)

lemma next_file_answer:
  assumes "prot_get_next_file q pi = Answer i"
  shows "i < length (pi_filelist pi) \<and> fl_status (pi_filelist pi ! i) = STATUS_WILLSEND"
  using assms first_index_some [where xs = "pi_filelist pi" and i = i]
  by (auto simp: prot_get_next_file_def split: option.splits)

lemma willsend_update:
  assumes "i < length l" "fl_status (l ! i) = STATUS_WILLSEND" "fl_status f = STATUS_SENDING"
  shows "willsend (l[i := f]) < willsend l"
  using assms
proof (induction l arbitrary: i)
  case (Cons a l)
  then show ?case by (cases i) (auto simp: willsend_def)
qed simp

lemma mark_sending_less:
  assumes "mark_sending (prot_get_next_file (fslist (ses_queue g)) pi) g pi = (g', pi')"
    "prot_get_next_file (fslist (ses_queue g)) pi \<noteq> No_file"
  shows "left_to_send g' pi' < left_to_send g pi"
  using assms next_file_queued [of "fslist (ses_queue g)" pi] next_file_answer [of "fslist (ses_queue g)" pi]
  by (auto simp: mark_sending_def left_to_send_def willsend_update split: next_file.splits)

lemma count_left_same [simp]: "left_to_send g (count_left f pi) = left_to_send g pi"
  by (simp add: left_to_send_def count_left_def)

text \<open>
  A file that cannot be opened is passed over for the next one. The number of files left to send
  falls with each, so the search ends.
\<close>

function tx_open_next :: "conf \<Rightarrow> s_globals \<Rightarrow> s_protinfo \<Rightarrow> world \<Rightarrow> int \<times> s_globals \<times> s_protinfo \<times> world" where
  "tx_open_next cf g pi w =
     (let nf = prot_get_next_file (fslist (ses_queue g)) pi in
      if nf = No_file then (1, g, pi, w)
      else
        let f = next_entry nf g pi in
        case mark_sending nf g pi of (g', pi') \<Rightarrow>
          let pi' = count_left f pi' in
          (case stat (fl_fname f) w of
             None \<Rightarrow> tx_open_next cf g' pi' w
           | Some st \<Rightarrow>
               (case file_open (fl_fname f) Mode_r w of
                  (None, w') \<Rightarrow> tx_open_next cf g' pi' w'
                | (Some fp, w') \<Rightarrow>
                    (case tx_entry cf f st fp g' w' of (fi, g'', w'') \<Rightarrow>
                       (0, g'',
                        pi'\<lparr>pi_tx_low_cps_time := 0, pi_send := Some (length (pi_sentfiles pi')),
                            pi_sentfiles := pi_sentfiles pi' @ [fi]\<rparr>, w'')))))"
  by pat_completeness auto
termination
proof (relation "measure (\<lambda>(cf, g, pi, w). left_to_send g pi)", goal_cases)
  case 2
  then show ?case using mark_sending_less by (metis case_prod_conv count_left_same in_measure)
next
  case 3
  then show ?case using mark_sending_less by (metis case_prod_conv count_left_same in_measure)
qed simp

declare tx_open_next.simps [simp del]

definition p_tx_fopen ::
  "conf \<Rightarrow> s_filehint option \<Rightarrow> s_globals \<Rightarrow> s_protinfo \<Rightarrow> world \<Rightarrow> int \<times> s_globals \<times> s_protinfo \<times> world" where
  "p_tx_fopen cf hint g pi w =
     (if so_holdall (ses_sopts g) then (1, g, pi, w)
      else
        (case hint of
           Some h \<Rightarrow> (case tx_hinted h pi of (rc, pi) \<Rightarrow> (rc, g, pi, w))
         | None \<Rightarrow> tx_open_next cf g pi w))"

text \<open>The rest of the sender. Where \<open>pi->send\<close> would be read as a null pointer the outcome is \<open>None\<close>.\<close>

definition p_tx_rewind :: "s_protinfo \<Rightarrow> nat \<Rightarrow> world \<Rightarrow> int \<times> s_protinfo \<times> world" where
  "p_tx_rewind pi pos w =
     (case sending pi of
        None \<Rightarrow> (-1, pi, w)
      | Some fi \<Rightarrow>
          (case fi_fp fi of
             None \<Rightarrow> (-1, pi, w)
           | Some fp \<Rightarrow>
               (case fseek fp pos w of (ok, fp, w) \<Rightarrow>
                  (if ok then 0 else -1, set_send (fi\<lparr>fi_fp := Some fp\<rparr>) pi, w))))"

definition prot_traffic_update :: "s_traffic \<Rightarrow> u64 \<Rightarrow> int \<Rightarrow> u16 \<Rightarrow> s_traffic" where
  "prot_traffic_update t sz xtime type =
     (if has type TYPE_REQANSW then
        t\<lparr>freqed_size := freqed_size t + sz, freqed_time := freqed_time t + xtime, freqed_num := freqed_num t + 1\<rparr>
      else if has type TYPE_NETMAIL then
        t\<lparr>netmail_size := netmail_size t + sz, netmail_time := netmail_time t + xtime, netmail_num := netmail_num t + 1\<rparr>
      else if has type TYPE_ARCMAIL then
        t\<lparr>arcmail_size := arcmail_size t + sz, arcmail_time := arcmail_time t + xtime, arcmail_num := arcmail_num t + 1\<rparr>
      else
        t\<lparr>files_size := files_size t + sz, files_time := files_time t + xtime, files_num := files_num t + 1\<rparr>)"

definition prot_traffic_total_size :: "s_traffic \<Rightarrow> u64" where
  "prot_traffic_total_size t = netmail_size t + arcmail_size t + files_size t + freqed_size t"

definition prot_traffic_total_num :: "s_traffic \<Rightarrow> int" where
  "prot_traffic_total_num t = netmail_num t + arcmail_num t + files_num t + freqed_num t"

text \<open>What is done with a file that has been sent, or that the other side does not want.\<close>

definition tx_actions :: "conf \<Rightarrow> s_fsqueue \<Rightarrow> s_finfo \<Rightarrow> world \<Rightarrow> world" where
  "tx_actions cf q fi w =
     (let fname = the (fi_fname fi);
          w = (if has (fi_type fi) TYPE_FROMFLO
               then snd (out_flo_marksent cf fname (ff_fname (flotab q ! nat (fi_flodsc fi))) w) else w)
      in if fi_action fi = ACTION_UNLINK \<or> fi_action fi = ACTION_FORCEUNLINK then snd (unlink_file fname w)
         else if fi_action fi = ACTION_TRUNCATE then
           (case fopen fname Mode_w w of (None, w) \<Rightarrow> w | (Some fp, w) \<Rightarrow> snd (fclose fp w))
         else w)"

definition p_tx_fclose :: "conf \<Rightarrow> s_globals \<Rightarrow> s_protinfo \<Rightarrow> world \<Rightarrow> int \<times> s_protinfo \<times> world" where
  "p_tx_fclose cf g pi w =
     (case sending pi of
        None \<Rightarrow> (-1, pi, w)
      | Some fi \<Rightarrow>
          let w = (case fi_fp fi of None \<Rightarrow> w | Some fp \<Rightarrow> snd (file_close fp w));
              fi = fi\<lparr>fi_fp := None\<rparr>;
              trans_time = now w - fi_start_time fi;
              pi = set_send fi pi;
              pi = pi\<lparr>pi_traffic_sent := prot_traffic_update (pi_traffic_sent pi) (fi_sent fi - fi_skipped fi)
                        trans_time (fi_type fi),
                      pi_send_freqtime := pi_send_freqtime pi
                        + (if has (fi_type fi) TYPE_REQANSW then trans_time else 0)\<rparr>;
              w = (if fi_status fi = FSTAT_SUCCESS \<or> fi_status fi = FSTAT_SKIPPED
                   then tx_actions cf (ses_queue g) fi w else w)
          in (0, pi\<lparr>pi_send := None\<rparr>, w))"

text \<open>The number of bytes, or -1 (try again later), or -2 (never send it); and the bytes.\<close>

definition p_tx_readfile :: "nat \<Rightarrow> s_protinfo \<Rightarrow> world \<Rightarrow> (int \<times> string \<times> s_protinfo \<times> world) option" where
  "p_tx_readfile buflen pi w =
     (case sending pi of
        None \<Rightarrow> None
      | Some fi \<Rightarrow> Some
          (case fi_fp fi of
             None \<Rightarrow> (-1, [], pi, w)
           | Some fp \<Rightarrow>
               (case ftell fp w of (pos, w) \<Rightarrow>
                  let fi = fi\<lparr>fi_eofseen := False\<rparr> in
                  if pos < 0 then (-1, [], set_send (fi\<lparr>fi_status := FSTAT_REFUSED\<rparr>) pi, w)
                  else if fi_sent fi \<noteq> word_of_int pos then
                    (-1, [], set_send (fi\<lparr>fi_received := word_of_int pos\<rparr>) pi, w)
                  else if \<not> exists (the (fi_fname fi)) w then
                    (-2, [], set_send (fi\<lparr>fi_status := FSTAT_SKIPPED\<rparr>) pi, w)
                  else
                    (case fread buflen fp w of (d, fp, w) \<Rightarrow>
                       let fi = fi\<lparr>fi_fp := Some fp\<rparr> in
                       if length d < buflen then
                         (if st_eof fp then (int (length d), d, set_send (fi\<lparr>fi_eofseen := True\<rparr>) pi, w)
                          else (-1, [], set_send (fi\<lparr>fi_status := FSTAT_REFUSED\<rparr>) pi, w))
                       else (int (length d), d, set_send fi pi, w)))))"

subsection \<open>Receiving\<close>

definition p_rx_writefile :: "string \<Rightarrow> s_protinfo \<Rightarrow> world \<Rightarrow> (int \<times> s_protinfo \<times> world) option" where
  "p_rx_writefile buffer pi w =
     (case receiving pi of
        None \<Rightarrow> None
      | Some fi \<Rightarrow>
          (case fi_fp fi of
             None \<Rightarrow> None
           | Some fp \<Rightarrow> Some
               (case ftell fp w of (pos, w) \<Rightarrow>
                  if pos < 0 then (-1, set_recv (fi\<lparr>fi_status := FSTAT_REFUSED\<rparr>) pi, w)
                  else if fi_received fi \<noteq> word_of_int pos then
                    (-1, set_recv (fi\<lparr>fi_received := word_of_int pos\<rparr>) pi, w)
                  else if \<not> exists (the (fi_fname fi)) w then
                    (-2, set_recv (fi\<lparr>fi_status := FSTAT_SKIPPED\<rparr>) pi, w)
                  else if buffer = [] then (0, pi, w)
                  else
                    (case fwrite buffer fp w of (ok, fp, w) \<Rightarrow>
                       let fi = fi\<lparr>fi_fp := Some fp\<rparr> in
                       if ok then (0, set_recv fi pi, w)
                       else (-1, set_recv (fi\<lparr>fi_status := FSTAT_REFUSED\<rparr>) pi, w)))))"

definition inbound_mode :: "conf \<Rightarrow> u16 \<Rightarrow> int" where
  "inbound_mode cf type =
     (let m = (if has type TYPE_NETMAIL then conf_filemode cf ''mode_netmail''
               else if has type TYPE_ARCMAIL then conf_filemode cf ''mode_arcmail''
               else if has type TYPE_REQUEST then conf_filemode cf ''mode_request''
               else if has type TYPE_TICFILE then conf_filemode cf ''mode_ticfile'' else 0);
          m = (if m = 0 then conf_filemode cf ''mode_default'' else m)
      in if m = 0 then 384 else m)"

text \<open>True is success, where the code returns zero.\<close>

definition p_move2inbound :: "conf \<Rightarrow> s_globals \<Rightarrow> s_finfo \<Rightarrow> world \<Rightarrow> bool \<times> world" where
  "p_move2inbound cf g fi w =
     (case ses_inbound g of
        None \<Rightarrow> (False, w)
      | Some inb \<Rightarrow>
          let realname = inb @ fi_local_name fi;
              (destname, w) =
                (if \<not> exists realname w then (Some realname, w)
                 else prot_unique_name inb (fi_local_name fi) (fi_type fi) w)
          in case (destname, fi_fname fi) of
               (Some destname, Some fname) \<Rightarrow>
                 (case rename_file fname destname w of (ok, w) \<Rightarrow>
                    if \<not> ok then (False, w)
                    else (True, snd (set_file destname (\<lambda>f. f\<lparr>fmode := inbound_mode cf (fi_type fi)\<rparr>) w)))
             | _ \<Rightarrow> (False, w))"

definition p_compfinfo :: "s_finfo \<Rightarrow> string \<Rightarrow> u64 \<Rightarrow> int \<Rightarrow> bool" where
  "p_compfinfo fi fn sz tm \<longleftrightarrow> sz = fi_total fi \<and> tm = fi_mod_time fi \<and> fn = fi_net_name fi"

definition getfreespace :: "string \<Rightarrow> world \<Rightarrow> u64" where
  "getfreespace path w = (case statvfs w path of None \<Rightarrow> -1 | Some n \<Rightarrow> word_of_int n)"

text \<open>The entry for a file that is announced, with a name of our own for it.\<close>

definition rx_local_name :: "conf \<Rightarrow> string \<Rightarrow> string" where
  "rx_local_name cf name =
     (let name = file_name_makesafe name in
      if string_isupper name \<and> conf_boolean cf ''recieved_to_lower'' then string_tolower name else name)"

definition rx_entry ::
  "conf \<Rightarrow> string \<Rightarrow> u64 \<Rightarrow> int \<Rightarrow> int \<Rightarrow> s_globals \<Rightarrow> world \<Rightarrow> s_finfo \<times> s_globals \<times> world" where
  "rx_entry cf fn sz tm md g w =
     (case recode (file_getname fn) (recode_table_in g) (conf_string cf ''recode_file_in'') w of
        (name, tab, w) \<Rightarrow>
          (\<lparr>fi_fp = None, fi_local_name = rx_local_name cf name, fi_net_name = fn, fi_fname = None,
            fi_start_time = now w, fi_mod_time = tm, fi_mode = md, fi_total = sz, fi_sent = 0, fi_received = 0,
            fi_skipped = 0, fi_eofseen = False, fi_status = FSTAT_PROCESS, fi_action = ACTION_NOTHING,
            fi_type = out_filetype fn, fi_flodsc = 0, fi_waitack = False, fi_netspool = False\<rparr>,
           g\<lparr>recode_table_in := tab\<rparr>, w))"

text \<open>Opening the file under its temporary name, when there is room; \<open>a\<close> appends to what is there.\<close>

definition rx_open :: "conf \<Rightarrow> s_globals \<Rightarrow> bool \<Rightarrow> s_finfo \<Rightarrow> world \<Rightarrow> int \<times> s_finfo \<times> world" where
  "rx_open cf g a fi w =
     (let minfree = (word_of_int (conf_number cf ''min_free_space'') :: u64);
          needed = minfree + fi_total fi - (if a then fi_skipped fi else 0);
          free = getfreespace (case ses_inbound g of None \<Rightarrow> [] | Some p \<Rightarrow> p) w
      in if minfree > 0 \<and> free < needed then (1, fi\<lparr>fi_status := FSTAT_REFUSED\<rparr>, w)
         else
           (case fi_fname fi of
              None \<Rightarrow> (1, fi\<lparr>fi_status := FSTAT_REFUSED\<rparr>, w)
            | Some fname \<Rightarrow>
                (case file_open fname (if a then Mode_a else Mode_w) w of
                   (None, w) \<Rightarrow> (1, fi\<lparr>fi_status := FSTAT_REFUSED, fi_fname := None\<rparr>, w)
                 | (Some fp, w) \<Rightarrow> (0, fi\<lparr>fi_fp := Some fp\<rparr>, w))))"

definition same_copy :: "s_finfo \<Rightarrow> fnode \<Rightarrow> world \<Rightarrow> bool" where
  "same_copy fi st w \<longleftrightarrow>
     fi_mod_time fi = localtogmt (gmtoff w) (mtime st) \<and> fi_total fi = word_of_nat (length (content st))"

text \<open>A file in the temporary inbound: complete, the beginning of this file, or something else.\<close>

definition rx_temporary :: "conf \<Rightarrow> s_globals \<Rightarrow> s_finfo \<Rightarrow> world \<Rightarrow> int \<times> s_finfo \<times> world" where
  "rx_temporary cf g fi w =
     (case Option.bind (fi_fname fi) (\<lambda>f. stat f w) of
        None \<Rightarrow> rx_open cf g False fi w
      | Some st \<Rightarrow>
          if same_copy fi st w then
            (case p_move2inbound cf g fi w of (ok, w) \<Rightarrow>
               (if ok then 2 else 1,
                fi\<lparr>fi_status := (if ok then FSTAT_SKIPPED else FSTAT_REFUSED), fi_fname := None\<rparr>, w))
          else if fi_mod_time fi = localtogmt (gmtoff w) (mtime st) \<and> fi_total fi \<ge> word_of_nat (length (content st)) then
            rx_open cf g True
              (fi\<lparr>fi_skipped := word_of_nat (length (content st)), fi_received := word_of_nat (length (content st))\<rparr>) w
          else rx_open cf g False fi w)"

definition rx_check :: "conf \<Rightarrow> s_globals \<Rightarrow> s_finfo \<Rightarrow> world \<Rightarrow> int \<times> s_finfo \<times> world" where
  "rx_check cf g fi w =
     (let listed_in = (\<lambda>key. case conf_string cf key of None \<Rightarrow> False | Some m \<Rightarrow> checkmasks m (fi_net_name fi) = 0);
          tmp = p_gettmpname (ses_tinbound g) (fi_local_name fi) (ses_node_addr g) (fi_total fi) (fi_mod_time fi)
      in if listed_in ''delay_files_recv'' then (1, fi\<lparr>fi_status := FSTAT_REFUSED\<rparr>, w)
         else if listed_in ''skip_files_recv'' then (2, fi\<lparr>fi_status := FSTAT_SKIPPED\<rparr>, w)
         else if has (fi_type fi) TYPE_REQUEST \<or> has (fi_type fi) TYPE_NETMAIL then
           rx_open cf g False (fi\<lparr>fi_fname := tmp\<rparr>) w
         else
           (case Option.bind (xstrcat (xstrcpy (ses_inbound g)) (Some (fi_local_name fi))) (\<lambda>f. stat f w) of
              Some st \<Rightarrow>
                if same_copy fi st w then (2, fi\<lparr>fi_status := FSTAT_SKIPPED\<rparr>, w)
                else rx_temporary cf g (fi\<lparr>fi_fname := tmp\<rparr>) w
            | None \<Rightarrow> rx_temporary cf g (fi\<lparr>fi_fname := tmp\<rparr>) w))"

text \<open>0 receive it, 1 refuse it (later), 2 skip it (never). A repeated announcement is answered as the first.\<close>

definition rx_repeated :: "s_protinfo \<Rightarrow> string \<Rightarrow> u64 \<Rightarrow> int \<Rightarrow> int option" where
  "rx_repeated pi fn sz tm =
     (case receiving pi of
        None \<Rightarrow> None
      | Some fi \<Rightarrow>
          if \<not> p_compfinfo fi fn sz tm then None
          else if fi_fp fi \<noteq> None then Some 0
          else if fi_status fi = FSTAT_SKIPPED then Some 2
          else if fi_status fi = FSTAT_REFUSED then Some 1
          else None)"

definition p_rx_fopen ::
  "conf \<Rightarrow> string \<Rightarrow> u64 \<Rightarrow> int \<Rightarrow> int \<Rightarrow> s_globals \<Rightarrow> s_protinfo \<Rightarrow> world \<Rightarrow> int \<times> s_globals \<times> s_protinfo \<times> world" where
  "p_rx_fopen cf fn sz tm md g pi w =
     (case rx_repeated pi fn sz tm of
        Some rc \<Rightarrow> (rc, g, pi, w)
      | None \<Rightarrow>
          (case rx_entry cf fn sz tm md g w of (fi, g, w) \<Rightarrow>
           case rx_check cf g fi w of (rc, fi, w) \<Rightarrow>
             (rc, g, pi\<lparr>pi_rx_low_cps_time := 0, pi_recv := Some (length (pi_rcvdfiles pi)),
                        pi_rcvdfiles := pi_rcvdfiles pi @ [fi]\<rparr>, w)))"

text \<open>Operations on a name that may be missing: the system calls fail on a null pointer.\<close>

definition at_name :: "(string \<Rightarrow> world \<Rightarrow> bool \<times> world) \<Rightarrow> string option \<Rightarrow> world \<Rightarrow> world" where
  "at_name f name w = (case name of None \<Rightarrow> w | Some n \<Rightarrow> snd (f n w))"

text \<open>
  \<open>req\<close> is \<open>req_proc\<close>, the processor of file requests (\<open>freq_proc.c\<close>): the request's name, the list of
  answers so far and the files. The received file is complete when its length is the one announced.
\<close>

type_synonym req_processor = "string \<Rightarrow> s_filelist list \<Rightarrow> world \<Rightarrow> s_filelist list \<times> world"

definition rx_commit ::
  "conf \<Rightarrow> req_processor \<Rightarrow> s_globals \<Rightarrow> s_finfo \<Rightarrow> s_filelist list \<Rightarrow> world \<Rightarrow> s_finfo \<times> s_filelist list \<times> world" where
  "rx_commit cf req g fi answers w =
     (case Option.bind (fi_fname fi) (\<lambda>f. stat f w) of
        None \<Rightarrow> (fi\<lparr>fi_status := FSTAT_REFUSED\<rparr>, answers, w)
      | Some st \<Rightarrow>
          if word_of_nat (length (content st)) \<noteq> fi_total fi then (fi\<lparr>fi_status := FSTAT_REFUSED\<rparr>, answers, w)
          else if ses_reqstat g = REQS_ALLOW \<and> has (fi_type fi) TYPE_REQUEST then
            (case req (the (fi_fname fi)) answers w of (answers, w) \<Rightarrow>
               (fi, answers, snd (unlink_file (the (fi_fname fi)) w)))
          else
            (case p_move2inbound cf g fi w of (ok, w) \<Rightarrow>
               (if ok then fi else fi\<lparr>fi_status := FSTAT_REFUSED\<rparr>, answers, w)))"

text \<open>A skipped file is removed; any other gets the time it had on the other side, and the mode 0600.\<close>

definition rx_settle :: "s_finfo \<Rightarrow> world \<Rightarrow> world" where
  "rx_settle fi w =
     (if fi_status fi = FSTAT_SKIPPED then at_name unlink_file (fi_fname fi) w
      else
        let w = (if fi_mod_time fi \<noteq> 0
                 then at_name (\<lambda>n w. set_file n (\<lambda>f. f\<lparr>mtime := gmttolocal (gmtoff w) (fi_mod_time fi)\<rparr>) w)
                        (fi_fname fi) w else w)
        in at_name (\<lambda>n w. set_file n (\<lambda>f. f\<lparr>fmode := 384\<rparr>) w) (fi_fname fi) w)"

definition p_rx_fclose ::
  "conf \<Rightarrow> req_processor \<Rightarrow> s_globals \<Rightarrow> s_protinfo \<Rightarrow> world \<Rightarrow> (int \<times> s_protinfo \<times> world) option" where
  "p_rx_fclose cf req g pi w =
     (case receiving pi of
        None \<Rightarrow> None
      | Some fi \<Rightarrow> Some
          (let (ok, w) = (case fi_fp fi of None \<Rightarrow> (True, w) | Some fp \<Rightarrow> file_close fp w);
               fi = fi\<lparr>fi_fp := None\<rparr>
           in if \<not> ok then (1, set_recv fi pi, w)
              else
                let w = rx_settle fi w;
                    pi = pi\<lparr>pi_traffic_rcvd := prot_traffic_update (pi_traffic_rcvd pi)
                              (fi_received fi - fi_skipped fi) 0 (fi_type fi)\<rparr>;
                    (fi, answers, w) =
                      (if fi_status fi = FSTAT_SUCCESS then rx_commit cf req g fi (pi_filelist pi) w
                       else (fi, pi_filelist pi, w))
                in (if fi_status fi = FSTAT_SUCCESS then 0 else 1, set_recv fi (pi\<lparr>pi_filelist := answers\<rparr>), w)))"

subsection \<open>Limits\<close>

definition cps_of :: "u64 \<Rightarrow> int \<Rightarrow> int" where
  "cps_of sz t = to_int (uint (sz div word_of_int (if t = 0 then 1 else t)))"

text \<open>The time since when one direction is too slow, and whether it has been so for too long.\<close>

definition low_cps :: "int \<Rightarrow> int \<Rightarrow> int \<Rightarrow> int \<Rightarrow> int \<Rightarrow> bool \<times> int" where
  "low_cps mincps mintime cps since t =
     (if mincps = 0 then (False, since)
      else if since \<noteq> 0 then
        (if cps < mincps then (t - since \<ge> mintime, since) else (False, 0))
      else if cps < mincps then (False, t) else (False, since))"

definition p_info :: "s_protinfo \<Rightarrow> bool \<Rightarrow> world \<Rightarrow> int \<times> s_protinfo" where
  "p_info pi bidir w =
     (let t = now w;
          (rc, tx_low, pi) =
            (case sending pi of
               None \<Rightarrow> (0, False, pi)
             | Some fi \<Rightarrow>
                 if fi_status fi \<noteq> FSTAT_PROCESS then (0, False, pi)
                 else
                   let tx_now = t - fi_start_time fi;
                       pi = pi\<lparr>pi_tx_cps := cps_of (fi_sent fi - fi_skipped fi) tx_now\<rparr>;
                       rc = (if pi_freq_timelimit pi > 0 \<and> has (fi_type fi) TYPE_REQANSW
                                \<and> pi_send_freqtime pi + tx_now > pi_freq_timelimit pi then PRC_STOPTIME else 0);
                       (low, since) = low_cps (pi_min_tx_cps pi) (pi_min_cps_time pi) (pi_tx_cps pi) (pi_tx_low_cps_time pi) t
                   in (rc, low, pi\<lparr>pi_tx_low_cps_time := since\<rparr>));
          (rx_low, pi) =
            (case receiving pi of
               None \<Rightarrow> (False, pi)
             | Some fi \<Rightarrow>
                 if fi_status fi \<noteq> FSTAT_PROCESS then (False, pi)
                 else
                   let rx_now = t - fi_start_time fi;
                       pi = pi\<lparr>pi_rx_cps := cps_of (fi_received fi - fi_skipped fi) rx_now\<rparr>;
                       (low, since) = low_cps (pi_min_rx_cps pi) (pi_min_cps_time pi) (pi_rx_cps pi) (pi_rx_low_cps_time pi) t
                   in (low, pi\<lparr>pi_rx_low_cps_time := since\<rparr>));
          rc = (if pi_stop_time pi \<noteq> 0 \<and> t \<ge> pi_stop_time pi then PRC_STOPTIME else rc);
          rc = (if tx_low \<and> (\<not> bidir \<or> rx_low) then PRC_CPSTOOLOW else rc);
          rc = (if rx_low \<and> (\<not> bidir \<or> tx_low) then PRC_CPSTOOLOW else rc)
      in (rc, pi))"

subsection \<open>The beginning and the end of a transfer\<close>

definition p_session_cleanup :: "s_protinfo \<Rightarrow> bool \<Rightarrow> world \<Rightarrow> world" where
  "p_session_cleanup pi success w =
     (let w = (if success then
                 fold (\<lambda>f w. if has (fi_type f) TYPE_REQUEST \<and> fi_status f = FSTAT_SUCCESS
                             then at_name unlink_file (fi_fname f) w else w) (pi_sentfiles pi) w
               else w)
      in fold (\<lambda>f w. if fl_action f = ACTION_FORCEUNLINK \<and> fl_status f \<noteq> STATUS_SENT
                     then snd (unlink_file (fl_fname f) w) else w) (pi_filelist pi) w)"

definition zero_protinfo :: s_protinfo where
  "zero_protinfo = \<lparr>pi_reqs_only = False, pi_stop_time = 0, pi_freq_timelimit = 0, pi_min_tx_cps = 0,
     pi_min_rx_cps = 0, pi_min_cps_time = 0, pi_buflen = 0, pi_filelist = [], pi_tx_cps = 0, pi_rx_cps = 0,
     pi_send_freqtime = 0, pi_tx_low_cps_time = 0, pi_rx_low_cps_time = 0, pi_start_time = 0,
     pi_traffic_sent = zero_traffic, pi_traffic_rcvd = zero_traffic, pi_send_left_size = 0, pi_recv_left_size = 0,
     pi_send_left_num = 0, pi_recv_left_num = 0, pi_send = None, pi_recv = None, pi_sentfiles = [], pi_rcvdfiles = []\<rparr>"

definition min_cps :: "conf \<Rightarrow> s_globals \<Rightarrow> string \<Rightarrow> string \<Rightarrow> string \<Rightarrow> int" where
  "min_cps cf g general zm hy =
     (let tmp = conf_number cf general in
      if tmp > 0 then tmp
      else
        let tmp = (if ses_protocol g \<in> {PROT_ZMODEM, PROT_ZEDZAP, PROT_DIRZAP} then conf_connlist cf zm (ses_connspeed g)
                   else if ses_protocol g = PROT_HYDRA then conf_connlist cf hy (ses_connspeed g) else 0)
        in if tmp > 0 then tmp else 0)"

definition init_protinfo :: "conf \<Rightarrow> s_globals \<Rightarrow> bool \<Rightarrow> world \<Rightarrow> s_protinfo" where
  "init_protinfo cf g caller w =
     (let buflen = (word_of_int (conf_number cf ''recv_buffer_size'') :: u64);
          mintime = conf_number cf ''min_cps_time'';
          sesslimit = conf_number cf (if caller then ''session_limit_out'' else ''session_limit_in'')
      in zero_protinfo\<lparr>
           pi_start_time := now w,
           pi_buflen := (if buflen > 0 then (buflen div 2048) * 2048 else 32768),
           pi_min_cps_time := (if mintime > 0 then mintime else 60),
           pi_stop_time := (if sesslimit > 0 then now w + sesslimit else 0),
           pi_min_tx_cps := min_cps cf g ''min_cps_send'' ''zmodem_mincps_send'' ''hydra_mincps_send'',
           pi_min_rx_cps := min_cps cf g ''min_cps_recv'' ''zmodem_mincps_recv'' ''hydra_mincps_recv''\<rparr>)"

definition deinit_finfo :: "s_finfo \<Rightarrow> world \<Rightarrow> world" where
  "deinit_finfo fi w = (case fi_fp fi of None \<Rightarrow> w | Some fp \<Rightarrow> snd (fclose fp w))"

definition deinit_protinfo :: "s_protinfo \<Rightarrow> world \<Rightarrow> s_protinfo \<times> world" where
  "deinit_protinfo pi w = (zero_protinfo, fold deinit_finfo (pi_rcvdfiles pi) (fold deinit_finfo (pi_sentfiles pi) w))"

end
