(* ===== verification/ProtProps.thy ===== *)
theory ProtProps
  imports ProtCommon
begin

text \<open>
  What the transfer of files keeps: the order of sending, its end, and the safety of the inbound, of
  the names in it and of the files that are sent.
\<close>

section \<open>The order of sending\<close>

definition one_kind :: "s_filelist \<Rightarrow> bool" where
  "one_kind f \<longleftrightarrow> (let n = has (fl_type f) TYPE_NETMAIL; a = has (fl_type f) TYPE_ARCMAIL; r = has (fl_type f) TYPE_REQUEST
     in \<not> (n \<and> a) \<and> \<not> (n \<and> r) \<and> \<not> (a \<and> r))"

text \<open>Netmail, arcmail, other files and requests, in this order; mail by its flavour.\<close>

definition send_rank :: "s_filelist \<Rightarrow> int" where
  "send_rank f =
     (if has (fl_type f) TYPE_NETMAIL then 3 else if has (fl_type f) TYPE_ARCMAIL then 2
      else if has (fl_type f) TYPE_REQUEST then 0 else 1)"

definition sent_before :: "s_filelist \<Rightarrow> s_filelist \<Rightarrow> bool" where
  "sent_before f b \<longleftrightarrow> send_rank f > send_rank b \<or> send_rank f = send_rank b \<and> send_rank f \<ge> 2 \<and> fl_flavor f > fl_flavor b"

lemma better_before: "one_kind f \<Longrightarrow> one_kind b \<Longrightarrow> better f b = sent_before f b"
  by (auto simp: better_def sent_before_def send_rank_def one_kind_def Let_def)

lemma sent_before_trans: "\<not> sent_before a b \<Longrightarrow> \<not> sent_before b c \<Longrightarrow> \<not> sent_before a c"
  by (auto simp: sent_before_def)

lemma sent_before_asym: "sent_before a b \<Longrightarrow> \<not> sent_before b a"
  by (auto simp: sent_before_def)

definition best_so_far :: "(nat \<times> s_filelist) list \<Rightarrow> (nat \<times> s_filelist) option \<Rightarrow> bool" where
  "best_so_far xs best \<longleftrightarrow>
     (case best of
        None \<Rightarrow> \<forall>x\<in>set xs. fl_status (snd x) \<noteq> STATUS_WILLSEND
      | Some b \<Rightarrow> b \<in> set xs \<and> (\<forall>x\<in>set xs. fl_status (snd x) = STATUS_WILLSEND \<longrightarrow> \<not> sent_before (snd x) (snd b)))"

lemma queue_step_simps:
  "fl_status (snd x) \<noteq> STATUS_WILLSEND \<Longrightarrow> queue_step x best = best"
  "fl_status (snd x) = STATUS_WILLSEND \<Longrightarrow> queue_step x None = Some x"
  "fl_status (snd x) = STATUS_WILLSEND \<Longrightarrow> queue_step x (Some b) = (if better (snd x) (snd b) then Some x else Some b)"
  by (simp_all add: queue_step_def)

lemma queue_best: "list_all (one_kind \<circ> snd) xs \<Longrightarrow> best_so_far xs (fold queue_step xs None)"
proof (induction xs rule: rev_induct)
  case (snoc x xs)
  let ?b = "fold queue_step xs None"
  from snoc have IH: "best_so_far xs ?b" and k: "list_all (one_kind \<circ> snd) xs" "one_kind (snd x)" by (auto simp: o_def)
  show ?case
  proof (cases "fl_status (snd x) = STATUS_WILLSEND")
    case False
    then have "fold queue_step (xs @ [x]) None = ?b" by (simp add: queue_step_simps)
    with IH False show ?thesis by (cases ?b) (auto simp: best_so_far_def simp del: fold_append)
  next
    case True
    show ?thesis
    proof (cases ?b)
      case None
      with IH True sent_before_asym [of "snd x" "snd x"] show ?thesis by (auto simp: best_so_far_def queue_step_simps)
    next
      case (Some b)
      with IH k have b: "b \<in> set xs" "one_kind (snd b)"
        "\<forall>y\<in>set xs. fl_status (snd y) = STATUS_WILLSEND \<longrightarrow> \<not> sent_before (snd y) (snd b)"
        by (auto simp: best_so_far_def list_all_iff)
      show ?thesis
      proof (cases "sent_before (snd x) (snd b)")
        case True
        then have "\<not> sent_before (snd b) (snd x)" "\<not> sent_before (snd x) (snd x)" using sent_before_asym by blast+
        with b(3) have "\<forall>y\<in>set (xs @ [x]). fl_status (snd y) = STATUS_WILLSEND \<longrightarrow> \<not> sent_before (snd y) (snd x)"
          using sent_before_trans [of _ "snd b" "snd x"] by simp
        with True \<open>fl_status (snd x) = STATUS_WILLSEND\<close> show ?thesis
          by (simp add: best_so_far_def queue_step_simps Some better_before k(2) b(2))
      next
        case False
        with b \<open>fl_status (snd x) = STATUS_WILLSEND\<close> show ?thesis
          by (simp add: best_so_far_def queue_step_simps Some better_before k(2) b(2))
      qed
    qed
  qed
qed (simp add: best_so_far_def)

text \<open>
  C23: The next file of the queue is a file that still has to be sent, and no other such file goes
  before it: netmail before arcmail before other files before requests, and mail of the greatest
  flavour first. When only answers to requests are left, nothing of the queue has to be sent.
\<close>

theorem next_file_priority:
  assumes "list_all one_kind q" "\<not> pi_reqs_only pi"
  shows "case prot_get_next_file q pi of
      Queued i \<Rightarrow> i < length q \<and> fl_status (q ! i) = STATUS_WILLSEND
        \<and> list_all (\<lambda>f. fl_status f = STATUS_WILLSEND \<longrightarrow> \<not> sent_before f (q ! i)) q
    | _ \<Rightarrow> list_all (\<lambda>f. fl_status f \<noteq> STATUS_WILLSEND) q"
proof -
  have e: "set (enumerate 0 q) = {(i, q ! i) |i. i < length q}" by (auto simp: in_set_enumerate_eq)
  have "list_all (one_kind \<circ> snd) (enumerate 0 q)" using assms(1) e by (auto simp: list_all_iff)
  from queue_best [OF this] have b: "best_so_far (enumerate 0 q) (fold queue_step (enumerate 0 q) None)" .
  have all: "(\<forall>x\<in>set (enumerate 0 q). P (snd x)) = list_all P q" for P
    unfolding e list_all_iff by (force simp: in_set_conv_nth)
  show ?thesis
  proof (cases "fold queue_step (enumerate 0 q) None")
    case None
    with b all [of "\<lambda>f. fl_status f \<noteq> STATUS_WILLSEND"] assms(2) show ?thesis
      by (auto simp: prot_get_next_file_def best_so_far_def split: option.split)
  next
    case (Some x)
    then have x: "prot_get_next_file q pi = Queued (fst x)" using assms(2) by (simp add: prot_get_next_file_def)
    have "x \<in> set (enumerate 0 q)" using b Some by (simp add: best_so_far_def)
    then have "q ! fst x = snd x" using e by auto
    with b Some all [of "\<lambda>f. fl_status f = STATUS_WILLSEND \<longrightarrow> \<not> sent_before f (snd x)"] next_file_queued [OF x] x
    show ?thesis by (simp add: best_so_far_def)
  qed
qed

definition example_file :: "u16 \<Rightarrow> int \<Rightarrow> s_filelist" where
  "example_file type flavor = \<lparr>fl_fname = ''/o/f'', fl_size = 0, fl_type = type, fl_status = STATUS_WILLSEND,
     fl_action = ACTION_NOTHING, fl_flavor = flavor, fl_flodsc = -1\<rparr>"

theorem next_file_priority_witness:
  "case prot_get_next_file [example_file TYPE_REQUEST 2, example_file TYPE_ARCMAIL 2, example_file TYPE_ARCMAIL 16] zero_protinfo of
      Queued i \<Rightarrow> i < length [example_file TYPE_REQUEST 2, example_file TYPE_ARCMAIL 2, example_file TYPE_ARCMAIL 16]
        \<and> fl_status ([example_file TYPE_REQUEST 2, example_file TYPE_ARCMAIL 2, example_file TYPE_ARCMAIL 16] ! i) = STATUS_WILLSEND
        \<and> list_all (\<lambda>f. fl_status f = STATUS_WILLSEND
              \<longrightarrow> \<not> sent_before f ([example_file TYPE_REQUEST 2, example_file TYPE_ARCMAIL 2, example_file TYPE_ARCMAIL 16] ! i))
            [example_file TYPE_REQUEST 2, example_file TYPE_ARCMAIL 2, example_file TYPE_ARCMAIL 16]
    | _ \<Rightarrow> list_all (\<lambda>f. fl_status f \<noteq> STATUS_WILLSEND)
        [example_file TYPE_REQUEST 2, example_file TYPE_ARCMAIL 2, example_file TYPE_ARCMAIL 16]"
  by (rule next_file_priority)
    (simp_all add: one_kind_def example_file_def has_def TYPE_REQUEST_def TYPE_ARCMAIL_def TYPE_NETMAIL_def zero_protinfo_def)

section \<open>Sending ends\<close>

lemma tx_open_less:
  "tx_open_next cf g pi w = (rc, g', pi', w') \<Longrightarrow>
    (rc = 0 \<and> left_to_send g' pi' < left_to_send g pi) \<or> (rc = 1 \<and> left_to_send g' pi' \<le> left_to_send g pi)"
proof (induction cf g pi w arbitrary: rc g' pi' w' rule: tx_open_next.induct)
  case (1 cf g pi w)
  let ?nf = "prot_get_next_file (fslist (ses_queue g)) pi"
  let ?f = "next_entry ?nf g pi"
  show ?case
  proof (cases "?nf = No_file")
    case True
    with "1.prems" show ?thesis by (subst (asm) tx_open_next.simps) (simp add: Let_def)
  next
    case False
    obtain g1 pi1 where m: "mark_sending ?nf g pi = (g1, pi1)" by fastforce
    let ?pi1 = "count_left ?f pi1"
    have less: "left_to_send g1 ?pi1 < left_to_send g pi" using mark_sending_less [OF m False] by simp
    show ?thesis
    proof (cases "stat (fl_fname ?f) w")
      case None
      then have "tx_open_next cf g1 ?pi1 w = (rc, g', pi', w')"
        using "1.prems" False m by (subst (asm) tx_open_next.simps) (simp add: Let_def)
      from "1.IH"(1) [OF refl False refl m [symmetric] refl None this] less show ?thesis by linarith
    next
      case (Some st)
      obtain r w1 where o: "file_open (fl_fname ?f) Mode_r w = (r, w1)" by fastforce
      show ?thesis
      proof (cases r)
        case None
        then have "tx_open_next cf g1 ?pi1 w1 = (rc, g', pi', w')"
          using "1.prems" False m Some o by (subst (asm) tx_open_next.simps) (simp add: Let_def)
        from "1.IH"(2) [OF refl False refl m [symmetric] refl Some o [symmetric] None this] less
        show ?thesis by linarith
      next
        case fp: (Some fp)
        obtain fi g2 w2 where t: "tx_entry cf ?f st fp g1 w1 = (fi, g2, w2)" by (metis prod_cases3)
        then have q: "ses_queue g2 = ses_queue g1" by (auto simp: tx_entry_def Let_def split: prod.splits)
        have r: "rc = 0 \<and> g' = g2 \<and> pi_filelist pi' = pi_filelist ?pi1"
          using "1.prems" False m Some o fp t by (subst (asm) tx_open_next.simps) (auto simp: Let_def)
        then have "left_to_send g' pi' = left_to_send g1 ?pi1" by (simp add: left_to_send_def q)
        with r less show ?thesis by simp
      qed
    qed
  qed
qed

lemma p_tx_fopen_less:
  assumes "p_tx_fopen cf None g pi w = (rc, g', pi', w')"
  shows "(rc = 0 \<and> left_to_send g' pi' < left_to_send g pi) \<or> (rc = 1 \<and> left_to_send g' pi' \<le> left_to_send g pi)"
  using assms tx_open_less by (auto simp: p_tx_fopen_def split: if_splits)

text \<open>Opening one file after the other, with anything in between that queues no new files.\<close>

primrec nth_open ::
  "conf \<Rightarrow> (nat \<Rightarrow> s_globals \<times> s_protinfo \<times> world \<Rightarrow> s_globals \<times> s_protinfo \<times> world) \<Rightarrow>
    s_globals \<times> s_protinfo \<times> world \<Rightarrow> nat \<Rightarrow> s_globals \<times> s_protinfo \<times> world" where
  "nth_open cf between st 0 = st"
| "nth_open cf between st (Suc n) =
     (case nth_open cf between st n of (g, pi, w) \<Rightarrow> between n (snd (p_tx_fopen cf None g pi w)))"

definition unsent :: "s_globals \<times> s_protinfo \<times> world \<Rightarrow> nat" where
  "unsent st = (case st of (g, pi, w) \<Rightarrow> left_to_send g pi)"

text \<open>
  C22: A sender comes to the end of its files. However the files change in between, after at most as
  many successful openings as files were waiting \<open>p_tx_fopen\<close> reports that nothing is left to send.
\<close>

theorem sending_ends:
  assumes "\<And>n st. unsent (between n st) \<le> unsent st"
  shows "\<exists>n\<le>unsent st. case nth_open cf between st n of (g, pi, w) \<Rightarrow> fst (p_tx_fopen cf None g pi w) = 1"
proof (rule ccontr)
  let ?at = "nth_open cf between st"
  assume a: "\<not> ?thesis"
  have "unsent (?at n) + n \<le> unsent st" if "n \<le> unsent st + 1" for n
    using that
  proof (induction n)
    case (Suc n)
    obtain g pi w where s: "?at n = (g, pi, w)" by (metis prod_cases3)
    obtain rc g' pi' w' where o: "p_tx_fopen cf None g pi w = (rc, g', pi', w')" by (metis prod_cases4)
    have "n \<le> unsent st" using Suc.prems by simp
    with a s o have "rc \<noteq> 1" by auto
    then have "left_to_send g' pi' < left_to_send g pi" using p_tx_fopen_less [OF o] by auto
    moreover have "unsent (between n (g', pi', w')) \<le> left_to_send g' pi'"
      using assms [of n "(g', pi', w')"] by (simp add: unsent_def)
    moreover have "?at (Suc n) = between n (g', pi', w')" using s o by simp
    moreover have "unsent (?at n) = left_to_send g pi" using s by (simp add: unsent_def)
    ultimately show ?case using Suc by simp
  qed simp
  from this [of "unsent st + 1"] show False by simp
qed

definition example_globals :: s_globals where
  "example_globals = s_state.extend init_state \<lparr>recode_table_in = recode_init, recode_table_out = recode_init\<rparr>"

theorem sending_ends_witness:
  "\<exists>n\<le>unsent (example_globals\<lparr>ses_queue := \<lparr>flotab = [], fslist = [example_file TYPE_REQUEST 2]\<rparr>\<rparr>, zero_protinfo, stat_world).
     case nth_open stat_conf (\<lambda>n st. st)
       (example_globals\<lparr>ses_queue := \<lparr>flotab = [], fslist = [example_file TYPE_REQUEST 2]\<rparr>\<rparr>, zero_protinfo, stat_world) n
     of (g, pi, w) \<Rightarrow> fst (p_tx_fopen stat_conf None g pi w) = 1"
  by (rule sending_ends) simp

section \<open>The inbound\<close>

text \<open>The same names for the same contents, whatever happened to times and permissions.\<close>

definition same_data :: "world \<Rightarrow> world \<Rightarrow> bool" where
  "same_data w v \<longleftrightarrow> dir v = dir w \<and> (\<forall>i. content (inode v i) = content (inode w i))"

lemma same_data_refl [simp]: "same_data w w"
  by (simp add: same_data_def)

lemma same_data_trans: "same_data u v \<Longrightarrow> same_data v w \<Longrightarrow> same_data u w"
  by (simp add: same_data_def)

lemma same_files_data: "same_files w v \<Longrightarrow> same_data w v"
  by (simp add: same_data_def same_files_def)

lemma set_file_data: "(\<And>f. content (h f) = content f) \<Longrightarrow> same_data w (snd (set_file p h w))"
  by (auto simp: same_data_def set_file_def set_inode_def syscall_def split: option.split)

lemma set_meta_data [simp]:
  "same_data w (snd (set_file p (\<lambda>f. f\<lparr>fmode := m\<rparr>) w))" "same_data w (snd (set_file p (\<lambda>f. f\<lparr>mtime := t\<rparr>) w))"
  by (simp_all add: set_file_data)

lemma rand_same: "same_files w (snd (rand w))"
  by (simp add: rand_def same_files_def)

lemma random_name_fresh:
  "random_name n d ext w = (r, v) \<Longrightarrow> same_files w v \<and> (case r of None \<Rightarrow> True | Some q \<Rightarrow> \<not> exists q w)"
proof (induction n arbitrary: w)
  case 0
  then show ?case using rand_same [of w] by auto
next
  case (Suc n)
  obtain k u where k: "rand w = (k, u)" by fastforce
  have u: "same_files w u" using rand_same [of w] k by simp
  then have e: "exists q u = exists q w" for q by (simp add: exists_def same_files_def)
  show ?case
  proof (cases "exists (d @ pad0 8 (hex k) @ ''.'' @ ext) u")
    case True
    with Suc.prems k have "random_name n d ext u = (r, v)" by simp
    from Suc.IH [OF this] show ?thesis using same_files_trans [OF u] e by (auto split: option.splits)
  next
    case False
    with Suc.prems k have "r = Some (d @ pad0 8 (hex k) @ ''.'' @ ext)" "v = u" by auto
    with False u e show ?thesis by simp
  qed
qed

lemma rotate_name_fresh: "rotate_name n s p w = Some q \<Longrightarrow> \<not> exists q w"
  by (induction n arbitrary: s p) (auto simp: Let_def split: option.splits if_splits)

lemma number_name_fresh: "number_name n k s w = Some q \<Longrightarrow> \<not> exists q w"
  by (induction n arbitrary: k) (auto split: if_splits)

lemma unique_name_fresh:
  assumes "prot_unique_name d f type w = (r, v)" "\<not> has type TYPE_REQUEST"
  shows "same_files w v \<and> (case r of None \<Rightarrow> True | Some q \<Rightarrow> \<not> exists q w)"
proof (cases "has type TYPE_NETMAIL \<or> has type TYPE_TICFILE")
  case True
  then show ?thesis using assms random_name_fresh by (simp add: prot_unique_name_def)
next
  case False
  then show ?thesis
    using assms rotate_name_fresh number_name_fresh
    by (auto simp: prot_unique_name_def Let_def split: if_splits option.splits)
qed

text \<open>A file is moved to a name that was free, or stays where it is.\<close>

lemma move2inbound_outcome:
  assumes "p_move2inbound cf g fi w = (ok, v)" "\<not> has (fi_type fi) TYPE_REQUEST"
  shows "(\<forall>i. content (inode v i) = content (inode w i)) \<and>
    (if ok then \<exists>F q. fi_fname fi = Some F \<and> exists F w \<and> \<not> exists q w \<and> dir v = (dir w)(F := None, q := dir w F)
     else dir v = dir w)"
proof (cases "ses_inbound g")
  case None
  with assms(1) show ?thesis by (auto simp: p_move2inbound_def)
next
  case (Some inb)
  let ?real = "inb @ fi_local_name fi"
  obtain d u where d: "(if \<not> exists ?real w then (Some ?real, w)
      else prot_unique_name inb (fi_local_name fi) (fi_type fi) w) = (d, u)" by fastforce
  then have u: "same_files w u" and fresh: "case d of None \<Rightarrow> True | Some q \<Rightarrow> \<not> exists q w"
    using unique_name_fresh [OF _ assms(2)] by (auto split: if_splits)
  show ?thesis
  proof (cases "d = None \<or> fi_fname fi = None")
    case True
    then have "ok = False" "v = u" using assms(1) Some d by (auto simp: p_move2inbound_def Let_def split: option.splits)
    with u show ?thesis by (simp add: same_files_def)
  next
    case False
    then obtain q F where q: "d = Some q" "fi_fname fi = Some F" by auto
    obtain ok' t where r: "rename_file F q u = (ok', t)" by fastforce
    have m: "(ok, v) = (if \<not> ok' then (False, t) else (True, snd (set_file q (\<lambda>f. f\<lparr>fmode := inbound_mode cf (fi_type fi)\<rparr>) t)))"
      using assms(1) Some d q r by (simp add: p_move2inbound_def Let_def)
    have rn: "inode t = inode u \<and> (if ok' then exists F u \<and> dir t = (dir u)(F := None, q := dir u F) else dir t = dir u)"
      using r by (auto simp: rename_file_def syscall_def exists_def split: if_splits)
    have "same_data t v" using m by (auto split: if_splits)
    with m rn u fresh q show ?thesis
      by (auto simp: same_data_def same_files_def exists_def split: if_splits)
  qed
qed

lemma at_name_unlink: "dir (at_name unlink_file name w) = dir w \<or> (\<exists>F. name = Some F \<and> dir (at_name unlink_file name w) = (dir w)(F := None))"
  "inode (at_name unlink_file name w) = inode w"
  by (auto simp: at_name_def unlink_file_def syscall_def split: option.split)

lemma at_name_data: "(\<And>n v. same_data v (snd (f n v))) \<Longrightarrow> same_data w (at_name f name w)"
  by (simp add: at_name_def split: option.split)

lemma rx_settle_data: "fi_status fi \<noteq> FSTAT_SKIPPED \<Longrightarrow> same_data w (rx_settle fi w)"
proof -
  assume n: "fi_status fi \<noteq> FSTAT_SKIPPED"
  define v where "v = (if fi_mod_time fi \<noteq> 0
    then at_name (\<lambda>n w. set_file n (\<lambda>f. f\<lparr>mtime := gmttolocal (gmtoff w) (fi_mod_time fi)\<rparr>) w) (fi_fname fi) w else w)"
  have 1: "same_data w v" unfolding v_def by (simp add: at_name_data)
  have 2: "same_data v (at_name (\<lambda>n w. set_file n (\<lambda>f. f\<lparr>fmode := 384\<rparr>) w) (fi_fname fi) v)"
    by (rule at_name_data) simp
  have "rx_settle fi w = at_name (\<lambda>n w. set_file n (\<lambda>f. f\<lparr>fmode := 384\<rparr>) w) (fi_fname fi) v"
    using n by (simp add: rx_settle_def Let_def v_def)
  then show ?thesis using same_data_trans [OF 1 2] by simp
qed

text \<open>What closing a received file may do to the files; \<open>F\<close> is its temporary name.\<close>

definition rx_outcome :: "s_finfo \<Rightarrow> int \<Rightarrow> world \<Rightarrow> world \<Rightarrow> bool" where
  "rx_outcome fi rc w v \<longleftrightarrow>
     (\<forall>i. content (inode v i) = content (inode w i))
     \<and> (\<forall>p. exists p w \<and> Some p \<noteq> fi_fname fi \<longrightarrow> dir v p = dir w p)
     \<and> (\<forall>q i. \<not> exists q w \<and> dir v q = Some i \<longrightarrow>
          rc = 0 \<and> fi_status fi = FSTAT_SUCCESS \<and> (\<exists>F. fi_fname fi = Some F \<and> dir w F = Some i)
          \<and> word_of_nat (length (content (inode w i))) = fi_total fi)"

lemma rx_outcome_start:
  "same_data w v \<Longrightarrow> fi_fname fi' = fi_fname fi \<Longrightarrow> fi_status fi' = fi_status fi \<Longrightarrow> fi_total fi' = fi_total fi \<Longrightarrow>
    rx_outcome fi' rc v u \<Longrightarrow> rx_outcome fi rc w u"
  by (simp add: rx_outcome_def same_data_def exists_def)

lemma rx_outcome_same: "same_data w v \<Longrightarrow> rx_outcome fi rc w v"
  by (auto simp: rx_outcome_def same_data_def exists_def)

lemma rx_commit_outcome:
  assumes "rx_commit cf req g fi answers w = (fi', answers', v)" "\<not> has (fi_type fi) TYPE_REQUEST"
    "fi_status fi = FSTAT_SUCCESS"
  shows "rx_outcome fi (if fi_status fi' = FSTAT_SUCCESS then 0 else 1) w v"
proof (cases "Option.bind (fi_fname fi) (\<lambda>f. stat f w)")
  case None
  then show ?thesis using assms(1) rx_outcome_same [of w w] by (auto simp: rx_commit_def)
next
  case (Some st)
  then obtain F i where F: "fi_fname fi = Some F" "dir w F = Some i" "st = inode w i"
    by (cases "fi_fname fi") (auto simp: stat_def)
  show ?thesis
  proof (cases "word_of_nat (length (content st)) = fi_total fi")
    case False
    then show ?thesis using assms(1) Some rx_outcome_same [of w w] by (auto simp: rx_commit_def)
  next
    case len: True
    obtain ok u where m: "p_move2inbound cf g fi w = (ok, u)" by fastforce
    have r: "v = u \<and> fi_status fi' = (if ok then FSTAT_SUCCESS else FSTAT_REFUSED)"
      using assms Some len m by (auto simp: rx_commit_def)
    show ?thesis
      using move2inbound_outcome [OF m assms(2)] r F len assms(3)
      by (cases ok) (auto simp: rx_outcome_def exists_def split: if_splits)
  qed
qed

text \<open>
  C20: The inbound is safe. Closing a received file that is no file request changes the contents of no
  file, replaces no file that was there (other than the temporary one itself), and puts a file under a
  new name only if the transfer was a success and the temporary file has exactly the length that was
  announced; that name then holds what the temporary name held, and zero is returned.
\<close>

theorem inbound_safe:
  assumes "receiving pi = Some fi" "\<not> has (fi_type fi) TYPE_REQUEST"
    "p_rx_fclose cf req g pi w = Some (rc, pi', v)"
  shows "rx_outcome fi rc w v"
proof -
  obtain ok w1 where c: "(case fi_fp fi of None \<Rightarrow> (True, w) | Some fp \<Rightarrow> file_close fp w) = (ok, w1)" by fastforce
  let ?fi = "fi\<lparr>fi_fp := None\<rparr>"
  have "same_files w w1" using c file_close_same [of w] by (auto split: option.splits) (metis snd_conv)
  then have 1: "same_data w w1" by (rule same_files_data)
  show ?thesis
  proof (cases ok)
    case False
    then have "v = w1" using assms(1,3) c by (simp add: p_rx_fclose_def)
    with 1 show ?thesis using rx_outcome_same by blast
  next
    case True
    define w2 where "w2 = rx_settle ?fi w1"
    obtain fi2 answers w3 where r: "(if fi_status fi = FSTAT_SUCCESS then rx_commit cf req g ?fi (pi_filelist pi) w2
       else (?fi, pi_filelist pi, w2)) = (fi2, answers, w3)" by (metis prod_cases3)
    have res: "v = w3" "rc = (if fi_status fi2 = FSTAT_SUCCESS then 0 else 1)"
      using assms(1,3) c True r by (cases "fi_status fi = FSTAT_SUCCESS"; auto simp: p_rx_fclose_def Let_def w2_def)+
    show ?thesis
    proof (cases "fi_status fi = FSTAT_SKIPPED")
      case True
      then have "v = at_name unlink_file (fi_fname fi) w1" using res r by (simp add: w2_def rx_settle_def)
      then have "inode v = inode w1 \<and> (dir v = dir w1 \<or> (\<exists>F. fi_fname fi = Some F \<and> dir v = (dir w1)(F := None)))"
        using at_name_unlink [of "fi_fname fi" w1] by simp
      with 1 show ?thesis by (auto simp: rx_outcome_def same_data_def exists_def split: if_splits)
    next
      case False
      then have w2: "same_data w w2"
        using same_data_trans [OF 1 rx_settle_data [of ?fi w1]] by (simp add: w2_def)
      show ?thesis
      proof (cases "fi_status fi = FSTAT_SUCCESS")
        case True
        with r have "rx_commit cf req g ?fi (pi_filelist pi) w2 = (fi2, answers, w3)" by simp
        from rx_commit_outcome [OF this] assms(2) True res
        have "rx_outcome ?fi rc w2 v" by simp
        then show ?thesis using rx_outcome_start [OF w2, of ?fi fi] by simp
      next
        case no: False
        with r res have "v = w2" by simp
        with w2 show ?thesis using rx_outcome_same by blast
      qed
    qed
  qed
qed

definition example_recv :: s_finfo where
  "example_recv = \<lparr>fi_fp = None, fi_local_name = ''f.zip'', fi_net_name = ''f.zip'', fi_fname = Some ''/t/f.zip.1'',
     fi_start_time = 0, fi_mod_time = 0, fi_mode = 0, fi_total = 2, fi_sent = 0, fi_received = 2, fi_skipped = 0,
     fi_eofseen = False, fi_status = FSTAT_SUCCESS, fi_action = ACTION_NOTHING, fi_type = TYPE_UNKNOWN, fi_flodsc = 0,
     fi_waitack = False, fi_netspool = False\<rparr>"

definition example_recv_world :: world where
  "example_recv_world = stat_world\<lparr>dir := [''/t/f.zip.1'' \<mapsto> 0],
     inode := (\<lambda>_. \<lparr>content = ''ab'', mtime = 0, fmode = 0, is_dir = False\<rparr>)\<rparr>"

theorem inbound_safe_witness:
  "case the (p_rx_fclose stat_conf (\<lambda>_ l w. (l, w)) (example_globals\<lparr>ses_inbound := Some ''/i/''\<rparr>)
      (zero_protinfo\<lparr>pi_recv := Some 0, pi_rcvdfiles := [example_recv]\<rparr>) example_recv_world) of
    (rc, _, v) \<Rightarrow> rx_outcome example_recv rc example_recv_world v"
proof -
  let ?pi = "zero_protinfo\<lparr>pi_recv := Some 0, pi_rcvdfiles := [example_recv]\<rparr>"
  let ?r = "p_rx_fclose stat_conf (\<lambda>_ l w. (l, w)) (example_globals\<lparr>ses_inbound := Some ''/i/''\<rparr>) ?pi example_recv_world"
  have r: "receiving ?pi = Some example_recv" by (simp add: receiving_def)
  then obtain rc pi' v where e: "?r = Some (rc, pi', v)" by (cases ?r) (auto simp: p_rx_fclose_def)
  have "\<not> has (fi_type example_recv) TYPE_REQUEST" by (simp add: has_def example_recv_def TYPE_UNKNOWN_def)
  from inbound_safe [OF r this e] e show ?thesis by simp
qed

section \<open>Well-formed tables\<close>

text \<open>
  The indices of the file being sent and of the file being received are indices, and the names of
  received files are made of safe characters only; so none has a separator in it.
\<close>

definition protinfo_ok :: "s_protinfo \<Rightarrow> bool" where
  "protinfo_ok pi \<longleftrightarrow>
     (case pi_send pi of None \<Rightarrow> True | Some i \<Rightarrow> i < length (pi_sentfiles pi))
     \<and> (case pi_recv pi of None \<Rightarrow> True | Some i \<Rightarrow> i < length (pi_rcvdfiles pi))
     \<and> list_all (\<lambda>f. list_all file_name_issafe (fi_local_name f)) (pi_rcvdfiles pi)"

lemma safe_tolower: "file_name_issafe c \<Longrightarrow> file_name_issafe (tolower c)"
  by (auto simp: file_name_issafe_def tolower_def isupper_def)

lemma underscore_safe: "file_name_issafe (CHR ''_'')"
  by (simp add: file_name_issafe_def)

lemma rx_local_name_safe: "list_all file_name_issafe (rx_local_name cf name)"
proof -
  have "list_all file_name_issafe (file_name_makesafe name)"
    using underscore_safe by (auto simp: file_name_makesafe_def list_all_iff)
  then show ?thesis
    by (auto simp: rx_local_name_def Let_def string_tolower_def list_all_iff safe_tolower)
qed

lemma separator_unsafe: "\<not> file_name_issafe (CHR ''/'')"
  by (simp add: file_name_issafe_def)

lemma no_separator: "list_all file_name_issafe s \<Longrightarrow> CHR ''/'' \<notin> set s"
  using separator_unsafe by (auto simp: list_all_iff)

lemma set_send_ok: "protinfo_ok pi \<Longrightarrow> protinfo_ok (set_send fi pi)"
  by (auto simp: protinfo_ok_def set_send_def split: option.splits)

lemma list_all_update: "list_all P xs \<Longrightarrow> P x \<Longrightarrow> list_all P (xs[i := x])"
  using set_update_subset_insert [of xs i x] by (auto simp: list_all_iff)

lemma receiving_safe: "protinfo_ok pi \<Longrightarrow> receiving pi = Some fi \<Longrightarrow> list_all file_name_issafe (fi_local_name fi)"
  by (auto simp: protinfo_ok_def receiving_def list_all_iff split: option.splits)

lemma set_recv_ok:
  "protinfo_ok pi \<Longrightarrow> list_all file_name_issafe (fi_local_name fi) \<Longrightarrow> protinfo_ok (set_recv fi pi)"
  by (auto simp: protinfo_ok_def set_recv_def intro: list_all_update split: option.splits)

lemma protinfo_ok_update [simp]:
  "protinfo_ok (pi\<lparr>pi_filelist := x1\<rparr>) = protinfo_ok pi" "protinfo_ok (pi\<lparr>pi_traffic_rcvd := x2\<rparr>) = protinfo_ok pi"
  "protinfo_ok (pi\<lparr>pi_traffic_sent := x3\<rparr>) = protinfo_ok pi" "protinfo_ok (pi\<lparr>pi_send_freqtime := x4\<rparr>) = protinfo_ok pi"
  "protinfo_ok (pi\<lparr>pi_tx_cps := x5\<rparr>) = protinfo_ok pi" "protinfo_ok (pi\<lparr>pi_rx_cps := x6\<rparr>) = protinfo_ok pi"
  "protinfo_ok (pi\<lparr>pi_tx_low_cps_time := x7\<rparr>) = protinfo_ok pi" "protinfo_ok (pi\<lparr>pi_rx_low_cps_time := x8\<rparr>) = protinfo_ok pi"
  "protinfo_ok (pi\<lparr>pi_send_left_num := x9\<rparr>) = protinfo_ok pi" "protinfo_ok (pi\<lparr>pi_send_left_size := x10\<rparr>) = protinfo_ok pi"
  by (simp_all add: protinfo_ok_def cong: option.case_cong)

lemma tx_open_ok: "protinfo_ok pi \<Longrightarrow> protinfo_ok (fst (snd (snd (tx_open_next cf g pi w))))"
proof (induction cf g pi w rule: tx_open_next.induct)
  case (1 cf g pi w)
  let ?nf = "prot_get_next_file (fslist (ses_queue g)) pi"
  let ?f = "next_entry ?nf g pi"
  show ?case
  proof (cases "?nf = No_file")
    case True
    with "1.prems" show ?thesis by (subst tx_open_next.simps) (simp add: Let_def)
  next
    case False
    obtain g1 pi1 where m: "mark_sending ?nf g pi = (g1, pi1)" by fastforce
    have ok: "protinfo_ok (count_left ?f pi1)"
      using "1.prems" m by (auto simp: mark_sending_def count_left_def split: next_file.splits)
    show ?thesis
    proof (cases "stat (fl_fname ?f) w")
      case None
      from "1.IH"(1) [OF refl False refl m [symmetric] refl None ok] show ?thesis
        using False m None by (subst tx_open_next.simps) (simp add: Let_def)
    next
      case (Some st)
      obtain r w1 where o: "file_open (fl_fname ?f) Mode_r w = (r, w1)" by fastforce
      show ?thesis
      proof (cases r)
        case None
        from "1.IH"(2) [OF refl False refl m [symmetric] refl Some o [symmetric] None ok] show ?thesis
          using False m Some o None by (subst tx_open_next.simps) (simp add: Let_def)
      next
        case fp: (Some fp)
        have "protinfo_ok (pi2\<lparr>pi_tx_low_cps_time := 0, pi_send := Some (length (pi_sentfiles pi2)), pi_sentfiles := pi_sentfiles pi2 @ [fi]\<rparr>)"
          if "protinfo_ok pi2" for pi2 fi using that by (simp add: protinfo_ok_def split: option.splits)
        from this [OF ok] show ?thesis
          using False m Some o fp by (subst tx_open_next.simps) (simp add: Let_def split: prod.split)
      qed
    qed
  qed
qed

lemma p_tx_fopen_ok: "protinfo_ok pi \<Longrightarrow> protinfo_ok (fst (snd (snd (p_tx_fopen cf hint g pi w))))"
proof -
  assume ok: "protinfo_ok pi"
  have "protinfo_ok (snd (tx_hinted h pi))" for h
  proof (cases "snd (tx_hinted h pi) = pi")
    case False
    then obtain i where i: "first_index (\<lambda>f. fi_net_name f = hint_fn h \<and> fi_total f = hint_sz h \<and> fi_mod_time f = hint_tm h)
        (pi_sentfiles pi) = Some i" "fi_fp (pi_sentfiles pi ! i) \<noteq> None"
      by (auto simp: tx_hinted_def split: option.splits if_splits)
    have "protinfo_ok (pi\<lparr>pi_send := Some i\<rparr>)"
      using ok first_index_some [OF i(1)] by (simp add: protinfo_ok_def cong: option.case_cong)
    with i show ?thesis by (auto simp: tx_hinted_def Let_def intro: set_send_ok)
  qed (simp add: ok)
  with ok tx_open_ok [OF ok] show ?thesis by (simp add: p_tx_fopen_def split: option.split prod.split) (metis snd_conv)
qed

lemma p_tx_fclose_ok: "protinfo_ok pi \<Longrightarrow> protinfo_ok (fst (snd (p_tx_fclose cf g pi w)))"
proof -
  assume ok: "protinfo_ok pi"
  have "protinfo_ok (pi'\<lparr>pi_send := None\<rparr>)" if "protinfo_ok pi'" for pi'
    using that by (simp add: protinfo_ok_def cong: option.case_cong)
  then show ?thesis using ok by (auto simp: p_tx_fclose_def Let_def set_send_ok split: option.split)
qed

lemma p_tx_read_ok: "protinfo_ok pi \<Longrightarrow> p_tx_readfile n pi w = Some (rc, d, pi', w') \<Longrightarrow> protinfo_ok pi'"
  by (auto simp: p_tx_readfile_def Let_def set_send_ok split: option.splits prod.splits if_splits)

lemma p_tx_rewind_ok: "protinfo_ok pi \<Longrightarrow> protinfo_ok (fst (snd (p_tx_rewind pi n w)))"
  by (auto simp: p_tx_rewind_def set_send_ok split: option.splits prod.splits)

lemma p_rx_write_ok: "protinfo_ok pi \<Longrightarrow> p_rx_writefile d pi w = Some (rc, pi', w') \<Longrightarrow> protinfo_ok pi'"
  by (auto simp: p_rx_writefile_def Let_def receiving_safe set_recv_ok split: option.splits prod.splits if_splits)

lemma rx_open_name: "fi_local_name (fst (snd (rx_open cf g a fi w))) = fi_local_name fi"
  by (auto simp: rx_open_def Let_def split: option.split prod.split)

lemma rx_temporary_name: "fi_local_name (fst (snd (rx_temporary cf g fi w))) = fi_local_name fi"
  by (auto simp: rx_temporary_def rx_open_name split: option.split prod.split)

lemma rx_check_name: "fi_local_name (fst (snd (rx_check cf g fi w))) = fi_local_name fi"
  by (auto simp: rx_check_def Let_def rx_open_name rx_temporary_name split: option.split)

lemma p_rx_fopen_ok: "protinfo_ok pi \<Longrightarrow> protinfo_ok (fst (snd (snd (p_rx_fopen cf fn sz tm md g pi w))))"
proof (cases "rx_repeated pi fn sz tm")
  case None
  assume ok: "protinfo_ok pi"
  obtain fi g1 w1 where e: "rx_entry cf fn sz tm md g w = (fi, g1, w1)" by (metis prod_cases3)
  obtain rc fi2 w2 where c: "rx_check cf g1 fi w1 = (rc, fi2, w2)" by (metis prod_cases3)
  have "list_all file_name_issafe (fi_local_name fi)"
    using e by (auto simp: rx_entry_def rx_local_name_safe split: prod.splits)
  then have "list_all file_name_issafe (fi_local_name fi2)" using rx_check_name [of cf g1 fi w1] c by simp
  then have "protinfo_ok (pi\<lparr>pi_rx_low_cps_time := 0, pi_recv := Some (length (pi_rcvdfiles pi)), pi_rcvdfiles := pi_rcvdfiles pi @ [fi2]\<rparr>)"
    using ok by (simp add: protinfo_ok_def cong: option.case_cong)
  then show ?thesis using None e c by (simp add: p_rx_fopen_def)
qed (simp add: p_rx_fopen_def)

lemma p_rx_fclose_ok:
  assumes "protinfo_ok pi" "p_rx_fclose cf req g pi w = Some (rc, pi', w')"
  shows "protinfo_ok pi'"
proof -
  obtain fi where fi: "receiving pi = Some fi" using assms(2) by (cases "receiving pi") (auto simp: p_rx_fclose_def)
  have safe: "list_all file_name_issafe (fi_local_name fi)" using receiving_safe [OF assms(1) fi] .
  have name: "fi_local_name (fst (rx_commit cf req g f a v)) = fi_local_name f" for f a v
    by (auto simp: rx_commit_def split: option.split prod.split)
  obtain ok w1 where c: "(case fi_fp fi of None \<Rightarrow> (True, w) | Some fp \<Rightarrow> file_close fp w) = (ok, w1)" by fastforce
  let ?fi = "fi\<lparr>fi_fp := None\<rparr>"
  obtain fi2 answers w3 where r: "(if fi_status fi = FSTAT_SUCCESS then rx_commit cf req g ?fi (pi_filelist pi) (rx_settle ?fi w1)
     else (?fi, pi_filelist pi, rx_settle ?fi w1)) = (fi2, answers, w3)" by (metis prod_cases3)
  then have "fi_local_name fi2 = fi_local_name fi"
    using name [of ?fi "pi_filelist pi" "rx_settle ?fi w1"] by (cases "fi_status fi = FSTAT_SUCCESS") auto
  then have "protinfo_ok (set_recv fi2 (pi\<lparr>pi_traffic_rcvd := t, pi_filelist := l\<rparr>))" "protinfo_ok (set_recv ?fi pi)"
    "protinfo_ok (set_recv ?fi (pi\<lparr>pi_traffic_rcvd := t\<rparr>))" for t l
    using assms(1) safe by (simp_all add: set_recv_ok)
  then show ?thesis
    using assms(2) fi c r by (cases ok; cases "fi_status fi = FSTAT_SUCCESS") (auto simp: p_rx_fclose_def Let_def)
qed

lemma p_info_ok: "protinfo_ok pi \<Longrightarrow> protinfo_ok (snd (p_info pi bidir w))"
  by (auto simp: p_info_def Let_def split: option.splits prod.splits)

text \<open>
  C21: The state of a transfer stays well formed under every operation, whatever the other side sends
  and whichever system calls fail: the file being sent and the file being received, if there are any,
  are entries of their tables, and every received file has a name of safe characters, which cannot
  lead out of the inbound.
\<close>

theorem protinfo_well_formed:
  assumes "protinfo_ok pi"
  shows "protinfo_ok (fst (snd (snd (p_tx_fopen cf hint g pi w))))
    \<and> protinfo_ok (fst (snd (p_tx_fclose cf g pi w)))
    \<and> protinfo_ok (fst (snd (p_tx_rewind pi pos w)))
    \<and> protinfo_ok (fst (snd (snd (p_rx_fopen cf fn sz tm md g pi w))))
    \<and> protinfo_ok (snd (p_info pi bidir w))
    \<and> (case p_tx_readfile n pi w of None \<Rightarrow> pi_send pi = None | Some (_, _, pi', _) \<Rightarrow> protinfo_ok pi')
    \<and> (case p_rx_writefile d pi w of None \<Rightarrow> Option.bind (receiving pi) fi_fp = None | Some (_, pi', _) \<Rightarrow> protinfo_ok pi')
    \<and> (case p_rx_fclose cf req g pi w of None \<Rightarrow> pi_recv pi = None | Some (_, pi', _) \<Rightarrow> protinfo_ok pi')"
proof -
  have "p_tx_readfile n pi w = None \<Longrightarrow> pi_send pi = None" by (auto simp: p_tx_readfile_def sending_def split: option.splits)
  moreover have "p_rx_writefile d pi w = None \<Longrightarrow> Option.bind (receiving pi) fi_fp = None"
    by (auto simp: p_rx_writefile_def split: option.splits)
  moreover have "p_rx_fclose cf req g pi w = None \<Longrightarrow> pi_recv pi = None"
    by (auto simp: p_rx_fclose_def receiving_def split: option.splits)
  ultimately show ?thesis
    using p_tx_fopen_ok [OF assms] p_tx_fclose_ok [OF assms] p_tx_rewind_ok [OF assms] p_rx_fopen_ok [OF assms]
      p_info_ok [OF assms] p_tx_read_ok [OF assms] p_rx_write_ok [OF assms] p_rx_fclose_ok [OF assms]
    by (simp split: option.split prod.split)
qed

theorem protinfo_well_formed_witness:
  "protinfo_ok (fst (snd (snd (p_rx_fopen stat_conf ''../f'' 2 0 0 example_globals zero_protinfo stat_world))))"
proof -
  have "protinfo_ok zero_protinfo" by (simp add: protinfo_ok_def zero_protinfo_def)
  from protinfo_well_formed [OF this] show ?thesis by blast
qed

section \<open>The files that are sent\<close>

text \<open>
  C24: A file is only ever removed, emptied or marked as sent when its transfer was a success or the
  other side skipped it: closing it in any other state changes no file, whatever its action, and
  zero is returned.
\<close>

theorem unsent_files_stay:
  assumes "sending pi = Some fi" "fi_status fi \<noteq> FSTAT_SUCCESS" "fi_status fi \<noteq> FSTAT_SKIPPED"
  shows "case p_tx_fclose cf g pi w of (rc, pi', v) \<Rightarrow>
    rc = 0 \<and> dir v = dir w \<and> inode v = inode w \<and> pi_send pi' = None"
  using assms file_close_same [of w] by (auto simp: p_tx_fclose_def Let_def same_files_def split: option.split)

theorem unsent_files_stay_witness:
  "case p_tx_fclose stat_conf example_globals
      (zero_protinfo\<lparr>pi_send := Some 0, pi_sentfiles := [example_recv\<lparr>fi_status := FSTAT_REFUSED, fi_action := ACTION_UNLINK\<rparr>]\<rparr>)
      example_recv_world of (rc, pi', v) \<Rightarrow>
    rc = 0 \<and> dir v = dir example_recv_world \<and> inode v = inode example_recv_world \<and> pi_send pi' = None"
  by (rule unsent_files_stay [where fi = "example_recv\<lparr>fi_status := FSTAT_REFUSED, fi_action := ACTION_UNLINK\<rparr>"])
    (simp_all add: sending_def)

end
