(* ===== verification/Nodelist.thy ===== *)
theory Nodelist
  imports Session
begin

text \<open>
  The nodelist: its flags, its lines, the index of a nodelist and the search for an address in it
  (\<open>nodelist.c\<close>), and the compiler of that index (\<open>nodelist_makeindex\<close> of \<open>bfutil/bfindex.c\<close>).
\<close>

section \<open>The code\<close>

subsection \<open>Flags\<close>

lemma strstr_some: "strstr s f = Some (a, b) \<Longrightarrow> s = a @ b \<and> take (length f) b = f"
proof (induction s f arbitrary: a b rule: strstr.induct)
  case (1 s f)
  show ?case
  proof (cases "take (length f) s = f")
    case True
    then show ?thesis using "1.prems" by (subst (asm) strstr.simps) auto
  next
    case False
    with "1.prems" obtain c cs x y where "s = c # cs" "strstr cs f = Some (x, y)" "a = c # x" "b = y"
      by (subst (asm) strstr.simps) (auto split: list.splits)
    then show ?thesis using "1.IH" [of c cs] False by auto
  qed
qed

text \<open>
  True when the flag is there, where the code returns zero. A match right behind a failed one counts as
  one at the beginning, and the last flag of the text need only begin with the flag asked for. Without
  a character behind it the search cannot go on: a match of no length is always one at the beginning.
\<close>

function nodelist_checkflag :: "string \<Rightarrow> string \<Rightarrow> bool" where
  "nodelist_checkflag searchbase flag =
     (case strstr searchbase flag of
        None \<Rightarrow> False
      | Some (before, p) \<Rightarrow>
          if (before = [] \<or> last before = CHR '','')
             \<and> (CHR '','' \<notin> set p
                \<or> length (takeWhile (\<lambda>c. c \<noteq> CHR '','') p) = length flag
                \<or> length (takeWhile (\<lambda>c. c \<noteq> CHR '':'') p) = length flag)
          then True
          else if p = [] then False else nodelist_checkflag (tl p) flag)"
  by pat_completeness auto

termination
proof (relation "measure (\<lambda>(s, f). length s)", goal_cases)
  case (2 s f x2 a b)
  then show ?case using strstr_some [of s f a b] by (cases b) auto
qed simp

declare nodelist_checkflag.simps [simp del]

text \<open>The value of a flag: 0 or 1, and what is stored in \<open>res\<close>, a buffer of zeros.\<close>

function flagvalue_from :: "bool \<Rightarrow> string \<Rightarrow> string \<Rightarrow> int \<times> string" where
  "flagvalue_from start searchbase flag =
     (case strstr searchbase flag of
        None \<Rightarrow> (1, [])
      | Some (before, p) \<Rightarrow>
          let behind = drop (length flag) p in
          if (if before = [] then start else last before = CHR '','') \<and> (behind = [] \<or> hd behind = CHR '','') then (0, [])
          else if (if before = [] then start else last before = CHR '','') \<and> hd behind = CHR '':''
          then (0, takeWhile (\<lambda>c. c \<noteq> CHR '','') (tl behind))
          else if p = [] then (1, []) else flagvalue_from (hd p = CHR '','') (tl p) flag)"
  by pat_completeness auto

termination
proof (relation "measure (\<lambda>(b, s, f). length s)", goal_cases)
  case (2 st s f x2 a b)
  then show ?case using strstr_some [of s f a b] by (cases b) auto
qed simp

declare flagvalue_from.simps [simp del]

definition nodelist_flagvalue :: "string \<Rightarrow> string \<Rightarrow> int \<times> string" where
  "nodelist_flagvalue nodeflags flag = flagvalue_from True nodeflags flag"

subsection \<open>Lines\<close>

datatype nodelist_keyword = KEYWORD_EMPTY | KEYWORD_ZONE | KEYWORD_REGION | KEYWORD_HOST | KEYWORD_HUB
  | KEYWORD_PVT | KEYWORD_HOLD | KEYWORD_DOWN | KEYWORD_BOSS | KEYWORD_POINT

definition nodelist_keywords :: "(string \<times> nodelist_keyword) list" where
  "nodelist_keywords =
     [([], KEYWORD_EMPTY), (''Zone'', KEYWORD_ZONE), (''Region'', KEYWORD_REGION), (''Host'', KEYWORD_HOST),
      (''Hub'', KEYWORD_HUB), (''Pvt'', KEYWORD_PVT), (''Hold'', KEYWORD_HOLD), (''Down'', KEYWORD_DOWN),
      (''Boss'', KEYWORD_BOSS), (''Point'', KEYWORD_POINT)]"

definition nodelist_keywordval :: "string \<Rightarrow> nodelist_keyword option" where
  "nodelist_keywordval keyword = map_of nodelist_keywords keyword"

text \<open>\<open>nd_keyword\<close> is \<open>None\<close> for the value -1.\<close>

record s_node =
  nd_addr :: s_faddr
  nd_keyword :: "nodelist_keyword option"
  nd_listed :: bool
  nd_name :: string
  nd_location :: string
  nd_sysop :: string
  nd_phone :: string
  nd_speed :: int
  nd_flags :: string
  nd_do_binkp :: bool
  nd_do_ifcico :: bool
  nd_do_telnet :: bool
  nd_host :: string
  nd_worktime :: s_timevec

text \<open>The minutes of a letter, in UTC; and the interval in local time, \<open>tz\<close> being the offset in minutes.\<close>

definition txy_minutes :: "char \<Rightarrow> int option" where
  "txy_minutes c =
     (if 65 \<le> ord c \<and> ord c \<le> 88 then Some (int (ord c - 65) * 60)
      else if 97 \<le> ord c \<and> ord c \<le> 120 then Some (int (ord c - 97) * 60 + 30)
      else None)"

definition txy_local :: "int \<Rightarrow> int \<Rightarrow> int" where
  "txy_local tz t =
     (if tz = 0 then t
      else let t = t - tz in
        if t > 1440 then t - 1440 else if t < 0 then t + 1440 else if t = 1440 then 0 else t)"

definition nodelist_parse_Txy :: "int \<Rightarrow> s_timevec \<Rightarrow> char \<Rightarrow> char \<Rightarrow> int \<times> s_timevec" where
  "nodelist_parse_Txy tz tv x y =
     (case (txy_minutes x, txy_minutes y) of
        (Some b, Some e) \<Rightarrow>
          if b = e then (-1, tv)
          else (0, snd (timevec_add tv DAY_MONDAY DAY_SUNDAY (txy_local tz b) (txy_local tz e)))
      | _ \<Rightarrow> (-1, tv))"

text \<open>The first flag of three characters that begins with a T. The first character of the flags is not looked at.\<close>

function txy_flag :: "string \<Rightarrow> (char \<times> char) option" where
  "txy_flag [] = None"
| "txy_flag (c # p) =
     (case p of
        t # x # y # r \<Rightarrow>
          if t = CHR ''T'' \<and> (r = [] \<or> hd r = CHR '','') then Some (x, y)
          else txy_flag (dropWhile (\<lambda>c. c \<noteq> CHR '','') p)
      | _ \<Rightarrow> txy_flag (dropWhile (\<lambda>c. c \<noteq> CHR '','') p))"
  by pat_completeness auto

termination
  by (relation "measure length") (auto simp: le_imp_less_Suc length_dropWhile_le le_SucI)

definition zmh :: "int \<Rightarrow> (char \<times> char) option" where
  "zmh z = map_of [(1, (CHR ''J'', CHR ''K'')), (2, (CHR ''c'', CHR ''d'')), (3, (CHR ''S'', CHR ''T'')),
                   (4, (CHR ''I'', CHR ''J'')), (5, (CHR ''B'', CHR ''C'')), (6, (CHR ''U'', CHR ''V''))] z"

definition node_worktime :: "int \<Rightarrow> string \<Rightarrow> s_faddr \<Rightarrow> s_timevec \<Rightarrow> s_timevec" where
  "node_worktime tz flags addr tv =
     (if nodelist_checkflag flags ''CM'' then snd (timevec_add tv DAY_MONDAY DAY_SUNDAY 0 1440)
      else
        let add_txy = (\<lambda>xy tv. case xy of None \<Rightarrow> tv | Some (x, y) \<Rightarrow> snd (nodelist_parse_Txy tz tv x y));
            tv = add_txy (txy_flag flags) tv
        in if point addr = 0 then add_txy (zmh (zone addr)) tv else tv)"

definition number_fits :: "nodelist_keyword \<Rightarrow> s_faddr \<Rightarrow> int \<Rightarrow> bool" where
  "number_fits keyword addr number =
     (case keyword of
        KEYWORD_ZONE \<Rightarrow> zone addr = number
      | KEYWORD_REGION \<Rightarrow> net addr = number
      | KEYWORD_HOST \<Rightarrow> net addr = number
      | KEYWORD_POINT \<Rightarrow> point addr = number
      | _ \<Rightarrow> node addr = number)"

definition nodelist_parsestring :: "int \<Rightarrow> s_node \<Rightarrow> string \<Rightarrow> int \<times> s_node" where
  "nodelist_parsestring tz nd str =
     (let argv = string_parse 8 str (CHR '','') in
      if length argv \<noteq> 8 \<or> \<not> ISDEC (argv ! 1) \<or> \<not> ISDEC (argv ! 6) then (-1, nd)
      else
        let nd = nd\<lparr>nd_keyword := nodelist_keywordval (argv ! 0)\<rparr> in
        case nd_keyword nd of
          None \<Rightarrow> (-1, nd)
        | Some keyword \<Rightarrow>
            if zone (nd_addr nd) \<noteq> 0 \<and> \<not> number_fits keyword (nd_addr nd) (atoi (argv ! 1)) then (-1, nd)
            else
              let flags = strncopy 201 (argv ! 7) in
              (0, nd\<lparr>nd_name := string_replchar (strncopy 49 (argv ! 2)) (CHR ''_'') (CHR '' ''),
                     nd_location := string_replchar (strncopy 49 (argv ! 3)) (CHR ''_'') (CHR '' ''),
                     nd_sysop := string_replchar (strncopy 49 (argv ! 4)) (CHR ''_'') (CHR '' ''),
                     nd_phone := strncopy 49 (argv ! 5),
                     nd_flags := flags,
                     nd_speed := atoi (argv ! 6),
                     nd_worktime := node_worktime tz flags (nd_addr nd) (nd_worktime nd),
                     nd_do_binkp := nodelist_checkflag flags ''IBN'',
                     nd_do_ifcico := nodelist_checkflag flags ''IFC'',
                     nd_do_telnet := nodelist_checkflag flags ''ITN'',
                     nd_host := snd (nodelist_flagvalue flags ''INA'')\<rparr>))"

definition nodelist_initnode :: "s_faddr \<Rightarrow> s_node" where
  "nodelist_initnode addr =
     \<lparr>nd_addr = addr, nd_keyword = Some KEYWORD_EMPTY, nd_listed = False, nd_name = ''<none>'', nd_location = ''<none>'',
      nd_sysop = ''<none>'', nd_phone = ''<none>'', nd_speed = 0, nd_flags = [], nd_do_binkp = False,
      nd_do_ifcico = False, nd_do_telnet = False, nd_host = [], nd_worktime = []\<rparr>"

subsection \<open>The index\<close>

text \<open>
  The two open streams; the names are only used for messages. \<open>chars\<close> is a buffer as the text of a file.
\<close>

record s_nodelist =
  nl_index :: stream
  nl_nodelist :: stream

record s_bni =
  bni_zone :: int
  bni_net :: int
  bni_node :: int
  bni_point :: int
  bni_hub :: int
  bni_offset :: u64

definition chars :: "byte list \<Rightarrow> string" where
  "chars bs = map (\<lambda>b. char_of (unat b)) bs"

definition NODELIST_HDRSIZE :: nat where "NODELIST_HDRSIZE = 16"
definition NODELIST_ENTRYSIZE :: nat where "NODELIST_ENTRYSIZE = 14"
definition NODELIST_READAHEAD :: nat where "NODELIST_READAHEAD = 50"

lemmas nodelist_sizes = NODELIST_HDRSIZE_def NODELIST_ENTRYSIZE_def NODELIST_READAHEAD_def

text \<open>The date and the size of a nodelist file, as unsigned longs; \<open>fstat\<close> may fail.\<close>

definition nodelist_fstat :: "s_nodelist \<Rightarrow> world \<Rightarrow> (u64 \<times> u64) option \<times> world" where
  "nodelist_fstat nlp w =
     (case syscall w of (ok, w) \<Rightarrow>
        let f = inode w (st_inode (nl_nodelist nlp)) in
        (if ok then Some (word_of_int (mtime f), word_of_nat (length (content f))) else None, w))"

text \<open>True is success in the following three.\<close>

definition nodelist_checkheader :: "s_nodelist \<Rightarrow> world \<Rightarrow> bool \<times> s_nodelist \<times> world" where
  "nodelist_checkheader nlp w =
     (case fread NODELIST_HDRSIZE (nl_index nlp) w of (buffer, fp, w) \<Rightarrow>
        let nlp = nlp\<lparr>nl_index := fp\<rparr> in
        if length buffer < NODELIST_HDRSIZE then (False, nlp, w)
        else
          (case nodelist_fstat nlp w of
             (None, w) \<Rightarrow> (False, nlp, w)
           | (Some (st_mtime, st_size), w) \<Rightarrow>
               (st_mtime = buffer_getlong (bytes buffer) \<and> st_size = buffer_getlong (drop 4 (bytes buffer)), nlp, w)))"

definition nodelist_header :: "u64 \<Rightarrow> u64 \<Rightarrow> byte list" where
  "nodelist_header st_mtime st_size = buffer_putlong st_mtime @ buffer_putlong st_size @ replicate 8 0"

definition nodelist_createheader :: "s_nodelist \<Rightarrow> world \<Rightarrow> bool \<times> s_nodelist \<times> world" where
  "nodelist_createheader nlp w =
     (case nodelist_fstat nlp w of
        (None, w) \<Rightarrow> (False, nlp, w)
      | (Some (st_mtime, st_size), w) \<Rightarrow>
          (case fseek (nl_index nlp) 0 w of (ok, fp, w) \<Rightarrow>
             let nlp = nlp\<lparr>nl_index := fp\<rparr> in
             if \<not> ok then (False, nlp, w)
             else
               (case fwrite (chars (nodelist_header st_mtime st_size)) fp w of (ok, fp, w) \<Rightarrow>
                  (ok, nlp\<lparr>nl_index := fp\<rparr>, w))))"

definition bni_entry :: "s_bni \<Rightarrow> byte list" where
  "bni_entry bni =
     buffer_putint (word_of_int (bni_zone bni)) @ buffer_putint (word_of_int (bni_net bni))
     @ buffer_putint (word_of_int (bni_node bni)) @ buffer_putint (word_of_int (bni_point bni))
     @ buffer_putint (word_of_int (bni_hub bni)) @ buffer_putlong (bni_offset bni)"

definition nodelist_putindex :: "s_nodelist \<Rightarrow> s_bni \<Rightarrow> world \<Rightarrow> bool \<times> s_nodelist \<times> world" where
  "nodelist_putindex nlp bni w =
     (case fwrite (chars (bni_entry bni)) (nl_index nlp) w of (ok, fp, w) \<Rightarrow> (ok, nlp\<lparr>nl_index := fp\<rparr>, w))"

definition nodelist_close :: "s_nodelist \<Rightarrow> world \<Rightarrow> int \<times> world" where
  "nodelist_close nlp w =
     (case file_close (nl_nodelist nlp) w of (_, w) \<Rightarrow>
      case file_close (nl_index nlp) w of (ok, w) \<Rightarrow> (if ok then 0 else 1, w))"

definition bni_at :: "byte list \<Rightarrow> s_bni" where
  "bni_at p =
     \<lparr>bni_zone = sint (buffer_getint p), bni_net = sint (buffer_getint (drop 2 p)),
      bni_node = sint (buffer_getint (drop 4 p)), bni_point = sint (buffer_getint (drop 6 p)),
      bni_hub = sint (buffer_getint (drop 8 p)), bni_offset = buffer_getlong (drop 10 p)\<rparr>"

definition bni_matches :: "s_faddr \<Rightarrow> s_bni \<Rightarrow> bool" where
  "bni_matches addr b \<longleftrightarrow>
     bni_zone b = zone addr \<and> bni_net b = net addr \<and> bni_node b = node addr \<and> bni_point b = point addr"

text \<open>The entries of a buffer, \<open>readitems\<close> of them.\<close>

primrec scan_entries :: "nat \<Rightarrow> byte list \<Rightarrow> s_faddr \<Rightarrow> s_bni option" where
  "scan_entries 0 p addr = None"
| "scan_entries (Suc n) p addr =
     (if bni_matches addr (bni_at p) then Some (bni_at p) else scan_entries n (drop NODELIST_ENTRYSIZE p) addr)"

lemma fread_progress:
  assumes "fread n fp w = (d, fp', w')" "d \<noteq> []"
  shows "inode w' = inode w" "st_inode fp' = st_inode fp" "st_pos fp' = st_pos fp + length d"
    "st_pos fp + length d \<le> length (content (inode w (st_inode fp)))"
  using assms by (auto simp: fread_def syscall_def Let_def split: if_splits)

function findindex_loop :: "stream \<Rightarrow> s_faddr \<Rightarrow> world \<Rightarrow> s_bni option \<times> stream \<times> world" where
  "findindex_loop fp addr w =
     (case fread (NODELIST_ENTRYSIZE * NODELIST_READAHEAD) fp w of (buffer, fp, w) \<Rightarrow>
        let readitems = length buffer div NODELIST_ENTRYSIZE in
        if readitems = 0 then (None, fp, w)
        else
          (case scan_entries readitems (bytes buffer) addr of
             Some b \<Rightarrow> (Some b, fp, w)
           | None \<Rightarrow> findindex_loop fp addr w))"
  by pat_completeness auto

termination
proof (relation "measure (\<lambda>(fp, addr, w). length (content (inode w (st_inode fp))) - st_pos fp)", goal_cases)
  case (2 fp addr w d _ fp' w')
  have f: "fread (NODELIST_ENTRYSIZE * NODELIST_READAHEAD) fp w = (d, fp', w')" by (simp add: 2)
  have "d \<noteq> []" using 2 by auto
  then have "length (content (inode w (st_inode fp))) - (st_pos fp + length d) < length (content (inode w (st_inode fp))) - st_pos fp"
    using fread_progress(4) [OF f \<open>d \<noteq> []\<close>] by (cases d) auto
  then show ?case using fread_progress [OF f \<open>d \<noteq> []\<close>] by simp
qed simp

declare findindex_loop.simps [simp del]

definition nodelist_findindex :: "s_nodelist \<Rightarrow> s_faddr \<Rightarrow> world \<Rightarrow> s_bni option \<times> s_nodelist \<times> world" where
  "nodelist_findindex nlp addr w =
     (case fseek (nl_index nlp) NODELIST_HDRSIZE w of (ok, fp, w) \<Rightarrow>
        if \<not> ok then (None, nlp\<lparr>nl_index := fp\<rparr>, w)
        else (case findindex_loop fp addr w of (b, fp, w) \<Rightarrow> (b, nlp\<lparr>nl_index := fp\<rparr>, w)))"

definition nodelist_getstr :: "s_nodelist \<Rightarrow> nat \<Rightarrow> nat \<Rightarrow> world \<Rightarrow> string option \<times> s_nodelist \<times> world" where
  "nodelist_getstr nlp offset buflen w =
     (case fseek (nl_nodelist nlp) offset w of (ok, fp, w) \<Rightarrow>
        if \<not> ok then (None, nlp\<lparr>nl_nodelist := fp\<rparr>, w)
        else
          (case fgets (buflen - 1) fp w of (s, fp, w) \<Rightarrow>
             (map_option string_chomp s, nlp\<lparr>nl_nodelist := fp\<rparr>, w)))"

text \<open>
  Opening. A name that ends in \<open>.999\<close> stands for the newest file of the directory with another
  extension; \<open>ctime\<close> is the time \<open>stat\<close> gives for a path. A name with a path ends the program.
\<close>

datatype open_result = Exit | Failed | Opened s_nodelist

definition mask_step ::
  "(string \<Rightarrow> int) \<Rightarrow> world \<Rightarrow> string \<Rightarrow> string \<Rightarrow> string \<Rightarrow> int \<times> string \<Rightarrow> int \<times> string" where
  "mask_step ctime w dirname seekname d_name = (\<lambda>(lasttime, name).
     (let tmpseek = take 254 d_name; path = take 254 (take 254 dirname @ tmpseek) in
      if length tmpseek \<ge> 3 \<and> length tmpseek = length seekname
         \<and> take (length tmpseek - 3) tmpseek = take (length tmpseek - 3) seekname
         \<and> exists path w \<and> ctime path > lasttime
      then (ctime path, tmpseek) else (lasttime, name)))"

definition is_nodelist_mask :: "string \<Rightarrow> bool" where
  "is_nodelist_mask name \<longleftrightarrow> drop (length name - 4) name = ''.999''"

definition nodelist_name :: "(string \<Rightarrow> int) \<Rightarrow> string \<Rightarrow> string \<Rightarrow> world \<Rightarrow> string option" where
  "nodelist_name ctime dirname name w =
     (if is_nodelist_mask name then
        map_option (\<lambda>l. snd (fold (mask_step ctime w dirname (take 254 name)) l (0, name))) (listing w dirname)
      else Some name)"

definition nodelist_open ::
  "(string \<Rightarrow> int) \<Rightarrow> string \<Rightarrow> string \<Rightarrow> bool \<Rightarrow> world \<Rightarrow> open_result \<times> world" where
  "nodelist_open ctime dirname name writing w =
     (if peek name = CHR ''/'' then (Exit, w)
      else
        (case nodelist_name ctime dirname name w of
           None \<Rightarrow> (Failed, w)
         | Some name \<Rightarrow>
             let name_nodelist = take 256 (take 256 dirname @ name);
                 name_index = take 256 (name_nodelist @ ''.index'')
             in (case file_open name_nodelist Mode_r w of
                   (None, w) \<Rightarrow> (Failed, w)
                 | (Some fp_nodelist, w) \<Rightarrow>
                     (case file_open name_index (if writing then Mode_w else Mode_r) w of
                        (None, w) \<Rightarrow> (Failed, snd (fclose fp_nodelist w))
                      | (Some fp_index, w) \<Rightarrow>
                          let nlp = \<lparr>nl_index = fp_index, nl_nodelist = fp_nodelist\<rparr> in
                          if writing then (Opened nlp, w)
                          else
                            (case nodelist_checkheader nlp w of (ok, nlp, w) \<Rightarrow>
                               if ok then (Opened nlp, w)
                               else (Failed, snd (file_close (nl_index nlp) (snd (file_close fp_nodelist w)))))))))"

subsection \<open>The search for an address\<close>

text \<open>
  All nodelists whose mask the address matches, in order. The outcome is \<open>None\<close> when the program ends,
  for a nodelist with a path or none at all.
\<close>

fun lookup_in ::
  "(string \<Rightarrow> int) \<Rightarrow> string option \<Rightarrow> nat \<Rightarrow> s_faddr \<Rightarrow> (s_faddr \<times> string option) list \<Rightarrow> world
     \<Rightarrow> (string option \<times> world) option" where
  "lookup_in ctime ndldir buflen addr [] w = Some (None, w)"
| "lookup_in ctime ndldir buflen addr ((m, what) # ls) w =
     (if ftn_addrcomp_mask addr m \<noteq> 0 then lookup_in ctime ndldir buflen addr ls w
      else
        (case (ndldir, what) of
           (Some dirname, Some name) \<Rightarrow>
             (case nodelist_open ctime dirname name False w of
                (Exit, w) \<Rightarrow> None
              | (Failed, w) \<Rightarrow> lookup_in ctime ndldir buflen addr ls w
              | (Opened nlp, w) \<Rightarrow>
                  (case nodelist_findindex nlp addr w of (b, nlp, w) \<Rightarrow>
                   case (case b of None \<Rightarrow> (None, nlp, w)
                         | Some b \<Rightarrow> nodelist_getstr nlp (unat (bni_offset b)) buflen w) of (s, nlp, w) \<Rightarrow>
                   case nodelist_close nlp w of (_, w) \<Rightarrow>
                     (case s of None \<Rightarrow> lookup_in ctime ndldir buflen addr ls w | Some s \<Rightarrow> Some (Some s, w))))
         | _ \<Rightarrow> None))"

definition nodelist_lookup_string ::
  "conf \<Rightarrow> (string \<Rightarrow> int) \<Rightarrow> nat \<Rightarrow> s_faddr \<Rightarrow> world \<Rightarrow> (string option \<times> world) option" where
  "nodelist_lookup_string cf ctime buflen addr w =
     lookup_in ctime (conf_string cf ''nodelist_directory'') buflen addr (conf_falist cf ''nodelist'') w"

definition nodelist_lookup :: "conf \<Rightarrow> (string \<Rightarrow> int) \<Rightarrow> s_faddr \<Rightarrow> world \<Rightarrow> (int \<times> s_node \<times> world) option" where
  "nodelist_lookup cf ctime addr w =
     map_option
       (\<lambda>(s, w). case s of
          None \<Rightarrow> (-1, nodelist_initnode addr, w)
        | Some buf \<Rightarrow> (0, snd (nodelist_parsestring (gmtoff w) ((nodelist_initnode addr)\<lparr>nd_listed := True\<rparr>) buf), w))
       (nodelist_lookup_string cf ctime 512 addr w)"

subsection \<open>The compiler of the index\<close>

text \<open>
  What a line does: the entry it leaves for the lines behind it, and whether it is one to put into the
  index. The last of the two texts, when there is one, is the second field.
\<close>

definition split_line :: "string \<Rightarrow> string \<times> string option" where
  "split_line buf =
     (case dropWhile (\<lambda>c. c \<noteq> CHR '','') buf of
        [] \<Rightarrow> (buf, None)
      | _ # p \<Rightarrow> (takeWhile (\<lambda>c. c \<noteq> CHR '','') buf, Some (takeWhile (\<lambda>c. c \<noteq> CHR '','') p)))"

definition place :: "nodelist_keyword \<Rightarrow> int \<Rightarrow> s_bni \<Rightarrow> s_bni" where
  "place keyword v bni =
     (case keyword of
        KEYWORD_ZONE \<Rightarrow> bni\<lparr>bni_zone := v, bni_net := 0, bni_node := 0, bni_point := 0, bni_hub := 0\<rparr>
      | KEYWORD_REGION \<Rightarrow> bni\<lparr>bni_net := v, bni_node := 0, bni_point := 0, bni_hub := 0\<rparr>
      | KEYWORD_HOST \<Rightarrow> bni\<lparr>bni_net := v, bni_node := 0, bni_point := 0, bni_hub := 0\<rparr>
      | KEYWORD_HUB \<Rightarrow> bni\<lparr>bni_node := v, bni_point := 0, bni_hub := v\<rparr>
      | KEYWORD_POINT \<Rightarrow> bni\<lparr>bni_point := v\<rparr>
      | _ \<Rightarrow> bni\<lparr>bni_node := v, bni_point := 0\<rparr>)"

definition index_line :: "string \<Rightarrow> s_bni \<Rightarrow> bool \<times> s_bni" where
  "index_line buf bni =
     (if buf = [] \<or> peek buf = CHR '';'' then (False, bni)
      else
        (case split_line buf of (kw, p) \<Rightarrow>
           if p = None \<or> p = Some [] then (False, bni)
           else
             (case nodelist_keywordval kw of
                None \<Rightarrow> (False, bni)
              | Some keyword \<Rightarrow>
                  let p = the p in
                  if keyword = KEYWORD_BOSS then
                    (case ftn_addrparse p False of (bad, a) \<Rightarrow>
                       (False, if bad then bni
                               else bni\<lparr>bni_zone := zone a, bni_net := net a, bni_node := node a, bni_point := 0, bni_hub := 0\<rparr>))
                  else if ISDEC p then (True, place keyword (max 0 (min 0x7fff (atoi p))) bni)
                  else (False, bni))))"

text \<open>
  The loop over the lines; the number of entries, or -1. It is run with as much fuel as the file has
  bytes, which is enough as every line has at least one.
\<close>

primrec index_loop :: "nat \<Rightarrow> s_nodelist \<Rightarrow> s_bni \<Rightarrow> int \<Rightarrow> world \<Rightarrow> (int \<times> s_nodelist \<times> world) option" where
  "index_loop 0 nlp bni countnodes w = None"
| "index_loop (Suc n) nlp bni countnodes w =
     (case ftell (nl_nodelist nlp) w of (offset, w) \<Rightarrow>
        if offset = -1 then Some (-1, nlp, w)
        else
          (case fgets 1023 (nl_nodelist nlp) w of
             (None, fp, w) \<Rightarrow> Some (countnodes, nlp\<lparr>nl_nodelist := fp\<rparr>, w)
           | (Some buf, fp, w) \<Rightarrow>
               let nlp = nlp\<lparr>nl_nodelist := fp\<rparr> in
               (case index_line (string_chomp buf) (bni\<lparr>bni_offset := word_of_int offset\<rparr>) of
                  (False, bni) \<Rightarrow> index_loop n nlp bni countnodes w
                | (True, bni) \<Rightarrow>
                    (case nodelist_putindex nlp bni w of (ok, nlp, w) \<Rightarrow>
                       if ok then index_loop n nlp bni (countnodes + 1) w else Some (-1, nlp, w)))))"

definition nodelist_makeindex :: "s_nodelist \<Rightarrow> s_faddr \<Rightarrow> world \<Rightarrow> (int \<times> s_nodelist \<times> world) option" where
  "nodelist_makeindex nlp addr w =
     (let bni = \<lparr>bni_zone = zone addr, bni_net = net addr, bni_node = node addr, bni_point = point addr, bni_hub = 0,
                 bni_offset = 0\<rparr>
      in case nodelist_createheader nlp w of (ok, nlp, w) \<Rightarrow>
           if ok then index_loop (length (content (inode w (st_inode (nl_nodelist nlp)))) + 1) nlp bni 0 w
           else Some (-1, nlp, w))"

text \<open>One round of the loop of \<open>bfindex\<close>, for a nodelist to be compiled; \<open>None\<close> when the program ends.\<close>

definition compile_nodelist ::
  "(string \<Rightarrow> int) \<Rightarrow> string \<Rightarrow> string \<Rightarrow> s_faddr \<Rightarrow> world \<Rightarrow> (int \<times> world) option" where
  "compile_nodelist ctime dirname name addr w =
     (case nodelist_open ctime dirname name True w of
        (Exit, w) \<Rightarrow> None
      | (Failed, w) \<Rightarrow> Some (0, w)
      | (Opened nlp, w) \<Rightarrow>
          map_option (\<lambda>(rc, nlp, w). (if rc > 0 then rc else 0, snd (nodelist_close nlp w))) (nodelist_makeindex nlp addr w))"

end
