(* ===== verification/NodelistProps.thy ===== *)
theory NodelistProps
  imports Nodelist
begin

text \<open>
  What is proved of the nodelist: its index finds the lines it was compiled from, and the test for a
  flag agrees with a reading of the flags as a list.
\<close>

section \<open>Numbers and buffers\<close>

lemma bytes_chars [simp]: "bytes (chars bs) = bs"
  by (induction bs) (simp_all add: bytes_def chars_def)

lemma length_chars [simp]: "length (chars bs) = length bs"
  by (simp add: chars_def)

lemma chars_append [simp]: "chars (a @ b) = chars a @ chars b"
  by (simp add: chars_def)

lemma bytes_append [simp]: "bytes (a @ b) = bytes a @ bytes b"
  by (simp add: bytes_def)

lemma length_put [simp]: "length (buffer_putlong v) = 4" "length (buffer_putint i) = 2"
  by (simp_all add: buffer_putlong_def buffer_putint_def)

lemma getlong_app [simp]: "buffer_getlong (buffer_putlong v @ r) = buffer_getlong (buffer_putlong v)"
  by (simp add: buffer_getlong_def buffer_putlong_def)

lemma getint_app [simp]: "buffer_getint (buffer_putint v @ r) = buffer_getint (buffer_putint v)"
  by (simp add: buffer_getint_def buffer_putint_def)

lemma getlong_put:
  assumes "unat v < 2 ^ 32" shows "buffer_getlong (buffer_putlong v) = v"
  using buffer_roundtrip [of v] assms by (metis mod_less unsigned_word_eqI)

lemma getint_put:
  assumes "0 \<le> v" "v < 2 ^ 16" shows "sint (buffer_getint (buffer_putint (word_of_int v))) = v"
proof -
  let ?w = "word_of_int v :: u32"
  have u: "unat ?w = nat v" using assms by (simp add: unat_eq_nat_uint uint_word_of_int_eq take_bit_int_eq_self)
  then have "unat (buffer_getint (buffer_putint ?w)) = unat ?w"
    using buffer_roundtrip [where i = ?w] assms by (simp add: nat_less_iff)
  then have "buffer_getint (buffer_putint ?w) = ?w" by (metis unsigned_word_eqI)
  moreover have "sint ?w = v" using assms by (simp add: signed_of_int signed_take_bit_int_eq_self)
  ultimately show ?thesis by simp
qed

definition bni_fits :: "s_bni \<Rightarrow> bool" where
  "bni_fits b \<longleftrightarrow> list_all (\<lambda>v. 0 \<le> v \<and> v < 2 ^ 16) [bni_zone b, bni_net b, bni_node b, bni_point b, bni_hub b]
     \<and> unat (bni_offset b) < 2 ^ 32"

lemma length_entry [simp]: "length (bni_entry b) = NODELIST_ENTRYSIZE"
  by (simp add: bni_entry_def nodelist_sizes)

lemma bni_at_entry: "bni_fits b \<Longrightarrow> bni_at (bni_entry b @ r) = b"
  by (simp add: bni_at_def bni_entry_def bni_fits_def getint_put getlong_put)

lemma scan_entries_find:
  "list_all bni_fits es \<Longrightarrow> scan_entries (length es) (concat (map bni_entry es) @ r) addr = find (bni_matches addr) es"
  by (induction es) (simp_all add: bni_at_entry)

section \<open>The search in the index\<close>

lemma fread_ok:
  assumes "no_failures w" "\<not> is_dir (inode w (st_inode s))"
  shows "fread n s w =
    (let d = take n (drop (st_pos s) (content (inode w (st_inode s)))) in
     (d, s\<lparr>st_pos := st_pos s + length d, st_eof := (length d < n \<or> st_eof s)\<rparr>, w\<lparr>calls := calls w + 1\<rparr>))"
  using assms by (simp add: fread_def syscall_ok Let_def)

definition entries_text :: "s_bni list \<Rightarrow> string" where
  "entries_text es = chars (concat (map bni_entry es))"

lemma length_entries [simp]: "length (entries_text es) = NODELIST_ENTRYSIZE * length es"
  by (induction es) (simp_all add: entries_text_def)

lemma entries_text_simps [simp]:
  "entries_text [] = []" "entries_text (e # es) = chars (bni_entry e) @ entries_text es"
  by (simp_all add: entries_text_def chars_def)

lemma entries_text_append [simp]: "entries_text (a @ b) = entries_text a @ entries_text b"
  by (simp add: entries_text_def)

lemma entries_split: "entries_text es = entries_text (take n es) @ entries_text (drop n es)"
  by (simp add: entries_text_def flip: chars_append concat_append map_append)

lemma entries_take: "take (NODELIST_ENTRYSIZE * n) (entries_text es) = entries_text (take n es)"
  using entries_split [of es n] by (cases "n \<le> length es") simp_all

lemma entries_drop: "drop (NODELIST_ENTRYSIZE * n) (entries_text es) = entries_text (drop n es)"
  using entries_split [of es n] by (cases "n \<le> length es") simp_all

lemma find_split:
  "find P xs = (case find P (take n xs) of None \<Rightarrow> find P (drop n xs) | Some x \<Rightarrow> Some x)"
proof -
  have "find P (a @ b) = (case find P a of None \<Rightarrow> find P b | Some x \<Rightarrow> Some x)" for a b :: "'a list"
    by (induction a) auto
  then show ?thesis by (metis append_take_drop_id)
qed

lemma findindex_loop_find:
  assumes "no_failures w" "\<not> is_dir (inode w (st_inode fp))" "list_all bni_fits es"
    "drop (st_pos fp) (content (inode w (st_inode fp))) = entries_text es"
  shows "\<exists>fp' n. findindex_loop fp addr w = (find (bni_matches addr) es, fp', w\<lparr>calls := n\<rparr>)"
  using assms
proof (induction "length es" arbitrary: es fp w rule: less_induct)
  case less
  let ?n = "NODELIST_READAHEAD"
  let ?now = "take ?n es"
  let ?w = "w\<lparr>calls := calls w + 1\<rparr>"
  obtain fp' where r: "fread (NODELIST_ENTRYSIZE * ?n) fp w = (entries_text ?now, fp', ?w)"
    and fp': "st_inode fp' = st_inode fp" "st_pos fp' = st_pos fp + NODELIST_ENTRYSIZE * length ?now"
    using fread_ok [OF less.prems(1,2)] less.prems(4) by (simp add: entries_take Let_def)
  have now: "scan_entries (length ?now) (bytes (entries_text ?now)) addr = find (bni_matches addr) ?now"
    using scan_entries_find [of ?now "[]" addr] less.prems(3) by (auto simp: entries_text_def list_all_iff dest: in_set_takeD)
  have step: "findindex_loop fp addr w =
      (if es = [] then (None, fp', ?w)
       else case find (bni_matches addr) ?now of Some b \<Rightarrow> (Some b, fp', ?w) | None \<Rightarrow> findindex_loop fp' addr ?w)"
    by (subst findindex_loop.simps) (simp only: r now [symmetric] prod.case Let_def length_entries, auto simp: nodelist_sizes min_def split: if_splits)
  show ?case
  proof (cases "es = [] \<or> find (bni_matches addr) ?now \<noteq> None")
    case True
    then show ?thesis using find_split [of "bni_matches addr" es ?n] by (cases "es = []") (auto simp: step)
  next
    case False
    have rest: "drop (st_pos fp') (content (inode ?w (st_inode fp'))) = entries_text (drop ?n es)"
      using less.prems(4) by (simp add: fp' add.commute [of "st_pos fp"] entries_drop min_def flip: drop_drop)
    have "\<exists>fp'' n. findindex_loop fp' addr ?w = (find (bni_matches addr) (drop ?n es), fp'', ?w\<lparr>calls := n\<rparr>)"
      using less.prems False rest
      by (intro less.hyps) (auto simp: fp' no_failures_def list_all_iff nodelist_sizes dest: in_set_dropD)
    then show ?thesis using False find_split [of "bni_matches addr" es ?n] by (simp add: step)
  qed
qed

section \<open>The compiler\<close>

text \<open>A text of lines, and the entries of its index with the lines they stand for.\<close>

definition lines_text :: "string list \<Rightarrow> string" where
  "lines_text ls = concat (map (\<lambda>l. l @ [CHR 0x0A]) ls)"

definition plain_line :: "string \<Rightarrow> bool" where
  "plain_line l \<longleftrightarrow> CHR 0x0A \<notin> set l \<and> nul_free l \<and> length l < 511"

definition chomped :: "string \<Rightarrow> string" where
  "chomped l = string_chomp (l @ [CHR 0x0A])"

primrec index_of :: "s_bni \<Rightarrow> nat \<Rightarrow> string list \<Rightarrow> (s_bni \<times> string) list" where
  "index_of bni offset [] = []"
| "index_of bni offset (l # ls) =
     (case index_line (chomped l) (bni\<lparr>bni_offset := word_of_nat offset\<rparr>) of
        (put, bni) \<Rightarrow> (if put then [(bni, chomped l)] else []) @ index_of bni (offset + length l + 1) ls)"

lemma lines_text_simps [simp]: "lines_text [] = []" "lines_text (l # ls) = l @ CHR 0x0A # lines_text ls"
  by (simp_all add: lines_text_def)

lemma lines_text_append [simp]: "lines_text (a @ b) = lines_text a @ lines_text b"
  by (simp add: lines_text_def)

lemma takeWhile_line: "CHR 0x0A \<notin> set l \<Longrightarrow> takeWhile (\<lambda>c. c \<noteq> CHR 0x0A) (l @ CHR 0x0A # r) = l"
  by (induction l) auto

lemma fgets_line:
  assumes "no_failures w" "\<not> is_dir (inode w (st_inode s))" "plain_line l" "511 \<le> n"
    "drop (st_pos s) (content (inode w (st_inode s))) = l @ CHR 0x0A # r"
  shows "fgets n s w = (Some (l @ [CHR 0x0A]), s\<lparr>st_pos := st_pos s + length l + 1\<rparr>, w\<lparr>calls := calls w + 1\<rparr>)"
proof -
  have fit: "take (n - length l) [CHR 0x0A] = [CHR 0x0A]" "min (Suc 0) (n - length l) = Suc 0"
    using assms(3,4) by (auto simp: plain_line_def min_def)
  have "cstr (l @ [CHR 0x0A]) = l @ [CHR 0x0A]"
    using assms(3) by (auto simp: cstr_def plain_line_def nul_free_def takeWhile_eq_all_conv)
  then show ?thesis
    using assms takeWhile_line [of l r] fit by (simp add: fgets_def syscall_ok Let_def plain_line_def)
qed

lemma fgets_end:
  assumes "no_failures w" "\<not> is_dir (inode w (st_inode s))" "drop (st_pos s) (content (inode w (st_inode s))) = []"
  shows "fgets n s w = (None, s\<lparr>st_eof := True\<rparr>, w\<lparr>calls := calls w + 1\<rparr>)"
  using assms by (simp add: fgets_def syscall_ok Let_def)

definition at_end :: "stream \<Rightarrow> world \<Rightarrow> bool" where
  "at_end s w \<longleftrightarrow> st_pos s = length (content (inode w (st_inode s)))"

text \<open>What the world is like after writing to one file.\<close>

definition grown :: "world \<Rightarrow> nat \<Rightarrow> string \<Rightarrow> world \<Rightarrow> bool" where
  "grown w k t w' \<longleftrightarrow> dir w' = dir w \<and> no_failures w' \<and> no_locks w' = no_locks w \<and> now w' = now w \<and> gmtoff w' = gmtoff w \<and> listing w' = listing w
     \<and> (\<forall>j. j \<noteq> k \<longrightarrow> inode w' j = inode w j) \<and> content (inode w' k) = content (inode w k) @ t
     \<and> is_dir (inode w' k) = is_dir (inode w k)"

lemma grown_trans: "grown w k a w1 \<Longrightarrow> grown w1 k b w2 \<Longrightarrow> grown w k (a @ b) w2"
  by (simp add: grown_def)

lemma grown_calls: "no_failures w \<Longrightarrow> grown w k [] (w\<lparr>calls := n\<rparr>)"
  by (simp add: grown_def no_failures_def)

lemma grown_from_calls [simp]: "grown (w\<lparr>calls := n\<rparr>) k t w' = grown w k t w'"
  by (simp add: grown_def)

lemma fwrite_end:
  assumes "no_failures w" "at_end s w"
  shows "\<exists>s' w'. fwrite d s w = (True, s', w') \<and> grown w (st_inode s) d w' \<and> st_inode s' = st_inode s \<and> at_end s' w'"
  using assms by (auto simp: fwrite_def syscall_ok grown_def at_end_def overwrite_def set_inode_def no_failures_def Let_def)

lemma ftell_ok: "no_failures w \<Longrightarrow> ftell s w = (int (st_pos s), w\<lparr>calls := calls w + 1\<rparr>)"
  by (simp add: ftell_def syscall_ok)

lemma no_failures_calls [simp]: "no_failures (w\<lparr>calls := n\<rparr>) = no_failures w"
  by (simp add: no_failures_def)

lemma putindex_end:
  assumes "no_failures w" "at_end (nl_index nlp) w"
  shows "\<exists>fp w'. nodelist_putindex nlp b w = (True, nlp\<lparr>nl_index := fp\<rparr>, w')
    \<and> grown w (st_inode (nl_index nlp)) (chars (bni_entry b)) w' \<and> st_inode fp = st_inode (nl_index nlp) \<and> at_end fp w'"
  using fwrite_end [OF assms, of "chars (bni_entry b)"] by (auto simp: nodelist_putindex_def)

lemma index_loop_entries:
  assumes "no_failures w" "st_inode (nl_nodelist nlp) \<noteq> st_inode (nl_index nlp)"
    "\<not> is_dir (inode w (st_inode (nl_nodelist nlp)))" "at_end (nl_index nlp) w" "list_all plain_line ls"
    "drop (st_pos (nl_nodelist nlp)) (content (inode w (st_inode (nl_nodelist nlp)))) = lines_text ls"
    "length ls < n"
  shows "\<exists>nlp' w'. index_loop n nlp bni c w = Some (c + int (length (index_of bni (st_pos (nl_nodelist nlp)) ls)), nlp', w')
    \<and> grown w (st_inode (nl_index nlp)) (entries_text (map fst (index_of bni (st_pos (nl_nodelist nlp)) ls))) w'"
  using assms
proof (induction ls arbitrary: n nlp bni c w)
  case Nil
  let ?w = "w\<lparr>calls := calls w + 1\<rparr>"
  have "fgets 1023 (nl_nodelist nlp) ?w = (None, (nl_nodelist nlp)\<lparr>st_eof := True\<rparr>, ?w\<lparr>calls := calls ?w + 1\<rparr>)"
    using Nil by (intro fgets_end) simp_all
  then show ?case using Nil grown_calls [of w] by (cases n) (simp_all add: ftell_ok)
next
  case (Cons l ls)
  let ?s = "nl_nodelist nlp" and ?k = "st_inode (nl_index nlp)"
  let ?w = "w\<lparr>calls := calls w + 1 + 1\<rparr>"
  let ?nlp = "nlp\<lparr>nl_nodelist := ?s\<lparr>st_pos := st_pos ?s + length l + 1\<rparr>\<rparr>"
  obtain m where m: "n = Suc m" "length ls < m" using Cons.prems by (cases n) auto
  have g: "fgets 1023 ?s (w\<lparr>calls := calls w + 1\<rparr>) = (Some (l @ [CHR 0x0A]), nl_nodelist ?nlp, ?w)"
    using Cons.prems fgets_line [of "w\<lparr>calls := calls w + 1\<rparr>" ?s l 1023 "lines_text ls"] by simp
  obtain put b where il: "index_line (chomped l) (bni\<lparr>bni_offset := word_of_nat (st_pos ?s)\<rparr>) = (put, b)" by fastforce
  have rest: "drop (st_pos (nl_nodelist ?nlp)) (content (inode ?w (st_inode (nl_nodelist ?nlp)))) = lines_text ls"
  proof -
    have "drop (length l + 1) (drop (st_pos ?s) (content (inode w (st_inode ?s)))) = lines_text ls"
      by (simp add: Cons.prems)
    then show ?thesis by (simp add: add.commute add.left_commute)
  qed
  have eq: "index_loop n nlp bni c w =
      (if put then
         (case nodelist_putindex ?nlp b ?w of (ok, nlp, w) \<Rightarrow>
            if ok then index_loop m nlp b (c + 1) w else Some (-1, nlp, w))
       else index_loop m ?nlp b c ?w)"
    using g il Cons.prems(1) by (simp add: m ftell_ok chomped_def split: bool.split)
  show ?case
  proof (cases put)
    case False
    have "\<exists>nlp' w'. index_loop m ?nlp b c ?w = Some (c + int (length (index_of b (st_pos ?s + length l + 1) ls)), nlp', w')
        \<and> grown ?w ?k (entries_text (map fst (index_of b (st_pos ?s + length l + 1) ls))) w'"
      using Cons.IH [of ?w ?nlp m b c] Cons.prems m rest by (simp add: at_end_def)
    then show ?thesis
      using False il eq by simp
  next
    case True
    obtain fp w1 where p: "nodelist_putindex ?nlp b ?w = (True, ?nlp\<lparr>nl_index := fp\<rparr>, w1)"
      "grown ?w ?k (chars (bni_entry b)) w1" "st_inode fp = ?k" "at_end fp w1"
      using putindex_end [of ?w ?nlp b] Cons.prems by (auto simp: at_end_def)
    let ?nlp1 = "?nlp\<lparr>nl_index := fp\<rparr>"
    have "\<exists>nlp' w'. index_loop m ?nlp1 b (c + 1) w1 = Some (c + 1 + int (length (index_of b (st_pos ?s + length l + 1) ls)), nlp', w')
        \<and> grown w1 ?k (entries_text (map fst (index_of b (st_pos ?s + length l + 1) ls))) w'"
      using Cons.IH [of w1 ?nlp1 m b "c + 1"] Cons.prems m rest p by (simp add: grown_def)
    then show ?thesis
      using True il eq p(1,2) grown_trans [of w ?k "chars (bni_entry b)" w1] by fastforce
  qed
qed

section \<open>The whole way\<close>

lemma index_line_offset: "index_line l bni = (put, b) \<Longrightarrow> bni_offset b = bni_offset bni"
  by (auto simp: index_line_def place_def Let_def split: if_splits prod.splits option.splits nodelist_keyword.splits)

lemma index_of_lines:
  assumes "(b, t) \<in> set (index_of bni offset ls)" "list_all plain_line ls"
  shows "\<exists>k l r. t = chomped l \<and> plain_line l \<and> bni_offset b = word_of_nat (offset + k)
    \<and> drop k (lines_text ls) = l @ CHR 0x0A # r"
  using assms
proof (induction ls arbitrary: bni offset)
  case (Cons l ls)
  obtain put b' where il: "index_line (chomped l) (bni\<lparr>bni_offset := word_of_nat offset\<rparr>) = (put, b')" by fastforce
  show ?case
  proof (cases "(b, t) \<in> set (index_of b' (offset + length l + 1) ls)")
    case True
    with Cons obtain k l' r where k: "t = chomped l'" "plain_line l'" "bni_offset b = word_of_nat (offset + length l + 1 + k)"
      "drop k (lines_text ls) = l' @ CHR 0x0A # r" by fastforce
    have "drop (length l + 1 + k) (lines_text (l # ls)) = drop k (lines_text ls)" by simp
    then show ?thesis using k by (metis add.assoc)
  next
    case False
    then have "b = b' \<and> t = chomped l" using Cons.prems il by (auto split: if_splits)
    then show ?thesis using index_line_offset [OF il] Cons.prems by (intro exI [of _ 0]) auto
  qed
qed simp

lemma createheader_ok:
  assumes "no_failures w" "at_end (nl_index nlp) w" "st_pos (nl_index nlp) = 0"
  shows "\<exists>fp w'. nodelist_createheader nlp w = (True, nlp\<lparr>nl_index := fp\<rparr>, w')
    \<and> grown w (st_inode (nl_index nlp))
        (chars (nodelist_header (word_of_int (mtime (inode w (st_inode (nl_nodelist nlp)))))
           (word_of_nat (length (content (inode w (st_inode (nl_nodelist nlp)))))))) w'
    \<and> st_inode fp = st_inode (nl_index nlp) \<and> at_end fp w'"
proof -
  let ?w = "w\<lparr>calls := calls w + 1 + 1\<rparr>" and ?fp = "(nl_index nlp)\<lparr>st_pos := 0, st_eof := False\<rparr>"
  let ?d = "chars (nodelist_header (word_of_int (mtime (inode w (st_inode (nl_nodelist nlp)))))
           (word_of_nat (length (content (inode w (st_inode (nl_nodelist nlp)))))))"
  have "at_end ?fp ?w" using assms by (simp add: at_end_def)
  then obtain s' w' where "fwrite ?d ?fp ?w = (True, s', w')" "grown w (st_inode (nl_index nlp)) ?d w'"
    "st_inode s' = st_inode (nl_index nlp)" "at_end s' w'"
    using fwrite_end [of ?w ?fp ?d] assms by auto
  then show ?thesis
    using assms(1) by (simp add: nodelist_createheader_def nodelist_fstat_def fseek_def syscall_ok Let_def) blast
qed

lemma makeindex_ok:
  assumes "no_failures w" "st_inode (nl_nodelist nlp) \<noteq> st_inode (nl_index nlp)"
    "\<not> is_dir (inode w (st_inode (nl_nodelist nlp)))" "at_end (nl_index nlp) w" "st_pos (nl_index nlp) = 0"
    "st_pos (nl_nodelist nlp) = 0" "list_all plain_line ls"
    "content (inode w (st_inode (nl_nodelist nlp))) = lines_text ls"
    "bni = \<lparr>bni_zone = zone addr, bni_net = net addr, bni_node = node addr, bni_point = point addr, bni_hub = 0,
            bni_offset = 0\<rparr>"
  shows "\<exists>nlp' w'. nodelist_makeindex nlp addr w = Some (int (length (index_of bni 0 ls)), nlp', w')
    \<and> grown w (st_inode (nl_index nlp))
        (chars (nodelist_header (word_of_int (mtime (inode w (st_inode (nl_nodelist nlp)))))
           (word_of_nat (length (lines_text ls)))) @ entries_text (map fst (index_of bni 0 ls))) w'"
proof -
  obtain fp w1 where h: "nodelist_createheader nlp w = (True, nlp\<lparr>nl_index := fp\<rparr>, w1)"
    "grown w (st_inode (nl_index nlp)) (chars (nodelist_header (word_of_int (mtime (inode w (st_inode (nl_nodelist nlp)))))
           (word_of_nat (length (lines_text ls))))) w1"
    "st_inode fp = st_inode (nl_index nlp)" "at_end fp w1"
    using createheader_ok [OF assms(1,4,5)] assms(8) by auto
  have fuel: "length ls < length (lines_text ls) + 1" by (induction ls) auto
  have "inode w1 (st_inode (nl_nodelist nlp)) = inode w (st_inode (nl_nodelist nlp))" "no_failures w1"
    using h(2) assms(2) by (simp_all add: grown_def)
  with index_loop_entries [of w1 "nlp\<lparr>nl_index := fp\<rparr>" ls "length (lines_text ls) + 1" bni 0] fuel h(3,4) assms
  obtain nlp' w' where "index_loop (length (lines_text ls) + 1) (nlp\<lparr>nl_index := fp\<rparr>) bni 0 w1
      = Some (int (length (index_of bni 0 ls)), nlp', w')"
    "grown w1 (st_inode (nl_index nlp)) (entries_text (map fst (index_of bni 0 ls))) w'"
    by auto
  then show ?thesis
    using h(1) grown_trans [OF h(2)] assms(8,9) \<open>inode w1 _ = _\<close>
    by (auto simp: nodelist_makeindex_def Let_def simp del: index_loop.simps)
qed

abbreviation at_start :: "nat \<Rightarrow> stream" where
  "at_start i \<equiv> \<lparr>st_inode = i, st_pos = 0, st_append = False, st_eof = False\<rparr>"

lemma open_existing:
  assumes "no_failures w" "dir w p = Some i" "\<not> is_dir (inode w i)"
  shows "\<exists>n. file_open p Mode_r w = (Some (at_start i), w\<lparr>calls := n\<rparr>)"
  using file_open_ok [OF assms(1), of p Mode_r "at_start i"] assms by (auto simp: fopen_def syscall_ok)

lemma open_written:
  assumes "no_failures w" "case dir w p of None \<Rightarrow> True | Some k \<Rightarrow> \<not> is_dir (inode w k)"
    "dir w p \<noteq> Some i" "i \<noteq> next_inode w"
  shows "\<exists>k w1. file_open p Mode_w w = (Some (at_start k), w1) \<and> k \<noteq> i \<and> dir w1 = (dir w)(p := Some k)
    \<and> no_failures w1 \<and> inode w1 i = inode w i \<and> content (inode w1 k) = [] \<and> \<not> is_dir (inode w1 k)"
proof (cases "dir w p")
  case None
  then have "fopen p Mode_w w = (Some (at_start (next_inode w)), snd (new_file p (w\<lparr>calls := calls w + 1\<rparr>)))"
    using assms(1) by (simp add: fopen_def syscall_ok new_file_def)
  from file_open_ok [OF assms(1) this] show ?thesis using assms None by (auto simp: new_file_def no_failures_def)
next
  case (Some k)
  then have "fopen p Mode_w w = (Some (at_start k), set_inode k (\<lambda>f. f\<lparr>content := [], mtime := now w\<rparr>) (w\<lparr>calls := calls w + 1\<rparr>))"
    using assms by (simp add: fopen_def syscall_ok Let_def)
  from file_open_ok [OF assms(1) this] show ?thesis
    using assms Some by (auto simp: set_inode_def no_failures_def fun_upd_idem)
qed

definition nodelist_path :: "string \<Rightarrow> string \<Rightarrow> string" where
  "nodelist_path dirname name = take 256 (take 256 dirname @ name)"

definition index_path :: "string \<Rightarrow> string \<Rightarrow> string" where
  "index_path dirname name = take 256 (nodelist_path dirname name @ ''.index'')"

definition plain_name :: "string \<Rightarrow> bool" where
  "plain_name name \<longleftrightarrow> peek name \<noteq> CHR ''/'' \<and> \<not> is_nodelist_mask name"

lemma open_plain:
  "plain_name name \<Longrightarrow> nodelist_open ctime dirname name writing w =
     (case file_open (nodelist_path dirname name) Mode_r w of
        (None, w) \<Rightarrow> (Failed, w)
      | (Some fp_nodelist, w) \<Rightarrow>
          (case file_open (index_path dirname name) (if writing then Mode_w else Mode_r) w of
             (None, w) \<Rightarrow> (Failed, snd (fclose fp_nodelist w))
           | (Some fp_index, w) \<Rightarrow>
               let nlp = \<lparr>nl_index = fp_index, nl_nodelist = fp_nodelist\<rparr> in
               if writing then (Opened nlp, w)
               else
                 (case nodelist_checkheader nlp w of (ok, nlp, w) \<Rightarrow>
                    if ok then (Opened nlp, w)
                    else (Failed, snd (file_close (nl_index nlp) (snd (file_close fp_nodelist w)))))))"
  by (simp only: nodelist_open_def nodelist_name_def plain_name_def nodelist_path_def index_path_def Let_def
      if_False option.case simp_thms cong: if_cong)

lemma open_for_writing:
  assumes "no_failures w" "plain_name name" "dir w (nodelist_path dirname name) = Some i" "\<not> is_dir (inode w i)"
    "case dir w (index_path dirname name) of None \<Rightarrow> True | Some k \<Rightarrow> \<not> is_dir (inode w k)"
    "dir w (index_path dirname name) \<noteq> Some i" "i \<noteq> next_inode w"
  shows "\<exists>k w1. nodelist_open ctime dirname name True w = (Opened \<lparr>nl_index = at_start k, nl_nodelist = at_start i\<rparr>, w1)
    \<and> k \<noteq> i \<and> dir w1 = (dir w)(index_path dirname name := Some k) \<and> no_failures w1 \<and> inode w1 i = inode w i
    \<and> content (inode w1 k) = [] \<and> \<not> is_dir (inode w1 k)"
proof -
  obtain n where r: "file_open (nodelist_path dirname name) Mode_r w = (Some (at_start i), w\<lparr>calls := n\<rparr>)"
    using open_existing assms(1,3,4) by blast
  obtain k w1 where "file_open (index_path dirname name) Mode_w (w\<lparr>calls := n\<rparr>) = (Some (at_start k), w1)"
    "k \<noteq> i \<and> dir w1 = (dir w)(index_path dirname name := Some k) \<and> no_failures w1 \<and> inode w1 i = inode w i
      \<and> content (inode w1 k) = [] \<and> \<not> is_dir (inode w1 k)"
    using open_written [of "w\<lparr>calls := n\<rparr>" "index_path dirname name" i] assms by (auto split: option.splits)
  then show ?thesis using r assms(2) by (simp add: open_plain)
qed

lemma length_header [simp]: "length (nodelist_header m s) = NODELIST_HDRSIZE"
  by (simp add: nodelist_header_def nodelist_sizes)

lemma header_read:
  assumes "unat m < 2 ^ 32" "unat s < 2 ^ 32"
  shows "buffer_getlong (nodelist_header m s) = m" "buffer_getlong (drop 4 (nodelist_header m s)) = s"
  using assms by (simp_all add: nodelist_header_def getlong_put)

lemma open_for_reading:
  assumes "no_failures w" "plain_name name" "dir w (nodelist_path dirname name) = Some i" "\<not> is_dir (inode w i)"
    "dir w (index_path dirname name) = Some k" "\<not> is_dir (inode w k)"
    "content (inode w k) = chars (nodelist_header (word_of_int (mtime (inode w i))) (word_of_nat (length (content (inode w i))))) @ t"
    "0 \<le> mtime (inode w i)" "mtime (inode w i) < 2 ^ 32" "length (content (inode w i)) < 2 ^ 32"
  shows "\<exists>fp n. nodelist_open ctime dirname name False w = (Opened \<lparr>nl_index = fp, nl_nodelist = at_start i\<rparr>, w\<lparr>calls := n\<rparr>)
    \<and> st_inode fp = k"
proof -
  obtain n where r: "file_open (nodelist_path dirname name) Mode_r w = (Some (at_start i), w\<lparr>calls := n\<rparr>)"
    using open_existing assms(1,3,4) by blast
  obtain n' where x: "file_open (index_path dirname name) Mode_r (w\<lparr>calls := n\<rparr>) = (Some (at_start k), w\<lparr>calls := n'\<rparr>)"
    using open_existing [of "w\<lparr>calls := n\<rparr>" "index_path dirname name" k] assms by auto
  let ?m = "word_of_int (mtime (inode w i)) :: u64" and ?s = "word_of_nat (length (content (inode w i))) :: u64"
  have "unat ?m < 2 ^ 32" "unat ?s < 2 ^ 32"
    using assms(8-10) by (simp_all add: unat_eq_nat_uint unsigned_of_int unsigned_of_nat take_bit_int_eq_self
        take_bit_nat_eq_self nat_less_iff)
  note h = header_read [OF this]
  have f: "fread NODELIST_HDRSIZE (at_start k) (w\<lparr>calls := n'\<rparr>) = (chars (nodelist_header ?m ?s),
      (at_start k)\<lparr>st_pos := NODELIST_HDRSIZE\<rparr>, w\<lparr>calls := n' + 1\<rparr>)"
    using fread_ok [of "w\<lparr>calls := n'\<rparr>" "at_start k"] assms(1,6,7) by (simp add: Let_def)
  show ?thesis
    using r x f h assms(1,2) by (simp add: open_plain nodelist_checkheader_def nodelist_fstat_def syscall_ok Let_def) blast
qed

text \<open>What an address has in a list of entries.\<close>

definition listed_line :: "s_faddr \<Rightarrow> (s_bni \<times> string) list \<Rightarrow> string option" where
  "listed_line addr es = map_option snd (find (\<lambda>(b, _). bni_matches addr b) es)"

lemma find_entry: "find (bni_matches addr) (map fst es) = map_option fst (find (\<lambda>(b, _). bni_matches addr b) es)"
  by (induction es) auto

lemma getstr_line:
  assumes "no_failures w" "\<not> is_dir (inode w (st_inode (nl_nodelist nlp)))" "content (inode w (st_inode (nl_nodelist nlp))) = lines_text ls"
    "drop k (lines_text ls) = l @ CHR 0x0A # r" "plain_line l"
  shows "\<exists>nlp' n. nodelist_getstr nlp k 512 w = (Some (chomped l), nlp', w\<lparr>calls := n\<rparr>)"
proof -
  have "fgets 511 ((nl_nodelist nlp)\<lparr>st_pos := k, st_eof := False\<rparr>) (w\<lparr>calls := calls w + 1\<rparr>) =
    (Some (l @ [CHR 0x0A]), (nl_nodelist nlp)\<lparr>st_pos := k + length l + 1, st_eof := False\<rparr>, w\<lparr>calls := calls w + 1 + 1\<rparr>)"
    using fgets_line [of "w\<lparr>calls := calls w + 1\<rparr>" "(nl_nodelist nlp)\<lparr>st_pos := k, st_eof := False\<rparr>" l 511 r] assms
    by simp
  then show ?thesis
    using assms(1) by (simp add: nodelist_getstr_def fseek_def syscall_ok chomped_def) blast
qed

lemma lookup_read:
  assumes "no_failures w" "\<not> is_dir (inode w i)" "\<not> is_dir (inode w (st_inode fp))"
    "content (inode w i) = lines_text ls" "list_all plain_line ls" "length (lines_text ls) < 2 ^ 32"
    "content (inode w (st_inode fp)) = chars (nodelist_header m s) @ entries_text (map fst (index_of bni 0 ls))"
    "list_all bni_fits (map fst (index_of bni 0 ls))"
    "nodelist_open ctime dirname name False w0 = (Opened \<lparr>nl_index = fp, nl_nodelist = at_start i\<rparr>, w)"
    "ftn_addrcomp_mask addr m' = 0"
  shows "map_option fst (lookup_in ctime (Some dirname) 512 addr [(m', Some name)] w0)
    = Some (listed_line addr (index_of bni 0 ls))"
proof -
  let ?es = "index_of bni 0 ls" and ?fp = "fp\<lparr>st_pos := NODELIST_HDRSIZE, st_eof := False\<rparr>"
  have "drop (st_pos ?fp) (content (inode (w\<lparr>calls := calls w + 1\<rparr>) (st_inode ?fp))) = entries_text (map fst ?es)"
    using assms(7) by simp
  from findindex_loop_find [OF _ _ assms(8) this, of addr]
  obtain fp' n where f: "nodelist_findindex \<lparr>nl_index = fp, nl_nodelist = at_start i\<rparr> addr w
      = (map_option fst (find (\<lambda>(b, _). bni_matches addr b) ?es), \<lparr>nl_index = fp', nl_nodelist = at_start i\<rparr>, w\<lparr>calls := n\<rparr>)"
    using assms(1,3) by (auto simp: nodelist_findindex_def fseek_def syscall_ok find_entry)
  show ?thesis
  proof (cases "find (\<lambda>(b, _). bni_matches addr b) ?es")
    case None
    then show ?thesis using f assms(9,10) by (simp add: listed_line_def split: prod.split)
  next
    case (Some e)
    obtain b t where e: "e = (b, t)" by fastforce
    with Some have "(b, t) \<in> set ?es" by (metis find_Some_iff nth_mem)
    then obtain k l r where k: "t = chomped l" "plain_line l" "bni_offset b = word_of_nat k"
      "drop k (lines_text ls) = l @ CHR 0x0A # r"
      using index_of_lines [OF _ assms(5)] by fastforce
    have "k < length (lines_text ls)" using k(4) by (metis append_is_Nil_conv drop_eq_Nil leI list.distinct(1))
    then have "unat (bni_offset b) = k"
      using assms(6) k(3) by (simp add: unsigned_of_nat take_bit_nat_eq_self)
    then obtain nlp' n' where "nodelist_getstr \<lparr>nl_index = fp', nl_nodelist = at_start i\<rparr> (unat (bni_offset b)) 512 (w\<lparr>calls := n\<rparr>)
        = (Some t, nlp', w\<lparr>calls := n'\<rparr>)"
      using getstr_line [of "w\<lparr>calls := n\<rparr>" "\<lparr>nl_index = fp', nl_nodelist = at_start i\<rparr>" ls k l r] assms k by auto
    then show ?thesis using f assms(9,10) Some e by (simp add: listed_line_def split: prod.split)
  qed
qed

section \<open>Properties\<close>

text \<open>
  C25: A nodelist and its index. When no system call fails, the nodelist's file is made of lines of
  fewer than 511 characters and, with its date, fits the 32 bits of the header, and the numbers of its
  entries fit 16 bits, then \<open>bfindex\<close> writes an entry for each line that is one, and the lookup of an
  address afterwards accepts the index and yields the first line listed under that address, without
  its line end, and nothing for an address that is not listed.
\<close>

theorem nodelist_lookup_finds:
  assumes "fails w = (\<lambda>n. False)" "plain_name name" "dir w (nodelist_path dirname name) = Some i"
    "\<not> is_dir (inode w i)" "i \<noteq> next_inode w"
    "case dir w (index_path dirname name) of None \<Rightarrow> True | Some k \<Rightarrow> k \<noteq> i \<and> \<not> is_dir (inode w k)"
    "content (inode w i) = lines_text ls" "list_all plain_line ls" "length (lines_text ls) < 2 ^ 32"
    "0 \<le> mtime (inode w i)" "mtime (inode w i) < 2 ^ 32" "ftn_addrcomp_mask addr a = 0"
    "es = index_of \<lparr>bni_zone = zone a, bni_net = net a, bni_node = node a, bni_point = point a, bni_hub = 0, bni_offset = 0\<rparr> 0 ls"
    "list_all bni_fits (map fst es)"
  shows "case compile_nodelist ctime dirname name a w of None \<Rightarrow> False
    | Some (n, w') \<Rightarrow> n = int (length es)
        \<and> map_option fst (lookup_in ctime (Some dirname) 512 addr [(a, Some name)] w') = Some (listed_line addr es)"
proof -
  let ?px = "index_path dirname name"
  have nf: "no_failures w" and px: "dir w ?px \<noteq> Some i" "case dir w ?px of None \<Rightarrow> True | Some k \<Rightarrow> \<not> is_dir (inode w k)"
    using assms(1,6) by (auto simp: no_failures_def split: option.splits)
  obtain k w1 where o: "nodelist_open ctime dirname name True w = (Opened \<lparr>nl_index = at_start k, nl_nodelist = at_start i\<rparr>, w1)"
    and w1: "k \<noteq> i" "dir w1 = (dir w)(?px := Some k)" "no_failures w1" "inode w1 i = inode w i"
      "content (inode w1 k) = []" "\<not> is_dir (inode w1 k)"
    using open_for_writing [OF nf assms(2,3,4) px(2,1) assms(5), of ctime] by blast
  let ?h = "chars (nodelist_header (word_of_int (mtime (inode w i))) (word_of_nat (length (lines_text ls))))"
  obtain nlp w2 where m: "nodelist_makeindex \<lparr>nl_index = at_start k, nl_nodelist = at_start i\<rparr> a w1 = Some (int (length es), nlp, w2)"
    and g: "grown w1 k (?h @ entries_text (map fst es)) w2"
    using makeindex_ok [OF w1(3), of "\<lparr>nl_index = at_start k, nl_nodelist = at_start i\<rparr>" ls _ a] w1 assms(4,7,8,13)
    by (auto simp: at_end_def)
  obtain c where cl: "snd (nodelist_close nlp w2) = w2\<lparr>calls := c\<rparr>"
    by (simp add: nodelist_close_def file_close_def fclose_def syscall_def)
  let ?w = "w2\<lparr>calls := c\<rparr>"
  have pe: "nodelist_path dirname name \<noteq> ?px" using assms(3) px(1) by auto
  have w2: "no_failures ?w" "dir ?w (nodelist_path dirname name) = Some i" "dir ?w ?px = Some k" "inode ?w i = inode w i"
    "content (inode ?w k) = ?h @ entries_text (map fst es)" "\<not> is_dir (inode ?w k)"
    using g w1 assms(3) pe by (auto simp: grown_def)
  obtain fp n where r: "nodelist_open ctime dirname name False ?w = (Opened \<lparr>nl_index = fp, nl_nodelist = at_start i\<rparr>, ?w\<lparr>calls := n\<rparr>)"
    "st_inode fp = k"
    using open_for_reading [OF w2(1) assms(2) w2(2) _ w2(3,6), of _ ctime] w2 assms by auto
  have "map_option fst (lookup_in ctime (Some dirname) 512 addr [(a, Some name)] ?w) = Some (listed_line addr es)"
    unfolding assms(13)
    using r w2 assms by (intro lookup_read [where i = i and fp = fp and w = "?w\<lparr>calls := n\<rparr>"]) auto
  then show ?thesis using o m cl by (simp add: compile_nodelist_def)
qed

definition any_addr :: s_faddr where
  "any_addr = zero_faddr\<lparr>zone := -1, net := -1, node := -1, point := -1\<rparr>"

definition zone_seven :: s_faddr where
  "zone_seven = zero_faddr\<lparr>zone := 2, net := 0, node := 7, point := 0\<rparr>"

definition two_lines :: "string list" where
  "two_lines = [''Zone,2,E'', '',7,S'']"

definition two_entries :: "(s_bni \<times> string) list" where
  "two_entries = [(\<lparr>bni_zone = 2, bni_net = 0, bni_node = 0, bni_point = 0, bni_hub = 0, bni_offset = 0\<rparr>, ''Zone,2,E''),
    (\<lparr>bni_zone = 2, bni_net = 0, bni_node = 7, bni_point = 0, bni_hub = 0, bni_offset = 9\<rparr>, '',7,S'')]"

lemma two_chomped: "chomped ''Zone,2,E'' = ''Zone,2,E''" "chomped '',7,S'' = '',7,S''"
  by (simp_all add: chomped_def string_chomp_def)

lemma two_indexed:
  "index_line ''Zone,2,E'' b = (True, b\<lparr>bni_zone := 2, bni_net := 0, bni_node := 0, bni_point := 0, bni_hub := 0\<rparr>)"
  "index_line '',7,S'' b = (True, b\<lparr>bni_node := 7, bni_point := 0\<rparr>)"
proof -
  have n: "atoi ''2'' = 2" "atoi ''7'' = 7"
    by (simp_all add: atoi_def strtol_def Let_def isspace_def isdigit_def radix_val_def digit_val_def long_max_def to_int_def)
  have s: "split_line ''Zone,2,E'' = (''Zone'', Some ''2'')" "split_line '',7,S'' = ([], Some ''7'')"
    by (simp_all add: split_line_def)
  have k: "nodelist_keywordval ''Zone'' = Some KEYWORD_ZONE" "nodelist_keywordval [] = Some KEYWORD_EMPTY"
    by (simp_all add: nodelist_keywordval_def nodelist_keywords_def)
  show "index_line ''Zone,2,E'' b = (True, b\<lparr>bni_zone := 2, bni_net := 0, bni_node := 0, bni_point := 0, bni_hub := 0\<rparr>)"
    "index_line '',7,S'' b = (True, b\<lparr>bni_node := 7, bni_point := 0\<rparr>)"
    by (simp_all add: index_line_def n s k place_def ISDEC_def Let_def)
qed

lemma two_entries_eq:
  "two_entries = index_of \<lparr>bni_zone = zone any_addr, bni_net = net any_addr, bni_node = node any_addr,
     bni_point = point any_addr, bni_hub = 0, bni_offset = 0\<rparr> 0 two_lines"
  by (simp add: two_lines_def two_chomped two_indexed two_entries_def)

definition two_world :: world where
  "two_world = \<lparr>dir = (\<lambda>p. if p = ''/l/n'' then Some 0 else None),
     inode = (\<lambda>_. \<lparr>content = lines_text two_lines, mtime = 5, fmode = 420, is_dir = False\<rparr>),
     next_inode = 1, now = 9, gmtoff = 0, fails = (\<lambda>_. False), calls = 0, no_locks = False, statvfs = (\<lambda>_. None),
     listing = (\<lambda>_. None), rands = (\<lambda>_. 0), drawn = 0\<rparr>"

theorem nodelist_lookup_finds_witness:
  "case compile_nodelist (\<lambda>_. 0) ''/l/'' ''n'' any_addr two_world of None \<Rightarrow> False
    | Some (n, w') \<Rightarrow> n = 2
        \<and> map_option fst (lookup_in (\<lambda>_. 0) (Some ''/l/'') 512 zone_seven [(any_addr, Some ''n'')] w') = Some (Some '',7,S'')"
proof -
  have "listed_line zone_seven two_entries = Some '',7,S''"
    by (simp add: listed_line_def two_entries_def zone_seven_def bni_matches_def zero_faddr_def)
  moreover have "length two_entries = 2" by (simp add: two_entries_def)
  moreover have "case compile_nodelist (\<lambda>_. 0) ''/l/'' ''n'' any_addr two_world of None \<Rightarrow> False
    | Some (n, w') \<Rightarrow> n = int (length two_entries)
        \<and> map_option fst (lookup_in (\<lambda>_. 0) (Some ''/l/'') 512 zone_seven [(any_addr, Some ''n'')] w')
          = Some (listed_line zone_seven two_entries)"
    by (rule nodelist_lookup_finds [where i = 0 and ls = two_lines, OF _ _ _ _ _ _ _ _ _ _ _ _ two_entries_eq])
      (simp_all add: two_world_def nodelist_path_def index_path_def two_lines_def plain_name_def
        is_nodelist_mask_def plain_line_def any_addr_def zero_faddr_def ftn_addrcomp_mask_def two_entries_def bni_fits_def)
  ultimately show ?thesis by (simp only: of_nat_numeral)
qed

subsection \<open>Flags\<close>

text \<open>What a place in the flags says: the flag, the flag with a value, or at the end of the flags its beginning.\<close>

definition flag_at :: "string \<Rightarrow> string \<Rightarrow> bool" where
  "flag_at flag p \<longleftrightarrow> take (length flag) p = flag
     \<and> (CHR '','' \<notin> set p
        \<or> length (takeWhile (\<lambda>c. c \<noteq> CHR '','') p) = length flag
        \<or> length (takeWhile (\<lambda>c. c \<noteq> CHR '':'') p) = length flag)"

fun flag_from :: "bool \<Rightarrow> string \<Rightarrow> string \<Rightarrow> bool" where
  "flag_from b flag [] = False"
| "flag_from b flag (c # s) = (b \<and> flag_at flag (c # s) \<or> flag_from (c = CHR '','') flag s)"

lemma strstr_first:
  assumes "strstr s f = Some (a, p)" "f \<noteq> []"
  shows "flag_from b f s = flag_from (if a = [] then b else last a = CHR '','') f p"
  using assms
proof (induction s f arbitrary: a b rule: strstr.induct)
  case (1 s f)
  show ?case
  proof (cases "take (length f) s = f")
    case True
    then show ?thesis using "1.prems" by (subst (asm) strstr.simps) auto
  next
    case False
    with "1.prems" obtain c cs x where s: "s = c # cs" "strstr cs f = Some (x, p)" "a = c # x"
      by (subst (asm) strstr.simps) (auto split: list.splits)
    show ?thesis using "1.IH" [OF False s(1) s(2)] "1.prems"(2) False s by (simp add: flag_at_def)
  qed
qed

lemma strstr_never:
  assumes "strstr s f = None" "f \<noteq> []" shows "\<not> flag_from b f s"
  using assms
proof (induction s f arbitrary: b rule: strstr.induct)
  case (1 s f)
  then show ?case by (subst (asm) strstr.simps) (auto simp: flag_at_def split: if_splits list.splits)
qed

lemma checkflag_from:
  assumes "c \<noteq> d" "c \<noteq> CHR '',''" "b \<or> take (length f) s \<noteq> f" "f = c # d # r"
  shows "nodelist_checkflag s f = flag_from b f s"
  using assms
proof (induction s f arbitrary: b rule: nodelist_checkflag.induct)
  case (1 s f)
  show ?case
  proof (cases "strstr s f")
    case None
    then show ?thesis using strstr_never 1 by (subst nodelist_checkflag.simps) simp
  next
    case (Some ap)
    obtain a p where ap: "ap = (a, p)" by fastforce
    have sp: "s = a @ p" "take (length f) p = f" using strstr_some Some ap by blast+
    obtain q where p: "p = c # d # q" using sp(2) "1.prems"(4) by (cases p; cases "tl p") auto
    have b: "(if a = [] then b else last a = CHR '','') = (a = [] \<or> last a = CHR '','')"
      using "1.prems"(3) sp by auto
    have eq: "flag_from b f s = ((a = [] \<or> last a = CHR '','') \<and> flag_at f p \<or> flag_from False f (tl p))"
      using strstr_first [of s f a p b] Some ap b "1.prems" p by simp
    have "nodelist_checkflag (tl p) f = flag_from False f (tl p)"
      if "\<not> ((a = [] \<or> last a = CHR '','') \<and> flag_at f p)"
    proof (rule "1.IH" [OF Some ap [symmetric]])
      show "\<not> ((a = [] \<or> last a = CHR '','') \<and> (CHR '','' \<notin> set p
          \<or> length (takeWhile (\<lambda>c. c \<noteq> CHR '','') p) = length f \<or> length (takeWhile (\<lambda>c. c \<noteq> CHR '':'') p) = length f))"
        using that sp(2) by (simp add: flag_at_def)
    qed (use 1 p in auto)
    then show ?thesis
      using Some ap eq sp(2) p by (subst nodelist_checkflag.simps) (auto simp: flag_at_def)
  qed
qed

definition flag_listed :: "string \<Rightarrow> string list \<Rightarrow> bool" where
  "flag_listed flag fs \<longleftrightarrow> list_ex (\<lambda>f. f = flag \<or> take (length flag + 1) f = flag @ '':'') fs
     \<or> fs \<noteq> [] \<and> take (length flag) (last fs) = flag"

lemma flag_from_skip:
  assumes "CHR '','' \<notin> set s"
  shows "flag_from False f (s @ r) = (case r of [] \<Rightarrow> False | c # t \<Rightarrow> flag_from False f r)"
  using assms by (induction s) (auto split: list.split)

lemma prefix_of_field:
  assumes "c \<notin> set f" "take (length f) (w @ c # r) = f"
  shows "take (length f) w = f"
proof (rule ccontr)
  assume "take (length f) w \<noteq> f"
  with assms(2) have "length w < length f" by (cases "length f \<le> length w") auto
  then obtain n where n: "length f = length w + Suc n" by (metis less_imp_Suc_add add_Suc_right)
  then have "take (length f) (w @ c # r) = w @ c # take n r" by simp
  then show False using assms by (metis in_set_conv_decomp)
qed

lemma takeWhile_all: "c \<notin> set f \<Longrightarrow> takeWhile (\<lambda>x. x \<noteq> c) (f @ s) = f @ takeWhile (\<lambda>x. x \<noteq> c) s"
  by (induction f) auto

lemma flag_at_field:
  assumes "CHR '','' \<notin> set f" "CHR '':'' \<notin> set f" "CHR '','' \<notin> set w"
  shows "flag_at f (w @ CHR '','' # r) = (w = f \<or> take (length f + 1) w = f @ '':'')"
proof (cases "take (length f) w = f")
  case True
  then obtain v where w: "w = f @ v" by (metis append_take_drop_id)
  have "length (takeWhile (\<lambda>c. c \<noteq> CHR '':'') (w @ CHR '','' # r)) = length f
      \<longleftrightarrow> v \<noteq> [] \<and> hd v = CHR '':''"
    using takeWhile_all [OF assms(2), of "v @ CHR '','' # r"] w by (cases v) auto
  moreover have "length (takeWhile (\<lambda>c. c \<noteq> CHR '','') (w @ CHR '','' # r)) = length w"
    using takeWhile_all [OF assms(3), of "CHR '','' # r"] by simp
  ultimately show ?thesis using w by (cases v) (auto simp: flag_at_def)
next
  case False
  then have "take (length f + 1) w \<noteq> f @ '':''" by (metis append_eq_conv_conj take_take min.absorb1 le_add1)
  then show ?thesis using False prefix_of_field [OF assms(1), of w r] by (auto simp: flag_at_def)
qed

lemma flag_from_field:
  assumes "CHR '','' \<notin> set w" "f = c # d # q" "c \<noteq> CHR '',''"
  shows "flag_from True f (w @ CHR '','' # r) = (flag_at f (w @ CHR '','' # r) \<or> flag_from True f r)"
  using assms flag_from_skip [of "tl w" f "CHR '','' # r"] by (cases w) (auto simp: flag_at_def)

lemma flag_from_last:
  assumes "CHR '','' \<notin> set w" "f = c # q"
  shows "flag_from True f w = (take (length f) w = f)"
  using assms flag_from_skip [of "tl w" f "[]"] by (cases w) (auto simp: flag_at_def)

lemma flag_from_join:
  assumes "f = c # d # q" "CHR '','' \<notin> set f" "CHR '':'' \<notin> set f" "list_all (\<lambda>w. CHR '','' \<notin> set w) fs"
  shows "flag_from True f (join (CHR '','') fs) = flag_listed f fs"
  using assms(4)
proof (induction fs rule: induct_list012)
  case (2 w)
  have "take (length f) w = f" if "take (length f + 1) w = f @ '':''"
    using that by (metis append_eq_conv_conj take_take min.absorb1 le_add1)
  then show ?case using 2 flag_from_last [of w f c] assms(1) by (auto simp: flag_listed_def)
next
  case (3 w v ws)
  then show ?case
    using flag_from_field [of w f c d q "join (CHR '','') (v # ws)"] flag_at_field [OF assms(2,3), of w] assms(1,2)
    by (auto simp: flag_listed_def)
qed (simp add: flag_listed_def)

text \<open>
  C26: The flags of a node, read as a list. For a flag of two characters or more, the first two of them
  different and none a comma or a colon (as are all the flags the program asks for), \<open>nodelist_checkflag\<close>
  finds it in the text exactly when it is one of the flags between the commas, alone or with a value
  behind a colon, or when the very last flag begins with it: there a longer name is taken for it.
\<close>

theorem checkflag_listed:
  assumes "flag = c # d # r" "c \<noteq> d" "CHR '','' \<notin> set flag" "CHR '':'' \<notin> set flag"
    "list_all (\<lambda>w. CHR '','' \<notin> set w) fs"
  shows "nodelist_checkflag (join (CHR '','') fs) flag = flag_listed flag fs"
  using checkflag_from [of c d True flag "join (CHR '','') fs" r] flag_from_join [OF assms(1,3,4,5)] assms by auto

theorem checkflag_listed_witness:
  "nodelist_checkflag (join (CHR '','') [''CM'', ''IBN:24555'', ''INAX'']) ''IBN''
   \<and> nodelist_checkflag (join (CHR '','') [''CM'', ''IBN:24555'', ''INAX'']) ''INA''
   \<and> \<not> nodelist_checkflag (join (CHR '','') [''INAX'', ''CM'']) ''INA''"
proof -
  let ?a = "[''CM'', ''IBN:24555'', ''INAX'']" and ?b = "[''INAX'', ''CM'']"
  have "nodelist_checkflag (join (CHR '','') ?a) ''IBN'' = flag_listed ''IBN'' ?a"
    "nodelist_checkflag (join (CHR '','') ?a) ''INA'' = flag_listed ''INA'' ?a"
    "nodelist_checkflag (join (CHR '','') ?b) ''INA'' = flag_listed ''INA'' ?b"
    by (rule checkflag_listed [OF refl]; simp)+
  then show ?thesis by (simp only: flag_listed_def) simp
qed

end
