(* ===== verification/Binkp.thy ===== *)
theory Binkp
  imports ProtCommon Nodelist BinkpCrypt
begin

text \<open>
  The BinkP protocol (\<open>prot_binkp.c\<close>, \<open>prot_binkp_misc.c\<close>, \<open>prot_binkp_api.c\<close>): the loop that reads and
  writes blocks, the handshake of both sides, the exchange of files, and what the rest of the mailer
  calls. One pass of the loop is a function of what the operating system gives in it.
\<close>

section \<open>The code\<close>

subsection \<open>Messages and state\<close>

datatype e_bpmsg = BPMSG_NUL | BPMSG_ADR | BPMSG_PWD | BPMSG_FILE | BPMSG_OK | BPMSG_EOB | BPMSG_GOT
  | BPMSG_ERR | BPMSG_BSY | BPMSG_GET | BPMSG_SKIP

definition bpmsgs :: "e_bpmsg list" where
  "bpmsgs = [BPMSG_NUL, BPMSG_ADR, BPMSG_PWD, BPMSG_FILE, BPMSG_OK, BPMSG_EOB, BPMSG_GOT, BPMSG_ERR, BPMSG_BSY,
     BPMSG_GET, BPMSG_SKIP]"

fun bpmsg_code :: "e_bpmsg \<Rightarrow> nat" where
  "bpmsg_code BPMSG_NUL = 0" | "bpmsg_code BPMSG_ADR = 1" | "bpmsg_code BPMSG_PWD = 2" | "bpmsg_code BPMSG_FILE = 3"
| "bpmsg_code BPMSG_OK = 4" | "bpmsg_code BPMSG_EOB = 5" | "bpmsg_code BPMSG_GOT = 6" | "bpmsg_code BPMSG_ERR = 7"
| "bpmsg_code BPMSG_BSY = 8" | "bpmsg_code BPMSG_GET = 9" | "bpmsg_code BPMSG_SKIP = 10"

definition bpmsg_of :: "char \<Rightarrow> e_bpmsg option" where
  "bpmsg_of c = (if ord c < length bpmsgs then Some (bpmsgs ! ord c) else None)"

datatype e_binkp_mode = bmode_failoff | bmode_incoming_handshake | bmode_outgoing_handshake | bmode_transfer | bmode_complete

datatype e_file_receive_status = frs_nothing | frs_data | frs_didget | frs_skipping

datatype block_type = BINKP_BLK_CMD | BINKP_BLK_DATA

definition BINKP_OPT_NR :: u32 where "BINKP_OPT_NR = 0x01"
definition BINKP_OPT_MB :: u32 where "BINKP_OPT_MB = 0x02"
definition BINKP_OPT_MPWD :: u32 where "BINKP_OPT_MPWD = 0x04"
definition BINKP_OPT_MD5 :: u32 where "BINKP_OPT_MD5 = 0x08"
definition BINKP_OPT_SHA1 :: u32 where "BINKP_OPT_SHA1 = 0x10"
definition BINKP_OPT_DES :: u32 where "BINKP_OPT_DES = 0x20"
definition BINKP_OPT_CRYPT :: u32 where "BINKP_OPT_CRYPT = 0x40"

text \<open>The challenge is as long as \<open>challenge_length\<close>.\<close>

record s_binkp_sysinfo =
  bi_passwd :: string
  bi_systname :: string
  bi_location :: string
  bi_sysop :: string
  bi_phone :: string
  bi_flags :: string
  bi_progname :: string
  bi_protname :: string
  bi_timestr :: string
  bi_opt :: string
  bi_majorver :: int
  bi_minorver :: int
  bi_options :: u32
  bi_challenge :: "byte list"
  bi_has_TRF :: bool
  bi_TRF_PKT :: int
  bi_TRF_other :: int
  bi_keys_out :: binkp_keys
  bi_keys_in :: binkp_keys

definition has_opt :: "s_binkp_sysinfo \<Rightarrow> u32 \<Rightarrow> bool" where
  "has_opt b opt \<longleftrightarrow> bi_options b AND opt \<noteq> 0"

record s_bpfinfo =
  bp_fn :: string
  bp_sz :: u64
  bp_tm :: int
  bp_offs :: u64

text \<open>\<open>bs_extracmd\<close> is a message the receiver has for the sender, \<open>None\<close> where its first byte is -1.\<close>

record s_binkp_state =
  bs_mode :: e_binkp_mode
  bs_phase :: int
  bs_subphase :: int
  bs_local :: s_binkp_sysinfo
  bs_remote :: s_binkp_sysinfo
  bs_pi :: s_protinfo
  bs_address_established :: bool
  bs_extracmd :: "(e_bpmsg \<times> string) option"
  bs_extraislast :: bool
  bs_password_received :: bool
  bs_NR :: bool
  bs_MB :: bool
  bs_complete :: bool
  bs_batchsendcomplete :: int
  bs_batchreceivecomplete :: int
  bs_waiting_got :: bool
  bs_batch_send_count :: int
  bs_batch_recv_count :: int
  bs_frs :: e_file_receive_status
  bs_emptyloop :: int
  bs_continuesend :: bool
  bs_rc :: int

text \<open>
  The state with what it works on: the globals, the nodelist flags of \<open>state.node\<close>, our locks and those
  of the system, and the files. An operation that reads through a null pointer, or writes past the end
  of a buffer, has no outcome: \<open>None\<close>.
\<close>

record s_machine = s_binkp_state +
  bm_g :: s_globals
  bm_node_flags :: string
  bm_bsylist :: "s_bsylist list"
  bm_locks :: lockfs
  bm_world :: world

subsection \<open>Blocks\<close>

text \<open>
  A block on the line: two bytes of header, the payload. The length of the payload is an \<open>unsigned short\<close>
  of which the upper bit is the mark of a command.
\<close>

definition block_header :: "block_type \<Rightarrow> nat \<Rightarrow> byte list" where
  "block_header t n =
     (let len = word_of_nat n :: u16; hi = ucast (drop_bit 8 len) :: byte in
      [if t = BINKP_BLK_CMD then hi OR 0x80 else hi AND 0x7f, ucast (len AND 0xff)])"

definition block_bytes :: "block_type \<Rightarrow> string \<Rightarrow> byte list" where
  "block_bytes t payload = block_header t (length payload) @ bytes payload"

definition header_length :: "byte list \<Rightarrow> nat" where
  "header_length hdr = unat (push_bit 8 (ucast (hdr ! 0 AND 0x7f)) OR ucast (hdr ! 1) :: u16)"

definition header_type :: "byte list \<Rightarrow> block_type" where
  "header_type hdr = (if hdr ! 0 AND 0x80 \<noteq> 0 then BINKP_BLK_CMD else BINKP_BLK_DATA)"

subsection \<open>What the other side says of itself\<close>

definition parse_cram :: "string \<Rightarrow> s_binkp_sysinfo \<Rightarrow> s_binkp_sysinfo" where
  "parse_cram hash b =
     (case dropWhile (\<lambda>c. c \<noteq> CHR ''-'') hash of
        [] \<Rightarrow> b
      | _ # challenge \<Rightarrow>
          let types = string_tokens (Some (takeWhile (\<lambda>c. c \<noteq> CHR ''-'') hash)) ''/'' False;
              b = fold (\<lambda>pp b. b\<lparr>bi_options := bi_options b OR
                          (if pp = ''SHA1'' then BINKP_OPT_SHA1 else if pp = ''MD5'' then BINKP_OPT_MD5
                           else if pp = ''DES'' then BINKP_OPT_DES else 0)\<rparr>) types b
          in if length challenge > 258 then b
             else b\<lparr>bi_challenge := (case string_hex_to_bin challenge of None \<Rightarrow> [] | Some c \<Rightarrow> c)\<rparr>)"

definition parse_option :: "string \<Rightarrow> s_binkp_sysinfo \<Rightarrow> s_binkp_sysinfo" where
  "parse_option p b =
     (if p = ''NR'' then b\<lparr>bi_options := bi_options b OR BINKP_OPT_NR\<rparr>
      else if p = ''CRYPT'' then b\<lparr>bi_options := bi_options b OR BINKP_OPT_CRYPT\<rparr>
      else if p = ''MB'' then b\<lparr>bi_options := bi_options b OR BINKP_OPT_MB\<rparr>
      else if p = ''MPWD'' then b\<lparr>bi_options := bi_options b OR BINKP_OPT_MPWD\<rparr>
      else if take 5 p = ''CRAM-'' then parse_cram (drop 5 p) b
      else b)"

definition binkp_parse_options :: "s_binkp_sysinfo \<Rightarrow> string \<Rightarrow> s_binkp_sysinfo" where
  "binkp_parse_options b options = fold parse_option (string_tokens (Some options) [] False) b"

text \<open>\<open>sscanf\<close> with \<open>%d\<close>: the number and the rest.\<close>

definition scan_d :: "string \<Rightarrow> (int \<times> string) option" where
  "scan_d s = scan_int (length s) s"

definition scan_version :: "string \<Rightarrow> s_binkp_sysinfo \<Rightarrow> s_binkp_sysinfo" where
  "scan_version s b =
     (case scan_d s of
        None \<Rightarrow> b
      | Some (v, r) \<Rightarrow>
          let b = b\<lparr>bi_majorver := v\<rparr> in
          (case Option.bind (scan_char (CHR ''.'') r) scan_d of None \<Rightarrow> b | Some (m, _) \<Rightarrow> b\<lparr>bi_minorver := m\<rparr>))"

definition process_VER :: "string \<Rightarrow> s_binkp_sysinfo \<Rightarrow> s_binkp_sysinfo" where
  "process_VER ver b =
     (case dropWhile (\<lambda>c. c \<noteq> CHR '' '') ver of
        [] \<Rightarrow> b\<lparr>bi_progname := strncopy 41 ver\<rparr>
      | _ # p \<Rightarrow>
          let b = b\<lparr>bi_progname := strncopy (min 41 (length (takeWhile (\<lambda>c. c \<noteq> CHR '' '') ver) + 1)) ver\<rparr>;
              b = (case dropWhile (\<lambda>c. c \<noteq> CHR ''/'') p of
                     [] \<Rightarrow> b
                   | _ # q \<Rightarrow>
                       scan_version q
                         (b\<lparr>bi_protname := strncopy (min 41 (length (takeWhile (\<lambda>c. c \<noteq> CHR ''/'') p) + 1)) p\<rparr>))
          in if to_int (bi_majorver b * 100 + bi_minorver b) > 100 then b\<lparr>bi_options := bi_options b OR BINKP_OPT_MB\<rparr> else b)"

definition process_TRF :: "string \<Rightarrow> s_binkp_sysinfo \<Rightarrow> s_binkp_sysinfo" where
  "process_TRF s b =
     (case scan_d s of
        None \<Rightarrow> b
      | Some (pkt, r) \<Rightarrow>
          (case scan_d r of
             None \<Rightarrow> b\<lparr>bi_TRF_PKT := pkt\<rparr>
           | Some (other, _) \<Rightarrow> b\<lparr>bi_TRF_PKT := pkt, bi_TRF_other := other, bi_has_TRF := True\<rparr>))"

definition binkp_process_NUL :: "string \<Rightarrow> s_binkp_sysinfo \<Rightarrow> s_binkp_sysinfo" where
  "binkp_process_NUL s b =
     (let arg = drop 4 s; is = (\<lambda>k. take (length k) s = k) in
      if is ''SYS '' then b\<lparr>bi_systname := strncopy 121 arg\<rparr>
      else if is ''ZYZ '' then b\<lparr>bi_sysop := strncopy 121 arg\<rparr>
      else if is ''LOC '' then b\<lparr>bi_location := strncopy 121 arg\<rparr>
      else if is ''PHN '' then b\<lparr>bi_phone := strncopy 121 arg\<rparr>
      else if is ''NDL '' then b\<lparr>bi_flags := strncopy 121 arg\<rparr>
      else if is ''TIME '' then b\<lparr>bi_timestr := strncopy 41 (drop 5 s)\<rparr>
      else if is ''OPT '' then
        binkp_parse_options
          (b\<lparr>bi_opt := (if bi_opt b \<noteq> [] then take 196 (take 196 (bi_opt b @ '' '') @ arg) else strncopy 197 arg)\<rparr>) arg
      else if is ''VER '' then process_VER arg b
      else if is ''TRF '' then process_TRF arg b
      else b)"

definition binkp_process_ADR :: "string \<Rightarrow> s_sysaddr list \<Rightarrow> s_sysaddr list" where
  "binkp_process_ADR buffer addrs =
     fold (\<lambda>p addrs. case ftn_addrparse p False of (bad, a) \<Rightarrow> if bad then addrs else snd (session_addrs_add addrs a))
       (string_tokens (Some buffer) [] False) addrs"

text \<open>
  The arguments of a file message. The numbers are scanned as \<open>int\<close>s into the lower halves of 64-bit
  variables that were never set: \<open>junk\<close> is what they held. True is success, where the code returns zero.
\<close>

definition low_half :: "u64 \<Rightarrow> int \<Rightarrow> u64" where
  "low_half junk v = (junk AND NOT 0xffffffff) OR ucast (word_of_int v :: u32)"

definition binkp_parsfinfo :: "string \<Rightarrow> bool \<Rightarrow> u64 \<times> u64 \<times> u64 \<Rightarrow> s_bpfinfo option" where
  "binkp_parsfinfo s with_offset junk =
     (let t = dropWhile isspace s; fn = takeWhile (\<lambda>c. \<not> isspace c) t in
      if length s > PATH_MAX \<or> fn = [] then None
      else
        (case scan_d (drop (length fn) t) of
           None \<Rightarrow> None
         | Some (sz, r) \<Rightarrow>
             (case scan_d r of
                None \<Rightarrow> None
              | Some (tm, r) \<Rightarrow>
                  let fi = \<lparr>bp_fn = map (\<lambda>c. if c = CHR ''/'' then CHR ''_'' else c) fn,
                            bp_sz = low_half (fst junk) sz, bp_tm = sint (low_half (fst (snd junk)) tm), bp_offs = snd (snd junk)\<rparr>
                  in if with_offset then map_option (\<lambda>(offs, _). fi\<lparr>bp_offs := low_half (snd (snd junk)) offs\<rparr>) (scan_d r)
                     else Some fi)))"

subsection \<open>What is sent\<close>

definition message :: "e_bpmsg \<Rightarrow> string \<Rightarrow> (block_type \<times> string) option" where
  "message m s = Some (BINKP_BLK_CMD, char_of (bpmsg_code m) # s)"

text \<open>The name, size and time of a file, with an offset or without; \<open>%ld\<close> prints the 64 bits as signed.\<close>

definition file_args :: "s_finfo \<Rightarrow> string" where
  "file_args fi = fi_net_name fi @ '' '' @ dec_int (sint (fi_total fi)) @ '' '' @ dec_int (fi_mod_time fi)"

definition file_args_at :: "s_finfo \<Rightarrow> int \<Rightarrow> string" where
  "file_args_at fi offs = file_args fi @ '' '' @ dec_int offs"

definition sysinfo_text :: "s_machine \<Rightarrow> int \<Rightarrow> string option" where
  "sysinfo_text s my_sf =
     (let b = bs_local s in
      if my_sf = 0 then Some (''SYS '' @ bi_systname b)
      else if my_sf = 1 then Some (''ZYZ '' @ bi_sysop b)
      else if my_sf = 2 then Some (''LOC '' @ bi_location b)
      else if my_sf = 3 then Some (''PHN '' @ bi_phone b)
      else if my_sf = 4 then Some (''NDL '' @ bi_flags b)
      else if my_sf = 5 then Some (''TIME '' @ bi_timestr b)
      else if my_sf = 6 then Some (''VER '' @ bi_progname b @ '' '' @ bi_protname b @ ''/'' @ dec_int (bi_majorver b) @ ''.''
                                     @ dec_int (bi_minorver b))
      else if my_sf = 7 \<and> bs_mode s = bmode_outgoing_handshake
      then Some (''OPT MB CRYPT'' @ (if nodelist_checkflag (bm_node_flags s) ''NR'' then ''''  else '' NR''))
      else None)"

definition address_text :: "s_faddr \<Rightarrow> string" where
  "address_text a =
     dec_int (zone a) @ '':'' @ dec_int (net a) @ ''/'' @ dec_int (node a)
     @ (if point a \<noteq> 0 then ''.'' @ dec_int (point a) else []) @ ''@'' @ domain a"

definition send_address :: "s_machine \<Rightarrow> int \<times> (block_type \<times> string) option \<times> s_machine" where
  "send_address s =
     (1, message BPMSG_ADR (join (CHR '' '') (map (address_text \<circ> sa_addr) (ses_localaddrs (bm_g s)))),
      s\<lparr>bs_phase := bs_phase s + 1\<rparr>)"

definition send_sysinfo :: "s_machine \<Rightarrow> int \<times> (block_type \<times> string) option \<times> s_machine" where
  "send_sysinfo s =
     (case sysinfo_text s (bs_subphase s) of
        Some t \<Rightarrow> (1, message BPMSG_NUL t, s\<lparr>bs_subphase := bs_subphase s + 1\<rparr>)
      | None \<Rightarrow> send_address (s\<lparr>bs_phase := bs_phase s + 1, bs_subphase := 0\<rparr>))"

text \<open>
  The password, for an address that has been verified. The test for an empty one compares the array with
  a null pointer and is never true: without a password the text is empty. With CRAM-MD5 it waits for a
  challenge.
\<close>

definition send_password :: "s_machine \<Rightarrow> int \<times> (block_type \<times> string) option \<times> s_machine" where
  "send_password s =
     (if \<not> bs_address_established s then (0, None, s)
      else if has_opt (bs_remote s) BINKP_OPT_MD5 then
        (if bi_challenge (bs_remote s) = [] then (0, None, s)
         else
           (1, message BPMSG_PWD (''CRAM-MD5-''
                 @ string_bin_to_hex (md5_cram_get (bytes (bi_passwd (bs_local s))) (bi_challenge (bs_remote s)))),
            s\<lparr>bs_phase := bs_phase s + 1\<rparr>))
      else (1, message BPMSG_PWD (bi_passwd (bs_local s)), s\<lparr>bs_phase := bs_phase s + 1\<rparr>))"

text \<open>The keys of the answering side: those of the last address that has a password.\<close>

definition incoming_keys :: "conf \<Rightarrow> s_sysaddr list \<Rightarrow> s_binkp_sysinfo \<Rightarrow> s_binkp_sysinfo" where
  "incoming_keys cf addrs b =
     fold (\<lambda>a b. case session_get_password cf (sa_addr a) 32 of
             None \<Rightarrow> b
           | Some pbuf \<Rightarrow>
               (case answerer_keys (bytes pbuf) of (ko, ki) \<Rightarrow> b\<lparr>bi_keys_in := ki, bi_keys_out := ko\<rparr>)) addrs b"

definition handshake_send :: "conf \<Rightarrow> s_machine \<Rightarrow> int \<times> (block_type \<times> string) option \<times> s_machine" where
  "handshake_send cf s =
     (if bs_phase s = 0 then
        (let s = s\<lparr>bs_phase := 1, bs_subphase := 0\<rparr> in
         if bs_mode s = bmode_incoming_handshake \<and> bi_challenge (bs_local s) \<noteq> []
         then (1, message BPMSG_NUL (''OPT CRAM-MD5-'' @ string_bin_to_hex (bi_challenge (bs_local s))), s)
         else send_sysinfo s)
      else if bs_phase s = 1 then send_sysinfo s
      else if bs_phase s = 2 then send_address s
      else if bs_phase s = 3 then
        (if bs_mode s = bmode_incoming_handshake then
           (if bs_password_received s then (1, message BPMSG_OK [], s\<lparr>bs_phase := bs_phase s + 1\<rparr>) else (0, None, s))
         else send_password s)
      else if bs_phase s = 4 then
        (2, None,
         if bs_mode s = bmode_incoming_handshake
         then s\<lparr>bs_complete := True, bs_remote := incoming_keys cf (ses_remoteaddrs (bm_g s)) (bs_remote s)\<rparr>
         else s)
      else (2, None, s\<lparr>bs_complete := True\<rparr>))"

definition send_EOB :: "s_machine \<Rightarrow> int \<times> (block_type \<times> string) option \<times> s_machine" where
  "send_EOB s = (1, message BPMSG_EOB [], s\<lparr>bs_batchsendcomplete := bs_batchsendcomplete s + 1, bs_phase := bs_phase s + 1\<rparr>)"

definition send_FILE :: "s_machine \<Rightarrow> (int \<times> (block_type \<times> string) option \<times> s_machine) option" where
  "send_FILE s =
     map_option (\<lambda>fi. (1, message BPMSG_FILE (file_args_at fi 0), s\<lparr>bs_phase := bs_phase s + 1\<rparr>)) (sending (bs_pi s))"

definition send_next_file :: "conf \<Rightarrow> s_machine \<Rightarrow> (int \<times> (block_type \<times> string) option \<times> s_machine) option" where
  "send_next_file cf s =
     (case p_tx_fopen cf None (bm_g s) (bs_pi s) (bm_world s) of (rc, g, pi, w) \<Rightarrow>
        let s = s\<lparr>bs_pi := pi, bm_g := g, bm_world := w\<rparr> in
        if rc \<noteq> 0 then Some (send_EOB (s\<lparr>bs_phase := 4\<rparr>))
        else
          let s = s\<lparr>bs_waiting_got := True, bs_batch_send_count := bs_batch_send_count s + 1\<rparr> in
          if bs_NR s then map_option (\<lambda>fi. (3, message BPMSG_FILE (file_args_at fi (-1)), s)) (sending (bs_pi s))
          else send_FILE (s\<lparr>bs_phase := bs_phase s + 1\<rparr>))"

definition acknowledged :: "s_finfo \<Rightarrow> s_protinfo \<Rightarrow> bool" where
  "acknowledged fi pi \<longleftrightarrow>
     list_ex (\<lambda>f. p_compfinfo f (fi_net_name fi) (fi_total fi) (fi_mod_time fi) \<and> fi_status f = FSTAT_SUCCESS) (pi_sentfiles pi)"

definition wait_acknowledge :: "conf \<Rightarrow> s_machine \<Rightarrow> (int \<times> (block_type \<times> string) option \<times> s_machine) option" where
  "wait_acknowledge cf s =
     (case sending (bs_pi s) of
        None \<Rightarrow> None
      | Some fi \<Rightarrow>
          if fi_waitack fi \<and> \<not> acknowledged fi (bs_pi s) then Some (0, None, s)
          else send_next_file cf (s\<lparr>bs_phase := 0\<rparr>))"

definition send_data :: "conf \<Rightarrow> s_machine \<Rightarrow> (int \<times> (block_type \<times> string) option \<times> s_machine) option" where
  "send_data cf s =
     (case p_tx_readfile 4096 (bs_pi s) (bm_world s) of
        None \<Rightarrow> None
      | Some (n, d, pi, w) \<Rightarrow>
          let s = s\<lparr>bs_pi := pi, bm_world := w\<rparr> in
          (case sending pi of
             None \<Rightarrow> None
           | Some fi \<Rightarrow>
               if n > 0 then
                 Some (1, Some (BINKP_BLK_DATA, d),
                       s\<lparr>bs_pi := set_send (fi\<lparr>fi_sent := fi_sent fi + word_of_int n\<rparr>) pi\<rparr>)
               else if n < 0 then Some (-1, None, s)
               else
                 wait_acknowledge cf (s\<lparr>bs_pi := set_send (fi\<lparr>fi_status := FSTAT_WAITACK\<rparr>) pi, bs_phase := bs_phase s + 1\<rparr>)))"

definition transfer_send :: "conf \<Rightarrow> s_machine \<Rightarrow> (int \<times> (block_type \<times> string) option \<times> s_machine) option" where
  "transfer_send cf s =
     (if bs_phase s = 0 then send_next_file cf s
      else if bs_phase s = 1 then send_FILE s
      else if bs_phase s = 2 then send_data cf s
      else if bs_phase s = 3 then wait_acknowledge cf s
      else if bs_phase s = 4 then Some (send_EOB s)
      else if bs_phase s = 5 then Some (2, None, s)
      else Some (2, None, s\<lparr>bs_complete := True\<rparr>))"

text \<open>1 a block, 2 nothing more, 3 a block and nothing more, 0 nothing now, -1 an error; and the block.\<close>

definition binkp_getforsend :: "conf \<Rightarrow> s_machine \<Rightarrow> (int \<times> (block_type \<times> string) option \<times> s_machine) option" where
  "binkp_getforsend cf s =
     (case bs_extracmd s of
        Some (m, t) \<Rightarrow>
          Some (1, message m t,
                if bs_extraislast s then s\<lparr>bs_extracmd := None, bs_phase := 100, bs_complete := True\<rparr>
                else s\<lparr>bs_extracmd := None\<rparr>)
      | None \<Rightarrow>
          if bs_mode s = bmode_incoming_handshake \<or> bs_mode s = bmode_outgoing_handshake then Some (handshake_send cf s)
          else if bs_mode s = bmode_transfer then transfer_send cf s
          else Some (-1, None, s))"

subsection \<open>What is received\<close>

text \<open>
  1 the block is done with, 2 it is and no more is wanted, 0 it is kept, 3 the session is given up, -1 an error.
\<close>

type_synonym outcome = "(int \<times> s_machine) option"

definition proto_error :: "string \<Rightarrow> s_machine \<Rightarrow> int \<times> s_machine" where
  "proto_error msg s = (1, s\<lparr>bs_rc := PRC_LOCALABORTED, bs_extracmd := Some (BPMSG_ERR, msg), bs_extraislast := True\<rparr>)"

definition last_message :: "e_bpmsg \<Rightarrow> string \<Rightarrow> s_machine \<Rightarrow> s_machine" where
  "last_message m t s = s\<lparr>bs_extracmd := Some (m, t), bs_extraislast := True\<rparr>"

definition more_message :: "e_bpmsg \<Rightarrow> string \<Rightarrow> s_machine \<Rightarrow> s_machine" where
  "more_message m t s = s\<lparr>bs_extracmd := Some (m, t), bs_extraislast := False\<rparr>"

text \<open>The check of passwords and the locks, on the machine. True is success.\<close>

definition check_addrs :: "conf \<Rightarrow> string \<Rightarrow> byte list option \<Rightarrow> s_machine \<Rightarrow> bool \<times> s_machine" where
  "check_addrs cf passwd challenge s =
     (case session_addrs_check cf (ses_remoteaddrs (bm_g s)) (Some passwd) challenge (s_state.truncate (bm_g s)) of
        (rc, addrs, st) \<Rightarrow>
          (rc = 0, s\<lparr>bm_g := (bm_g s)\<lparr>ses_remoteaddrs := addrs, ses_protected := ses_protected st\<rparr>\<rparr>))"

definition lock_addrs :: "conf \<Rightarrow> s_machine \<Rightarrow> bool \<times> s_machine" where
  "lock_addrs cf s =
     (case session_addrs_lock cf (ses_remoteaddrs (bm_g s)) (bm_bsylist s) (bm_locks s) of
        (rc, addrs, bl, w) \<Rightarrow>
          (rc = 0, s\<lparr>bm_g := (bm_g s)\<lparr>ses_remoteaddrs := addrs\<rparr>, bm_bsylist := bl, bm_locks := w\<rparr>))"

text \<open>
  Whether an address is to be told that we want the mode NR: \<open>None\<close> for an override without flags, whose
  null pointer is searched.
\<close>

fun wants_NR :: "conf \<Rightarrow> s_sysaddr list \<Rightarrow> bool option" where
  "wants_NR cf [] = Some False"
| "wants_NR cf (a # as) =
     (case snd (override_get cf (sa_addr a) 0) of
        None \<Rightarrow> wants_NR cf as
      | Some ovr \<Rightarrow>
          (case sFlags ovr of
             None \<Rightarrow> None
           | Some fl \<Rightarrow> if nodelist_checkflag fl ''NR'' then Some True else wants_NR cf as))"

definition established :: "s_machine \<Rightarrow> int \<times> s_machine" where
  "established s = (1, s\<lparr>bs_address_established := True\<rparr>)"

text \<open>The caller checks that it has the system it wants, and lets \<open>session_addrs_check\<close> compare its own password for it with the
  configured ones of the addresses.\<close>

definition outgoing_ADR :: "conf \<Rightarrow> s_machine \<Rightarrow> int \<times> s_machine" where
  "outgoing_ADR cf s =
     (if session_addrs_check_genuine (ses_remoteaddrs (bm_g s)) (ses_node_addr (bm_g s))
      then (1, last_message BPMSG_ERR ''Sorry, you are not who I need'' s)
      else
        (let s = s\<lparr>bs_remote := (bs_remote s)\<lparr>bi_passwd := take 64 (bi_passwd (bs_local s))\<rparr>\<rparr> in
         case check_addrs cf (bi_passwd (bs_remote s)) None s of (ok, s) \<Rightarrow>
           if \<not> ok then (1, last_message BPMSG_ERR ''Security violation'' s) else established s))"

definition receive_ADR :: "conf \<Rightarrow> string \<Rightarrow> s_machine \<Rightarrow> outcome" where
  "receive_ADR cf arg s =
     (if bs_address_established s then Some (proto_error ''remote tries to change address'' s)
      else if bs_extracmd s \<noteq> None then Some (0, s)
      else
        let s = s\<lparr>bm_g := (bm_g s)\<lparr>ses_remoteaddrs := binkp_process_ADR arg (ses_remoteaddrs (bm_g s))\<rparr>\<rparr> in
        if ses_remoteaddrs (bm_g s) = [] then Some (1, last_message BPMSG_BSY ''No addresses was presented'' s)
        else if bs_mode s = bmode_incoming_handshake then
          map_option (\<lambda>nr. established (more_message BPMSG_NUL (''OPT MB CRYPT'' @ (if nr then '' NR'' else [])) s))
            (wants_NR cf (ses_remoteaddrs (bm_g s)))
        else if bs_mode s = bmode_outgoing_handshake then Some (outgoing_ADR cf s)
        else Some (established s))"

definition binkp_auth_incoming :: "conf \<Rightarrow> s_machine \<Rightarrow> bool \<times> s_machine" where
  "binkp_auth_incoming cf s =
     (let b = bs_remote s in
      if bi_challenge b \<noteq> [] \<and> take 9 (bi_passwd b) = ''CRAM-MD5-''
      then check_addrs cf (drop 9 (bi_passwd b)) (Some (bi_challenge b)) s
      else check_addrs cf (bi_passwd b) None s)"

text \<open>The size given for the copy is that of the block: a password of more than 64 characters overruns its field.\<close>

definition receive_PWD :: "conf \<Rightarrow> string \<Rightarrow> s_machine \<Rightarrow> outcome" where
  "receive_PWD cf arg s =
     (if bs_mode s \<noteq> bmode_incoming_handshake then Some (proto_error ''unexpected M_PWD'' s)
      else if \<not> bs_address_established s then Some (proto_error ''M_PWD before M_ADR'' s)
      else if length arg > 64 then None
      else
        let s = s\<lparr>bs_remote := (bs_remote s)\<lparr>bi_passwd := arg, bi_challenge := bi_challenge (bs_local s)\<rparr>\<rparr> in
        Some (case binkp_auth_incoming cf s of (ok, s) \<Rightarrow>
          if \<not> ok then
            (if bs_extracmd s \<noteq> None then (0, s) else (1, last_message BPMSG_ERR ''Security violation'' s))
          else
            (case lock_addrs cf s of (ok, s) \<Rightarrow>
               if \<not> ok then
                 (if bs_extracmd s \<noteq> None then (0, s) else (1, last_message BPMSG_BSY ''All addresses are busy'' s))
               else (2, s\<lparr>bs_password_received := True\<rparr>))))"

definition receive_OK :: "conf \<Rightarrow> s_machine \<Rightarrow> outcome" where
  "receive_OK cf s =
     (if bs_mode s \<noteq> bmode_outgoing_handshake then Some (proto_error ''unexpected M_OK'' s)
      else
        Some (case lock_addrs cf s of (ok, s) \<Rightarrow>
          if \<not> ok then
            (if bs_extracmd s \<noteq> None then (0, s) else (2, last_message BPMSG_BSY ''All addresses are busy'' s))
          else (2, s\<lparr>bs_complete := True\<rparr>)))"

text \<open>
  A file is announced. After our own request for another offset only the answer to it is taken; the
  \<open>M_SKIP\<close> for anything else has four conversions and three arguments: \<open>junk4\<close> is printed as well.
\<close>

definition accept_FILE :: "conf \<Rightarrow> s_bpfinfo \<Rightarrow> s_machine \<Rightarrow> outcome" where
  "accept_FILE cf fi s =
     (case p_rx_fopen cf (bp_fn fi) (bp_sz fi) (bp_tm fi) 0 (bm_g s) (bs_pi s) (bm_world s) of (rc, g, pi, w) \<Rightarrow>
        let s = s\<lparr>bm_g := g, bs_pi := pi, bm_world := w\<rparr> in
        (case receiving pi of
           None \<Rightarrow> None
         | Some r \<Rightarrow> Some
             (if rc = 0 then
                (if fi_skipped r = bp_offs fi then (1, s\<lparr>bs_frs := frs_data\<rparr>)
                 else (1, (more_message BPMSG_GET (file_args_at r (sint (fi_skipped r))) s)\<lparr>bs_frs := frs_didget\<rparr>))
              else if rc = 1 then (1, (more_message BPMSG_SKIP (file_args r) s)\<lparr>bs_frs := frs_skipping\<rparr>)
              else if rc = 2 then (1, (more_message BPMSG_GOT (file_args r) s)\<lparr>bs_frs := frs_skipping\<rparr>)
              else proto_error ''p_rx_fopen_error'' s)))"

definition resumed :: "s_bpfinfo \<Rightarrow> s_protinfo \<Rightarrow> bool" where
  "resumed fi pi \<longleftrightarrow>
     (case receiving pi of
        None \<Rightarrow> False
      | Some r \<Rightarrow> p_compfinfo r (bp_fn fi) (bp_sz fi) (bp_tm fi) \<and> fi_skipped r = bp_offs fi \<and> fi_fp r \<noteq> None)"

definition receive_FILE :: "conf \<Rightarrow> (u64 \<times> u64 \<times> u64) \<times> int \<Rightarrow> string \<Rightarrow> s_machine \<Rightarrow> outcome" where
  "receive_FILE cf junk arg s =
     (if bs_mode s \<noteq> bmode_transfer then Some (proto_error ''unexpected M_FILE'' s)
      else
        (case binkp_parsfinfo arg True (fst junk) of
           None \<Rightarrow> Some (proto_error ''invalid M_FILE'' s)
         | Some fi \<Rightarrow>
             let s = s\<lparr>bs_batch_recv_count := bs_batch_recv_count s + 1\<rparr> in
             if bs_frs s = frs_data then Some (proto_error ''overlapping M_FILE received'' s)
             else if bs_frs s = frs_didget then
               (if resumed fi (bs_pi s) then Some (1, s\<lparr>bs_frs := frs_data\<rparr>)
                else if bs_extracmd s \<noteq> None then Some (0, s)
                else Some (1, more_message BPMSG_SKIP (bp_fn fi @ '' '' @ dec_int (sint (bp_sz fi)) @ '' '' @ dec_int (bp_tm fi)
                                @ '' '' @ dec_int (snd junk)) s))
             else if bs_extracmd s \<noteq> None then Some (0, s)
             else accept_FILE cf fi s))"

definition receive_EOB :: "s_machine \<Rightarrow> outcome" where
  "receive_EOB s =
     Some (if bs_mode s \<noteq> bmode_transfer then proto_error ''unexpected M_EOB'' s
           else (1, s\<lparr>bs_batchreceivecomplete := bs_batchreceivecomplete s + 1\<rparr>))"

text \<open>
  A file is confirmed or declined. \<open>confirm\<close> is the file found by its name, size and time: it is closed
  with its new status, \<open>send\<close> pointing to it meanwhile.
\<close>

definition confirm :: "conf \<Rightarrow> bool \<Rightarrow> nat \<Rightarrow> s_machine \<Rightarrow> int \<times> s_machine" where
  "confirm cf skip i s =
     (let saved = pi_send (bs_pi s);
          pi = (bs_pi s)\<lparr>pi_send := Some i\<rparr>;
          f = pi_sentfiles pi ! i;
          status = (if skip then FSTAT_REFUSED else if fi_status f = FSTAT_WAITACK then FSTAT_SUCCESS else FSTAT_SKIPPED)
      in if status \<noteq> FSTAT_SUCCESS \<and> fi_netspool f then proto_error ''cannot skip netspool'' (s\<lparr>bs_pi := pi\<rparr>)
         else
           (case p_tx_fclose cf (bm_g s) (set_send (f\<lparr>fi_status := status\<rparr>) pi) (bm_world s) of (_, pi, w) \<Rightarrow>
              let s = s\<lparr>bs_pi := pi\<lparr>pi_send := saved\<rparr>, bm_world := w\<rparr> in
              if list_ex (\<lambda>f. fi_status f = FSTAT_WAITACK) (pi_sentfiles (bs_pi s)) then (1, s)
              else (1, s\<lparr>bs_waiting_got := False\<rparr>)))"

definition confirm_named :: "conf \<Rightarrow> bool \<Rightarrow> s_bpfinfo \<Rightarrow> s_machine \<Rightarrow> int \<times> s_machine" where
  "confirm_named cf skip fi s =
     (case first_index (\<lambda>f. p_compfinfo f (bp_fn fi) (bp_sz fi) (bp_tm fi)) (pi_sentfiles (bs_pi s)) of
        None \<Rightarrow> proto_error ''unmatched file name in M_GOT/M_SKIP'' s
      | Some i \<Rightarrow> confirm cf skip i s)"

text \<open>The file being sent is given up when its name comes back before it is complete. There may be no such file.\<close>

definition receive_GOT :: "conf \<Rightarrow> bool \<Rightarrow> (u64 \<times> u64 \<times> u64) \<Rightarrow> string \<Rightarrow> s_machine \<Rightarrow> outcome" where
  "receive_GOT cf skip junk arg s =
     (if bs_mode s \<noteq> bmode_transfer then Some (proto_error ''unexpected M_GOT/M_SKIP'' s)
      else
        (case binkp_parsfinfo arg False junk of
           None \<Rightarrow> Some (proto_error ''error parsing M_GOT/M_SKIP'' s)
         | Some fi \<Rightarrow>
             (case sending (bs_pi s) of
                None \<Rightarrow> None
              | Some f \<Rightarrow> Some
                  (if fi_net_name f = bp_fn fi \<and> fi_status f \<noteq> FSTAT_WAITACK then
                     (if fi_netspool f then proto_error ''cannot SKIP or REFUSE netspool'' s
                      else
                        (case p_tx_fclose cf (bm_g s) (bs_pi s) (bm_world s) of (_, pi, w) \<Rightarrow>
                           confirm_named cf skip fi (s\<lparr>bs_pi := pi, bm_world := w, bs_phase := 0\<rparr>)))
                   else confirm_named cf skip fi s))))"

text \<open>A file is asked for, from an offset on: the one being sent, or one sent before and still open.\<close>

definition resend :: "s_finfo \<Rightarrow> u64 \<Rightarrow> s_machine \<Rightarrow> int \<times> s_machine" where
  "resend f offs s =
     (1, (more_message BPMSG_FILE (file_args_at f (sint offs)) s)\<lparr>bs_phase := 2, bs_continuesend := True\<rparr>)"

definition send_from :: "conf \<Rightarrow> string \<Rightarrow> bool \<Rightarrow> s_bpfinfo \<Rightarrow> s_machine \<Rightarrow> outcome" where
  "send_from cf err reopened fi s =
     (case p_tx_rewind (bs_pi s) (unat (bp_offs fi)) (bm_world s) of (rc, pi, w) \<Rightarrow>
        let s = s\<lparr>bs_pi := pi, bm_world := w\<rparr> in
        if rc \<noteq> 0 then
          (case p_tx_fclose cf (bm_g s) (bs_pi s) (bm_world s) of (_, pi, w) \<Rightarrow>
             Some (proto_error err (s\<lparr>bs_pi := pi, bm_world := w\<rparr>)))
        else
          map_option
            (\<lambda>f. let f = f\<lparr>fi_skipped := bp_offs fi, fi_sent := bp_offs fi\<rparr> in
                 resend f (bp_offs fi) (s\<lparr>bs_pi := set_send f (bs_pi s), bs_waiting_got := (bs_waiting_got s \<or> reopened)\<rparr>))
            (sending (bs_pi s)))"

definition receive_GET :: "conf \<Rightarrow> (u64 \<times> u64 \<times> u64) \<Rightarrow> string \<Rightarrow> s_machine \<Rightarrow> outcome" where
  "receive_GET cf junk arg s =
     (if bs_mode s \<noteq> bmode_transfer then Some (proto_error ''unexpected M_GET'' s)
      else
        (case binkp_parsfinfo arg True junk of
           None \<Rightarrow> Some (proto_error ''invalid M_GET'' s)
         | Some fi \<Rightarrow>
             if bs_extracmd s \<noteq> None then Some (0, s)
             else
               let cur = sending (bs_pi s);
                   same = (case cur of None \<Rightarrow> False | Some f \<Rightarrow> p_compfinfo f (bp_fn fi) (bp_sz fi) (bp_tm fi))
               in if same \<and> bp_offs fi = fi_sent (the cur) then Some (resend (the cur) (fi_sent (the cur)) s)
                  else if (case cur of None \<Rightarrow> False | Some f \<Rightarrow> fi_netspool f) then Some (1, s\<lparr>bs_continuesend := True\<rparr>)
                  else if same then send_from cf ''seek error'' False fi s
                  else
                    (case p_tx_fopen cf (Some \<lparr>hint_fn = bp_fn fi, hint_sz = bp_sz fi, hint_tm = bp_tm fi\<rparr>)
                            (bm_g s) (bs_pi s) (bm_world s) of (rc, g, pi, w) \<Rightarrow>
                       let s = s\<lparr>bs_pi := pi, bm_g := g, bm_world := w\<rparr> in
                       if rc \<noteq> 0 then Some (proto_error ''could not satisfy M_GET'' s)
                       else send_from cf ''seek error 2'' True fi s)))"

definition give_up :: "s_machine \<Rightarrow> outcome" where
  "give_up s = Some (3, s\<lparr>bs_rc := PRC_REMOTEABORTED\<rparr>)"

definition receive_command :: "conf \<Rightarrow> (u64 \<times> u64 \<times> u64) \<times> int \<Rightarrow> string \<Rightarrow> s_machine \<Rightarrow> outcome" where
  "receive_command cf junk buf s =
     (if buf = [] then Some (proto_error ''Zero length command received'' s)
      else
        let arg = cstr (tl buf) in
        (case bpmsg_of (hd buf) of
           None \<Rightarrow> Some (proto_error ''invalid command'' s)
         | Some BPMSG_NUL \<Rightarrow> Some (1, s\<lparr>bs_remote := binkp_process_NUL arg (bs_remote s)\<rparr>)
         | Some BPMSG_ADR \<Rightarrow> receive_ADR cf arg s
         | Some BPMSG_PWD \<Rightarrow> receive_PWD cf arg s
         | Some BPMSG_FILE \<Rightarrow> receive_FILE cf junk arg s
         | Some BPMSG_OK \<Rightarrow> receive_OK cf s
         | Some BPMSG_EOB \<Rightarrow> receive_EOB s
         | Some BPMSG_GOT \<Rightarrow> receive_GOT cf False (fst junk) arg s
         | Some BPMSG_SKIP \<Rightarrow> receive_GOT cf True (fst junk) arg s
         | Some BPMSG_ERR \<Rightarrow> give_up s
         | Some BPMSG_BSY \<Rightarrow> give_up s
         | Some BPMSG_GET \<Rightarrow> receive_GET cf (fst junk) arg s))"

text \<open>
  A block of data goes to the file being received. What comes of a file that is complete is told to the
  other side: \<open>M_GOT\<close> only when the file is in the inbound.
\<close>

definition close_received :: "conf \<Rightarrow> req_processor \<Rightarrow> s_machine \<Rightarrow> (int \<times> s_machine) option" where
  "close_received cf req s =
     map_option (\<lambda>(rc, pi, w). (rc, s\<lparr>bs_pi := pi, bm_world := w\<rparr>)) (p_rx_fclose cf req (bm_g s) (bs_pi s) (bm_world s))"

definition answer_with :: "e_bpmsg \<Rightarrow> s_machine \<Rightarrow> outcome" where
  "answer_with m s = map_option (\<lambda>r. (1, more_message m (file_args r) s)) (receiving (bs_pi s))"

definition write_failed :: "conf \<Rightarrow> req_processor \<Rightarrow> int \<Rightarrow> s_machine \<Rightarrow> outcome" where
  "write_failed cf req n s =
     (case answer_with (if n = -2 then BPMSG_GOT else BPMSG_SKIP) s of
        None \<Rightarrow> None
      | Some (rc, s) \<Rightarrow> map_option (\<lambda>(_, s). (1, s)) (close_received cf req (s\<lparr>bs_frs := frs_skipping\<rparr>)))"

definition file_complete :: "conf \<Rightarrow> req_processor \<Rightarrow> s_finfo \<Rightarrow> s_machine \<Rightarrow> outcome" where
  "file_complete cf req r s =
     (case close_received cf req (s\<lparr>bs_frs := frs_nothing, bs_pi := set_recv (r\<lparr>fi_status := FSTAT_SUCCESS\<rparr>) (bs_pi s)\<rparr>) of
        None \<Rightarrow> None
      | Some (rc, s) \<Rightarrow> answer_with (if rc = 0 then BPMSG_GOT else BPMSG_SKIP) s)"

definition data_written :: "conf \<Rightarrow> req_processor \<Rightarrow> nat \<Rightarrow> s_finfo \<Rightarrow> s_machine \<Rightarrow> outcome" where
  "data_written cf req n r s =
     (let r = r\<lparr>fi_received := fi_received r + word_of_nat n\<rparr>;
          s = s\<lparr>bs_pi := set_recv r (bs_pi s)\<rparr>
      in if fi_received r > fi_total r then
           map_option (\<lambda>(_, s). proto_error ''extra data for file'' s)
             (close_received cf req
                (s\<lparr>bs_frs := frs_skipping, bs_pi := set_recv (r\<lparr>fi_status := FSTAT_REFUSED\<rparr>) (bs_pi s)\<rparr>))
         else if fi_received r = fi_total r then file_complete cf req r s
         else Some (1, s))"

definition receive_data :: "conf \<Rightarrow> req_processor \<Rightarrow> string \<Rightarrow> s_machine \<Rightarrow> outcome" where
  "receive_data cf req buf s =
     (if buf = [] then Some (1, s)
      else if bs_frs s = frs_nothing then Some (proto_error ''unexpected data block'' s)
      else if bs_frs s = frs_didget \<or> bs_frs s = frs_skipping then Some (1, s)
      else if bs_extracmd s \<noteq> None then Some (0, s)
      else
        (case p_rx_writefile buf (bs_pi s) (bm_world s) of
           None \<Rightarrow> None
         | Some (n, pi, w) \<Rightarrow>
             let s = s\<lparr>bs_pi := pi, bm_world := w\<rparr> in
             if n < 0 then write_failed cf req n s
             else (case receiving pi of None \<Rightarrow> None | Some r \<Rightarrow> data_written cf req (length buf) r s)))"

definition binkp_doreceiveblock ::
  "conf \<Rightarrow> req_processor \<Rightarrow> (u64 \<times> u64 \<times> u64) \<times> int \<Rightarrow> block_type \<Rightarrow> string \<Rightarrow> s_machine \<Rightarrow> outcome" where
  "binkp_doreceiveblock cf req junk t buf s =
     (case t of BINKP_BLK_CMD \<Rightarrow> receive_command cf junk buf s | BINKP_BLK_DATA \<Rightarrow> receive_data cf req buf s)"

subsection \<open>The loop\<close>

text \<open>
  What the operating system does in one pass: whether \<open>tty_select\<close> succeeds (a timeout is a failure), what
  \<open>tty_read\<close> and \<open>tty_write\<close> return if they are called, and what the variables hold that are never set. The
  read is no longer than asked for, the write no longer than offered.
\<close>

datatype read_result = Not_readable | Read_error | Read_bytes "byte list"
datatype write_result = Not_writable | Write_error | Written nat

record io_turn =
  io_select :: bool
  io_read :: read_result
  io_write :: write_result
  io_junk :: "(u64 \<times> u64 \<times> u64) \<times> int"

text \<open>\<open>bl_buf\<close> is what \<open>readbuf\<close> holds, \<open>bl_out\<close> what is left to write.\<close>

record s_loop =
  bl_s :: s_machine
  bl_buf :: "byte list"
  bl_want :: nat
  bl_out :: "byte list"
  bl_no_more :: bool

datatype 'a turn = Continue 'a | Return int 'a | Undefined

definition crypting :: "s_machine \<Rightarrow> bool" where
  "crypting s \<longleftrightarrow> bs_mode s = bmode_transfer \<and> has_opt (bs_remote s) BINKP_OPT_CRYPT"

definition put_block :: "block_type \<times> string \<Rightarrow> s_loop \<Rightarrow> s_loop" where
  "put_block b L =
     (let s = bl_s L; d = block_bytes (fst b) (snd b) in
      if crypting s then
        (case encrypt_buf d (bi_keys_out (bs_remote s)) of (d, k) \<Rightarrow>
           L\<lparr>bl_out := d, bl_s := s\<lparr>bs_remote := (bs_remote s)\<lparr>bi_keys_out := k\<rparr>\<rparr>\<rparr>)
      else L\<lparr>bl_out := d\<rparr>)"

text \<open>The parts of a pass, in their order. The first gets the next block when the last one is written.\<close>

definition next_block :: "conf \<Rightarrow> s_loop \<Rightarrow> s_loop turn" where
  "next_block cf L =
     (let s = bl_s L;
          L = (if bs_continuesend s then L\<lparr>bl_no_more := False, bl_s := s\<lparr>bs_continuesend := False\<rparr>\<rparr> else L)
      in if bl_out L = [] \<and> (\<not> bl_no_more L \<or> bs_extracmd (bl_s L) \<noteq> None) then
           (case binkp_getforsend cf (bl_s L) of
              None \<Rightarrow> Undefined
            | Some (m, b, s) \<Rightarrow>
                let L = L\<lparr>bl_s := s\<rparr>;
                    L = (case b of None \<Rightarrow> L | Some b \<Rightarrow> put_block b L);
                    L = (if m = 2 \<or> m = 3 then L\<lparr>bl_no_more := True\<rparr> else L)
                in if m < 0 \<or> m > 3 then Return PRC_ERROR L else Continue L)
         else Continue L)"

definition next_batch :: "s_loop \<Rightarrow> s_loop" where
  "next_batch L =
     (let s = bl_s L in
      L\<lparr>bl_no_more := False, bl_want := 2,
        bl_s := s\<lparr>bs_batchsendcomplete := bs_batchsendcomplete s - 1, bs_batchreceivecomplete := bs_batchreceivecomplete s - 1,
                  bs_batch_send_count := 0, bs_batch_recv_count := 0, bs_phase := 0, bs_frs := frs_nothing\<rparr>\<rparr>)"

definition batch_complete :: "s_machine \<Rightarrow> bool" where
  "batch_complete s \<longleftrightarrow> bs_batchsendcomplete s \<noteq> 0 \<and> bs_batchreceivecomplete s \<noteq> 0"

definition one_more_batch :: "s_machine \<Rightarrow> bool" where
  "one_more_batch s \<longleftrightarrow> bs_MB s \<and> (bs_batch_send_count s \<noteq> 0 \<or> bs_batch_recv_count s \<noteq> 0)"

definition finish_session :: "s_loop \<Rightarrow> s_loop" where
  "finish_session L =
     (if batch_complete (bl_s L) \<and> \<not> bs_waiting_got (bl_s L)
      then L\<lparr>bl_want := 0, bl_s := (bl_s L)\<lparr>bs_complete := True\<rparr>\<rparr> else L)"

definition wait_io :: "io_turn \<Rightarrow> s_loop \<Rightarrow> s_loop turn" where
  "wait_io io L =
     (if bl_want L \<noteq> 0 \<or> bl_out L \<noteq> [] then (if io_select io then Continue L else Return PRC_ERROR L)
      else
        let s = (bl_s L)\<lparr>bs_emptyloop := bs_emptyloop (bl_s L) + 1\<rparr>; L = L\<lparr>bl_s := s\<rparr> in
        if bs_emptyloop s = 10 then Return PRC_ERROR L else Continue L)"

definition get_bytes :: "byte list \<Rightarrow> s_loop \<Rightarrow> s_loop" where
  "get_bytes d L =
     (let d = take (bl_want L) d; s = bl_s L;
          (d, s) = (if crypting s then
                      (case decrypt_buf d (bi_keys_in (bs_remote s)) of (d, k) \<Rightarrow>
                         (d, s\<lparr>bs_remote := (bs_remote s)\<lparr>bi_keys_in := k\<rparr>\<rparr>))
                    else (d, s));
          buf = bl_buf L @ d
      in L\<lparr>bl_s := s, bl_buf := buf, bl_want := (if length buf = 2 then header_length buf else bl_want L - length d)\<rparr>)"

definition read_io :: "io_turn \<Rightarrow> s_loop \<Rightarrow> s_loop turn" where
  "read_io io L =
     (if bl_want L = 0 then Continue L
      else
        (case io_read io of
           Not_readable \<Rightarrow> Continue L
         | Read_error \<Rightarrow> Return PRC_ERROR L
         | Read_bytes d \<Rightarrow> if d = [] then Return PRC_REMOTEABORTED L else Continue (get_bytes d L)))"

text \<open>
  A block is complete when nothing more is wanted of it. When the session ends while the header of another
  block has come in half, the length of that block is -1, a large \<open>unsigned short\<close>: \<open>Undefined\<close>.
\<close>

definition got_block :: "conf \<Rightarrow> req_processor \<Rightarrow> io_turn \<Rightarrow> s_loop \<Rightarrow> s_loop turn" where
  "got_block cf req io L =
     (if bl_want L \<noteq> 0 \<or> bl_buf L = [] then Continue L
      else if length (bl_buf L) < 2 then Undefined
      else
        (case binkp_doreceiveblock cf req (io_junk io) (header_type (bl_buf L)) (chars (drop 2 (bl_buf L))) (bl_s L) of
           None \<Rightarrow> Undefined
         | Some (m, s) \<Rightarrow>
             let L = L\<lparr>bl_s := s\<rparr> in
             if m = 1 then Continue (L\<lparr>bl_buf := [], bl_want := 2\<rparr>)
             else if m = 2 then Continue (L\<lparr>bl_buf := [], bl_want := 0\<rparr>)
             else if m = 0 then Continue L
             else if m = 3 then Continue (L\<lparr>bl_s := s\<lparr>bs_complete := True\<rparr>\<rparr>)
             else Return PRC_ERROR L))"

definition write_io :: "io_turn \<Rightarrow> s_loop \<Rightarrow> s_loop turn" where
  "write_io io L =
     (if bl_out L = [] then Continue L
      else
        (case io_write io of
           Not_writable \<Rightarrow> Continue L
         | Write_error \<Rightarrow> Return PRC_ERROR L
         | Written n \<Rightarrow> if n = 0 then Return PRC_REMOTEABORTED L else Continue (L\<lparr>bl_out := drop n (bl_out L)\<rparr>)))"

definition and_then :: "s_loop turn \<Rightarrow> (s_loop \<Rightarrow> s_loop turn) \<Rightarrow> s_loop turn" where
  "and_then t f = (case t of Continue L \<Rightarrow> f L | Return rc L \<Rightarrow> Return rc L | Undefined \<Rightarrow> Undefined)"

definition exchange :: "conf \<Rightarrow> req_processor \<Rightarrow> io_turn \<Rightarrow> s_loop \<Rightarrow> s_loop turn" where
  "exchange cf req io L =
     and_then (and_then (and_then (wait_io io L) (read_io io)) (got_block cf req io)) (write_io io)"

definition binkp_turn :: "conf \<Rightarrow> req_processor \<Rightarrow> io_turn \<Rightarrow> s_loop \<Rightarrow> s_loop turn" where
  "binkp_turn cf req io L =
     and_then (next_block cf L)
       (\<lambda>L. if batch_complete (bl_s L) \<and> one_more_batch (bl_s L) then Continue (next_batch L)
            else exchange cf req io (finish_session L))"

definition loop_ends :: "s_machine \<Rightarrow> bool" where
  "loop_ends s \<longleftrightarrow> bs_complete s \<and> \<not> bs_waiting_got s"

fun binkp_passes :: "conf \<Rightarrow> req_processor \<Rightarrow> io_turn list \<Rightarrow> s_loop \<Rightarrow> s_loop turn" where
  "binkp_passes cf req [] L = (if loop_ends (bl_s L) then Return (bs_rc (bl_s L)) L else Continue L)"
| "binkp_passes cf req (io # ios) L =
     (if loop_ends (bl_s L) then Return (bs_rc (bl_s L)) L
      else and_then (binkp_turn cf req io L) (binkp_passes cf req ios))"

definition loop_start :: "s_machine \<Rightarrow> s_loop" where
  "loop_start s =
     \<lparr>bl_s = s\<lparr>bs_rc := PRC_NOERROR, bs_phase := 0, bs_subphase := 0, bs_extracmd := None, bs_extraislast := False,
               bs_password_received := False, bs_NR := has_opt (bs_remote s) BINKP_OPT_NR, bs_MB := has_opt (bs_remote s) BINKP_OPT_MB,
               bs_complete := False, bs_batchsendcomplete := 0, bs_batchreceivecomplete := 0, bs_waiting_got := False,
               bs_batch_send_count := 0, bs_batch_recv_count := 0, bs_frs := frs_nothing, bs_emptyloop := 0,
               bs_continuesend := False\<rparr>,
      bl_buf = [], bl_want = 2, bl_out = [], bl_no_more = False\<rparr>"

definition binkp_loop :: "conf \<Rightarrow> req_processor \<Rightarrow> io_turn list \<Rightarrow> s_machine \<Rightarrow> s_loop turn" where
  "binkp_loop cf req ios s = binkp_passes cf req ios (loop_start s)"

text \<open>The three uses of the loop. Of \<open>binkp_transfer\<close> it is not set whether the address is established.\<close>

definition binkp_outgoing :: "conf \<Rightarrow> req_processor \<Rightarrow> io_turn list \<Rightarrow> s_machine \<Rightarrow> s_loop turn" where
  "binkp_outgoing cf req ios s =
     (case caller_keys (bytes (bi_passwd (bs_local s))) of (ko, ki) \<Rightarrow>
        binkp_loop cf req ios
          (s\<lparr>bs_mode := bmode_outgoing_handshake, bs_address_established := False,
             bs_remote := (bs_remote s)\<lparr>bi_keys_out := ko, bi_keys_in := ki\<rparr>\<rparr>))"

definition binkp_incoming :: "conf \<Rightarrow> req_processor \<Rightarrow> io_turn list \<Rightarrow> s_machine \<Rightarrow> s_loop turn" where
  "binkp_incoming cf req ios s =
     binkp_loop cf req ios (s\<lparr>bs_mode := bmode_incoming_handshake, bs_address_established := False\<rparr>)"

definition binkp_transfer :: "conf \<Rightarrow> req_processor \<Rightarrow> bool \<Rightarrow> io_turn list \<Rightarrow> s_protinfo \<Rightarrow> s_machine \<Rightarrow> s_loop turn" where
  "binkp_transfer cf req junk ios pi s =
     binkp_loop cf req ios (s\<lparr>bs_mode := bmode_transfer, bs_pi := pi, bs_address_established := junk\<rparr>)"

end
