(* ===== verification/BinkpApi.thy ===== *)
theory BinkpApi
  imports Binkp
begin

text \<open>
  BinkP as the rest of the mailer sees it (\<open>prot_binkp_api.c\<close>, \<open>binkp_set_sysinfo\<close> of
  \<open>prot_binkp_misc.c\<close>): what we say of ourselves, the two handshakes with what is prepared after them,
  and what is known of the other side.
\<close>

section \<open>The code\<close>

definition zero_keys :: binkp_keys where
  "zero_keys = \<lparr>key0 = 0, key1 = 0, key2 = 0\<rparr>"

definition zero_sysinfo :: s_binkp_sysinfo where
  "zero_sysinfo = \<lparr>bi_passwd = [], bi_systname = [], bi_location = [], bi_sysop = [], bi_phone = [], bi_flags = [],
     bi_progname = [], bi_protname = [], bi_timestr = [], bi_opt = [], bi_majorver = 0, bi_minorver = 0, bi_options = 0,
     bi_challenge = [], bi_has_TRF = False, bi_TRF_PKT = 0, bi_TRF_other = 0, bi_keys_out = zero_keys, bi_keys_in = zero_keys\<rparr>"

text \<open>An operation on the globals that does not know of the recoding tables.\<close>

definition on_state :: "s_state \<Rightarrow> s_globals \<Rightarrow> s_globals" where
  "on_state st g = s_state.extend st (s_state.more g)"

definition binkp_init :: "s_machine \<Rightarrow> s_machine" where
  "binkp_init s = s\<lparr>bs_local := zero_sysinfo, bs_remote := zero_sysinfo, bm_g := (bm_g s)\<lparr>ses_protocol := PROT_BINKP\<rparr>\<rparr>"

text \<open>
  The challenge of the answering side, from random numbers, the process and the time. The addresses we
  present begin with the one nearest to the system called; adding it once more changes nothing.
\<close>

definition set_challenge :: "u64 \<Rightarrow> u32 \<Rightarrow> u64 \<Rightarrow> byte list" where
  "set_challenge rnd pid utm =
     [ucast rnd, ucast (drop_bit 8 rnd), ucast (drop_bit 16 rnd), ucast (drop_bit 24 rnd), ucast pid, ucast (drop_bit 8 pid),
      ucast utm, ucast (drop_bit 8 utm), ucast (drop_bit 16 utm), ucast (drop_bit 24 utm)]"

definition our_addresses :: "conf \<Rightarrow> s_faddr option \<Rightarrow> s_sysaddr list \<Rightarrow> s_sysaddr list" where
  "our_addresses cf remote_addr addrs =
     (let primary = Option.bind remote_addr (session_get_bestaka cf);
          addrs = (case primary of None \<Rightarrow> addrs | Some p \<Rightarrow> snd (session_addrs_add addrs p));
          shown = filter (\<lambda>a. \<not> list_ex (\<lambda>(h, _). ftn_addrcomp h a = 0) (conf_falist cf ''hide_our_aka''))
                    (map fst (conf_falist cf ''address''))
      in fold (\<lambda>a addrs. snd (session_addrs_add addrs a)) shown addrs)"

definition or_else :: "string option \<Rightarrow> string \<Rightarrow> string" where
  "or_else s d = (case s of None \<Rightarrow> d | Some s \<Rightarrow> s)"

text \<open>\<open>prog\<close> is our name and version, \<open>ts\<close> the local time as text; \<open>rnd\<close>, \<open>pid\<close> as above.\<close>

definition binkp_set_sysinfo ::
  "conf \<Rightarrow> string \<Rightarrow> string \<Rightarrow> u64 \<Rightarrow> u32 \<Rightarrow> s_faddr option \<Rightarrow> bool \<Rightarrow> s_machine \<Rightarrow> s_machine" where
  "binkp_set_sysinfo cf prog ts rnd pid remote_addr caller s =
     (let b = zero_sysinfo\<lparr>
            bi_passwd := (if caller then or_else (session_get_password cf (ses_node_addr (bm_g s)) 65) [] else []),
            bi_majorver := 1, bi_minorver := 1, bi_progname := strncopy 41 prog, bi_protname := ''binkp'',
            bi_sysop := strncopy 121 (or_else (conf_string cf ''sysop_name'') ''Unknown''),
            bi_systname := strncopy 121 (or_else (conf_string cf ''system_name'') ''Unknown''),
            bi_location := strncopy 121 (or_else (conf_string cf ''location'') ''Unknown''),
            bi_phone := strncopy 121 (or_else (conf_string cf ''phone'') ''Unknown''),
            bi_flags := strncopy 121 (or_else (conf_string cf ''flags'') ''BINKP''),
            bi_timestr := strncopy 41 ts\<rparr>
      in s\<lparr>bs_local := (if caller then b
                       else b\<lparr>bi_options := BINKP_OPT_MD5,
                              bi_challenge := set_challenge rnd pid (word_of_int (now (bm_world s)))\<rparr>),
           bm_g := (bm_g s)\<lparr>ses_localaddrs := our_addresses cf remote_addr (ses_localaddrs (bm_g s))\<rparr>\<rparr>)"

text \<open>The first good address of the other side becomes the node of the session. \<open>None\<close> when the program ends.\<close>

definition session_remote_lookup :: "conf \<Rightarrow> (string \<Rightarrow> int) \<Rightarrow> s_machine \<Rightarrow> s_machine option" where
  "session_remote_lookup cf ctime s =
     (case find sa_good (ses_remoteaddrs (bm_g s)) of
        None \<Rightarrow> Some s
      | Some a \<Rightarrow>
          map_option
            (\<lambda>(_, nd, w). s\<lparr>bm_g := (bm_g s)\<lparr>ses_node_addr := (nd_addr nd)\<lparr>domain := []\<rparr>, ses_listed := nd_listed nd\<rparr>,
                             bm_node_flags := nd_flags nd, bm_world := w\<rparr>)
            (nodelist_lookup cf ctime (sa_addr a) (bm_world s)))"

definition after_lookup :: "conf \<Rightarrow> (string \<Rightarrow> int) \<Rightarrow> s_machine \<Rightarrow> s_machine option" where
  "after_lookup cf ctime s =
     (if ses_remoteaddrs (bm_g s) = [] then Some s else session_remote_lookup cf ctime s)"

definition prepare_files :: "conf \<Rightarrow> (string \<Rightarrow> bool) \<Rightarrow> (string \<Rightarrow> world \<Rightarrow> world) \<Rightarrow> s_machine \<Rightarrow> s_machine" where
  "prepare_files cf flag_seen shell s =
     (case session_create_files_queue cf (ses_remoteaddrs (bm_g s)) (s_state.truncate (bm_g s)) (bm_world s) of (st, w) \<Rightarrow>
      case session_set_inbound cf shell (session_set_send_options cf flag_seen st) w of (_, st, w) \<Rightarrow>
        s\<lparr>bm_g := on_state st (bm_g s), bm_world := w\<rparr>)"

definition set_freqs :: "conf \<Rightarrow> s_machine \<Rightarrow> s_machine" where
  "set_freqs cf s = s\<lparr>bm_g := on_state (session_set_freqs_status cf (s_state.truncate (bm_g s)) (bm_world s)) (bm_g s)\<rparr>"

text \<open>
  The handshake of the answering and of the calling side: the code and the machine, \<open>None\<close> when there is
  none, or the passes given were not enough.
\<close>

definition finish_handshake :: "s_loop turn \<Rightarrow> (int \<Rightarrow> s_machine \<Rightarrow> s_machine option) \<Rightarrow> (int \<times> s_machine) option" where
  "finish_handshake t f =
     (case t of Return rc L \<Rightarrow> map_option (Pair rc) (f rc (bl_s L)) | _ \<Rightarrow> None)"

definition binkp_incoming2 ::
  "conf \<Rightarrow> req_processor \<Rightarrow> (string \<Rightarrow> int) \<Rightarrow> (string \<Rightarrow> bool) \<Rightarrow> (string \<Rightarrow> world \<Rightarrow> world) \<Rightarrow> string \<Rightarrow> string \<Rightarrow> u64 \<Rightarrow> u32
     \<Rightarrow> io_turn list \<Rightarrow> s_machine \<Rightarrow> (int \<times> s_machine) option" where
  "binkp_incoming2 cf req ctime flag_seen shell prog ts rnd pid ios s =
     finish_handshake (binkp_incoming cf req ios (binkp_set_sysinfo cf prog ts rnd pid None False s))
       (\<lambda>rc s. map_option (\<lambda>s. if rc = HRC_OK then set_freqs cf (prepare_files cf flag_seen shell s) else s)
                 (after_lookup cf ctime s))"

definition binkp_outgoing2 ::
  "conf \<Rightarrow> req_processor \<Rightarrow> (string \<Rightarrow> int) \<Rightarrow> (string \<Rightarrow> bool) \<Rightarrow> (string \<Rightarrow> world \<Rightarrow> world) \<Rightarrow> string \<Rightarrow> string \<Rightarrow> u64 \<Rightarrow> u32
     \<Rightarrow> io_turn list \<Rightarrow> s_machine \<Rightarrow> (int \<times> s_machine) option" where
  "binkp_outgoing2 cf req ctime flag_seen shell prog ts rnd pid ios s =
     (let s = set_freqs cf s in
      finish_handshake
        (binkp_outgoing cf req ios (binkp_set_sysinfo cf prog ts rnd pid (Some (ses_node_addr (bm_g s))) True s))
        (\<lambda>rc s. map_option (\<lambda>s. if rc = HRC_OK then prepare_files cf flag_seen shell s else s) (after_lookup cf ctime s)))"

subsection \<open>What is known of the other side\<close>

definition known :: "string \<Rightarrow> string option" where
  "known s = (if s \<noteq> [] then Some s else None)"

definition binkp_remote_password :: "s_machine \<Rightarrow> string option" where
  "binkp_remote_password s = known (bi_passwd (bs_remote s))"

definition binkp_remote_sysop_name :: "s_machine \<Rightarrow> string option" where
  "binkp_remote_sysop_name s = known (bi_sysop (bs_remote s))"

definition binkp_remote_system_name :: "s_machine \<Rightarrow> string option" where
  "binkp_remote_system_name s = known (bi_systname (bs_remote s))"

definition binkp_remote_location :: "s_machine \<Rightarrow> string option" where
  "binkp_remote_location s = known (bi_location (bs_remote s))"

definition binkp_remote_phone :: "s_machine \<Rightarrow> string option" where
  "binkp_remote_phone s = known (bi_phone (bs_remote s))"

definition binkp_remote_flags :: "s_machine \<Rightarrow> string option" where
  "binkp_remote_flags s = known (bi_flags (bs_remote s))"

definition binkp_remote_mailer :: "s_machine \<Rightarrow> string option" where
  "binkp_remote_mailer s = known (bi_progname (bs_remote s))"

definition binkp_local_password :: "s_machine \<Rightarrow> string option" where
  "binkp_local_password s = known (bi_passwd (bs_local s))"

definition binkp_remote_traffic :: "s_machine \<Rightarrow> int \<times> s_traffic" where
  "binkp_remote_traffic s =
     (let b = bs_remote s in
      if bi_has_TRF b
      then (0, zero_traffic\<lparr>netmail_size := word_of_int (bi_TRF_PKT b), files_size := word_of_int (bi_TRF_other b)\<rparr>)
      else (-1, zero_traffic))"

definition binkp_deinit :: "s_machine \<Rightarrow> s_machine" where
  "binkp_deinit s = s\<lparr>bs_local := zero_sysinfo, bs_remote := zero_sysinfo\<rparr>"

end
