(* ===== verification/BinkpProps.thy ===== *)
theory BinkpProps
  imports BinkpApi ProtProps
begin

text \<open>What is proved of BinkP.\<close>

section \<open>Blocks on the line\<close>

lemma bytes_of_chars [simp]: "bytes (chars bs) = bs"
  by (induction bs) (simp_all add: bytes_def chars_def)

lemma chars_of_bytes [simp]: "chars (bytes s) = s"
  by (induction s) (simp_all add: bytes_def chars_def unat_of_nat take_bit_nat_eq_self)

lemma length_bytes_string [simp]: "length (bytes s) = length s"
  by (simp add: bytes_def)

lemma length_block_header [simp]: "length (block_header t n) = 2"
  by (simp add: block_header_def Let_def)

lemma byte_masks: "(0x7f :: byte) = mask 7" "(0xff :: u16) = mask 8"
  by (simp_all add: mask_eq_exp_minus_1)
lemma bit_128: "bit (0x80 :: int) n \<longleftrightarrow> n = 7"
proof -
  have "(0x80 :: int) = 2 ^ 7" by simp
  then show ?thesis by (simp only: bit_exp_iff) auto
qed
lemma header_word:
  fixes len :: u16
  assumes "\<not> bit len 15"
  shows "push_bit 8 (ucast ((ucast (drop_bit 8 len) OR 0x80 :: byte) AND 0x7f)) OR ucast (ucast (len AND 0xff) :: byte) = (len::u16)"
    "push_bit 8 (ucast ((ucast (drop_bit 8 len) AND 0x7f :: byte) AND 0x7f)) OR ucast (ucast (len AND 0xff) :: byte) = (len::u16)"
proof -
  have b: "n < 15" if "bit len n" for n
    using that assms bit_imp_le_length [OF that] by (cases "n = 15") auto
  show "push_bit 8 (ucast ((ucast (drop_bit 8 len) OR 0x80 :: byte) AND 0x7f)) OR ucast (ucast (len AND 0xff) :: byte) = (len::u16)"
    unfolding byte_masks by (rule bit_word_eqI) (auto simp: bit_simps bit_mask_iff bit_128 dest: b)
  show "push_bit 8 (ucast ((ucast (drop_bit 8 len) AND 0x7f :: byte) AND 0x7f)) OR ucast (ucast (len AND 0xff) :: byte) = (len::u16)"
    unfolding byte_masks by (rule bit_word_eqI) (auto simp: bit_simps bit_mask_iff dest: b)
qed
lemma command_bit: "(b OR 0x80 :: byte) AND 0x80 \<noteq> 0" "((b AND 0x7f) AND 0x80 :: byte) = 0"
proof -
  have "bit ((b OR 0x80 :: byte) AND 0x80) 7" by (simp add: bit_simps bit_128)
  then show "(b OR 0x80 :: byte) AND 0x80 \<noteq> 0" by auto
  show "((b AND 0x7f) AND 0x80 :: byte) = 0" unfolding byte_masks by (rule bit_word_eqI) (auto simp: bit_simps bit_mask_iff bit_128)
qed

lemma header_length_block:
  assumes "n < 2 ^ 15" shows "header_length (block_header t n @ r) = n"
proof -
  let ?len = "word_of_nat n :: u16"
  have n: "unat ?len = n" using assms by (simp add: unsigned_of_nat take_bit_nat_eq_self)
  then have "unat (drop_bit 15 ?len) = 0" using assms by (simp add: drop_bit_eq_div unat_div)
  then have "\<not> bit ?len 15" by (simp add: bit_iff_odd_drop_bit unat_eq_0)
  then show ?thesis
    using header_word [of ?len] n by (simp add: header_length_def block_header_def Let_def)
qed

lemma header_type_block: "header_type (block_header t n @ r) = t"
  by (cases t) (simp_all add: header_type_def block_header_def Let_def command_bit)

definition wire :: "bool \<Rightarrow> byte list \<Rightarrow> binkp_keys \<Rightarrow> byte list \<times> binkp_keys" where
  "wire c d k = (if c then encrypt_buf d k else (d, k))"

definition unwire :: "bool \<Rightarrow> byte list \<Rightarrow> binkp_keys \<Rightarrow> byte list \<times> binkp_keys" where
  "unwire c d k = (if c then decrypt_buf d k else (d, k))"

lemma length_wire [simp]: "length (fst (wire c d k)) = length d"
  by (simp add: wire_def bc.length_enc)

lemma wire_append:
  "wire c (a @ b) k = (fst (wire c a k) @ fst (wire c b (snd (wire c a k))), snd (wire c b (snd (wire c a k))))"
  by (simp add: wire_def bc.enc_append)

lemma unwire_wire: "unwire c (fst (wire c d k)) k = (d, snd (wire c d k))"
  by (simp add: wire_def unwire_def bc.dec_enc)

lemma unwire_part:
  "unwire c (take m (drop j (fst (wire c p k)))) (snd (wire c (take j p) k))
    = (take m (drop j p), snd (wire c (take (j + m) p) k))"
proof -
  let ?k = "snd (wire c (take j p) k)"
  have "fst (wire c p k) = fst (wire c (take j p) k) @ fst (wire c (drop j p) ?k)"
    using wire_append [of c "take j p" "drop j p" k] by simp
  then have d: "drop j (fst (wire c p k)) = fst (wire c (drop j p) ?k)"
    by (cases "j \<le> length p") (simp_all add: wire_def)
  have "fst (wire c (drop j p) ?k) = fst (wire c (take m (drop j p)) ?k) @ fst (wire c (drop m (drop j p)) (snd (wire c (take m (drop j p)) ?k)))"
    by (metis append_take_drop_id fst_conv wire_append)
  then have "take m (fst (wire c (drop j p) ?k)) = fst (wire c (take m (drop j p)) ?k)"
    by (cases "m \<le> length (drop j p)") simp_all
  moreover have "snd (wire c (take (j + m) p) k) = snd (wire c (take m (drop j p)) ?k)"
    by (simp add: take_add wire_append)
  ultimately show ?thesis using unwire_wire by (simp add: d)
qed

text \<open>One read of at most \<open>n + 1\<close> bytes of those on the line.\<close>

definition feed :: "nat \<Rightarrow> s_loop \<times> byte list \<Rightarrow> s_loop \<times> byte list" where
  "feed n = (\<lambda>(L, line).
     (let d = take (min (bl_want L) (n + 1)) line in if d = [] then (L, line) else (get_bytes d L, drop (length d) line)))"

definition keys_in :: "s_loop \<Rightarrow> binkp_keys" where
  "keys_in L = bi_keys_in (bs_remote (bl_s L))"

definition feeding :: "byte list \<Rightarrow> binkp_keys \<Rightarrow> byte list \<Rightarrow> bool \<Rightarrow> nat \<Rightarrow> s_loop \<times> byte list \<Rightarrow> bool" where
  "feeding p k rest c j = (\<lambda>(L, line). j \<le> length p \<and> bl_buf L = take j p \<and> line = drop j (fst (wire c p k)) @ rest
     \<and> bl_want L = (if j < 2 then 2 - j else length p - j) \<and> crypting (bl_s L) = c
     \<and> (if c then keys_in L = snd (wire c (take j p) k) else True))"

lemma get_bytes_unwire:
  assumes "c = crypting (bl_s L)" "length d \<le> bl_want L"
  shows "bl_buf (get_bytes d L) = bl_buf L @ fst (unwire c d (keys_in L))"
    "bl_want (get_bytes d L) = (if length (bl_buf (get_bytes d L)) = 2 then header_length (bl_buf (get_bytes d L))
       else bl_want L - length (fst (unwire c d (keys_in L))))"
    "c \<Longrightarrow> keys_in (get_bytes d L) = snd (unwire c d (keys_in L))"
    "crypting (bl_s (get_bytes d L)) = c"
  using assms by (auto simp: get_bytes_def unwire_def keys_in_def Let_def crypting_def has_opt_def split: prod.splits)

lemma feed_step:
  assumes "feeding p k rest c j (L, line)" "p = block_header t n @ b" "length b = n" "n < 2 ^ 15"
  shows "\<exists>m. feeding p k rest c (j + m) (feed x (L, line)) \<and> (j < length p \<longrightarrow> 0 < m)"
proof (cases "j < length p")
  case False
  with assms have "bl_want L = 0" by (auto simp: feeding_def)
  then show ?thesis using assms False by (intro exI [of _ 0]) (simp add: feed_def)
next
  case True
  define m where "m = min (bl_want L) (x + 1)"
  let ?d = "take m (drop j (fst (wire c p k)))"
  have two: "2 \<le> length p" using assms(2) by simp
  have want: "0 < bl_want L" "bl_want L \<le> length p - j" "j < 2 \<Longrightarrow> bl_want L = 2 - j" "2 \<le> j \<Longrightarrow> bl_want L = length p - j"
    using assms(1) True two by (auto simp: feeding_def)
  have m: "0 < m" "m \<le> bl_want L" "j + m \<le> length p" using want True by (auto simp: m_def)
  have d: "take m line = ?d" "length ?d = m" "drop m line = drop (j + m) (fst (wire c p k)) @ rest"
    using assms(1) m by (auto simp: feeding_def add.commute)
  have f: "feed x (L, line) = (get_bytes ?d L, drop (j + m) (fst (wire c p k)) @ rest)"
    unfolding feed_def prod.case Let_def m_def [symmetric] d(1) using d m by auto
  have u: "unwire c ?d (keys_in L) = (take m (drop j p), if c then snd (wire c (take (j + m) p) k) else keys_in L)"
    using assms(1) unwire_part [of c m j p k] by (cases c) (auto simp: feeding_def unwire_def wire_def)
  have buf: "bl_buf (get_bytes ?d L) = take (j + m) p"
    using get_bytes_unwire(1) [of c L ?d] assms(1) d(2) m u by (simp add: feeding_def take_add)
  have hl: "header_length (take 2 p) = length p - 2"
    using header_length_block [OF assms(4), of t "[]"] assms(2,3) by simp
  have "bl_want (get_bytes ?d L) = (if j + m < 2 then 2 - (j + m) else length p - (j + m))"
  proof (cases "j + m = 2")
    case True
    then show ?thesis using get_bytes_unwire(2) [of c L ?d] assms(1) d(2) m buf hl two by (simp add: feeding_def)
  next
    case False
    then have "length (take (j + m) p) \<noteq> 2" using m by simp
    then show ?thesis
      using get_bytes_unwire(2) [of c L ?d] assms(1) d(2) m buf u want False by (auto simp: feeding_def)
  qed
  then show ?thesis
    using get_bytes_unwire(3,4) [of c L ?d] assms(1) d(2) m buf u f
    by (intro exI [of _ m]) (auto simp: feeding_def)
qed

lemma feed_all:
  assumes "feeding p k rest c j X" "p = block_header t n @ b" "length b = n" "n < 2 ^ 15" "length p \<le> j + length ns"
  shows "feeding p k rest c (length p) (fold feed ns X)"
  using assms(1,5)
proof (induction ns arbitrary: j X)
  case Nil
  then show ?case by (auto simp: feeding_def split: prod.splits)
next
  case (Cons x ns)
  obtain L line where X: "X = (L, line)" by fastforce
  from feed_step [OF _ assms(2,3,4), of k rest c j L line x] Cons.prems(1)
  obtain m where m: "feeding p k rest c (j + m) (feed x X)" "j < length p \<longrightarrow> 0 < m" by (auto simp: X)
  have "length p \<le> j + m + length ns" using m Cons.prems by (cases "j < length p") (auto simp: feeding_def X)
  from Cons.IH [OF m(1) this] show ?case by simp
qed

lemma put_block_wire:
  "bl_out (put_block (t, q) S) = fst (wire (crypting (bl_s S)) (block_bytes t q) (bi_keys_out (bs_remote (bl_s S))))"
  "crypting (bl_s S) \<Longrightarrow> bi_keys_out (bs_remote (bl_s (put_block (t, q) S)))
     = snd (wire (crypting (bl_s S)) (block_bytes t q) (bi_keys_out (bs_remote (bl_s S))))"
  by (auto simp: put_block_def wire_def Let_def split: prod.splits)

text \<open>
  C30: Blocks on the line. What a sender puts on the line for a block, encrypted when the session is, a
  receiver with the same keys takes for a block of the same type and contents, in whatever pieces the
  bytes arrive, one byte at a time or more than belong to the block; it takes no byte of what follows,
  and both sides' keys agree afterwards, so the next block is read as well. The payload may have any
  length that fits fifteen bits.
\<close>

theorem binkp_blocks_roundtrip:
  assumes "length q < 2 ^ 15" "bl_buf R = []" "bl_want R = 2" "crypting (bl_s S) = crypting (bl_s R)"
    "bi_keys_out (bs_remote (bl_s S)) = keys_in R" "length q + 2 \<le> length ns"
  shows "case fold feed ns (R, bl_out (put_block (t, q) S) @ rest) of (R', rest') \<Rightarrow>
    rest' = rest \<and> bl_want R' = 0 \<and> header_type (bl_buf R') = t \<and> chars (drop 2 (bl_buf R')) = q
    \<and> (if crypting (bl_s R) then keys_in R' = bi_keys_out (bs_remote (bl_s (put_block (t, q) S))) else True)"
proof -
  let ?p = "block_bytes t q" and ?c = "crypting (bl_s R)" and ?k = "keys_in R"
  obtain R' rest' where r: "fold feed ns (R, bl_out (put_block (t, q) S) @ rest) = (R', rest')" by fastforce
  have "feeding ?p ?k rest ?c 0 (R, bl_out (put_block (t, q) S) @ rest)"
    using assms put_block_wire(1) [of t q S] by (simp add: feeding_def wire_def)
  from feed_all [OF this _ _ assms(1), of t "bytes q" ns] assms(6)
  have "feeding ?p ?k rest ?c (length ?p) (R', rest')" by (simp add: block_bytes_def r)
  then show ?thesis
    using r assms(4,5) put_block_wire(2) [of S t q]
    by (auto simp: feeding_def block_bytes_def header_type_block)
qed

section \<open>The handshake\<close>

subsection \<open>What is decided of an address\<close>

text \<open>A password was proved for one of the addresses, or none was wrong.\<close>

definition authenticated :: "conf \<Rightarrow> string \<times> byte list option \<Rightarrow> s_faddr list \<Rightarrow> bool" where
  "authenticated cf pc addrs \<longleftrightarrow>
     addrs \<noteq> [] \<and> (list_ex (proves cf (Some (fst pc)) (snd pc)) addrs \<or> \<not> list_ex (fails_to_prove cf (Some (fst pc)) (snd pc)) addrs)"

definition presented :: "s_machine \<Rightarrow> s_faddr list" where
  "presented s = map sa_addr (ses_remoteaddrs (bm_g s))"

text \<open>The answer to our challenge, or the password itself.\<close>

definition given_password :: "s_machine \<Rightarrow> string \<times> byte list option" where
  "given_password s =
     (let p = bi_passwd (bs_remote s); c = bi_challenge (bs_local s) in
      if c \<noteq> [] \<and> take 9 p = ''CRAM-MD5-'' then (drop 9 p, Some c) else (p, None))"

lemma check_addrs_result:
  assumes "check_addrs cf p ch s = (ok, s')"
  shows "\<exists>g. s' = s\<lparr>bm_g := g\<rparr> \<and> map sa_addr (ses_remoteaddrs g) = presented s \<and> ses_node_addr g = ses_node_addr (bm_g s)"
    "ok \<longleftrightarrow> authenticated cf (p, ch) (presented s)"
  using assms
  by (auto simp: check_addrs_def session_addrs_check_def addrs_check_step_eq authenticated_def presented_def list_ex_iff o_def
      split: if_splits)

lemma lock_loop_addrs: "map sa_addr (fst (snd (addrs_lock_loop ob as bl w))) = map sa_addr as"
proof (induction as arbitrary: bl w)
  case (Cons a as)
  show ?case using Cons by (simp split: prod.split) (metis fst_conv snd_conv)
qed simp

lemma lock_addrs_result:
  assumes "lock_addrs cf s = (ok, s')"
  shows "\<exists>g bl w. s' = s\<lparr>bm_g := g, bm_bsylist := bl, bm_locks := w\<rparr> \<and> map sa_addr (ses_remoteaddrs g) = presented s
    \<and> ses_node_addr g = ses_node_addr (bm_g s)"
proof -
  obtain one addrs bl w
    where l: "addrs_lock_loop (conf_outbounds cf) (ses_remoteaddrs (bm_g s)) (bm_bsylist s) (bm_locks s) = (one, addrs, bl, w)"
    by (rule prod_cases4)
  have s': "s' = s\<lparr>bm_g := (bm_g s)\<lparr>ses_remoteaddrs := addrs\<rparr>, bm_bsylist := bl, bm_locks := w\<rparr>"
    using assms l by (simp add: lock_addrs_def session_addrs_lock_def)
  have "map sa_addr addrs = presented s"
    using lock_loop_addrs [of "conf_outbounds cf" "ses_remoteaddrs (bm_g s)" "bm_bsylist s" "bm_locks s"] l
    by (simp add: presented_def)
  then show ?thesis unfolding s' by (intro exI conjI) (rule refl, simp_all)
qed

subsection \<open>The password of the other side is kept\<close>

lemma fold_passwd:
  assumes "\<And>x b. bi_passwd (f x b) = bi_passwd b"
  shows "bi_passwd (fold f xs b) = bi_passwd b"
  using assms by (induction xs arbitrary: b) simp_all

lemma parse_cram_passwd [simp]: "bi_passwd (parse_cram h b) = bi_passwd b"
  by (simp add: parse_cram_def Let_def fold_passwd del: string_tokens.simps split: list.split)

lemma parse_options_passwd [simp]: "bi_passwd (binkp_parse_options b os) = bi_passwd b"
  unfolding binkp_parse_options_def by (rule fold_passwd) (simp add: parse_option_def)

lemma process_NUL_passwd [simp]: "bi_passwd (binkp_process_NUL a b) = bi_passwd b"
  by (simp add: binkp_process_NUL_def process_VER_def scan_version_def process_TRF_def Let_def
      split: list.split option.split prod.split)

lemma incoming_keys_passwd [simp]: "bi_passwd (incoming_keys cf as b) = bi_passwd b"
  unfolding incoming_keys_def by (rule fold_passwd) (simp split: option.split prod.split)

subsection \<open>The answering side\<close>

text \<open>The password given is right for the addresses presented.\<close>

definition let_in :: "conf \<Rightarrow> s_machine \<Rightarrow> bool" where
  "let_in cf s \<longleftrightarrow> bs_address_established s \<and> authenticated cf (given_password s) (presented s)"

lemma let_in_cong:
  assumes "bs_address_established s' = bs_address_established s" "bi_passwd (bs_remote s') = bi_passwd (bs_remote s)"
    "bs_local s' = bs_local s" "presented s' = presented s"
  shows "let_in cf s' = let_in cf s"
  using assms by (simp add: let_in_def given_password_def)

lemma let_in_update [simp]:
  "let_in cf (s\<lparr>bs_phase := a\<rparr>) = let_in cf s" "let_in cf (s\<lparr>bs_subphase := a\<rparr>) = let_in cf s"
  "let_in cf (s\<lparr>bs_complete := b\<rparr>) = let_in cf s" "let_in cf (s\<lparr>bs_extracmd := e\<rparr>) = let_in cf s"
  "let_in cf (s\<lparr>bs_extraislast := b\<rparr>) = let_in cf s" "let_in cf (s\<lparr>bs_rc := a\<rparr>) = let_in cf s"
  "let_in cf (s\<lparr>bs_continuesend := b\<rparr>) = let_in cf s" "let_in cf (s\<lparr>bs_emptyloop := a\<rparr>) = let_in cf s"
  "let_in cf (s\<lparr>bs_password_received := b\<rparr>) = let_in cf s"
  "bi_passwd r = bi_passwd (bs_remote s) \<Longrightarrow> let_in cf (s\<lparr>bs_remote := r\<rparr>) = let_in cf s"
  by (rule let_in_cong; simp add: presented_def)+

definition answering :: "conf \<Rightarrow> s_machine \<Rightarrow> bool" where
  "answering cf s \<longleftrightarrow> bs_mode s = bmode_incoming_handshake \<and> bs_batchsendcomplete s = 0 \<and> bs_batchreceivecomplete s = 0
     \<and> \<not> bs_waiting_got s \<and> bs_frs s = frs_nothing \<and> (bs_phase s \<in> {0, 1, 3, 100} \<or> bs_phase s = 4 \<and> bs_password_received s)
     \<and> (bs_complete s \<longrightarrow> bs_phase s = 100 \<or> bs_rc s \<noteq> PRC_NOERROR \<or> bs_password_received s)
     \<and> (bs_password_received s \<longrightarrow> let_in cf s)"

lemma answering_update [simp]:
  "answering cf (s\<lparr>bs_subphase := a\<rparr>) = answering cf s" "answering cf (s\<lparr>bs_extracmd := e\<rparr>) = answering cf s"
  "answering cf (s\<lparr>bs_extraislast := b\<rparr>) = answering cf s" "answering cf (s\<lparr>bs_continuesend := b\<rparr>) = answering cf s"
  "answering cf (s\<lparr>bs_emptyloop := a\<rparr>) = answering cf s"
  "bi_passwd r = bi_passwd (bs_remote s) \<Longrightarrow> answering cf (s\<lparr>bs_remote := r\<rparr>) = answering cf s"
  by (simp_all add: answering_def)

lemma answering_rc [simp]: "answering cf s \<Longrightarrow> v \<noteq> PRC_NOERROR \<Longrightarrow> answering cf (s\<lparr>bs_rc := v\<rparr>)"
  by (simp add: answering_def)

lemma send_sysinfo_answering:
  assumes "send_sysinfo s = (m, b, s')" "answering cf s" "bs_phase s = 1"
  shows "answering cf s'" "bs_password_received s' = bs_password_received s"
  using assms
  by (auto simp: send_sysinfo_def send_address_def answering_def Let_def split: option.splits)

lemma handshake_send_answering:
  assumes "handshake_send cf s = (m, b, s')" "answering cf s"
  shows "answering cf s' \<and> bs_password_received s' = bs_password_received s"
proof -
  from assms(2) consider "bs_phase s = 0" | "bs_phase s = 1" | "bs_phase s = 3" | "bs_phase s = 4" "bs_password_received s" | "bs_phase s = 100"
    by (auto simp: answering_def)
  then show ?thesis
  proof cases
    case 1
    let ?s = "s\<lparr>bs_phase := 1, bs_subphase := 0\<rparr>"
    have a: "answering cf ?s" "bs_phase ?s = 1" using assms(2) 1 by (auto simp: answering_def)
    show ?thesis
    proof (cases "bi_challenge (bs_local s) \<noteq> []")
      case True
      then show ?thesis using assms 1 a by (auto simp: handshake_send_def answering_def)
    next
      case False
      then have "send_sysinfo ?s = (m, b, s')" using assms 1 by (simp add: handshake_send_def)
      from send_sysinfo_answering [OF this a] show ?thesis by simp
    qed
  next
    case 2
    then have "send_sysinfo s = (m, b, s')" using assms(1) by (simp add: handshake_send_def)
    from send_sysinfo_answering [OF this assms(2) 2] show ?thesis by simp
  next
    case 3
    then show ?thesis using assms by (auto simp: handshake_send_def answering_def split: if_splits)
  next
    case 4
    then show ?thesis using assms by (auto simp: handshake_send_def answering_def)
  next
    case 5
    then show ?thesis using assms by (auto simp: handshake_send_def answering_def)
  qed
qed

lemma getforsend_answering:
  assumes "binkp_getforsend cf s = Some (m, b, s')" "answering cf s"
  shows "answering cf s' \<and> bs_password_received s' = bs_password_received s"
proof (cases "bs_extracmd s")
  case None
  then have "handshake_send cf s = (m, b, s')" using assms by (simp add: binkp_getforsend_def answering_def)
  then show ?thesis using assms(2) by (rule handshake_send_answering)
next
  case (Some e)
  have "answering cf (s\<lparr>bs_extracmd := None, bs_phase := 100, bs_complete := True\<rparr>)"
    using assms(2) by (auto simp: answering_def)
  with Some show ?thesis using assms by (auto simp: binkp_getforsend_def split: prod.splits if_splits)
qed

lemma put_block_answering [simp]:
  "answering cf (bl_s (put_block b L)) = answering cf (bl_s L)" "bl_buf (put_block b L) = bl_buf L"
  "bl_want (put_block b L) = bl_want L" "bs_password_received (bl_s (put_block b L)) = bs_password_received (bl_s L)"
  by (simp_all add: put_block_def Let_def split: prod.split)

lemma proto_error_answering [simp]:
  "answering cf s \<Longrightarrow> answering cf (snd (proto_error msg s))"
  "bs_password_received (snd (proto_error msg s)) = bs_password_received s"
  by (simp_all add: proto_error_def PRC_LOCALABORTED_def PRC_NOERROR_def)

text \<open>What an outcome leaves: the state is still that of the answering side.\<close>

definition leaves :: "conf \<Rightarrow> bool \<Rightarrow> outcome \<Rightarrow> bool" where
  "leaves cf pw r =
     (case r of None \<Rightarrow> True
      | Some (m, s) \<Rightarrow> answering cf s \<and> bs_password_received s = pw \<and> (m = 3 \<longrightarrow> bs_rc s \<noteq> PRC_NOERROR))"

lemma leaves_simps [simp]:
  "leaves cf pw None" "leaves cf pw (Some (m, s)) = (answering cf s \<and> bs_password_received s = pw \<and> (m = 3 \<longrightarrow> bs_rc s \<noteq> PRC_NOERROR))"
  by (simp_all add: leaves_def)

lemma leaves_proto_error [simp]:
  "answering cf s \<Longrightarrow> leaves cf pw (Some (proto_error msg s)) = (bs_password_received s = pw)"
  by (simp add: leaves_def proto_error_def PRC_LOCALABORTED_def PRC_NOERROR_def)

lemma leaves_receive_data:
  assumes "answering cf s"
  shows "leaves cf (bs_password_received s) (receive_data cf req buf s)"
  using assms by (simp add: receive_data_def answering_def leaves_def proto_error_def PRC_LOCALABORTED_def PRC_NOERROR_def)

text \<open>
  A command before the password: the addresses, which establish what is presented; afterwards they cannot
  change.
\<close>

lemma answering_presented:
  assumes "answering cf s" "\<not> bs_password_received s"
  shows "answering cf (s\<lparr>bm_g := g\<rparr>)" "answering cf (s\<lparr>bs_address_established := b\<rparr>)" "answering cf (s\<lparr>bs_remote := r\<rparr>)"
    "answering cf (s\<lparr>bm_bsylist := bl\<rparr>)" "answering cf (s\<lparr>bm_locks := l\<rparr>)"
  using assms by (simp_all add: answering_def)

lemma leaves_receive_ADR:
  assumes "answering cf s" "\<not> bs_password_received s"
  shows "leaves cf False (receive_ADR cf arg s)"
  using assms
  by (auto simp: receive_ADR_def Let_def last_message_def more_message_def established_def answering_presented leaves_def
      answering_def proto_error_def PRC_LOCALABORTED_def PRC_NOERROR_def split: option.split)

text \<open>While the password is not received, a block may also bring it: then no other is wanted.\<close>

definition allows :: "conf \<Rightarrow> outcome \<Rightarrow> bool" where
  "allows cf r =
     (case r of None \<Rightarrow> True
      | Some (m, s) \<Rightarrow> answering cf s \<and> (bs_password_received s \<longrightarrow> m = 2) \<and> (m = 3 \<longrightarrow> bs_rc s \<noteq> PRC_NOERROR))"

lemma allows_simps [simp]:
  "allows cf None"
  "allows cf (Some (m, s)) = (answering cf s \<and> (bs_password_received s \<longrightarrow> m = 2) \<and> (m = 3 \<longrightarrow> bs_rc s \<noteq> PRC_NOERROR))"
  by (simp_all add: allows_def)

lemma leaves_allows: "leaves cf False r \<Longrightarrow> allows cf r"
  by (auto simp: leaves_def allows_def split: option.splits)

lemma leaves_receive_PWD:
  assumes "answering cf s" "\<not> bs_password_received s"
  shows "allows cf (receive_PWD cf arg s)"
proof (cases "bs_mode s = bmode_incoming_handshake \<and> bs_address_established s \<and> length arg \<le> 64")
  case False
  then show ?thesis
    using assms by (auto simp: receive_PWD_def proto_error_def PRC_LOCALABORTED_def PRC_NOERROR_def)
next
  case True
  define t where "t = s\<lparr>bs_remote := (bs_remote s)\<lparr>bi_passwd := arg, bi_challenge := bi_challenge (bs_local s)\<rparr>\<rparr>"
  obtain ok s1 where auth: "binkp_auth_incoming cf t = (ok, s1)" by fastforce
  have t: "answering cf t" "\<not> bs_password_received t" using assms by (simp_all add: t_def answering_presented)
  obtain g where s1: "s1 = t\<lparr>bm_g := g\<rparr>" "map sa_addr (ses_remoteaddrs g) = presented t"
    using auth check_addrs_result(1) unfolding binkp_auth_incoming_def Let_def by (smt (verit, best))
  have a1: "answering cf s1" "\<not> bs_password_received s1" "bs_address_established s1" "presented s1 = presented t"
    using t s1 True by (auto simp: answering_presented t_def presented_def)
  have ok: "authenticated cf (given_password s1) (presented s1)" if ok
    using auth that check_addrs_result(2) a1(4)
    unfolding binkp_auth_incoming_def Let_def given_password_def s1 t_def by (auto split: if_splits)
  obtain ok2 s2 where lock: "lock_addrs cf s1 = (ok2, s2)" by fastforce
  obtain g' bl w where s2: "s2 = s1\<lparr>bm_g := g', bm_bsylist := bl, bm_locks := w\<rparr>" "map sa_addr (ses_remoteaddrs g') = presented s1"
    using lock_addrs_result [OF lock] by blast
  have a2: "answering cf s2" "\<not> bs_password_received s2" using a1 s2 by (simp_all add: answering_presented)
  have l: "let_in cf s2" if ok
    using ok [OF that] a1(3) s2 by (simp add: let_in_def given_password_def presented_def)
  then have "answering cf (s2\<lparr>bs_password_received := True\<rparr>)" if ok using a2 that by (auto simp: answering_def)
  then show ?thesis
    using True a1 a2 auth lock by (simp add: receive_PWD_def t_def [symmetric] Let_def last_message_def)
qed

lemma leaves_receive_command:
  assumes "answering cf s" "\<not> bs_password_received s"
  shows "allows cf (receive_command cf junk buf s)"
proof -
  have e: "allows cf (Some (proto_error msg s))" for msg
    using assms by (intro leaves_allows) simp
  have "allows cf (give_up s)"
    using assms by (simp add: give_up_def PRC_REMOTEABORTED_def PRC_NOERROR_def)
  moreover have "bs_mode s = bmode_incoming_handshake" using assms(1) by (simp add: answering_def)
  moreover have "allows cf (receive_ADR cf arg s)" "allows cf (receive_PWD cf arg s)" for arg
    using leaves_receive_ADR [OF assms] leaves_receive_PWD [OF assms] by (auto intro: leaves_allows)
  ultimately show ?thesis
    using assms e
    by (simp add: receive_command_def receive_FILE_def receive_OK_def receive_EOB_def receive_GOT_def receive_GET_def
        Let_def answering_presented split: option.split e_bpmsg.split)
qed

definition answering_loop :: "conf \<Rightarrow> s_loop \<Rightarrow> bool" where
  "answering_loop cf L \<longleftrightarrow> answering cf (bl_s L) \<and> (bs_password_received (bl_s L) \<longrightarrow> bl_buf L = [] \<and> bl_want L = 0)"

definition answering_turn :: "conf \<Rightarrow> s_loop turn \<Rightarrow> bool" where
  "answering_turn cf t =
     (case t of Continue L \<Rightarrow> answering_loop cf L | Return rc L \<Rightarrow> rc \<noteq> PRC_NOERROR \<and> answering_loop cf L | Undefined \<Rightarrow> True)"

lemma answering_turn_simps [simp]:
  "answering_turn cf (Continue L) = answering_loop cf L"
  "answering_turn cf (Return rc L) = (rc \<noteq> PRC_NOERROR \<and> answering_loop cf L)" "answering_turn cf Undefined"
  by (simp_all add: answering_turn_def)

lemma answering_and_then:
  assumes "answering_turn cf t" "\<And>L. answering_loop cf L \<Longrightarrow> answering_turn cf (f L)"
  shows "answering_turn cf (and_then t f)"
  using assms by (cases t) (simp_all add: and_then_def)

lemma next_block_answering:
  assumes "answering_loop cf L"
  shows "answering_turn cf (next_block cf L)"
proof -
  define L0 where "L0 = (if bs_continuesend (bl_s L) then L\<lparr>bl_no_more := False, bl_s := (bl_s L)\<lparr>bs_continuesend := False\<rparr>\<rparr> else L)"
  have L0: "answering_loop cf L0" using assms by (simp add: L0_def answering_loop_def)
  show ?thesis
  proof (cases "binkp_getforsend cf (bl_s L0)")
    case None
    then show ?thesis using L0 by (simp add: next_block_def L0_def [symmetric] Let_def)
  next
    case (Some r)
    obtain m b s' where r: "r = (m, b, s')" by (rule prod_cases3)
    define L1 where "L1 = (case b of None \<Rightarrow> L0\<lparr>bl_s := s'\<rparr> | Some b \<Rightarrow> put_block b (L0\<lparr>bl_s := s'\<rparr>))"
    have "answering_loop cf L1"
      using getforsend_answering [of cf "bl_s L0" m b s'] Some r L0
      by (simp add: L1_def answering_loop_def split: option.split)
    then have "answering_loop cf L1" "answering_loop cf (L1\<lparr>bl_no_more := True\<rparr>)" by (simp_all add: answering_loop_def)
    then show ?thesis
      using L0 Some by (simp add: next_block_def L0_def [symmetric] L1_def [symmetric] r Let_def PRC_ERROR_def PRC_NOERROR_def)
  qed
qed

lemma io_answering:
  assumes "answering_loop cf L"
  shows "answering_turn cf (wait_io io L)"
    "answering_turn cf (read_io io L)"
    "answering_turn cf (write_io io L)"
  using assms
  by (auto simp: wait_io_def read_io_def write_io_def get_bytes_def answering_loop_def Let_def PRC_ERROR_def PRC_NOERROR_def
      PRC_REMOTEABORTED_def split: read_result.split write_result.split prod.split)

lemma got_block_answering:
  assumes "answering_loop cf L"
  shows "answering_turn cf (got_block cf req io L)"
proof (cases "bs_password_received (bl_s L) \<or> bl_want L \<noteq> 0 \<or> bl_buf L = [] \<or> length (bl_buf L) < 2")
  case True
  then show ?thesis using assms by (auto simp: got_block_def answering_loop_def)
next
  case False
  let ?r = "binkp_doreceiveblock cf req (io_junk io) (header_type (bl_buf L)) (chars (drop 2 (bl_buf L))) (bl_s L)"
  have a: "answering cf (bl_s L)" "\<not> bs_password_received (bl_s L)" using assms False by (simp_all add: answering_loop_def)
  have r: "allows cf ?r"
    using leaves_receive_command [OF a] leaves_receive_data [OF a(1)] a(2)
    by (cases "header_type (bl_buf L)") (simp_all add: binkp_doreceiveblock_def leaves_allows)
  have give_up: "answering cf (s\<lparr>bs_complete := True\<rparr>)" if "answering cf s" "bs_rc s \<noteq> PRC_NOERROR" for s
    using that by (simp add: answering_def)
  show ?thesis
    using False a r
    by (auto simp: give_up got_block_def answering_loop_def Let_def PRC_ERROR_def PRC_NOERROR_def split: option.split)
qed

lemma turn_answering:
  assumes "answering_loop cf L"
  shows "answering_turn cf (binkp_turn cf req io L)"
  unfolding binkp_turn_def
proof (rule answering_and_then [OF next_block_answering [OF assms]])
  fix L :: s_loop assume "answering_loop cf L"
  moreover from this have "\<not> batch_complete (bl_s L)" by (simp add: answering_loop_def answering_def batch_complete_def)
  ultimately show "answering_turn cf (if batch_complete (bl_s L) \<and> one_more_batch (bl_s L) then Continue (next_batch L)
      else exchange cf req io (finish_session L))"
    by (auto simp: exchange_def finish_session_def intro!: answering_and_then io_answering got_block_answering)
qed

lemma passes_answering:
  "answering_loop cf L \<Longrightarrow> (case binkp_passes cf req ios L of
     Continue L' \<Rightarrow> answering_loop cf L' | Undefined \<Rightarrow> True
   | Return rc L' \<Rightarrow> answering_loop cf L' \<and> (rc = PRC_NOERROR \<longrightarrow> bs_complete (bl_s L') \<and> bs_rc (bl_s L') = PRC_NOERROR))"
proof (induction cf req ios L rule: binkp_passes.induct)
  case (1 cf req L)
  then show ?case by (simp add: loop_ends_def)
next
  case (2 cf req io ios L)
  show ?case
  proof (cases "loop_ends (bl_s L)")
    case True
    then show ?thesis using 2(2) by (simp add: loop_ends_def)
  next
    case False
    then show ?thesis
      using 2(1) [OF False] turn_answering [OF 2(2), of req io] by (cases "binkp_turn cf req io L") (simp_all add: and_then_def)
  qed
qed

text \<open>
  C27: Who is let in. However the other side and the operating system behave, in whatever pieces the bytes
  come: once the answering side has sent \<open>M_OK\<close> (the phase is 4), the addresses presented are established,
  and for them a password was given, as it is or as the answer to our challenge, that proves one of them, or
  none of them has a password that it fails to prove. If the handshake ends with a return code of no error,
  that holds as well, unless the side has given a last message of its own, \<open>M_ERR\<close> or \<open>M_BSY\<close> (the
  phase is 100), which does not count as an error.
\<close>

theorem incoming_authenticated:
  "case binkp_incoming cf req ios s of
     Undefined \<Rightarrow> True
   | Continue L \<Rightarrow> (if bs_phase (bl_s L) = 4 then let_in cf (bl_s L) else True)
   | Return rc L \<Rightarrow>
       (if bs_phase (bl_s L) = 4 \<or> rc = PRC_NOERROR \<and> bs_phase (bl_s L) \<noteq> 100 then let_in cf (bl_s L) else True)"
proof -
  let ?L = "loop_start (s\<lparr>bs_mode := bmode_incoming_handshake, bs_address_established := False\<rparr>)"
  have "answering_loop cf ?L" by (simp add: answering_loop_def answering_def loop_start_def)
  from passes_answering [OF this, of req ios] show ?thesis
    by (auto simp: binkp_incoming_def binkp_loop_def answering_loop_def answering_def split: turn.splits)
qed

subsection \<open>The calling side\<close>

text \<open>The system called is among those presented, and our own password for it is that of the others.\<close>

definition reached :: "conf \<Rightarrow> string \<Rightarrow> s_faddr \<Rightarrow> s_machine \<Rightarrow> bool" where
  "reached cf own called s \<longleftrightarrow>
     list_ex (\<lambda>a. ftn_addrcomp a called = 0) (presented s) \<and> authenticated cf (take 64 own, None) (presented s)"

definition calling :: "conf \<Rightarrow> string \<Rightarrow> s_faddr \<Rightarrow> s_machine \<Rightarrow> bool" where
  "calling cf own called s \<longleftrightarrow> bs_mode s = bmode_outgoing_handshake \<and> bs_batchsendcomplete s = 0 \<and> bs_batchreceivecomplete s = 0
     \<and> bs_frs s = frs_nothing \<and> (bs_phase s \<in> {0, 1, 3, 100} \<or> bs_phase s = 4 \<and> bs_address_established s)
     \<and> (bs_address_established s \<longrightarrow> reached cf own called s) \<and> bi_passwd (bs_local s) = own \<and> ses_node_addr (bm_g s) = called"

lemma calling_update [simp]:
  "calling cf p c (s\<lparr>bs_subphase := a\<rparr>) = calling cf p c s" "calling cf p c (s\<lparr>bs_extracmd := e\<rparr>) = calling cf p c s"
  "calling cf p c (s\<lparr>bs_extraislast := b\<rparr>) = calling cf p c s" "calling cf p c (s\<lparr>bs_continuesend := b\<rparr>) = calling cf p c s"
  "calling cf p c (s\<lparr>bs_emptyloop := a\<rparr>) = calling cf p c s" "calling cf p c (s\<lparr>bs_complete := b\<rparr>) = calling cf p c s"
  "calling cf p c (s\<lparr>bs_remote := r\<rparr>) = calling cf p c s" "calling cf p c (s\<lparr>bs_rc := v\<rparr>) = calling cf p c s"
  "calling cf p c (s\<lparr>bm_bsylist := bl\<rparr>) = calling cf p c s" "calling cf p c (s\<lparr>bm_locks := l\<rparr>) = calling cf p c s"
  by (simp_all add: calling_def reached_def presented_def)

lemma calling_phase:
  assumes "calling cf own called s" "n \<in> {0, 1, 3, 100} \<or> n = 4 \<and> bs_address_established s"
  shows "calling cf own called (s\<lparr>bs_phase := n\<rparr>)"
  using assms by (auto simp: calling_def reached_def presented_def)

lemma send_sysinfo_calling:
  assumes "send_sysinfo t = (m, b, t')" "calling cf own called t" "bs_phase t = 1"
  shows "calling cf own called t'"
proof (cases "sysinfo_text t (bs_subphase t)")
  case None
  have "calling cf own called (t\<lparr>bs_subphase := 0, bs_phase := 3\<rparr>)" using assms(2) by (intro calling_phase) simp_all
  then show ?thesis using assms(1,3) None by (auto simp: send_sysinfo_def send_address_def)
next
  case (Some x)
  then show ?thesis using assms(1,2) by (auto simp: send_sysinfo_def)
qed

lemma calling_send:
  assumes "binkp_getforsend cf s = Some (m, b, s')" "calling cf own called s"
  shows "calling cf own called s'"
proof (cases "bs_extracmd s")
  case (Some e)
  have "calling cf own called (s\<lparr>bs_extracmd := None, bs_phase := 100\<rparr>)"
    using assms(2) by (intro calling_phase) simp_all
  with Some show ?thesis using assms by (auto simp: binkp_getforsend_def split: prod.splits if_splits)
next
  case None
  have mode: "bs_mode s = bmode_outgoing_handshake" using assms(2) by (simp add: calling_def)
  have h: "handshake_send cf s = (m, b, s')" using assms(1) None mode by (simp add: binkp_getforsend_def)
  from assms(2) consider "bs_phase s = 0" | "bs_phase s = 1" | "bs_phase s = 3" | "bs_phase s = 4" | "bs_phase s = 100"
    by (auto simp: calling_def)
  then show ?thesis
  proof cases
    case 1
    have "calling cf own called (s\<lparr>bs_phase := 1\<rparr>)" using assms(2) by (rule calling_phase) simp
    then have "calling cf own called (s\<lparr>bs_phase := 1, bs_subphase := 0\<rparr>)" by simp
    moreover have "send_sysinfo (s\<lparr>bs_phase := 1, bs_subphase := 0\<rparr>) = (m, b, s')" using h 1 mode by (simp add: handshake_send_def)
    ultimately show ?thesis using send_sysinfo_calling [of "s\<lparr>bs_phase := 1, bs_subphase := 0\<rparr>"] by simp
  next
    case 2
    then have "send_sysinfo s = (m, b, s')" using h by (simp add: handshake_send_def)
    then show ?thesis using send_sysinfo_calling assms(2) 2 by blast
  next
    case 3
    then have "send_password s = (m, b, s')" using h mode by (simp add: handshake_send_def)
    moreover have "calling cf own called (s\<lparr>bs_phase := 4\<rparr>)" if "bs_address_established s"
      using assms(2) that by (intro calling_phase) simp_all
    ultimately show ?thesis using assms(2) 3 by (auto simp: send_password_def split: if_splits)
  next
    case 4
    then show ?thesis using h assms(2) mode by (auto simp: handshake_send_def)
  next
    case 5
    then show ?thesis using h assms(2) by (auto simp: handshake_send_def)
  qed
qed

lemma proto_error_calling [simp]: "calling cf own called (snd (proto_error msg s)) = calling cf own called s"
  by (simp add: proto_error_def)

lemma outgoing_ADR_calling:
  assumes "calling cf own called s" "\<not> bs_address_established s"
  shows "calling cf own called (snd (outgoing_ADR cf s))"
proof -
  define t where "t = s\<lparr>bs_remote := (bs_remote s)\<lparr>bi_passwd := take 64 (bi_passwd (bs_local s))\<rparr>\<rparr>"
  have t: "calling cf own called t" "\<not> bs_address_established t" "bi_passwd (bs_remote t) = take 64 own" "presented t = presented s"
    using assms by (simp_all add: t_def) (simp_all add: calling_def presented_def)
  obtain ok s1 where c: "check_addrs cf (bi_passwd (bs_remote t)) None t = (ok, s1)" by fastforce
  obtain g where s1: "s1 = t\<lparr>bm_g := g\<rparr>" "map sa_addr (ses_remoteaddrs g) = presented t" "ses_node_addr g = ses_node_addr (bm_g t)"
    using check_addrs_result(1) [OF c] by blast
  have a: "calling cf own called s1" "\<not> bs_address_established s1" "presented s1 = presented s"
    using t s1 by (auto simp: calling_def presented_def)
  have "reached cf own called s1"
    if ok "\<not> session_addrs_check_genuine (ses_remoteaddrs (bm_g s)) (ses_node_addr (bm_g s))"
    using check_addrs_result(2) [OF c] that a(3) t(3,4) assms(1)
    by (simp add: reached_def session_addrs_check_genuine_def calling_def) (simp add: presented_def list_ex_iff)
  moreover have "calling cf own called (s1\<lparr>bs_address_established := True\<rparr>)" if "reached cf own called s1"
    using that a(1) by (auto simp: calling_def reached_def presented_def)
  ultimately show ?thesis
    using assms(1) a(1) c by (simp add: outgoing_ADR_def t_def [symmetric] Let_def last_message_def established_def)
qed

lemma calling_receive:
  assumes "binkp_doreceiveblock cf req junk t buf s = Some (m, s')" "calling cf own called s"
  shows "calling cf own called s'"
proof -
  have mode: "bs_mode s = bmode_outgoing_handshake" "bs_frs s = frs_nothing" using assms(2) by (simp_all add: calling_def)
  have err: "calling cf own called s'" if "Some (proto_error msg s) = Some (m, s')" for msg
    using that assms(2) by (metis option.inject proto_error_calling snd_conv)
  have adr: "calling cf own called s'" if "receive_ADR cf arg s = Some (m, s')" for arg
  proof (cases "bs_address_established s \<or> bs_extracmd s \<noteq> None")
    case True
    then show ?thesis using that err assms(2) by (auto simp: receive_ADR_def split: if_splits)
  next
    case False
    define t where "t = s\<lparr>bm_g := (bm_g s)\<lparr>ses_remoteaddrs := binkp_process_ADR arg (ses_remoteaddrs (bm_g s))\<rparr>\<rparr>"
    have t: "calling cf own called t" "\<not> bs_address_established t" using assms(2) False by (simp_all add: t_def calling_def)
    show ?thesis
      using that False t outgoing_ADR_calling [OF t] mode
      by (auto simp: receive_ADR_def t_def [symmetric] Let_def last_message_def split: if_splits) (simp_all add: t_def)
  qed
  have ok: "calling cf own called s'" if "receive_OK cf s = Some (m, s')"
  proof -
    obtain ok s1 where c: "lock_addrs cf s = (ok, s1)" by fastforce
    obtain g bl w where s1: "s1 = s\<lparr>bm_g := g, bm_bsylist := bl, bm_locks := w\<rparr>" "map sa_addr (ses_remoteaddrs g) = presented s"
      "ses_node_addr g = ses_node_addr (bm_g s)"
      using lock_addrs_result [OF c] by blast
    have "calling cf own called s1" using assms(2) s1 by (simp add: calling_def reached_def presented_def)
    then show ?thesis using that c mode by (auto simp: receive_OK_def last_message_def split: if_splits)
  qed
  show ?thesis
    using assms mode err adr ok
    by (cases t)
       (auto simp: binkp_doreceiveblock_def receive_command_def receive_data_def receive_PWD_def receive_FILE_def receive_EOB_def
         receive_GOT_def receive_GET_def give_up_def Let_def split: if_splits option.splits e_bpmsg.splits)
qed

subsection \<open>Invariants of the loop\<close>

text \<open>What sending and receiving a block keep, within one batch, the loop keeps.\<close>

definition turn_keeps :: "(s_machine \<Rightarrow> bool) \<Rightarrow> s_loop turn \<Rightarrow> bool" where
  "turn_keeps P t = (case t of Continue L \<Rightarrow> P (bl_s L) | Return rc L \<Rightarrow> P (bl_s L) | Undefined \<Rightarrow> True)"

lemma turn_keeps_simps [simp]:
  "turn_keeps P (Continue L) = P (bl_s L)" "turn_keeps P (Return rc L) = P (bl_s L)" "turn_keeps P Undefined"
  by (simp_all add: turn_keeps_def)

lemma turn_keeps_and_then:
  assumes "turn_keeps P t" "\<And>L. P (bl_s L) \<Longrightarrow> turn_keeps P (f L)"
  shows "turn_keeps P (and_then t f)"
  using assms by (cases t) (simp_all add: and_then_def)

locale loop_invariant =
  fixes P :: "s_machine \<Rightarrow> bool" and cf :: conf and req :: req_processor
  assumes send: "binkp_getforsend cf s = Some (m, b, s') \<Longrightarrow> P s \<Longrightarrow> P s'"
    and receive: "binkp_doreceiveblock cf req junk t buf s = Some (n, s') \<Longrightarrow> P s \<Longrightarrow> P s'"
    and keys: "P s \<Longrightarrow> P (s\<lparr>bs_remote := (bs_remote s)\<lparr>bi_keys_out := k\<rparr>\<rparr>)"
      "P s \<Longrightarrow> P (s\<lparr>bs_remote := (bs_remote s)\<lparr>bi_keys_in := k\<rparr>\<rparr>)"
    and loop: "P s \<Longrightarrow> P (s\<lparr>bs_continuesend := False\<rparr>)" "P s \<Longrightarrow> P (s\<lparr>bs_emptyloop := e\<rparr>)" "P s \<Longrightarrow> P (s\<lparr>bs_complete := True\<rparr>)"
    and one_batch: "P s \<Longrightarrow> \<not> batch_complete s"
begin

lemma put: "P (bl_s L) \<Longrightarrow> P (bl_s (put_block b L))"
  by (simp add: put_block_def Let_def keys split: prod.split)

lemma next_keeps:
  assumes "P (bl_s L)"
  shows "turn_keeps P (next_block cf L)"
proof -
  define L0 where "L0 = (if bs_continuesend (bl_s L) then L\<lparr>bl_no_more := False, bl_s := (bl_s L)\<lparr>bs_continuesend := False\<rparr>\<rparr> else L)"
  have L0: "P (bl_s L0)" using assms by (simp add: L0_def loop)
  show ?thesis
  proof (cases "binkp_getforsend cf (bl_s L0)")
    case None
    then show ?thesis using L0 by (simp add: next_block_def L0_def [symmetric] Let_def)
  next
    case (Some r)
    obtain m b s' where r: "r = (m, b, s')" by (rule prod_cases3)
    define L1 where "L1 = (case b of None \<Rightarrow> L0\<lparr>bl_s := s'\<rparr> | Some b \<Rightarrow> put_block b (L0\<lparr>bl_s := s'\<rparr>))"
    have "P (bl_s L1)" using send [OF _ L0, of m b s'] Some r by (simp add: L1_def put split: option.split)
    then show ?thesis using L0 Some by (simp add: next_block_def L0_def [symmetric] L1_def [symmetric] r Let_def)
  qed
qed

lemma exchange_keeps:
  assumes "P (bl_s L)"
  shows "turn_keeps P (exchange cf req io L)"
proof -
  have w: "turn_keeps P (wait_io io L)" if "P (bl_s L)" for L
    using that by (simp add: wait_io_def Let_def loop)
  have r: "turn_keeps P (read_io io L)" if "P (bl_s L)" for L
    using that by (simp add: read_io_def get_bytes_def Let_def keys split: read_result.split prod.split)
  have g: "turn_keeps P (got_block cf req io L)" if "P (bl_s L)" for L
  proof (cases "binkp_doreceiveblock cf req (io_junk io) (header_type (bl_buf L)) (chars (drop 2 (bl_buf L))) (bl_s L)")
    case (Some x)
    obtain m s' where x: "x = (m, s')" by fastforce
    have "P s'" using receive [OF _ that] Some x by blast
    then show ?thesis using that Some x by (simp add: got_block_def Let_def loop)
  qed (use that in \<open>simp add: got_block_def\<close>)
  have o: "turn_keeps P (write_io io L)" if "P (bl_s L)" for L
    using that by (simp add: write_io_def split: write_result.split)
  show ?thesis unfolding exchange_def by (intro turn_keeps_and_then w r g o assms)
qed

lemma passes_keep: "P (bl_s L) \<Longrightarrow> turn_keeps P (binkp_passes cf req ios L)"
proof (induction ios arbitrary: L)
  case (Cons io ios)
  have "turn_keeps P (binkp_turn cf req io L)"
    unfolding binkp_turn_def
  proof (rule turn_keeps_and_then [OF next_keeps [OF Cons.prems]])
    fix L :: s_loop assume "P (bl_s L)"
    then show "turn_keeps P (if batch_complete (bl_s L) \<and> one_more_batch (bl_s L) then Continue (next_batch L)
        else exchange cf req io (finish_session L))"
      using one_batch by (simp add: exchange_keeps finish_session_def)
  qed
  then show ?case using Cons by (simp add: turn_keeps_and_then)
qed simp

end

interpretation caller: loop_invariant "calling cf own called" cf req for cf own called req
proof
  show "\<not> batch_complete s" if "calling cf own called s" for s
    using that by (simp add: calling_def batch_complete_def)
qed (auto intro: calling_send calling_receive)

text \<open>
  C28: To whom we say our password. However the other side and the operating system behave: once the calling
  side has sent \<open>M_PWD\<close> (the phase is 4), the other side has presented its addresses, the one called is
  among them, and the password we have for it agrees with that configured for one of them, or with all
  those that are configured. A system that does not name the address we call is never told the password.
\<close>

theorem outgoing_password_guarded:
  "case binkp_outgoing cf req ios s of
     Undefined \<Rightarrow> True
   | Continue L \<Rightarrow>
       (if bs_phase (bl_s L) = 4
        then bs_address_established (bl_s L) \<and> reached cf (bi_passwd (bs_local s)) (ses_node_addr (bm_g s)) (bl_s L) else True)
   | Return rc L \<Rightarrow>
       (if bs_phase (bl_s L) = 4
        then bs_address_established (bl_s L) \<and> reached cf (bi_passwd (bs_local s)) (ses_node_addr (bm_g s)) (bl_s L) else True)"
proof -
  let ?own = "bi_passwd (bs_local s)" and ?called = "ses_node_addr (bm_g s)"
  obtain ko ki where k: "caller_keys (bytes ?own) = (ko, ki)" by fastforce
  let ?L = "loop_start (s\<lparr>bs_mode := bmode_outgoing_handshake, bs_address_established := False,
             bs_remote := (bs_remote s)\<lparr>bi_keys_out := ko, bi_keys_in := ki\<rparr>\<rparr>)"
  have "calling cf ?own ?called (bl_s ?L)" by (simp add: calling_def loop_start_def)
  then have "turn_keeps (calling cf ?own ?called) (binkp_passes cf req ios ?L)" by (rule caller.passes_keep)
  then show ?thesis
    by (auto simp: binkp_outgoing_def binkp_loop_def k calling_def split: turn.splits)
qed

section \<open>A wrong password\<close>

text \<open>The answering side has sent what it is, the addresses are established, and it waits for the password.\<close>

definition awaits_password :: "s_loop \<Rightarrow> bool" where
  "awaits_password L \<longleftrightarrow>
     (let s = bl_s L in bs_mode s = bmode_incoming_handshake \<and> bs_phase s = 3 \<and> bs_address_established s
        \<and> \<not> bs_password_received s \<and> bs_extracmd s = None \<and> \<not> bs_complete s \<and> \<not> bs_waiting_got s
        \<and> bs_batchsendcomplete s = 0 \<and> \<not> bs_continuesend s \<and> bs_rc s = PRC_NOERROR)
     \<and> bl_out L = []"

definition password_for :: "string \<Rightarrow> s_machine \<Rightarrow> s_machine" where
  "password_for pw s = s\<lparr>bs_remote := (bs_remote s)\<lparr>bi_passwd := pw, bi_challenge := bi_challenge (bs_local s)\<rparr>\<rparr>"

lemma auth_incoming_result:
  assumes "binkp_auth_incoming cf (password_for pw s) = (ok, s')"
  shows "\<exists>g. s' = (password_for pw s)\<lparr>bm_g := g\<rparr> \<and> map sa_addr (ses_remoteaddrs g) = presented s"
    "ok \<longleftrightarrow> authenticated cf (given_password (password_for pw s)) (presented s)"
proof -
  have p: "presented (password_for pw s) = presented s" by (simp add: presented_def password_for_def)
  show "\<exists>g. s' = (password_for pw s)\<lparr>bm_g := g\<rparr> \<and> map sa_addr (ses_remoteaddrs g) = presented s"
    using assms check_addrs_result(1) unfolding binkp_auth_incoming_def Let_def p [symmetric] by (smt (verit, best))
  show "ok \<longleftrightarrow> authenticated cf (given_password (password_for pw s)) (presented s)"
    using assms check_addrs_result(2) unfolding binkp_auth_incoming_def Let_def given_password_def p [symmetric]
    by (auto simp: password_for_def split: if_splits)
qed

lemma block_bytes_parts: "block_bytes t q = block_header t (length q) @ bytes q"
  by (simp add: block_bytes_def)

lemma cstr_no_null: "CHR 0x00 \<notin> set s \<Longrightarrow> cstr s = s"
  by (simp add: cstr_def takeWhile_eq_all_conv) metis

lemma refused_password:
  assumes "bs_mode s = bmode_incoming_handshake" "bs_address_established s" "bs_extracmd s = None"
    "length pw \<le> 64" "CHR 0x00 \<notin> set pw" "\<not> authenticated cf (given_password (password_for pw s)) (presented s)"
  shows "\<exists>g. receive_command cf junk (char_of (bpmsg_code BPMSG_PWD) # pw) s
      = Some (1, last_message BPMSG_ERR ''Security violation'' ((password_for pw s)\<lparr>bm_g := g\<rparr>))
    \<and> map sa_addr (ses_remoteaddrs g) = presented s"
proof -
  obtain ok s1 where a: "binkp_auth_incoming cf (password_for pw s) = (ok, s1)" by fastforce
  obtain g where g: "s1 = (password_for pw s)\<lparr>bm_g := g\<rparr>" "map sa_addr (ses_remoteaddrs g) = presented s"
    using auth_incoming_result(1) [OF a] by blast
  have "\<not> ok" using auth_incoming_result(2) [OF a] assms(6) by simp
  moreover have "bpmsg_of (char_of (2::nat)) = Some BPMSG_PWD" by (simp add: bpmsg_of_def bpmsgs_def)
  moreover have "bs_extracmd s1 = None" using assms(3) g by (simp add: password_for_def)
  ultimately have "receive_command cf junk (char_of (bpmsg_code BPMSG_PWD) # pw) s
      = Some (1, last_message BPMSG_ERR ''Security violation'' s1)"
    using a assms(1,2,4) cstr_no_null [OF assms(5)]
    by (simp add: receive_command_def receive_PWD_def password_for_def [symmetric])
  with g show ?thesis by blast
qed

lemma reading_pass:
  assumes "awaits_password L" "bl_want L \<noteq> 0" "io_select io" "io_read io = Read_bytes d" "length d = bl_want L" "d \<noteq> []"
    "2 < length (bl_buf L @ d)"
    "binkp_doreceiveblock cf req (io_junk io) (header_type (bl_buf L @ d)) (chars (drop 2 (bl_buf L @ d))) (bl_s L)
       = Some (1, s')"
  shows "binkp_turn cf req io L = Continue (L\<lparr>bl_s := s', bl_buf := [], bl_want := 2\<rparr>)"
proof -
  have n: "next_block cf L = Continue L"
    using assms(1) by (simp add: next_block_def binkp_getforsend_def handshake_send_def awaits_password_def Let_def)
  have f: "finish_session L = L" "\<not> batch_complete (bl_s L)"
    using assms(1) by (simp_all add: finish_session_def batch_complete_def awaits_password_def Let_def)
  have c: "\<not> crypting (bl_s L)" using assms(1) by (simp add: crypting_def awaits_password_def Let_def)
  have g: "get_bytes d L = L\<lparr>bl_buf := bl_buf L @ d, bl_want := 0\<rparr>"
    using assms(5,7) c by (simp add: get_bytes_def)
  show ?thesis
    using n f assms g
    by (simp add: binkp_turn_def and_then_def exchange_def wait_io_def read_io_def got_block_def write_io_def awaits_password_def Let_def)
qed

lemma last_pass:
  assumes "bs_mode (bl_s L) = bmode_incoming_handshake" "\<not> bs_continuesend (bl_s L)" "bl_out L = []" "bl_want L = 2"
    "bs_extracmd (bl_s L) = Some (m, t)" "bs_extraislast (bl_s L)" "bs_batchsendcomplete (bl_s L) = 0"
    "\<not> bs_complete (bl_s L)" "\<not> bs_waiting_got (bl_s L)"
    "io_select io" "io_read io = Not_readable" "io_write io = Written n" "length t + 3 \<le> n"
  shows "\<exists>L'. binkp_passes cf req [io] L = Return (bs_rc (bl_s L)) L' \<and> bl_out L' = []
    \<and> bl_s L' = (bl_s L)\<lparr>bs_extracmd := None, bs_phase := 100, bs_complete := True\<rparr>
    \<and> (\<exists>L2. next_block cf L = Continue L2 \<and> bl_out L2 = block_bytes BINKP_BLK_CMD (char_of (bpmsg_code m) # t))"
proof -
  let ?s = "(bl_s L)\<lparr>bs_extracmd := None, bs_phase := 100, bs_complete := True\<rparr>"
  let ?b = "block_bytes BINKP_BLK_CMD (char_of (bpmsg_code m) # t)"
  have n: "next_block cf L = Continue (L\<lparr>bl_s := ?s, bl_out := ?b\<rparr>)"
    using assms(1,2,3,5,6) by (simp add: next_block_def binkp_getforsend_def message_def put_block_def crypting_def Let_def)
  have f: "finish_session (L\<lparr>bl_s := ?s, bl_out := ?b\<rparr>) = L\<lparr>bl_s := ?s, bl_out := ?b\<rparr>" "\<not> batch_complete ?s"
    using assms(7) by (simp_all add: finish_session_def batch_complete_def)
  have w: "drop n ?b = []" "n \<noteq> 0" using assms(13) by (simp_all add: block_bytes_def)
  have "binkp_turn cf req io L = Continue (L\<lparr>bl_s := ?s, bl_out := []\<rparr>)"
    using n f w assms(4,10,11,12)
    by (simp add: binkp_turn_def and_then_def exchange_def wait_io_def read_io_def got_block_def write_io_def)
  then show ?thesis
    using assms(8,9) n by (simp add: loop_ends_def and_then_def)
qed

text \<open>
  C29: A wrong password is no error. The answering side waits for the password, the header of its block
  is there, and the next bytes are a password that is right for none of the addresses. After the pass that reads it
  the side has a last message for the other one, \<open>M_ERR\<close> with the text \<open>Security violation\<close>; the block the next pass
  gets and writes is that message, command number 7 and the text; and with that pass the handshake ends with the
  return code of success. The caller of it goes on as after a good password: nobody was let in, yet the queue of files
  is made.
\<close>

theorem wrong_password_no_error:
  assumes "awaits_password L" "bl_buf L = block_header BINKP_BLK_CMD (length pw + 1)" "bl_want L = length pw + 1"
    "length pw \<le> 64" "CHR 0x00 \<notin> set pw" "\<not> authenticated cf (given_password (password_for pw (bl_s L))) (presented (bl_s L))"
    "io_select io" "io_read io = Read_bytes (bytes (char_of (bpmsg_code BPMSG_PWD) # pw))"
    "io_select io'" "io_read io' = Not_readable" "io_write io' = Written n" "length ''Security violation'' + 3 \<le> n"
  shows "\<exists>L1 L2 L'. binkp_passes cf req [io] L = Continue L1
      \<and> bs_extracmd (bl_s L1) = Some (BPMSG_ERR, ''Security violation'') \<and> bs_extraislast (bl_s L1)
      \<and> next_block cf L1 = Continue L2 \<and> bl_out L2 = block_bytes BINKP_BLK_CMD (CHR 0x07 # ''Security violation'')
      \<and> binkp_passes cf req [io, io'] L = Return PRC_NOERROR L' \<and> bl_out L' = []
      \<and> presented (bl_s L') = presented (bl_s L) \<and> \<not> let_in cf (bl_s L')"
proof -
  let ?s = "bl_s L" and ?d = "bytes (char_of (bpmsg_code BPMSG_PWD) # pw)"
  have st: "bs_mode ?s = bmode_incoming_handshake" "bs_address_established ?s" "bs_extracmd ?s = None" "bs_phase ?s = 3"
    "\<not> bs_continuesend ?s" "bs_batchsendcomplete ?s = 0" "\<not> bs_complete ?s" "\<not> bs_waiting_got ?s" "bs_rc ?s = PRC_NOERROR" "bl_out L = []"
    using assms(1) by (simp_all add: awaits_password_def Let_def)
  have hdr: "header_type (bl_buf L @ ?d) = BINKP_BLK_CMD" "chars (drop 2 (bl_buf L @ ?d)) = char_of (bpmsg_code BPMSG_PWD) # pw"
    using header_type_block [of BINKP_BLK_CMD "length pw + 1" ?d] assms(2) by simp_all
  obtain g where g: "receive_command cf (io_junk io) (char_of (bpmsg_code BPMSG_PWD) # pw) ?s
      = Some (1, last_message BPMSG_ERR ''Security violation'' ((password_for pw ?s)\<lparr>bm_g := g\<rparr>))"
    "map sa_addr (ses_remoteaddrs g) = presented ?s"
    using refused_password [OF st(1-3) assms(4-6)] by blast
  let ?s' = "last_message BPMSG_ERR ''Security violation'' ((password_for pw ?s)\<lparr>bm_g := g\<rparr>)"
  let ?L = "L\<lparr>bl_s := ?s', bl_buf := [], bl_want := 2\<rparr>"
  have len: "length ?d = bl_want L" "?d \<noteq> []" "2 < length (bl_buf L @ ?d)"
    using assms(2,3) by (simp_all add: bytes_def)
  have "binkp_turn cf req io L = Continue ?L"
    using assms(1,3,7,8) len hdr g(1)
    by (intro reading_pass [where d = ?d]) (simp_all add: binkp_doreceiveblock_def del: bpmsg_code.simps)
  moreover obtain L2 L' where L': "binkp_passes cf req [io'] ?L = Return (bs_rc (bl_s ?L)) L'" "bl_out L' = []"
    "bl_s L' = ?s'\<lparr>bs_extracmd := None, bs_phase := 100, bs_complete := True\<rparr>"
    "next_block cf ?L = Continue L2"
    "bl_out L2 = block_bytes BINKP_BLK_CMD (char_of (bpmsg_code BPMSG_ERR) # ''Security violation'')"
    using last_pass [of ?L BPMSG_ERR "''Security violation''" io' n cf req] st assms(9-12)
    by (auto simp: last_message_def password_for_def)
  moreover have "\<not> loop_ends ?s" "\<not> loop_ends ?s'" using st by (simp_all add: loop_ends_def last_message_def password_for_def)
  moreover have "\<not> let_in cf (bl_s L')" "presented (bl_s L') = presented ?s"
    using assms(6) L'(3) g(2) by (simp_all add: let_in_def given_password_def presented_def last_message_def password_for_def)
  moreover have "char_of (bpmsg_code BPMSG_ERR) = CHR 0x07" by code_simp
  ultimately show ?thesis
    using st(9)
    by (intro exI [of _ ?L] exI [of _ L2] exI [of _ L'])
      (simp add: and_then_def last_message_def password_for_def del: binkp_passes.simps(1), simp add: loop_ends_def)
qed

subsection \<open>Examples\<close>

definition guest :: s_faddr where
  "guest = zero_faddr\<lparr>zone := 2, net := 5020, node := 1\<rparr>"

definition guest_conf :: conf where
  "guest_conf = \<lparr>conf_data = (\<lambda>k. if k = ''password'' then [(None, Falist guest (Some ''secret''))] else []), eventexpr = (\<lambda>_. False)\<rparr>"

definition guest_machine :: s_machine where
  "guest_machine = \<lparr>bs_mode = bmode_incoming_handshake, bs_phase = 3, bs_subphase = 0, bs_local = zero_sysinfo, bs_remote = zero_sysinfo,
     bs_pi = zero_protinfo, bs_address_established = True, bs_extracmd = None, bs_extraislast = False, bs_password_received = False,
     bs_NR = False, bs_MB = False, bs_complete = False, bs_batchsendcomplete = 0, bs_batchreceivecomplete = 0, bs_waiting_got = False,
     bs_batch_send_count = 0, bs_batch_recv_count = 0, bs_frs = frs_nothing, bs_emptyloop = 0, bs_continuesend = False, bs_rc = PRC_NOERROR,
     bm_g = example_globals\<lparr>ses_remoteaddrs := [\<lparr>sa_addr = guest, sa_busy = False, sa_good = False, sa_flags = 0\<rparr>]\<rparr>,
     bm_node_flags = [], bm_bsylist = [],
     bm_locks = \<lparr>locks = (\<lambda>_. None), running = (\<lambda>_. False), mypid = 1, writable = (\<lambda>_. True), opens = (\<lambda>_. True), disk_full = False, tmpname = (\<lambda>d. d), stale_errno = False\<rparr>,
     bm_world = stat_world\<rparr>"

definition guest_loop :: s_loop where
  "guest_loop = \<lparr>bl_s = guest_machine, bl_buf = block_header BINKP_BLK_CMD 4, bl_want = 4, bl_out = [], bl_no_more = False\<rparr>"

definition bad_turn :: io_turn where
  "bad_turn = \<lparr>io_select = True, io_read = Read_bytes (bytes (char_of (bpmsg_code BPMSG_PWD) # ''bad'')), io_write = Not_writable,
     io_junk = ((0, 0, 0), 0)\<rparr>"

definition write_turn :: io_turn where
  "write_turn = \<lparr>io_select = True, io_read = Not_readable, io_write = Written 21, io_junk = ((0, 0, 0), 0)\<rparr>"

theorem wrong_password_no_error_witness:
  "\<exists>L1 L2 L'. binkp_passes guest_conf (\<lambda>_ l w. (l, w)) [bad_turn] guest_loop = Continue L1
      \<and> bs_extracmd (bl_s L1) = Some (BPMSG_ERR, ''Security violation'') \<and> bs_extraislast (bl_s L1)
      \<and> next_block guest_conf L1 = Continue L2 \<and> bl_out L2 = block_bytes BINKP_BLK_CMD (CHR 0x07 # ''Security violation'')
      \<and> binkp_passes guest_conf (\<lambda>_ l w. (l, w)) [bad_turn, write_turn] guest_loop = Return PRC_NOERROR L' \<and> bl_out L' = []
      \<and> presented (bl_s L') = presented (bl_s guest_loop) \<and> \<not> let_in guest_conf (bl_s L')"
proof -
  have p: "session_get_password guest_conf guest 32 = Some ''secret''" "\<not> session_check_addr guest_conf guest"
    by (simp_all add: session_get_password_def session_check_addr_def conf_falist_def conf_entries_def guest_conf_def
        map_filter_def ftn_addrcomp_def strncopy_eq nul_free_def)
  have "\<not> good_password (Some ''bad'') None ''secret''" by (simp add: good_password_def) code_simp
  then have "\<not> authenticated guest_conf (''bad'', None) [guest]"
    by (simp add: authenticated_def proves_def fails_to_prove_def p)
  then have "\<not> authenticated guest_conf (given_password (password_for ''bad'' (bl_s guest_loop))) (presented (bl_s guest_loop))"
    by (simp add: given_password_def password_for_def presented_def guest_loop_def guest_machine_def zero_sysinfo_def)
  moreover have "awaits_password guest_loop" by (simp add: awaits_password_def guest_loop_def guest_machine_def)
  moreover have "length ''bad'' + 1 = 4" "length ''Security violation'' + 3 = 21" by simp_all
  ultimately show ?thesis
    by (intro wrong_password_no_error [where pw = "''bad''" and n = 21])
      (simp_all only: guest_loop_def bad_turn_def write_turn_def s_loop.simps io_turn.simps, simp_all)
qed

definition crypt_machine :: s_machine where
  "crypt_machine = guest_machine\<lparr>bs_mode := bmode_transfer, bs_remote := zero_sysinfo\<lparr>bi_options := BINKP_OPT_CRYPT\<rparr>\<rparr>"

theorem binkp_blocks_roundtrip_witness:
  "case fold feed (replicate 5 0) (guest_loop\<lparr>bl_s := crypt_machine, bl_buf := [], bl_want := 2\<rparr>,
      bl_out (put_block (BINKP_BLK_DATA, ''abc'') (guest_loop\<lparr>bl_s := crypt_machine\<rparr>)) @ [7]) of (R', rest') \<Rightarrow>
    rest' = [7] \<and> bl_want R' = 0 \<and> header_type (bl_buf R') = BINKP_BLK_DATA \<and> chars (drop 2 (bl_buf R')) = ''abc''
    \<and> (if crypting crypt_machine then keys_in R' = bi_keys_out (bs_remote (bl_s
         (put_block (BINKP_BLK_DATA, ''abc'') (guest_loop\<lparr>bl_s := crypt_machine\<rparr>)))) else True)"
  using binkp_blocks_roundtrip [of "''abc''" "guest_loop\<lparr>bl_s := crypt_machine, bl_buf := [], bl_want := 2\<rparr>"
    "guest_loop\<lparr>bl_s := crypt_machine\<rparr>" "replicate 5 0" "[7]" BINKP_BLK_DATA]
  by (simp only: s_loop.simps length_replicate) (simp add: keys_in_def crypt_machine_def zero_sysinfo_def)

end
