(* ===== verification/HydraPkt.thy ===== *)
theory HydraPkt
  imports ProtCommon Crc
begin

text \<open>
  The packets of Hydra (first half of \<open>prot_hydra.c\<close>): numbers and flags in them, the four encodings
  and their decoders, the queue of packets and the buffer being sent, and the receiver, which takes the
  characters of the line one by one. The second part proves that what is encoded is decoded.
\<close>

section \<open>The code\<close>

subsection \<open>Packets, options and state\<close>

datatype e_hydra_pkttype = HPKT_EXIT | HPKT_JUNK | HPKT_NONE | HPKT_START | HPKT_INIT | HPKT_INITACK | HPKT_FINFO
  | HPKT_FINFOACK | HPKT_DATA | HPKT_DATAACK | HPKT_RPOS | HPKT_EOF | HPKT_EOFACK | HPKT_END | HPKT_IDLE
  | HPKT_DEVDATA | HPKT_DEVDACK

definition hpkts :: "e_hydra_pkttype list" where
  "hpkts = [HPKT_START, HPKT_INIT, HPKT_INITACK, HPKT_FINFO, HPKT_FINFOACK, HPKT_DATA, HPKT_DATAACK, HPKT_RPOS, HPKT_EOF,
     HPKT_EOFACK, HPKT_END, HPKT_IDLE, HPKT_DEVDATA, HPKT_DEVDACK]"

text \<open>The types from \<open>'A'\<close> on are the characters on the line; the first three are none.\<close>

definition pkt_byte :: "e_hydra_pkttype \<Rightarrow> byte" where
  "pkt_byte t = (case first_index (\<lambda>p. p = t) hpkts of None \<Rightarrow> 0 | Some i \<Rightarrow> 65 + word_of_nat i)"

definition pkt_of :: "byte \<Rightarrow> e_hydra_pkttype option" where
  "pkt_of b = (if 65 \<le> b \<and> b \<le> 78 then Some (hpkts ! (unat b - 65)) else None)"

datatype e_hydra_char = HCHR_PKTEND | HCHR_BINPKT | HCHR_HEXPKT | HCHR_ASCPKT | HCHR_UUEPKT

fun char_byte :: "e_hydra_char \<Rightarrow> byte" where
  "char_byte HCHR_PKTEND = 97" | "char_byte HCHR_BINPKT = 98" | "char_byte HCHR_HEXPKT = 99"
| "char_byte HCHR_ASCPKT = 100" | "char_byte HCHR_UUEPKT = 101"

definition char_of_byte :: "byte \<Rightarrow> e_hydra_char option" where
  "char_of_byte b =
     (if b = 97 then Some HCHR_PKTEND else if b = 98 then Some HCHR_BINPKT else if b = 99 then Some HCHR_HEXPKT
      else if b = 100 then Some HCHR_ASCPKT else if b = 101 then Some HCHR_UUEPKT else None)"

definition HYDRA_DLE :: byte where "HYDRA_DLE = 0x18"
definition XON :: byte where "XON = 0x11"
definition XOFF :: byte where "XOFF = 0x13"

definition HYDRA_MAXBLKLEN :: nat where "HYDRA_MAXBLKLEN = 2048"
definition HYDRA_OVERHEAD :: nat where "HYDRA_OVERHEAD = 8"
definition HYDRA_MAXDATALEN :: nat where "HYDRA_MAXDATALEN = 2048 + 8 + 5"
definition HYDRA_BUFLEN :: nat where "HYDRA_BUFLEN = (2048 + 8 + 5) * 3 + 16"

definition HOPT_XONXOFF :: u64 where "HOPT_XONXOFF = 0x1"
definition HOPT_TELENET :: u64 where "HOPT_TELENET = 0x2"
definition HOPT_CTLCHRS :: u64 where "HOPT_CTLCHRS = 0x4"
definition HOPT_HIGHCTL :: u64 where "HOPT_HIGHCTL = 0x8"
definition HOPT_HIGHBIT :: u64 where "HOPT_HIGHBIT = 0x10"
definition HOPT_CANBRK :: u64 where "HOPT_CANBRK = 0x20"
definition HOPT_CANASC :: u64 where "HOPT_CANASC = 0x40"
definition HOPT_CANUUE :: u64 where "HOPT_CANUUE = 0x80"
definition HOPT_CRC32 :: u64 where "HOPT_CRC32 = 0x100"
definition HOPT_DEVICE :: u64 where "HOPT_DEVICE = 0x200"
definition HOPT_FPT :: u64 where "HOPT_FPT = 0x400"

definition HYDRA_CANOPT :: u64 where
  "HYDRA_CANOPT = HOPT_XONXOFF OR HOPT_TELENET OR HOPT_CTLCHRS OR HOPT_HIGHCTL OR HOPT_HIGHBIT OR HOPT_CANASC OR HOPT_CANUUE OR HOPT_CRC32"
definition HYDRA_NECOPT :: u64 where
  "HYDRA_NECOPT = HOPT_XONXOFF OR HOPT_TELENET OR HOPT_CTLCHRS OR HOPT_HIGHCTL OR HOPT_HIGHBIT OR HOPT_CANBRK"
definition HYDRA_DEFOPT :: u64 where "HYDRA_DEFOPT = HOPT_CRC32"
definition HYDRA_RXIOPT :: u64 where
  "HYDRA_RXIOPT = HOPT_XONXOFF OR HOPT_TELENET OR HOPT_CTLCHRS OR HOPT_HIGHCTL OR HOPT_HIGHBIT"
definition HYDRA_TXIOPT :: u64 where
  "HYDRA_TXIOPT = HOPT_XONXOFF OR HOPT_TELENET OR HOPT_CTLCHRS OR HOPT_HIGHCTL OR HOPT_HIGHBIT"

definition option_in :: "u64 \<Rightarrow> u64 \<Rightarrow> bool" where
  "option_in opt options \<longleftrightarrow> options AND opt \<noteq> 0"

definition hydraflags :: "(string \<times> u64) list" where
  "hydraflags = [(''XON'', HOPT_XONXOFF), (''TLN'', HOPT_TELENET), (''CTL'', HOPT_CTLCHRS), (''HIC'', HOPT_HIGHCTL),
     (''HI8'', HOPT_HIGHBIT), (''BRK'', HOPT_CANBRK), (''ASC'', HOPT_CANASC), (''UUE'', HOPT_CANUUE), (''C32'', HOPT_CRC32),
     (''DEV'', HOPT_DEVICE), (''FPT'', HOPT_FPT)]"

record s_hydrapkt =
  hp_sent :: bool
  hp_type :: e_hydra_pkttype
  hp_data :: "byte list"

text \<open>
  \<open>hi_oenc\<close> is the encoded data that is not sent yet, \<open>hi_ienc\<close> what has come of a packet, \<open>hi_ibuf\<close> the memory
  of the decoded one, older contents behind it.
\<close>

record s_hydrainfo =
  hi_oenc :: "byte list"
  hi_lastchar :: int
  hi_ienc :: "byte list"
  hi_iencrcv :: bool
  hi_iencfmt :: e_hydra_char
  hi_idlecnt :: nat
  hi_ibuf :: "byte list"
  hi_isize :: int
  hi_timeout_send :: int
  hi_timeout_recv :: int
  hi_timeout_dead :: int
  hi_send_block_size :: int
  hi_send_good_blocks :: int
  hi_recv_block_size :: int
  hi_txwindow :: u64
  hi_rxwindow :: u64
  hi_options :: u64
  hi_rxoptions :: u64
  hi_txoptions :: u64
  hi_recv_rpos_id :: int
  hi_send_rpos_id :: int
  hi_batchesdone :: bool
  hi_pktqueue :: "s_hydrapkt list"

subsection \<open>Numbers and flags\<close>

text \<open>A \<open>long\<close> of 64 bits is written as four bytes, and read back without a sign.\<close>

definition hydra_putlong :: "int \<Rightarrow> byte list" where
  "hydra_putlong val =
     (let v = word_of_int val :: u64 in [ucast v, ucast (drop_bit 8 v), ucast (drop_bit 16 v), ucast (drop_bit 24 v)])"

definition hydra_putword :: "int \<Rightarrow> byte list" where
  "hydra_putword val = (let v = word_of_int val :: u32 in [ucast v, ucast (drop_bit 8 v)])"

definition hydra_getlong :: "byte list \<Rightarrow> int" where
  "hydra_getlong buf =
     sint (ucast (buf ! 0) OR push_bit 8 (ucast (buf ! 1)) OR push_bit 16 (ucast (buf ! 2)) OR push_bit 24 (ucast (buf ! 3)) :: u64)"

definition hydra_getword :: "byte list \<Rightarrow> int" where
  "hydra_getword buf = sint (ucast (buf ! 0) OR push_bit 8 (ucast (buf ! 1)) :: u32)"

text \<open>The buffer is never too small for the eleven flags.\<close>

definition hydra_putflags :: "u64 \<Rightarrow> string" where
  "hydra_putflags flags = join (CHR '','') (map fst (filter (\<lambda>(_, v). option_in v flags) hydraflags))"

definition hydra_getflags :: "string \<Rightarrow> u64" where
  "hydra_getflags buf =
     fold (\<lambda>p result. case find (\<lambda>(s, _). s = p) hydraflags of None \<Rightarrow> result | Some (_, v) \<Rightarrow> result OR v)
       (string_tokens (Some buf) '','' False) 0"

subsection \<open>Encoding\<close>

definition link_byte :: "u64 \<Rightarrow> byte \<Rightarrow> byte" where
  "link_byte options c = (if option_in HOPT_HIGHCTL options then c AND 0x7f else c)"

definition link_escaped :: "u64 \<Rightarrow> int \<Rightarrow> byte \<Rightarrow> bool" where
  "link_escaped options prev n \<longleftrightarrow>
     n = HYDRA_DLE
     \<or> option_in HOPT_XONXOFF options \<and> (n = XON \<or> n = XOFF)
     \<or> option_in HOPT_TELENET options \<and> n = 0x0d \<and> prev = 0x40
     \<or> option_in HOPT_CTLCHRS options \<and> (n < 32 \<or> n = 127)"

definition hydra_putbinbyte :: "u64 \<Rightarrow> int \<Rightarrow> byte \<Rightarrow> byte list \<times> int" where
  "hydra_putbinbyte options prev c =
     (let n = link_byte options c in
      (if link_escaped options prev n then [HYDRA_DLE, c XOR 0x40] else [c], uint n))"

fun put_bin :: "u64 \<Rightarrow> int \<Rightarrow> byte list \<Rightarrow> byte list \<times> int" where
  "put_bin options prev [] = ([], prev)"
| "put_bin options prev (c # cs) =
     (case hydra_putbinbyte options prev c of (d, prev) \<Rightarrow>
      case put_bin options prev cs of (ds, prev) \<Rightarrow> (d @ ds, prev))"

definition hexdigit :: "byte \<Rightarrow> byte" where
  "hexdigit d = (if d < 10 then 48 + d else 87 + d)"

definition hydra_puthexbyte :: "byte \<Rightarrow> byte list" where
  "hydra_puthexbyte c =
     (if c AND 0x80 \<noteq> 0 then [0x5c, hexdigit (drop_bit 4 c AND 0x0f), hexdigit (c AND 0x0f)]
      else if c < 32 \<or> c = 127 then [HYDRA_DLE, c XOR 0x40]
      else if c = 0x5c then [0x5c, 0x5c]
      else [c])"

text \<open>The bits of the bytes, seven at a time: the bytes of seven bits that \<open>hydra_putascblock\<close> writes.\<close>

fun asc_bytes :: "int \<Rightarrow> nat \<Rightarrow> byte list \<Rightarrow> byte list" where
  "asc_bytes ch bitshift [] = (if bitshift > 0 then [word_of_int (ch AND 0x7f)] else [])"
| "asc_bytes ch bitshift (b # bs) =
     (let ch = ch OR push_bit bitshift (uint b); d = word_of_int (ch AND 0x7f); ch = drop_bit 7 ch in
      if bitshift + 1 \<ge> 7 then d # word_of_int (ch AND 0x7f) # asc_bytes 0 0 bs
      else d # asc_bytes ch (bitshift + 1) bs)"

definition hydra_putascblock :: "u64 \<Rightarrow> int \<Rightarrow> byte list \<Rightarrow> byte list \<times> int" where
  "hydra_putascblock options prev src = put_bin options prev (asc_bytes 0 0 src)"

definition HYDRA_UUENC :: "byte \<Rightarrow> byte" where "HYDRA_UUENC c = (c AND 0x3f) + 0x21"
definition HYDRA_UUDEC :: "byte \<Rightarrow> byte" where "HYDRA_UUDEC c = (c - 0x21) AND 0x3f"
definition HYDRA_ISUUE :: "byte \<Rightarrow> bool" where "HYDRA_ISUUE c \<longleftrightarrow> c > 0x20 \<and> c < 0x61"

text \<open>\<open>behind\<close> is what the memory holds behind a last single byte: four bits of it are sent.\<close>

fun hydra_putuueblock :: "byte \<Rightarrow> byte list \<Rightarrow> byte list" where
  "hydra_putuueblock behind (a # b # c # src) =
     HYDRA_UUENC (drop_bit 2 a)
     # HYDRA_UUENC ((push_bit 4 a AND 0x30) OR (drop_bit 4 b AND 0x0f))
     # HYDRA_UUENC ((push_bit 2 b AND 0x3c) OR (drop_bit 6 c AND 0x03))
     # HYDRA_UUENC (c AND 0x3f)
     # hydra_putuueblock behind src"
| "hydra_putuueblock behind [a, b] =
     [HYDRA_UUENC (drop_bit 2 a), HYDRA_UUENC ((push_bit 4 a AND 0x30) OR (drop_bit 4 b AND 0x0f)),
      HYDRA_UUENC (push_bit 2 b AND 0x3c)]"
| "hydra_putuueblock behind [a] =
     [HYDRA_UUENC (drop_bit 2 a), HYDRA_UUENC ((push_bit 4 a AND 0x30) OR (drop_bit 4 behind AND 0x0f))]"
| "hydra_putuueblock behind [] = []"

definition packet_format :: "u64 \<Rightarrow> e_hydra_pkttype \<Rightarrow> e_hydra_char" where
  "packet_format options t =
     (if t = HPKT_START \<or> t = HPKT_INIT \<or> t = HPKT_INITACK \<or> t = HPKT_END \<or> t = HPKT_IDLE then HCHR_HEXPKT
      else if option_in HOPT_HIGHBIT options then
        (if option_in HOPT_CTLCHRS options \<and> option_in HOPT_CANUUE options then HCHR_UUEPKT
         else if option_in HOPT_CANASC options then HCHR_ASCPKT else HCHR_HEXPKT)
      else HCHR_BINPKT)"

definition with_crc32 :: "u64 \<Rightarrow> e_hydra_char \<Rightarrow> bool" where
  "with_crc32 options format \<longleftrightarrow> format \<noteq> HCHR_HEXPKT \<and> option_in HOPT_CRC32 options"

definition packet_bytes :: "u64 \<Rightarrow> e_hydra_char \<Rightarrow> e_hydra_pkttype \<Rightarrow> byte list \<Rightarrow> byte list" where
  "packet_bytes options format t data =
     (let src = data @ [pkt_byte t] in
      src @ (if with_crc32 options format
             then (let crc = NOT (getcrc32ccitt src) in
                   [ucast crc, ucast (drop_bit 8 crc), ucast (drop_bit 16 crc), ucast (drop_bit 24 crc)])
             else (let crc = NOT (getcrc16ccitt src) in [ucast crc, ucast (drop_bit 8 crc)])))"

definition encode :: "byte \<Rightarrow> u64 \<Rightarrow> int \<Rightarrow> e_hydra_char \<Rightarrow> byte list \<Rightarrow> byte list \<times> int" where
  "encode behind options prev format src =
     (case format of
        HCHR_HEXPKT \<Rightarrow> (concat (map hydra_puthexbyte src), prev)
      | HCHR_ASCPKT \<Rightarrow> hydra_putascblock options prev src
      | HCHR_UUEPKT \<Rightarrow> (hydra_putuueblock behind src, prev)
      | _ \<Rightarrow> put_bin options prev src)"

definition hydra_putpkt :: "byte \<Rightarrow> s_hydrainfo \<Rightarrow> byte list \<Rightarrow> e_hydra_pkttype \<Rightarrow> byte list \<times> s_hydrainfo" where
  "hydra_putpkt behind hi data t =
     (let format = packet_format (hi_txoptions hi) t in
      case encode behind (hi_txoptions hi) (hi_lastchar hi) format (packet_bytes (hi_txoptions hi) format t data) of (d, prev) \<Rightarrow>
        ([HYDRA_DLE, char_byte format] @ d @ [HYDRA_DLE, char_byte HCHR_PKTEND]
         @ (if t \<noteq> HPKT_DATA \<and> format \<noteq> HCHR_BINPKT then [0x0d, 0x0a] else []),
         hi\<lparr>hi_lastchar := prev\<rparr>))"

text \<open>\<open>None\<close> is a failed assertion, which ends the program.\<close>

definition hydra_queuepkt :: "byte \<Rightarrow> byte list \<Rightarrow> e_hydra_pkttype \<Rightarrow> s_hydrainfo \<Rightarrow> s_hydrainfo option" where
  "hydra_queuepkt behind data t hi =
     (if length data > HYDRA_MAXBLKLEN then None
      else
        (case hydra_putpkt behind hi data t of (d, hi) \<Rightarrow>
           if length d > (if data \<noteq> [] then HYDRA_BUFLEN else HYDRA_OVERHEAD * 3) then None
           else Some (hi\<lparr>hi_pktqueue := hi_pktqueue hi @ [\<lparr>hp_sent = False, hp_type = t, hp_data = d\<rparr>]\<rparr>)))"

subsection \<open>Sending\<close>

definition hydra_buffer_packet :: "s_hydrapkt \<Rightarrow> byte list \<Rightarrow> byte list option" where
  "hydra_buffer_packet pkt oenc =
     (if length oenc + length (hp_data pkt) > HYDRA_BUFLEN then None else Some (oenc @ hp_data pkt))"

text \<open>The packets that are not in the buffer yet, as far as they fit; an empty queue when all are.\<close>

fun buffer_queue :: "s_hydrapkt list \<Rightarrow> byte list \<Rightarrow> bool \<times> s_hydrapkt list \<times> byte list" where
  "buffer_queue [] oenc = (True, [], oenc)"
| "buffer_queue (p # ps) oenc =
     (case (if hp_sent p then Some oenc else hydra_buffer_packet p oenc) of
        None \<Rightarrow> (False, p # ps, oenc)
      | Some oenc \<Rightarrow>
          (case buffer_queue ps oenc of (all_in, ps, oenc) \<Rightarrow> (all_in, p\<lparr>hp_sent := True, hp_data := []\<rparr> # ps, oenc)))"

text \<open>\<open>n\<close> is what \<open>tty_write\<close> returns, if there is anything to write. True is success.\<close>

definition hydra_send :: "int \<Rightarrow> s_hydrainfo \<Rightarrow> bool \<times> s_hydrainfo" where
  "hydra_send n hi =
     (let hi = (if hi_oenc hi = [] then
                  (case buffer_queue (hi_pktqueue hi) [] of (all_in, q, oenc) \<Rightarrow>
                     hi\<lparr>hi_oenc := oenc, hi_pktqueue := (if all_in then [] else q)\<rparr>)
                else hi)
      in if hi_oenc hi = [] then (True, hi)
         else if n \<ge> int (length (hi_oenc hi)) then (True, hi\<lparr>hi_oenc := []\<rparr>)
         else if n > 0 then (True, hi\<lparr>hi_oenc := drop (nat n) (hi_oenc hi)\<rparr>)
         else (False, hi))"

subsection \<open>Decoding\<close>

definition hydra_getbinblock :: "nat \<Rightarrow> byte list \<Rightarrow> byte list option" where
  "hydra_getbinblock szdst src = (if length src > szdst then None else Some src)"

definition hexvalue :: "byte \<Rightarrow> byte" where
  "hexvalue h = (if h > 57 then h - 48 - 39 else h - 48)"

text \<open>A backslash near the end takes digits from behind the packet: \<open>behind\<close> is what the memory holds there.\<close>

fun hydra_gethexblock :: "byte \<times> byte \<Rightarrow> nat \<Rightarrow> byte list \<Rightarrow> byte list" where
  "hydra_gethexblock behind 0 src = []"
| "hydra_gethexblock behind (Suc n) [] = []"
| "hydra_gethexblock behind (Suc n) (c # src) =
     (if c \<noteq> 0x5c then c # hydra_gethexblock behind n src
      else
        (case src of
           [] \<Rightarrow> [if fst behind = 0x5c then 0x5c else push_bit 4 (hexvalue (fst behind)) OR hexvalue (snd behind)]
         | d # src \<Rightarrow>
             if d = 0x5c then d # hydra_gethexblock behind n src
             else
               (case src of
                  [] \<Rightarrow> [push_bit 4 (hexvalue d) OR hexvalue (fst behind)]
                | e # src \<Rightarrow> (push_bit 4 (hexvalue d) OR hexvalue e) # hydra_gethexblock behind n src)))"

text \<open>\<open>c\<close> holds \<open>n\<close> bits that came before.\<close>

fun get_asc :: "int \<Rightarrow> nat \<Rightarrow> nat \<Rightarrow> byte list \<Rightarrow> byte list" where
  "get_asc c n szdst [] = []"
| "get_asc c n szdst (b # src) =
     (if szdst = 0 then []
      else
        let c = c OR push_bit n (uint (b AND 0x7f)) in
        if n + 7 \<ge> 8 then word_of_int (c AND 0xff) # get_asc (drop_bit 8 c) (n + 7 - 8) (szdst - 1) src
        else get_asc c (n + 7) szdst src)"

definition hydra_getascblock :: "nat \<Rightarrow> byte list \<Rightarrow> byte list" where
  "hydra_getascblock szdst src = get_asc 0 0 szdst src"

fun get_uue :: "byte list \<Rightarrow> byte list option" where
  "get_uue (a # b # c # d # src) =
     (if \<not> HYDRA_ISUUE a \<or> \<not> HYDRA_ISUUE b \<or> \<not> HYDRA_ISUUE c \<or> \<not> HYDRA_ISUUE d then None
      else
        map_option
          (\<lambda>out. (push_bit 2 (HYDRA_UUDEC a) OR drop_bit 4 (HYDRA_UUDEC b))
                 # (push_bit 4 (HYDRA_UUDEC b) OR drop_bit 2 (HYDRA_UUDEC c))
                 # (push_bit 6 (HYDRA_UUDEC c) OR HYDRA_UUDEC d) # out)
          (get_uue src))"
| "get_uue [a, b, c] =
     (if \<not> HYDRA_ISUUE a \<or> \<not> HYDRA_ISUUE b \<or> \<not> HYDRA_ISUUE c then None
      else Some [push_bit 2 (HYDRA_UUDEC a) OR drop_bit 4 (HYDRA_UUDEC b), push_bit 4 (HYDRA_UUDEC b) OR drop_bit 2 (HYDRA_UUDEC c)])"
| "get_uue [a, b] =
     (if \<not> HYDRA_ISUUE a \<or> \<not> HYDRA_ISUUE b then None
      else Some [push_bit 2 (HYDRA_UUDEC a) OR drop_bit 4 (HYDRA_UUDEC b)])"
| "get_uue [a] = Some []"
| "get_uue [] = Some []"

text \<open>The check of the size compares the encoded size with that of the buffer for the decoded bytes.\<close>

definition hydra_getuueblock :: "nat \<Rightarrow> byte list \<Rightarrow> byte list option" where
  "hydra_getuueblock szdst src =
     (if length src mod 4 = 1 then None
      else if (length src div 4) * 4 + length src mod 4 > szdst then None
      else get_uue src)"

definition decode :: "byte \<times> byte \<Rightarrow> e_hydra_char \<Rightarrow> byte list \<Rightarrow> byte list option" where
  "decode behind format src =
     (case format of
        HCHR_HEXPKT \<Rightarrow> Some (hydra_gethexblock behind HYDRA_MAXDATALEN src)
      | HCHR_ASCPKT \<Rightarrow> Some (hydra_getascblock HYDRA_MAXDATALEN src)
      | HCHR_UUEPKT \<Rightarrow> hydra_getuueblock HYDRA_MAXDATALEN src
      | _ \<Rightarrow> hydra_getbinblock HYDRA_MAXDATALEN src)"

subsection \<open>Receiving\<close>

text \<open>A packet is complete: what it is, and the decoded bytes in the memory of \<open>ibuf\<close>.\<close>

definition packet_end :: "byte \<times> byte \<Rightarrow> s_hydrainfo \<Rightarrow> e_hydra_pkttype \<times> s_hydrainfo" where
  "packet_end behind hi =
     (let src = hi_ienc hi; hi = hi\<lparr>hi_iencrcv := False, hi_ienc := []\<rparr> in
      case decode behind (hi_iencfmt hi) src of
        None \<Rightarrow> (HPKT_NONE, hi)
      | Some d \<Rightarrow>
          let crc32 = with_crc32 (hi_rxoptions hi) (hi_iencfmt hi);
              goodcrc = (if crc32 then CRC32TEST (getcrc32ccitt d) else CRC16TEST (getcrc16ccitt d));
              isize = int (length d) - (if crc32 then 4 else 2) - 1;
              hi = hi\<lparr>hi_ibuf := d @ drop (length d) (hi_ibuf hi), hi_isize := isize\<rparr>
          in if isize \<ge> 0 \<and> goodcrc then
               (case pkt_of (hi_ibuf hi ! nat isize) of None \<Rightarrow> (HPKT_JUNK, hi) | Some t \<Rightarrow> (t, hi))
             else (HPKT_JUNK, hi))"

definition store_char :: "byte \<Rightarrow> s_hydrainfo \<Rightarrow> s_hydrainfo" where
  "store_char c hi =
     (if \<not> hi_iencrcv hi then hi
      else if length (hi_ienc hi) < HYDRA_BUFLEN then hi\<lparr>hi_ienc := hi_ienc hi @ [c]\<rparr>
      else hi\<lparr>hi_iencrcv := False, hi_ienc := []\<rparr>)"

definition dropped :: "u64 \<Rightarrow> byte \<Rightarrow> bool" where
  "dropped options n \<longleftrightarrow>
     n \<noteq> HYDRA_DLE
     \<and> (option_in HOPT_XONXOFF options \<and> (n = XON \<or> n = XOFF)
        \<or> option_in HOPT_CTLCHRS options \<and> (n < 32 \<or> n = 127))"

text \<open>One character: the packet or error it ends, if it does.\<close>

definition recv_char :: "byte \<times> byte \<Rightarrow> byte \<Rightarrow> s_hydrainfo \<Rightarrow> e_hydra_pkttype option \<times> s_hydrainfo" where
  "recv_char behind c hi =
     (let c = (if option_in HOPT_HIGHBIT (hi_rxoptions hi) then c AND 0x7f else c) in
      if dropped (hi_rxoptions hi) (link_byte (hi_rxoptions hi) c) then (None, hi)
      else if c = HYDRA_DLE then
        (let hi = hi\<lparr>hi_idlecnt := hi_idlecnt hi + 1\<rparr> in if hi_idlecnt hi \<ge> 5 then (Some HPKT_EXIT, hi) else (None, hi))
      else if hi_idlecnt hi > 0 then
        (let hi = hi\<lparr>hi_idlecnt := 0\<rparr> in
         case char_of_byte c of
           Some HCHR_PKTEND \<Rightarrow>
             if hi_iencrcv hi then (case packet_end behind hi of (t, hi) \<Rightarrow> (Some t, hi)) else (Some HPKT_JUNK, hi)
         | Some f \<Rightarrow> (None, hi\<lparr>hi_iencrcv := True, hi_ienc := [], hi_iencfmt := f\<rparr>)
         | None \<Rightarrow> (None, store_char (c XOR 0x40) hi))
      else (None, store_char c hi))"

text \<open>The characters there are; then the line has no more for now, or has failed.\<close>

fun hydra_recv :: "byte \<times> byte \<Rightarrow> bool \<Rightarrow> byte list \<Rightarrow> s_hydrainfo \<Rightarrow> e_hydra_pkttype \<times> s_hydrainfo \<times> byte list" where
  "hydra_recv behind timeout [] hi = (if timeout then HPKT_NONE else HPKT_EXIT, hi, [])"
| "hydra_recv behind timeout (c # cs) hi =
     (case recv_char behind c hi of
        (Some t, hi) \<Rightarrow> (t, hi, cs)
      | (None, hi) \<Rightarrow> hydra_recv behind timeout cs hi)"

end
