(* ===== verification/Hydra.thy ===== *)
theory Hydra
  imports HydraPkt Binkp
begin

text \<open>
  A batch of Hydra (second half of \<open>prot_hydra.c\<close>): the state of the loop in \<open>hydra_batch\<close>, what each state of
  the sender and of the receiver does in a pass, the answers to the packets, and the two batches of a transfer.
  What the system does in one pass is an argument. \<open>Undefined\<close> is a null pointer read or an assertion that
  fails.
\<close>

section \<open>State\<close>

datatype e_hydra_txstate = HTX_DONE | HTX_START | HTX_SWAIT | HTX_INIT | HTX_INITACK | HTX_RINIT | HTX_NextFile
  | HTX_ToFName | HTX_FINFO | HTX_FINFOACK | HTX_DATA | HTX_SkipFile | HTX_DATAACK | HTX_XWAIT | HTX_EOF
  | HTX_EOFACK | HTX_REND | HTX_END | HTX_ENDACK | HTX_Abort

datatype e_hydra_rxstate = HRX_DONE | HRX_INIT | HRX_FINFO | HRX_DATA | HRX_RPOS | HRX_RPosAck | HRX_Skip | HRX_SkipAck

text \<open>The local variables of the loop, and what they work on.\<close>

record s_hydra_batch =
  hb_hi :: s_hydrainfo
  hb_pi :: s_protinfo
  hb_g :: s_globals
  hb_w :: world
  hb_line :: "byte list"
  hb_send_EOB :: bool
  hb_txstate :: e_hydra_txstate
  hb_rxstate :: e_hydra_rxstate
  hb_txtries :: nat
  hb_rxtries :: nat
  hb_txlastack :: int
  hb_rxlastack :: int
  hb_idletimer :: int
  hb_sendtimer :: int
  hb_recvtimer :: int
  hb_deadtimer :: int
  hb_last_datapos :: int

text \<open>
  One pass: the time; what \<open>tty_xselect\<close> says of the two directions, an error or a timeout; the characters that
  come in, and whether the line is quiet behind them or fails; what \<open>tty_write\<close> returns; and what the memory
  holds that was never set.
\<close>

datatype select_result = Select_error | Select_timeout | Ready bool bool

record hydra_io =
  io_now :: int
  io_poll :: select_result
  io_chars :: "byte list"
  io_quiet :: bool
  io_writes :: int
  io_mem :: byte
  io_mems :: "byte \<times> byte"
  io_times :: int
  io_sizes :: u64

definition step_then :: "s_hydra_batch turn \<Rightarrow> (s_hydra_batch \<Rightarrow> s_hydra_batch turn) \<Rightarrow> s_hydra_batch turn" where
  "step_then t f = (case t of Continue s \<Rightarrow> f s | Return rc s \<Rightarrow> Return rc s | Undefined \<Rightarrow> Undefined)"

section \<open>Parameters of the link\<close>

text \<open>
  \<open>%08lx\<close>: white space, then up to eight characters with a sign, the prefix of hexadecimal numbers and digits.
  The prefix alone is a zero.
\<close>

definition scan_hexl :: "string \<Rightarrow> (int \<times> string) option" where
  "scan_hexl s =
     (let t = dropWhile isspace s; f = take 8 t;
          u = (if peek f = CHR ''-'' \<or> peek f = CHR ''+'' then tl f else f);
          prefixed = (peek u = CHR ''0'' \<and> tolower (peek (tl u)) = CHR ''x'');
          u = (if prefixed then drop 2 u else u);
          ds = takeWhile (\<lambda>c. digit_val c < 16) u;
          v = int (radix_val 16 ds)
      in if \<not> prefixed \<and> ds = [] then None
         else Some (if peek f = CHR ''-'' then - v else v, drop (length ds) u @ drop 8 t))"

definition init_fields :: "string \<Rightarrow> (string \<times> string \<times> string \<times> string) option" where
  "init_fields body =
     (let next_field = (\<lambda>s. drop (length (cstr s) + 1) s);
          canopt = next_field body; desopt = next_field canopt; window = next_field desopt
      in if canopt = [] \<or> desopt = [] \<or> window = [] then None
         else Some (cstr body, cstr canopt, cstr desopt, cstr window))"

definition init_windows :: "string \<Rightarrow> int \<times> int" where
  "init_windows window =
     (case scan_hexl window of
        None \<Rightarrow> (0, 0)
      | Some (tx, r) \<Rightarrow> (max 0 tx, (case scan_hexl r of None \<Rightarrow> 0 | Some (rx, _) \<Rightarrow> max 0 rx)))"

text \<open>True is success, where the code returns zero.\<close>

definition hydra_parse_init :: "s_hydrainfo \<Rightarrow> byte list \<Rightarrow> bool \<times> s_hydrainfo" where
  "hydra_parse_init hi pkt =
     (if length pkt > 8 \<and> last pkt = 0 then
        (case init_fields (chars (drop 8 pkt)) of
           None \<Rightarrow> (False, hi)
         | Some (appinf, canopt, desopt, window) \<Rightarrow>
             let rx = (hi_options hi OR hydra_getflags desopt) AND hydra_getflags canopt AND HYDRA_CANOPT;
                 hi = hi\<lparr>hi_rxoptions := rx, hi_txoptions := rx\<rparr>
             in if rx < hi_options hi AND HYDRA_NECOPT then (False, hi)
                else
                  (case init_windows window of (tx, rx) \<Rightarrow>
                     (True, hi\<lparr>hi_batchesdone := True, hi_txwindow := word_of_int tx, hi_rxwindow := word_of_int rx\<rparr>)))
      else (False, hi))"

definition hydra_align_block_size :: "int \<Rightarrow> int" where
  "hydra_align_block_size n =
     (if n \<le> 64 then 64 else if n \<le> 128 then 128 else if n \<le> 256 then 256 else if n \<le> 512 then 512
      else if n \<le> 1024 then 1024 else 2048)"

text \<open>\<open>mem\<close> is what the memory of \<open>ibuf\<close> holds.\<close>

definition hydra_init :: "byte list \<Rightarrow> s_hydrainfo" where
  "hydra_init mem =
     \<lparr>hi_oenc = [], hi_lastchar = -1, hi_ienc = [], hi_iencrcv = False, hi_iencfmt = HCHR_PKTEND, hi_idlecnt = 0,
      hi_ibuf = mem, hi_isize = 0, hi_timeout_send = 30, hi_timeout_recv = 30, hi_timeout_dead = 120,
      hi_send_block_size = 1024, hi_send_good_blocks = 0, hi_recv_block_size = 1024, hi_txwindow = 0, hi_rxwindow = 0,
      hi_options = HYDRA_DEFOPT AND HYDRA_CANOPT, hi_rxoptions = HYDRA_RXIOPT, hi_txoptions = HYDRA_TXIOPT,
      hi_recv_rpos_id = 100, hi_send_rpos_id = -1, hi_batchesdone = False, hi_pktqueue = []\<rparr>"

section \<open>Steps of both sides\<close>

definition timer_in :: "s_hydra_batch \<Rightarrow> int \<Rightarrow> int" where
  "timer_in s v = time_settimer (now (hb_w s)) v"

definition expired :: "s_hydra_batch \<Rightarrow> int \<Rightarrow> bool" where
  "expired s t \<longleftrightarrow> timer_running t \<and> timer_expired (now (hb_w s)) t"

definition queue_packet :: "byte \<Rightarrow> byte list \<Rightarrow> e_hydra_pkttype \<Rightarrow> s_hydra_batch \<Rightarrow> s_hydra_batch turn" where
  "queue_packet mem d t s =
     (case hydra_queuepkt mem d t (hb_hi s) of None \<Rightarrow> Undefined | Some hi \<Rightarrow> Continue (s\<lparr>hb_hi := hi\<rparr>))"

text \<open>The file being sent or received is changed in its table.\<close>

definition with_send :: "(s_finfo \<Rightarrow> s_hydra_batch turn) \<Rightarrow> s_hydra_batch \<Rightarrow> s_hydra_batch turn" where
  "with_send f s = (case sending (hb_pi s) of None \<Rightarrow> Undefined | Some fi \<Rightarrow> f fi)"

definition with_recv :: "(s_finfo \<Rightarrow> s_hydra_batch turn) \<Rightarrow> s_hydra_batch \<Rightarrow> s_hydra_batch turn" where
  "with_recv f s = (case receiving (hb_pi s) of None \<Rightarrow> Undefined | Some fi \<Rightarrow> f fi)"

definition put_send :: "s_finfo \<Rightarrow> s_hydra_batch \<Rightarrow> s_hydra_batch" where
  "put_send fi s = s\<lparr>hb_pi := set_send fi (hb_pi s)\<rparr>"

definition put_recv :: "s_finfo \<Rightarrow> s_hydra_batch \<Rightarrow> s_hydra_batch" where
  "put_recv fi s = s\<lparr>hb_pi := set_recv fi (hb_pi s)\<rparr>"

definition close_send :: "conf \<Rightarrow> s_hydra_batch \<Rightarrow> s_hydra_batch" where
  "close_send cf s = (case p_tx_fclose cf (hb_g s) (hb_pi s) (hb_w s) of (_, pi, w) \<Rightarrow> s\<lparr>hb_pi := pi, hb_w := w\<rparr>)"

definition smaller_blocks :: "s_hydrainfo \<Rightarrow> s_hydrainfo" where
  "smaller_blocks hi = hi\<lparr>hi_recv_block_size := hydra_align_block_size (drop_bit 1 (hi_recv_block_size hi))\<rparr>"

definition new_rpos_id :: "s_hydrainfo \<Rightarrow> s_hydrainfo" where
  "new_rpos_id hi = hi\<lparr>hi_recv_rpos_id := hi_recv_rpos_id hi + 1\<rparr>"

text \<open>A block did not come as it should: ask for it again, in smaller blocks.\<close>

definition ask_again :: "s_hydra_batch \<Rightarrow> s_hydra_batch" where
  "ask_again s = s\<lparr>hb_hi := smaller_blocks (new_rpos_id (hb_hi s)), hb_rxtries := 0, hb_rxstate := HRX_RPOS\<rparr>"

subsection \<open>Timers\<close>

fun send_expired :: "e_hydra_txstate \<Rightarrow> e_hydra_txstate" where
  "send_expired HTX_SWAIT = HTX_START" | "send_expired HTX_INITACK = HTX_INIT" | "send_expired HTX_FINFOACK = HTX_FINFO"
| "send_expired HTX_DATAACK = HTX_DATA" | "send_expired HTX_EOFACK = HTX_EOF" | "send_expired HTX_ENDACK = HTX_END"
| "send_expired t = t"

definition recv_expired :: "s_hydra_batch \<Rightarrow> s_hydra_batch" where
  "recv_expired s =
     (case hb_rxstate s of
        HRX_RPosAck \<Rightarrow> s\<lparr>hb_hi := smaller_blocks (hb_hi s), hb_rxstate := HRX_RPOS\<rparr>
      | HRX_SkipAck \<Rightarrow> s\<lparr>hb_rxstate := HRX_Skip\<rparr>
      | HRX_DATA \<Rightarrow> s\<lparr>hb_rxstate := HRX_RPOS\<rparr>
      | _ \<Rightarrow> s)"

definition hydra_timers :: "s_hydra_batch \<Rightarrow> s_hydra_batch turn" where
  "hydra_timers s =
     (if expired s (hb_deadtimer s) then Return PRC_ERROR s
      else
        let s = (if expired s (hb_sendtimer s) then s\<lparr>hb_sendtimer := 0, hb_txstate := send_expired (hb_txstate s)\<rparr> else s);
            s = (if expired s (hb_recvtimer s) then recv_expired (s\<lparr>hb_recvtimer := 0\<rparr>) else s)
        in Continue s)"

subsection \<open>The sender\<close>

text \<open>Every packet that waits for an answer is sent nine times.\<close>

definition next_try :: "(s_hydra_batch \<Rightarrow> s_hydra_batch turn) \<Rightarrow> s_hydra_batch \<Rightarrow> s_hydra_batch turn" where
  "next_try f s =
     (let s = s\<lparr>hb_txtries := hb_txtries s + 1\<rparr> in
      if hb_txtries s < 10 then f (s\<lparr>hb_sendtimer := timer_in s (hi_timeout_send (hb_hi s))\<rparr>) else Return PRC_ERROR s)"

definition to_tx :: "e_hydra_txstate \<Rightarrow> s_hydra_batch \<Rightarrow> s_hydra_batch turn" where
  "to_tx t s = Continue (s\<lparr>hb_txstate := t\<rparr>)"

text \<open>The text \<open>hydra\<close> that wakes the other side up goes to the line at once.\<close>

definition tx_start :: "byte \<Rightarrow> s_hydra_batch \<Rightarrow> s_hydra_batch turn" where
  "tx_start mem = next_try (\<lambda>s. step_then (queue_packet mem [] HPKT_START s) (to_tx HTX_SWAIT))"

definition hex8 :: "int \<Rightarrow> string" where
  "hex8 v = pad0 8 (hex (unat (word_of_int v :: u64)))"

definition init_data :: "string \<Rightarrow> byte list" where
  "init_data version =
     bytes (hex8 0 @ ''binkleyforce'' @ '','' @ version) @ [0] @ bytes (hydra_putflags HYDRA_CANOPT) @ [0]
     @ bytes (hydra_putflags HYDRA_DEFOPT) @ [0] @ bytes (hex8 0 @ hex8 0) @ [0] @ [0]"

definition tx_init :: "string \<Rightarrow> byte \<Rightarrow> s_hydra_batch \<Rightarrow> s_hydra_batch turn" where
  "tx_init version mem = next_try (\<lambda>s. step_then (queue_packet mem (init_data version) HPKT_INIT s) (to_tx HTX_INITACK))"

text \<open>Names are cut to fit a field of 128 characters with their terminator.\<close>

definition finfo_data :: "s_finfo \<Rightarrow> byte list" where
  "finfo_data fi =
     (let dosname = file_get_dos_name (fi_net_name fi) in
      bytes (hex8 (fi_mod_time fi) @ hex8 (uint (fi_total fi)) @ hex8 0 @ hex8 0 @ hex8 0)
      @ bytes (take 127 dosname) @ [0]
      @ (if dosname \<noteq> fi_net_name fi then bytes (take 127 (fi_net_name fi)) @ [0] else []))"

definition tx_finfo :: "byte \<Rightarrow> s_hydra_batch \<Rightarrow> s_hydra_batch turn" where
  "tx_finfo mem =
     next_try (\<lambda>s.
       if hb_send_EOB s then step_then (queue_packet mem [0] HPKT_FINFO s) (to_tx HTX_FINFOACK)
       else with_send (\<lambda>fi. step_then (queue_packet mem (finfo_data fi) HPKT_FINFO s) (to_tx HTX_FINFOACK)) s)"

definition tx_next_file :: "conf \<Rightarrow> byte \<Rightarrow> s_hydra_batch \<Rightarrow> s_hydra_batch turn" where
  "tx_next_file cf mem s =
     (let s = (if map_option fi_fp (sending (hb_pi s)) \<in> {None, Some None} then s else close_send cf s) in
      case p_tx_fopen cf None (hb_g s) (hb_pi s) (hb_w s) of (rc, g, pi, w) \<Rightarrow>
        tx_finfo mem (s\<lparr>hb_g := g, hb_pi := pi, hb_w := w, hb_send_EOB := (rc \<noteq> 0), hb_txtries := 0, hb_txstate := HTX_FINFO\<rparr>))"

text \<open>After a number of good blocks the next ones are twice as long.\<close>

definition good_block :: "s_hydrainfo \<Rightarrow> s_hydrainfo" where
  "good_block hi =
     (let hi = hi\<lparr>hi_send_good_blocks := hi_send_good_blocks hi + 1\<rparr> in
      if hi_send_block_size hi < 2048 \<and> hi_send_good_blocks hi * hi_send_block_size hi \<ge> 4096
      then hi\<lparr>hi_send_good_blocks := 0, hi_send_block_size := hydra_align_block_size (push_bit 1 (hi_send_block_size hi))\<rparr>
      else hi)"

definition to_eof :: "s_hydra_batch \<Rightarrow> s_hydra_batch" where
  "to_eof s = s\<lparr>hb_txtries := 0, hb_txstate := HTX_EOF\<rparr>"

text \<open>A block goes into the buffer at once. When the window is full, an acknowledgement is waited for.\<close>

definition tx_block :: "byte \<Rightarrow> string \<Rightarrow> s_finfo \<Rightarrow> s_hydra_batch \<Rightarrow> s_hydra_batch" where
  "tx_block mem d fi s =
     (let s = s\<lparr>hb_deadtimer := timer_in s (hi_timeout_dead (hb_hi s))\<rparr>;
          data = hydra_putlong (uint (fi_sent fi)) @ bytes d;
          fi = fi\<lparr>fi_sent := fi_sent fi + word_of_nat (length d)\<rparr>;
          s = put_send fi s;
          (out, hi) = hydra_putpkt mem (hb_hi s) data HPKT_DATA;
          hi = good_block (hi\<lparr>hi_oenc := out\<rparr>);
          s = s\<lparr>hb_hi := hi\<rparr>
      in if hi_txwindow hi > 0 \<and> fi_sent fi \<ge> word_of_int (hb_txlastack s) + hi_txwindow hi then
           s\<lparr>hb_sendtimer := timer_in s (if hb_txtries s > 0 then hi_timeout_send hi div 2 else hi_timeout_send hi),
             hb_txstate := HTX_DATAACK\<rparr>
         else if fi_eofseen fi then to_eof s
         else s)"

definition tx_data :: "byte \<Rightarrow> s_hydra_batch \<Rightarrow> s_hydra_batch turn" where
  "tx_data mem s =
     with_send (\<lambda>fi.
       if fi_eofseen fi then Continue (to_eof s)
       else if hi_oenc (hb_hi s) = [] \<and> hi_pktqueue (hb_hi s) = [] then
         (let s = s\<lparr>hb_sendtimer := 0\<rparr> in
          case p_tx_readfile (nat (hi_send_block_size (hb_hi s))) (hb_pi s) (hb_w s) of
            None \<Rightarrow> Undefined
          | Some (n, d, pi, w) \<Rightarrow>
              let s = s\<lparr>hb_pi := pi, hb_w := w\<rparr> in
              if n > 0 then with_send (\<lambda>fi. Continue (tx_block mem d fi s)) s
              else Continue (to_eof s))
       else Continue s) s"

definition eof_position :: "s_finfo option \<Rightarrow> int" where
  "eof_position sent =
     (case sent of
        None \<Rightarrow> -2
      | Some fi \<Rightarrow>
          if fi_status fi = FSTAT_SKIPPED then -1
          else if fi_status fi = FSTAT_REFUSED then -2
          else if fi_eofseen fi then uint (fi_sent fi)
          else -2)"

definition tx_eof :: "byte \<Rightarrow> s_hydra_batch \<Rightarrow> s_hydra_batch turn" where
  "tx_eof mem =
     next_try (\<lambda>s. step_then (queue_packet mem (hydra_putlong (eof_position (sending (hb_pi s)))) HPKT_EOF s) (to_tx HTX_EOFACK))"

definition tx_rend :: "byte \<Rightarrow> s_hydra_batch \<Rightarrow> s_hydra_batch turn" where
  "tx_rend mem s =
     (if hb_rxstate s = HRX_DONE then Continue (s\<lparr>hb_txtries := 0, hb_txstate := HTX_END\<rparr>)
      else if \<not> timer_running (hb_idletimer s) \<or> timer_expired (now (hb_w s)) (hb_idletimer s) then
        queue_packet mem [] HPKT_IDLE (s\<lparr>hb_idletimer := timer_in s 20\<rparr>)
      else Continue s)"

definition tx_end :: "byte \<Rightarrow> s_hydra_batch \<Rightarrow> s_hydra_batch turn" where
  "tx_end mem = next_try (\<lambda>s. step_then (queue_packet mem [] HPKT_END s) (to_tx HTX_ENDACK))"

definition hydra_sender :: "conf \<Rightarrow> string \<Rightarrow> byte \<Rightarrow> s_hydra_batch \<Rightarrow> s_hydra_batch turn" where
  "hydra_sender cf version mem s =
     (case hb_txstate s of
        HTX_START \<Rightarrow> tx_start mem s
      | HTX_INIT \<Rightarrow> tx_init version mem s
      | HTX_RINIT \<Rightarrow> Continue (if hb_rxstate s \<noteq> HRX_INIT then s\<lparr>hb_txstate := HTX_NextFile\<rparr> else s)
      | HTX_NextFile \<Rightarrow> tx_next_file cf mem s
      | HTX_FINFO \<Rightarrow> tx_finfo mem s
      | HTX_DATA \<Rightarrow> tx_data mem s
      | HTX_EOF \<Rightarrow> tx_eof mem s
      | HTX_REND \<Rightarrow> tx_rend mem s
      | HTX_END \<Rightarrow> tx_end mem s
      | _ \<Rightarrow> Continue s)"

subsection \<open>The receiver\<close>

definition rpos_data :: "int \<Rightarrow> s_hydrainfo \<Rightarrow> byte list" where
  "rpos_data pos hi = hydra_putlong pos @ hydra_putword (hi_recv_block_size hi) @ hydra_putlong (hi_recv_rpos_id hi)"

definition hydra_receiver :: "byte \<Rightarrow> s_hydra_batch \<Rightarrow> s_hydra_batch turn" where
  "hydra_receiver mem s =
     (if hb_rxstate s = HRX_RPOS \<or> hb_rxstate s = HRX_Skip then
        (let s = s\<lparr>hb_rxtries := hb_rxtries s + 1\<rparr> in
         if hb_rxtries s < 10 then
           (let s = s\<lparr>hb_recvtimer := timer_in s (hi_timeout_recv (hb_hi s))\<rparr> in
            with_recv (\<lambda>fi.
              let pos = (if hb_rxstate s = HRX_Skip then (if fi_status fi = FSTAT_SKIPPED then -1 else -2)
                         else uint (fi_received fi))
              in step_then (queue_packet mem (rpos_data pos (hb_hi s)) HPKT_RPOS s)
                   (\<lambda>s. Continue (s\<lparr>hb_rxstate := (if hb_rxstate s = HRX_Skip then HRX_SkipAck else HRX_RPosAck)\<rparr>))) s)
         else Return PRC_ERROR s)
      else Continue s)"

section \<open>Answers to packets\<close>

definition packet :: "s_hydra_batch \<Rightarrow> byte list" where
  "packet s = take (nat (hi_isize (hb_hi s))) (hi_ibuf (hb_hi s))"

definition on_start :: "s_hydra_batch \<Rightarrow> s_hydra_batch turn" where
  "on_start s =
     Continue (if hb_txstate s = HTX_START \<or> hb_txstate s = HTX_SWAIT then s\<lparr>hb_txtries := 0, hb_txstate := HTX_INIT\<rparr> else s)"

definition on_init :: "byte \<Rightarrow> s_hydra_batch \<Rightarrow> s_hydra_batch turn" where
  "on_init mem s =
     step_then
       (if hb_rxstate s = HRX_INIT then
          (case hydra_parse_init (hb_hi s) (packet s) of (ok, hi) \<Rightarrow>
             let s = s\<lparr>hb_hi := hi\<rparr> in
             if ok then Continue (s\<lparr>hb_rxtries := 0, hb_rxstate := HRX_FINFO\<rparr>) else Return PRC_ERROR s)
        else Continue s)
       (queue_packet mem [] HPKT_INITACK)"

definition on_initack :: "s_hydra_batch \<Rightarrow> s_hydra_batch turn" where
  "on_initack s =
     Continue (if hb_txstate s = HTX_INIT \<or> hb_txstate s = HTX_INITACK then s\<lparr>hb_txtries := 0, hb_txstate := HTX_RINIT\<rparr> else s)"

text \<open>
  The name in a FINFO packet begins at the 40th byte: the short name, then the long one, which is taken if it
  is there. The memory behind an unterminated name is written, which never happens, as the packet ends with a
  zero.
\<close>

definition finfo_name :: "byte list \<Rightarrow> nat \<Rightarrow> string \<times> byte list" where
  "finfo_name ibuf isize =
     (let m = drop 40 ibuf; limit = isize - 40;
          run = (\<lambda>limit m. length (takeWhile (\<lambda>b. b \<noteq> 0) (take limit m)));
          k = run limit m
      in if k = 0 then (''bad_name'', ibuf)
         else if m ! k \<noteq> 0 then (chars (take (k + 1) m), ibuf[40 + (k + 1) := 0])
         else
           let l = drop (k + 1) m; j = run (limit - (k + 1)) l in
           (if l ! j = 0 \<and> j > 0 then chars (take j l) else chars (take k m), ibuf))"

text \<open>Time and size of the file. The upper half of the size is never written, and neither is what is no number.\<close>

definition finfo_numbers :: "int \<Rightarrow> u64 \<Rightarrow> string \<Rightarrow> int \<times> u64" where
  "finfo_numbers tm sz t =
     (case scan_hexl t of
        None \<Rightarrow> (tm, sz)
      | Some (v, r) \<Rightarrow> (v, case scan_hexl r of None \<Rightarrow> sz | Some (n, _) \<Rightarrow> low_half sz n))"

definition rx_answer :: "byte \<Rightarrow> int \<Rightarrow> s_hydra_batch \<Rightarrow> s_hydra_batch turn" where
  "rx_answer mem pos = queue_packet mem (hydra_putlong pos) HPKT_FINFOACK"

definition open_recv :: "conf \<Rightarrow> hydra_io \<Rightarrow> s_hydra_batch \<Rightarrow> s_hydra_batch turn" where
  "open_recv cf io s =
     (let hi = hb_hi s;
          (tm, sz) = finfo_numbers (io_times io) (io_sizes io) (cstr (chars (packet s)));
          (name, ibuf) = finfo_name (hi_ibuf hi) (nat (hi_isize hi));
          s = s\<lparr>hb_hi := hi\<lparr>hi_ibuf := ibuf\<rparr>\<rparr>
      in case p_rx_fopen cf name sz (localtogmt (gmtoff (hb_w s)) tm) 0 (hb_g s) (hb_pi s) (hb_w s) of (rc, g, pi, w) \<Rightarrow>
           let s = s\<lparr>hb_g := g, hb_pi := pi, hb_w := w\<rparr> in
           if rc = 0 then
             with_recv (\<lambda>fi.
               rx_answer (io_mem io) (uint (fi_skipped fi))
                 (s\<lparr>hb_rxlastack := sint (fi_skipped fi), hb_last_datapos := -1,
                    hb_recvtimer := timer_in s (hi_timeout_recv hi), hb_rxstate := HRX_DATA\<rparr>)) s
           else if rc = 1 then rx_answer (io_mem io) (-2) s
           else if rc = 2 then rx_answer (io_mem io) (-1) s
           else Undefined)"

definition on_finfo :: "conf \<Rightarrow> hydra_io \<Rightarrow> s_hydra_batch \<Rightarrow> s_hydra_batch turn" where
  "on_finfo cf io s =
     (let hi = hb_hi s in
      if hb_rxstate s = HRX_FINFO then
        (if hi_ibuf hi ! 0 = 0 then
           step_then (rx_answer (io_mem io) 0 s) (\<lambda>s. Continue (s\<lparr>hb_rxstate := HRX_DONE\<rparr>))
         else if hi_isize hi > 41 \<and> hi_ibuf hi ! nat (hi_isize hi - 1) = 0 then open_recv cf io s
         else Continue s)
      else if hb_rxstate s = HRX_DONE then rx_answer (io_mem io) (-2) s
      else Continue s)"

definition on_finfoack :: "conf \<Rightarrow> s_hydra_batch \<Rightarrow> s_hydra_batch turn" where
  "on_finfoack cf s =
     (if hb_txstate s = HTX_FINFO \<or> hb_txstate s = HTX_FINFOACK then
        let offs = hydra_getlong (hi_ibuf (hb_hi s)) in
        if hb_send_EOB s then
          Continue (s\<lparr>hb_idletimer := timer_in s 20, hb_sendtimer := 0, hb_txtries := 0, hb_txstate := HTX_REND\<rparr>)
        else if hi_isize (hb_hi s) < 4 then Continue s
        else if offs = 0 then Continue (s\<lparr>hb_txlastack := 0, hb_txtries := 0, hb_txstate := HTX_DATA\<rparr>)
        else if offs > 0 then
          with_send (\<lambda>fi.
            case fi_fp fi of
              None \<Rightarrow> Undefined
            | Some fp \<Rightarrow>
                (case fseek fp (nat offs) (hb_w s) of (ok, fp, w) \<Rightarrow>
                   let s = s\<lparr>hb_w := w\<rparr>; fi = fi\<lparr>fi_fp := Some fp\<rparr> in
                   if ok then
                     Continue ((put_send (fi\<lparr>fi_skipped := word_of_int offs, fi_sent := word_of_int offs\<rparr>) s)
                       \<lparr>hb_txlastack := offs, hb_txtries := 0, hb_txstate := HTX_DATA\<rparr>)
                   else Continue ((close_send cf (put_send fi s))\<lparr>hb_txstate := HTX_NextFile\<rparr>))) s
        else
          with_send (\<lambda>fi.
            Continue ((close_send cf (put_send (fi\<lparr>fi_status := (if offs = -1 then FSTAT_SKIPPED else FSTAT_REFUSED)\<rparr>) s))
              \<lparr>hb_txstate := HTX_NextFile\<rparr>)) s
      else Continue s)"

subsection \<open>Blocks of a file\<close>

definition write_block :: "byte \<Rightarrow> s_hydra_batch \<Rightarrow> s_hydra_batch turn" where
  "write_block mem s =
     (let hi = hb_hi s; n = hi_isize hi - 4;
          s = s\<lparr>hb_hi := hi\<lparr>hi_recv_block_size := n\<rparr>, hb_last_datapos := hydra_getlong (hi_ibuf hi),
                hb_deadtimer := timer_in s (hi_timeout_dead hi), hb_recvtimer := timer_in s (hi_timeout_recv hi),
                hb_rxstate := HRX_DATA\<rparr>
      in case p_rx_writefile (chars (take (nat n) (drop 4 (hi_ibuf hi)))) (hb_pi s) (hb_w s) of
           None \<Rightarrow> Undefined
         | Some (rc, pi, w) \<Rightarrow>
             let s = s\<lparr>hb_pi := pi, hb_w := w\<rparr> in
             if rc = 0 then
               with_recv (\<lambda>fi.
                 let received = s\<lparr>hb_pi := set_recv (fi\<lparr>fi_received := fi_received fi + word_of_int n\<rparr>) pi\<rparr> in
                 if hi_rxwindow hi > 0
                 then queue_packet mem (hydra_putlong (uint (fi_received fi))) HPKT_DATAACK
                        (received\<lparr>hb_rxlastack := sint (fi_received fi)\<rparr>)
                 else Continue received) s
             else if rc = -1 \<or> rc = -2 then
               with_recv (\<lambda>fi.
                 Continue ((put_recv (fi\<lparr>fi_status := (if rc = -1 then FSTAT_REFUSED else FSTAT_SKIPPED)\<rparr>) s)
                   \<lparr>hb_hi := new_rpos_id (hb_hi s), hb_rxtries := 0, hb_rxstate := HRX_Skip\<rparr>)) s
             else Undefined)"

definition on_data :: "byte \<Rightarrow> s_hydra_batch \<Rightarrow> s_hydra_batch turn" where
  "on_data mem s =
     (if hb_rxstate s = HRX_DATA \<or> hb_rxstate s = HRX_RPosAck then
        if hi_isize (hb_hi s) < 4 then Continue s
        else
          with_recv (\<lambda>fi.
            let pos = hydra_getlong (hi_ibuf (hb_hi s)) in
            if word_of_int pos \<noteq> fi_received fi then
              Continue
                ((if hb_rxstate s = HRX_RPosAck then (if pos < hb_last_datapos s then s\<lparr>hb_rxstate := HRX_RPOS\<rparr> else s)
                  else ask_again s)\<lparr>hb_last_datapos := pos\<rparr>)
            else write_block mem s) s
      else Continue s)"

definition on_junk :: "s_hydra_batch \<Rightarrow> s_hydra_batch turn" where
  "on_junk s = Continue (if hb_rxstate s = HRX_DATA then ask_again s else s)"

text \<open>The length of the packet is not looked at.\<close>

definition on_dataack :: "s_hydra_batch \<Rightarrow> s_hydra_batch turn" where
  "on_dataack s =
     (if hb_txstate s = HTX_DATA \<or> hb_txstate s = HTX_DATAACK then
        with_send (\<lambda>fi.
          let ackpos = hydra_getlong (hi_ibuf (hb_hi s)) in
          if word_of_int ackpos \<ge> fi_sent fi then Continue s
          else if ackpos < hb_txlastack s then Continue s
          else if hb_txstate s = HTX_DATAACK \<and> fi_sent fi < word_of_int ackpos + hi_txwindow (hb_hi s) then
            Continue (s\<lparr>hb_txlastack := ackpos, hb_txtries := 0, hb_txstate := HTX_DATA\<rparr>)
          else Continue (s\<lparr>hb_txlastack := ackpos\<rparr>)) s
      else Continue s)"

subsection \<open>The other side wants another position\<close>

definition resend_from :: "int \<Rightarrow> int \<Rightarrow> s_finfo \<Rightarrow> s_hydra_batch \<Rightarrow> s_hydra_batch" where
  "resend_from offset blocksize fi s =
     (let s = (put_send (fi\<lparr>fi_sent := word_of_int offset\<rparr>) s)\<lparr>hb_txlastack := offset\<rparr>;
          s = (if blocksize \<noteq> 0 \<and> blocksize \<noteq> hi_send_block_size (hb_hi s)
               then s\<lparr>hb_hi := (hb_hi s)\<lparr>hi_send_block_size := blocksize, hi_send_good_blocks := 0\<rparr>\<rparr> else s)
      in if hb_txstate s \<noteq> HTX_XWAIT then s\<lparr>hb_txstate := HTX_DATA\<rparr> else s)"

definition stop_sending :: "fstat \<Rightarrow> s_finfo \<Rightarrow> s_hydra_batch \<Rightarrow> s_hydra_batch" where
  "stop_sending status fi s = to_eof (put_send (fi\<lparr>fi_status := status\<rparr>) s)"

definition on_rpos :: "s_hydra_batch \<Rightarrow> s_hydra_batch turn" where
  "on_rpos s =
     (if hb_txstate s \<in> {HTX_DATA, HTX_DATAACK, HTX_XWAIT, HTX_EOF, HTX_EOFACK} \<and> hi_isize (hb_hi s) \<ge> 10 then
        let ibuf = hi_ibuf (hb_hi s);
            offset = hydra_getlong ibuf;
            blocksize = hydra_getword (drop 4 ibuf);
            packetId = hydra_getlong (drop 6 ibuf);
            blocksize = (if blocksize > 0 then hydra_align_block_size blocksize else blocksize)
        in if packetId > 0 \<and> packetId = hi_send_rpos_id (hb_hi s) then Continue s
           else
             with_send (\<lambda>fi.
               let s = s\<lparr>hb_hi := (hb_hi s)\<lparr>hi_send_rpos_id := packetId\<rparr>\<rparr> in
               if offset \<ge> 0 then
                 let fi = fi\<lparr>fi_eofseen := False\<rparr> in
                 (case fi_fp fi of
                    None \<Rightarrow> Undefined
                  | Some fp \<Rightarrow>
                      (case fseek fp (nat offset) (hb_w s) of (ok, fp, w) \<Rightarrow>
                         let fi = fi\<lparr>fi_fp := Some fp\<rparr> in
                         (case (if ok then ftell fp w else (-1, w)) of (pos, w) \<Rightarrow>
                            let s = s\<lparr>hb_w := w\<rparr> in
                            if ok \<and> pos = offset then Continue (resend_from offset blocksize fi s)
                            else Continue (stop_sending FSTAT_REFUSED fi s))))
               else if offset = -1 then Continue (stop_sending FSTAT_SKIPPED fi s)
               else Continue (stop_sending FSTAT_REFUSED fi s)) s
      else Continue s)"

subsection \<open>The end of a file, and of the batch\<close>

definition end_of_file :: "conf \<Rightarrow> req_processor \<Rightarrow> byte \<Rightarrow> s_hydra_batch \<Rightarrow> s_hydra_batch turn" where
  "end_of_file cf req mem s =
     with_recv (\<lambda>fi.
       case p_rx_fclose cf req (hb_g s) (set_recv (fi\<lparr>fi_status := FSTAT_SUCCESS\<rparr>) (hb_pi s)) (hb_w s) of
         None \<Rightarrow> Undefined
       | Some (rc, pi, w) \<Rightarrow>
           let s = s\<lparr>hb_pi := pi, hb_w := w\<rparr> in
           if rc = 0 then
             step_then (queue_packet mem [] HPKT_EOFACK s) (\<lambda>s. Continue (s\<lparr>hb_rxtries := 0, hb_rxstate := HRX_FINFO\<rparr>))
           else
             with_recv (\<lambda>fi.
               Continue ((put_recv (fi\<lparr>fi_status := FSTAT_REFUSED\<rparr>) s)\<lparr>hb_rxtries := 0, hb_rxstate := HRX_Skip\<rparr>)) s) s"

definition end_of_skipped :: "conf \<Rightarrow> req_processor \<Rightarrow> byte \<Rightarrow> s_hydra_batch \<Rightarrow> s_hydra_batch turn" where
  "end_of_skipped cf req mem s =
     step_then (queue_packet mem [] HPKT_EOFACK s)
       (\<lambda>s. case p_rx_fclose cf req (hb_g s) (hb_pi s) (hb_w s) of
              None \<Rightarrow> Undefined
            | Some (rc, pi, w) \<Rightarrow>
                Continue (s\<lparr>hb_pi := pi, hb_w := w, hb_recvtimer := 0, hb_rxtries := 0, hb_rxstate := HRX_FINFO\<rparr>))"

definition on_eof :: "conf \<Rightarrow> req_processor \<Rightarrow> byte \<Rightarrow> s_hydra_batch \<Rightarrow> s_hydra_batch turn" where
  "on_eof cf req mem s =
     (let isize = hi_isize (hb_hi s); pos = hydra_getlong (hi_ibuf (hb_hi s)) in
      if hb_rxstate s = HRX_DATA then
        (if isize < 4 then Continue s
         else
           with_recv (\<lambda>fi.
             if word_of_int pos \<noteq> fi_received fi then Continue (ask_again (s\<lparr>hb_last_datapos := pos\<rparr>))
             else end_of_file cf req mem s) s)
      else if hb_rxstate s = HRX_Skip \<or> hb_rxstate s = HRX_SkipAck then
        (if isize < 4 then Continue s
         else if pos \<ge> 0 then Continue (s\<lparr>hb_rxstate := HRX_Skip\<rparr>)
         else end_of_skipped cf req mem s)
      else if isize = 4 \<and> pos = -2 then queue_packet mem [] HPKT_EOFACK s
      else Continue s)"

definition on_eofack :: "conf \<Rightarrow> s_hydra_batch \<Rightarrow> s_hydra_batch turn" where
  "on_eofack cf s =
     (if hb_txstate s = HTX_EOF \<or> hb_txstate s = HTX_EOFACK then
        (case sending (hb_pi s) of
           None \<Rightarrow> Continue (s\<lparr>hb_txtries := 0, hb_txstate := HTX_END\<rparr>)
         | Some fi \<Rightarrow>
             Continue ((close_send cf (if fi_eofseen fi then put_send (fi\<lparr>fi_status := FSTAT_SUCCESS\<rparr>) s else s))
               \<lparr>hb_txstate := HTX_NextFile\<rparr>))
      else Continue s)"

definition on_end :: "byte \<Rightarrow> s_hydra_batch \<Rightarrow> s_hydra_batch turn" where
  "on_end mem s =
     (if hb_txstate s = HTX_END \<or> hb_txstate s = HTX_ENDACK then
        step_then (step_then (step_then (queue_packet mem [] HPKT_END s) (queue_packet mem [] HPKT_END))
            (queue_packet mem [] HPKT_END))
          (\<lambda>s. Continue (s\<lparr>hb_txtries := 0, hb_txstate := HTX_DONE\<rparr>))
      else Continue s)"

definition hydra_answer :: "conf \<Rightarrow> req_processor \<Rightarrow> hydra_io \<Rightarrow> e_hydra_pkttype \<Rightarrow> s_hydra_batch \<Rightarrow> s_hydra_batch turn" where
  "hydra_answer cf req io t s =
     (case t of
        HPKT_JUNK \<Rightarrow> on_junk s
      | HPKT_START \<Rightarrow> on_start s
      | HPKT_INIT \<Rightarrow> on_init (io_mem io) s
      | HPKT_INITACK \<Rightarrow> on_initack s
      | HPKT_FINFO \<Rightarrow> on_finfo cf io s
      | HPKT_FINFOACK \<Rightarrow> on_finfoack cf s
      | HPKT_DATA \<Rightarrow> on_data (io_mem io) s
      | HPKT_DATAACK \<Rightarrow> on_dataack s
      | HPKT_RPOS \<Rightarrow> on_rpos s
      | HPKT_EOF \<Rightarrow> on_eof cf req (io_mem io) s
      | HPKT_EOFACK \<Rightarrow> on_eofack cf s
      | HPKT_END \<Rightarrow> on_end (io_mem io) s
      | HPKT_IDLE \<Rightarrow> Continue (s\<lparr>hb_recvtimer := timer_in s (hi_timeout_recv (hb_hi s))\<rparr>)
      | _ \<Rightarrow> Continue s)"

section \<open>The loop\<close>

definition hydra_poll :: "hydra_io \<Rightarrow> s_hydra_batch \<Rightarrow> (bool \<times> bool) option" where
  "hydra_poll io s =
     (let output = hi_oenc (hb_hi s) \<noteq> [] \<or> hi_pktqueue (hb_hi s) \<noteq> [] in
      case io_poll io of
        Select_error \<Rightarrow> None
      | Select_timeout \<Rightarrow> Some (False, False)
      | Ready recv send \<Rightarrow> Some (recv, send \<and> output))"

text \<open>What has come is read up to the next packet, and what waits is written; then the packet is answered.\<close>

definition hydra_exchange :: "conf \<Rightarrow> req_processor \<Rightarrow> hydra_io \<Rightarrow> s_hydra_batch \<Rightarrow> s_hydra_batch turn" where
  "hydra_exchange cf req io s =
     (case hydra_poll io s of
        None \<Rightarrow> Return PRC_ERROR s
      | Some (recv, send) \<Rightarrow>
          (case (if recv then hydra_recv (io_mems io) (io_quiet io) (hb_line s @ io_chars io) (hb_hi s)
                 else (HPKT_NONE, hb_hi s, hb_line s @ io_chars io)) of (t, hi, line) \<Rightarrow>
             let s = s\<lparr>hb_hi := hi, hb_line := line\<rparr> in
             if recv \<and> t = HPKT_EXIT then Return PRC_ERROR s
             else
               (case (if send then hydra_send (io_writes io) hi else (True, hi)) of (ok, hi) \<Rightarrow>
                  let s = s\<lparr>hb_hi := hi\<rparr> in
                  if \<not> ok then Return PRC_ERROR s else hydra_answer cf req io t s)))"

definition hydra_info :: "s_hydra_batch \<Rightarrow> s_hydra_batch turn" where
  "hydra_info s =
     (case p_info (hb_pi s) True (hb_w s) of (rc, pi) \<Rightarrow>
        let s = s\<lparr>hb_pi := pi\<rparr> in if rc \<noteq> 0 then Return rc s else Continue s)"

definition hydra_pass :: "conf \<Rightarrow> req_processor \<Rightarrow> string \<Rightarrow> hydra_io \<Rightarrow> s_hydra_batch \<Rightarrow> s_hydra_batch turn" where
  "hydra_pass cf req version io s =
     step_then (step_then (step_then (step_then (hydra_timers (s\<lparr>hb_w := (hb_w s)\<lparr>now := io_now io\<rparr>\<rparr>))
       (hydra_sender cf version (io_mem io))) (hydra_receiver (io_mem io))) hydra_info) (hydra_exchange cf req io)"

definition batch_done :: "s_hydra_batch \<Rightarrow> bool" where
  "batch_done s \<longleftrightarrow> hb_txstate s = HTX_DONE \<and> hb_rxstate s = HRX_DONE"

text \<open>The passes there are inputs for; \<open>Continue\<close> when the batch is done or the inputs are used up.\<close>

fun hydra_passes :: "conf \<Rightarrow> req_processor \<Rightarrow> string \<Rightarrow> hydra_io list \<Rightarrow> s_hydra_batch \<Rightarrow> s_hydra_batch turn" where
  "hydra_passes cf req version [] s = Continue s"
| "hydra_passes cf req version (io # ios) s =
     (if batch_done s then Continue s else step_then (hydra_pass cf req version io s) (hydra_passes cf req version ios))"

text \<open>
  What waits to be sent at the end: in at most twenty attempts, of which \<open>io k\<close> says whether the line is ready
  in time, and how much it takes.
\<close>

fun hydra_flush :: "(nat \<Rightarrow> bool \<times> int) \<Rightarrow> nat \<Rightarrow> s_hydra_batch \<Rightarrow> s_hydra_batch turn" where
  "hydra_flush io left s =
     (if hi_oenc (hb_hi s) = [] \<and> hi_pktqueue (hb_hi s) = [] then Continue s
      else
        (case left of
           0 \<Rightarrow> Return PRC_ERROR s
         | Suc left' \<Rightarrow>
             if \<not> fst (io left') then Return PRC_ERROR s
             else
               (case hydra_send (snd (io left')) (hb_hi s) of (ok, hi) \<Rightarrow>
                  let s = s\<lparr>hb_hi := hi\<rparr> in if ok then hydra_flush io left' s else Return PRC_ERROR s)))"

definition close_files :: "conf \<Rightarrow> req_processor \<Rightarrow> s_hydra_batch \<Rightarrow> s_hydra_batch" where
  "close_files cf req s =
     (let s = (if map_option fi_fp (sending (hb_pi s)) \<in> {None, Some None} then s else close_send cf s) in
      if map_option fi_fp (receiving (hb_pi s)) \<in> {None, Some None} then s
      else
        (case p_rx_fclose cf req (hb_g s) (hb_pi s) (hb_w s) of
           None \<Rightarrow> s | Some (_, pi, w) \<Rightarrow> s\<lparr>hb_pi := pi, hb_w := w\<rparr>))"

definition batch_start :: "s_hydrainfo \<Rightarrow> s_protinfo \<Rightarrow> s_globals \<Rightarrow> world \<Rightarrow> byte list \<Rightarrow> s_hydra_batch" where
  "batch_start hi pi g w line =
     \<lparr>hb_hi = hi, hb_pi = pi, hb_g = g, hb_w = w, hb_line = line, hb_send_EOB = False, hb_txstate = HTX_START,
      hb_rxstate = HRX_INIT, hb_txtries = 0, hb_rxtries = 0, hb_txlastack = 0, hb_rxlastack = 0, hb_idletimer = 0,
      hb_sendtimer = 0, hb_recvtimer = 0, hb_deadtimer = time_settimer (now w) (hi_timeout_dead hi), hb_last_datapos = -1\<rparr>"

text \<open>\<open>Return\<close> when the batch is over; \<open>Continue\<close> when its inputs ended before.\<close>

definition hydra_batch ::
  "conf \<Rightarrow> req_processor \<Rightarrow> string \<Rightarrow> hydra_io list \<Rightarrow> (nat \<Rightarrow> bool \<times> int) \<Rightarrow> s_hydra_batch \<Rightarrow> s_hydra_batch turn" where
  "hydra_batch cf req version ios flush s =
     (case hydra_passes cf req version ios s of
        Continue s \<Rightarrow>
          if batch_done s then
            (case hydra_flush flush 20 s of
               Continue s \<Rightarrow> Return PRC_NOERROR (close_files cf req s)
             | Return rc s \<Rightarrow> Return rc (close_files cf req s)
             | Undefined \<Rightarrow> Undefined)
          else Continue s
      | Return rc s \<Rightarrow> Return rc (close_files cf req s)
      | Undefined \<Rightarrow> Undefined)"

text \<open>Two batches; with \<open>files_after_freqs\<close> the first sends requests only.\<close>

definition hydra ::
  "conf \<Rightarrow> req_processor \<Rightarrow> string \<Rightarrow> bool \<Rightarrow> byte list \<Rightarrow> hydra_io list \<times> (nat \<Rightarrow> bool \<times> int) \<Rightarrow>
    hydra_io list \<times> (nat \<Rightarrow> bool \<times> int) \<Rightarrow> s_protinfo \<Rightarrow> s_globals \<Rightarrow> world \<Rightarrow> s_hydra_batch turn" where
  "hydra cf req version files_after_freqs mem first second pi g w =
     (let pi = (if files_after_freqs then pi\<lparr>pi_reqs_only := True\<rparr> else pi) in
      case hydra_batch cf req version (fst first) (snd first) (batch_start (hydra_init mem) pi g w []) of
        Return rc s \<Rightarrow>
          if rc = PRC_NOERROR then
            let pi = (if files_after_freqs then (hb_pi s)\<lparr>pi_reqs_only := False\<rparr> else hb_pi s) in
            hydra_batch cf req version (fst second) (snd second) (batch_start (hb_hi s) pi (hb_g s) (hb_w s) (hb_line s))
          else Return rc s
      | t \<Rightarrow> t)"

end
