(* ===== verification/HydraPktProps.thy ===== *)
theory HydraPktProps
  imports HydraPkt
begin

text \<open>What is encoded for the line is what the receiver decodes from it.\<close>

section \<open>Bytes on the line\<close>

lemma control_moved:
  assumes "(n::byte) < 32 \<or> n = 127"
  shows "\<not> n XOR 0x40 < 32" "n XOR 0x40 \<noteq> 127" "n XOR 0x40 \<noteq> 97" "n XOR 0x40 \<noteq> 98" "n XOR 0x40 \<noteq> 99"
    "n XOR 0x40 \<noteq> 100" "n XOR 0x40 \<noteq> 101"
  using assms control_cases [of n] by auto

lemma byte_mask7: "(0x7f :: byte) = mask 7" by (simp add: mask_eq_exp_minus_1)

lemma moved_masked: "((c::byte) XOR 0x40) AND 0x7f = (c AND 0x7f) XOR 0x40"
  unfolding byte_mask7 by (rule bit_word_eqI) (auto simp: bit_simps bit_mask_iff bit_64)

lemma moved_twice [simp]: "((c::byte) XOR 0x40) XOR 0x40 = c"
  by (simp add: xor.assoc)

text \<open>What a link with these options gives back when nothing is lost.\<close>

definition line_char :: "u64 \<Rightarrow> byte \<Rightarrow> byte" where
  "line_char options c = (if option_in HOPT_HIGHBIT options then c AND 0x7f else c)"

definition passes :: "u64 \<Rightarrow> byte \<Rightarrow> bool" where
  "passes options c \<longleftrightarrow> line_char options c = c \<and> c \<noteq> HYDRA_DLE \<and> \<not> dropped options (link_byte options c)"

lemma escaped_control: "link_escaped options prev n \<Longrightarrow> n < 32 \<or> n = (127::byte)"
  by (auto simp: link_escaped_def HYDRA_DLE_def XON_def XOFF_def)

lemma plain_passes:
  assumes "\<not> link_escaped options prev (link_byte options c)" "line_char options c = c"
  shows "passes options c"
proof -
  have "link_byte options HYDRA_DLE = HYDRA_DLE" by (simp add: link_byte_def HYDRA_DLE_def)
  then have "c \<noteq> HYDRA_DLE" using assms(1) by (auto simp: link_escaped_def)
  then show ?thesis using assms by (auto simp: passes_def dropped_def link_escaped_def)
qed

lemma moved_passes:
  assumes "link_byte options c < 32 \<or> link_byte options c = 127" "line_char options c = c"
  shows "passes options (c XOR 0x40)" "char_of_byte (c XOR 0x40) = None"
proof -
  let ?n = "link_byte options c"
  have m: "link_byte options (c XOR 0x40) = ?n XOR 0x40" by (simp add: link_byte_def moved_masked)
  have l: "line_char options (c XOR 0x40) = c XOR 0x40" using assms(2) by (auto simp: line_char_def moved_masked)
  note ctl = control_moved [OF assms(1), folded m]
  have ne: "c XOR 0x40 \<noteq> d" if "link_byte options d = d" "link_byte options (c XOR 0x40) \<noteq> d" for d
    using that by auto
  have "c XOR 0x40 \<noteq> HYDRA_DLE" using ctl(1) by (intro ne) (auto simp: link_byte_def HYDRA_DLE_def)
  then show "passes options (c XOR 0x40)"
    using ctl l by (auto simp: passes_def dropped_def XON_def XOFF_def)
  show "char_of_byte (c XOR 0x40) = None"
    using ne [of 97] ne [of 98] ne [of 99] ne [of 100] ne [of 101] ctl by (simp add: char_of_byte_def link_byte_def)
qed

section \<open>The receiver within a packet\<close>

definition receiving_packet :: "nat \<Rightarrow> s_hydrainfo \<Rightarrow> bool" where
  "receiving_packet n hi \<longleftrightarrow> hi_iencrcv hi \<and> hi_idlecnt hi = 0 \<and> length (hi_ienc hi) + n \<le> HYDRA_BUFLEN"

lemma recv_plain:
  assumes "receiving_packet (Suc n) hi" "passes (hi_rxoptions hi) c"
  shows "recv_char behind c hi = (None, hi\<lparr>hi_ienc := hi_ienc hi @ [c]\<rparr>)" "receiving_packet n (hi\<lparr>hi_ienc := hi_ienc hi @ [c]\<rparr>)"
  using assms by (auto simp: receiving_packet_def passes_def line_char_def recv_char_def store_char_def Let_def)

lemma recv_DLE:
  assumes "hi_idlecnt hi < 4"
  shows "recv_char behind HYDRA_DLE hi = (None, hi\<lparr>hi_idlecnt := hi_idlecnt hi + 1\<rparr>)"
proof -
  have "HYDRA_DLE AND 0x7f = HYDRA_DLE" by (simp add: HYDRA_DLE_def)
  then show ?thesis using assms by (simp add: recv_char_def link_byte_def dropped_def Let_def)
qed

lemma recv_moved:
  assumes "receiving_packet (Suc n) hi" "passes (hi_rxoptions hi) (c XOR 0x40)" "char_of_byte (c XOR 0x40) = None"
  shows "recv_char behind (c XOR 0x40) (hi\<lparr>hi_idlecnt := 1\<rparr>) = (None, hi\<lparr>hi_ienc := hi_ienc hi @ [c]\<rparr>)"
  using assms by (simp add: receiving_packet_def passes_def line_char_def recv_char_def store_char_def Let_def)

lemma recv_escape:
  assumes "receiving_packet (Suc n) hi" "link_byte (hi_rxoptions hi) c < 32 \<or> link_byte (hi_rxoptions hi) c = 127"
    "line_char (hi_rxoptions hi) c = c"
  shows "hydra_recv behind tm ([HYDRA_DLE, c XOR 0x40] @ rest) hi = hydra_recv behind tm rest (hi\<lparr>hi_ienc := hi_ienc hi @ [c]\<rparr>)"
proof -
  have "hi_idlecnt hi = 0" using assms(1) by (simp add: receiving_packet_def)
  then show ?thesis
    using recv_DLE [of hi behind] recv_moved [OF assms(1) moved_passes [OF assms(2,3)]] by simp
qed

lemma put_bin_Cons:
  "fst (put_bin options prev (c # cs))
    = (if link_escaped options prev (link_byte options c) then [HYDRA_DLE, c XOR 0x40] else [c])
      @ fst (put_bin options (uint (link_byte options c)) cs)"
  by (simp add: hydra_putbinbyte_def Let_def split: prod.split)

lemma recv_bin:
  assumes "receiving_packet (length src) hi" "list_all (\<lambda>c. line_char (hi_rxoptions hi) c = c) src"
  shows "hydra_recv behind tm (fst (put_bin (hi_rxoptions hi) prev src) @ rest) hi
    = hydra_recv behind tm rest (hi\<lparr>hi_ienc := hi_ienc hi @ src\<rparr>)"
  using assms
proof (induction src arbitrary: hi prev)
  case (Cons c src)
  let ?o = "hi_rxoptions hi" and ?n = "link_byte (hi_rxoptions hi) c" and ?hi = "hi\<lparr>hi_ienc := hi_ienc hi @ [c]\<rparr>"
  have r: "receiving_packet (Suc (length src)) hi" and l: "line_char ?o c = c" using Cons.prems by simp_all
  have r': "receiving_packet (length src) ?hi" using r by (simp add: receiving_packet_def)
  have IH: "hydra_recv behind tm (fst (put_bin ?o (uint ?n) src) @ rest) ?hi
      = hydra_recv behind tm rest (hi\<lparr>hi_ienc := hi_ienc hi @ c # src\<rparr>)"
    using Cons.IH [of ?hi "uint ?n"] r' Cons.prems(2) by simp
  show ?case
  proof (cases "link_escaped ?o prev ?n")
    case True
    then show ?thesis
      using recv_escape [OF r escaped_control [OF True] l, of behind tm] IH
      by (simp only: put_bin_Cons if_True append_assoc)
  next
    case False
    then show ?thesis
      using recv_plain(1) [OF r plain_passes [OF False l], of behind] IH
      by (simp add: put_bin_Cons del: put_bin.simps)
  qed
qed simp

lemma recv_list:
  assumes "receiving_packet (length src) hi" "list_all (passes (hi_rxoptions hi)) src"
  shows "hydra_recv behind tm (src @ rest) hi = hydra_recv behind tm rest (hi\<lparr>hi_ienc := hi_ienc hi @ src\<rparr>)"
  using assms
proof (induction src arbitrary: hi)
  case (Cons c src)
  have r: "receiving_packet (Suc (length src)) hi" using Cons.prems by simp
  from recv_plain(1) [OF r, where c = c and behind = behind] recv_plain(2) [OF r, where c = c] Cons show ?case by simp
qed simp

section \<open>The four encodings\<close>

subsection \<open>Hexadecimal\<close>

text \<open>What the receiver has stored of a byte, the escapes of the link removed.\<close>

definition hex_stored :: "byte \<Rightarrow> byte list" where
  "hex_stored c =
     (if c AND 0x80 \<noteq> 0 then [0x5c, hexdigit (drop_bit 4 c AND 0x0f), hexdigit (c AND 0x0f)]
      else if c = 0x5c then [0x5c, 0x5c]
      else [c])"

lemma hexdigit_value:
  assumes "d < 16"
  shows "hexvalue (hexdigit d) = d" "hexdigit d \<noteq> 0x5c" "hexdigit d AND 0x7f = hexdigit d" "\<not> hexdigit d < 32" "hexdigit d \<noteq> 127"
  using nibble_cases [OF assms] by (auto simp: hexdigit_def hexvalue_def)

lemma gethex_stored:
  "length src \<le> n \<Longrightarrow> hydra_gethexblock behind n (concat (map hex_stored src)) = src"
proof (induction src arbitrary: n)
  case Nil
  then show ?case by (cases n) simp_all
next
  case (Cons c src)
  then obtain m where n: "n = Suc m" "length src \<le> m" by (cases n) auto
  have "hexvalue (hexdigit (drop_bit 4 c AND 0x0f)) = drop_bit 4 c AND 0x0f" "hexvalue (hexdigit (c AND 0x0f)) = c AND 0x0f"
    "hexdigit (drop_bit 4 c AND 0x0f) \<noteq> 0x5c"
    using hexdigit_value [OF nibble_less] by auto
  then show ?case using Cons.IH [OF n(2)] split_nibbles [of c] by (simp add: n hex_stored_def)
qed

lemma printable_passes:
  assumes "\<not> c < 32" "c \<noteq> 127" "c AND 0x7f = (c::byte)"
  shows "passes options c"
proof -
  have "c \<noteq> HYDRA_DLE" "c \<noteq> XON" "c \<noteq> XOFF" using assms(1) by (auto simp: HYDRA_DLE_def XON_def XOFF_def)
  then show ?thesis using assms by (auto simp: passes_def line_char_def dropped_def link_byte_def)
qed

lemma low_masked: "c AND 0x80 = (0::byte) \<Longrightarrow> c AND 0x7f = c"
proof -
  assume a: "c AND 0x80 = 0"
  have "(0x7f :: byte) = NOT 0x80" by simp
  then have "c = (c AND 0x80) OR (c AND 0x7f)" by (metis and.commute bit.conj_disj_distrib bit.disj_cancel_right and.right_neutral)
  then show ?thesis using a by simp
qed

lemma length_hex_stored: "length (hex_stored c) \<le> 3" by (simp add: hex_stored_def)

lemma recv_hex:
  assumes "receiving_packet (3 * length src) hi"
  shows "hydra_recv behind tm (concat (map hydra_puthexbyte src) @ rest) hi
    = hydra_recv behind tm rest (hi\<lparr>hi_ienc := hi_ienc hi @ concat (map hex_stored src)\<rparr>)"
  using assms
proof (induction src arbitrary: hi)
  case (Cons c src)
  let ?o = "hi_rxoptions hi" and ?hi = "hi\<lparr>hi_ienc := hi_ienc hi @ hex_stored c\<rparr>"
  have r: "receiving_packet (3 + 3 * length src) hi" using Cons.prems by simp
  then have r': "receiving_packet (3 * length src) ?hi" using length_hex_stored [of c] by (auto simp: receiving_packet_def)
  have "hydra_recv behind tm (hydra_puthexbyte c @ rest') hi = hydra_recv behind tm rest' ?hi" for rest'
  proof (cases "c AND 0x80 = 0 \<and> (c < 32 \<or> c = 127)")
    case True
    then have "line_char ?o c = c" "link_byte ?o c = c" using low_masked [of c] by (simp_all add: line_char_def link_byte_def)
    then show ?thesis
      using recv_escape [of 2 hi c behind tm rest'] r True
      by (auto simp: hydra_puthexbyte_def hex_stored_def receiving_packet_def)
  next
    case False
    have "list_all (passes ?o) (hex_stored c)" "hydra_puthexbyte c = hex_stored c"
      using False hexdigit_value [OF nibble_less] low_masked [of c]
      by (auto simp: hex_stored_def hydra_puthexbyte_def intro!: printable_passes)
    moreover have "receiving_packet (length (hex_stored c)) hi"
      using r length_hex_stored [of c] by (auto simp: receiving_packet_def)
    ultimately show ?thesis using recv_list by simp
  qed
  then show ?case using Cons.IH [OF r'] by simp
qed simp

subsection \<open>Seven bits\<close>

text \<open>
  Between two bytes of the source the encoder holds \<open>s\<close> bits that are not written, and the decoder \<open>8 - s\<close>
  bits that are not complete: together the last byte.
\<close>

definition in_flight :: "int \<Rightarrow> nat \<Rightarrow> int \<Rightarrow> nat \<Rightarrow> byte list \<Rightarrow> bool" where
  "in_flight ch s c n pending \<longleftrightarrow>
     (s = 0 \<and> ch = 0 \<and> c = 0 \<and> n = 0 \<and> pending = [])
     \<or> (\<exists>b. 0 < s \<and> s < 7 \<and> n = 8 - s \<and> ch = drop_bit n (uint b) \<and> c = take_bit n (uint b) \<and> pending = [b :: byte])"

lemma uint_byte_less [simp]: "uint (b::byte) < 256"
  using uint_bounded [of b] by simp

lemma masks_int: "(x::int) AND 0x7f = take_bit 7 x" "x AND 0xff = take_bit 8 x"
  by (simp_all add: take_bit_eq_mask mask_eq_exp_minus_1)

lemma byte_mask_int: "uint (word_of_int (take_bit 7 x) AND 0x7f :: byte) = take_bit 7 x"
proof -
  have "word_of_int (take_bit 7 x) AND 0x7f = (word_of_int (take_bit 7 x) :: byte)"
    unfolding byte_mask7 by (rule bit_word_eqI) (auto simp: bit_simps bit_mask_iff)
  then show ?thesis by (simp add: unsigned_of_int take_bit_take_bit)
qed

lemma take_bit_byte: "take_bit 8 (uint (b::byte)) = uint b"
  by (rule take_bit_int_eq_self) (simp_all)

lemma drop_byte:
  assumes "k \<le> 8" "8 - k \<le> m"
  shows "take_bit m (drop_bit k (uint (b::byte))) = drop_bit k (uint b)" "drop_bit m (drop_bit k (uint b)) = 0"
proof -
  have "drop_bit k (uint b) = drop_bit k (take_bit 8 (uint b))" by (simp only: take_bit_byte)
  then have d: "drop_bit k (uint b) = take_bit (8 - k) (drop_bit k (uint b))" by (simp add: drop_bit_take_bit)
  show "take_bit m (drop_bit k (uint b)) = drop_bit k (uint b)"
    using assms by (subst d, subst (2) d) (simp only: take_bit_take_bit min_absorb2)
  show "drop_bit m (drop_bit k (uint b)) = 0"
    using assms by (subst d) (simp add: drop_bit_take_bit)
qed

lemma split_bits: "take_bit k x OR push_bit k (drop_bit k x) = (x::int)"
proof (rule bit_eqI)
  fix n show "bit (take_bit k x OR push_bit k (drop_bit k x)) n = bit x n"
    by (cases "n < k") (auto simp: bit_simps)
qed

lemma drop_push: "drop_bit n (push_bit n y) = (y::int)"
  by (rule bit_eqI) (auto simp: bit_simps)

lemma written_bits:
  fixes b b' :: byte
  assumes "0 < s" "s < 7"
  shows "take_bit 7 (drop_bit (8 - s) (uint b) OR push_bit s (uint b')) = drop_bit (8 - s) (uint b) OR push_bit s (take_bit (7 - s) (uint b'))"
    "drop_bit 7 (drop_bit (8 - s) (uint b) OR push_bit s (uint b')) = drop_bit (7 - s) (uint b')"
proof -
  have d: "take_bit 7 (drop_bit (8 - s) (uint b)) = drop_bit (8 - s) (uint b)" "drop_bit 7 (drop_bit (8 - s) (uint b)) = 0"
    using drop_byte [of "8 - s" 7 b] assms by auto
  show "take_bit 7 (drop_bit (8 - s) (uint b) OR push_bit s (uint b')) = drop_bit (8 - s) (uint b) OR push_bit s (take_bit (7 - s) (uint b'))"
    using assms by (simp only: take_bit_or d) (simp add: take_bit_push_bit)
  have "drop_bit 7 (push_bit s (uint b')) = drop_bit (7 - s) (uint b')"
    using assms by (intro bit_eqI) (auto simp: bit_simps)
  then show "drop_bit 7 (drop_bit (8 - s) (uint b) OR push_bit s (uint b')) = drop_bit (7 - s) (uint b')"
    using d(2) by (simp only: drop_bit_or) simp
qed

lemma joined_bits:
  assumes "s < 8"
  shows "take_bit (8 - s) (uint b) OR push_bit (8 - s) (drop_bit (8 - s) (uint b) OR push_bit s y) = uint (b::byte) OR push_bit 8 y"
proof -
  have "push_bit (8 - s) (push_bit s y) = push_bit 8 y" using assms by simp
  then show ?thesis by (simp only: push_bit_or or.assoc [symmetric] split_bits)
qed

lemma byte_above: "take_bit 8 (uint (b::byte) OR push_bit 8 y) = uint b" "drop_bit 8 (uint (b::byte) OR push_bit 8 y) = y"
proof -
  show "take_bit 8 (uint b OR push_bit 8 y) = uint b" by (simp only: take_bit_or take_bit_byte) (simp add: take_bit_push_bit)
  have "drop_bit 8 (uint b) = 0" using drop_byte(2) [of 0 8 b] by simp
  then show "drop_bit 8 (uint b OR push_bit 8 y) = y" by (simp add: drop_bit_or drop_push)
qed

lemma read_bits:
  assumes "0 < s" "s < 8"
  shows "take_bit 8 (take_bit (8 - s) (uint b) OR push_bit (8 - s) (drop_bit (8 - s) (uint b) OR push_bit s y)) = uint (b::byte)"
    "drop_bit 8 (take_bit (8 - s) (uint b) OR push_bit (8 - s) (drop_bit (8 - s) (uint b) OR push_bit s y)) = (y::int)"
    "take_bit 8 (take_bit (8 - s) (uint b) OR push_bit (8 - s) (take_bit 7 (drop_bit (8 - s) (uint b)))) = uint b"
    "drop_bit 8 (take_bit (8 - s) (uint b) OR push_bit (8 - s) (take_bit 7 (drop_bit (8 - s) (uint b)))) = 0"
proof -
  have d: "take_bit 7 (drop_bit (8 - s) (uint b)) = drop_bit (8 - s) (uint b)" using assms by (intro drop_byte) simp_all
  show "take_bit 8 (take_bit (8 - s) (uint b) OR push_bit (8 - s) (drop_bit (8 - s) (uint b) OR push_bit s y)) = uint b"
    "drop_bit 8 (take_bit (8 - s) (uint b) OR push_bit (8 - s) (drop_bit (8 - s) (uint b) OR push_bit s y)) = y"
    using assms by (simp_all only: joined_bits byte_above)
  show "take_bit 8 (take_bit (8 - s) (uint b) OR push_bit (8 - s) (take_bit 7 (drop_bit (8 - s) (uint b)))) = uint b"
    "drop_bit 8 (take_bit (8 - s) (uint b) OR push_bit (8 - s) (take_bit 7 (drop_bit (8 - s) (uint b)))) = 0"
    unfolding d split_bits using take_bit_byte byte_above(2) [of b 0] by simp_all
qed

lemma asc_read:
  "get_asc c n sz (word_of_int (x AND 0x7f) # src)
    = (if sz = 0 then []
       else
         let c = c OR push_bit n (take_bit 7 x) in
         if n + 7 \<ge> 8 then word_of_int (take_bit 8 c) # get_asc (drop_bit 8 c) (n + 7 - 8) (sz - 1) src
         else get_asc c (n + 7) sz src)"
  by (simp only: get_asc.simps masks_int byte_mask_int)

lemma get_asc_bytes:
  "in_flight ch s c n pending \<Longrightarrow> length pending + length src \<le> sz \<Longrightarrow> get_asc c n sz (asc_bytes ch s src) = pending @ src"
proof (induction src arbitrary: ch s c n pending sz)
  case Nil
  show ?case
  proof (cases "s = 0")
    case False
    then obtain b where b: "0 < s" "s < 7" "n = 8 - s" "ch = drop_bit n (uint b)" "c = take_bit n (uint b)" "pending = [b]"
      using Nil by (auto simp: in_flight_def)
    then have e: "asc_bytes ch s [] = [word_of_int (ch AND 0x7f)]" by simp
    have "1 \<le> n" "sz \<noteq> 0" using b Nil by auto
    then show ?thesis unfolding e asc_read using b read_bits(3) [of s b] by (simp add: Let_def)
  qed (use Nil in \<open>auto simp: in_flight_def\<close>)
next
  case (Cons b' src)
  consider "s = 0" "ch = 0" "c = 0" "n = 0" "pending = []"
    | b where "0 < s" "s < 7" "n = 8 - s" "ch = drop_bit n (uint b)" "c = take_bit n (uint b)" "pending = [b]"
    using Cons.prems(1) by (auto simp: in_flight_def)
  then show ?case
  proof cases
    case 1
    have e: "asc_bytes ch s (b' # src) = word_of_int (uint b' AND 0x7f) # asc_bytes (drop_bit 7 (uint b')) 1 src"
      using 1 by (simp add: Let_def)
    have "in_flight (drop_bit 7 (uint b')) 1 (take_bit 7 (uint b')) 7 [b']" by (auto simp: in_flight_def)
    from Cons.IH [OF this, of sz] show ?thesis
      unfolding e asc_read using 1 Cons.prems(2) by (simp add: Let_def)
  next
    case 2
    let ?ch = "ch OR push_bit s (uint b')"
    have ch1: "drop_bit 7 ?ch = drop_bit (7 - s) (uint b')" "take_bit 7 ?ch = drop_bit (8 - s) (uint b) OR push_bit s (take_bit (7 - s) (uint b'))"
      using written_bits [OF 2(1,2)] 2 by simp_all
    have n: "n + 7 \<ge> 8" "n + 7 - 8 = 7 - s" "sz \<noteq> 0" using 2 Cons.prems(2) by auto
    have first: "get_asc c n sz (word_of_int (?ch AND 0x7f) # more) = b # get_asc (take_bit (7 - s) (uint b')) (7 - s) (sz - 1) more" for more
      unfolding asc_read ch1(2) using n read_bits(1,2) [of s b] 2 by (simp only: Let_def if_True if_False) simp
    show ?thesis
    proof (cases "s = 6")
      case True
      have e: "asc_bytes ch s (b' # src) = word_of_int (?ch AND 0x7f) # word_of_int (drop_bit 7 ?ch AND 0x7f) # asc_bytes 0 0 src"
        using True by (simp add: Let_def)
      have "in_flight 0 0 0 0 []" by (simp add: in_flight_def)
      from Cons.IH [OF this, of "sz - 2"] have "get_asc 0 0 (sz - 2) (asc_bytes 0 0 src) = src" using Cons.prems(2) 2 by simp
      moreover have "sz - 1 \<noteq> 0" "sz - 1 - 1 = sz - 2" using Cons.prems(2) 2 by auto
      ultimately show ?thesis
        unfolding e first unfolding asc_read ch1(1) using True 2 read_bits(3,4) [of 7 b'] by (simp add: Let_def)
    next
      case False
      then have e: "asc_bytes ch s (b' # src) = word_of_int (?ch AND 0x7f) # asc_bytes (drop_bit 7 ?ch) (s + 1) src"
        using 2 by (simp add: Let_def)
      have "in_flight (drop_bit (7 - s) (uint b')) (s + 1) (take_bit (7 - s) (uint b')) (7 - s) [b']"
        using False 2 by (auto simp: in_flight_def)
      from Cons.IH [OF this, of "sz - 1"] show ?thesis
        unfolding e first unfolding ch1(1) using 2 Cons.prems(2) by simp
    qed
  qed
qed

lemma asc_line: "list_all (\<lambda>c. line_char options c = c) (asc_bytes ch s src)"
proof -
  have "(word_of_int (x AND 0x7f) :: byte) AND 0x7f = word_of_int (x AND 0x7f)" for x :: int
    unfolding byte_mask7 masks_int by (rule bit_word_eqI) (auto simp: bit_simps bit_mask_iff)
  then show ?thesis by (induction src arbitrary: ch s) (simp_all add: line_char_def Let_def)
qed

lemma length_asc: "length (asc_bytes ch s src) \<le> 2 * length src + 1"
  by (induction src arbitrary: ch s) (auto simp: Let_def intro: le_SucI order_trans [rotated])

subsection \<open>Six bits\<close>

lemma uue_masks: "(0x3f :: byte) = mask 6" "(0x0f :: byte) = mask 4" "(0x03 :: byte) = mask 2"
  by (simp_all add: mask_eq_exp_minus_1)

lemma uue_char [simp]: "HYDRA_UUDEC (HYDRA_UUENC x) = x AND 0x3f" "HYDRA_ISUUE (HYDRA_UUENC x)"
proof -
  show "HYDRA_UUDEC (HYDRA_UUENC x) = x AND 0x3f" by (simp add: HYDRA_UUDEC_def HYDRA_UUENC_def and.assoc)
  have "x AND 0x3f \<le> 63" using word_and_le1 [of x 63] by simp
  then have "x AND 0x3f < 64" by (simp add: word_less_nat_alt word_le_nat_alt)
  then have "x AND 0x3f \<in> set (map word_of_nat [0..<64])" using byte_in_upt [of "x AND 0x3f" 64] by simp
  then obtain k where "k < 64" "x AND 0x3f = word_of_nat k" by auto
  then show "HYDRA_ISUUE (HYDRA_UUENC x)"
    by (simp add: HYDRA_ISUUE_def HYDRA_UUENC_def word_less_nat_alt unat_word_ariths unsigned_of_nat take_bit_nat_eq_self)
qed

lemma uue_fields: "(0x30 :: byte) = push_bit 4 (mask 2)" "(0x3c :: byte) = push_bit 2 (mask 4)"
  by (simp_all add: mask_eq_exp_minus_1)

lemma uue_bytes:
  fixes a b c :: byte
  shows "push_bit 2 (drop_bit 2 a AND 0x3f) OR drop_bit 4 (((push_bit 4 a AND 0x30) OR (drop_bit 4 b AND 0x0f)) AND 0x3f) = a"
    "push_bit 4 (((push_bit 4 a AND 0x30) OR (drop_bit 4 b AND 0x0f)) AND 0x3f)
      OR drop_bit 2 (((push_bit 2 b AND 0x3c) OR (drop_bit 6 c AND 0x03)) AND 0x3f) = b"
    "push_bit 6 (((push_bit 2 b AND 0x3c) OR (drop_bit 6 c AND 0x03)) AND 0x3f) OR ((c AND 0x3f) AND 0x3f) = c"
    "push_bit 4 (((push_bit 4 a AND 0x30) OR (drop_bit 4 b AND 0x0f)) AND 0x3f) OR drop_bit 2 ((push_bit 2 b AND 0x3c) AND 0x3f) = b"
  unfolding uue_fields uue_masks
  by (rule byte_eqI; simp add: bit_simps bit_mask_iff)+

lemma get_uue_put: "get_uue (hydra_putuueblock behind src) = Some src"
  by (induction behind src rule: hydra_putuueblock.induct)
    (simp_all only: hydra_putuueblock.simps get_uue.simps uue_char uue_bytes simp_thms if_False option.map)

lemma length_uue: "length (hydra_putuueblock behind src) = (length src div 3) * 4 + (if length src mod 3 = 0 then 0 else length src mod 3 + 1)"
proof (induction behind src rule: hydra_putuueblock.induct)
  case (1 behind a b c src)
  have "Suc (Suc (Suc (length src))) div 3 = Suc (length src div 3)" "Suc (Suc (Suc (length src))) mod 3 = length src mod 3"
    by (simp_all add: numeral_3_eq_3 [symmetric] flip: add_Suc_right) 
  then show ?case using 1 by simp
qed simp_all

lemma uue_size:
  obtains q r where "length src = 3 * q + r" "r = 0 \<or> r = 1 \<or> r = 2"
    "length (hydra_putuueblock behind src) = q * 4 + (if r = 0 then 0 else r + 1)"
proof
  show "length src = 3 * (length src div 3) + length src mod 3" by simp
  show "length src mod 3 = 0 \<or> length src mod 3 = 1 \<or> length src mod 3 = 2" by linarith
qed (rule length_uue)

lemma uue_size_mod: "length (hydra_putuueblock behind src) mod 4 \<noteq> 1"
  by (rule uue_size [of src behind]) (auto simp: mod_simps)

lemma uue_char_passes: "passes options (HYDRA_UUENC x)"
proof -
  have u: "HYDRA_UUENC x > 0x20" "HYDRA_UUENC x < 0x61" using uue_char(2) [of x] by (simp_all add: HYDRA_ISUUE_def)
  then have "unat (HYDRA_UUENC x) < 2 ^ 7" by (simp add: word_less_nat_alt)
  then have "unat (take_bit 7 (HYDRA_UUENC x)) = unat (HYDRA_UUENC x)" by (simp add: unsigned_take_bit_eq take_bit_nat_eq_self)
  then have "take_bit 7 (HYDRA_UUENC x) = HYDRA_UUENC x" by (simp only: word_unat_eq_iff)
  then have "HYDRA_UUENC x AND 0x7f = HYDRA_UUENC x" unfolding byte_mask7 by (simp add: take_bit_eq_mask)
  moreover have "\<not> HYDRA_UUENC x < 32" "HYDRA_UUENC x \<noteq> 127" using u by (auto simp: word_less_nat_alt)
  ultimately show ?thesis by (intro printable_passes)
qed

lemma uue_passes: "list_all (passes options) (hydra_putuueblock behind src)"
  by (induction behind src rule: hydra_putuueblock.induct) (simp_all add: uue_char_passes)

section \<open>Whole packets\<close>

lemma pkt_of_byte: "t \<in> set hpkts \<Longrightarrow> pkt_of (pkt_byte t) = Some t"
  by (auto simp: hpkts_def pkt_byte_def pkt_of_def first_index_def)

definition body :: "u64 \<Rightarrow> e_hydra_char \<Rightarrow> e_hydra_pkttype \<Rightarrow> byte list \<Rightarrow> nat" where
  "body options format t data = length (packet_bytes options format t data)"

lemma length_packet_bytes [simp]: "length (packet_bytes options format t data) = length data + (if with_crc32 options format then 5 else 3)"
  by (simp add: packet_bytes_def Let_def)

lemma packet_crc:
  "if with_crc32 options format then CRC32TEST (getcrc32ccitt (packet_bytes options format t data))
   else CRC16TEST (getcrc16ccitt (packet_bytes options format t data))"
  using crc16_residue [of "data @ [pkt_byte t]"] crc32_residue [of "data @ [pkt_byte t]"]
  by (simp add: packet_bytes_def CRC16TEST_def CRC32TEST_def fcs16_def fcs32_def Let_def)

text \<open>What the receiver has stored of a packet, and that it decodes to the bytes of the packet.\<close>

definition stored_packet :: "byte \<Rightarrow> e_hydra_char \<Rightarrow> byte list \<Rightarrow> byte list" where
  "stored_packet behind format src =
     (case format of
        HCHR_HEXPKT \<Rightarrow> concat (map hex_stored src)
      | HCHR_ASCPKT \<Rightarrow> asc_bytes 0 0 src
      | HCHR_UUEPKT \<Rightarrow> hydra_putuueblock behind src
      | _ \<Rightarrow> src)"

lemma length_hex_list: "length (concat (map hex_stored src)) \<le> 3 * length src"
proof (induction src)
  case (Cons c src)
  then show ?case using length_hex_stored [of c] by simp
qed simp

lemma length_stored:
  assumes "length src \<le> HYDRA_MAXDATALEN"
  shows "length (stored_packet behind format src) \<le> HYDRA_BUFLEN"
  using assms length_hex_list [of src] length_asc [of 0 0 src]
  by (auto simp: stored_packet_def length_uue HYDRA_MAXDATALEN_def HYDRA_BUFLEN_def split: e_hydra_char.split)

lemma recv_encoded:
  assumes "hi_iencrcv hi" "hi_idlecnt hi = 0" "hi_ienc hi = []" "length src \<le> HYDRA_MAXDATALEN"
    "format = HCHR_BINPKT \<Longrightarrow> \<not> option_in HOPT_HIGHBIT (hi_rxoptions hi)" "format \<noteq> HCHR_PKTEND"
  shows "hydra_recv behind tm (fst (encode mem (hi_rxoptions hi) prev format src) @ rest) hi
    = hydra_recv behind tm rest (hi\<lparr>hi_ienc := stored_packet mem format src\<rparr>)"
proof -
  have r: "receiving_packet n hi" if "n \<le> HYDRA_BUFLEN" for n
    using that assms by (simp add: receiving_packet_def)
  have n: "length src \<le> HYDRA_BUFLEN" "3 * length src \<le> HYDRA_BUFLEN" "length (asc_bytes 0 0 src) \<le> HYDRA_BUFLEN"
    "length (hydra_putuueblock mem src) \<le> HYDRA_BUFLEN"
    using assms(4) length_stored [OF assms(4), of mem HCHR_ASCPKT] length_stored [OF assms(4), of mem HCHR_UUEPKT]
    by (simp_all add: stored_packet_def) (simp_all add: HYDRA_MAXDATALEN_def HYDRA_BUFLEN_def)
  show ?thesis
  proof (cases format)
    case HCHR_BINPKT
    then have "list_all (\<lambda>c. line_char (hi_rxoptions hi) c = c) src" using assms(5) by (simp add: line_char_def list_all_iff)
    from recv_bin [OF r [OF n(1)] this] show ?thesis using HCHR_BINPKT assms(3) by (simp add: encode_def stored_packet_def)
  next
    case HCHR_HEXPKT
    from recv_hex [OF r [OF n(2)]] show ?thesis using HCHR_HEXPKT assms(3) by (simp add: encode_def stored_packet_def)
  next
    case HCHR_ASCPKT
    from recv_bin [OF r [OF n(3)] asc_line] show ?thesis
      using HCHR_ASCPKT assms(3) by (simp add: encode_def stored_packet_def hydra_putascblock_def)
  next
    case HCHR_UUEPKT
    from recv_list [OF r [OF n(4)] uue_passes] show ?thesis using HCHR_UUEPKT assms(3) by (simp add: encode_def stored_packet_def)
  qed (use assms(6) in simp)
qed

lemma decode_stored:
  assumes "length src \<le> HYDRA_MAXDATALEN" "format = HCHR_UUEPKT \<Longrightarrow> length (hydra_putuueblock mem src) \<le> HYDRA_MAXDATALEN"
    "format \<noteq> HCHR_PKTEND"
  shows "decode behind format (stored_packet mem format src) = Some src"
proof (cases format)
  case HCHR_ASCPKT
  have "in_flight 0 0 0 0 []" by (simp add: in_flight_def)
  from get_asc_bytes [OF this] show ?thesis
    using HCHR_ASCPKT assms(1) by (simp add: decode_def stored_packet_def hydra_getascblock_def)
next
  case HCHR_UUEPKT
  let ?u = "hydra_putuueblock mem src"
  have "length ?u mod 4 \<noteq> 1" by (rule uue_size_mod)
  moreover have "(length ?u div 4) * 4 + length ?u mod 4 \<le> HYDRA_MAXDATALEN"
    using assms(2) [OF HCHR_UUEPKT] by (simp only: div_mult_mod_eq)
  ultimately have "hydra_getuueblock HYDRA_MAXDATALEN ?u = Some src"
    unfolding hydra_getuueblock_def get_uue_put by (simp only: if_False not_less [symmetric] simp_thms)
  then show ?thesis by (simp add: HCHR_UUEPKT decode_def stored_packet_def)
qed (use assms in \<open>simp_all add: decode_def stored_packet_def gethex_stored hydra_getbinblock_def\<close>)

lemma packet_end_stored:
  assumes "t \<in> set hpkts" "decode behind (hi_iencfmt hi) (hi_ienc hi) = Some (packet_bytes (hi_rxoptions hi) (hi_iencfmt hi) t data)"
  shows "case packet_end behind hi of (t', hi') \<Rightarrow> t' = t \<and> hi_isize hi' = int (length data) \<and> take (length data) (hi_ibuf hi') = data
    \<and> \<not> hi_iencrcv hi' \<and> hi_ienc hi' = [] \<and> hi_idlecnt hi' = hi_idlecnt hi"
proof -
  let ?d = "packet_bytes (hi_rxoptions hi) (hi_iencfmt hi) t data"
  have type: "?d ! length data = pkt_byte t" "take (length data) ?d = data" by (simp_all add: packet_bytes_def Let_def nth_append)
  have "length data < length ?d" by simp
  then have "(?d @ m) ! length data = pkt_byte t" for m by (simp only: nth_append type(1) if_True)
  then show ?thesis
    using assms(2) pkt_of_byte [OF assms(1)] packet_crc [of "hi_rxoptions hi" "hi_iencfmt hi" t data] type(2)
    by (simp add: packet_end_def Let_def)
qed

lemma recv_start:
  assumes "hi_idlecnt hi = 0" "format \<noteq> HCHR_PKTEND"
  shows "hydra_recv behind tm ([HYDRA_DLE, char_byte format] @ rest) hi
    = hydra_recv behind tm rest (hi\<lparr>hi_idlecnt := 0, hi_iencrcv := True, hi_ienc := [], hi_iencfmt := format\<rparr>)"
proof -
  have f: "char_byte format AND 0x7f = char_byte format" "\<not> char_byte format < 32" "char_byte format \<noteq> 127"
    "char_byte format \<noteq> HYDRA_DLE" "char_of_byte (char_byte format) = Some format"
    by (cases format; simp add: HYDRA_DLE_def char_of_byte_def)+
  have "recv_char behind (char_byte format) (hi\<lparr>hi_idlecnt := 1\<rparr>)
      = (None, hi\<lparr>hi_idlecnt := 0, hi_iencrcv := True, hi_ienc := [], hi_iencfmt := format\<rparr>)"
    using f printable_passes [OF f(2,3,1), of "hi_rxoptions hi"] assms(2)
    by (cases format) (simp_all add: recv_char_def passes_def line_char_def Let_def)
  then show ?thesis using recv_DLE [of hi behind] assms(1) by simp
qed

lemma recv_end:
  assumes "hi_idlecnt hi = 0" "hi_iencrcv hi"
  shows "hydra_recv behind tm ([HYDRA_DLE, char_byte HCHR_PKTEND] @ rest) hi
    = (case packet_end behind hi of (t, hi) \<Rightarrow> (t, hi, rest))"
proof -
  have "recv_char behind 97 (hi\<lparr>hi_idlecnt := 1\<rparr>) = (case packet_end behind (hi\<lparr>hi_idlecnt := 0\<rparr>) of (t, hi) \<Rightarrow> (Some t, hi))"
    using printable_passes [of 97 "hi_rxoptions hi"] assms(2)
    by (simp add: recv_char_def passes_def line_char_def char_of_byte_def Let_def)
  moreover have "hi\<lparr>hi_idlecnt := 0\<rparr> = hi" using assms(1) by simp
  ultimately show ?thesis using recv_DLE [of hi behind] assms(1) by (simp split: prod.split)
qed

text \<open>What follows the end of a packet on the line, to be skipped by the receiver.\<close>

definition line_end :: "u64 \<Rightarrow> e_hydra_pkttype \<Rightarrow> byte list" where
  "line_end options t = (if t \<noteq> HPKT_DATA \<and> packet_format options t \<noteq> HCHR_BINPKT then [0x0d, 0x0a] else [])"

lemma recv_packet:
  assumes "hi_idlecnt R = 0" "hi_rxoptions R = hi_txoptions S" "length data \<le> HYDRA_MAXBLKLEN + 4"
  shows "hydra_recv behind tm (fst (hydra_putpkt mem S data t) @ rest) R
    = (case packet_end behind (R\<lparr>hi_idlecnt := 0, hi_iencrcv := True, hi_iencfmt := packet_format (hi_txoptions S) t,
           hi_ienc := stored_packet mem (packet_format (hi_txoptions S) t) (packet_bytes (hi_txoptions S) (packet_format (hi_txoptions S) t) t data)\<rparr>)
       of (t', R') \<Rightarrow> (t', R', line_end (hi_txoptions S) t @ rest))"
proof -
  let ?o = "hi_txoptions S"
  let ?f = "packet_format ?o t"
  let ?p = "packet_bytes ?o ?f t data"
  let ?R = "R\<lparr>hi_idlecnt := 0, hi_iencrcv := True, hi_ienc := [], hi_iencfmt := ?f\<rparr>"
  let ?R' = "R\<lparr>hi_idlecnt := 0, hi_iencrcv := True, hi_iencfmt := ?f, hi_ienc := stored_packet mem ?f ?p\<rparr>"
  have len: "length ?p \<le> HYDRA_MAXDATALEN"
    using assms(3) by (auto simp: HYDRA_MAXBLKLEN_def HYDRA_MAXDATALEN_def)
  have f: "?f = HCHR_BINPKT \<Longrightarrow> \<not> option_in HOPT_HIGHBIT ?o" "?f \<noteq> HCHR_PKTEND"
    by (auto simp: packet_format_def split: if_splits)
  have enc: "hydra_recv behind tm (fst (encode mem ?o (hi_lastchar S) ?f ?p) @ more) ?R = hydra_recv behind tm more (?R\<lparr>hi_ienc := stored_packet mem ?f ?p\<rparr>)" for more
    using recv_encoded [of ?R ?p ?f behind tm mem "hi_lastchar S" more] len f assms(2) by simp
  have "fst (hydra_putpkt mem S data t) @ rest
      = [HYDRA_DLE, char_byte ?f] @ (fst (encode mem ?o (hi_lastchar S) ?f ?p) @ ([HYDRA_DLE, char_byte HCHR_PKTEND] @ (line_end ?o t @ rest)))"
    by (simp add: hydra_putpkt_def line_end_def Let_def split: prod.split)
  then have "hydra_recv behind tm (fst (hydra_putpkt mem S data t) @ rest) R
      = hydra_recv behind tm ([HYDRA_DLE, char_byte HCHR_PKTEND] @ (line_end ?o t @ rest)) (?R\<lparr>hi_ienc := stored_packet mem ?f ?p\<rparr>)"
    by (simp only: recv_start [OF assms(1) f(2)] enc)
  moreover have "?R\<lparr>hi_ienc := stored_packet mem ?f ?p\<rparr> = ?R'" by simp
  moreover have "hi_idlecnt ?R' = 0" "hi_iencrcv ?R'" by simp_all
  ultimately show ?thesis using recv_end by simp
qed

text \<open>
  C31: Packets on the line. Whatever options both sides have agreed on, and so whichever of the four
  encodings a packet takes and whichever characters the line would eat: the receiver, if it is not in
  the middle of an escape, gets a packet of the same type with the same data, takes its checksum for good,
  and leaves what follows on the line; whatever it had of a packet before is forgotten. The data has up to
  a block and its offset; in the encoding of six bits no more than 1540 bytes.
\<close>

theorem hydra_packet_roundtrip:
  assumes "hi_idlecnt R = 0" "hi_rxoptions R = hi_txoptions S" "t \<in> set hpkts"
    "length data \<le> (if packet_format (hi_txoptions S) t = HCHR_UUEPKT then 1540 else HYDRA_MAXBLKLEN + 4)"
  shows "case hydra_recv behind tm (fst (hydra_putpkt mem S data t) @ rest) R of (t', R', rest') \<Rightarrow>
    t' = t \<and> hi_isize R' = int (length data) \<and> take (length data) (hi_ibuf R') = data
    \<and> rest' = line_end (hi_txoptions S) t @ rest \<and> hi_idlecnt R' = 0 \<and> \<not> hi_iencrcv R'"
proof -
  let ?o = "hi_txoptions S"
  let ?f = "packet_format ?o t"
  let ?p = "packet_bytes ?o ?f t data"
  let ?R = "R\<lparr>hi_idlecnt := 0, hi_iencrcv := True, hi_iencfmt := ?f, hi_ienc := stored_packet mem ?f ?p\<rparr>"
  have len: "length data \<le> HYDRA_MAXBLKLEN + 4" using assms(4) by (simp add: HYDRA_MAXBLKLEN_def split: if_splits)
  then have "length ?p \<le> HYDRA_MAXDATALEN" by (auto simp: HYDRA_MAXBLKLEN_def HYDRA_MAXDATALEN_def)
  moreover have "length (hydra_putuueblock mem ?p) \<le> HYDRA_MAXDATALEN" if "?f = HCHR_UUEPKT"
  proof -
    have "length ?p \<le> 1545" using assms(4) that by simp
    then show ?thesis unfolding HYDRA_MAXDATALEN_def by - (rule uue_size [of ?p mem], auto simp del: length_packet_bytes)
  qed
  moreover have "?f \<noteq> HCHR_PKTEND" by (simp add: packet_format_def)
  ultimately have "decode behind ?f (stored_packet mem ?f ?p) = Some ?p" by (rule decode_stored)
  then have "decode behind (hi_iencfmt ?R) (hi_ienc ?R) = Some (packet_bytes (hi_rxoptions ?R) (hi_iencfmt ?R) t data)"
    using assms(2) by simp
  from packet_end_stored [OF assms(3) this] show ?thesis
    unfolding recv_packet [OF assms(1,2) len] by (cases "packet_end behind ?R") simp
qed

text \<open>
  Blocks the encoding of six bits cannot carry. The decoder compares the encoded size with the size
  of the buffer for the decoded bytes: a packet of 1546 to 2052 bytes of data, which the sender makes of
  a block of 2048 bytes, comes in undamaged and is refused, every time it is sent.
\<close>

theorem hydra_uue_blocks_refused:
  assumes "hi_idlecnt R = 0" "hi_rxoptions R = hi_txoptions S" "packet_format (hi_txoptions S) t = HCHR_UUEPKT"
    "1546 \<le> length data" "length data \<le> HYDRA_MAXBLKLEN + 4"
  shows "fst (hydra_recv behind tm (fst (hydra_putpkt mem S data t) @ rest) R) = HPKT_NONE"
proof -
  let ?p = "packet_bytes (hi_txoptions S) HCHR_UUEPKT t data"
  let ?u = "hydra_putuueblock mem ?p"
  have "1549 \<le> length ?p" using assms(4) by simp
  then have "HYDRA_MAXDATALEN < length ?u"
    unfolding HYDRA_MAXDATALEN_def by - (rule uue_size [of ?p mem], auto simp del: length_packet_bytes)
  then have "HYDRA_MAXDATALEN < (length ?u div 4) * 4 + length ?u mod 4" by (simp only: div_mult_mod_eq)
  then have "decode behind HCHR_UUEPKT ?u = None" by (simp add: decode_def hydra_getuueblock_def)
  then show ?thesis
    unfolding recv_packet [OF assms(1,2,5)] using assms(3) by (simp add: packet_end_def stored_packet_def Let_def)
qed

section \<open>Numbers\<close>

text \<open>
  A position in a packet has no sign. What one side writes as a position of 64 bits the other reads
  as its lower 32 bits: -1 and -2, by which a file is skipped or refused, are read as 4294967295 and
  4294967294, positions in the file, and no packet is ever read as a refusal.
\<close>

theorem hydra_long_unsigned:
  "hydra_getlong (hydra_putlong v @ rest) = v mod 2 ^ 32 \<and> 0 \<le> hydra_getlong (hydra_putlong v @ rest)"
proof -
  let ?v = "word_of_int v :: u64"
  have "ucast (ucast ?v :: byte) OR push_bit 8 (ucast (ucast (drop_bit 8 ?v) :: byte)) OR push_bit 16 (ucast (ucast (drop_bit 16 ?v) :: byte))
      OR push_bit 24 (ucast (ucast (drop_bit 24 ?v) :: byte)) = take_bit 32 ?v"
    by (rule bit_word_eqI) (auto simp: bit_simps)
  then have "hydra_getlong (hydra_putlong v @ rest) = sint (take_bit 32 ?v)"
    by (simp add: hydra_getlong_def hydra_putlong_def Let_def)
  also have "take_bit 32 ?v = word_of_int (take_bit 32 v)" by (rule bit_word_eqI) (auto simp: bit_simps)
  finally have "hydra_getlong (hydra_putlong v @ rest) = sint (word_of_int (take_bit 32 v) :: u64)" .
  moreover have "take_bit 32 v < 2 ^ 32" "0 \<le> take_bit 32 v" by (rule take_bit_int_less_exp, simp)
  then have "signed_take_bit 63 (take_bit 32 v) = take_bit 32 v" by (intro signed_take_bit_int_eq_self) (simp_all add: order_trans [OF _ take_bit_nonnegative])
  then have "sint (word_of_int (take_bit 32 v) :: u64) = take_bit 32 v" by (simp add: sint_sbintrunc')
  ultimately show ?thesis by (simp add: take_bit_eq_mod)
qed

section \<open>Examples\<close>

definition hydra_peer :: "u64 \<Rightarrow> s_hydrainfo" where
  "hydra_peer options = \<lparr>hi_oenc = [], hi_lastchar = -1, hi_ienc = [], hi_iencrcv = False, hi_iencfmt = HCHR_BINPKT, hi_idlecnt = 0,
     hi_ibuf = [], hi_isize = 0, hi_timeout_send = 30, hi_timeout_recv = 30, hi_timeout_dead = 120, hi_send_block_size = 1024,
     hi_send_good_blocks = 0, hi_recv_block_size = 1024, hi_txwindow = 0, hi_rxwindow = 0, hi_options = HYDRA_DEFOPT,
     hi_rxoptions = options, hi_txoptions = options, hi_recv_rpos_id = 100, hi_send_rpos_id = -1, hi_batchesdone = False,
     hi_pktqueue = []\<rparr>"

theorem hydra_packet_roundtrip_witness:
  "case hydra_recv (0, 0) True (fst (hydra_putpkt 0 (hydra_peer HYDRA_TXIOPT) [0x18, 0x11, 0xff] HPKT_DATA) @ [7]) (hydra_peer HYDRA_RXIOPT)
   of (t', R', rest') \<Rightarrow>
    t' = HPKT_DATA \<and> hi_isize R' = int (length [0x18 :: byte, 0x11, 0xff]) \<and> take (length [0x18 :: byte, 0x11, 0xff]) (hi_ibuf R') = [0x18, 0x11, 0xff]
    \<and> rest' = line_end (hi_txoptions (hydra_peer HYDRA_TXIOPT)) HPKT_DATA @ [7] \<and> hi_idlecnt R' = 0 \<and> \<not> hi_iencrcv R'"
  by (rule hydra_packet_roundtrip) (simp_all add: hydra_peer_def HYDRA_TXIOPT_def HYDRA_RXIOPT_def hpkts_def HYDRA_MAXBLKLEN_def)

theorem hydra_uue_blocks_refused_witness:
  "fst (hydra_recv (0, 0) True (fst (hydra_putpkt 0 (hydra_peer (HOPT_CTLCHRS OR HOPT_HIGHBIT OR HOPT_CANUUE)) (replicate 2052 0) HPKT_DATA) @ [])
      (hydra_peer (HOPT_CTLCHRS OR HOPT_HIGHBIT OR HOPT_CANUUE))) = HPKT_NONE"
  by (rule hydra_uue_blocks_refused)
    (simp_all add: hydra_peer_def packet_format_def option_in_def HOPT_CTLCHRS_def HOPT_HIGHBIT_def HOPT_CANUUE_def HYDRA_MAXBLKLEN_def)

end
