(* ===== verification/TransferFiles.thy ===== *)
theory TransferFiles
  imports ProtProps
begin

text \<open>
  What the operations on the files of a transfer (\<open>prot_common.c\<close>) do to the file being sent and the file being received:
  the facts the batches of Hydra and of Zmodem rest on.
\<close>

definition open_file :: "s_finfo option \<Rightarrow> bool" where
  "open_file f \<longleftrightarrow> (case f of None \<Rightarrow> False | Some fi \<Rightarrow> fi_fp fi \<noteq> None)"

lemma open_file_simps [simp]: "\<not> open_file None" "open_file (Some fi) \<longleftrightarrow> fi_fp fi \<noteq> None"
  by (simp_all add: open_file_def)

lemma sending_set_send:
  "protinfo_ok pi \<Longrightarrow> sending (set_send fi pi) = (if sending pi = None then None else Some fi)"
  by (auto simp: sending_def set_send_def protinfo_ok_def split: option.splits)

lemma receiving_set_recv:
  "protinfo_ok pi \<Longrightarrow> receiving (set_recv fi pi) = (if receiving pi = None then None else Some fi)"
  by (auto simp: receiving_def set_recv_def protinfo_ok_def split: option.splits)

lemma other_side [simp]: "receiving (set_send fi pi) = receiving pi" "sending (set_recv fi pi) = sending pi"
  by (simp_all add: receiving_def set_send_def sending_def set_recv_def split: option.split)

lemma sending_update [simp]:
  "sending (pi\<lparr>pi_filelist := x1\<rparr>) = sending pi" "sending (pi\<lparr>pi_traffic_rcvd := x2\<rparr>) = sending pi"
  "sending (pi\<lparr>pi_traffic_sent := x3\<rparr>) = sending pi" "sending (pi\<lparr>pi_send_freqtime := x4\<rparr>) = sending pi"
  "sending (pi\<lparr>pi_tx_cps := x5\<rparr>) = sending pi" "sending (pi\<lparr>pi_rx_cps := x6\<rparr>) = sending pi"
  "sending (pi\<lparr>pi_tx_low_cps_time := x7\<rparr>) = sending pi" "sending (pi\<lparr>pi_rx_low_cps_time := x8\<rparr>) = sending pi"
  "sending (pi\<lparr>pi_reqs_only := x9\<rparr>) = sending pi" "sending (pi\<lparr>pi_send := None\<rparr>) = None"
  by (simp_all add: sending_def)

lemma receiving_update [simp]:
  "receiving (pi\<lparr>pi_filelist := x1\<rparr>) = receiving pi" "receiving (pi\<lparr>pi_traffic_rcvd := x2\<rparr>) = receiving pi"
  "receiving (pi\<lparr>pi_traffic_sent := x3\<rparr>) = receiving pi" "receiving (pi\<lparr>pi_send_freqtime := x4\<rparr>) = receiving pi"
  "receiving (pi\<lparr>pi_tx_cps := x5\<rparr>) = receiving pi" "receiving (pi\<lparr>pi_rx_cps := x6\<rparr>) = receiving pi"
  "receiving (pi\<lparr>pi_tx_low_cps_time := x7\<rparr>) = receiving pi" "receiving (pi\<lparr>pi_rx_low_cps_time := x8\<rparr>) = receiving pi"
  "receiving (pi\<lparr>pi_reqs_only := x9\<rparr>) = receiving pi" "receiving (pi\<lparr>pi_send := x10\<rparr>) = receiving pi"
  "receiving (pi\<lparr>pi_send_left_num := x11\<rparr>) = receiving pi" "receiving (pi\<lparr>pi_send_left_size := x12\<rparr>) = receiving pi"
  "receiving (pi\<lparr>pi_sentfiles := x13\<rparr>) = receiving pi"
  by (simp_all add: receiving_def)

lemma fclose_receiving: "receiving (fst (snd (p_tx_fclose cf g pi w))) = receiving pi"
  by (simp add: p_tx_fclose_def Let_def split: option.split)

lemma mark_sending_receiving: "mark_sending nf g pi = (g', pi') \<Longrightarrow> receiving pi' = receiving pi"
  by (auto simp: mark_sending_def split: next_file.splits)

lemma tx_open_files:
  "tx_open_next cf g pi w = (rc, g', pi', w') \<Longrightarrow> receiving pi' = receiving pi \<and> (rc = 0 \<longrightarrow> open_file (sending pi'))"
proof (induction cf g pi w arbitrary: rc g' pi' w' rule: tx_open_next.induct)
  case (1 cf g pi w)
  let ?nf = "prot_get_next_file (fslist (ses_queue g)) pi"
  let ?f = "next_entry ?nf g pi"
  obtain g1 pi1 where m: "mark_sending ?nf g pi = (g1, pi1)" by fastforce
  have r: "receiving (count_left ?f pi1) = receiving pi" using mark_sending_receiving [OF m] by (simp add: count_left_def)
  show ?case
  proof (cases "?nf = No_file")
    case True
    then show ?thesis using 1(3) by (subst (asm) tx_open_next.simps) (simp add: Let_def)
  next
    case False
    show ?thesis
    proof (cases "stat (fl_fname ?f) w")
      case None
      have "tx_open_next cf g1 (count_left ?f pi1) w = (rc, g', pi', w')"
        using 1(3) False None m by (subst (asm) tx_open_next.simps) (simp add: Let_def)
      then show ?thesis using 1(1) False m None r by fastforce
    next
      case (Some st)
      obtain fp w1 where f: "file_open (fl_fname ?f) Mode_r w = (fp, w1)" by fastforce
      show ?thesis
      proof (cases fp)
        case None
        have "tx_open_next cf g1 (count_left ?f pi1) w1 = (rc, g', pi', w')"
          using 1(3) False Some m f None by (subst (asm) tx_open_next.simps) (simp add: Let_def)
        then show ?thesis using 1(2) False m Some f None r by fastforce
      next
        case (Some fp1)
        obtain fi g2 w2 where e: "tx_entry cf ?f st fp1 g1 w1 = (fi, g2, w2)" by (metis prod_cases3)
        then have "fi_fp fi = Some fp1" by (auto simp: tx_entry_def Let_def split: prod.splits)
        moreover have "pi' = (count_left ?f pi1)\<lparr>pi_tx_low_cps_time := 0, pi_send := Some (length (pi_sentfiles (count_left ?f pi1))),
            pi_sentfiles := pi_sentfiles (count_left ?f pi1) @ [fi]\<rparr>"
          using 1(3) False \<open>stat (fl_fname ?f) w = Some st\<close> m f Some e by (subst (asm) tx_open_next.simps) (simp add: Let_def)
        ultimately show ?thesis using r by (simp add: sending_def)
      qed
    qed
  qed
qed

lemma tx_fopen_files:
  "p_tx_fopen cf None g pi w = (rc, g', pi', w') \<Longrightarrow> receiving pi' = receiving pi \<and> (rc = 0 \<longrightarrow> open_file (sending pi'))"
  using tx_open_files [of cf g pi w rc g' pi' w'] by (auto simp: p_tx_fopen_def split: if_splits)

lemma fread_length: "fread n fp w = (d, fp', w') \<Longrightarrow> length d \<le> n"
  by (auto simp: fread_def Let_def split: prod.splits if_splits)

lemma tx_readfile_files:
  assumes "protinfo_ok pi" "open_file (sending pi)"
  obtains rc d pi' w' where "p_tx_readfile n pi w = Some (rc, d, pi', w')" "length d \<le> n" "open_file (sending pi')"
    "receiving pi' = receiving pi" "protinfo_ok pi'"
proof -
  obtain fi fp where f: "sending pi = Some fi" "fi_fp fi = Some fp" using assms(2) by (cases "sending pi") auto
  then have "p_tx_readfile n pi w \<noteq> None" by (simp add: p_tx_readfile_def)
  then obtain x where "p_tx_readfile n pi w = Some x" by blast
  moreover obtain rc d pi' w' where "x = (rc, d, pi', w')" by (metis prod_cases4)
  ultimately have r: "p_tx_readfile n pi w = Some (rc, d, pi', w')" by simp
  have "protinfo_ok pi'" using p_tx_read_ok [OF assms(1) r] .
  moreover have "length d \<le> n \<and> open_file (sending pi') \<and> receiving pi' = receiving pi"
    using r f assms(1) by (auto simp: p_tx_readfile_def Let_def sending_set_send fread_length split: prod.splits if_splits)
  ultimately show thesis using that r by blast
qed

lemma rx_writefile_files:
  assumes "protinfo_ok pi" "open_file (receiving pi)"
  obtains rc pi' w' where "p_rx_writefile d pi w = Some (rc, pi', w')" "rc = 0 \<or> rc = -1 \<or> rc = -2" "open_file (receiving pi')"
    "sending pi' = sending pi" "protinfo_ok pi'"
proof -
  obtain fi fp where f: "receiving pi = Some fi" "fi_fp fi = Some fp" using assms(2) by (cases "receiving pi") auto
  then have "p_rx_writefile d pi w \<noteq> None" by (simp add: p_rx_writefile_def)
  then obtain x where "p_rx_writefile d pi w = Some x" by blast
  moreover obtain rc pi' w' where "x = (rc, pi', w')" by (metis prod_cases3)
  ultimately have r: "p_rx_writefile d pi w = Some (rc, pi', w')" by simp
  have "protinfo_ok pi'" using p_rx_write_ok [OF assms(1) r] .
  moreover have "(rc = 0 \<or> rc = -1 \<or> rc = -2) \<and> open_file (receiving pi') \<and> sending pi' = sending pi"
    using r f assms(1) by (auto simp: p_rx_writefile_def Let_def receiving_set_recv split: prod.splits if_splits)
  ultimately show thesis using that r by blast
qed

lemma rx_fclose_files:
  assumes "protinfo_ok pi" "receiving pi \<noteq> None"
  obtains rc pi' w' where "p_rx_fclose cf req g pi w = Some (rc, pi', w')" "receiving pi' \<noteq> None" "sending pi' = sending pi" "protinfo_ok pi'"
proof -
  obtain fi where f: "receiving pi = Some fi" using assms(2) by auto
  then have "p_rx_fclose cf req g pi w \<noteq> None" by (simp add: p_rx_fclose_def)
  then obtain x where "p_rx_fclose cf req g pi w = Some x" by blast
  moreover obtain rc pi' w' where "x = (rc, pi', w')" by (metis prod_cases3)
  ultimately have r: "p_rx_fclose cf req g pi w = Some (rc, pi', w')" by simp
  have "protinfo_ok pi'" using p_rx_fclose_ok [OF assms(1) r] .
  moreover have "receiving pi' \<noteq> None \<and> sending pi' = sending pi"
    using r f assms(1) by (auto simp: p_rx_fclose_def Let_def receiving_set_recv split: prod.splits if_splits)
  ultimately show thesis using that r by blast
qed

lemma rx_open_result: "rx_open cf g a fi w = (rc, fi', w') \<Longrightarrow> (rc = 0 \<and> fi_fp fi' \<noteq> None) \<or> rc = 1"
  by (auto simp: rx_open_def Let_def split: if_splits option.splits prod.splits)

lemma rx_temporary_result: "rx_temporary cf g fi w = (rc, fi', w') \<Longrightarrow> (rc = 0 \<and> fi_fp fi' \<noteq> None) \<or> rc = 1 \<or> rc = 2"
  using rx_open_result by (fastforce simp: rx_temporary_def split: option.splits if_splits prod.splits)

lemma rx_check_result: "rx_check cf g fi w = (rc, fi', w') \<Longrightarrow> (rc = 0 \<and> fi_fp fi' \<noteq> None) \<or> rc = 1 \<or> rc = 2"
  using rx_open_result [of cf g False _ w rc fi' w'] rx_temporary_result [of cf g _ w rc fi' w']
  by (auto simp: rx_check_def Let_def split: option.splits if_splits)

lemma rx_fopen_files:
  assumes "protinfo_ok pi" "p_rx_fopen cf fn sz tm md g pi w = (rc, g', pi', w')"
  shows "protinfo_ok pi' \<and> sending pi' = sending pi \<and> (rc = 0 \<and> open_file (receiving pi') \<or> rc = 1 \<or> rc = 2)"
proof -
  have ok: "protinfo_ok pi'" using p_rx_fopen_ok [OF assms(1), of cf fn sz tm md g w] assms(2) by simp
  show ?thesis
  proof (cases "rx_repeated pi fn sz tm")
    case (Some r)
    then have "pi' = pi" "rc = r" using assms(2) by (simp_all add: p_rx_fopen_def)
    moreover have "r = 0 \<and> open_file (receiving pi) \<or> r = 1 \<or> r = 2"
      using Some by (auto simp: rx_repeated_def split: option.splits if_splits)
    ultimately show ?thesis using ok by blast
  next
    case None
    obtain fi g1 w1 where e: "rx_entry cf fn sz tm md g w = (fi, g1, w1)" by (metis prod_cases3)
    obtain rc2 fi2 w2 where c: "rx_check cf g1 fi w1 = (rc2, fi2, w2)" by (metis prod_cases3)
    have "rc = rc2" "pi' = pi\<lparr>pi_rx_low_cps_time := 0, pi_recv := Some (length (pi_rcvdfiles pi)), pi_rcvdfiles := pi_rcvdfiles pi @ [fi2]\<rparr>"
      using assms(2) None e c by (simp_all add: p_rx_fopen_def)
    then show ?thesis using rx_check_result [OF c] ok by (auto simp: receiving_def sending_def)
  qed
qed

lemma p_info_files: "p_info pi bidir w = (rc, pi') \<Longrightarrow> protinfo_ok pi \<Longrightarrow> protinfo_ok pi' \<and> sending pi' = sending pi \<and> receiving pi' = receiving pi"
  using p_info_ok [of pi bidir w]
  by (auto simp: p_info_def Let_def split: option.splits prod.splits if_splits)

end
