(* ===== verification/HydraProps.thy ===== *)
theory HydraProps
  imports Hydra HydraPktProps TransferFiles
begin

text \<open>
  What a batch of Hydra keeps, whatever comes in: the buffers hold what is put into them, no assertion fails and no
  missing file is used.
\<close>

section \<open>The size of packets\<close>

lemma length_putbin: "length (fst (put_bin options prev src)) \<le> 2 * length src"
proof (induction src arbitrary: prev)
  case (Cons c src)
  obtain d p where d: "hydra_putbinbyte options prev c = (d, p)" by fastforce
  then have "length d \<le> 2" by (auto simp: hydra_putbinbyte_def Let_def split: if_splits)
  moreover obtain ds q where q: "put_bin options p src = (ds, q)" by fastforce
  ultimately show ?case using Cons [of p] d by simp
qed simp

lemma asc_size: "bitshift \<le> 6 \<Longrightarrow> 7 * length (asc_bytes ch bitshift src) \<le> 8 * length src + bitshift + 6"
proof (induction src arbitrary: ch bitshift)
  case (Cons b src)
  show ?case
  proof (cases "bitshift = 6")
    case True
    then show ?thesis using Cons.IH [of 0 0] by (simp add: Let_def)
  next
    case False
    with Cons.prems have "bitshift + 1 \<le> 6" by simp
    from Cons.IH [OF this] False Cons.prems show ?thesis by (auto simp: Let_def)
  qed
qed simp

lemma length_hexbytes: "length (concat (map hydra_puthexbyte src)) \<le> 3 * length src"
proof (induction src)
  case (Cons c src)
  have "length (hydra_puthexbyte c) \<le> 3" by (simp add: hydra_puthexbyte_def)
  with Cons show ?case by simp
qed simp

lemma encode_size: "length (fst (encode behind options prev format src)) \<le> max (3 * length src) (2 * ((8 * length src + 6) div 7))"
proof -
  have "length (fst (put_bin options prev (asc_bytes 0 0 src))) \<le> 2 * length (asc_bytes 0 0 src)" by (rule length_putbin)
  moreover have "7 * length (asc_bytes 0 0 src) \<le> 8 * length src + 6" using asc_size [of 0 0 src] by simp
  then have "length (asc_bytes 0 0 src) \<le> (8 * length src + 6) div 7" by simp
  moreover have "length (hydra_putuueblock behind src) \<le> 3 * length src"
    by (rule uue_size [of src behind]) (auto split: if_splits)
  ultimately show ?thesis
    using length_putbin [of options prev src] length_hexbytes [of src]
    by (cases format) (auto simp: encode_def hydra_putascblock_def max_def)
qed

lemma encode_hex: "length (fst (encode behind options prev HCHR_HEXPKT src)) \<le> 3 * length src"
  using length_hexbytes by (simp add: encode_def)

lemma putpkt_size:
  "length (fst (hydra_putpkt mem hi data t)) \<le> 6 +
     (let n = length (packet_bytes (hi_txoptions hi) (packet_format (hi_txoptions hi) t) t data) in
      if packet_format (hi_txoptions hi) t = HCHR_HEXPKT then 3 * n else max (3 * n) (2 * ((8 * n + 6) div 7)))"
  using encode_size [of mem "hi_txoptions hi" "hi_lastchar hi" "packet_format (hi_txoptions hi) t"
      "packet_bytes (hi_txoptions hi) (packet_format (hi_txoptions hi) t) t data"]
    encode_hex [of mem "hi_txoptions hi" "hi_lastchar hi" "packet_bytes (hi_txoptions hi) (packet_format (hi_txoptions hi) t) t data"]
  by (auto simp: hydra_putpkt_def Let_def split: prod.split)

lemma crc_size: "(c \<longrightarrow> \<not> h) \<Longrightarrow> d \<le> n \<Longrightarrow> 3 \<le> d + (if c then 5 else 3) \<and> d + (if c then 5 else 3) \<le> (n::nat) + (if h then 3 else 5)"
  by (cases c; cases h) simp_all

lemma crc_size_total: "k \<le> n + (if h then 3 else 5) \<Longrightarrow> 6 + 3 * k \<le> 21 + 3 * (n :: nat)"
  by (cases h) simp_all

lemma asc_less: "3 \<le> k \<Longrightarrow> 2 * ((8 * k + 6) div 7) \<le> 3 * (k::nat)"
  using times_div_less_eq_dividend [of 7 "8 * k + 6"] by linarith

lemma putpkt_bound:
  assumes "length data \<le> n"
  shows "length (fst (hydra_putpkt mem hi data t)) \<le> 21 + 3 * n"
proof -
  let ?f = "packet_format (hi_txoptions hi) t"
  let ?k = "length (packet_bytes (hi_txoptions hi) ?f t data)"
  have hex: "with_crc32 (hi_txoptions hi) ?f \<longrightarrow> ?f \<noteq> HCHR_HEXPKT" unfolding with_crc32_def by blast
  have len: "?k = length data + (if with_crc32 (hi_txoptions hi) ?f then 5 else 3)" by (rule length_packet_bytes)
  have k: "3 \<le> ?k" "?k \<le> n + (if ?f = HCHR_HEXPKT then 3 else 5)"
    unfolding len using crc_size [OF hex assms] by blast+
  have "2 * ((8 * ?k + 6) div 7) \<le> 3 * ?k" by (rule asc_less [OF k(1)])
  then have "max (3 * ?k) (2 * ((8 * ?k + 6) div 7)) = 3 * ?k" by (rule max_absorb1)
  then have "length (fst (hydra_putpkt mem hi data t)) \<le> 6 + 3 * ?k"
    using putpkt_size [of mem hi data t] by (simp only: Let_def if_cancel)
  also have "6 + 3 * ?k \<le> 21 + 3 * n" by (rule crc_size_total [OF k(2)])
  finally show ?thesis .
qed

lemma queuepkt_some:
  assumes "length data \<le> HYDRA_MAXBLKLEN"
  obtains d prev where "hydra_queuepkt mem data t hi =
    Some (hi\<lparr>hi_lastchar := prev, hi_pktqueue := hi_pktqueue hi @ [\<lparr>hp_sent = False, hp_type = t, hp_data = d\<rparr>]\<rparr>)"
proof -
  have n: "length (fst (hydra_putpkt mem hi data t)) \<le> 21 + 3 * length data" by (rule putpkt_bound) simp
  obtain d prev where p: "hydra_putpkt mem hi data t = (d, hi\<lparr>hi_lastchar := prev\<rparr>)"
    by (cases "encode mem (hi_txoptions hi) (hi_lastchar hi) (packet_format (hi_txoptions hi) t)
        (packet_bytes (hi_txoptions hi) (packet_format (hi_txoptions hi) t) t data)") (simp add: hydra_putpkt_def Let_def)
  have "length d \<le> (if data \<noteq> [] then HYDRA_BUFLEN else HYDRA_OVERHEAD * 3)"
    using n assms unfolding p fst_conv by (cases "data = []") (simp_all add: HYDRA_BUFLEN_def HYDRA_OVERHEAD_def HYDRA_MAXBLKLEN_def)
  then show thesis using assms p that [of d prev] by (simp add: hydra_queuepkt_def)
qed

lemma block_fits: "length data \<le> HYDRA_MAXBLKLEN + 4 \<Longrightarrow> length (fst (hydra_putpkt mem hi data t)) \<le> HYDRA_BUFLEN"
  using putpkt_bound [of data "HYDRA_MAXBLKLEN + 4" mem hi t] by (simp add: HYDRA_MAXBLKLEN_def HYDRA_BUFLEN_def)

section \<open>What a batch keeps\<close>

definition hi_ok :: "s_hydrainfo \<Rightarrow> bool" where
  "hi_ok hi \<longleftrightarrow> hi_send_block_size hi \<in> {64, 128, 256, 512, 1024, 2048} \<and> length (hi_oenc hi) \<le> HYDRA_BUFLEN
     \<and> length (hi_ienc hi) \<le> HYDRA_BUFLEN \<and> length (hi_ibuf hi) = HYDRA_MAXDATALEN"

definition needs_send :: "bool \<Rightarrow> e_hydra_txstate \<Rightarrow> bool" where
  "needs_send eob t \<longleftrightarrow> t \<in> {HTX_DATA, HTX_DATAACK, HTX_XWAIT, HTX_EOF, HTX_EOFACK} \<or> \<not> eob \<and> t \<in> {HTX_FINFO, HTX_FINFOACK}"

definition needs_recv :: "e_hydra_rxstate \<Rightarrow> bool" where
  "needs_recv r \<longleftrightarrow> r \<in> {HRX_DATA, HRX_RPOS, HRX_RPosAck}"

definition skipping :: "e_hydra_rxstate \<Rightarrow> bool" where
  "skipping r \<longleftrightarrow> r \<in> {HRX_Skip, HRX_SkipAck}"

definition files_ok :: "bool \<Rightarrow> e_hydra_txstate \<Rightarrow> e_hydra_rxstate \<Rightarrow> s_protinfo \<Rightarrow> bool" where
  "files_ok eob t r pi \<longleftrightarrow> protinfo_ok pi \<and> (needs_send eob t \<longrightarrow> open_file (sending pi))
     \<and> (needs_recv r \<longrightarrow> open_file (receiving pi)) \<and> (skipping r \<longrightarrow> receiving pi \<noteq> None)"

definition batch_ok :: "s_hydra_batch \<Rightarrow> bool" where
  "batch_ok s \<longleftrightarrow> hi_ok (hb_hi s) \<and> files_ok (hb_send_EOB s) (hb_txstate s) (hb_rxstate s) (hb_pi s)"

definition safe :: "s_hydra_batch turn \<Rightarrow> bool" where
  "safe t \<longleftrightarrow> (case t of Continue s \<Rightarrow> batch_ok s | Return _ s \<Rightarrow> batch_ok s | Undefined \<Rightarrow> False)"

lemma safe_simps [simp]: "safe (Continue s) = batch_ok s" "safe (Return rc s) = batch_ok s" "\<not> safe Undefined"
  by (simp_all add: safe_def)

lemma safe_then: "safe t \<Longrightarrow> (\<And>s. batch_ok s \<Longrightarrow> safe (f s)) \<Longrightarrow> safe (step_then t f)"
  by (cases t) (simp_all add: step_then_def)

lemma batch_ok_update [simp]:
  "batch_ok (s\<lparr>hb_w := w\<rparr>) = batch_ok s" "batch_ok (s\<lparr>hb_g := g\<rparr>) = batch_ok s" "batch_ok (s\<lparr>hb_line := l\<rparr>) = batch_ok s"
  "batch_ok (s\<lparr>hb_txtries := n\<rparr>) = batch_ok s" "batch_ok (s\<lparr>hb_rxtries := n\<rparr>) = batch_ok s"
  "batch_ok (s\<lparr>hb_txlastack := k\<rparr>) = batch_ok s" "batch_ok (s\<lparr>hb_rxlastack := k\<rparr>) = batch_ok s"
  "batch_ok (s\<lparr>hb_idletimer := k\<rparr>) = batch_ok s" "batch_ok (s\<lparr>hb_sendtimer := k\<rparr>) = batch_ok s"
  "batch_ok (s\<lparr>hb_recvtimer := k\<rparr>) = batch_ok s" "batch_ok (s\<lparr>hb_deadtimer := k\<rparr>) = batch_ok s"
  "batch_ok (s\<lparr>hb_last_datapos := k\<rparr>) = batch_ok s"
  by (simp_all add: batch_ok_def)

lemma hi_ok_update [simp]:
  "hi_ok (hi\<lparr>hi_lastchar := k\<rparr>) = hi_ok hi" "hi_ok (hi\<lparr>hi_pktqueue := q\<rparr>) = hi_ok hi" "hi_ok (hi\<lparr>hi_recv_block_size := k\<rparr>) = hi_ok hi"
  "hi_ok (hi\<lparr>hi_send_good_blocks := k\<rparr>) = hi_ok hi" "hi_ok (hi\<lparr>hi_recv_rpos_id := k\<rparr>) = hi_ok hi"
  "hi_ok (hi\<lparr>hi_send_rpos_id := k\<rparr>) = hi_ok hi" "hi_ok (hi\<lparr>hi_rxoptions := o1\<rparr>) = hi_ok hi"
  "hi_ok (hi\<lparr>hi_txoptions := o1\<rparr>) = hi_ok hi" "hi_ok (hi\<lparr>hi_batchesdone := b\<rparr>) = hi_ok hi"
  "hi_ok (hi\<lparr>hi_txwindow := o1\<rparr>) = hi_ok hi" "hi_ok (hi\<lparr>hi_rxwindow := o1\<rparr>) = hi_ok hi"
  "hi_ok (hi\<lparr>hi_idlecnt := n\<rparr>) = hi_ok hi" "hi_ok (hi\<lparr>hi_iencrcv := b\<rparr>) = hi_ok hi" "hi_ok (hi\<lparr>hi_iencfmt := f\<rparr>) = hi_ok hi"
  "hi_ok (hi\<lparr>hi_isize := k\<rparr>) = hi_ok hi"
  by (simp_all add: hi_ok_def)

lemma batch_ok_hi: "batch_ok s \<Longrightarrow> hi_ok hi \<Longrightarrow> batch_ok (s\<lparr>hb_hi := hi\<rparr>)"
  by (simp add: batch_ok_def)

lemma batch_okD: "batch_ok s \<Longrightarrow> hi_ok (hb_hi s)" "batch_ok s \<Longrightarrow> protinfo_ok (hb_pi s)"
  by (simp_all add: batch_ok_def files_ok_def)

text \<open>A state that needs no file may always be entered.\<close>

lemma batch_ok_tx: "batch_ok s \<Longrightarrow> \<not> needs_send (hb_send_EOB s) t \<Longrightarrow> batch_ok (s\<lparr>hb_txstate := t\<rparr>)"
  by (simp add: batch_ok_def files_ok_def)

lemma batch_ok_tx_same: "batch_ok s \<Longrightarrow> needs_send (hb_send_EOB s) (hb_txstate s) \<Longrightarrow> batch_ok (s\<lparr>hb_txstate := t\<rparr>)"
  by (simp add: batch_ok_def files_ok_def)

lemma batch_ok_rx: "batch_ok s \<Longrightarrow> \<not> needs_recv r \<Longrightarrow> \<not> skipping r \<Longrightarrow> batch_ok (s\<lparr>hb_rxstate := r\<rparr>)"
  by (simp add: batch_ok_def files_ok_def)

lemma batch_ok_rx_same: "batch_ok s \<Longrightarrow> needs_recv (hb_rxstate s) \<Longrightarrow> needs_recv r \<Longrightarrow> batch_ok (s\<lparr>hb_rxstate := r\<rparr>)"
  by (auto simp: batch_ok_def files_ok_def needs_recv_def skipping_def)

lemma safe_queue:
  assumes "batch_ok s" "length d \<le> HYDRA_MAXBLKLEN"
  shows "safe (queue_packet mem d t s)"
proof -
  obtain d' prev where "hydra_queuepkt mem d t (hb_hi s) =
    Some ((hb_hi s)\<lparr>hi_lastchar := prev, hi_pktqueue := hi_pktqueue (hb_hi s) @ [\<lparr>hp_sent = False, hp_type = t, hp_data = d'\<rparr>]\<rparr>)"
    by (rule queuepkt_some [OF assms(2)])
  then show ?thesis using assms(1) by (simp add: queue_packet_def batch_ok_hi batch_okD)
qed

text \<open>Queueing a packet changes only the queue and the last character, so what follows sees the same files.\<close>

lemma queue_then:
  assumes "batch_ok s" "length d \<le> HYDRA_MAXBLKLEN"
    "\<And>hi. hi_ok hi \<Longrightarrow> safe (f (s\<lparr>hb_hi := hi\<rparr>))"
  shows "safe (step_then (queue_packet mem d t s) f)"
proof -
  obtain d' prev where "hydra_queuepkt mem d t (hb_hi s) =
    Some ((hb_hi s)\<lparr>hi_lastchar := prev, hi_pktqueue := hi_pktqueue (hb_hi s) @ [\<lparr>hp_sent = False, hp_type = t, hp_data = d'\<rparr>]\<rparr>)"
    by (rule queuepkt_some [OF assms(2)])
  then show ?thesis using assms(1,3) by (simp add: queue_packet_def step_then_def batch_okD)
qed

lemma length_putlong [simp]: "length (hydra_putlong v) = 4" by (simp add: hydra_putlong_def Let_def)
lemma length_putword [simp]: "length (hydra_putword v) = 2" by (simp add: hydra_putword_def Let_def)
lemma length_bytes_of [simp]: "length (bytes s) = length s" by (simp add: bytes_def)

lemma align_sizes: "hydra_align_block_size n \<in> {64, 128, 256, 512, 1024, 2048}"
  by (simp add: hydra_align_block_size_def)

lemma smaller_blocks_ok [simp]: "hi_ok (smaller_blocks hi) = hi_ok hi" "hi_ok (new_rpos_id hi) = hi_ok hi"
  by (simp_all add: smaller_blocks_def new_rpos_id_def)

lemma ask_again_ok: "batch_ok s \<Longrightarrow> hb_rxstate s = HRX_DATA \<Longrightarrow> batch_ok (ask_again s)"
  by (simp add: ask_again_def batch_ok_def files_ok_def needs_recv_def skipping_def)

lemma timers_safe: "batch_ok s \<Longrightarrow> safe (hydra_timers s)"
proof -
  assume ok: "batch_ok s"
  let ?s = "s\<lparr>hb_sendtimer := 0, hb_txstate := send_expired (hb_txstate s)\<rparr>"
  have "needs_send e (send_expired t) = needs_send e t" for e t by (cases t) (simp_all add: needs_send_def)
  then have tx: "batch_ok ?s" using ok by (simp add: batch_ok_def files_ok_def)
  have rx: "batch_ok (recv_expired s)" if "batch_ok s" for s
    using that by (cases "hb_rxstate s") (simp_all add: recv_expired_def batch_ok_def files_ok_def needs_recv_def skipping_def)
  have "batch_ok (if expired s (hb_sendtimer s) then ?s else s)" using ok tx by simp
  then show ?thesis using ok rx by (simp add: hydra_timers_def Let_def)
qed

subsection \<open>The sender\<close>

lemma next_try_safe: "batch_ok s \<Longrightarrow> (\<And>n k. safe (f (s\<lparr>hb_txtries := n, hb_sendtimer := k\<rparr>))) \<Longrightarrow> safe (next_try f s)"
  by (simp add: next_try_def Let_def)

lemma to_tx_safe: "batch_ok s \<Longrightarrow> \<not> needs_send (hb_send_EOB s) t \<Longrightarrow> hi_ok hi \<Longrightarrow> safe (to_tx t (s\<lparr>hb_hi := hi\<rparr>))"
  by (simp add: to_tx_def batch_ok_tx batch_ok_hi)

lemma to_tx_same: "batch_ok s \<Longrightarrow> needs_send (hb_send_EOB s) (hb_txstate s) \<Longrightarrow> hi_ok hi \<Longrightarrow> safe (to_tx t (s\<lparr>hb_hi := hi\<rparr>))"
  by (simp add: to_tx_def batch_ok_tx_same batch_ok_hi)

lemma tx_start_safe: "batch_ok s \<Longrightarrow> safe (tx_start mem s)"
  by (simp add: tx_start_def next_try_safe queue_then to_tx_safe needs_send_def)

lemma tx_end_safe: "batch_ok s \<Longrightarrow> safe (tx_end mem s)"
  by (simp add: tx_end_def next_try_safe queue_then to_tx_safe needs_send_def)

lemma hex8_length: "length (hex8 v) \<le> 16"
proof -
  have "unat (word_of_int v :: u64) < 16 ^ 16" using unsigned_less [of "word_of_int v :: u64"] by simp
  then have "length (hex (unat (word_of_int v :: u64))) \<le> 16" by (intro radix_length) simp_all
  then show ?thesis by (simp add: hex8_def pad0_def)
qed

lemma flags_length: "length (hydra_putflags HYDRA_CANOPT) \<le> 43" "length (hydra_putflags HYDRA_DEFOPT) \<le> 43"
  by (simp_all add: hydra_putflags_def hydraflags_def option_in_def HYDRA_CANOPT_def HYDRA_DEFOPT_def
      HOPT_XONXOFF_def HOPT_TELENET_def HOPT_CTLCHRS_def HOPT_HIGHCTL_def HOPT_HIGHBIT_def HOPT_CANBRK_def HOPT_CANASC_def
      HOPT_CANUUE_def HOPT_CRC32_def HOPT_DEVICE_def HOPT_FPT_def)

lemma init_data_length: "length version \<le> 1024 \<Longrightarrow> length (init_data version) \<le> HYDRA_MAXBLKLEN"
  using flags_length hex8_length [of 0] by (simp add: init_data_def HYDRA_MAXBLKLEN_def)

lemma tx_init_safe: "batch_ok s \<Longrightarrow> length version \<le> 1024 \<Longrightarrow> safe (tx_init version mem s)"
  by (simp add: tx_init_def next_try_safe queue_then to_tx_safe needs_send_def init_data_length)

lemma finfo_data_length: "length (finfo_data fi) \<le> HYDRA_MAXBLKLEN"
  using hex8_length [of "fi_mod_time fi"] hex8_length [of "uint (fi_total fi)"] hex8_length [of 0]
  by (auto simp: finfo_data_def Let_def HYDRA_MAXBLKLEN_def min_def)

lemma needs_send_simps [simp]:
  "needs_send e HTX_DATA" "needs_send e HTX_DATAACK" "needs_send e HTX_XWAIT" "needs_send e HTX_EOF" "needs_send e HTX_EOFACK"
  "needs_send e HTX_FINFO \<longleftrightarrow> \<not> e" "needs_send e HTX_FINFOACK \<longleftrightarrow> \<not> e"
  "\<not> needs_send e HTX_NextFile" "\<not> needs_send e HTX_DONE" "\<not> needs_send e HTX_START" "\<not> needs_send e HTX_INIT"
  "\<not> needs_send e HTX_RINIT" "\<not> needs_send e HTX_REND" "\<not> needs_send e HTX_END"
  by (simp_all add: needs_send_def)

lemma batch_files: "batch_ok s \<Longrightarrow> needs_send (hb_send_EOB s) (hb_txstate s) \<Longrightarrow> open_file (sending (hb_pi s))"
  "batch_ok s \<Longrightarrow> needs_recv (hb_rxstate s) \<Longrightarrow> open_file (receiving (hb_pi s))"
  "batch_ok s \<Longrightarrow> skipping (hb_rxstate s) \<Longrightarrow> receiving (hb_pi s) \<noteq> None"
  by (simp_all add: batch_ok_def files_ok_def)

lemma with_send_safe:
  "batch_ok s \<Longrightarrow> needs_send (hb_send_EOB s) (hb_txstate s) \<Longrightarrow>
    (\<And>fi fp. sending (hb_pi s) = Some fi \<Longrightarrow> fi_fp fi = Some fp \<Longrightarrow> safe (f fi)) \<Longrightarrow> safe (with_send f s)"
  using batch_files(1) [of s] by (cases "sending (hb_pi s)") (auto simp: with_send_def)

lemma tx_finfo_safe:
  assumes "batch_ok s" "hb_txstate s = HTX_FINFO"
  shows "safe (tx_finfo mem s)"
  unfolding tx_finfo_def
proof (rule next_try_safe [OF assms(1)])
  fix n k
  let ?s = "s\<lparr>hb_txtries := n, hb_sendtimer := k\<rparr>"
  have ok: "batch_ok ?s" using assms(1) by simp
  have data: "safe (step_then (queue_packet mem d HPKT_FINFO ?s) (to_tx HTX_FINFOACK))" if "length d \<le> HYDRA_MAXBLKLEN" for d
  proof (rule queue_then [OF ok that])
    fix hi assume "hi_ok hi"
    then show "safe (to_tx HTX_FINFOACK (?s\<lparr>hb_hi := hi\<rparr>))"
      using ok assms(2) by (cases "hb_send_EOB s") (simp_all add: to_tx_safe to_tx_same)
  qed
  show "safe (if hb_send_EOB ?s then step_then (queue_packet mem [0] HPKT_FINFO ?s) (to_tx HTX_FINFOACK)
      else with_send (\<lambda>fi. step_then (queue_packet mem (finfo_data fi) HPKT_FINFO ?s) (to_tx HTX_FINFOACK)) ?s)"
  proof (cases "hb_send_EOB s")
    case True
    then show ?thesis using data [of "[0]"] by (simp add: HYDRA_MAXBLKLEN_def)
  next
    case False
    then have "safe (with_send (\<lambda>fi. step_then (queue_packet mem (finfo_data fi) HPKT_FINFO ?s) (to_tx HTX_FINFOACK)) ?s)"
      using assms(2) by (intro with_send_safe [OF ok]) (simp_all add: data finfo_data_length)
    then show ?thesis using False by simp
  qed
qed

lemma close_send_ok:
  "batch_ok s \<Longrightarrow> \<not> needs_send (hb_send_EOB s) t \<Longrightarrow> batch_ok ((close_send cf s)\<lparr>hb_txstate := t\<rparr>)"
  using p_tx_fclose_ok [of "hb_pi s" cf "hb_g s" "hb_w s"] fclose_receiving [of cf "hb_g s" "hb_pi s" "hb_w s"]
  by (cases "p_tx_fclose cf (hb_g s) (hb_pi s) (hb_w s)") (simp add: close_send_def batch_ok_def files_ok_def)

lemma close_send_fields: "hb_hi (close_send cf s) = hb_hi s" "hb_txstate (close_send cf s) = hb_txstate s"
  "hb_rxstate (close_send cf s) = hb_rxstate s" "hb_send_EOB (close_send cf s) = hb_send_EOB s"
  by (simp_all add: close_send_def split: prod.split)

lemma tx_next_file_safe:
  assumes "batch_ok s" "hb_txstate s = HTX_NextFile"
  shows "safe (tx_next_file cf mem s)"
proof -
  let ?c = "if map_option fi_fp (sending (hb_pi s)) \<in> {None, Some None} then s else close_send cf s"
  have "batch_ok (close_send cf s)"
    using close_send_ok [OF assms(1), of HTX_NextFile cf] assms(2) by (simp add: batch_ok_def close_send_fields)
  then have c: "batch_ok ?c" using assms(1) by simp
  obtain rc g pi w where o: "p_tx_fopen cf None (hb_g ?c) (hb_pi ?c) (hb_w ?c) = (rc, g, pi, w)" by (metis prod_cases4)
  have p: "protinfo_ok pi" using p_tx_fopen_ok [OF batch_okD(2) [OF c], of cf None "hb_g ?c" "hb_w ?c"] o by simp
  let ?s = "?c\<lparr>hb_g := g, hb_pi := pi, hb_w := w, hb_send_EOB := (rc \<noteq> 0), hb_txtries := 0, hb_txstate := HTX_FINFO\<rparr>"
  have "batch_ok ?s" using c p tx_fopen_files [OF o] by (simp add: batch_ok_def files_ok_def)
  then have "safe (tx_finfo mem ?s)" by (rule tx_finfo_safe) simp
  then show ?thesis using o by (simp add: tx_next_file_def Let_def)
qed

lemma good_block_ok: "hi_ok hi \<Longrightarrow> hi_ok (good_block hi)"
  using align_sizes [of "push_bit 1 (hi_send_block_size hi)"] by (simp add: good_block_def Let_def hi_ok_def)

lemma put_send_ok: "batch_ok s \<Longrightarrow> fi_fp fi \<noteq> None \<Longrightarrow> batch_ok (put_send fi s)"
  by (auto simp: batch_ok_def files_ok_def put_send_def sending_set_send set_send_ok)

lemma put_send_fields [simp]: "hb_hi (put_send fi s) = hb_hi s" "hb_txstate (put_send fi s) = hb_txstate s"
  "hb_rxstate (put_send fi s) = hb_rxstate s" "hb_send_EOB (put_send fi s) = hb_send_EOB s"
  by (simp_all add: put_send_def)

lemma tx_block_ok:
  assumes "batch_ok s" "hb_txstate s = HTX_DATA" "fi_fp fi \<noteq> None" "length d \<le> HYDRA_MAXBLKLEN"
  shows "batch_ok (tx_block mem d fi s)"
proof -
  define u where "u = put_send (fi\<lparr>fi_sent := fi_sent fi + word_of_nat (length d)\<rparr>)
    (s\<lparr>hb_deadtimer := timer_in s (hi_timeout_dead (hb_hi s))\<rparr>)"
  obtain out hi where h: "hydra_putpkt mem (hb_hi u) (hydra_putlong (uint (fi_sent fi)) @ bytes d) HPKT_DATA = (out, hi)" by fastforce
  have u: "batch_ok u" "hb_txstate u = HTX_DATA" using assms by (simp_all add: u_def put_send_ok)
  have "length out \<le> HYDRA_BUFLEN" using block_fits [of "hydra_putlong (uint (fi_sent fi)) @ bytes d"] assms(4) h by (metis add.commute fst_conv length_append length_bytes_of length_putlong nat_add_left_cancel_le)
  moreover have "hi_ok hi"
    using h batch_okD(1) [OF u(1)] by (auto simp: hydra_putpkt_def Let_def split: prod.splits)
  ultimately have "hi_ok (hi\<lparr>hi_oenc := out\<rparr>)" by (simp add: hi_ok_def)
  then have v: "batch_ok (u\<lparr>hb_hi := good_block (hi\<lparr>hi_oenc := out\<rparr>)\<rparr>)" using u(1) by (simp add: batch_ok_hi good_block_ok)
  have "batch_ok (v\<lparr>hb_sendtimer := k, hb_txstate := HTX_DATAACK\<rparr>)" "batch_ok (to_eof v)"
    if "batch_ok v" "hb_txstate v = HTX_DATA" for v k
    using that by (simp_all add: batch_ok_tx_same to_eof_def)
  then show ?thesis using v u(2) h unfolding u_def by (simp add: tx_block_def Let_def)
qed

lemma to_eof_ok: "batch_ok s \<Longrightarrow> needs_send (hb_send_EOB s) (hb_txstate s) \<Longrightarrow> batch_ok (to_eof s)"
  by (simp add: to_eof_def batch_ok_tx_same)

lemma tx_data_safe:
  assumes "batch_ok s" "hb_txstate s = HTX_DATA"
  shows "safe (tx_data mem s)"
  unfolding tx_data_def
proof (rule with_send_safe [OF assms(1)])
  fix fi fp assume f: "sending (hb_pi s) = Some fi" "fi_fp fi = Some fp"
  let ?n = "nat (hi_send_block_size (hb_hi s))"
  have n: "?n \<le> HYDRA_MAXBLKLEN" using batch_okD(1) [OF assms(1)] by (auto simp: hi_ok_def HYDRA_MAXBLKLEN_def)
  obtain rc d pi w where r: "p_tx_readfile ?n (hb_pi s) (hb_w s) = Some (rc, d, pi, w)" "length d \<le> ?n" "open_file (sending pi)"
    "receiving pi = receiving (hb_pi s)" "protinfo_ok pi"
    by (rule tx_readfile_files [of "hb_pi s" ?n "hb_w s"]) (use batch_okD(2) [OF assms(1)] f in simp_all)
  let ?s = "s\<lparr>hb_sendtimer := 0, hb_pi := pi, hb_w := w\<rparr>"
  have ok: "batch_ok ?s" using assms(1) r(3-5) by (simp add: batch_ok_def files_ok_def)
  have "safe (with_send (\<lambda>fi. Continue (tx_block mem d fi ?s)) ?s)"
    using ok assms(2) n r(2) by (intro with_send_safe) (simp_all add: tx_block_ok)
  moreover have "batch_ok (to_eof ?s)" "batch_ok (to_eof s)" using ok assms by (simp_all add: to_eof_ok)
  ultimately show "safe (if fi_eofseen fi then Continue (to_eof s)
       else if hi_oenc (hb_hi s) = [] \<and> hi_pktqueue (hb_hi s) = [] then
         (let s = s\<lparr>hb_sendtimer := 0\<rparr> in
          case p_tx_readfile (nat (hi_send_block_size (hb_hi s))) (hb_pi s) (hb_w s) of
            None \<Rightarrow> Undefined
          | Some (n, d, pi, w) \<Rightarrow>
              let s = s\<lparr>hb_pi := pi, hb_w := w\<rparr> in
              if n > 0 then with_send (\<lambda>fi. Continue (tx_block mem d fi s)) s
              else Continue (to_eof s))
       else Continue s)" using assms(1) r(1) by (simp add: Let_def)
qed (use assms(2) in simp)

lemma tx_eof_safe:
  assumes "batch_ok s" "hb_txstate s = HTX_EOF"
  shows "safe (tx_eof mem s)"
  unfolding tx_eof_def
  by (rule next_try_safe [OF assms(1)], rule queue_then) (use assms in \<open>simp_all add: to_tx_same HYDRA_MAXBLKLEN_def\<close>)

lemma tx_rend_safe: "batch_ok s \<Longrightarrow> safe (tx_rend mem s)"
  by (simp add: tx_rend_def batch_ok_tx safe_queue)

lemma sender_safe:
  assumes "batch_ok s" "length version \<le> 1024"
  shows "safe (hydra_sender cf version mem s)"
  using assms tx_start_safe tx_init_safe tx_next_file_safe tx_finfo_safe tx_data_safe tx_eof_safe tx_rend_safe tx_end_safe
  by (cases "hb_txstate s") (simp_all add: hydra_sender_def batch_ok_tx)

subsection \<open>The receiver\<close>

lemma with_recv_open:
  "batch_ok s \<Longrightarrow> needs_recv (hb_rxstate s) \<Longrightarrow>
    (\<And>fi fp. receiving (hb_pi s) = Some fi \<Longrightarrow> fi_fp fi = Some fp \<Longrightarrow> safe (f fi)) \<Longrightarrow> safe (with_recv f s)"
  using batch_files(2) [of s] by (cases "receiving (hb_pi s)") (auto simp: with_recv_def)

lemma with_recv_safe:
  "receiving (hb_pi s) \<noteq> None \<Longrightarrow> (\<And>fi. receiving (hb_pi s) = Some fi \<Longrightarrow> safe (f fi)) \<Longrightarrow> safe (with_recv f s)"
  by (cases "receiving (hb_pi s)") (auto simp: with_recv_def)

lemma needs_recv_simps [simp]:
  "needs_recv HRX_DATA" "needs_recv HRX_RPOS" "needs_recv HRX_RPosAck" "\<not> needs_recv HRX_DONE" "\<not> needs_recv HRX_INIT"
  "\<not> needs_recv HRX_FINFO" "\<not> needs_recv HRX_Skip" "\<not> needs_recv HRX_SkipAck"
  "skipping HRX_Skip" "skipping HRX_SkipAck" "\<not> skipping HRX_DATA" "\<not> skipping HRX_RPOS" "\<not> skipping HRX_RPosAck"
  "\<not> skipping HRX_DONE" "\<not> skipping HRX_INIT" "\<not> skipping HRX_FINFO"
  by (simp_all add: needs_recv_def skipping_def)

lemma batch_ok_recv: "batch_ok s \<Longrightarrow> receiving (hb_pi s) = None \<Longrightarrow> \<not> needs_recv (hb_rxstate s) \<and> \<not> skipping (hb_rxstate s)"
  by (auto simp: batch_ok_def files_ok_def)

lemma batch_ok_recv_some:
  "batch_ok s \<Longrightarrow> needs_recv (hb_rxstate s) \<or> skipping (hb_rxstate s) \<Longrightarrow> receiving (hb_pi s) \<noteq> None"
  using batch_ok_recv by blast

lemma batch_ok_skip: "batch_ok s \<Longrightarrow> receiving (hb_pi s) \<noteq> None \<Longrightarrow> skipping r \<Longrightarrow> batch_ok (s\<lparr>hb_rxstate := r\<rparr>)"
  by (auto simp: batch_ok_def files_ok_def needs_recv_def skipping_def)

lemma batch_ok_skip_same: "batch_ok s \<Longrightarrow> skipping (hb_rxstate s) \<Longrightarrow> skipping r \<Longrightarrow> batch_ok (s\<lparr>hb_rxstate := r\<rparr>)"
  using batch_ok_skip batch_ok_recv_some by blast

lemma receiver_safe:
  assumes "batch_ok s"
  shows "safe (hydra_receiver mem s)"
proof (cases "hb_rxstate s = HRX_RPOS \<or> hb_rxstate s = HRX_Skip")
  case True
  let ?s = "s\<lparr>hb_rxtries := hb_rxtries s + 1, hb_recvtimer := timer_in (s\<lparr>hb_rxtries := hb_rxtries s + 1\<rparr>) (hi_timeout_recv (hb_hi s))\<rparr>"
  have ok: "batch_ok ?s" using assms by simp
  have "receiving (hb_pi ?s) \<noteq> None" using batch_ok_recv_some [OF ok] True by auto
  then have "safe (with_recv (\<lambda>fi.
      let pos = (if hb_rxstate ?s = HRX_Skip then (if fi_status fi = FSTAT_SKIPPED then -1 else -2) else uint (fi_received fi))
      in step_then (queue_packet mem (rpos_data pos (hb_hi ?s)) HPKT_RPOS ?s)
           (\<lambda>s. Continue (s\<lparr>hb_rxstate := (if hb_rxstate s = HRX_Skip then HRX_SkipAck else HRX_RPosAck)\<rparr>))) ?s)"
  proof (rule with_recv_safe)
    fix fi
    have "safe (step_then (queue_packet mem (rpos_data pos (hb_hi ?s)) HPKT_RPOS ?s)
           (\<lambda>s. Continue (s\<lparr>hb_rxstate := (if hb_rxstate s = HRX_Skip then HRX_SkipAck else HRX_RPosAck)\<rparr>)))" for pos
    proof (rule queue_then [OF ok])
      fix hi assume "hi_ok hi"
      then have "batch_ok (?s\<lparr>hb_hi := hi\<rparr>)" using ok by (rule batch_ok_hi [rotated])
      then show "safe (Continue ((?s\<lparr>hb_hi := hi\<rparr>)\<lparr>hb_rxstate := (if hb_rxstate (?s\<lparr>hb_hi := hi\<rparr>) = HRX_Skip then HRX_SkipAck else HRX_RPosAck)\<rparr>))"
        using True by (elim disjE) (simp_all add: batch_ok_rx_same batch_ok_skip_same)
    qed (simp add: rpos_data_def HYDRA_MAXBLKLEN_def)
    then show "safe (let pos = (if hb_rxstate ?s = HRX_Skip then (if fi_status fi = FSTAT_SKIPPED then -1 else -2) else uint (fi_received fi))
      in step_then (queue_packet mem (rpos_data pos (hb_hi ?s)) HPKT_RPOS ?s)
           (\<lambda>s. Continue (s\<lparr>hb_rxstate := (if hb_rxstate s = HRX_Skip then HRX_SkipAck else HRX_RPosAck)\<rparr>)))" by (simp only: Let_def)
  qed
  then show ?thesis using True assms by (simp add: hydra_receiver_def Let_def)
qed (simp add: hydra_receiver_def assms)

subsection \<open>Answers\<close>

lemma parse_init_ok: "hi_ok hi \<Longrightarrow> hi_ok (snd (hydra_parse_init hi pkt))"
  by (simp add: hydra_parse_init_def Let_def split: option.split prod.split)

lemma on_init_safe: "batch_ok s \<Longrightarrow> safe (on_init mem s)"
  unfolding on_init_def
proof (rule safe_then)
  assume ok: "batch_ok s"
  obtain k hi where p: "hydra_parse_init (hb_hi s) (packet s) = (k, hi)" by fastforce
  then have "batch_ok (s\<lparr>hb_hi := hi\<rparr>)" using ok parse_init_ok [of "hb_hi s" "packet s"] by (simp add: batch_ok_hi batch_okD)
  then show "safe (if hb_rxstate s = HRX_INIT then
          (case hydra_parse_init (hb_hi s) (packet s) of (ok, hi) \<Rightarrow>
             let s = s\<lparr>hb_hi := hi\<rparr> in
             if ok then Continue (s\<lparr>hb_rxtries := 0, hb_rxstate := HRX_FINFO\<rparr>) else Return PRC_ERROR s)
        else Continue s)"
    using ok p by (simp add: batch_ok_rx Let_def)
qed (simp add: safe_queue)

lemma rx_answer_safe: "batch_ok s \<Longrightarrow> safe (rx_answer mem pos s)"
  by (simp add: rx_answer_def safe_queue HYDRA_MAXBLKLEN_def)

lemma finfo_name_memory: "finfo_name ibuf n = (name, ibuf') \<Longrightarrow> length ibuf' = length ibuf"
  by (auto simp: finfo_name_def Let_def split: if_splits)

lemma open_recv_safe:
  assumes "batch_ok s" "hb_rxstate s = HRX_FINFO"
  shows "safe (open_recv cf io s)"
proof -
  obtain tm sz where n: "finfo_numbers (io_times io) (io_sizes io) (cstr (chars (packet s))) = (tm, sz)" by fastforce
  obtain name ibuf where m: "finfo_name (hi_ibuf (hb_hi s)) (nat (hi_isize (hb_hi s))) = (name, ibuf)" by fastforce
  obtain rc g pi w where o: "p_rx_fopen cf name sz (localtogmt (gmtoff (hb_w s)) tm) 0 (hb_g s) (hb_pi s) (hb_w s) = (rc, g, pi, w)"
    by (metis prod_cases4)
  let ?s = "s\<lparr>hb_hi := (hb_hi s)\<lparr>hi_ibuf := ibuf\<rparr>, hb_g := g, hb_pi := pi, hb_w := w\<rparr>"
  have f: "protinfo_ok pi" "sending pi = sending (hb_pi s)" "rc = 0 \<and> open_file (receiving pi) \<or> rc = 1 \<or> rc = 2"
    using rx_fopen_files [OF batch_okD(2) [OF assms(1)] o] by simp_all
  have ok: "batch_ok ?s"
    using assms f finfo_name_memory [OF m] by (simp add: batch_ok_def files_ok_def hi_ok_def)
  have opened: "batch_ok (?s\<lparr>hb_rxlastack := a, hb_last_datapos := b, hb_recvtimer := c, hb_rxstate := HRX_DATA\<rparr>)"
    if "open_file (receiving pi)" for a b c
    using that ok by (simp add: batch_ok_def files_ok_def)
  from f(3) show ?thesis
    using ok opened n m o
    by (auto simp: open_recv_def Let_def with_recv_def rx_answer_safe open_file_def split: option.split)
qed

lemma on_finfo_safe: "batch_ok s \<Longrightarrow> safe (on_finfo cf io s)"
  by (auto simp: on_finfo_def Let_def open_recv_safe rx_answer_safe batch_ok_rx intro!: safe_then)

lemma on_finfoack_safe:
  assumes "batch_ok s"
  shows "safe (on_finfoack cf s)"
proof (cases "(hb_txstate s = HTX_FINFO \<or> hb_txstate s = HTX_FINFOACK) \<and> \<not> hb_send_EOB s")
  case True
  then have need: "needs_send (hb_send_EOB s) (hb_txstate s)" by auto
  have data: "batch_ok ((put_send fi (s\<lparr>hb_w := w\<rparr>))\<lparr>hb_txlastack := k, hb_txtries := 0, hb_txstate := HTX_DATA\<rparr>)"
    if "fi_fp fi \<noteq> None" for fi w k
    using that assms need by (simp add: batch_ok_tx_same put_send_ok)
  have closed: "batch_ok ((close_send cf (put_send fi (s\<lparr>hb_w := w\<rparr>)))\<lparr>hb_txstate := HTX_NextFile\<rparr>)"
    if "fi_fp fi \<noteq> None" for fi w
    using that assms by (simp add: close_send_ok put_send_ok)
  have "s\<lparr>hb_w := hb_w s\<rparr> = s" by simp
  then show ?thesis
    using True assms need data closed closed [where w = "hb_w s"]
    by (auto simp: on_finfoack_def Let_def batch_ok_tx_same split: prod.split intro!: with_send_safe)
next
  case False
  then show ?thesis using assms by (auto simp: on_finfoack_def Let_def batch_ok_tx)
qed

lemma put_recv_ok:
  assumes "batch_ok s" "receiving (hb_pi s) = Some f" "fi_local_name fi = fi_local_name f"
    "\<not> needs_recv (hb_rxstate s) \<or> fi_fp fi \<noteq> None"
  shows "batch_ok (put_recv fi s)"
proof -
  have p: "protinfo_ok (hb_pi s)" using assms(1) by (rule batch_okD)
  from set_recv_ok [OF p] receiving_safe [OF p assms(2)] assms(3) have "protinfo_ok (set_recv fi (hb_pi s))" by simp
  then show ?thesis using assms p by (auto simp: batch_ok_def files_ok_def put_recv_def receiving_set_recv)
qed

lemma put_recv_fields [simp]: "hb_hi (put_recv fi s) = hb_hi s" "hb_txstate (put_recv fi s) = hb_txstate s"
  "hb_rxstate (put_recv fi s) = hb_rxstate s" "hb_send_EOB (put_recv fi s) = hb_send_EOB s"
  by (simp_all add: put_recv_def)

lemma put_recv_pi: "batch_ok s \<Longrightarrow> receiving (hb_pi s) \<noteq> None \<Longrightarrow> receiving (hb_pi (put_recv fi s)) = Some fi"
  by (simp add: put_recv_def receiving_set_recv batch_okD)

lemma write_block_safe:
  assumes "batch_ok s" "needs_recv (hb_rxstate s)"
  shows "safe (write_block mem s)"
proof -
  let ?hi = "hb_hi s"
  let ?n = "hi_isize ?hi - 4"
  let ?s = "s\<lparr>hb_hi := ?hi\<lparr>hi_recv_block_size := ?n\<rparr>, hb_last_datapos := hydra_getlong (hi_ibuf ?hi),
    hb_deadtimer := timer_in s (hi_timeout_dead ?hi), hb_recvtimer := timer_in s (hi_timeout_recv ?hi), hb_rxstate := HRX_DATA\<rparr>"
  obtain rc pi w where r: "p_rx_writefile (chars (take (nat ?n) (drop 4 (hi_ibuf ?hi)))) (hb_pi s) (hb_w s) = Some (rc, pi, w)"
    "rc = 0 \<or> rc = -1 \<or> rc = -2" "open_file (receiving pi)" "sending pi = sending (hb_pi s)" "protinfo_ok pi"
    by (rule rx_writefile_files [OF batch_okD(2) [OF assms(1)] batch_files(2) [OF assms]])
  let ?u = "?s\<lparr>hb_pi := pi, hb_w := w\<rparr>"
  obtain fi where fi: "receiving pi = Some fi" "fi_fp fi \<noteq> None" using r(3) by (cases "receiving pi") auto
  have u: "batch_ok ?u" using assms(1) r(3-5) by (simp add: batch_ok_def files_ok_def)
  have "batch_ok (put_recv (fi\<lparr>fi_received := fi_received fi + word_of_int ?n\<rparr>) ?u)"
    by (rule put_recv_ok [OF u, of fi]) (use fi in simp_all)
  then have received: "batch_ok (?u\<lparr>hb_pi := set_recv (fi\<lparr>fi_received := fi_received fi + word_of_int ?n\<rparr>) pi\<rparr>)"
    by (simp add: put_recv_def)
  have "batch_ok (put_recv (fi\<lparr>fi_status := st\<rparr>) ?u)" for st by (rule put_recv_ok [OF u, of fi]) (use fi in simp_all)
  moreover have "receiving (hb_pi (put_recv (fi\<lparr>fi_status := st\<rparr>) ?u)) \<noteq> None" for st using put_recv_pi [OF u] fi(1) by simp
  ultimately have skip: "batch_ok ((put_recv (fi\<lparr>fi_status := st\<rparr>) ?u)\<lparr>hb_hi := new_rpos_id h, hb_rxtries := 0, hb_rxstate := HRX_Skip\<rparr>)"
    if "hi_ok h" for st h using that by (intro batch_ok_skip) (simp_all add: batch_ok_hi)
  show ?thesis
    using r(1,2) received skip batch_okD(1) [OF assms(1)] fi(1)
    by (auto simp: write_block_def Let_def with_recv_def safe_queue HYDRA_MAXBLKLEN_def)
qed

lemma on_data_safe:
  assumes "batch_ok s"
  shows "safe (on_data mem s)"
proof (cases "hb_rxstate s = HRX_DATA \<or> hb_rxstate s = HRX_RPosAck")
  case True
  then have need: "needs_recv (hb_rxstate s)" by auto
  have "batch_ok (ask_again s)" if "hb_rxstate s = HRX_DATA" using that assms by (simp add: ask_again_ok)
  then show ?thesis
    using True assms need
    by (auto simp: on_data_def Let_def write_block_safe batch_ok_rx_same intro!: with_recv_open)
qed (simp add: on_data_def assms)

lemma on_junk_safe: "batch_ok s \<Longrightarrow> safe (on_junk s)"
  by (simp add: on_junk_def ask_again_ok)

lemma on_dataack_safe: "batch_ok s \<Longrightarrow> safe (on_dataack s)"
  by (auto simp: on_dataack_def Let_def batch_ok_tx_same intro!: with_send_safe)

lemma resend_ok:
  assumes "batch_ok s" "needs_send (hb_send_EOB s) (hb_txstate s)" "fi_fp fi \<noteq> None" "n = 0 \<or> n \<in> {64, 128, 256, 512, 1024, 2048}"
  shows "batch_ok (resend_from offset n fi s)"
proof -
  have u: "batch_ok ((put_send (fi\<lparr>fi_sent := word_of_int offset\<rparr>) s)\<lparr>hb_txlastack := offset\<rparr>)"
    using assms by (simp add: put_send_ok)
  moreover have "hi_ok ((hb_hi s)\<lparr>hi_send_block_size := n, hi_send_good_blocks := 0\<rparr>)" if "n \<noteq> 0"
    using batch_okD(1) [OF assms(1)] assms(4) that by (auto simp: hi_ok_def)
  ultimately show ?thesis using assms(2) by (auto simp: resend_from_def Let_def batch_ok_tx_same batch_ok_hi)
qed

lemma stop_sending_ok:
  "batch_ok s \<Longrightarrow> needs_send (hb_send_EOB s) (hb_txstate s) \<Longrightarrow> fi_fp fi \<noteq> None \<Longrightarrow> batch_ok (stop_sending st fi s)"
  by (simp add: stop_sending_def put_send_ok to_eof_ok)

lemma block_size_asked: "(if 0 < n then hydra_align_block_size n else n) = 0 \<or>
    (if 0 < n then hydra_align_block_size n else n) \<in> {64, 128, 256, 512, 1024, 2048}" if "0 \<le> n"
  using that align_sizes [of n] by auto

lemma getword_positive: "0 \<le> hydra_getword buf"
proof -
  have "(ucast (buf ! 0) OR push_bit 8 (ucast (buf ! 1)) :: u32) = take_bit 31 (ucast (buf ! 0) OR push_bit 8 (ucast (buf ! 1)))"
    by (rule bit_word_eqI) (auto simp: bit_simps dest: bit_imp_le_length)
  then have "\<not> bit (ucast (buf ! 0) OR push_bit 8 (ucast (buf ! 1)) :: u32) 31" by (metis bit_take_bit_iff less_irrefl)
  then show ?thesis unfolding hydra_getword_def by (simp only: sint_uint signed_take_bit_nonnegative_iff bit_uint_iff) simp
qed

lemma on_rpos_safe:
  assumes "batch_ok s"
  shows "safe (on_rpos s)"
proof (cases "hb_txstate s \<in> {HTX_DATA, HTX_DATAACK, HTX_XWAIT, HTX_EOF, HTX_EOFACK} \<and> hi_isize (hb_hi s) \<ge> 10")
  case True
  then have need: "needs_send (hb_send_EOB s) (hb_txstate s)" by auto
  let ?b = "hydra_getword (drop 4 (hi_ibuf (hb_hi s)))"
  define n where "n = (if 0 < ?b then hydra_align_block_size ?b else ?b)"
  let ?s = "\<lambda>k w. s\<lparr>hb_hi := (hb_hi s)\<lparr>hi_send_rpos_id := k\<rparr>, hb_w := w\<rparr>"
  have ok: "batch_ok (?s k w)" for k w using assms by (simp add: batch_ok_hi batch_okD)
  have n: "n = 0 \<or> n \<in> {64, 128, 256, 512, 1024, 2048}" unfolding n_def by (rule block_size_asked [OF getword_positive])
  have 1: "batch_ok (resend_from offset n fi (?s k w))" if "fi_fp fi \<noteq> None" for offset fi k w
    using need by (intro resend_ok [OF ok _ that n]) simp
  have 2: "batch_ok (stop_sending st fi (?s k w))" if "fi_fp fi \<noteq> None" for st fi k w
    using need that by (intro stop_sending_ok [OF ok]) simp_all
  have 3: "batch_ok (stop_sending st fi (s\<lparr>hb_hi := (hb_hi s)\<lparr>hi_send_rpos_id := k\<rparr>\<rparr>))" if "fi_fp fi \<noteq> None" for st fi k
    using 2 [OF that, where k = k and w = "hb_w s"] by simp
  show ?thesis
    unfolding on_rpos_def Let_def if_P [OF True] n_def [symmetric]
    by (rule if_split [THEN iffD2], intro conjI impI, simp add: assms, rule with_send_safe [OF assms need])
      (simp add: 1 2 3 split: prod.split)
next
  case False
  then show ?thesis unfolding on_rpos_def if_not_P [OF False] using assms by simp
qed

lemma rx_skip_ok:
  assumes "batch_ok s" "receiving (hb_pi s) \<noteq> None" "skipping r"
  shows "batch_ok (s\<lparr>hb_rxtries := 0, hb_rxstate := r\<rparr>)"
  using batch_ok_skip [of "s\<lparr>hb_rxtries := 0\<rparr>" r] assms by simp

lemma end_of_file_safe:
  assumes "batch_ok s" "hb_rxstate s = HRX_DATA"
  shows "safe (end_of_file cf req mem s)"
  unfolding end_of_file_def
proof (rule with_recv_open [OF assms(1)])
  fix fi fp assume f: "receiving (hb_pi s) = Some fi" "fi_fp fi = Some fp"
  let ?u = "put_recv (fi\<lparr>fi_status := FSTAT_SUCCESS\<rparr>) s"
  have u: "batch_ok ?u" by (rule put_recv_ok [OF assms(1) f(1)]) (use f in simp_all)
  obtain rc pi w where c: "p_rx_fclose cf req (hb_g s) (hb_pi ?u) (hb_w s) = Some (rc, pi, w)" "receiving pi \<noteq> None"
    "sending pi = sending (hb_pi ?u)" "protinfo_ok pi"
    by (rule rx_fclose_files [of "hb_pi ?u" cf req "hb_g s" "hb_w s"]) (use u f put_recv_pi [OF assms(1)] batch_okD in simp_all)
  let ?s = "s\<lparr>hb_pi := pi, hb_w := w\<rparr>"
  let ?v = "?s\<lparr>hb_rxstate := HRX_Skip\<rparr>"
  have v: "batch_ok ?v" using assms(1) c(2-4) by (auto simp: batch_ok_def files_ok_def put_recv_def)
  obtain fi2 where fi2: "receiving pi = Some fi2" using c(2) by auto
  have sent: "safe (step_then (queue_packet mem [] HPKT_EOFACK ?s) (\<lambda>s. Continue (s\<lparr>hb_rxtries := 0, hb_rxstate := HRX_FINFO\<rparr>)))"
  proof -
    obtain d prev where q: "hydra_queuepkt mem [] HPKT_EOFACK (hb_hi s) = Some ((hb_hi s)\<lparr>hi_lastchar := prev,
        hi_pktqueue := hi_pktqueue (hb_hi s) @ [\<lparr>hp_sent = False, hp_type = HPKT_EOFACK, hp_data = d\<rparr>]\<rparr>)"
      by (rule queuepkt_some [of "[]" mem HPKT_EOFACK "hb_hi s"]) simp_all
    show ?thesis using v by (simp add: queue_packet_def step_then_def q batch_ok_def files_ok_def)
  qed
  have "batch_ok (put_recv (fi2\<lparr>fi_status := FSTAT_REFUSED\<rparr>) ?v)" by (rule put_recv_ok [OF v, of fi2]) (use fi2 in simp_all)
  then have "batch_ok ((put_recv (fi2\<lparr>fi_status := FSTAT_REFUSED\<rparr>) ?s)\<lparr>hb_rxtries := 0, hb_rxstate := HRX_Skip\<rparr>)"
    by (simp add: put_recv_def batch_ok_def)
  then show "safe (case p_rx_fclose cf req (hb_g s) (set_recv (fi\<lparr>fi_status := FSTAT_SUCCESS\<rparr>) (hb_pi s)) (hb_w s) of
         None \<Rightarrow> Undefined
       | Some (rc, pi, w) \<Rightarrow>
           let s = s\<lparr>hb_pi := pi, hb_w := w\<rparr> in
           if rc = 0 then
             step_then (queue_packet mem [] HPKT_EOFACK s) (\<lambda>s. Continue (s\<lparr>hb_rxtries := 0, hb_rxstate := HRX_FINFO\<rparr>))
           else
             with_recv (\<lambda>fi.
               Continue ((put_recv (fi\<lparr>fi_status := FSTAT_REFUSED\<rparr>) s)\<lparr>hb_rxtries := 0, hb_rxstate := HRX_Skip\<rparr>)) s)"
    using c(1) sent fi2 by (simp add: put_recv_def with_recv_def Let_def)
qed (simp add: assms)

lemma end_of_skipped_safe:
  assumes "batch_ok s" "skipping (hb_rxstate s)"
  shows "safe (end_of_skipped cf req mem s)"
  unfolding end_of_skipped_def
proof (rule queue_then [OF assms(1)])
  fix hi assume hi: "hi_ok hi"
  obtain rc pi w where c: "p_rx_fclose cf req (hb_g s) (hb_pi s) (hb_w s) = Some (rc, pi, w)" "receiving pi \<noteq> None"
    "sending pi = sending (hb_pi s)" "protinfo_ok pi"
    by (rule rx_fclose_files [of "hb_pi s" cf req "hb_g s" "hb_w s"]) (use assms batch_okD batch_files(3) in simp_all)
  have "batch_ok (s\<lparr>hb_hi := hi, hb_pi := pi, hb_w := w, hb_recvtimer := 0, hb_rxtries := 0, hb_rxstate := HRX_FINFO\<rparr>)"
    using assms(1) hi c by (simp add: batch_ok_def files_ok_def)
  then show "safe (case p_rx_fclose cf req (hb_g (s\<lparr>hb_hi := hi\<rparr>)) (hb_pi (s\<lparr>hb_hi := hi\<rparr>)) (hb_w (s\<lparr>hb_hi := hi\<rparr>)) of
      None \<Rightarrow> Undefined
    | Some (rc, pi, w) \<Rightarrow>
        Continue ((s\<lparr>hb_hi := hi\<rparr>)\<lparr>hb_pi := pi, hb_w := w, hb_recvtimer := 0, hb_rxtries := 0, hb_rxstate := HRX_FINFO\<rparr>))"
    using c(1) by simp
qed simp

lemma on_eof_safe:
  assumes "batch_ok s"
  shows "safe (on_eof cf req mem s)"
proof (cases "hb_rxstate s = HRX_DATA")
  case True
  have "batch_ok (ask_again (s\<lparr>hb_last_datapos := k\<rparr>))" for k using assms True by (simp add: ask_again_ok)
  then show ?thesis using True assms by (auto simp: on_eof_def Let_def end_of_file_safe intro!: with_recv_open)
next
  case False
  then show ?thesis
    using assms by (auto simp: on_eof_def Let_def end_of_skipped_safe batch_ok_skip_same safe_queue)
qed

lemma on_eofack_safe:
  assumes "batch_ok s"
  shows "safe (on_eofack cf s)"
proof (cases "sending (hb_pi s)")
  case None
  then show ?thesis using assms by (simp add: on_eofack_def batch_ok_tx)
next
  case (Some fi)
  show ?thesis
  proof (cases "hb_txstate s = HTX_EOF \<or> hb_txstate s = HTX_EOFACK")
    case True
    then have "fi_fp fi \<noteq> None" using batch_files(1) [OF assms] Some by auto
    then show ?thesis using Some assms by (simp add: on_eofack_def close_send_ok put_send_ok)
  qed (simp add: on_eofack_def assms)
qed

lemma on_end_safe: "batch_ok s \<Longrightarrow> safe (on_end mem s)"
  by (auto simp: on_end_def safe_queue batch_ok_tx intro!: safe_then)

lemma answer_safe:
  assumes "batch_ok s"
  shows "safe (hydra_answer cf req io t s)"
  using assms on_junk_safe on_init_safe on_finfo_safe on_finfoack_safe on_data_safe on_dataack_safe on_rpos_safe on_eof_safe
    on_eofack_safe on_end_safe
  by (cases t) (simp_all add: hydra_answer_def on_start_def on_initack_def batch_ok_tx)

subsection \<open>The line\<close>

lemma gethex_length: "length (hydra_gethexblock behind n src) \<le> n"
  by (induction behind n src rule: hydra_gethexblock.induct) (auto split: list.split)

lemma getasc_length: "length (get_asc c n szdst src) \<le> szdst"
  by (induction c n szdst src rule: get_asc.induct) (auto simp: Let_def)

lemma getuue_length: "get_uue src = Some d \<Longrightarrow> length d \<le> length src"
  by (induction src arbitrary: d rule: get_uue.induct) (auto split: if_splits)

lemma decode_length: "decode behind format src = Some d \<Longrightarrow> length d \<le> HYDRA_MAXDATALEN"
proof -
  have "length src \<le> HYDRA_MAXDATALEN" if "hydra_getuueblock HYDRA_MAXDATALEN src = Some d"
    using that by (simp add: hydra_getuueblock_def split: if_splits)
  moreover have "length d \<le> length src" if "hydra_getuueblock HYDRA_MAXDATALEN src = Some d"
    using that getuue_length by (simp add: hydra_getuueblock_def split: if_splits)
  moreover assume "decode behind format src = Some d"
  ultimately show ?thesis
    using gethex_length [of behind HYDRA_MAXDATALEN src] getasc_length [of 0 0 HYDRA_MAXDATALEN src]
    by (cases format) (auto simp: decode_def hydra_getascblock_def hydra_getbinblock_def split: if_splits)
qed

lemma hi_ok_ienc: "hi_ok hi \<Longrightarrow> length d \<le> HYDRA_BUFLEN \<Longrightarrow> hi_ok (hi\<lparr>hi_ienc := d\<rparr>)"
  by (simp add: hi_ok_def)

lemma hi_ok_ibuf: "hi_ok hi \<Longrightarrow> length d \<le> HYDRA_MAXDATALEN \<Longrightarrow> hi_ok (hi\<lparr>hi_ibuf := d @ drop (length d) (hi_ibuf hi)\<rparr>)"
  by (simp add: hi_ok_def)

lemma hi_ok_oenc: "hi_ok hi \<Longrightarrow> length d \<le> HYDRA_BUFLEN \<Longrightarrow> hi_ok (hi\<lparr>hi_oenc := d\<rparr>)"
  by (simp add: hi_ok_def)

lemma packet_end_ok: "hi_ok hi \<Longrightarrow> hi_ok (snd (packet_end behind hi))"
proof -
  assume ok: "hi_ok hi"
  let ?hi = "hi\<lparr>hi_iencrcv := False, hi_ienc := []\<rparr>"
  have hi: "hi_ok ?hi" using ok by (simp add: hi_ok_def)
  show ?thesis
  proof (cases "decode behind (hi_iencfmt hi) (hi_ienc hi)")
    case None
    then show ?thesis using hi by (simp add: packet_end_def Let_def)
  next
    case (Some d)
    have "hi_ok (?hi\<lparr>hi_ibuf := d @ drop (length d) (hi_ibuf ?hi), hi_isize := k\<rparr>)" for k
      using hi_ok_ibuf [OF hi decode_length [OF Some]] by simp
    then show ?thesis using Some by (simp add: packet_end_def Let_def split: option.split)
  qed
qed

lemma store_char_ok: "hi_ok hi \<Longrightarrow> hi_ok (store_char c hi)"
  by (simp add: store_char_def hi_ok_def)

lemma recv_char_ok: "hi_ok hi \<Longrightarrow> hi_ok (snd (recv_char behind c hi))"
  using packet_end_ok [of "hi\<lparr>hi_idlecnt := 0\<rparr>" behind]
  by (cases "packet_end behind (hi\<lparr>hi_idlecnt := 0\<rparr>)")
    (simp add: recv_char_def Let_def store_char_ok hi_ok_ienc split: option.split e_hydra_char.split)

lemma recv_ok: "hi_ok hi \<Longrightarrow> hydra_recv behind tm cs hi = (t, hi', rest) \<Longrightarrow> hi_ok hi'"
proof (induction cs arbitrary: hi)
  case (Cons c cs)
  obtain r h where r: "recv_char behind c hi = (r, h)" by fastforce
  then have "hi_ok h" using recv_char_ok [OF Cons.prems(1), of behind c] by simp
  then show ?case using Cons r by (cases r) auto
qed simp

lemma buffer_queue_length: "length oenc \<le> HYDRA_BUFLEN \<Longrightarrow> buffer_queue q oenc = (a, q', oenc') \<Longrightarrow> length oenc' \<le> HYDRA_BUFLEN"
proof (induction q arbitrary: oenc a q')
  case (Cons p q)
  show ?case
  proof (cases "if hp_sent p then Some oenc else hydra_buffer_packet p oenc")
    case None
    then show ?thesis using Cons.prems by simp
  next
    case (Some e)
    then have "length e \<le> HYDRA_BUFLEN" using Cons.prems(1) by (auto simp: hydra_buffer_packet_def split: if_splits)
    moreover obtain a1 q1 e1 where "buffer_queue q e = (a1, q1, e1)" by (metis prod_cases3)
    ultimately show ?thesis using Cons Some by auto
  qed
qed simp

lemma send_ok: "hi_ok hi \<Longrightarrow> hi_ok (snd (hydra_send n hi))"
proof -
  assume ok: "hi_ok hi"
  let ?hi = "if hi_oenc hi = [] then
      (case buffer_queue (hi_pktqueue hi) [] of (all_in, q, oenc) \<Rightarrow> hi\<lparr>hi_oenc := oenc, hi_pktqueue := (if all_in then [] else q)\<rparr>)
    else hi"
  obtain a q e where b: "buffer_queue (hi_pktqueue hi) [] = (a, q, e)" by (metis prod_cases3)
  have "length e \<le> HYDRA_BUFLEN" using buffer_queue_length [OF _ b] by simp
  then have 1: "hi_ok ?hi" using ok b by (auto simp: hi_ok_oenc)
  then have "hi_ok (?hi\<lparr>hi_oenc := []\<rparr>)" "hi_ok (?hi\<lparr>hi_oenc := drop k (hi_oenc ?hi)\<rparr>)" for k
    by (simp_all only: hi_ok_def) (auto simp: hi_ok_def)
  then show ?thesis using 1 unfolding hydra_send_def Let_def by (simp only: snd_conv if_distrib [of snd] split: if_split) simp
qed

subsection \<open>The loop\<close>

lemma info_safe: "batch_ok s \<Longrightarrow> safe (hydra_info s)"
proof -
  assume ok: "batch_ok s"
  obtain rc pi where i: "p_info (hb_pi s) True (hb_w s) = (rc, pi)" by fastforce
  then have "batch_ok (s\<lparr>hb_pi := pi\<rparr>)" using p_info_files [OF i] ok by (simp add: batch_ok_def files_ok_def)
  then show ?thesis using i by (simp add: hydra_info_def Let_def)
qed

lemma exchange_safe:
  assumes "batch_ok s"
  shows "safe (hydra_exchange cf req io s)"
proof (cases "hydra_poll io s")
  case None
  then show ?thesis using assms by (simp add: hydra_exchange_def)
next
  case (Some p)
  then obtain recv send where p: "hydra_poll io s = Some (recv, send)" by (cases p) simp
  obtain t hi line where r: "(if recv then hydra_recv (io_mems io) (io_quiet io) (hb_line s @ io_chars io) (hb_hi s)
      else (HPKT_NONE, hb_hi s, hb_line s @ io_chars io)) = (t, hi, line)" by (metis prod_cases3)
  then have hi: "hi_ok hi" using recv_ok [OF batch_okD(1) [OF assms]] batch_okD(1) [OF assms] by (cases recv) auto
  obtain ok hi2 where w: "(if send then hydra_send (io_writes io) hi else (True, hi)) = (ok, hi2)" by fastforce
  then have "hi_ok hi2" using hi send_ok [OF hi, of "io_writes io"] by (cases send) simp_all
  then have "batch_ok (s\<lparr>hb_hi := hi2, hb_line := line\<rparr>)" "batch_ok (s\<lparr>hb_hi := hi, hb_line := line\<rparr>)"
    using assms hi by (simp_all add: batch_ok_def)
  then show ?thesis using p r w by (simp add: hydra_exchange_def Let_def answer_safe batch_ok_def)
qed

lemma pass_safe:
  assumes "batch_ok s" "length version \<le> 1024"
  shows "safe (hydra_pass cf req version io s)"
  unfolding hydra_pass_def
  by (intro safe_then timers_safe) (use assms in \<open>simp_all add: sender_safe receiver_safe info_safe exchange_safe\<close>)

lemma passes_safe: "batch_ok s \<Longrightarrow> length version \<le> 1024 \<Longrightarrow> safe (hydra_passes cf req version ios s)"
  by (induction ios arbitrary: s) (auto intro: safe_then pass_safe)

declare hydra_flush.simps [simp del]

lemma flush_safe: "batch_ok s \<Longrightarrow> safe (hydra_flush io left s)"
proof (induction left arbitrary: s)
  case (Suc n)
  obtain ok hi where s: "hydra_send (snd (io n)) (hb_hi s) = (ok, hi)" by fastforce
  then have "hi_ok hi" using send_ok [OF batch_okD(1) [OF Suc.prems], of "snd (io n)"] by simp
  then have "batch_ok (s\<lparr>hb_hi := hi\<rparr>)" using Suc.prems by (simp add: batch_ok_hi)
  then show ?case using Suc s by (simp add: hydra_flush.simps [of _ "Suc n"] Let_def)
qed (simp add: hydra_flush.simps)

text \<open>Between the batches the buffers hold what is in them, and the tables of files are in order.\<close>

definition in_order :: "s_hydra_batch \<Rightarrow> bool" where
  "in_order s \<longleftrightarrow> hi_ok (hb_hi s) \<and> protinfo_ok (hb_pi s)"

lemma batch_in_order: "batch_ok s \<Longrightarrow> in_order s"
  by (simp add: in_order_def batch_okD)

lemma start_ok: "in_order s \<Longrightarrow> batch_ok (batch_start (hb_hi s) (hb_pi s) g w line)"
  by (simp add: in_order_def batch_start_def batch_ok_def files_ok_def)

lemma close_in_order: "batch_ok s \<Longrightarrow> in_order (close_files cf req s)"
proof -
  assume ok: "batch_ok s"
  let ?c = "if map_option fi_fp (sending (hb_pi s)) \<in> {None, Some None} then s else close_send cf s"
  have "in_order (close_send cf s)"
    using p_tx_fclose_ok [OF batch_okD(2) [OF ok], of cf "hb_g s" "hb_w s"] batch_okD(1) [OF ok]
    by (cases "p_tx_fclose cf (hb_g s) (hb_pi s) (hb_w s)") (simp add: close_send_def in_order_def)
  then have c: "in_order ?c" using batch_in_order [OF ok] by simp
  have "in_order (u\<lparr>hb_pi := pi, hb_w := w\<rparr>)"
    if "in_order u" "p_rx_fclose cf req (hb_g u) (hb_pi u) (hb_w u) = Some (rc, pi, w)" for u rc pi w
    using that p_rx_fclose_ok [of "hb_pi u"] by (auto simp: in_order_def)
  with c show ?thesis unfolding close_files_def Let_def by (auto split: option.split)
qed

definition all_in_order :: "s_hydra_batch turn \<Rightarrow> bool" where
  "all_in_order t \<longleftrightarrow> (case t of Continue s \<Rightarrow> in_order s | Return _ s \<Rightarrow> in_order s | Undefined \<Rightarrow> False)"

lemma hydra_batch_safe:
  assumes "batch_ok s" "length version \<le> 1024"
  shows "all_in_order (hydra_batch cf req version ios flush s)"
proof (cases "hydra_passes cf req version ios s")
  case (Continue u)
  then have u: "batch_ok u" using passes_safe [OF assms, of cf req ios] by simp
  have "safe (hydra_flush flush 20 u)" by (rule flush_safe [OF u])
  then show ?thesis
    using Continue u close_in_order batch_in_order
    by (cases "hydra_flush flush 20 u") (simp_all add: hydra_batch_def all_in_order_def)
next
  case (Return rc u)
  then have "batch_ok u" using passes_safe [OF assms, of cf req ios] by simp
  then show ?thesis using Return close_in_order by (simp add: hydra_batch_def all_in_order_def)
next
  case Undefined
  then show ?thesis using passes_safe [OF assms, of cf req ios] by simp
qed

text \<open>
  C32: Hydra holds out against any other side. Whatever characters come in and at whatever time, however the
  line and the system calls fail, and whichever files are sent and received in the two batches: no null pointer
  is read and no assertion fails, what is decoded and encoded fits the buffers, blocks keep one of the six sizes, the
  tables of files stay well formed.
\<close>

theorem hydra_holds_out:
  assumes "protinfo_ok pi" "length mem = HYDRA_MAXDATALEN" "length version \<le> 1024"
  shows "all_in_order (hydra cf req version files_after_freqs mem first second pi g w)"
proof -
  let ?pi = "if files_after_freqs then pi\<lparr>pi_reqs_only := True\<rparr> else pi"
  have reqs: "protinfo_ok (p\<lparr>pi_reqs_only := b\<rparr>) = protinfo_ok p" for p b by (simp add: protinfo_ok_def cong: option.case_cong)
  have "in_order (batch_start (hydra_init mem) ?pi g w [])"
    using assms(1,2) by (simp add: in_order_def batch_start_def hydra_init_def hi_ok_def reqs)
  from start_ok [OF this] have "batch_ok (batch_start (hydra_init mem) ?pi g w [])" by (simp add: batch_start_def)
  then have 1: "all_in_order (hydra_batch cf req version (fst first) (snd first) (batch_start (hydra_init mem) ?pi g w []))"
    using assms(3) by (rule hydra_batch_safe)
  have 2: "all_in_order (hydra_batch cf req version (fst second) (snd second)
      (batch_start (hb_hi s) (if files_after_freqs then (hb_pi s)\<lparr>pi_reqs_only := False\<rparr> else hb_pi s) (hb_g s) (hb_w s) (hb_line s)))"
    if "in_order s" for s
  proof (rule hydra_batch_safe [OF _ assms(3)])
    let ?s = "s\<lparr>hb_pi := if files_after_freqs then (hb_pi s)\<lparr>pi_reqs_only := False\<rparr> else hb_pi s\<rparr>"
    have "in_order ?s" using that by (simp add: in_order_def reqs)
    from start_ok [OF this] show "batch_ok (batch_start (hb_hi s)
        (if files_after_freqs then (hb_pi s)\<lparr>pi_reqs_only := False\<rparr> else hb_pi s) (hb_g s) (hb_w s) (hb_line s))" by simp
  qed
  show ?thesis
    using 1 2 by (cases "hydra_batch cf req version (fst first) (snd first) (batch_start (hydra_init mem) ?pi g w [])")
      (simp_all add: hydra_def Let_def all_in_order_def)
qed

theorem hydra_holds_out_witness:
  "all_in_order (hydra stat_conf (\<lambda>_ l w. (l, w)) ''0.27'' True (replicate HYDRA_MAXDATALEN 0) ([], \<lambda>_. (True, 1)) ([], \<lambda>_. (True, 1))
     zero_protinfo example_globals stat_world)"
  by (rule hydra_holds_out) (simp_all add: protinfo_ok_def zero_protinfo_def)

end
