(* ===== verification/Zmodem.thy ===== *)
theory Zmodem
  imports Binkp Crc
begin

text \<open>
  The frames of Zmodem (\<open>prot_zmmisc.c\<close>): headers and blocks of data, how they are written with escapes and
  checksums, and how they are found among the characters of the line and read.
\<close>

section \<open>The line\<close>

text \<open>
  What a read of a character finds, in order: a character that is there, one that comes after a while (so that
  \<open>CHARWAIT\<close> does not see it), or a code of failure; the alarm is a timeout. After the last event the line is lost.
\<close>

datatype line_event = Ch byte | Late byte | Timeout | Hangup | Broken

definition ZCRCERR :: int where "ZCRCERR = -5"
definition ZERROR :: int where "ZERROR = -4"
definition ZEXIT :: int where "ZEXIT = -3"
definition ZHANGUP :: int where "ZHANGUP = -2"
definition ZTIMER :: int where "ZTIMER = -1"

fun event_code :: "line_event \<Rightarrow> int" where
  "event_code (Ch b) = uint b" | "event_code (Late b) = uint b"
| "event_code Timeout = ZTIMER" | "event_code Hangup = ZHANGUP" | "event_code Broken = ZEXIT"

definition getchar :: "line_event list \<Rightarrow> int \<times> line_event list" where
  "getchar evs = (case evs of [] \<Rightarrow> (ZHANGUP, []) | e # evs \<Rightarrow> (event_code e, evs))"

definition charwait :: "line_event list \<Rightarrow> bool" where
  "charwait evs = (case evs of Ch _ # _ \<Rightarrow> True | _ \<Rightarrow> False)"

section \<open>Constants and state\<close>

definition ZPAD :: byte where "ZPAD = 0x2a"
definition ZDLE :: byte where "ZDLE = 0x18"
definition CAN :: int where "CAN = 0x18"
definition ZBIN :: byte where "ZBIN = 0x41"
definition ZHEX :: byte where "ZHEX = 0x42"
definition ZBIN32 :: byte where "ZBIN32 = 0x43"

definition ZRQINIT :: int where "ZRQINIT = 0"
definition ZRINIT :: int where "ZRINIT = 1"
definition ZSINIT :: int where "ZSINIT = 2"
definition ZACK :: int where "ZACK = 3"
definition ZFILE :: int where "ZFILE = 4"
definition ZSKIP :: int where "ZSKIP = 5"
definition ZNAK :: int where "ZNAK = 6"
definition ZABORT :: int where "ZABORT = 7"
definition ZFIN :: int where "ZFIN = 8"
definition ZRPOS :: int where "ZRPOS = 9"
definition ZDATA :: int where "ZDATA = 10"
definition ZEOF :: int where "ZEOF = 11"
definition ZFERR :: int where "ZFERR = 12"
definition ZCRC :: int where "ZCRC = 13"
definition ZCHALLENGE :: int where "ZCHALLENGE = 14"
definition ZCOMPL :: int where "ZCOMPL = 15"
definition ZCAN :: int where "ZCAN = 16"
definition ZFREECNT :: int where "ZFREECNT = 17"
definition ZCOMMAND :: int where "ZCOMMAND = 18"

definition ZCRCE :: byte where "ZCRCE = 0x68"
definition ZCRCG :: byte where "ZCRCG = 0x69"
definition ZCRCQ :: byte where "ZCRCQ = 0x6a"
definition ZCRCW :: byte where "ZCRCW = 0x6b"
definition ZRUB0 :: int where "ZRUB0 = 0x6c"
definition ZRUB1 :: int where "ZRUB1 = 0x6d"
definition GOTOR :: int where "GOTOR = 0x100"
definition GOTCAN :: int where "GOTCAN = 0x118"

definition frame_end :: "int \<Rightarrow> bool" where "frame_end c \<longleftrightarrow> 0x68 \<le> c \<and> c \<le> 0x6b"
definition got_end :: "int \<Rightarrow> bool" where "got_end c \<longleftrightarrow> frame_end (c - GOTOR)"

text \<open>The global variables of the protocol.\<close>

record s_zmodem =
  z_ctlesc :: bool
  z_lastsent :: byte
  z_txfcs32 :: bool
  z_txcrc32 :: bool
  z_txnulls :: nat
  z_rxcrc32 :: bool
  z_rxframeind :: byte
  z_rxtype :: int
  z_rxcount :: nat
  z_rxhdr :: "byte list"
  z_rxpos :: int
  z_attn :: "byte list"

section \<open>Writing\<close>

text \<open>0 for a character that goes as it is, 1 for one that is escaped, 2 for one that is escaped behind an \<open>@\<close>.\<close>

definition zsendline_init :: "bool \<Rightarrow> byte \<Rightarrow> nat" where
  "zsendline_init ctlesc i =
     (if i AND 0x60 \<noteq> 0 then 0
      else if i \<in> {ZDLE, 0x13, 0x11, 0x10, 0x93, 0x91, 0x90} then 1
      else if i = 0x0d \<or> i = 0x8d then (if ctlesc then 1 else 2)
      else if ctlesc then 1 else 0)"

definition zsendline :: "bool \<Rightarrow> byte \<Rightarrow> byte \<Rightarrow> byte list \<times> byte" where
  "zsendline ctlesc lastsent c =
     (let k = zsendline_init ctlesc c in
      if k = 0 then ([c], c)
      else if k = 1 then ([ZDLE, c XOR 0x40], c XOR 0x40)
      else if lastsent AND 0x7f \<noteq> 0x40 then ([c], c)
      else ([ZDLE, c XOR 0x40], c XOR 0x40))"

text \<open>The unused \<open>zmodem_putbyte\<close> is the same.\<close>

definition zmodem_putbyte :: "bool \<Rightarrow> byte \<Rightarrow> byte \<Rightarrow> byte list \<times> byte" where
  "zmodem_putbyte = zsendline"

fun send_line :: "bool \<Rightarrow> byte \<Rightarrow> byte list \<Rightarrow> byte list \<times> byte" where
  "send_line ctlesc lastsent [] = ([], lastsent)"
| "send_line ctlesc lastsent (c # cs) =
     (case zsendline ctlesc lastsent c of (d, l) \<Rightarrow> case send_line ctlesc l cs of (ds, l) \<Rightarrow> (d @ ds, l))"

definition zputhex :: "byte \<Rightarrow> byte list" where
  "zputhex c = map (\<lambda>d. if d < 10 then d + 0x30 else d + 0x57) [drop_bit 4 c AND 0x0f, c AND 0x0f]"

definition zcrc32_bytes :: "byte list \<Rightarrow> byte list" where
  "zcrc32_bytes d =
     (let crc = NOT (foldl (\<lambda>crc c. updcrc32 c crc) 0xffffffff d) in
      [ucast crc, ucast (drop_bit 8 crc), ucast (drop_bit 16 crc), ucast (drop_bit 24 crc)])"

definition zcrc16_bytes :: "byte list \<Rightarrow> byte list" where
  "zcrc16_bytes d =
     (let crc = updcrc16 0 (updcrc16 0 (foldl (\<lambda>crc c. updcrc16 c crc) 0 d)) in [ucast (drop_bit 8 crc), ucast crc])"

definition zsbhdr :: "int \<Rightarrow> byte list \<Rightarrow> s_zmodem \<Rightarrow> byte list \<times> s_zmodem" where
  "zsbhdr type hdr z =
     (let d = word_of_int type # hdr;
          z = z\<lparr>z_txcrc32 := z_txfcs32 z\<rparr>
      in case send_line (z_ctlesc z) (z_lastsent z) (d @ (if z_txcrc32 z then zcrc32_bytes d else zcrc16_bytes d)) of (out, l) \<Rightarrow>
           ((if type = ZDATA then replicate (z_txnulls z) 0 else [])
              @ [ZPAD, ZDLE] @ [if z_txcrc32 z then ZBIN32 else ZBIN] @ out,
            z\<lparr>z_lastsent := l\<rparr>))"

definition zshhdr :: "int \<Rightarrow> byte list \<Rightarrow> s_zmodem \<Rightarrow> byte list \<times> s_zmodem" where
  "zshhdr type hdr z =
     (let d = word_of_int type # hdr in
      ([ZPAD, ZPAD, ZDLE, ZHEX] @ concat (map zputhex (d @ zcrc16_bytes d)) @ [0x0d, 0x0a]
         @ (if type \<noteq> ZFIN \<and> type \<noteq> ZACK then [0x11] else []),
       z\<lparr>z_txcrc32 := False\<rparr>))"

definition zsdata :: "byte list \<Rightarrow> byte \<Rightarrow> s_zmodem \<Rightarrow> byte list \<times> s_zmodem" where
  "zsdata buf frameend z =
     (case send_line (z_ctlesc z) (z_lastsent z) buf of (out, l) \<Rightarrow>
      case send_line (z_ctlesc z) l
             (if z_txcrc32 z then zcrc32_bytes (buf @ [frameend]) else zcrc16_bytes (buf @ [frameend])) of (crc, l) \<Rightarrow>
        (out @ [ZDLE, frameend] @ crc @ (if frameend = ZCRCW then [0x11] else []), z\<lparr>z_lastsent := l\<rparr>))"

definition stohdr :: "int \<Rightarrow> byte list" where
  "stohdr pos = (let p = word_of_int pos :: u64 in [ucast p, ucast (drop_bit 8 p), ucast (drop_bit 16 p), ucast (drop_bit 24 p)])"

definition rclhdr :: "byte list \<Rightarrow> int" where
  "rclhdr hdr = uint (hdr ! 0) + 0x100 * (uint (hdr ! 1) + 0x100 * (uint (hdr ! 2) + 0x100 * uint (hdr ! 3)))"

section \<open>Reading\<close>

definition is_xon :: "int \<Rightarrow> bool" where
  "is_xon c \<longleftrightarrow> c = 0x11 \<or> c = 0x13 \<or> c = 0x91 \<or> c = 0x93"

text \<open>A character with the escape in front of it, already read; \<open>cancnt\<close> counts the characters CAN in a row.\<close>

fun zdl_escape :: "bool \<Rightarrow> nat \<Rightarrow> line_event list \<Rightarrow> int \<times> line_event list" where
  "zdl_escape ctlesc cancnt [] = (ZHANGUP, [])"
| "zdl_escape ctlesc cancnt (e # evs) =
     (let c = event_code e; cancnt = (if c \<noteq> CAN then 0 else cancnt) in
      if c < 0 then (c, evs)
      else if c = CAN then (if cancnt + 1 \<ge> 5 then (GOTCAN, evs) else zdl_escape ctlesc (cancnt + 1) evs)
      else if frame_end c then (c + GOTOR, evs)
      else if c = ZRUB0 then (0x7f, evs)
      else if c = ZRUB1 then (0xff, evs)
      else if is_xon c then zdl_escape ctlesc cancnt evs
      else if ctlesc \<and> c AND 0x60 = 0 then zdl_escape ctlesc cancnt evs
      else if c AND 0x60 = 0x40 then (c XOR 0x40, evs)
      else (ZERROR, evs))"

fun zdlread :: "bool \<Rightarrow> line_event list \<Rightarrow> int \<times> line_event list" where
  "zdlread ctlesc [] = (ZHANGUP, [])"
| "zdlread ctlesc (e # evs) =
     (let c = event_code e in
      if c < 0 \<or> c AND 0x60 \<noteq> 0 then (c, evs)
      else if c = uint ZDLE then zdl_escape ctlesc 0 evs
      else if is_xon c then zdlread ctlesc evs
      else if ctlesc then zdlread ctlesc evs
      else (c, evs))"

text \<open>\<open>noxrd7\<close> of one character: \<open>None\<close> when it is dropped.\<close>

definition noxrd7_char :: "bool \<Rightarrow> int \<Rightarrow> int option" where
  "noxrd7_char ctlesc c =
     (if c < 0 then Some c
      else
        let c = c AND 0x7f in
        if c = 0x11 \<or> c = 0x13 then None
        else if c = 0x0d \<or> c = 0x0a \<or> c = uint ZDLE then Some c
        else if ctlesc \<and> c AND 0x60 = 0 then None
        else Some c)"

fun noxrd7 :: "bool \<Rightarrow> line_event list \<Rightarrow> int \<times> line_event list" where
  "noxrd7 ctlesc [] = (ZHANGUP, [])"
| "noxrd7 ctlesc (e # evs) = (case noxrd7_char ctlesc (event_code e) of None \<Rightarrow> noxrd7 ctlesc evs | Some c \<Rightarrow> (c, evs))"

text \<open>\<open>zmodem_getbyte_raw\<close>, which nothing calls, is \<open>noxrd7\<close>. \<open>zmodem_getbyte\<close>, not called either, never leaves
  the escape once it has seen one, and tests bits of the decimal number 140.\<close>

fun zmodem_getbyte :: "bool \<Rightarrow> bool \<Rightarrow> nat \<Rightarrow> line_event list \<Rightarrow> int \<times> line_event list" where
  "zmodem_getbyte ctlesc gotdle cancount [] = (ZHANGUP, [])"
| "zmodem_getbyte ctlesc gotdle cancount (e # evs) =
     (let c = event_code e in
      if c < 0 then (c, evs)
      else if gotdle then
        (let cancount = (if c \<noteq> CAN then 0 else cancount) in
         if c = CAN then (if cancount + 1 > 5 then (GOTCAN, evs) else zmodem_getbyte ctlesc True (cancount + 1) evs)
         else if frame_end c then (c + GOTOR, evs)
         else if c = ZRUB0 then (0x7f, evs)
         else if c = ZRUB1 then (0xff, evs)
         else if is_xon c then zmodem_getbyte ctlesc True cancount evs
         else if (\<not> ctlesc \<or> c AND 140 \<noteq> 0) \<and> c AND 0x60 = 0x40 then (c XOR 0x40, evs)
         else zmodem_getbyte ctlesc True cancount evs)
      else if c = uint ZDLE then zmodem_getbyte ctlesc True cancount evs
      else if is_xon c then zmodem_getbyte ctlesc False cancount evs
      else if \<not> ctlesc \<or> c AND 0x60 \<noteq> 0 then (c, evs)
      else zmodem_getbyte ctlesc False cancount evs)"

definition zmodem_getbyte_raw :: "bool \<Rightarrow> line_event list \<Rightarrow> int \<times> line_event list" where
  "zmodem_getbyte_raw = noxrd7"

subsection \<open>Blocks of data\<close>

lemma zdl_escape_rest: "length (snd (zdl_escape ctlesc n evs)) \<le> length evs"
proof (induction evs arbitrary: n)
  case (Cons e evs)
  have "length (snd (zdl_escape ctlesc m evs)) \<le> Suc (length evs)" for m using Cons [of m] by simp
  then show ?case by (cases ctlesc) (simp_all add: Let_def)
qed simp

lemma zdlread_rest: "length (snd (zdlread ctlesc evs)) \<le> length evs"
proof (induction evs)
  case (Cons e evs)
  then show ?case using zdl_escape_rest [of ctlesc 0 evs] by (cases ctlesc) (simp_all add: Let_def)
qed simp

lemma zdlread_shrinks: "zdlread ctlesc (e # evs) = (c, rest) \<Longrightarrow> length rest \<le> length evs"
  using zdl_escape_rest [of ctlesc 0 evs] zdlread_rest [of ctlesc evs]
  by (cases "zdlread ctlesc evs"; cases "zdl_escape ctlesc 0 evs"; cases ctlesc) (simp_all add: Let_def split: if_splits)

text \<open>The checksum that follows: a code in place of one of its bytes is the third component.\<close>

fun crc_bytes :: "(int \<Rightarrow> 'c \<Rightarrow> 'c) \<Rightarrow> bool \<Rightarrow> nat \<Rightarrow> 'c \<Rightarrow> line_event list \<Rightarrow> 'c \<times> line_event list \<times> int option" where
  "crc_bytes upd ctlesc 0 crc evs = (crc, evs, None)"
| "crc_bytes upd ctlesc (Suc k) crc evs =
     (case zdlread ctlesc evs of (c, evs) \<Rightarrow>
        if c < 0 \<or> c > 0xff then (crc, evs, Some c) else crc_bytes upd ctlesc k (upd c crc) evs)"

lemma crc_bytes_rest: "crc_bytes upd ctlesc k crc evs = (crc', rest, r) \<Longrightarrow>
    length rest \<le> length evs \<and> (evs = [] \<longrightarrow> r = None \<or> r = Some ZHANGUP) \<and> (evs \<noteq> [] \<longrightarrow> r \<noteq> None \<longrightarrow> length rest < length evs)"
proof (induction k arbitrary: crc evs)
  case (Suc k)
  obtain c evs1 where z: "zdlread ctlesc evs = (c, evs1)" by fastforce
  have l: "length evs1 \<le> length evs" "evs \<noteq> [] \<Longrightarrow> length evs1 < length evs"
    using zdlread_rest [of ctlesc evs] z zdlread_shrinks [of ctlesc "hd evs" "tl evs" c evs1] by (auto simp: neq_Nil_conv less_Suc_eq_le)
  show ?case
  proof (cases "c < 0 \<or> c > 0xff")
    case True
    then show ?thesis using Suc.prems z l by (cases evs) auto
  next
    case False
    then have "evs \<noteq> []" using z by (auto simp: ZHANGUP_def)
    moreover have "crc_bytes upd ctlesc k (upd c crc) evs1 = (crc', rest, r)" using Suc.prems z False by auto
    ultimately show ?thesis using Suc.IH l by fastforce
  qed
qed simp

lemma crc_bytes_less:
  "crc_bytes upd ctlesc k crc evs = (crc', rest, Some c) \<Longrightarrow> 2 * length rest + (if got_end c then 1 else 0) < 2 * length evs + 1"
  using crc_bytes_rest [of upd ctlesc k crc evs crc' rest "Some c"]
  by (cases "evs = []") (auto simp: got_end_def frame_end_def GOTOR_def ZHANGUP_def)

text \<open>
  The label \<open>switch_again\<close>: a code that is no byte ends the block. After the end of a frame its checksum is read,
  and a code in it is looked at in the same way. The last component tells whether the checksum was complete.
\<close>

function switch_again ::
  "(int \<Rightarrow> 'c \<Rightarrow> 'c) \<Rightarrow> nat \<Rightarrow> bool \<Rightarrow> int \<Rightarrow> 'c \<Rightarrow> line_event list \<Rightarrow> int \<times> 'c \<times> line_event list \<times> bool" where
  "switch_again upd k ctlesc c crc evs =
     (if got_end c then
        (case crc_bytes upd ctlesc k (upd (c - GOTOR) crc) evs of
           (crc, evs, None) \<Rightarrow> (c, crc, evs, True)
         | (crc, evs, Some c) \<Rightarrow> switch_again upd k ctlesc c crc evs)
      else (if c = GOTCAN then ZCAN else c, crc, evs, False))"
  by pat_completeness auto
termination
  by (relation "measure (\<lambda>(upd, k, ctlesc, c, crc, evs). 2 * length evs + (if got_end c then 1 else 0))")
    (auto dest!: crc_bytes_less [OF sym] split: if_splits)

declare switch_again.simps [simp del]

text \<open>
  \<open>slots\<close> is how many bytes the buffer has room for, one more than the length asked for. The result: the
  code, the number of bytes counted, what has been stored, and the rest of the line.
\<close>

fun zrdat :: "(int \<Rightarrow> 'c \<Rightarrow> 'c) \<Rightarrow> nat \<Rightarrow> ('c \<Rightarrow> bool) \<Rightarrow> bool \<Rightarrow> nat \<Rightarrow> byte list \<Rightarrow> 'c \<Rightarrow> line_event list
    \<Rightarrow> int \<times> nat \<times> byte list \<times> line_event list" where
  "zrdat upd k good ctlesc 0 buf crc evs = (ZERROR, 0, buf, evs)"
| "zrdat upd k good ctlesc (Suc slots) buf crc evs =
     (case zdlread ctlesc evs of (c, evs) \<Rightarrow>
        if c < 0 \<or> c > 0xff then
          (case switch_again upd k ctlesc c crc evs of (d, crc, evs, complete) \<Rightarrow>
             (if complete \<and> \<not> good crc then ZCRCERR else d, if complete then length buf else 0, buf, evs))
        else zrdat upd k good ctlesc slots (buf @ [word_of_int c]) (upd c crc) evs)"

definition upd16 :: "int \<Rightarrow> u16 \<Rightarrow> u16" where
  "upd16 c crc = updcrc16 (word_of_int c) crc XOR (word_of_int c AND 0xff00)"

definition upd32 :: "int \<Rightarrow> u64 \<Rightarrow> u64" where
  "upd32 c crc = updcrc32 (word_of_int c) crc"

definition zrdat16 :: "bool \<Rightarrow> nat \<Rightarrow> line_event list \<Rightarrow> int \<times> nat \<times> byte list \<times> line_event list" where
  "zrdat16 ctlesc len evs = zrdat upd16 2 (\<lambda>crc. crc = 0) ctlesc (len + 1) [] 0 evs"

definition zrdat32 :: "bool \<Rightarrow> nat \<Rightarrow> line_event list \<Rightarrow> int \<times> nat \<times> byte list \<times> line_event list" where
  "zrdat32 ctlesc len evs = zrdat upd32 4 (\<lambda>crc. crc = 0xdebb20e3) ctlesc (len + 1) [] 0xffffffff evs"

definition zrdata :: "nat \<Rightarrow> s_zmodem \<Rightarrow> line_event list \<Rightarrow> int \<times> byte list \<times> s_zmodem \<times> line_event list" where
  "zrdata len z evs =
     (case (if z_rxframeind z = ZBIN32 then zrdat32 (z_ctlesc z) len evs else zrdat16 (z_ctlesc z) len evs) of
        (c, n, buf, evs) \<Rightarrow> (c, buf, z\<lparr>z_rxcount := n\<rparr>, evs))"

subsection \<open>Headers\<close>

text \<open>Two hexadecimal digits in lower case.\<close>

definition zhexdigit :: "int \<Rightarrow> int" where
  "zhexdigit c = (let n = c - 0x30 in if n > 9 then n - 39 else n)"

definition zgethex :: "bool \<Rightarrow> line_event list \<Rightarrow> int \<times> line_event list" where
  "zgethex ctlesc evs =
     (case noxrd7 ctlesc evs of (c, evs) \<Rightarrow>
        if c < 0 then (c, evs)
        else
          let n = zhexdigit c in
          if n < 0 \<or> n > 15 then (ZERROR, evs)
          else
            (case noxrd7 ctlesc evs of (c, evs) \<Rightarrow>
               if c < 0 then (c, evs)
               else
                 let m = zhexdigit c in
                 if m < 0 \<or> m > 15 then (ZERROR, evs) else (m + 16 * n, evs)))"

text \<open>The bytes of a header one by one, into \<open>hdr\<close> from place \<open>i\<close>; a code that is negative ends it.\<close>

fun header_bytes :: "(line_event list \<Rightarrow> int \<times> line_event list) \<Rightarrow> (int \<Rightarrow> 'c \<Rightarrow> 'c) \<Rightarrow> nat \<Rightarrow> nat \<Rightarrow> byte list \<Rightarrow> 'c \<Rightarrow>
    line_event list \<Rightarrow> int option \<times> byte list \<times> 'c \<times> line_event list" where
  "header_bytes rd upd 0 i hdr crc evs = (None, hdr, crc, evs)"
| "header_bytes rd upd (Suc n) i hdr crc evs =
     (case rd evs of (c, evs) \<Rightarrow>
        if c < 0 then (Some c, hdr, crc, evs)
        else header_bytes rd upd n (i + 1) (if i < 4 then hdr[i := word_of_int c] else hdr) (upd c crc) evs)"

definition zrhdr ::
  "(line_event list \<Rightarrow> int \<times> line_event list) \<Rightarrow> (int \<Rightarrow> 'c \<Rightarrow> 'c) \<Rightarrow> 'c \<Rightarrow> nat \<Rightarrow> ('c \<Rightarrow> bool) \<Rightarrow> s_zmodem \<Rightarrow> line_event list \<Rightarrow>
    int \<times> s_zmodem \<times> line_event list" where
  "zrhdr rd upd start k good z evs =
     (case rd evs of (c, evs) \<Rightarrow>
        if c < 0 then (c, z, evs)
        else
          (case header_bytes rd upd (4 + k) 0 (z_rxhdr z) (upd c start) evs of (r, hdr, crc, evs) \<Rightarrow>
             let z = z\<lparr>z_rxtype := c, z_rxhdr := hdr\<rparr> in
             case r of Some c \<Rightarrow> (c, z, evs) | None \<Rightarrow> (if good crc then c else ZCRCERR, z, evs)))"

definition zrbhdr16 :: "s_zmodem \<Rightarrow> line_event list \<Rightarrow> int \<times> s_zmodem \<times> line_event list" where
  "zrbhdr16 z = zrhdr (zdlread (z_ctlesc z)) upd16 0 2 (\<lambda>crc. crc = 0) z"

definition zrbhdr32 :: "s_zmodem \<Rightarrow> line_event list \<Rightarrow> int \<times> s_zmodem \<times> line_event list" where
  "zrbhdr32 z = zrhdr (zdlread (z_ctlesc z)) upd32 0xffffffff 4 (\<lambda>crc. crc = 0xdebb20e3) z"

text \<open>Behind a good hexadecimal header one character that is there is thrown away, with a line feed behind a carriage return.\<close>

definition hex_tail :: "int \<Rightarrow> line_event list \<Rightarrow> int \<times> line_event list" where
  "hex_tail t evs =
     (if charwait evs then
        (case getchar evs of (c, evs) \<Rightarrow>
           if c = 0x8d \<or> c = 0x0d then
             (case getchar evs of (c, evs) \<Rightarrow> if c < 0 \<and> c \<noteq> ZTIMER then (c, evs) else (t, evs))
           else if c = ZEXIT \<or> c = ZHANGUP then (c, evs)
           else (t, evs))
      else (t, evs))"

definition zrhhdr :: "s_zmodem \<Rightarrow> line_event list \<Rightarrow> int \<times> s_zmodem \<times> line_event list" where
  "zrhhdr z evs =
     (case zrhdr (zgethex (z_ctlesc z)) upd16 0 2 (\<lambda>crc. crc = 0) z evs of (c, z, evs) \<Rightarrow>
        if c < 0 then (c, z, evs) else (case hex_tail c evs of (c, evs) \<Rightarrow> (c, z, evs)))"

text \<open>
  The search for a header: at the label \<open>again\<close>, behind a CAN (\<open>gotcan\<close>), behind the padding (\<open>splat\<close>), and behind
  the escape. \<open>n\<close> counts the garbage, \<open>cancount\<close> the characters CAN.
\<close>

datatype zhunt = Again | Gotcan | Splat | Frame
datatype zfound = Kind byte | Code int

fun hunt :: "bool \<Rightarrow> zhunt \<Rightarrow> nat \<Rightarrow> nat \<Rightarrow> line_event list \<Rightarrow> zfound \<times> line_event list" where
  "hunt ctlesc m n cancount [] = (Code ZHANGUP, [])"
| "hunt ctlesc m n cancount (e # evs) =
     (let c = event_code e;
          garbage = (if n \<le> 1 then (Code ZERROR, evs) else hunt ctlesc Again (n - 1) 5 evs);
          can = (if cancount \<le> 1 then (Code ZCAN, evs) else hunt ctlesc Gotcan n (cancount - 1) evs)
      in case m of
           Again \<Rightarrow>
             if c < 0 then (Code c, evs)
             else if c = CAN then can
             else if c = uint ZPAD \<or> c = uint ZPAD + 0x80 then hunt ctlesc Splat n 5 evs
             else garbage
         | Gotcan \<Rightarrow>
             if c = uint ZCRCW then (Code ZERROR, evs)
             else if c < 0 then (Code c, evs)
             else if c = CAN then
               (if cancount \<le> 1 then (Code ZCAN, evs) else hunt ctlesc Again n (cancount - 1) evs)
             else garbage
         | Splat \<Rightarrow>
             (case noxrd7_char ctlesc c of
                None \<Rightarrow> hunt ctlesc Splat n cancount evs
              | Some c \<Rightarrow>
                  if c = uint ZPAD then hunt ctlesc Splat n cancount evs
                  else if c < 0 then (Code c, evs)
                  else if c = uint ZDLE then hunt ctlesc Frame n cancount evs
                  else if n \<le> 1 then (Code ZERROR, evs) else hunt ctlesc Again (n - 1) cancount evs)
         | Frame \<Rightarrow>
             (case noxrd7_char ctlesc c of
                None \<Rightarrow> hunt ctlesc Frame n cancount evs
              | Some c \<Rightarrow>
                  if c < 0 then (Code c, evs)
                  else if c = uint ZBIN \<or> c = uint ZBIN32 \<or> c = uint ZHEX then (Kind (word_of_int c), evs)
                  else if c = CAN then can
                  else if n \<le> 1 then (Code ZERROR, evs) else hunt ctlesc Again (n - 1) cancount evs))"

definition zgethdr :: "s_zmodem \<Rightarrow> line_event list \<Rightarrow> int \<times> s_zmodem \<times> line_event list" where
  "zgethdr z evs =
     (let z = z\<lparr>z_rxframeind := 0, z_rxtype := 0\<rparr> in
      case hunt (z_ctlesc z) Again 8192 5 evs of
        (Code c, evs) \<Rightarrow> (c, z, evs)
      | (Kind k, evs) \<Rightarrow>
          let z = z\<lparr>z_rxcrc32 := (k = ZBIN32), z_rxframeind := k\<rparr> in
          (case (if k = ZBIN then zrbhdr16 z evs else if k = ZBIN32 then zrbhdr32 z evs else zrhhdr z evs) of (c, z, evs) \<Rightarrow>
             let z = (if c \<ge> 0 then z\<lparr>z_rxpos := rclhdr (z_rxhdr z)\<rparr> else z) in
             (if c = GOTCAN then ZCAN else c, z, evs)))"

end
