(* ===== verification/ZmodemProps.thy ===== *)
theory ZmodemProps
  imports Zmodem
begin

text \<open>What Zmodem writes as a header or a block of data is what it reads.\<close>

section \<open>Characters\<close>

lemma zcontrol_cases:
  assumes "(b::byte) AND 0x60 = 0"
  shows "b \<in> {0, 1, 2, 3, 4, 5, 6, 7, 8, 9, 10, 11, 12, 13, 14, 15, 16, 17, 18, 19, 20, 21, 22, 23, 24, 25, 26, 27, 28, 29, 30, 31,
    128, 129, 130, 131, 132, 133, 134, 135, 136, 137, 138, 139, 140, 141, 142, 143, 144, 145, 146, 147, 148, 149, 150, 151, 152,
    153, 154, 155, 156, 157, 158, 159}"
proof -
  have "\<not> bit (b AND 0x60) 5" "\<not> bit (b AND 0x60) 6" using assms by simp_all
  then have n: "\<not> bit b 5" "\<not> bit b 6" by (simp_all add: bit_simps)
  define l where "l = b AND mask 5"
  have "l < 32" using and_mask_less' [of 5 b] by (simp add: l_def)
  moreover have "b = l \<or> b = l OR 0x80"
    by (cases "bit b 7") (use n in \<open>auto intro!: byte_eqI simp: l_def bit_simps bit_mask_iff\<close>)
  ultimately show ?thesis using control_cases [of l] by auto
qed

lemma escaped_facts:
  assumes "(b::byte) AND 0x60 = 0"
  shows "uint (b XOR 0x40) \<noteq> CAN" "\<not> frame_end (uint (b XOR 0x40))" "uint (b XOR 0x40) \<noteq> ZRUB0" "uint (b XOR 0x40) \<noteq> ZRUB1"
    "\<not> is_xon (uint (b XOR 0x40))" "uint (b XOR 0x40) AND 0x60 = 0x40" "uint (b XOR 0x40) XOR 0x40 = uint b"
  using zcontrol_cases [OF assms]
  by (auto simp: CAN_def frame_end_def ZRUB0_def ZRUB1_def is_xon_def)

lemma uint_byte_eq: "(uint b = uint c) = (b = (c::byte))"
  by (simp add: word_uint_eq_iff)

lemma xon_byte: "is_xon (uint (b::byte)) \<longleftrightarrow> b \<in> {0x11, 0x13, 0x91, 0x93}"
  using uint_byte_eq [of b "0x11"] uint_byte_eq [of b "0x13"] uint_byte_eq [of b "0x91"] uint_byte_eq [of b "0x93"]
  by (auto simp: is_xon_def)

lemma control_int: "(uint (b::byte) AND 0x60 = 0) = (b AND 0x60 = 0)"
  using uint_byte_eq [of "b AND 0x60" 0] by (simp add: unsigned_and_eq)

lemma read_plain:
  assumes "b AND 0x60 \<noteq> 0 \<or> b \<noteq> ZDLE \<and> \<not> is_xon (uint b) \<and> \<not> r"
  shows "zdlread r (Ch b # rest) = (uint b, rest)"
  using assms uint_byte_eq [of b ZDLE] by (auto simp: control_int Let_def)

lemma read_escaped:
  assumes "b AND 0x60 = 0"
  shows "zdlread r (Ch ZDLE # Ch (b XOR 0x40) # rest) = (uint b, rest)"
proof -
  have "zdlread r (Ch ZDLE # Ch (b XOR 0x40) # rest) = zdl_escape r 0 (Ch (b XOR 0x40) # rest)"
    by (simp add: ZDLE_def Let_def)
  also have "\<dots> = (uint b, rest)"
    using escaped_facts [OF assms] by (simp add: Let_def)
  finally show ?thesis .
qed

text \<open>A byte written by a side that escapes what the reader would drop is read back.\<close>

lemma zsendline_read:
  assumes "r \<longrightarrow> s" "zsendline s l b = (out, l')"
  shows "zdlread r (map Ch out @ rest) = (uint b, rest)"
proof (cases "b AND 0x60 = 0")
  case True
  have "b \<noteq> ZDLE \<and> \<not> is_xon (uint b) \<and> \<not> r" if "out = [b]"
    using assms that True by (auto simp: zsendline_def zsendline_init_def Let_def xon_byte split: if_splits)
  moreover have "out = [b] \<or> out = [ZDLE, b XOR 0x40]"
    using assms(2) by (auto simp: zsendline_def Let_def split: if_splits)
  ultimately show ?thesis using read_plain read_escaped [OF True] by auto
next
  case False
  then have "out = [b]" using assms(2) by (auto simp: zsendline_def zsendline_init_def Let_def)
  then show ?thesis using read_plain False by simp
qed

section \<open>Checksums\<close>

lemma upd16_byte: "upd16 (uint b) crc = updcrc16 b crc"
proof -
  have "(word_of_int (uint b) :: u16) = ucast b" by simp
  moreover have "(ucast b :: u16) AND 0xff00 = 0"
  proof -
    have m: "(0xff00 :: u16) = push_bit 8 (mask 8)" by (simp add: mask_eq_exp_minus_1)
    show ?thesis unfolding m by (rule bit_word_eqI) (auto simp: bit_simps dest: bit_imp_le_length)
  qed
  ultimately show ?thesis by (simp add: upd16_def)
qed

lemma upd32_byte: "upd32 (uint b) crc = updcrc32 b crc"
  by (simp add: upd32_def)

lemma updcrc16_low: "updcrc16 b (crc XOR ucast c) = updcrc16 b crc XOR push_bit 8 (ucast (c::byte))"
proof -
  have "drop_bit 8 (crc XOR ucast c) = drop_bit 8 crc"
    by (rule bit_word_eqI) (auto simp: bit_simps dest: bit_imp_le_length)
  then show ?thesis by (simp add: updcrc16_def push_bit_xor ac_simps)
qed

lemma updcrc16_char: "updcrc16 b crc = updcrc16 0 crc XOR ucast b"
  by (simp add: updcrc16_def ac_simps)

lemma crc16_closed: "foldl (\<lambda>crc c. updcrc16 c crc) 0 (d @ zcrc16_bytes d) = 0"
proof -
  define f where "f = updcrc16 0 (updcrc16 0 (foldl (\<lambda>crc c. updcrc16 c crc) 0 d))"
  have "updcrc16 (ucast f) (updcrc16 (ucast (drop_bit 8 f)) (foldl (\<lambda>crc c. updcrc16 c crc) 0 d))
      = f XOR push_bit 8 (ucast (ucast (drop_bit 8 f) :: byte)) XOR ucast (ucast f :: byte)"
    by (simp only: updcrc16_char [of "ucast f"] updcrc16_char [of "ucast (drop_bit 8 f)"] updcrc16_low) (simp only: f_def ac_simps)
  also have "\<dots> = 0" by (rule bit_word_eqI) (auto simp: bit_simps)
  finally show ?thesis by (simp add: zcrc16_bytes_def Let_def f_def)
qed

lemma crc32_closed: "foldl (\<lambda>crc c. updcrc32 c crc) 0xffffffff (d @ zcrc32_bytes d) = 0xdebb20e3"
proof -
  have f: "foldl (\<lambda>crc c. updcrc32 c crc) 0xffffffff x = getcrc32ccitt x" for x using updcrc_macros by blast
  have "zcrc32_bytes d = fcs32 d"
    unfolding zcrc32_bytes_def f fcs32_def Let_def by simp
  then show ?thesis unfolding f using crc32_residue by simp
qed

section \<open>Blocks of data\<close>

lemma send_line_cons:
  assumes "r \<longrightarrow> s" "send_line s l (c # cs) = (out, l')"
  obtains out2 l2 where "send_line s l2 cs = (out2, l')" "\<forall>rest. zdlread r (map Ch out @ rest) = (uint c, map Ch out2 @ rest)"
proof -
  obtain d l2 where d: "zsendline s l c = (d, l2)" by fastforce
  obtain out2 l3 where o: "send_line s l2 cs = (out2, l3)" by fastforce
  have "out = d @ out2" "l3 = l'" using assms(2) d o by simp_all
  then have "send_line s l2 cs = (out2, l')" "\<forall>rest. zdlread r (map Ch out @ rest) = (uint c, map Ch out2 @ rest)"
    using o zsendline_read [OF assms(1) d] by simp_all
  then show thesis by (rule that)
qed

lemma byte_range: "\<not> (uint (c::byte) < 0 \<or> uint c > 0xff)"
  using uint_lt2p [of c] by simp

lemma data_read:
  assumes "r \<longrightarrow> s" "send_line s l data = (out, l')" "length data \<le> slots"
  shows "zrdat upd k good r slots buf crc (map Ch out @ rest)
    = zrdat upd k good r (slots - length data) (buf @ data) (foldl (\<lambda>crc c. upd (uint c) crc) crc data) rest"
  using assms(2,3)
proof (induction data arbitrary: l out slots buf crc)
  case (Cons c cs)
  obtain out2 l2 where o: "send_line s l2 cs = (out2, l')" "\<forall>rest. zdlread r (map Ch out @ rest) = (uint c, map Ch out2 @ rest)"
    by (rule send_line_cons [OF assms(1) Cons.prems(1)])
  obtain n where n: "slots = Suc n" "length cs \<le> n" using Cons.prems(2) by (cases slots) auto
  have "zrdat upd k good r slots buf crc (map Ch out @ rest) = zrdat upd k good r n (buf @ [c]) (upd (uint c) crc) (map Ch out2 @ rest)"
    using byte_range [of c] by (simp add: n o(2))
  also have "\<dots> = zrdat upd k good r (n - length cs) ((buf @ [c]) @ cs) (foldl (\<lambda>crc c. upd (uint c) crc) (upd (uint c) crc) cs) rest"
    by (rule Cons.IH [OF o(1) n(2)])
  finally show ?case by (simp add: n)
qed simp

lemma crc_read:
  assumes "r \<longrightarrow> s" "send_line s l cs = (out, l')"
  shows "crc_bytes upd r (length cs) crc (map Ch out @ rest) = (foldl (\<lambda>crc c. upd (uint c) crc) crc cs, rest, None)"
  using assms(2)
proof (induction cs arbitrary: l out crc)
  case (Cons c cs)
  obtain out2 l2 where o: "send_line s l2 cs = (out2, l')" "\<forall>rest. zdlread r (map Ch out @ rest) = (uint c, map Ch out2 @ rest)"
    by (rule send_line_cons [OF assms(1) Cons.prems])
  then show ?case using Cons.IH [OF o(1)] byte_range [of c] by simp
qed simp

lemma end_read:
  assumes "f \<in> {ZCRCE, ZCRCG, ZCRCQ, ZCRCW}"
  shows "zdlread r (Ch ZDLE # Ch f # rest) = (uint f + GOTOR, rest)" "got_end (uint f + GOTOR)" "uint f + GOTOR > 0xff"
  using assms
  by (auto simp: ZDLE_def ZCRCE_def ZCRCG_def ZCRCQ_def ZCRCW_def frame_end_def CAN_def got_end_def GOTOR_def)

lemma block_read:
  assumes "r \<longrightarrow> s" "send_line s l data = (out, l')" "send_line s l' crcs = (cout, l'')" "f \<in> {ZCRCE, ZCRCG, ZCRCQ, ZCRCW}"
    "length data \<le> len" "good (foldl (\<lambda>crc c. upd (uint c) crc) crc (data @ [f] @ crcs))"
  shows "zrdat upd (length crcs) good r (len + 1) [] crc (map Ch (out @ [ZDLE, f] @ cout) @ rest) = (uint f + GOTOR, length data, data, rest)"
proof -
  let ?crc = "foldl (\<lambda>crc c. upd (uint c) crc) crc data"
  obtain n where n: "len + 1 - length data = Suc n" using assms(5) by (cases "len + 1 - length data") auto
  have "zrdat upd (length crcs) good r (len + 1) [] crc (map Ch (out @ [ZDLE, f] @ cout) @ rest)
      = zrdat upd (length crcs) good r (Suc n) data ?crc (Ch ZDLE # Ch f # map Ch cout @ rest)"
    using data_read [OF assms(1,2), of "len + 1" upd "length crcs" good "[]" crc "Ch ZDLE # Ch f # map Ch cout @ rest"] assms(5)
    by (simp only: n append_Nil map_append append_assoc list.map append_Cons)
  also have "\<dots> = (case switch_again upd (length crcs) r (uint f + GOTOR) ?crc (map Ch cout @ rest) of (d, crc, evs, complete) \<Rightarrow>
      (if complete \<and> \<not> good crc then ZCRCERR else d, if complete then length data else 0, data, evs))"
    unfolding zrdat.simps end_read(1) [OF assms(4)] using end_read(3) [OF assms(4)] by simp
  also have "switch_again upd (length crcs) r (uint f + GOTOR) ?crc (map Ch cout @ rest)
      = (uint f + GOTOR, foldl (\<lambda>crc c. upd (uint c) crc) crc (data @ [f] @ crcs), rest, True)"
    by (subst switch_again.simps) (simp add: end_read(2) [OF assms(4)] crc_read [OF assms(1,3)])
  finally show ?thesis using assms(6) by simp
qed

section \<open>Headers\<close>

text \<open>A reader takes the characters of a text one after the other.\<close>

fun reads :: "(line_event list \<Rightarrow> int \<times> line_event list) \<Rightarrow> line_event list \<Rightarrow> byte list \<Rightarrow> line_event list \<Rightarrow> bool" where
  "reads rd evs [] rest \<longleftrightarrow> evs = rest"
| "reads rd evs (c # cs) rest \<longleftrightarrow> (case rd evs of (v, evs) \<Rightarrow> v = uint c \<and> reads rd evs cs rest)"

lemma line_reads:
  assumes "r \<longrightarrow> s" "send_line s l cs = (out, l')"
  shows "reads (zdlread r) (map Ch out @ rest) cs rest"
  using assms(2)
proof (induction cs arbitrary: l out)
  case (Cons c cs)
  obtain out2 l2 where "send_line s l2 cs = (out2, l')" "\<forall>rest. zdlread r (map Ch out @ rest) = (uint c, map Ch out2 @ rest)"
    by (rule send_line_cons [OF assms(1) Cons.prems])
  then show ?case using Cons.IH by simp
qed simp

lemma header_crc: "reads rd evs cs rest \<Longrightarrow> 4 \<le> i \<Longrightarrow>
    header_bytes rd upd (length cs) i hdr crc evs = (None, hdr, foldl (\<lambda>crc c. upd (uint c) crc) crc cs, rest)"
proof (induction cs arbitrary: evs i crc)
  case (Cons c cs)
  then show ?case by (cases "rd evs") simp
qed simp

lemma zheader_read:
  assumes "reads rd evs (h @ crcs) rest" "length h = 4" "length hdr = 4"
  shows "header_bytes rd upd (4 + length crcs) 0 hdr crc evs = (None, h, foldl (\<lambda>crc c. upd (uint c) crc) crc (h @ crcs), rest)"
proof -
  obtain a b c d where h: "h = [a, b, c, d]" using assms(2) by (auto simp: numeral_eq_Suc length_Suc_conv)
  obtain v w x y where "hdr = [v, w, x, y]" using assms(3) by (auto simp: numeral_eq_Suc length_Suc_conv)
  then show ?thesis
    using assms(1) header_crc [where upd = upd] by (auto simp: h numeral_eq_Suc split: prod.splits)
qed

lemma zrhdr_read:
  assumes "reads rd evs (t # h @ crcs) rest" "length h = 4" "length (z_rxhdr z) = 4"
    "good (foldl (\<lambda>crc c. upd (uint c) crc) start (t # h @ crcs))"
  shows "zrhdr rd upd start (length crcs) good z evs = (uint t, z\<lparr>z_rxtype := uint t, z_rxhdr := h\<rparr>, rest)"
proof -
  obtain evs2 where r: "rd evs = (uint t, evs2)" "reads rd evs2 (h @ crcs) rest" using assms(1) by (auto split: prod.splits)
  then show ?thesis
    using zheader_read [OF r(2) assms(2,3), where upd = upd and crc = "upd (uint t) start"] assms(4) by (simp add: zrhdr_def Let_def)
qed

definition hexchar :: "byte \<Rightarrow> byte" where
  "hexchar d = (if d < 10 then d + 0x30 else d + 0x57)"

lemma hexchar_facts:
  assumes "(d::byte) < 16"
  shows "uint (hexchar d) AND 0x7f = uint (hexchar d)" "uint (hexchar d) AND 0x60 \<noteq> 0" "uint (hexchar d) \<noteq> 0x11" "uint (hexchar d) \<noteq> 0x13"
    "zhexdigit (uint (hexchar d)) = uint d"
  using nibble_cases [OF assms] by (auto simp: hexchar_def zhexdigit_def Let_def)

lemma hexdigit_read: "d < 16 \<Longrightarrow> noxrd7 r (Ch (hexchar d) # rest) = (uint (hexchar d), rest)"
  using hexchar_facts [of d] by (simp add: noxrd7_char_def Let_def)

lemma zputhex_chars: "zputhex c = [hexchar (drop_bit 4 c AND 0x0f), hexchar (c AND 0x0f)]"
  by (simp add: zputhex_def hexchar_def)

lemma uint_nibbles: "uint (c AND 0x0f) + 16 * uint (drop_bit 4 c AND 0x0f) = uint (c::byte)"
proof -
  have m: "(0x0f :: byte) = mask 4" by (simp add: mask_eq_exp_minus_1)
  have "drop_bit 4 c AND 0x0f = drop_bit 4 c"
    unfolding m by (rule bit_word_eqI) (auto simp: bit_simps bit_mask_iff dest: bit_imp_le_length)
  moreover have "uint (drop_bit 4 c) = drop_bit 4 (uint c)"
    using uint_lt2p [of c] by (simp add: unsigned_drop_bit_eq take_bit_int_eq_self)
  ultimately have "uint (drop_bit 4 c AND 0x0f) = uint c div 16" by (simp only: drop_bit_eq_div) simp
  moreover have "uint (c AND 0x0f) = uint c mod 16"
    unfolding m take_bit_eq_mask [symmetric] by (simp only: unsigned_take_bit_eq) (simp add: take_bit_eq_mod)
  ultimately show ?thesis by (simp add: mod_div_mult_eq mult.commute)
qed

lemma hex_reads: "reads (zgethex r) (map Ch (concat (map zputhex cs)) @ rest) cs rest"
proof (induction cs)
  case (Cons c cs)
  let ?h = "drop_bit 4 c AND 0x0f" and ?l = "c AND 0x0f"
  have "uint ?h < 16" "uint ?l < 16" using nibble_less [of "drop_bit 4 c"] nibble_less [of c] by (simp_all add: word_less_def)
  then have "zgethex r (map Ch (zputhex c) @ evs) = (uint c, evs)" for evs
    using hexdigit_read [OF nibble_less [of "drop_bit 4 c"]] hexdigit_read [OF nibble_less [of c]] uint_nibbles [of c]
      hexchar_facts(5) [OF nibble_less [of "drop_bit 4 c"]] hexchar_facts(5) [OF nibble_less [of c]]
    by (simp add: zgethex_def zputhex_chars Let_def)
  then show ?case using Cons by simp
qed simp

lemma foldl_upd16: "foldl (\<lambda>crc c. upd16 (uint c) crc) crc cs = foldl (\<lambda>crc c. updcrc16 c crc) crc cs"
  by (simp add: upd16_byte)

lemma foldl_upd32: "foldl (\<lambda>crc c. upd32 (uint c) crc) crc cs = foldl (\<lambda>crc c. updcrc32 c crc) crc cs"
  by (simp add: upd32_byte)

lemma length_zcrc [simp]: "length (zcrc16_bytes d) = 2" "length (zcrc32_bytes d) = 4"
  by (simp_all add: zcrc16_bytes_def zcrc32_bytes_def Let_def)

lemma hunt_binary: "hunt r Again n 5 (Ch ZPAD # Ch ZDLE # Ch f # rest) = (Kind f, rest)" if "f = ZBIN \<or> f = ZBIN32" for n
  using that by (auto simp: ZPAD_def ZDLE_def ZBIN_def ZBIN32_def ZHEX_def CAN_def noxrd7_char_def Let_def)

lemma hunt_hex: "hunt r Again n 5 (Ch ZPAD # Ch ZPAD # Ch ZDLE # Ch ZHEX # rest) = (Kind ZHEX, rest)" for n
  by (simp add: ZPAD_def ZDLE_def ZBIN_def ZBIN32_def ZHEX_def CAN_def noxrd7_char_def Let_def)

declare hunt.simps [simp del]

lemma crc16_foldl: "foldl (\<lambda>crc c. upd16 (uint c) crc) 0 (d @ zcrc16_bytes d) = 0"
  using crc16_closed [of d] by (simp only: foldl_upd16)

lemma crc32_foldl: "foldl (\<lambda>crc c. upd32 (uint c) crc) 0xffffffff (d @ zcrc32_bytes d) = 0xdebb20e3"
  using crc32_closed [of d] by (simp only: foldl_upd32)

lemma zsbhdr_read:
  assumes "z_ctlesc R \<longrightarrow> z_ctlesc S" "length h = 4" "length (z_rxhdr R) = 4" "0 \<le> t" "t < 256" "t = ZDATA \<longrightarrow> z_txnulls S = 0"
    "zsbhdr t h S = (out, S')"
  shows "zgethdr R (map Ch out @ rest) =
    (t, R\<lparr>z_rxframeind := if z_txcrc32 S' then ZBIN32 else ZBIN, z_rxtype := t, z_rxcrc32 := z_txcrc32 S', z_rxhdr := h, z_rxpos := rclhdr h\<rparr>, rest)"
proof -
  let ?t = "word_of_int t :: byte"
  let ?crc = "if z_txfcs32 S then zcrc32_bytes (?t # h) else zcrc16_bytes (?t # h)"
  let ?f = "if z_txfcs32 S then ZBIN32 else ZBIN"
  let ?R = "R\<lparr>z_rxframeind := 0, z_rxtype := 0\<rparr>"
  let ?R2 = "?R\<lparr>z_rxcrc32 := (?f = ZBIN32), z_rxframeind := ?f\<rparr>"
  obtain body l where b: "send_line (z_ctlesc S) (z_lastsent S) ((?t # h) @ ?crc) = (body, l)" by fastforce
  have S': "z_txcrc32 S' = z_txfcs32 S" using assms(7) by (auto simp: zsbhdr_def Let_def split: prod.splits)
  have out: "out = [ZPAD, ZDLE, ?f] @ body"
    using assms(6,7) b by (cases "z_txfcs32 S") (auto simp: zsbhdr_def Let_def)
  have t: "uint ?t = t" using assms(4,5) by (simp add: take_bit_int_eq_self unsigned_of_int)
  have hunted: "hunt (z_ctlesc R) Again 8192 5 (map Ch out @ rest) = (Kind ?f, map Ch body @ rest)"
    using hunt_binary [of ?f "z_ctlesc R" 8192 "map Ch body @ rest"] by (simp add: out)
  have r: "reads (zdlread (z_ctlesc R)) (map Ch body @ rest) (?t # h @ ?crc) rest" using line_reads [OF assms(1) b, of rest] by simp
  have 16: "zrbhdr16 ?R2 (map Ch body @ rest) = (t, ?R2\<lparr>z_rxtype := t, z_rxhdr := h\<rparr>, rest)" if "\<not> z_txfcs32 S"
    using zrhdr_read [of "zdlread (z_ctlesc R)" "map Ch body @ rest" ?t h "zcrc16_bytes (?t # h)" rest ?R2 "\<lambda>crc. crc = 0" upd16 0]
      r that assms(2,3) crc16_foldl [of "?t # h"] by (simp add: zrbhdr16_def t)
  have 32: "zrbhdr32 ?R2 (map Ch body @ rest) = (t, ?R2\<lparr>z_rxtype := t, z_rxhdr := h\<rparr>, rest)" if "z_txfcs32 S"
    using zrhdr_read [of "zdlread (z_ctlesc R)" "map Ch body @ rest" ?t h "zcrc32_bytes (?t # h)" rest ?R2 "\<lambda>crc. crc = 0xdebb20e3" upd32 "0xffffffff"]
      r that assms(2,3) crc32_foldl [of "?t # h"] by (simp add: zrbhdr32_def t)
  have "ZBIN \<noteq> ZBIN32" "t \<noteq> GOTCAN" using assms(5) by (simp_all add: ZBIN_def ZBIN32_def GOTCAN_def)
  then show ?thesis
    using assms(4) hunted 16 32 S' by (cases "z_txfcs32 S") (simp_all add: zgethdr_def Let_def)
qed

lemma zsdata_read:
  assumes "z_ctlesc R \<longrightarrow> z_ctlesc S" "(z_rxframeind R = ZBIN32) = z_txcrc32 S" "f \<in> {ZCRCE, ZCRCG, ZCRCQ, ZCRCW}"
    "length d \<le> len" "zsdata d f S = (out, S')"
  shows "zrdata len R (map Ch out @ rest) =
    (uint f + GOTOR, d, R\<lparr>z_rxcount := length d\<rparr>, map Ch (if f = ZCRCW then [0x11] else []) @ rest)"
proof -
  let ?crcs = "if z_txcrc32 S then zcrc32_bytes (d @ [f]) else zcrc16_bytes (d @ [f])"
  let ?rest = "map Ch (if f = ZCRCW then [0x11] else []) @ rest"
  obtain body l where b: "send_line (z_ctlesc S) (z_lastsent S) d = (body, l)" by fastforce
  obtain tail l' where t: "send_line (z_ctlesc S) l ?crcs = (tail, l')" by fastforce
  have out: "map Ch out @ rest = map Ch (body @ [ZDLE, f] @ tail) @ ?rest"
    using assms(5) b t by (cases "z_txcrc32 S") (auto simp: zsdata_def)
  show ?thesis
  proof (cases "z_txcrc32 S")
    case True
    have "zrdat upd32 (length ?crcs) (\<lambda>crc. crc = 0xdebb20e3) (z_ctlesc R) (len + 1) [] 0xffffffff
        (map Ch (body @ [ZDLE, f] @ tail) @ ?rest) = (uint f + GOTOR, length d, d, ?rest)"
      by (rule block_read [OF assms(1) b t assms(3,4)]) (use True crc32_foldl [of "d @ [f]"] in simp)
    then show ?thesis unfolding zrdata_def zrdat32_def out using True assms(2) by simp
  next
    case False
    have "zrdat upd16 (length ?crcs) (\<lambda>crc. crc = 0) (z_ctlesc R) (len + 1) [] 0
        (map Ch (body @ [ZDLE, f] @ tail) @ ?rest) = (uint f + GOTOR, length d, d, ?rest)"
      by (rule block_read [OF assms(1) b t assms(3,4)]) (use False crc16_foldl [of "d @ [f]"] in simp)
    then show ?thesis unfolding zrdata_def zrdat16_def out using False assms(2) by simp
  qed
qed

lemma zshhdr_read:
  assumes "length h = 4" "length (z_rxhdr R) = 4" "0 \<le> t" "t < 256" "zshhdr t h S = (out, S')"
  shows "zgethdr R (map Ch out @ rest) =
    (t, R\<lparr>z_rxframeind := ZHEX, z_rxtype := t, z_rxcrc32 := False, z_rxhdr := h, z_rxpos := rclhdr h\<rparr>,
     map Ch (if t \<noteq> ZFIN \<and> t \<noteq> ZACK then [0x11] else []) @ rest)"
proof -
  let ?t = "word_of_int t :: byte"
  let ?crc = "zcrc16_bytes (?t # h)"
  let ?rest = "map Ch (if t \<noteq> ZFIN \<and> t \<noteq> ZACK then [0x11] else []) @ rest"
  let ?tail = "Ch 0x0d # Ch 0x0a # ?rest"
  let ?body = "map Ch (concat (map zputhex ((?t # h) @ ?crc))) @ ?tail"
  let ?R = "R\<lparr>z_rxframeind := 0, z_rxtype := 0, z_rxcrc32 := (ZHEX = ZBIN32), z_rxframeind := ZHEX\<rparr>"
  have t: "uint ?t = t" using assms(3,4) by (simp add: take_bit_int_eq_self unsigned_of_int)
  have out: "map Ch out @ rest = Ch ZPAD # Ch ZPAD # Ch ZDLE # Ch ZHEX # ?body"
    using assms(5) by (auto simp: zshhdr_def Let_def)
  have "reads (zgethex (z_ctlesc R)) ?body (?t # h @ ?crc) ?tail" using hex_reads [of "z_ctlesc R" "(?t # h) @ ?crc" ?tail] by simp
  then have "zrhdr (zgethex (z_ctlesc R)) upd16 0 2 (\<lambda>crc. crc = 0) ?R ?body = (t, ?R\<lparr>z_rxtype := t, z_rxhdr := h\<rparr>, ?tail)"
    using zrhdr_read [of "zgethex (z_ctlesc R)" ?body ?t h ?crc ?tail ?R "\<lambda>crc. crc = 0" upd16 0] assms(1,2) crc16_foldl [of "?t # h"]
    by (simp add: t)
  moreover have "hex_tail t ?tail = (t, ?rest)" by (simp add: hex_tail_def charwait_def getchar_def)
  ultimately have "zrhhdr ?R ?body = (t, ?R\<lparr>z_rxtype := t, z_rxhdr := h\<rparr>, ?rest)" using assms(3) by (simp add: zrhhdr_def)
  moreover have "ZHEX \<noteq> ZBIN" "ZHEX \<noteq> ZBIN32" "t \<noteq> GOTCAN" using assms(4) by (simp_all add: ZBIN_def ZBIN32_def ZHEX_def GOTCAN_def)
  ultimately show ?thesis
    unfolding out using assms(3) hunt_hex [of "z_ctlesc R" 8192 ?body] by (simp add: zgethdr_def Let_def)
qed

lemma uint_low_byte: "uint (ucast (drop_bit n (w :: u64)) :: byte) = (uint w div 2 ^ n) mod 256"
proof -
  have "uint (drop_bit n w) = uint w div 2 ^ n"
    using uint_lt2p [of w] by (simp only: unsigned_drop_bit_eq) (simp add: drop_bit_eq_div take_bit_int_eq_self)
  then show ?thesis by (simp only: unsigned_ucast_eq) (simp add: take_bit_eq_mod)
qed

lemma four_bytes:
  fixes p :: int
  shows "p mod 256 + 256 * ((p div 2 ^ 8) mod 256 + 256 * ((p div 2 ^ 16) mod 256 + 256 * ((p div 2 ^ 24) mod 256))) = p mod 4294967296"
proof -
  define q where "q = p div 256"
  define r where "r = q div 256"
  have m: "x mod (256 * c) = 256 * (x div 256 mod c) + x mod 256" if "0 \<le> c" for x c :: int using that by (rule zmod_zmult2_eq)
  have "p mod 4294967296 = 256 * (q mod 16777216) + p mod 256" using m [of 16777216 p] by (simp add: q_def)
  moreover have "q mod 16777216 = 256 * (r mod 65536) + q mod 256" using m [of 65536 q] by (simp add: r_def)
  moreover have "r mod 65536 = 256 * (r div 256 mod 256) + r mod 256" using m [of 256 r] by simp
  moreover have "p div 65536 = r" unfolding q_def r_def using zdiv_zmult2_eq [of 256 p 256] by simp
  moreover have "p div 16777216 = r div 256" unfolding q_def r_def using zdiv_zmult2_eq [of 256 p 65536] zdiv_zmult2_eq [of 256 p 256] zdiv_zmult2_eq [of 256 "p div 256" 256] by simp
  ultimately show ?thesis by (simp add: q_def)
qed

lemma rclhdr_list: "rclhdr [a, b, c, d] = uint a + 256 * (uint b + 256 * (uint c + 256 * uint d))"
  by (simp add: rclhdr_def numeral_eq_Suc)

lemma rclhdr_stohdr: "rclhdr (stohdr pos) = pos mod 2 ^ 32"
proof -
  let ?w = "word_of_int pos :: u64"
  have "stohdr pos = [ucast (drop_bit 0 ?w), ucast (drop_bit 8 ?w), ucast (drop_bit 16 ?w), ucast (drop_bit 24 ?w)]"
    unfolding stohdr_def Let_def by (simp only: drop_bit_0 id_apply)
  then have "rclhdr (stohdr pos) = uint ?w mod 4294967296"
    using four_bytes [of "uint ?w"] by (simp only: rclhdr_list uint_low_byte power_0 div_by_1)
  also have "uint ?w = pos mod 2 ^ 64" by (simp add: unsigned_of_int take_bit_eq_mod)
  finally show ?thesis by (simp add: mod_mod_cancel)
qed

text \<open>
  C33: Frames of Zmodem. A binary header, in either kind of checksum, and the block of data behind it, as one side
  writes them, are found and read by the other: the type of the frame, the four bytes of its header, the data and
  the way the block ends. The reader may drop bare control characters only if the writer escapes them all;
  the block is no longer than the buffer.
\<close>

theorem zmodem_frame_roundtrip:
  assumes "z_ctlesc R \<longrightarrow> z_ctlesc S" "length h = 4" "length (z_rxhdr R) = 4" "0 \<le> t" "t < 256"
    "t = ZDATA \<longrightarrow> z_txnulls S = 0" "f \<in> {ZCRCE, ZCRCG, ZCRCQ, ZCRCW}" "length d \<le> len"
  shows "case zsbhdr t h S of (out1, S1) \<Rightarrow> case zsdata d f S1 of (out2, S2) \<Rightarrow>
    case zgethdr R (map Ch out1 @ map Ch out2 @ rest) of (c, R1, evs) \<Rightarrow>
      c = t \<and> z_rxhdr R1 = h \<and> z_rxpos R1 = rclhdr h
      \<and> zrdata len R1 evs = (uint f + GOTOR, d, R1\<lparr>z_rxcount := length d\<rparr>, map Ch (if f = ZCRCW then [0x11] else []) @ rest)"
proof -
  obtain out1 S1 where 1: "zsbhdr t h S = (out1, S1)" by fastforce
  obtain out2 S2 where 2: "zsdata d f S1 = (out2, S2)" by fastforce
  let ?R1 = "R\<lparr>z_rxframeind := if z_txcrc32 S1 then ZBIN32 else ZBIN, z_rxtype := t, z_rxcrc32 := z_txcrc32 S1, z_rxhdr := h, z_rxpos := rclhdr h\<rparr>"
  have "z_ctlesc S1 = z_ctlesc S" using 1 by (auto simp: zsbhdr_def Let_def split: prod.splits)
  then have "zrdata len ?R1 (map Ch out2 @ rest) =
      (uint f + GOTOR, d, ?R1\<lparr>z_rxcount := length d\<rparr>, map Ch (if f = ZCRCW then [0x11] else []) @ rest)"
    by (intro zsdata_read [OF _ _ assms(7,8) 2]) (use assms(1) in \<open>simp_all add: ZBIN_def ZBIN32_def\<close>)
  then show ?thesis
    using zsbhdr_read [OF assms(1-6) 1, of "map Ch out2 @ rest"] by (simp only: 1 2 prod.case) simp
qed

text \<open>
  C34: Headers in hexadecimal digits. They are read by any other side, whatever either side escapes; with a
  position in the header, the position modulo \<open>2 ^ 32\<close> is what arrives. An XON is left on the line behind it, except behind
  ZFIN and ZACK.
\<close>

theorem zmodem_hex_position_roundtrip:
  assumes "length (z_rxhdr R) = 4" "0 \<le> t" "t < 256"
  shows "case zgethdr R (map Ch (fst (zshhdr t (stohdr pos) S)) @ rest) of (c, R', rest') \<Rightarrow>
    c = t \<and> z_rxpos R' = pos mod 2 ^ 32 \<and> rest' = map Ch (if t \<noteq> ZFIN \<and> t \<noteq> ZACK then [0x11] else []) @ rest"
proof -
  obtain out S' where s: "zshhdr t (stohdr pos) S = (out, S')" by fastforce
  have "length (stohdr pos) = 4" by (simp add: stohdr_def Let_def)
  from zshhdr_read [OF this assms s, of rest] show ?thesis by (simp add: s rclhdr_stohdr)
qed

definition zmodem_side :: "bool \<Rightarrow> bool \<Rightarrow> s_zmodem" where
  "zmodem_side ctlesc crc32 = \<lparr>z_ctlesc = ctlesc, z_lastsent = 0, z_txfcs32 = crc32, z_txcrc32 = False, z_txnulls = 0, z_rxcrc32 = False,
     z_rxframeind = 0, z_rxtype = 0, z_rxcount = 0, z_rxhdr = [0, 0, 0, 0], z_rxpos = 0, z_attn = replicate 33 0\<rparr>"

theorem zmodem_frame_roundtrip_witness:
  "case zsbhdr ZDATA [1, 2, 3, 4] (zmodem_side True True) of (out1, S1) \<Rightarrow> case zsdata [0x18, 0x11, 0xff] ZCRCW S1 of (out2, S2) \<Rightarrow>
    case zgethdr (zmodem_side False False) (map Ch out1 @ map Ch out2 @ [Late 7]) of (c, R1, evs) \<Rightarrow>
      c = ZDATA \<and> z_rxhdr R1 = [1, 2, 3, 4] \<and> z_rxpos R1 = rclhdr [1, 2, 3, 4]
      \<and> zrdata 1024 R1 evs = (uint ZCRCW + GOTOR, [0x18, 0x11, 0xff], R1\<lparr>z_rxcount := length [0x18 :: byte, 0x11, 0xff]\<rparr>,
           map Ch (if ZCRCW = ZCRCW then [0x11] else []) @ [Late 7])"
  by (rule zmodem_frame_roundtrip) (simp_all add: zmodem_side_def ZDATA_def)

theorem zmodem_hex_position_roundtrip_witness:
  "case zgethdr (zmodem_side True False) (map Ch (fst (zshhdr ZRPOS (stohdr 70000) (zmodem_side False True))) @ []) of (c, R', rest') \<Rightarrow>
    c = ZRPOS \<and> z_rxpos R' = 70000 mod 2 ^ 32 \<and> rest' = map Ch (if ZRPOS \<noteq> ZFIN \<and> ZRPOS \<noteq> ZACK then [0x11] else []) @ []"
  by (rule zmodem_hex_position_roundtrip) (simp_all add: zmodem_side_def ZRPOS_def)

end
