(* ===== verification/UPkt.thy ===== *)
theory UPkt
  imports UTime UString Files Ftn
begin

text \<open>
  Packets of messages (\<open>u_pkt.c\<close>): the header of a packet, the headers of its messages, and the file with both.
  \<open>local\<close> is \<open>localtime\<close>, and \<open>banner\<close> the name and version of the program.
\<close>

section \<open>Data\<close>

record s_message =
  msg_attr :: int
  msg_cost :: int
  msg_time :: int
  msg_orig :: s_faddr
  msg_dest :: s_faddr
  msg_namefrom :: string
  msg_nameto :: string
  msg_subject :: string
  msg_text :: "string option"
  msg_tagline :: "string option"
  msg_tearline :: "string option"
  msg_origin :: "string option"

record s_packet =
  pkt_orig :: s_faddr
  pkt_dest :: s_faddr
  pkt_baud :: int
  pkt_password :: string
  pkt_msgs :: "s_message list"

definition PKTHDR_SIZE :: nat where "PKTHDR_SIZE = 58"
definition PKTMSGHDR_SIZE :: nat where "PKTMSGHDR_SIZE = 168"

text \<open>The bits of the attributes that stay in a message that travels.\<close>

definition MSGATTR_NOTZEROED :: int where "MSGATTR_NOTZEROED = 0x7413"

section \<open>Headers\<close>

text \<open>Characters stored at a place of a buffer.\<close>

definition put_at :: "nat \<Rightarrow> string \<Rightarrow> string \<Rightarrow> string" where
  "put_at off d buf = take off buf @ d @ drop (off + length d) buf"

definition pkt_putword :: "nat \<Rightarrow> int \<Rightarrow> string \<Rightarrow> string" where
  "pkt_putword off val = put_at off [char_of val, char_of (val div 256)]"

definition pkt_putbyte :: "nat \<Rightarrow> int \<Rightarrow> string \<Rightarrow> string" where
  "pkt_putbyte off val = put_at off [char_of val]"

definition pkt_getword :: "nat \<Rightarrow> string \<Rightarrow> int" where
  "pkt_getword off buf = of_char (buf ! off) + 256 * of_char (buf ! (off + 1))"

text \<open>\<open>strnxcpy\<close> into a field: as much of the text as leaves room for a zero, and zeros up to the end.\<close>

definition put_text :: "nat \<Rightarrow> nat \<Rightarrow> string \<Rightarrow> string \<Rightarrow> string" where
  "put_text off n s = (let t = strncopy n s in put_at off (t @ replicate (n - length t) NUL))"

definition pkt_putpktheader :: "tm \<Rightarrow> s_packet \<Rightarrow> string" where
  "pkt_putpktheader ptm pkt =
     fold (\<lambda>f b. f b)
       [pkt_putword 0 (node (pkt_orig pkt)),
        pkt_putword 2 (node (pkt_dest pkt)),
        pkt_putword 4 (tm_year ptm),
        pkt_putword 6 (tm_mon ptm),
        pkt_putword 8 (tm_mday ptm),
        pkt_putword 10 (tm_hour ptm),
        pkt_putword 12 (tm_min ptm),
        pkt_putword 14 (tm_sec ptm),
        pkt_putword 16 (pkt_baud pkt),
        pkt_putword 18 2,
        pkt_putword 20 (net (pkt_orig pkt)),
        pkt_putword 22 (net (pkt_dest pkt)),
        pkt_putbyte 24 0xfe,
        pkt_putword 25 0,
        put_at 26 (take 8 (pkt_password pkt)),
        pkt_putword 34 (zone (pkt_orig pkt)),
        pkt_putword 36 (zone (pkt_dest pkt)),
        pkt_putword 46 (zone (pkt_orig pkt)),
        pkt_putword 48 (zone (pkt_dest pkt)),
        pkt_putword 50 (point (pkt_orig pkt)),
        pkt_putword 52 (point (pkt_dest pkt))]
       (replicate PKTHDR_SIZE NUL)"

definition pkt_putmsgheader :: "tm \<Rightarrow> s_message \<Rightarrow> string" where
  "pkt_putmsgheader ptm msg =
     fold (\<lambda>f b. f b)
       [pkt_putword 0 2,
        pkt_putword 2 (node (msg_orig msg)),
        pkt_putword 4 (node (msg_dest msg)),
        pkt_putword 6 (net (msg_orig msg)),
        pkt_putword 8 (net (msg_dest msg)),
        pkt_putword 10 (msg_attr msg AND MSGATTR_NOTZEROED),
        pkt_putword 12 (msg_cost msg),
        put_text 14 20 (time_string_msghdr ptm),
        put_text 24 36 (msg_nameto msg),
        put_text 60 36 (msg_namefrom msg),
        put_text 96 72 (msg_subject msg)]
       (replicate PKTMSGHDR_SIZE NUL)"

section \<open>The file\<close>

text \<open>What is written of a message behind its header; failures of these writes are not looked at.\<close>

definition message_parts :: "string \<Rightarrow> s_message \<Rightarrow> string list" where
  "message_parts banner msg =
     (case msg_text msg of None \<Rightarrow> [] | Some t \<Rightarrow> [t @ [CHR 0x0D]])
     @ (case msg_tagline msg of None \<Rightarrow> [] | Some t \<Rightarrow> [''... '' @ t @ [CHR 0x0D]])
     @ [''--- '' @ (case msg_tearline msg of None \<Rightarrow> banner | Some t \<Rightarrow> t) @ [CHR 0x0D]]
     @ (case msg_origin msg of None \<Rightarrow> [] | Some t \<Rightarrow> [''* Origin: '' @ t @ [CHR 0x0D]])
     @ [[NUL]]"

fun write_parts :: "string list \<Rightarrow> stream \<Rightarrow> world \<Rightarrow> stream \<times> world" where
  "write_parts [] fp w = (fp, w)"
| "write_parts (p # ps) fp w = (case fwrite p fp w of (_, fp, w) \<Rightarrow> write_parts ps fp w)"

fun write_messages :: "(int \<Rightarrow> tm) \<Rightarrow> string \<Rightarrow> s_message list \<Rightarrow> stream \<Rightarrow> world \<Rightarrow> bool \<times> stream \<times> world" where
  "write_messages local banner [] fp w = (True, fp, w)"
| "write_messages local banner (m # ms) fp w =
     (case fwrite (pkt_putmsgheader (local (if msg_time m = 0 then now w else msg_time m)) m) fp w of (ok, fp, w) \<Rightarrow>
        if \<not> ok then (False, fp, w)
        else (case write_parts (message_parts banner m) fp w of (fp, w) \<Rightarrow> write_messages local banner ms fp w))"

text \<open>0 is success.\<close>

definition pkt_writepacket :: "(int \<Rightarrow> tm) \<Rightarrow> string \<Rightarrow> s_packet \<Rightarrow> stream \<Rightarrow> world \<Rightarrow> int \<times> stream \<times> world" where
  "pkt_writepacket local banner pkt fp w =
     (case fwrite (pkt_putpktheader (local (localtogmt (gmtoff w) (now w))) pkt) fp w of (ok, fp, w) \<Rightarrow>
        if \<not> ok then (1, fp, w)
        else
          (case write_messages local banner (pkt_msgs pkt) fp w of (ok, fp, w) \<Rightarrow>
             if \<not> ok then (1, fp, w)
             else (case write_parts [[NUL], [NUL]] fp w of (fp, w) \<Rightarrow> (0, fp, w))))"

definition pkt_createpacket :: "(int \<Rightarrow> tm) \<Rightarrow> string \<Rightarrow> string \<Rightarrow> s_packet \<Rightarrow> world \<Rightarrow> int \<times> world" where
  "pkt_createpacket local banner pktname pkt w =
     (case file_open pktname Mode_w w of
        (None, w) \<Rightarrow> (-1, w)
      | (Some fp, w) \<Rightarrow>
          (case pkt_writepacket local banner pkt fp w of (rc, fp, w) \<Rightarrow>
           case file_close fp w of (ok, w) \<Rightarrow> (if ok then rc else -1, w)))"

section \<open>What the headers hold\<close>

lemma length_put_at [simp]: "length (put_at off d buf) = max (length buf) (min off (length buf) + length d)"
  by (auto simp: put_at_def)

lemma put_at_same: "off + length d \<le> length buf \<Longrightarrow> k < length d \<Longrightarrow> put_at off d buf ! (off + k) = d ! k"
  by (auto simp: put_at_def nth_append)

lemma put_at_other:
  "off + length d \<le> length buf \<Longrightarrow> i < length buf \<Longrightarrow> i < off \<or> off + length d \<le> i \<Longrightarrow> put_at off d buf ! i = buf ! i"
  by (auto simp: put_at_def nth_append)

lemma getword_putword: "off + 2 \<le> length buf \<Longrightarrow> pkt_getword off (pkt_putword off v buf) = v mod 2 ^ 16"
proof -
  assume off: "off + 2 \<le> length buf"
  have "pkt_putword off v buf ! off = char_of v" "pkt_putword off v buf ! (off + 1) = char_of (v div 256)"
    using put_at_same [of off "[char_of v, char_of (v div 256)]" buf 0] put_at_same [of off "[char_of v, char_of (v div 256)]" buf 1] off
    by (simp_all add: pkt_putword_def)
  moreover have "v mod 256 + 256 * (v div 256 mod 256) = v mod 2 ^ 16"
    using zmod_zmult2_eq [of 256 v 256] by simp
  ultimately show ?thesis by (simp add: pkt_getword_def)
qed

lemma getword_put_other:
  "off + length d \<le> length buf \<Longrightarrow> i + 2 \<le> length buf \<Longrightarrow> i + 2 \<le> off \<or> off + length d \<le> i \<Longrightarrow>
    pkt_getword i (put_at off d buf) = pkt_getword i buf"
  using put_at_other [of off d buf i] put_at_other [of off d buf "i + 1"] by (auto simp: pkt_getword_def)

lemma getword_putword_other:
  "off + 2 \<le> length buf \<Longrightarrow> i + 2 \<le> length buf \<Longrightarrow> i + 2 \<le> off \<or> off + 2 \<le> i \<Longrightarrow>
    pkt_getword i (pkt_putword off v buf) = pkt_getword i buf"
  by (simp add: pkt_putword_def getword_put_other)

lemma getword_putbyte_other:
  "off + 1 \<le> length buf \<Longrightarrow> i + 2 \<le> length buf \<Longrightarrow> i + 2 \<le> off \<or> off + 1 \<le> i \<Longrightarrow>
    pkt_getword i (pkt_putbyte off v buf) = pkt_getword i buf"
  by (simp add: pkt_putbyte_def getword_put_other)

text \<open>For buffers of a known length.\<close>

lemma length_puts:
  "length buf = n \<Longrightarrow> off + 2 \<le> n \<Longrightarrow> length (pkt_putword off v buf) = n"
  "length buf = n \<Longrightarrow> off + 1 \<le> n \<Longrightarrow> length (pkt_putbyte off v buf) = n"
  "length buf = n \<Longrightarrow> off + length d \<le> n \<Longrightarrow> length (put_at off d buf) = n"
  by (simp_all add: pkt_putword_def pkt_putbyte_def)

lemma getword_puts:
  "length buf = n \<Longrightarrow> off + 2 \<le> n \<Longrightarrow> pkt_getword off (pkt_putword off v buf) = v mod 2 ^ 16"
  "length buf = n \<Longrightarrow> off + 2 \<le> n \<Longrightarrow> i + 2 \<le> n \<Longrightarrow> i + 2 \<le> off \<or> off + 2 \<le> i \<Longrightarrow>
    pkt_getword i (pkt_putword off v buf) = pkt_getword i buf"
  "length buf = n \<Longrightarrow> off + 1 \<le> n \<Longrightarrow> i + 2 \<le> n \<Longrightarrow> i + 2 \<le> off \<or> off + 1 \<le> i \<Longrightarrow>
    pkt_getword i (pkt_putbyte off v buf) = pkt_getword i buf"
  "length buf = n \<Longrightarrow> off + length d \<le> n \<Longrightarrow> i + 2 \<le> n \<Longrightarrow> i + 2 \<le> off \<or> off + length d \<le> i \<Longrightarrow>
    pkt_getword i (put_at off d buf) = pkt_getword i buf"
  by (simp_all add: getword_putword getword_putword_other getword_putbyte_other getword_put_other)

lemma putpktheader_reads_back:
  fixes ptm pkt defines "h \<equiv> pkt_putpktheader ptm pkt"
  shows "length h = 58" "pkt_getword 18 h = 2"
    "pkt_getword 0 h = node (pkt_orig pkt) mod 2 ^ 16" "pkt_getword 20 h = net (pkt_orig pkt) mod 2 ^ 16"
    "pkt_getword 34 h = zone (pkt_orig pkt) mod 2 ^ 16" "pkt_getword 46 h = zone (pkt_orig pkt) mod 2 ^ 16"
    "pkt_getword 50 h = point (pkt_orig pkt) mod 2 ^ 16"
    "pkt_getword 2 h = node (pkt_dest pkt) mod 2 ^ 16" "pkt_getword 22 h = net (pkt_dest pkt) mod 2 ^ 16"
    "pkt_getword 36 h = zone (pkt_dest pkt) mod 2 ^ 16" "pkt_getword 48 h = zone (pkt_dest pkt) mod 2 ^ 16"
    "pkt_getword 52 h = point (pkt_dest pkt) mod 2 ^ 16"
proof -
  define buf where "buf = replicate PKTHDR_SIZE NUL"
  have b [simp]: "length buf = 58" by (simp add: buf_def PKTHDR_SIZE_def)
  note [simp] = length_puts [where n = 58] getword_puts [where n = 58] and [simp del] = length_put_at
  note h = h_def pkt_putpktheader_def buf_def [symmetric] fold.simps id_apply o_apply
  show "length h = 58" by (simp add: h)
  show "pkt_getword 18 h = 2" by (simp add: h)
  show "pkt_getword 0 h = node (pkt_orig pkt) mod 2 ^ 16" "pkt_getword 20 h = net (pkt_orig pkt) mod 2 ^ 16"
    "pkt_getword 34 h = zone (pkt_orig pkt) mod 2 ^ 16" "pkt_getword 46 h = zone (pkt_orig pkt) mod 2 ^ 16"
    "pkt_getword 50 h = point (pkt_orig pkt) mod 2 ^ 16"
    "pkt_getword 2 h = node (pkt_dest pkt) mod 2 ^ 16" "pkt_getword 22 h = net (pkt_dest pkt) mod 2 ^ 16"
    "pkt_getword 36 h = zone (pkt_dest pkt) mod 2 ^ 16" "pkt_getword 48 h = zone (pkt_dest pkt) mod 2 ^ 16"
    "pkt_getword 52 h = point (pkt_dest pkt) mod 2 ^ 16"
    by (simp_all add: h)
qed

text \<open>Behind the date of a message there is room for ten characters only.\<close>

lemma take_put_at [simp]: "k \<le> off \<Longrightarrow> off \<le> length buf \<Longrightarrow> take k (put_at off d buf) = take k buf"
  by (simp add: put_at_def)

lemma length_strncopy: "0 < n \<Longrightarrow> nul_free s \<Longrightarrow> length (strncopy n s) < n"
  by (auto simp: strncopy_eq)

lemma putmsgheader_texts:
  fixes ptm msg defines "h \<equiv> pkt_putmsgheader ptm msg" and "date \<equiv> strncopy 20 (time_string_msghdr ptm)" and "to \<equiv> strncopy 36 (msg_nameto msg)"
  assumes n: "nul_free (time_string_msghdr ptm)" "nul_free (msg_nameto msg)" "nul_free (msg_namefrom msg)" "nul_free (msg_subject msg)"
  shows "drop 14 (take 60 h) = take 10 (date @ replicate (20 - length date) NUL) @ to @ replicate (36 - length to) NUL"
proof -
  define buf where "buf = fold (\<lambda>f b. f b)
    [pkt_putword 0 2, pkt_putword 2 (node (msg_orig msg)), pkt_putword 4 (node (msg_dest msg)), pkt_putword 6 (net (msg_orig msg)),
     pkt_putword 8 (net (msg_dest msg)), pkt_putword 10 (msg_attr msg AND MSGATTR_NOTZEROED), pkt_putword 12 (msg_cost msg)]
    (replicate 168 NUL)"
  have b: "length buf = 168" by (simp add: buf_def length_puts [where n = 168])
  have h: "h = put_text 96 72 (msg_subject msg) (put_text 60 36 (msg_namefrom msg)
      (put_text 24 36 (msg_nameto msg) (put_text 14 20 (time_string_msghdr ptm) buf)))"
    by (simp add: h_def pkt_putmsgheader_def buf_def PKTMSGHDR_SIZE_def)
  have l: "length date < 20" "length to < 36" "length (strncopy 36 (msg_namefrom msg)) < 36" "length (strncopy 72 (msg_subject msg)) < 72"
    using n by (simp_all add: date_def to_def length_strncopy)
  have "take 60 h = take 60 (put_text 24 36 (msg_nameto msg) (put_text 14 20 (time_string_msghdr ptm) buf))"
    using l b by (simp add: h put_text_def Let_def)
  also have "\<dots> = take 14 buf @ take 10 (date @ replicate (20 - length date) NUL) @ to @ replicate (36 - length to) NUL"
    using l b by (simp add: put_text_def Let_def date_def [symmetric] to_def [symmetric] put_at_def)
  finally show ?thesis using b by simp
qed

lemma fmt_0d_text: "nul_free (fmt_0d w v)" "2 \<le> w \<Longrightarrow> 2 \<le> length (fmt_0d w v)"
proof -
  have d: "nul_free (dec n)" for n using radix_digits [of 10] by (fastforce simp: nul_free_def isdigit_def)
  then show "nul_free (fmt_0d w v)" by (auto simp: fmt_0d_def pad0_def nul_free_def)
  have "dec n \<noteq> []" for n by (subst radix.simps) auto
  then show "2 \<le> w \<Longrightarrow> 2 \<le> length (fmt_0d w v)" by (auto simp: fmt_0d_def pad0_def Suc_le_eq)
qed

lemma msghdr_date: assumes "0 \<le> tm_mon ptm" "tm_mon ptm < 12"
  shows "nul_free (time_string_msghdr ptm)" "10 \<le> length (time_string_msghdr ptm)"
proof -
  have "months ! nat (tm_mon ptm) \<in> set months" using assms by (intro nth_mem) (simp add: months_def)
  then have m: "nul_free (months ! nat (tm_mon ptm))" "length (months ! nat (tm_mon ptm)) = 3" by (auto simp: months_def)
  then show "nul_free (time_string_msghdr ptm)" by (simp add: time_string_msghdr_def fmt_0d_text)
  show "10 \<le> length (time_string_msghdr ptm)"
    using m fmt_0d_text(2) [of 2 "tm_mday ptm"] fmt_0d_text(2) [of 2 "if tm_year ptm < 100 then tm_year ptm else tm_year ptm smod 100"]
    by (simp add: time_string_msghdr_def)
qed

text \<open>
  The date of a message in a packet. The field of the addressee begins ten characters behind the date, so the
  date, of nineteen characters, is cut off before the time, and the name follows without an end in between.
\<close>

theorem pkt_date_cut_off:
  assumes "0 \<le> tm_mon ptm" "tm_mon ptm < 12" "nul_free (msg_nameto msg)" "nul_free (msg_namefrom msg)" "nul_free (msg_subject msg)"
  shows "cstr (drop 14 (take 60 (pkt_putmsgheader ptm msg))) = take 10 (time_string_msghdr ptm) @ take 35 (msg_nameto msg)"
proof -
  have d: "nul_free (time_string_msghdr ptm)" "10 \<le> length (time_string_msghdr ptm)" using msghdr_date assms(1,2) by auto
  then have "drop 14 (take 60 (pkt_putmsgheader ptm msg)) =
      take 10 (time_string_msghdr ptm) @ take 35 (msg_nameto msg) @ replicate (36 - length (take 35 (msg_nameto msg))) NUL"
    by (simp add: putmsgheader_texts assms strncopy_eq)
  also have "replicate (36 - length (take 35 (msg_nameto msg))) NUL = NUL # replicate (35 - length (take 35 (msg_nameto msg))) NUL"
    by (simp add: Suc_diff_le flip: replicate_Suc)
  finally show ?thesis using d assms(3) by (simp add: cstr_append) (simp add: cstr_def)
qed

definition sample_message :: s_message where
  "sample_message = \<lparr>msg_attr = 0, msg_cost = 0, msg_time = 0,
     msg_orig = \<lparr>inetform = False, zone = 2, net = 5020, node = 1398, point = 11, domain = []\<rparr>,
     msg_dest = \<lparr>inetform = False, zone = 2, net = 5020, node = 52, point = 0, domain = []\<rparr>, msg_namefrom = ''bforce'', msg_nameto = ''Sysop'',
     msg_subject = ''Test'', msg_text = None, msg_tagline = None, msg_tearline = None, msg_origin = None\<rparr>"

theorem pkt_date_cut_off_witness:
  "cstr (drop 14 (take 60 (pkt_putmsgheader \<lparr>tm_sec = 7, tm_min = 30, tm_hour = 12, tm_mday = 15, tm_mon = 4, tm_year = 99, tm_wday = 6, tm_yday = 134\<rparr>
      sample_message)))
   = take 10 (time_string_msghdr \<lparr>tm_sec = 7, tm_min = 30, tm_hour = 12, tm_mday = 15, tm_mon = 4, tm_year = 99, tm_wday = 6, tm_yday = 134\<rparr>)
     @ take 35 (msg_nameto sample_message)"
  by (rule pkt_date_cut_off) (simp_all add: sample_message_def)

end
