(* ===== verification/ZmodemXfer.thy ===== *)
theory ZmodemXfer
  imports Zmodem UPkt
begin

text \<open>
  Transfers with Zmodem: the receiver (\<open>rx_zmodem\<close> in \<open>prot_zmrecv.c\<close>) and the sender (\<open>tx_zmodem\<close> in
  \<open>prot_zmsend.c\<close>). A pass of either loop is a function of the state and of the time; what the line brings and which
  writes succeed is part of the state, a list that is used up. Output that \<open>CLEAROUT\<close> throws away counts as written.
\<close>

section \<open>State and steps of both sides\<close>

record s_zxfer =
  zx_z :: s_zmodem
  zx_pi :: s_protinfo
  zx_g :: s_globals
  zx_w :: world
  zx_line :: "line_event list"
  zx_sends :: "bool list"
  zx_out :: "byte list"
  zx_tries :: nat
  zx_deadtimer :: int

text \<open>
  How a pass ends: the loop goes on, the transfer is over, the pass never ends, or it reads through a null pointer
  or behind an array.
\<close>

datatype 'a zpass = Go 'a | Over int 'a | Hangs | Crash

definition zthen :: "'a zpass \<Rightarrow> ('a \<Rightarrow> 'a zpass) \<Rightarrow> 'a zpass" where
  "zthen p f = (case p of Go s \<Rightarrow> f s | Over rc s \<Rightarrow> Over rc s | Hangs \<Rightarrow> Hangs | Crash \<Rightarrow> Crash)"

definition ZDEADTIMER :: int where "ZDEADTIMER = 180"
definition ZMAXBLOCKLEN :: nat where "ZMAXBLOCKLEN = 8192"
definition ZMAXTRIES :: nat where "ZMAXTRIES = 10"
definition ZRXSKIPFIN :: nat where "ZRXSKIPFIN = 2"
definition ZATTNLEN :: nat where "ZATTNLEN = 32"
definition TESCCTL :: byte where "TESCCTL = 0x40"
definition CANFC32 :: byte where "CANFC32 = 0x20"
definition CANFDX :: byte where "CANFDX = 0x01"

text \<open>A frame is written, and the result of the write looked at, or not.\<close>

definition zwrite :: "(s_zmodem \<Rightarrow> byte list \<times> s_zmodem) \<Rightarrow> 'a s_zxfer_scheme \<Rightarrow> bool \<times> 'a s_zxfer_scheme" where
  "zwrite frame s =
     (case frame (zx_z s) of (d, z) \<Rightarrow>
        (zx_sends s \<noteq> [] \<and> hd (zx_sends s), s\<lparr>zx_z := z, zx_sends := tl (zx_sends s), zx_out := zx_out s @ d\<rparr>))"

definition zsend ::
  "(s_zmodem \<Rightarrow> byte list \<times> s_zmodem) \<Rightarrow> ('a s_zxfer_scheme \<Rightarrow> 'a s_zxfer_scheme zpass) \<Rightarrow> 'a s_zxfer_scheme \<Rightarrow>
    'a s_zxfer_scheme zpass" where
  "zsend frame f s = (case zwrite frame s of (ok, s) \<Rightarrow> if ok then f s else Over PRC_ERROR s)"

definition ztry :: "(s_zmodem \<Rightarrow> byte list \<times> s_zmodem) \<Rightarrow> 'a s_zxfer_scheme \<Rightarrow> 'a s_zxfer_scheme" where
  "ztry frame s = snd (zwrite frame s)"

definition plain :: "byte list \<Rightarrow> s_zmodem \<Rightarrow> byte list \<times> s_zmodem" where
  "plain d z = (d, z)"

text \<open>A header in hexadecimal digits, with a position.\<close>

definition zpos :: "int \<Rightarrow> int \<Rightarrow> s_zmodem \<Rightarrow> byte list \<times> s_zmodem" where
  "zpos t pos = zshhdr t (stohdr pos)"

definition zread_header :: "'a s_zxfer_scheme \<Rightarrow> int \<times> 'a s_zxfer_scheme" where
  "zread_header s = (case zgethdr (zx_z s) (zx_line s) of (c, z, l) \<Rightarrow> (c, s\<lparr>zx_z := z, zx_line := l\<rparr>))"

definition zread_data :: "nat \<Rightarrow> 'a s_zxfer_scheme \<Rightarrow> int \<times> byte list \<times> 'a s_zxfer_scheme" where
  "zread_data len s = (case zrdata len (zx_z s) (zx_line s) of (c, d, z, l) \<Rightarrow> (c, d, s\<lparr>zx_z := z, zx_line := l\<rparr>))"

text \<open>The files of the transfer.\<close>

definition zset_recv :: "s_finfo \<Rightarrow> 'a s_zxfer_scheme \<Rightarrow> 'a s_zxfer_scheme" where
  "zset_recv fi s = s\<lparr>zx_pi := set_recv fi (zx_pi s)\<rparr>"

definition zset_send :: "s_finfo \<Rightarrow> 'a s_zxfer_scheme \<Rightarrow> 'a s_zxfer_scheme" where
  "zset_send fi s = s\<lparr>zx_pi := set_send fi (zx_pi s)\<rparr>"

definition zwith_recv :: "(s_finfo \<Rightarrow> 'a s_zxfer_scheme zpass) \<Rightarrow> 'a s_zxfer_scheme \<Rightarrow> 'a s_zxfer_scheme zpass" where
  "zwith_recv f s = (case receiving (zx_pi s) of None \<Rightarrow> Crash | Some fi \<Rightarrow> f fi)"

definition zwith_send :: "(s_finfo \<Rightarrow> 'a s_zxfer_scheme zpass) \<Rightarrow> 'a s_zxfer_scheme \<Rightarrow> 'a s_zxfer_scheme zpass" where
  "zwith_send f s = (case sending (zx_pi s) of None \<Rightarrow> Crash | Some fi \<Rightarrow> f fi)"

definition zclose_recv :: "conf \<Rightarrow> req_processor \<Rightarrow> 'a s_zxfer_scheme \<Rightarrow> (int \<times> 'a s_zxfer_scheme) option" where
  "zclose_recv cf req s =
     (case p_rx_fclose cf req (zx_g s) (zx_pi s) (zx_w s) of
        None \<Rightarrow> None | Some (rc, pi, w) \<Rightarrow> Some (rc, s\<lparr>zx_pi := pi, zx_w := w\<rparr>))"

definition zrecv_open :: "'a s_zxfer_scheme \<Rightarrow> bool" where
  "zrecv_open s \<longleftrightarrow> (case receiving (zx_pi s) of None \<Rightarrow> False | Some fi \<Rightarrow> fi_fp fi \<noteq> None)"

definition zlive :: "'a s_zxfer_scheme \<Rightarrow> 'a s_zxfer_scheme" where
  "zlive s = s\<lparr>zx_deadtimer := time_settimer (now (zx_w s)) ZDEADTIMER\<rparr>"

section \<open>The receiver\<close>

datatype e_zrxstates = ZRX_INIT | ZRX_INITACK | ZRX_GOTFILE | ZRX_SENDRPOS | ZRX_RPOSACK | ZRX_WAITDATA | ZRX_REFUSE | ZRX_SKIP

record s_zmodem_rx = s_zxfer +
  zr_state :: e_zrxstates
  zr_buf :: "byte list"
  zr_inithdrtype :: int
  zr_zrqinitcnt :: nat
  zr_zfincnt :: nat

text \<open>
  The attention string of the sender, in which 0xdd is a break and 0xde a pause. The pointer is moved to the
  first of them and never behind it, so the loop does not end; \<open>None\<close> says so.
\<close>

definition attn_special :: "byte \<Rightarrow> bool" where
  "attn_special c \<longleftrightarrow> c = 0xdd \<or> c = 0xde"

partial_function (option) zmodem_puts :: "byte list \<Rightarrow> byte list \<Rightarrow> byte list option" where
  "zmodem_puts out s =
     (if s = [] then Some out
      else if \<not> list_ex attn_special s then Some (out @ s)
      else zmodem_puts (out @ takeWhile (\<lambda>c. \<not> attn_special c) s) (dropWhile (\<lambda>c. \<not> attn_special c) s))"

text \<open>An attention string that fills the whole array has no end.\<close>

definition send_attn :: "s_zmodem_rx \<Rightarrow> s_zmodem_rx zpass" where
  "send_attn s =
     (if 0 \<notin> set (z_attn (zx_z s)) then Crash
      else
        (case zmodem_puts [] (takeWhile (\<lambda>c. c \<noteq> 0) (z_attn (zx_z s))) of
           None \<Rightarrow> Hangs | Some d \<Rightarrow> Go (if d = [] then s else ztry (plain d) s)))"

text \<open>\<open>%lo\<close>: white space, a sign, octal digits.\<close>

definition scan_octal :: "string \<Rightarrow> u64 option" where
  "scan_octal s =
     (let t = dropWhile isspace s;
          u = (if peek t = CHR ''-'' \<or> peek t = CHR ''+'' then tl t else t);
          ds = takeWhile (\<lambda>c. digit_val c < 8) u;
          v = radix_val 8 ds
      in if ds = [] then None
         else if v \<ge> 2 ^ 64 then Some (- 1)
         else Some (if peek t = CHR ''-'' then - word_of_nat v else word_of_nat v))"

text \<open>The name up to the first zero; behind it the size in decimal and the time in octal digits.\<close>

definition zmodem_proc_ZFILE :: "conf \<Rightarrow> 'a s_zxfer_scheme \<Rightarrow> byte list \<Rightarrow> int \<times> 'a s_zxfer_scheme" where
  "zmodem_proc_ZFILE cf s blk =
     (let name = takeWhile (\<lambda>c. c \<noteq> 0) blk; info = cstr (chars (drop (length name + 1) blk)) in
      if length name + 1 \<ge> length blk then (1, s)
      else
        (case scan_d info of
           None \<Rightarrow> (1, s)
         | Some (sz, r) \<Rightarrow>
             let tm = (case scan_octal r of None \<Rightarrow> 0 | Some v \<Rightarrow> sint v) in
             (case p_rx_fopen cf (chars name) (low_half 0 sz) tm 0 (zx_g s) (zx_pi s) (zx_w s) of (rc, g, pi, w) \<Rightarrow>
                (rc, s\<lparr>zx_g := g, zx_pi := pi, zx_w := w\<rparr>))))"

definition zrx_init :: "s_zmodem_rx \<Rightarrow> s_zmodem_rx zpass" where
  "zrx_init s =
     zsend (zshhdr (zr_inithdrtype s) [0, 0, 0, 0x27 OR (if z_ctlesc (zx_z s) then TESCCTL else 0)])
       (\<lambda>s. Go (s\<lparr>zr_inithdrtype := (if zr_inithdrtype s = ZSKIP then ZRINIT else zr_inithdrtype s), zr_state := ZRX_INITACK\<rparr>)) s"

text \<open>
  \<open>rxbuf\<close> is \<open>zr_buf\<close>, all \<open>ZMAXBLOCKLEN + 1\<close> bytes of it: a block is written to its beginning, and what it held
  before stays behind the block. A write behind the end would show as a longer list.
\<close>

definition zset_buf :: "byte list \<Rightarrow> s_zmodem_rx \<Rightarrow> s_zmodem_rx" where
  "zset_buf d s = s\<lparr>zr_buf := d @ drop (length d) (zr_buf s)\<rparr>"

text \<open>A zero is written behind the block, which then is the description of a file.\<close>

definition zrx_gotfile :: "conf \<Rightarrow> req_processor \<Rightarrow> s_zmodem_rx \<Rightarrow> s_zmodem_rx zpass" where
  "zrx_gotfile cf req s =
     (case (if zrecv_open s then zclose_recv cf req s else Some (0, s)) of
        None \<Rightarrow> Crash
      | Some (_, s) \<Rightarrow>
          let n = z_rxcount (zx_z s) in
          if n \<ge> length (zr_buf s) then Crash
          else
            (case zmodem_proc_ZFILE cf (s\<lparr>zr_buf := (zr_buf s)[n := 0]\<rparr>) (take n (zr_buf s)) of (rc, s) \<Rightarrow>
               Go (if rc = 0 then s\<lparr>zx_tries := 0, zr_state := ZRX_SENDRPOS\<rparr>
                   else if rc = 2 then s\<lparr>zr_state := ZRX_SKIP\<rparr> else s\<lparr>zr_state := ZRX_REFUSE\<rparr>)))"

definition zrx_sendrpos :: "s_zmodem_rx \<Rightarrow> s_zmodem_rx zpass" where
  "zrx_sendrpos s =
     zwith_recv (\<lambda>fi. zsend (zpos ZRPOS (uint (fi_received fi))) (\<lambda>s. Go (s\<lparr>zr_state := ZRX_RPOSACK\<rparr>)) s) s"

definition zrx_again :: "s_zmodem_rx \<Rightarrow> s_zmodem_rx" where
  "zrx_again s = s\<lparr>zx_tries := 0, zr_state := ZRX_SENDRPOS\<rparr>"

text \<open>A block of data has come; \<open>c\<close> is the way it ends.\<close>

definition zrx_block :: "int \<Rightarrow> s_zmodem_rx \<Rightarrow> s_zmodem_rx zpass" where
  "zrx_block c s =
     (let s = zlive s; d = take (z_rxcount (zx_z s)) (zr_buf s) in
      case p_rx_writefile (chars d) (zx_pi s) (zx_w s) of
        None \<Rightarrow> Crash
      | Some (n, pi, w) \<Rightarrow>
          let s = s\<lparr>zx_pi := pi, zx_w := w\<rparr> in
          if n < 0 then Go (s\<lparr>zr_state := (if n = -2 then ZRX_SKIP else ZRX_REFUSE)\<rparr>)
          else
            zwith_recv (\<lambda>fi.
              let received = fi_received fi + word_of_nat (length d); s = zset_recv (fi\<lparr>fi_received := received\<rparr>) s in
              if c = uint ZCRCW + GOTOR then zsend (zpos ZACK (uint received)) (\<lambda>s. Go (s\<lparr>zr_state := ZRX_RPOSACK\<rparr>)) s
              else if c = uint ZCRCQ + GOTOR then zsend (zpos ZACK (uint received)) Go s
              else if c = uint ZCRCE + GOTOR then Go (s\<lparr>zx_tries := 0, zr_state := ZRX_RPOSACK\<rparr>)
              else Go s) s)"

definition zrx_got_data :: "int \<Rightarrow> s_zmodem_rx \<Rightarrow> s_zmodem_rx zpass" where
  "zrx_got_data c s =
     (if c = ZHANGUP \<or> c = ZEXIT then Over PRC_ERROR s
      else if c = ZCAN then Over PRC_REMOTEABORTED s
      else if c = ZTIMER then Go (zrx_again s)
      else if c = ZERROR \<or> c = ZCRCERR then zthen (send_attn s) (\<lambda>s. Go (zrx_again s))
      else if got_end c then zrx_block c s
      else Go s)"

definition zrx_waitdata :: "s_zmodem_rx \<Rightarrow> s_zmodem_rx zpass" where
  "zrx_waitdata s =
     (case p_info (zx_pi s) False (zx_w s) of (rc, pi) \<Rightarrow>
        let s = s\<lparr>zx_pi := pi\<rparr> in
        if rc \<noteq> 0 then Over rc s
        else
          zwith_recv (\<lambda>_. case zread_data ZMAXBLOCKLEN s of (c, d, s) \<Rightarrow> zrx_got_data c (zset_buf d s)) s)"

definition zrx_skip :: "conf \<Rightarrow> s_zmodem_rx \<Rightarrow> s_zmodem_rx zpass" where
  "zrx_skip cf s =
     (let s = s\<lparr>zx_tries := 0\<rparr> in
      if conf_boolean cf ''zmodem_skip_by_pos'' then
        zwith_recv (\<lambda>fi. Go (zset_recv (fi\<lparr>fi_received := fi_total fi\<rparr>) s\<lparr>zr_state := ZRX_SENDRPOS\<rparr>)) s
      else Go (s\<lparr>zr_inithdrtype := ZSKIP, zr_state := ZRX_INIT\<rparr>))"

text \<open>The first half of a pass.\<close>

definition zrx_enter :: "conf \<Rightarrow> req_processor \<Rightarrow> s_zmodem_rx \<Rightarrow> s_zmodem_rx zpass" where
  "zrx_enter cf req s =
     (case zr_state s of
        ZRX_INIT \<Rightarrow> zrx_init s
      | ZRX_GOTFILE \<Rightarrow> zrx_gotfile cf req s
      | ZRX_SENDRPOS \<Rightarrow> zrx_sendrpos s
      | ZRX_WAITDATA \<Rightarrow> zrx_waitdata s
      | ZRX_REFUSE \<Rightarrow> Go (s\<lparr>zx_tries := 0, zr_inithdrtype := ZFERR, zr_state := ZRX_INIT\<rparr>)
      | ZRX_SKIP \<Rightarrow> zrx_skip cf s
      | _ \<Rightarrow> Go s)"

subsection \<open>Frames that come in\<close>

definition znak :: "s_zmodem_rx \<Rightarrow> s_zmodem_rx zpass" where
  "znak s = zsend (zpos ZNAK 0) Go s"

definition zrx_on_file :: "s_zmodem_rx \<Rightarrow> s_zmodem_rx zpass" where
  "zrx_on_file s =
     (case zread_data ZMAXBLOCKLEN (s\<lparr>zr_inithdrtype := ZRINIT\<rparr>) of (c, d, s) \<Rightarrow>
        let s = zset_buf d s in
        if c = ZHANGUP \<or> c = ZEXIT then Over PRC_ERROR s
        else if c = ZTIMER then Go (s\<lparr>zx_tries := 0, zr_state := ZRX_INIT\<rparr>)
        else if c = uint ZCRCW + GOTOR then Go (s\<lparr>zr_state := ZRX_GOTFILE\<rparr>)
        else zthen (znak s) (\<lambda>s. Go (s\<lparr>zr_state := ZRX_INITACK\<rparr>)))"

text \<open>What is read goes to the beginning of the array of the attention string, without an end of its own.\<close>

definition zrx_on_sinit :: "s_zmodem_rx \<Rightarrow> s_zmodem_rx zpass" where
  "zrx_on_sinit s =
     (let s = s\<lparr>zx_z := (zx_z s)\<lparr>z_ctlesc := (z_rxhdr (zx_z s) ! 3 AND TESCCTL \<noteq> 0)\<rparr>\<rparr> in
      case zread_data ZATTNLEN s of (c, d, s) \<Rightarrow>
        let s = s\<lparr>zx_z := (zx_z s)\<lparr>z_attn := d @ drop (length d) (z_attn (zx_z s))\<rparr>\<rparr> in
        if c = ZHANGUP \<or> c = ZEXIT then Over PRC_ERROR s
        else if c = ZTIMER then Go (s\<lparr>zx_tries := 0, zr_state := ZRX_INIT\<rparr>)
        else if c = uint ZCRCW + GOTOR then zsend (zpos ZACK 1) (\<lambda>s. Go (s\<lparr>zr_state := ZRX_INIT\<rparr>)) s
        else znak s)"

definition zrx_on_eof :: "conf \<Rightarrow> req_processor \<Rightarrow> s_zmodem_rx \<Rightarrow> s_zmodem_rx zpass" where
  "zrx_on_eof cf req s =
     zwith_recv (\<lambda>fi.
       if word_of_int (rclhdr (z_rxhdr (zx_z s))) = fi_received fi then
         (case zclose_recv cf req (zset_recv (fi\<lparr>fi_status := FSTAT_SUCCESS\<rparr>) s) of
            None \<Rightarrow> Crash
          | Some (rc, s) \<Rightarrow>
              let s = s\<lparr>zx_tries := 0\<rparr> in
              Go (if rc = 0 then s\<lparr>zr_state := ZRX_INIT, zr_inithdrtype := ZRINIT\<rparr> else s\<lparr>zr_state := ZRX_REFUSE\<rparr>))
       else Go s) s"

definition zrx_on_data :: "s_zmodem_rx \<Rightarrow> s_zmodem_rx zpass" where
  "zrx_on_data s =
     zwith_recv (\<lambda>fi.
       if word_of_int (rclhdr (z_rxhdr (zx_z s))) = fi_received fi then Go (s\<lparr>zr_state := ZRX_WAITDATA\<rparr>)
       else zthen (send_attn s) (\<lambda>s. Go (zrx_again s))) s"

text \<open>The command is printed up to the first zero in the array, which nothing puts behind it: without one the array is left.\<close>

definition zrx_on_command :: "s_zmodem_rx \<Rightarrow> s_zmodem_rx zpass" where
  "zrx_on_command s =
     (case zread_data ZMAXBLOCKLEN (s\<lparr>zr_inithdrtype := ZRINIT\<rparr>) of (c, d, s) \<Rightarrow>
        let s = zset_buf d s; init = (\<lambda>s. Go (s\<lparr>zx_tries := 0, zr_state := ZRX_INIT\<rparr>)) in
        if c = ZHANGUP \<or> c = ZEXIT then Over PRC_ERROR s
        else if c = ZTIMER then init s
        else if c = uint ZCRCW + GOTOR then
          if 0 \<notin> set (zr_buf s) then Crash else zsend (zpos ZCOMPL 0) (Over PRC_LOCALABORTED) s
        else zthen (znak s) init)"

definition zrx_on_fin :: "bool \<Rightarrow> s_zmodem_rx \<Rightarrow> s_zmodem_rx zpass" where
  "zrx_on_fin caller s =
     (let finish = zsend (zpos ZFIN 0) (Over PRC_NOERROR) in
      if zr_zrqinitcnt s > 0 then finish s
      else if zr_state s = ZRX_INITACK then
        let s = s\<lparr>zr_zfincnt := zr_zfincnt s + 1\<rparr> in
        if zr_zfincnt s > ZRXSKIPFIN \<or> \<not> caller then finish s else Go (s\<lparr>zr_state := ZRX_INIT\<rparr>)
      else Go s)"

text \<open>After a timeout or a refusal what was sent is sent again.\<close>

definition zrx_resend :: "s_zmodem_rx \<Rightarrow> s_zmodem_rx" where
  "zrx_resend s =
     (case zr_state s of ZRX_INITACK \<Rightarrow> s\<lparr>zr_state := ZRX_INIT\<rparr> | ZRX_RPOSACK \<Rightarrow> s\<lparr>zr_state := ZRX_SENDRPOS\<rparr> | _ \<Rightarrow> s)"

definition zrx_frame :: "conf \<Rightarrow> req_processor \<Rightarrow> bool \<Rightarrow> int \<Rightarrow> s_zmodem_rx \<Rightarrow> s_zmodem_rx zpass" where
  "zrx_frame cf req caller t s =
     (let init = (zr_state s = ZRX_INITACK); rpos = (zr_state s = ZRX_RPOSACK) in
      if t = ZCAN then Over PRC_REMOTEABORTED s
      else if t = ZHANGUP \<or> t = ZEXIT then Over PRC_ERROR s
      else if t = ZTIMER then Go (zrx_resend s)
      else if t = ZERROR \<or> t = ZCRCERR then znak s
      else if t = ZRQINIT then
        Go (if init then s\<lparr>zr_zrqinitcnt := zr_zrqinitcnt s + 1, zr_state := ZRX_INIT\<rparr> else s)
      else if t = ZFILE then if init \<or> rpos then zrx_on_file s else Go s
      else if t = ZSINIT then if init then zrx_on_sinit s else Go s
      else if t = ZNAK then Go (zrx_resend s)
      else if t = ZEOF then if rpos then zrx_on_eof cf req s else Go s
      else if t = ZSKIP then Go (if rpos then s\<lparr>zr_state := ZRX_INIT\<rparr> else s)
      else if t = ZDATA then if rpos then zrx_on_data s else Go s
      else if t = ZFREECNT then if init then zsend (zpos ZACK (-1)) Go s else Go s
      else if t = ZCOMMAND then if init then zrx_on_command s else Go s
      else if t = ZFIN then zrx_on_fin caller s
      else Go s)"

subsection \<open>The loop\<close>

definition zrx_listen :: "conf \<Rightarrow> req_processor \<Rightarrow> bool \<Rightarrow> s_zmodem_rx \<Rightarrow> s_zmodem_rx zpass" where
  "zrx_listen cf req caller s =
     (if zr_state s = ZRX_INITACK \<or> zr_state s = ZRX_RPOSACK
      then case zread_header s of (t, s) \<Rightarrow> zrx_frame cf req caller t s
      else Go s)"

definition zrx_tries :: "s_zmodem_rx \<Rightarrow> s_zmodem_rx zpass" where
  "zrx_tries s =
     (if zr_state s = ZRX_INIT \<or> zr_state s = ZRX_SENDRPOS then
        let s = s\<lparr>zx_tries := zx_tries s + 1\<rparr> in if zx_tries s > ZMAXTRIES then Over PRC_LOCALABORTED s else Go s
      else Go s)"

definition zrx_pass :: "conf \<Rightarrow> req_processor \<Rightarrow> bool \<Rightarrow> int \<Rightarrow> s_zmodem_rx \<Rightarrow> s_zmodem_rx zpass" where
  "zrx_pass cf req caller t s =
     (let s = s\<lparr>zx_w := (zx_w s)\<lparr>now := t\<rparr>\<rparr> in
      if timer_expired t (zx_deadtimer s) then Over PRC_LOCALABORTED s
      else zthen (zthen (zrx_tries s) (zrx_enter cf req)) (zrx_listen cf req caller))"

fun zrx_passes :: "conf \<Rightarrow> req_processor \<Rightarrow> bool \<Rightarrow> int list \<Rightarrow> s_zmodem_rx \<Rightarrow> s_zmodem_rx zpass" where
  "zrx_passes cf req caller [] s = Go s"
| "zrx_passes cf req caller (t # ts) s = zthen (zrx_pass cf req caller t s) (zrx_passes cf req caller ts)"

text \<open>\<open>mem\<close> is what the allocated array holds at first, whatever that is.\<close>

definition zrx_start ::
  "s_zmodem \<Rightarrow> s_protinfo \<Rightarrow> s_globals \<Rightarrow> world \<Rightarrow> line_event list \<Rightarrow> bool list \<Rightarrow> byte list \<Rightarrow> s_zmodem_rx" where
  "zrx_start z pi g w line sends mem =
     \<lparr>zx_z = z, zx_pi = (if pi_start_time pi = 0 then pi\<lparr>pi_start_time := now w\<rparr> else pi), zx_g = g, zx_w = w, zx_line = line,
      zx_sends = sends, zx_out = [], zx_tries = 0, zx_deadtimer = time_settimer (now w) ZDEADTIMER, zr_state = ZRX_INIT,
      zr_buf = mem, zr_inithdrtype = ZRINIT, zr_zrqinitcnt = 0, zr_zfincnt = 0\<rparr>"

text \<open>\<open>ts\<close> are the times of the passes; \<open>Go\<close> when they are used up before the transfer is over.\<close>

definition rx_zmodem ::
  "conf \<Rightarrow> req_processor \<Rightarrow> bool \<Rightarrow> int list \<Rightarrow> s_zmodem_rx \<Rightarrow> s_zmodem_rx zpass" where
  "rx_zmodem cf req caller ts s =
     (case zrx_passes cf req caller ts s of
        Over rc s \<Rightarrow>
          (case (if zrecv_open s then zclose_recv cf req s else Some (0, s)) of None \<Rightarrow> Crash | Some (_, s) \<Rightarrow> Over rc s)
      | p \<Rightarrow> p)"

section \<open>The sender\<close>

datatype e_ztxstates = ZTX_START | ZTX_RQINIT | ZTX_RQINITACK | ZTX_NEXTFILE | ZTX_FINFO | ZTX_FINFOACK | ZTX_STARTDATA
  | ZTX_DATA | ZTX_READCHECK | ZTX_CRCWACK | ZTX_CRCQACK | ZTX_EOF | ZTX_EOFACK | ZTX_FIN | ZTX_FINACK

record s_zmodem_tx = s_zxfer +
  zt_state :: e_ztxstates
  zt_maxblk :: int
  zt_blocklen :: int
  zt_goodblk :: int
  zt_txwindow :: int
  zt_newcnt :: int
  zt_rxbuflen :: int
  zt_rxlastpos :: int
  zt_beenhere :: int
  zt_bytescnt :: int
  zt_lastsync :: int
  zt_zrinitcnt :: nat
  zt_junkcnt :: int
  zt_initacked :: bool

definition text_bytes :: "string \<Rightarrow> byte list" where
  "text_bytes s = map of_char s"

text \<open>
  An empty packet goes to the end of the list of files when there is nothing to send. Its sender is the first address of
  the other side. \<open>temp\<close> is what \<open>mktemp\<close> makes of its template.
\<close>

definition zmodem_add_empty_packet ::
  "(int \<Rightarrow> tm) \<Rightarrow> string \<Rightarrow> string option \<Rightarrow> s_globals \<Rightarrow> s_protinfo \<Rightarrow> world \<Rightarrow> s_protinfo \<times> world" where
  "zmodem_add_empty_packet local banner temp g pi w =
     (case temp of
        None \<Rightarrow> (pi, w)
      | Some name \<Rightarrow>
          let pkt = \<lparr>pkt_orig = (case ses_remoteaddrs g of [] \<Rightarrow> zero_faddr | a # _ \<Rightarrow> sa_addr a), pkt_dest = ses_node_addr g,
                     pkt_baud = 0, pkt_password = [], pkt_msgs = []\<rparr>
          in (case pkt_createpacket local banner name pkt w of (rc, w) \<Rightarrow>
                if rc \<noteq> 0 then (pi, w)
                else
                  (case stat name w of
                     None \<Rightarrow> (pi, snd (unlink_file name w))
                   | Some st \<Rightarrow>
                       (pi\<lparr>pi_filelist := pi_filelist pi @
                          [\<lparr>fl_fname = name, fl_size = int (length (content st)), fl_type = TYPE_NETMAIL,
                            fl_status = STATUS_WILLSEND, fl_action = ACTION_FORCEUNLINK, fl_flavor = 0, fl_flodsc = 0\<rparr>]\<rparr>, w))))"

subsection \<open>What the states do\<close>

text \<open>A header in binary form with a position.\<close>

definition zbpos :: "int \<Rightarrow> int \<Rightarrow> s_zmodem \<Rightarrow> byte list \<times> s_zmodem" where
  "zbpos t pos = zsbhdr t (stohdr pos)"

definition zto :: "e_ztxstates \<Rightarrow> s_zmodem_tx \<Rightarrow> s_zmodem_tx zpass" where
  "zto t s = Go (s\<lparr>zt_state := t\<rparr>)"

definition zsend_to :: "(s_zmodem \<Rightarrow> byte list \<times> s_zmodem) \<Rightarrow> e_ztxstates \<Rightarrow> s_zmodem_tx \<Rightarrow> s_zmodem_tx zpass" where
  "zsend_to frame t = zsend frame (zto t)"

definition zclose_send :: "conf \<Rightarrow> s_zmodem_tx \<Rightarrow> s_zmodem_tx" where
  "zclose_send cf s =
     (if sending (zx_pi s) = None then s
      else case p_tx_fclose cf (zx_g s) (zx_pi s) (zx_w s) of (_, pi, w) \<Rightarrow> s\<lparr>zx_pi := pi, zx_w := w\<rparr>)"

definition ztx_nextfile :: "conf \<Rightarrow> s_zmodem_tx \<Rightarrow> s_zmodem_tx zpass" where
  "ztx_nextfile cf s =
     (let s = (zclose_send cf s)\<lparr>zx_tries := 0\<rparr> in
      case p_tx_fopen cf None (zx_g s) (zx_pi s) (zx_w s) of (rc, g, pi, w) \<Rightarrow>
        zto (if rc \<noteq> 0 then ZTX_FIN else ZTX_FINFO) (s\<lparr>zx_g := g, zx_pi := pi, zx_w := w\<rparr>))"

text \<open>The name, and behind a zero the size, the time and the mode in octal digits, and what is left to send.\<close>

definition finfo_text :: "s_finfo \<Rightarrow> s_protinfo \<Rightarrow> string" where
  "finfo_text fi pi =
     take 4095 (fi_net_name fi) @ [NUL] @ dec_int (sint (fi_total fi)) @ '' '' @ oct (nat (fi_mod_time fi mod 2 ^ 64)) @ '' ''
       @ oct (nat (fi_mode fi mod 2 ^ 64)) @ '' 0 '' @ dec_int (pi_send_left_num pi) @ '' '' @ dec_int (sint (pi_send_left_size pi))"

definition ztx_finfo :: "s_zmodem_tx \<Rightarrow> s_zmodem_tx zpass" where
  "ztx_finfo s =
     zwith_send (\<lambda>fi. zsend (zsbhdr ZFILE [0, 0, 0, 1])
       (zsend_to (zsdata (text_bytes (finfo_text fi (zx_pi s))) ZCRCW) ZTX_FINFOACK) (s\<lparr>zt_zrinitcnt := 0\<rparr>)) s"

definition ztx_startdata :: "s_zmodem_tx \<Rightarrow> s_zmodem_tx zpass" where
  "ztx_startdata s =
     zwith_send (\<lambda>fi. zsend_to (zbpos ZDATA (uint (fi_sent fi))) ZTX_DATA (s\<lparr>zt_newcnt := zt_rxbuflen s, zt_junkcnt := 0\<rparr>)) s"

text \<open>
  The characters that came while a block was sent: \<open>None\<close> when the line fails, \<open>Some True\<close> when a frame begins. Behind an
  XOFF one character is waited for.
\<close>

fun zjunk :: "int \<Rightarrow> line_event list \<Rightarrow> bool option \<times> int \<times> line_event list" where
  "zjunk k [] = (None, k, [])"
| "zjunk k (e # evs) =
     (let c = event_code e in
      if c = ZTIMER then (Some False, k, evs)
      else if c < 0 then (None, k, evs)
      else if c = CAN \<or> c = uint ZPAD then (Some True, k, evs)
      else if c = 0x13 \<or> c = 0x93 then
        (case getchar evs of (c, evs) \<Rightarrow> (if c < 0 then None else Some False, k, evs))
      else if c = 0x11 \<or> c = 0x91 then zjunk k evs
      else zjunk (k + 1) evs)"

definition ztx_junk :: "s_zmodem_tx \<Rightarrow> s_zmodem_tx zpass" where
  "ztx_junk s =
     (if \<not> charwait (zx_line s) then Go s
      else
        (case zjunk (zt_junkcnt s) (zx_line s) of (r, k, l) \<Rightarrow>
           let s = s\<lparr>zt_junkcnt := k, zx_line := l\<rparr> in
           case r of None \<Rightarrow> Over PRC_ERROR s | Some True \<Rightarrow> zto ZTX_READCHECK s | Some False \<Rightarrow> Go s))"

text \<open>How a block of \<open>n\<close> bytes ends, and what is left of the buffer of the receiver.\<close>

definition block_end :: "bool \<Rightarrow> int \<Rightarrow> s_zmodem_tx \<Rightarrow> byte \<times> int" where
  "block_end eof n s =
     (let left = (if zt_rxbuflen s \<noteq> 0 then zt_newcnt s - n else zt_newcnt s) in
      if eof then (ZCRCE, zt_newcnt s)
      else if zt_junkcnt s > 6 then (ZCRCW, zt_newcnt s)
      else if zt_bytescnt s = zt_lastsync s then (ZCRCW, zt_newcnt s)
      else if zt_rxbuflen s \<noteq> 0 \<and> left \<le> 0 then (ZCRCW, left)
      else if zt_txwindow s \<noteq> 0 \<and> zt_bytescnt s - zt_rxlastpos s + n \<ge> zt_txwindow s then (ZCRCQ, left)
      else (ZCRCG, left))"

definition grow_block :: "s_zmodem_tx \<Rightarrow> s_zmodem_tx" where
  "grow_block s =
     (let s = s\<lparr>zt_goodblk := zt_goodblk s + 1\<rparr> in
      if zt_goodblk s > 5 \<and> zt_blocklen s * 2 \<le> zt_maxblk s then s\<lparr>zt_goodblk := 0, zt_blocklen := zt_blocklen s * 2\<rparr> else s)"

text \<open>A block of \<open>n\<close> bytes has been sent.\<close>

definition ztx_sent :: "s_finfo \<Rightarrow> int \<Rightarrow> byte \<Rightarrow> s_zmodem_tx \<Rightarrow> s_zmodem_tx zpass" where
  "ztx_sent fi n dtype s =
     (let sent = fi_sent fi + word_of_int n;
          s = (zset_send (fi\<lparr>fi_sent := sent\<rparr>) (grow_block s))\<lparr>zt_bytescnt := sint sent\<rparr>
      in if dtype = ZCRCW then zto ZTX_CRCWACK (s\<lparr>zt_junkcnt := 0\<rparr>)
         else if dtype = ZCRCQ then zto ZTX_CRCQACK (s\<lparr>zt_junkcnt := 0\<rparr>)
         else if dtype = ZCRCE then zto ZTX_EOF (s\<lparr>zx_tries := 0\<rparr>)
         else ztx_junk s)"

definition ztx_data :: "s_zmodem_tx \<Rightarrow> s_zmodem_tx zpass" where
  "ztx_data s =
     (let s = zlive s in
      case p_tx_readfile (nat (zt_blocklen s)) (zx_pi s) (zx_w s) of
        None \<Rightarrow> Crash
      | Some (n, d, pi, w) \<Rightarrow>
          let s = s\<lparr>zx_pi := pi, zx_w := w\<rparr> in
          if n < 0 then zsend_to (zsdata [] ZCRCE) ZTX_NEXTFILE s
          else
            zwith_send (\<lambda>fi.
              case block_end (fi_eofseen fi) n s of (dtype, left) \<Rightarrow>
              case p_info (zx_pi s) False (zx_w s) of (rc, pi) \<Rightarrow>
                let s = s\<lparr>zt_newcnt := left, zx_pi := pi\<rparr> in
                if rc \<noteq> 0 then Over rc s
                else
                  zsend (zsdata (text_bytes d) dtype) (ztx_sent fi n dtype) s) s)"

definition ztx_enter :: "conf \<Rightarrow> s_zmodem_tx \<Rightarrow> s_zmodem_tx zpass" where
  "ztx_enter cf s =
     (case zt_state s of
        ZTX_START \<Rightarrow> zsend (plain (text_bytes ''rz'' @ [0x0d])) (\<lambda>s. zto ZTX_RQINIT (s\<lparr>zx_tries := 0\<rparr>)) s
      | ZTX_RQINIT \<Rightarrow> zsend_to (zpos ZRQINIT 0) ZTX_RQINITACK s
      | ZTX_NEXTFILE \<Rightarrow> ztx_nextfile cf s
      | ZTX_FINFO \<Rightarrow> ztx_finfo s
      | ZTX_STARTDATA \<Rightarrow> ztx_startdata s
      | ZTX_DATA \<Rightarrow> ztx_data s
      | ZTX_EOF \<Rightarrow> zwith_send (\<lambda>fi. zsend_to (zbpos ZEOF (uint (fi_sent fi))) ZTX_EOFACK s) s
      | ZTX_FIN \<Rightarrow> zsend_to (zpos ZFIN 0) ZTX_FINACK s
      | _ \<Rightarrow> Go s)"

subsection \<open>Frames that come in\<close>

fun ztx_resend :: "e_ztxstates \<Rightarrow> e_ztxstates" where
  "ztx_resend ZTX_RQINITACK = ZTX_RQINIT" | "ztx_resend ZTX_FINFOACK = ZTX_FINFO" | "ztx_resend ZTX_EOFACK = ZTX_EOF"
| "ztx_resend ZTX_FINACK = ZTX_FIN" | "ztx_resend t = t"

fun ztx_timeout :: "e_ztxstates \<Rightarrow> e_ztxstates" where
  "ztx_timeout ZTX_READCHECK = ZTX_STARTDATA" | "ztx_timeout ZTX_CRCWACK = ZTX_STARTDATA"
| "ztx_timeout ZTX_CRCQACK = ZTX_STARTDATA" | "ztx_timeout t = ztx_resend t"

text \<open>The empty block that ends a frame of data, its result not looked at.\<close>

definition zend_data :: "s_zmodem_tx \<Rightarrow> s_zmodem_tx" where
  "zend_data s = (if zt_state s = ZTX_READCHECK \<or> zt_state s = ZTX_CRCQACK then ztry (zsdata [] ZCRCE) s else s)"

text \<open>The file is over, one way or the other.\<close>

definition zfile_over :: "fstat \<Rightarrow> s_zmodem_tx \<Rightarrow> s_zmodem_tx zpass" where
  "zfile_over st s = zwith_send (\<lambda>fi. zto ZTX_NEXTFILE (zset_send (fi\<lparr>fi_status := st\<rparr>) s)) s"

definition in_file :: "e_ztxstates \<Rightarrow> bool" where
  "in_file t \<longleftrightarrow> t \<in> {ZTX_FINFOACK, ZTX_READCHECK, ZTX_CRCQACK, ZTX_CRCWACK, ZTX_EOFACK}"

definition ztx_on_rqinit :: "s_zmodem_tx \<Rightarrow> s_zmodem_tx zpass" where
  "ztx_on_rqinit s =
     (if zt_state s = ZTX_RQINITACK then
        if uint (z_rxhdr (zx_z s) ! 0) = ZCOMMAND then Go s else zsend_to (zpos ZNAK 0) ZTX_RQINIT s
      else if zt_state s = ZTX_FINFOACK then Over PRC_LOCALABORTED s
      else Go s)"

text \<open>What the receiver can do; the first ZRINIT is answered.\<close>

definition zoptions :: "s_zmodem_tx \<Rightarrow> s_zmodem_tx" where
  "zoptions s =
     (let h = z_rxhdr (zx_z s); f = h ! 3 in
      s\<lparr>zx_z := (zx_z s)\<lparr>z_txfcs32 := (f AND CANFC32 \<noteq> 0), z_ctlesc := (z_ctlesc (zx_z s) \<or> f AND TESCCTL \<noteq> 0)\<rparr>,
        zt_rxbuflen := uint (h ! 0) + 256 * uint (h ! 1),
        zt_txwindow := (if f AND CANFDX = 0 then 0 else zt_txwindow s)\<rparr>)"

definition ztx_on_rinit :: "s_zmodem_tx \<Rightarrow> s_zmodem_tx zpass" where
  "ztx_on_rinit s =
     (case zt_state s of
        ZTX_RQINITACK \<Rightarrow>
          zthen (if zt_initacked s then Go s else zsend (zpos ZRQINIT 0) (\<lambda>s. Go (s\<lparr>zt_initacked := True\<rparr>)) s)
            (\<lambda>s. zto ZTX_NEXTFILE (zoptions s))
      | ZTX_FINFOACK \<Rightarrow>
          let s = s\<lparr>zt_zrinitcnt := zt_zrinitcnt s + 1\<rparr> in Go (if zt_zrinitcnt s > 2 then s\<lparr>zt_state := ZTX_FINFO\<rparr> else s)
      | ZTX_READCHECK \<Rightarrow> zfile_over FSTAT_SUCCESS (zend_data s)
      | ZTX_CRCQACK \<Rightarrow> zfile_over FSTAT_SUCCESS (zend_data s)
      | ZTX_CRCWACK \<Rightarrow> zfile_over FSTAT_SUCCESS (zend_data s)
      | ZTX_EOFACK \<Rightarrow> zfile_over FSTAT_SUCCESS s
      | ZTX_FINACK \<Rightarrow> zto ZTX_FIN s
      | _ \<Rightarrow> Go s)"

definition ztx_on_ack :: "s_zmodem_tx \<Rightarrow> s_zmodem_tx zpass" where
  "ztx_on_ack s =
     (let pos = z_rxpos (zx_z s) in
      if zt_state s = ZTX_CRCWACK then
        zwith_send (\<lambda>fi. Go (s\<lparr>zt_rxlastpos := to_int pos,
          zt_state := (if fi_sent fi = word_of_int pos then ZTX_STARTDATA else ZTX_CRCWACK)\<rparr>)) s
      else if zt_state s = ZTX_READCHECK \<or> zt_state s = ZTX_CRCQACK then zto ZTX_DATA (s\<lparr>zt_rxlastpos := to_int pos\<rparr>)
      else Go s)"

text \<open>The other side asks for the file from another position, which in the middle of the data means trouble.\<close>

definition shrink_block :: "s_zmodem_tx \<Rightarrow> s_zmodem_tx" where
  "shrink_block s =
     (let s = s\<lparr>zt_goodblk := 0\<rparr> in
      if zt_lastsync s \<ge> z_rxpos (zx_z s) then
        let s = s\<lparr>zt_beenhere := zt_beenhere s + 1\<rparr> in
        if zt_beenhere s > 4 \<and> zt_blocklen s > 64 then s\<lparr>zt_blocklen := zt_blocklen s div 2\<rparr> else s
      else s)"

definition ztx_resync :: "s_zmodem_tx \<Rightarrow> s_zmodem_tx zpass" where
  "ztx_resync s =
     zwith_send (\<lambda>fi.
       let pos = z_rxpos (zx_z s); first = (zt_state s = ZTX_FINFOACK); s = zset_send (fi\<lparr>fi_eofseen := False\<rparr>) s in
       case (if pos \<noteq> 0 \<or> \<not> first then p_tx_rewind (zx_pi s) (nat pos) (zx_w s) else (0, zx_pi s, zx_w s)) of (rc, pi, w) \<Rightarrow>
         let s = s\<lparr>zx_pi := pi, zx_w := w\<rparr> in
         if rc \<noteq> 0 then zto ZTX_NEXTFILE s
         else
           zwith_send (\<lambda>fi.
             let fi = (if first \<and> pos \<noteq> 0 then fi\<lparr>fi_skipped := word_of_int pos\<rparr> else fi);
                 s = (if zt_state s \<in> {ZTX_READCHECK, ZTX_CRCWACK, ZTX_CRCQACK} then shrink_block s else s)
             in zto ZTX_STARTDATA ((zset_send (fi\<lparr>fi_sent := word_of_int pos\<rparr>) s)
                  \<lparr>zt_bytescnt := pos, zt_lastsync := (if first then pos - 1 else pos)\<rparr>)) s) s"

definition ztx_on_rpos :: "s_zmodem_tx \<Rightarrow> s_zmodem_tx zpass" where
  "ztx_on_rpos s =
     (if \<not> in_file (zt_state s) then Go s
      else
        let s = s\<lparr>zt_rxlastpos := to_int (z_rxpos (zx_z s))\<rparr> in
        if zt_state s = ZTX_READCHECK \<or> zt_state s = ZTX_CRCQACK then zsend (zsdata [] ZCRCE) ztx_resync s
        else ztx_resync s)"

text \<open>
  The checksum of the file, from where it is: up to a byte 0xff, which is taken for the end, or to one less than the number asked for.
  When none is asked for the count never comes to zero.
\<close>

definition crc_part :: "int \<Rightarrow> string \<Rightarrow> string" where
  "crc_part n d = takeWhile (\<lambda>c. c \<noteq> CHR 0xFF) (if n = 0 then d else take (nat (n - 1)) d)"

definition ztx_on_crc :: "s_zmodem_tx \<Rightarrow> s_zmodem_tx zpass" where
  "ztx_on_crc s =
     (if zt_state s \<noteq> ZTX_FINFOACK then Go s
      else
        zwith_send (\<lambda>fi.
          case fi_fp fi of
            None \<Rightarrow> Crash
          | Some fp \<Rightarrow>
              (case fread (length (content (inode (zx_w s) (st_inode fp)))) fp (zx_w s) of (d, fp, w) \<Rightarrow>
               let part = crc_part (z_rxpos (zx_z s)) d; fp = fp\<lparr>st_pos := st_pos fp - (length d - min (length d) (length part + 1)), st_eof := False\<rparr> in
               case fseek fp 0 w of (_, fp, w) \<Rightarrow>
                 let crc = NOT (foldl (\<lambda>crc c. updcrc32 c crc) 0xffffffff (text_bytes part));
                     s = (zset_send (fi\<lparr>fi_fp := Some fp\<rparr>) s)\<lparr>zx_w := w\<rparr>
                 in zsend (zbpos ZCRC (uint crc)) Go s)) s)"

definition ztx_on_ferr :: "s_zmodem_tx \<Rightarrow> s_zmodem_tx zpass" where
  "ztx_on_ferr s =
     (if \<not> in_file (zt_state s) then Go s
      else if zt_state s = ZTX_READCHECK \<or> zt_state s = ZTX_CRCQACK then zsend (zsdata [] ZCRCE) (zfile_over FSTAT_REFUSED) s
      else zfile_over FSTAT_REFUSED s)"

definition ztx_frame :: "int \<Rightarrow> s_zmodem_tx \<Rightarrow> s_zmodem_tx zpass" where
  "ztx_frame t s =
     (let rqinit = (zt_state s = ZTX_RQINITACK) in
      if t = ZCAN then Over PRC_REMOTEABORTED s
      else if t = ZHANGUP \<or> t = ZEXIT then Over PRC_ERROR s
      else if t = ZTIMER then
        zto (ztx_timeout (zt_state s)) (if zt_state s = ZTX_READCHECK then ztry (zsdata [] ZCRCE) s else s)
      else if t = ZERROR \<or> t = ZCRCERR then zsend (zpos ZNAK 0) Go s
      else if t = ZRQINIT then ztx_on_rqinit s
      else if t = ZRINIT then ztx_on_rinit s
      else if t = ZACK then ztx_on_ack s
      else if t = ZSKIP then if in_file (zt_state s) then zfile_over FSTAT_SKIPPED (zend_data s) else Go s
      else if t = ZFIN then
        if zt_state s = ZTX_FINACK then Over PRC_NOERROR (ztry (plain (text_bytes ''OO'')) s) else Go s
      else if t = ZRPOS then ztx_on_rpos s
      else if t = ZNAK then zto (ztx_resend (zt_state s)) s
      else if t = ZCRC then ztx_on_crc s
      else if t = ZCHALLENGE then if rqinit then zsend_to (zpos ZACK (z_rxpos (zx_z s))) ZTX_RQINIT s else Go s
      else if t = ZCOMMAND then if rqinit then zto ZTX_RQINIT s else Go s
      else if t = ZABORT then zsend (zpos ZFIN 0) (Over PRC_REMOTEABORTED) s
      else if t = ZFERR then ztx_on_ferr s
      else Go s)"

subsection \<open>The loop\<close>

definition ztx_listens :: "e_ztxstates \<Rightarrow> bool" where
  "ztx_listens t \<longleftrightarrow> t \<notin> {ZTX_START, ZTX_RQINIT, ZTX_FINFO, ZTX_DATA, ZTX_EOF, ZTX_FIN}"

definition ztx_listen :: "s_zmodem_tx \<Rightarrow> s_zmodem_tx zpass" where
  "ztx_listen s = (if ztx_listens (zt_state s) then case zread_header s of (t, s) \<Rightarrow> ztx_frame t s else Go s)"

definition ztx_tries :: "s_zmodem_tx \<Rightarrow> s_zmodem_tx zpass" where
  "ztx_tries s =
     (if zt_state s \<in> {ZTX_RQINIT, ZTX_FINFO, ZTX_EOF, ZTX_FIN} then
        let s = s\<lparr>zx_tries := zx_tries s + 1\<rparr> in if zx_tries s > ZMAXTRIES then Over PRC_LOCALABORTED s else Go s
      else Go s)"

definition ztx_pass :: "conf \<Rightarrow> int \<Rightarrow> s_zmodem_tx \<Rightarrow> s_zmodem_tx zpass" where
  "ztx_pass cf t s =
     (let s = s\<lparr>zx_w := (zx_w s)\<lparr>now := t\<rparr>\<rparr> in
      if timer_expired t (zx_deadtimer s) then Over PRC_LOCALABORTED s
      else zthen (zthen (ztx_tries s) (ztx_enter cf)) ztx_listen)"

fun ztx_passes :: "conf \<Rightarrow> int list \<Rightarrow> s_zmodem_tx \<Rightarrow> s_zmodem_tx zpass" where
  "ztx_passes cf [] s = Go s"
| "ztx_passes cf (t # ts) s = zthen (ztx_pass cf t s) (ztx_passes cf ts)"

definition start_block :: "conf \<Rightarrow> int \<Rightarrow> int" where
  "start_block cf maxblk =
     (let n = conf_number cf ''zmodem_start_block_size'' in
      if n > 0 \<and> n mod 64 = 0 \<and> n \<le> maxblk \<and> n \<ge> 64 then n else 256)"

definition ztx_start ::
  "conf \<Rightarrow> (int \<Rightarrow> tm) \<Rightarrow> string \<Rightarrow> string option \<Rightarrow> s_zmodem \<Rightarrow> s_protinfo \<Rightarrow> s_globals \<Rightarrow> world \<Rightarrow> line_event list \<Rightarrow> bool list \<Rightarrow>
    s_zmodem_tx" where
  "ztx_start cf local banner temp z pi g w line sends =
     (let pi = (if pi_start_time pi = 0 then pi\<lparr>pi_start_time := now w\<rparr> else pi);
          maxblk = (if ses_protocol g = PROT_ZMODEM then 1024 else 8192);
          (pi', w') = (if pi_send_left_size pi = 0 \<and> conf_boolean cf ''zmodem_send_dummy_pkt''
                       then zmodem_add_empty_packet local banner temp g pi w else (pi, w))
      in \<lparr>zx_z = z, zx_pi = pi', zx_g = g, zx_w = w', zx_line = line, zx_sends = sends, zx_out = [], zx_tries = 0,
          zx_deadtimer = time_settimer (now w) ZDEADTIMER, zt_state = ZTX_START, zt_maxblk = maxblk,
          zt_blocklen = start_block cf maxblk, zt_goodblk = 0, zt_txwindow = conf_number cf ''zmodem_tx_window'',
          zt_newcnt = 0, zt_rxbuflen = 0, zt_rxlastpos = 0, zt_beenhere = 0, zt_bytescnt = 0, zt_lastsync = 0,
          zt_zrinitcnt = 0, zt_junkcnt = 0, zt_initacked = False\<rparr>)"

definition tx_zmodem :: "conf \<Rightarrow> int list \<Rightarrow> s_zmodem_tx \<Rightarrow> s_zmodem_tx zpass" where
  "tx_zmodem cf ts s = (case ztx_passes cf ts s of Over rc s \<Rightarrow> Over rc (zclose_send cf s) | p \<Rightarrow> p)"

end
