(* ===== verification/ZmodemXferProps.thy ===== *)
theory ZmodemXferProps
  imports ZmodemXfer TransferFiles
begin

text \<open>
  What the two sides of a Zmodem transfer keep and when they end: the receiver takes a bounded number of passes for
  what is on the line, neither side loses the file it works on, and the ways in which a pass of the receiver can fail
  to end or to stay within its arrays are the ones of the attention string.
\<close>

section \<open>The attention string\<close>

lemma attn_split: "list_ex attn_special s \<Longrightarrow>
    dropWhile (\<lambda>c. \<not> attn_special c) s \<noteq> [] \<and> list_ex attn_special (dropWhile (\<lambda>c. \<not> attn_special c) s)"
  by (induction s) auto

lemma zmodem_puts_returns: "zmodem_puts out s = Some y \<Longrightarrow> \<not> list_ex attn_special s"
proof (rule zmodem_puts.raw_induct [of "\<lambda>out s y. \<not> list_ex attn_special s"], rule notI)
  fix f :: "byte list \<Rightarrow> byte list \<Rightarrow> byte list option" and out s y
  let ?p = "\<lambda>c. \<not> attn_special c"
  assume ih: "\<And>out s y. f out s = Some y \<Longrightarrow> \<not> list_ex attn_special s" and a: "list_ex attn_special s"
    and r: "(if s = [] then Some out else if \<not> list_ex attn_special s then Some (out @ s)
             else f (out @ takeWhile ?p s) (dropWhile ?p s)) = Some y"
  then have "f (out @ takeWhile ?p s) (dropWhile ?p s) = Some y" by (cases "s = []") simp_all
  from ih [OF this] attn_split [OF a] show False by simp
qed

lemma zmodem_puts_ends: "\<not> list_ex attn_special s \<Longrightarrow> zmodem_puts out s = Some (out @ s)"
  by (subst zmodem_puts.simps) simp

text \<open>
  C37: The string a receiver sends to get the attention of the sender, which the sender has chosen. Writing it ends if and
  only if no character in it asks for a break or a pause; with such a character it never ends.
\<close>

theorem zmodem_puts_hangs: "zmodem_puts out s = None \<longleftrightarrow> list_ex attn_special s"
proof
  assume n: "zmodem_puts out s = None"
  show "list_ex attn_special s"
  proof (rule ccontr)
    assume "\<not> list_ex attn_special s"
    from zmodem_puts_ends [OF this] n show False by simp
  qed
next
  assume "list_ex attn_special s"
  then show "zmodem_puts out s = None" using zmodem_puts_returns [of out s] by (cases "zmodem_puts out s") auto
qed

section \<open>Reading uses the line up\<close>

lemma noxrd7_rest: "length (snd (noxrd7 ctlesc evs)) \<le> length evs"
  by (induction evs) (auto split: option.split)

lemma zgethex_rest: "length (snd (zgethex ctlesc evs)) \<le> length evs"
proof -
  obtain c l where 1: "noxrd7 ctlesc evs = (c, l)" by fastforce
  obtain c' l' where 2: "noxrd7 ctlesc l = (c', l')" by fastforce
  have "length l \<le> length evs" "length l' \<le> length l" using noxrd7_rest [of ctlesc evs] noxrd7_rest [of ctlesc l] 1 2 by simp_all
  then show ?thesis using 1 2 by (simp add: zgethex_def Let_def)
qed

lemma header_bytes_rest:
  assumes "\<And>l. length (snd (rd l)) \<le> length l"
  shows "length (snd (snd (snd (header_bytes rd upd n i hdr crc evs)))) \<le> length evs"
proof (induction n arbitrary: i hdr crc evs)
  case (Suc n)
  obtain c l where r: "rd evs = (c, l)" by fastforce
  have "length l \<le> length evs" using assms [of evs] r by simp
  then show ?case
    using Suc [of "i + 1" "if i < 4 then hdr[i := word_of_int c] else hdr" "upd c crc" l] r by (cases "c < 0") auto
qed simp

lemma zrhdr_rest:
  assumes "\<And>l. length (snd (rd l)) \<le> length l"
  shows "length (snd (snd (zrhdr rd upd start k good z evs))) \<le> length evs"
proof -
  obtain c l where r: "rd evs = (c, l)" by fastforce
  have "length l \<le> length evs" using assms [of evs] r by simp
  then show ?thesis using header_bytes_rest [OF assms, of upd "4 + k" 0 "z_rxhdr z" "upd c start" l] r
    by (auto simp: zrhdr_def Let_def split: prod.split option.split)
qed

lemma zrhdr_escaped_rest: "length (snd (snd (zrhdr (zdlread ctlesc) upd start k good z evs))) \<le> length evs"
  by (rule zrhdr_rest) (rule zdlread_rest)

lemma zrhdr_hex_rest: "length (snd (snd (zrhdr (zgethex ctlesc) upd start k good z evs))) \<le> length evs"
  by (rule zrhdr_rest) (rule zgethex_rest)

lemma hex_tail_rest: "length (snd (hex_tail t evs)) \<le> length evs"
  by (cases evs; cases "tl evs") (auto simp: hex_tail_def getchar_def split: list.split)

lemma zrhhdr_rest: "length (snd (snd (zrhhdr z evs))) \<le> length evs"
proof -
  obtain c z' l where r: "zrhdr (zgethex (z_ctlesc z)) upd16 0 2 (\<lambda>crc. crc = 0) z evs = (c, z', l)" by (metis prod_cases3)
  have "length l \<le> length evs" using zrhdr_hex_rest [of "z_ctlesc z" upd16 0 2 "\<lambda>crc. crc = 0" z evs] r by simp
  then show ?thesis using hex_tail_rest [of c l] r by (auto simp: zrhhdr_def split: prod.split)
qed

declare hunt.simps [simp del]

lemma hunt_step:
  assumes "\<And>m n k. length (snd (hunt ctlesc m n k l)) \<le> length l"
  shows "length (snd (hunt ctlesc m n k (e # l))) \<le> length l"
  by (cases m; cases "noxrd7_char ctlesc (event_code e)") (simp_all add: hunt.simps(2) Let_def assms)

lemma hunt_rest: "length (snd (hunt ctlesc m n k l)) \<le> length l"
proof (induction l arbitrary: m n k)
  case Nil
  show ?case by (simp add: hunt.simps)
next
  case (Cons e l)
  then show ?case using hunt_step [of ctlesc l m n k e] by simp
qed

lemma zgethdr_line:
  assumes "zgethdr z evs = (c, z', rest)"
  shows "length rest < length evs \<or> c = ZHANGUP"
proof (cases evs)
  case Nil
  then show ?thesis using assms by (auto simp: zgethdr_def hunt.simps Let_def ZHANGUP_def GOTCAN_def)
next
  case (Cons e l)
  let ?z = "z\<lparr>z_rxframeind := 0, z_rxtype := 0\<rparr>"
  obtain r l1 where h: "hunt (z_ctlesc z) Again 8192 5 evs = (r, l1)" by fastforce
  have 1: "length l1 \<le> length l" using hunt_step [of "z_ctlesc z" l Again 8192 5 e] hunt_rest h Cons by simp
  show ?thesis
  proof (cases r)
    case (Code d)
    then show ?thesis using assms h 1 Cons by (simp add: zgethdr_def Let_def)
  next
    case (Kind d)
    let ?z1 = "?z\<lparr>z_rxcrc32 := (d = ZBIN32), z_rxframeind := d\<rparr>"
    let ?r = "if d = ZBIN then zrbhdr16 ?z1 l1 else if d = ZBIN32 then zrbhdr32 ?z1 l1 else zrhhdr ?z1 l1"
    have "length (snd (snd ?r)) \<le> length l1"
      by (simp add: zrbhdr16_def zrbhdr32_def zrhdr_escaped_rest zrhhdr_rest)
    moreover have "rest = snd (snd ?r)" using assms h Kind by (auto simp: zgethdr_def Let_def split: prod.splits if_splits)
    ultimately show ?thesis using 1 Cons by simp
  qed
qed

lemma switch_again_rest:
  "switch_again upd k ctlesc c crc evs = (c', crc', rest, full) \<Longrightarrow> length rest \<le> length evs"
proof (induction upd k ctlesc c crc evs rule: switch_again.induct)
  case (1 upd k ctlesc c crc evs)
  obtain crc1 l r where b: "crc_bytes upd ctlesc k (upd (c - GOTOR) crc) evs = (crc1, l, r)" by (metis prod_cases3)
  have l: "length l \<le> length evs" using crc_bytes_rest [OF b] by simp
  show ?case
  proof (cases "got_end c \<and> r \<noteq> None")
    case True
    then obtain d where d: "r = Some d" by auto
    have "switch_again upd k ctlesc d crc1 l = (c', crc', rest, full)"
      using 1(2) True b d by (subst (asm) switch_again.simps) simp
    then have "length rest \<le> length l" using 1(1) [OF conjunct1 [OF True] b [symmetric] refl d] by simp
    with l show ?thesis by simp
  next
    case False
    then show ?thesis using 1(2) b l by (subst (asm) switch_again.simps) (auto split: if_splits)
  qed
qed

lemma zrdat_rest: "length (snd (snd (snd (zrdat upd k good ctlesc slots buf crc evs)))) \<le> length evs"
proof (induction slots arbitrary: buf crc evs)
  case (Suc slots)
  obtain c l where z: "zdlread ctlesc evs = (c, l)" by fastforce
  have l: "length l \<le> length evs" using zdlread_rest [of ctlesc evs] z by simp
  obtain d crc1 l1 full where s: "switch_again upd k ctlesc c crc l = (d, crc1, l1, full)" by (metis prod_cases4)
  show ?case using z l s switch_again_rest [OF s] Suc [of "buf @ [word_of_int c]" "upd c crc" l] by auto
qed simp

lemma zrdat_line:
  assumes "zrdat upd k good ctlesc (Suc slots) buf crc evs = (c, n, d, rest)"
  shows "length rest < length evs \<or> c = ZHANGUP"
proof (cases evs)
  case Nil
  have "\<not> got_end ZHANGUP" "ZHANGUP \<noteq> GOTCAN" by (simp_all add: got_end_def frame_end_def ZHANGUP_def GOTOR_def GOTCAN_def)
  then have "switch_again upd k ctlesc ZHANGUP crc [] = (ZHANGUP, crc, [], False)" by (subst switch_again.simps) simp
  then show ?thesis using assms Nil by (simp add: ZHANGUP_def)
next
  case (Cons e l)
  obtain b l1 where z: "zdlread ctlesc evs = (b, l1)" by fastforce
  then have l: "length l1 \<le> length l" using Cons zdlread_shrinks by blast
  obtain d' crc1 l2 full where s: "switch_again upd k ctlesc b crc l1 = (d', crc1, l2, full)" by (metis prod_cases4)
  have "length rest \<le> length l1"
    using assms z s switch_again_rest [OF s] zrdat_rest [of upd k good ctlesc slots "buf @ [word_of_int b]" "upd b crc" l1]
    by (auto split: if_splits)
  then show ?thesis using l Cons by simp
qed

lemma zrdata_line:
  assumes "zrdata len z evs = (c, d, z', rest)"
  shows "length rest < length evs \<or> c = ZHANGUP" "z_attn z' = z_attn z" "z_rxhdr z' = z_rxhdr z"
proof -
  obtain c1 n d1 l where r: "(if z_rxframeind z = ZBIN32 then zrdat32 (z_ctlesc z) len evs else zrdat16 (z_ctlesc z) len evs) = (c1, n, d1, l)"
    by (metis prod_cases4)
  then have "length l < length evs \<or> c1 = ZHANGUP"
    by (auto simp: zrdat32_def zrdat16_def simp del: zrdat.simps split: if_splits dest!: zrdat_line)
  then show "length rest < length evs \<or> c = ZHANGUP" "z_attn z' = z_attn z" "z_rxhdr z' = z_rxhdr z"
    using assms r by (auto simp: zrdata_def)
qed

text \<open>What a block writes to the array it is read into.\<close>

lemma switch_again_full: "switch_again upd k ctlesc c crc evs = (c', crc', rest, full) \<Longrightarrow> got_end c' \<Longrightarrow> full"
proof (induction upd k ctlesc c crc evs rule: switch_again.induct)
  case (1 upd k ctlesc c crc evs)
  obtain crc1 l r where b: "crc_bytes upd ctlesc k (upd (c - GOTOR) crc) evs = (crc1, l, r)" by (metis prod_cases3)
  show ?case
  proof (cases "got_end c \<and> r \<noteq> None")
    case True
    then obtain d where d: "r = Some d" by auto
    have "switch_again upd k ctlesc d crc1 l = (c', crc', rest, full)"
      using 1(2) True b d by (subst (asm) switch_again.simps) simp
    then show ?thesis using 1(1) [OF conjunct1 [OF True] b [symmetric] refl d] 1(3) by simp
  next
    case False
    then show ?thesis using 1(2,3) b
      by (subst (asm) switch_again.simps) (auto simp: got_end_def frame_end_def ZCAN_def GOTOR_def split: if_splits)
  qed
qed

lemma zrdat_stored:
  "zrdat upd k good ctlesc slots buf crc evs = (c, n, d, rest) \<Longrightarrow>
    length d \<le> length buf + slots \<and> (got_end c \<longrightarrow> n = length d \<and> length d < length buf + slots)"
proof (induction slots arbitrary: buf crc evs)
  case 0
  then show ?case by (auto simp: got_end_def frame_end_def ZERROR_def GOTOR_def)
next
  case (Suc slots)
  obtain b l where z: "zdlread ctlesc evs = (b, l)" by fastforce
  obtain e crc1 l1 full where s: "switch_again upd k ctlesc b crc l = (e, crc1, l1, full)" by (metis prod_cases4)
  have "\<not> got_end ZCRCERR" by (simp add: got_end_def frame_end_def ZCRCERR_def GOTOR_def)
  then show ?case using Suc.prems Suc.IH [of "buf @ [word_of_int b]" "upd b crc" l] z s switch_again_full [OF s]
    by (cases "b < 0 \<or> b > 0xff") (auto split: if_splits)
qed

lemma zrdata_stored:
  assumes "zrdata len z evs = (c, d, z', rest)"
  shows "length d \<le> len + 1" "got_end c \<Longrightarrow> z_rxcount z' = length d \<and> length d \<le> len"
proof -
  obtain c1 n d1 l where r: "(if z_rxframeind z = ZBIN32 then zrdat32 (z_ctlesc z) len evs else zrdat16 (z_ctlesc z) len evs) = (c1, n, d1, l)"
    by (metis prod_cases4)
  then have "length d1 \<le> len + 1 \<and> (got_end c1 \<longrightarrow> n = length d1 \<and> length d1 < len + 1)"
    by (auto simp: zrdat32_def zrdat16_def simp del: zrdat.simps split: if_splits dest: zrdat_stored)
  then show "length d \<le> len + 1" "got_end c \<Longrightarrow> z_rxcount z' = length d \<and> length d \<le> len"
    using assms r by (auto simp: zrdata_def)
qed

lemma zgethdr_attn: "zgethdr z evs = (c, z', rest) \<Longrightarrow> z_attn z' = z_attn z"
  by (auto simp: zgethdr_def Let_def zrbhdr16_def zrbhdr32_def zrhhdr_def zrhdr_def
      split: prod.splits zfound.splits if_splits option.splits)

section \<open>Outcomes\<close>

text \<open>The loop goes on in a state with \<open>P\<close>, or is over; \<open>h\<close> and \<open>c\<close> say whether it may hang or crash.\<close>

definition zhold :: "bool \<Rightarrow> bool \<Rightarrow> ('a \<Rightarrow> bool) \<Rightarrow> 'a zpass \<Rightarrow> bool" where
  "zhold h c P p = (case p of Go s \<Rightarrow> P s | Over rc s \<Rightarrow> True | Hangs \<Rightarrow> h | Crash \<Rightarrow> c)"

lemma zhold_simps [simp]:
  "zhold h c P (Go s) = P s" "zhold h c P (Over rc s)" "zhold h c P Hangs = h" "zhold h c P Crash = c"
  by (simp_all add: zhold_def)

lemma zhold_zthen: "zhold h c P p \<Longrightarrow> (\<And>s. P s \<Longrightarrow> zhold h c Q (f s)) \<Longrightarrow> zhold h c Q (zthen p f)"
  by (cases p) (simp_all add: zthen_def)

lemma zhold_mono: "zhold h c P p \<Longrightarrow> (\<And>s. P s \<Longrightarrow> Q s) \<Longrightarrow> zhold h c Q p"
  by (cases p) simp_all

lemma zhold_conj: "zhold h c P p \<Longrightarrow> zhold True True Q p \<Longrightarrow> zhold h c (\<lambda>s. P s \<and> Q s) p"
  by (cases p) simp_all

lemma zhold_zsend:
  "(\<And>r d. zhold h c P (f (s\<lparr>zx_z := snd (frame (zx_z s)), zx_sends := r, zx_out := d\<rparr>))) \<Longrightarrow> zhold h c P (zsend frame f s)"
  by (auto simp: zsend_def zwrite_def split: prod.split)

lemma ztry_eq: "ztry frame s = s\<lparr>zx_z := snd (frame (zx_z s)), zx_sends := tl (zx_sends s), zx_out := zx_out s @ fst (frame (zx_z s))\<rparr>"
  by (simp add: ztry_def zwrite_def split: prod.split)

lemma zhold_zwith_recv:
  "receiving (zx_pi s) \<noteq> None \<or> c \<Longrightarrow> (\<And>fi. receiving (zx_pi s) = Some fi \<Longrightarrow> zhold h c P (f fi)) \<Longrightarrow> zhold h c P (zwith_recv f s)"
  by (auto simp: zwith_recv_def split: option.split)

lemma zhold_zwith_send:
  "sending (zx_pi s) \<noteq> None \<or> c \<Longrightarrow> (\<And>fi. sending (zx_pi s) = Some fi \<Longrightarrow> zhold h c P (f fi)) \<Longrightarrow> zhold h c P (zwith_send f s)"
  by (auto simp: zwith_send_def split: option.split)

lemma zpos_attn [simp]: "z_attn (snd (zpos t p z)) = z_attn z" "z_attn (snd (zshhdr t h z)) = z_attn z"
  "z_rxcount (snd (zpos t p z)) = z_rxcount z"
  by (simp_all add: zpos_def zshhdr_def Let_def)

lemma zset_buf_fields [simp]: "zx_line (zset_buf d s) = zx_line s" "zx_pi (zset_buf d s) = zx_pi s" "zx_z (zset_buf d s) = zx_z s"
  "zr_state (zset_buf d s) = zr_state s" "zr_buf (zset_buf d s) = d @ drop (length d) (zr_buf s)"
  by (simp_all add: zset_buf_def)

section \<open>The receiver ends\<close>

fun zrank :: "e_zrxstates \<Rightarrow> nat" where
  "zrank ZRX_GOTFILE = 2" | "zrank ZRX_SKIP = 1" | "zrank ZRX_REFUSE = 1" | "zrank t = 0"

definition zweight :: "s_zmodem_rx \<Rightarrow> nat" where
  "zweight s = 3 * length (zx_line s) + zrank (zr_state s)"

lemma zrank_le: "zrank t \<le> 2"
  by (cases t) simp_all

lemma zweight_less: "length (zx_line s') < length (zx_line s) \<Longrightarrow> zweight s' < zweight s"
  using zrank_le [of "zr_state s'"] by (simp add: zweight_def)

lemma zread_data_line: "zread_data len s = (c, d, s') \<Longrightarrow>
    length (zx_line s') < length (zx_line s) \<or> c = ZHANGUP"
  by (auto simp: zread_data_def split: prod.splits dest!: zrdata_line(1))

lemma zread_header_line: "zread_header s = (c, s') \<Longrightarrow> length (zx_line s') < length (zx_line s) \<or> c = ZHANGUP"
  by (auto simp: zread_header_def split: prod.splits dest!: zgethdr_line)

lemma zrx_again_fields [simp]: "zx_line (zrx_again s) = zx_line s" "zr_state (zrx_again s) = ZRX_SENDRPOS"
  "zx_pi (zrx_again s) = zx_pi s" "zx_z (zrx_again s) = zx_z s" "zr_buf (zrx_again s) = zr_buf s"
  by (simp_all add: zrx_again_def)

lemma send_attn_line: "zhold True True (\<lambda>s'. zx_line s' = zx_line s) (send_attn s)"
  by (auto simp: send_attn_def ztry_eq split: option.split)

lemma zrx_block_line: "zhold True True (\<lambda>s'. zx_line s' = zx_line s) (zrx_block c s)"
  by (auto simp: zrx_block_def Let_def zlive_def zset_recv_def split: option.split intro!: zhold_zwith_recv zhold_zsend)

lemma zrx_got_data_line: "c \<noteq> ZHANGUP \<Longrightarrow> zhold True True (\<lambda>s'. zx_line s' = zx_line s) (zrx_got_data c s)"
  using zrx_block_line [of s c] zhold_zthen [OF send_attn_line [of s], of "\<lambda>s'. zx_line s' = zx_line s" "\<lambda>s. Go (zrx_again s)"]
  by (simp add: zrx_got_data_def)

lemma zrx_waitdata_line: "zhold True True (\<lambda>s'. length (zx_line s') < length (zx_line s)) (zrx_waitdata s)"
proof -
  obtain rc pi where i: "p_info (zx_pi s) False (zx_w s) = (rc, pi)" by fastforce
  obtain c d s1 where r: "zread_data ZMAXBLOCKLEN (s\<lparr>zx_pi := pi\<rparr>) = (c, d, s1)" by (metis prod_cases3)
  have "zhold True True (\<lambda>s'. length (zx_line s') < length (zx_line s)) (zrx_got_data c (zset_buf d s1))"
  proof (cases "c = ZHANGUP")
    case True
    then show ?thesis by (simp add: zrx_got_data_def)
  next
    case False
    show ?thesis using zread_data_line [OF r] False by (intro zhold_mono [OF zrx_got_data_line [OF False]]) auto
  qed
  then show ?thesis by (simp add: zrx_waitdata_def i r zhold_zwith_recv Let_def)
qed

lemma zclose_recv_line: "zclose_recv cf req s = Some (rc, s') \<Longrightarrow> zx_line s' = zx_line s \<and> zr_state s' = zr_state s"
  by (auto simp: zclose_recv_def split: option.splits)

lemma proc_ZFILE_line: "zmodem_proc_ZFILE cf s blk = (rc, s') \<Longrightarrow> zx_line s' = zx_line s"
  by (auto simp: zmodem_proc_ZFILE_def Let_def split: option.splits prod.splits if_splits)

lemma zrx_gotfile_line:
  "zhold True True (\<lambda>s'. zx_line s' = zx_line s \<and> zr_state s' \<in> {ZRX_SENDRPOS, ZRX_SKIP, ZRX_REFUSE}) (zrx_gotfile cf req s)"
proof -
  have opened: "zhold True True (\<lambda>s'. zx_line s' = zx_line s \<and> zr_state s' \<in> {ZRX_SENDRPOS, ZRX_SKIP, ZRX_REFUSE})
      (case zmodem_proc_ZFILE cf u blk of (rc, v) \<Rightarrow>
         Go (if rc = 0 then v\<lparr>zx_tries := 0, zr_state := ZRX_SENDRPOS\<rparr>
             else if rc = 2 then v\<lparr>zr_state := ZRX_SKIP\<rparr> else v\<lparr>zr_state := ZRX_REFUSE\<rparr>))"
    if "zx_line u = zx_line s" for u blk
    using that proc_ZFILE_line [of cf u blk] by (cases "zmodem_proc_ZFILE cf u blk") simp
  show ?thesis
  proof (cases "if zrecv_open s then zclose_recv cf req s else Some (0, s)")
    case (Some p)
    obtain rc v where p: "p = (rc, v)" by fastforce
    then have "zx_line v = zx_line s" using Some by (auto split: if_splits dest: zclose_recv_line)
    then show ?thesis using Some p unfolding zrx_gotfile_def Let_def by (simp add: opened del: insert_iff)
  qed (simp add: zrx_gotfile_def)
qed

lemma zrx_enter_gotfile: "zr_state s = ZRX_GOTFILE \<Longrightarrow> zrx_enter cf req s = zrx_gotfile cf req s"
  by (simp add: zrx_enter_def)

text \<open>The first half of a pass leaves the line alone and comes nearer to reading it, or reads it.\<close>

lemma zrx_enter_line:
  "zhold True True (\<lambda>s'. if zr_state s \<in> {ZRX_INITACK, ZRX_RPOSACK} then s' = s
      else length (zx_line s') < length (zx_line s)
        \<or> zx_line s' = zx_line s \<and> (zr_state s' \<in> {ZRX_INITACK, ZRX_RPOSACK} \<or> zrank (zr_state s') < zrank (zr_state s)))
    (zrx_enter cf req s)"
proof (cases "zr_state s")
  case ZRX_INIT
  then show ?thesis by (auto simp: zrx_enter_def zrx_init_def intro!: zhold_zsend)
next
  case ZRX_GOTFILE
  show ?thesis by (rule zhold_mono [OF zrx_gotfile_line [of s cf req, folded zrx_enter_gotfile [OF ZRX_GOTFILE]]]) (auto simp: ZRX_GOTFILE)
next
  case ZRX_SENDRPOS
  then show ?thesis by (auto simp: zrx_enter_def zrx_sendrpos_def intro!: zhold_zwith_recv zhold_zsend)
next
  case ZRX_WAITDATA
  then show ?thesis using zhold_mono [OF zrx_waitdata_line] by (simp add: zrx_enter_def)
next
  case ZRX_SKIP
  then show ?thesis by (auto simp: zrx_enter_def zrx_skip_def zset_recv_def Let_def intro!: zhold_zwith_recv)
qed (simp_all add: zrx_enter_def)

lemma znak_line: "zhold True True (\<lambda>s'. zx_line s' = zx_line s) (znak s)"
  by (auto simp: znak_def intro!: zhold_zsend)

lemma zread_data_le: "zread_data len s = (c, d, s') \<Longrightarrow> c \<noteq> ZHANGUP \<Longrightarrow> length (zx_line s') \<le> length (zx_line s)"
  using zread_data_line by fastforce

lemma zrx_frame_line: "zhold True True (\<lambda>s'. length (zx_line s') \<le> length (zx_line s)) (zrx_frame cf req caller t s)"
proof -
  let ?P = "\<lambda>s'. length (zx_line s') \<le> length (zx_line s)"
  have nak: "zhold True True ?P (zthen (znak s1) f)" if "length (zx_line s1) \<le> length (zx_line s)"
    and "\<And>u. zx_line u = zx_line s1 \<Longrightarrow> zhold True True ?P (f u)" for s1 f
    by (rule zhold_zthen [OF znak_line]) (use that in simp)
  have attn: "zhold True True ?P (zthen (send_attn s) (\<lambda>s. Go (zrx_again s)))"
    by (rule zhold_zthen [OF send_attn_line]) simp
  have "zhold True True ?P (zrx_on_file s)"
    by (auto simp: zrx_on_file_def Let_def split: prod.split intro!: nak dest!: zread_data_le)
  moreover have "zhold True True ?P (zrx_on_sinit s)"
    by (auto simp: zrx_on_sinit_def Let_def znak_def split: prod.split intro!: zhold_zsend dest!: zread_data_le)
  moreover have "zhold True True ?P (zrx_on_command s)"
    by (auto simp: zrx_on_command_def Let_def split: prod.split intro!: nak zhold_zsend dest!: zread_data_le)
  moreover have "zhold True True ?P (zrx_on_data s)"
    by (auto simp: zrx_on_data_def intro!: zhold_zwith_recv attn)
  moreover have "zhold True True ?P (zrx_on_eof cf req s)"
    by (auto simp: zrx_on_eof_def zclose_recv_def zset_recv_def Let_def split: option.splits intro!: zhold_zwith_recv)
  moreover have "zhold True True ?P (zrx_on_fin caller s)"
    by (auto simp: zrx_on_fin_def Let_def intro!: zhold_zsend)
  moreover have "zhold True True ?P (znak s)" by (rule zhold_mono [OF znak_line]) simp
  moreover have "zhold True True ?P (zsend (zpos ZACK (-1)) Go s)" by (rule zhold_zsend) simp
  moreover have "zx_line (zrx_resend s) = zx_line s" by (simp add: zrx_resend_def split: e_zrxstates.split)
  ultimately show ?thesis unfolding zrx_frame_def Let_def by (simp split: if_split)
qed

lemma zrx_pass_weight: "zhold True True (\<lambda>s'. zweight s' < zweight s) (zrx_pass cf req caller t s)"
proof -
  let ?s = "s\<lparr>zx_w := (zx_w s)\<lparr>now := t\<rparr>\<rparr>"
  have listen: "zhold True True (\<lambda>s'. zweight s' < zweight s) (zrx_listen cf req caller u)"
    if u: "length (zx_line u) < length (zx_line s)
      \<or> zx_line u = zx_line s \<and> (zr_state u \<in> {ZRX_INITACK, ZRX_RPOSACK} \<or> zrank (zr_state u) < zrank (zr_state s))" for u
  proof (cases "zr_state u \<in> {ZRX_INITACK, ZRX_RPOSACK}")
    case True
    obtain c v where r: "zread_header u = (c, v)" by fastforce
    have "c = ZHANGUP \<Longrightarrow> zrx_frame cf req caller c v = Over PRC_ERROR v" by (simp add: zrx_frame_def ZHANGUP_def ZCAN_def)
    moreover have "zhold True True (\<lambda>s'. zweight s' < zweight s) (zrx_frame cf req caller c v)"
      if "length (zx_line v) < length (zx_line u)"
      by (rule zhold_mono [OF zrx_frame_line]) (use that u in \<open>auto intro!: zweight_less\<close>)
    ultimately show ?thesis using zread_header_line [OF r] True r by (cases "c = ZHANGUP") (auto simp: zrx_listen_def)
  next
    case False
    then show ?thesis using u by (auto simp: zrx_listen_def zweight_less) (simp add: zweight_def)
  qed
  have tries: "zhold True True (\<lambda>u. zx_line u = zx_line s \<and> zr_state u = zr_state s) (zrx_tries ?s)"
    by (simp add: zrx_tries_def Let_def)
  have "zhold True True (\<lambda>u. length (zx_line u) < length (zx_line s)
      \<or> zx_line u = zx_line s \<and> (zr_state u \<in> {ZRX_INITACK, ZRX_RPOSACK} \<or> zrank (zr_state u) < zrank (zr_state s)))
    (zthen (zrx_tries ?s) (zrx_enter cf req))"
    by (rule zhold_zthen [OF tries]) (rule zhold_mono [OF zrx_enter_line], auto split: if_splits)
  then show ?thesis unfolding zrx_pass_def Let_def using zhold_zthen listen by fastforce
qed

lemma zrx_passes_end:
  assumes "3 * length (zx_line s) + 3 \<le> length ts"
  shows "zrx_passes cf req caller ts s \<noteq> Go v"
proof -
  have "zrx_passes cf req caller ts u = Go v \<Longrightarrow> zweight v + length ts \<le> zweight u" for u v
  proof (induction ts arbitrary: u)
    case (Cons t ts)
    then obtain x where x: "zrx_pass cf req caller t u = Go x" "zrx_passes cf req caller ts x = Go v"
      by (cases "zrx_pass cf req caller t u") (simp_all add: zthen_def)
    with Cons.IH [OF x(2)] zrx_pass_weight [of u cf req caller t] show ?case by simp
  qed simp
  from this [of s v] assms zrank_le [of "zr_state s"] show ?thesis by (auto simp: zweight_def)
qed

section \<open>The receiver keeps its file\<close>

text \<open>The file is open where it is needed, the two arrays have their sizes, and a block that is to describe a file leaves room for a zero.\<close>

definition zrx_ok :: "s_zmodem_rx \<Rightarrow> bool" where
  "zrx_ok s \<longleftrightarrow> protinfo_ok (zx_pi s)
     \<and> length (zr_buf s) = ZMAXBLOCKLEN + 1 \<and> length (z_attn (zx_z s)) = ZATTNLEN + 1
     \<and> (zr_state s = ZRX_GOTFILE \<longrightarrow> z_rxcount (zx_z s) \<le> ZMAXBLOCKLEN)
     \<and> (zr_state s \<in> {ZRX_SENDRPOS, ZRX_RPOSACK, ZRX_WAITDATA} \<longrightarrow> open_file (receiving (zx_pi s)))"

text \<open>With \<open>a\<close> for the attention string: the two ways in which sending it goes wrong.\<close>

definition attn_hangs :: "byte list \<Rightarrow> bool" where
  "attn_hangs a \<longleftrightarrow> list_ex attn_special (takeWhile (\<lambda>c. c \<noteq> 0) a)"

abbreviation zrx_keeps :: "byte list \<Rightarrow> s_zmodem_rx \<Rightarrow> bool" where
  "zrx_keeps a s \<equiv> zrx_ok s \<and> z_attn (zx_z s) = a"

text \<open>\<open>x\<close> says whether the last byte of the array for blocks is something else than zero.\<close>

abbreviation zrx_safe :: "byte list \<Rightarrow> bool \<Rightarrow> (s_zmodem_rx \<Rightarrow> bool) \<Rightarrow> s_zmodem_rx zpass \<Rightarrow> bool" where
  "zrx_safe a x \<equiv> zhold (attn_hangs a) (0 \<notin> set a \<or> x)"

lemma open_file_some: "open_file f \<Longrightarrow> \<exists>fi. f = Some fi"
  by (cases f) auto

lemma send_attn_safe:
  "z_attn (zx_z s) = a \<Longrightarrow>
    zrx_safe a x (\<lambda>s'. zx_pi s' = zx_pi s \<and> zr_state s' = zr_state s \<and> zr_buf s' = zr_buf s \<and> z_attn (zx_z s') = a) (send_attn s)"
  by (cases "attn_hangs a"; cases "zmodem_puts [] (takeWhile (\<lambda>c. c \<noteq> 0) a)")
    (auto simp: send_attn_def ztry_eq plain_def attn_hangs_def zmodem_puts_ends)

lemma attn_again: "zrx_keeps a s \<Longrightarrow> open_file (receiving (zx_pi s)) \<Longrightarrow>
    zrx_safe a x (zrx_keeps a) (zthen (send_attn s) (\<lambda>s. Go (zrx_again s)))"
  by (rule zhold_zthen [OF send_attn_safe]) (auto simp: zrx_ok_def)

lemma zrx_gotfile_safe:
  assumes "zrx_keeps a s" "zr_state s = ZRX_GOTFILE"
  shows "zrx_safe a x (zrx_keeps a) (zrx_gotfile cf req s)"
proof -
  have opened: "zrx_safe a x (zrx_keeps a) (case zmodem_proc_ZFILE cf u blk of (rc, v) \<Rightarrow>
      Go (if rc = 0 then v\<lparr>zx_tries := 0, zr_state := ZRX_SENDRPOS\<rparr>
          else if rc = 2 then v\<lparr>zr_state := ZRX_SKIP\<rparr> else v\<lparr>zr_state := ZRX_REFUSE\<rparr>))"
    if u: "protinfo_ok (zx_pi u)" "z_attn (zx_z u) = a" "length (zr_buf u) = ZMAXBLOCKLEN + 1" "length a = ZATTNLEN + 1" for u blk
  proof -
    obtain rc v where p: "zmodem_proc_ZFILE cf u blk = (rc, v)" by fastforce
    have "protinfo_ok (zx_pi v) \<and> z_attn (zx_z v) = a \<and> zr_buf v = zr_buf u \<and> (rc = 0 \<longrightarrow> open_file (receiving (zx_pi v)))"
      using p u rx_fopen_files [OF u(1)]
      by (fastforce simp: zmodem_proc_ZFILE_def Let_def split: if_splits option.splits prod.splits)
    then show ?thesis using p u by (simp add: zrx_ok_def)
  qed
  have s: "length (zr_buf s) = ZMAXBLOCKLEN + 1" "length a = ZATTNLEN + 1" "z_rxcount (zx_z s) < length (zr_buf s)"
    using assms by (auto simp: zrx_ok_def)
  show ?thesis
  proof (cases "zrecv_open s")
    case True
    then have "receiving (zx_pi s) \<noteq> None" by (auto simp: zrecv_open_def split: option.splits)
    then obtain rc pi w where "p_rx_fclose cf req (zx_g s) (zx_pi s) (zx_w s) = Some (rc, pi, w)" "protinfo_ok pi"
      by (rule rx_fclose_files [of "zx_pi s" cf req "zx_g s" "zx_w s", rotated]) (use assms in \<open>simp_all add: zrx_ok_def\<close>)
    then show ?thesis using True s assms opened [of "s\<lparr>zx_pi := pi, zx_w := w, zr_buf := (zr_buf s)[z_rxcount (zx_z s) := 0]\<rparr>"]
      by (auto simp: zrx_gotfile_def zclose_recv_def Let_def zrx_ok_def)
  next
    case False
    then show ?thesis using s assms opened [of "s\<lparr>zr_buf := (zr_buf s)[z_rxcount (zx_z s) := 0]\<rparr>"]
      by (auto simp: zrx_gotfile_def Let_def zrx_ok_def)
  qed
qed

lemma zrx_block_safe:
  assumes "zrx_keeps a s" "open_file (receiving (zx_pi s))" "zr_state s = ZRX_WAITDATA"
  shows "zrx_safe a x (zrx_keeps a) (zrx_block c s)"
proof -
  let ?d = "chars (take (z_rxcount (zx_z s)) (zr_buf s))"
  obtain n pi w where r: "p_rx_writefile ?d (zx_pi s) (zx_w s) = Some (n, pi, w)" "open_file (receiving pi)" "protinfo_ok pi"
    by (rule rx_writefile_files [of "zx_pi s" ?d "zx_w s"]) (use assms in \<open>simp_all add: zrx_ok_def\<close>)
  then obtain fi where fi: "receiving pi = Some fi" using open_file_some by blast
  have recv: "protinfo_ok (set_recv (fi\<lparr>fi_received := v\<rparr>) pi)" "open_file (receiving (set_recv (fi\<lparr>fi_received := v\<rparr>) pi))" for v
    using r fi receiving_safe [OF r(3) fi] by (simp_all add: set_recv_ok receiving_set_recv)
  have "zrx_safe a x (zrx_keeps a) (zrx_block c s)" if "n \<ge> 0"
    unfolding zrx_block_def Let_def using r(1) fi that assms recv
    by (auto simp: zlive_def zset_recv_def zwith_recv_def zrx_ok_def intro!: zhold_zsend)
  moreover have "zrx_safe a x (zrx_keeps a) (zrx_block c s)" if "n < 0"
    using r that assms by (auto simp: zrx_block_def zlive_def Let_def zrx_ok_def)
  ultimately show ?thesis by linarith
qed

lemma zread_fields:
  "zread_data len s = (c, d, s') \<Longrightarrow> zx_pi s' = zx_pi s \<and> z_attn (zx_z s') = z_attn (zx_z s) \<and> s_zxfer.more s' = s_zxfer.more s"
  "zread_header s = (c, s') \<Longrightarrow> zx_pi s' = zx_pi s \<and> z_attn (zx_z s') = z_attn (zx_z s) \<and> s_zxfer.more s' = s_zxfer.more s"
  by (auto simp: zread_data_def zread_header_def split: prod.splits dest!: zrdata_line(2) zgethdr_attn)

lemma zread_rx:
  "zread_data len s = (c, d, s') \<Longrightarrow> zx_pi s' = zx_pi s \<and> z_attn (zx_z s') = z_attn (zx_z s)
    \<and> zr_state s' = zr_state (s :: s_zmodem_rx) \<and> zr_buf s' = zr_buf s"
  "zread_header s = (c, s') \<Longrightarrow> zx_pi s' = zx_pi s \<and> z_attn (zx_z s') = z_attn (zx_z s)
    \<and> zr_state s' = zr_state (s :: s_zmodem_rx) \<and> zr_buf s' = zr_buf s"
  by (auto simp: zread_data_def zread_header_def split: prod.splits dest!: zrdata_line(2) zgethdr_attn)

lemma zread_stored:
  "zread_data len s = (c, d, s') \<Longrightarrow> length d \<le> len + 1 \<and> (got_end c \<longrightarrow> z_rxcount (zx_z s') = length d \<and> length d \<le> len)"
  using zrdata_stored [of len "zx_z s" "zx_line s"] by (fastforce simp: zread_data_def split: prod.splits)

lemma zset_buf_length: "length d \<le> ZMAXBLOCKLEN + 1 \<Longrightarrow> length (zr_buf s) = ZMAXBLOCKLEN + 1 \<Longrightarrow>
    length (zr_buf (zset_buf d s)) = ZMAXBLOCKLEN + 1"
  by simp

lemma got_end_GOTCRCW: "got_end (uint ZCRCW + GOTOR)"
  by (simp add: got_end_def frame_end_def ZCRCW_def GOTOR_def)

lemma zrx_waitdata_safe:
  assumes "zrx_keeps a s" "zr_state s = ZRX_WAITDATA"
  shows "zrx_safe a x (zrx_keeps a) (zrx_waitdata s)"
proof -
  obtain rc pi where i: "p_info (zx_pi s) False (zx_w s) = (rc, pi)" by fastforce
  have pi: "protinfo_ok pi" "open_file (receiving pi)" using p_info_files [OF i] assms by (auto simp: zrx_ok_def)
  obtain c d s1 where r: "zread_data ZMAXBLOCKLEN (s\<lparr>zx_pi := pi\<rparr>) = (c, d, s1)" by (metis prod_cases3)
  let ?s = "zset_buf d s1"
  have s1: "zrx_keeps a ?s" "open_file (receiving (zx_pi ?s))" "zr_state ?s = ZRX_WAITDATA"
    using zread_rx(1) [OF r] zread_stored [OF r] assms pi by (auto simp: zrx_ok_def)
  have "zrx_safe a x (zrx_keeps a) (zrx_got_data c ?s)"
    using attn_again [OF s1(1,2), of x] zrx_block_safe [OF s1, of x c] s1 conjunct2 [OF s1(1)] conjunct1 [OF s1(1)]
    unfolding zrx_got_data_def by (auto simp: zrx_ok_def simp del: zset_buf_fields(5))
  moreover have "receiving pi \<noteq> None" using pi(2) open_file_some by blast
  ultimately show ?thesis by (simp add: zrx_waitdata_def i r zhold_zwith_recv Let_def)
qed

lemma zrx_enter_safe:
  assumes "zrx_keeps a s" "\<not> conf_boolean cf ''zmodem_skip_by_pos''"
  shows "zrx_safe a x (zrx_keeps a) (zrx_enter cf req s)"
proof (cases "zr_state s")
  case ZRX_SENDRPOS
  then have "open_file (receiving (zx_pi s))" using assms by (simp add: zrx_ok_def)
  then obtain fi where "receiving (zx_pi s) = Some fi" "fi_fp fi \<noteq> None" using open_file_some by fastforce
  then show ?thesis using ZRX_SENDRPOS assms
    by (auto simp: zrx_enter_def zrx_sendrpos_def zwith_recv_def zrx_ok_def intro!: zhold_zsend)
next
  case ZRX_GOTFILE
  then show ?thesis using zrx_gotfile_safe [OF assms(1)] by (simp add: zrx_enter_def)
next
  case ZRX_WAITDATA
  then show ?thesis using zrx_waitdata_safe [OF assms(1)] by (simp add: zrx_enter_def)
qed (use assms in \<open>auto simp: zrx_enter_def zrx_init_def zrx_skip_def zrx_ok_def intro!: zhold_zsend\<close>)

text \<open>A command is only read in a pass that has left the array alone before.\<close>

lemma zrx_got_data_away: "zr_state s = ZRX_WAITDATA \<Longrightarrow> zhold True True (\<lambda>u. zr_state u \<noteq> ZRX_INITACK) (zrx_got_data c s)"
proof -
  assume s: "zr_state s = ZRX_WAITDATA"
  have "zhold True True (\<lambda>u. zr_state u \<noteq> ZRX_INITACK) (zthen (send_attn s) (\<lambda>s. Go (zrx_again s)))"
    by (rule zhold_zthen [OF send_attn_line]) simp
  moreover have "zhold True True (\<lambda>u. zr_state u \<noteq> ZRX_INITACK) (zrx_block c s)"
    using s by (auto simp: zrx_block_def Let_def zlive_def zset_recv_def split: option.split intro!: zhold_zwith_recv zhold_zsend)
  ultimately show ?thesis using s by (simp add: zrx_got_data_def)
qed

lemma zrx_enter_buf: "zhold True True (\<lambda>u. zr_state u = ZRX_INITACK \<longrightarrow> zr_buf u = zr_buf s) (zrx_enter cf req s)"
proof (cases "zr_state s")
  case ZRX_WAITDATA
  obtain rc pi where i: "p_info (zx_pi s) False (zx_w s) = (rc, pi)" by fastforce
  obtain c d s1 where r: "zread_data ZMAXBLOCKLEN (s\<lparr>zx_pi := pi\<rparr>) = (c, d, s1)" by (metis prod_cases3)
  have "zhold True True (\<lambda>u. zr_state u = ZRX_INITACK \<longrightarrow> zr_buf u = zr_buf s) (zrx_got_data c (zset_buf d s1))"
    by (rule zhold_mono [OF zrx_got_data_away]) (use zread_rx(1) [OF r] ZRX_WAITDATA in auto)
  then show ?thesis using ZRX_WAITDATA by (simp add: zrx_enter_def zrx_waitdata_def i r zhold_zwith_recv Let_def)
next
  case ZRX_GOTFILE
  show ?thesis by (rule zhold_mono [OF zrx_gotfile_line [of s cf req, folded zrx_enter_gotfile [OF ZRX_GOTFILE]]]) auto
qed (auto simp: zrx_enter_def zrx_init_def zrx_sendrpos_def zrx_skip_def zset_recv_def Let_def intro!: zhold_zsend zhold_zwith_recv)

lemma zrx_on_eof_safe:
  assumes "zrx_keeps a s" "zr_state s = ZRX_RPOSACK"
  shows "zrx_safe a x zrx_ok (zrx_on_eof cf req s)"
proof -
  have ok: "protinfo_ok (zx_pi s)" "open_file (receiving (zx_pi s))" using assms by (simp_all add: zrx_ok_def)
  then obtain fi where fi: "receiving (zx_pi s) = Some fi" using open_file_some by blast
  let ?pi = "set_recv (fi\<lparr>fi_status := FSTAT_SUCCESS\<rparr>) (zx_pi s)"
  have "protinfo_ok ?pi" "receiving ?pi \<noteq> None"
    using fi receiving_safe [OF ok(1) fi] ok by (simp_all add: set_recv_ok receiving_set_recv)
  then obtain rc pi w where "p_rx_fclose cf req (zx_g s) ?pi (zx_w s) = Some (rc, pi, w)" "protinfo_ok pi"
    by (rule rx_fclose_files [of ?pi cf req "zx_g s" "zx_w s"])
  then show ?thesis using fi assms
    by (auto simp: zrx_on_eof_def zwith_recv_def zclose_recv_def zset_recv_def zrx_ok_def Let_def)
qed

lemma zrx_nak_safe:
  assumes "zrx_ok u" "\<And>v. zrx_ok v \<Longrightarrow> zr_state v = zr_state u \<Longrightarrow> zrx_safe a x zrx_ok (f v)"
  shows "zrx_safe a x zrx_ok (zthen (znak u) f)"
  by (rule zhold_zthen [where P = "\<lambda>v. zrx_ok v \<and> zr_state v = zr_state u"])
    (use assms in \<open>auto simp: znak_def zrx_ok_def intro!: zhold_zsend\<close>)

lemma zrx_read_ok:
  assumes "zread_data ZMAXBLOCKLEN (s\<lparr>zr_inithdrtype := i\<rparr>) = (c, d, u)" "zrx_ok s" "zr_state s \<noteq> ZRX_GOTFILE"
  shows "zrx_ok (zset_buf d u)" "zr_state (zset_buf d u) = zr_state s"
    "got_end c \<Longrightarrow> z_rxcount (zx_z (zset_buf d u)) \<le> ZMAXBLOCKLEN"
    "got_end c \<Longrightarrow> last (zr_buf s) = 0 \<Longrightarrow> 0 \<in> set (zr_buf (zset_buf d u))"
proof -
  note r = zread_rx(1) [OF assms(1)] and st = zread_stored [OF assms(1)]
  show "zrx_ok (zset_buf d u)" "zr_state (zset_buf d u) = zr_state s" "got_end c \<Longrightarrow> z_rxcount (zx_z (zset_buf d u)) \<le> ZMAXBLOCKLEN"
    using r st assms(2,3) by (simp_all add: zrx_ok_def)
  assume "got_end c" "last (zr_buf s) = 0"
  moreover from this have "length d < length (zr_buf s)" using st assms(2) by (simp add: zrx_ok_def)
  ultimately have "drop (length d) (zr_buf s) \<noteq> []" "last (drop (length d) (zr_buf s)) = 0" by simp_all
  then have "0 \<in> set (drop (length d) (zr_buf s))" using last_in_set by metis
  then show "0 \<in> set (zr_buf (zset_buf d u))" by (simp add: r)
qed

lemma zrx_on_file_safe:
  assumes "zrx_ok s" "zr_state s \<noteq> ZRX_GOTFILE"
  shows "zrx_safe a x zrx_ok (zrx_on_file s)"
proof -
  obtain c d u where r: "zread_data ZMAXBLOCKLEN (s\<lparr>zr_inithdrtype := ZRINIT\<rparr>) = (c, d, u)" by (metis prod_cases3)
  note ok = zrx_read_ok [OF r assms]
  have "zrx_ok (zset_buf d u\<lparr>zx_tries := 0, zr_state := ZRX_INIT\<rparr>)" using ok(1) by (simp add: zrx_ok_def)
  moreover have "zrx_ok (zset_buf d u\<lparr>zr_state := ZRX_GOTFILE\<rparr>)" if "c = uint ZCRCW + GOTOR"
    using ok(1,3) that got_end_GOTCRCW by (simp add: zrx_ok_def)
  moreover have "zrx_safe a x zrx_ok (zthen (znak (zset_buf d u)) (\<lambda>s. Go (s\<lparr>zr_state := ZRX_INITACK\<rparr>)))"
    by (rule zrx_nak_safe [OF ok(1)]) (simp add: zrx_ok_def)
  ultimately show ?thesis by (simp add: zrx_on_file_def r Let_def)
qed

lemma zrx_on_command_safe:
  assumes "zrx_ok s" "zr_state s \<noteq> ZRX_GOTFILE" "last (zr_buf s) \<noteq> 0 \<Longrightarrow> x"
  shows "zrx_safe a x zrx_ok (zrx_on_command s)"
proof -
  obtain c d u where r: "zread_data ZMAXBLOCKLEN (s\<lparr>zr_inithdrtype := ZRINIT\<rparr>) = (c, d, u)" by (metis prod_cases3)
  note ok = zrx_read_ok [OF r assms(1,2)]
  have "zrx_ok (zset_buf d u\<lparr>zx_tries := 0, zr_state := ZRX_INIT\<rparr>)" using ok(1) by (simp add: zrx_ok_def)
  moreover have "zrx_safe a x zrx_ok (zthen (znak (zset_buf d u)) (\<lambda>s. Go (s\<lparr>zx_tries := 0, zr_state := ZRX_INIT\<rparr>)))"
    by (rule zrx_nak_safe [OF ok(1)]) (simp add: zrx_ok_def)
  moreover have "x" if "c = uint ZCRCW + GOTOR" "0 \<notin> set (zr_buf (zset_buf d u))"
    using ok(4) that got_end_GOTCRCW assms(3) by blast
  ultimately show ?thesis by (simp add: zrx_on_command_def r Let_def zhold_zsend)
qed

lemma zrx_on_sinit_safe:
  assumes "zrx_ok s" "zr_state s \<noteq> ZRX_GOTFILE"
  shows "zrx_safe a x zrx_ok (zrx_on_sinit s)"
proof -
  let ?s = "s\<lparr>zx_z := (zx_z s)\<lparr>z_ctlesc := (z_rxhdr (zx_z s) ! 3 AND TESCCTL \<noteq> 0)\<rparr>\<rparr>"
  obtain c d u where r: "zread_data ZATTNLEN ?s = (c, d, u)" by (metis prod_cases3)
  let ?u = "u\<lparr>zx_z := (zx_z u)\<lparr>z_attn := d @ drop (length d) (z_attn (zx_z u))\<rparr>\<rparr>"
  have ok: "zrx_ok ?u" "zr_state ?u = zr_state s" using zread_rx(1) [OF r] zread_stored [OF r] assms by (simp_all add: zrx_ok_def)
  then have "zrx_safe a x zrx_ok (zsend (zpos ZACK 1) (\<lambda>s. Go (s\<lparr>zr_state := ZRX_INIT\<rparr>)) ?u)" "zrx_safe a x zrx_ok (znak ?u)"
    by (simp_all add: zrx_ok_def znak_def zhold_zsend)
  moreover have "zrx_ok (?u\<lparr>zx_tries := 0, zr_state := ZRX_INIT\<rparr>)" using ok(1) by (simp add: zrx_ok_def)
  ultimately show ?thesis by (simp add: zrx_on_sinit_def r Let_def)
qed

lemma zrx_frame_safe:
  assumes "zrx_keeps a s" "zr_state s \<in> {ZRX_INITACK, ZRX_RPOSACK}" "zr_state s = ZRX_INITACK \<Longrightarrow> last (zr_buf s) \<noteq> 0 \<Longrightarrow> x"
  shows "zrx_safe a x zrx_ok (zrx_frame cf req caller t s)"
proof -
  have ok: "zrx_ok s" "zr_state s \<noteq> ZRX_GOTFILE" using assms by auto
  have "zrx_safe a x zrx_ok (zrx_on_command s)" if "zr_state s = ZRX_INITACK"
    by (rule zrx_on_command_safe [OF ok]) (use assms(3) that in blast)
  moreover have "zrx_safe a x zrx_ok (zrx_on_data s)" if "zr_state s = ZRX_RPOSACK"
  proof -
    have f: "open_file (receiving (zx_pi s))" using that assms by (simp add: zrx_ok_def)
    then obtain fi where "receiving (zx_pi s) = Some fi" using open_file_some by blast
    moreover have "zrx_safe a x zrx_ok (zthen (send_attn s) (\<lambda>s. Go (zrx_again s)))"
      by (rule zhold_mono [OF attn_again [OF assms(1) f]]) simp
    ultimately show ?thesis using f ok by (simp add: zrx_on_data_def zwith_recv_def zrx_ok_def)
  qed
  moreover have "zrx_safe a x zrx_ok (zrx_on_fin caller s)"
    using assms by (auto simp: zrx_on_fin_def Let_def zrx_ok_def intro!: zhold_zsend)
  moreover have "zrx_ok (zrx_resend s)" using assms by (auto simp: zrx_resend_def zrx_ok_def)
  moreover have "zrx_safe a x zrx_ok (znak s)" "zrx_safe a x zrx_ok (zsend (zpos ZACK (-1)) Go s)"
    using ok by (auto simp: znak_def zrx_ok_def intro!: zhold_zsend)
  moreover have "zrx_ok (s\<lparr>zr_zrqinitcnt := n, zr_state := ZRX_INIT\<rparr>)" "zrx_ok (s\<lparr>zr_state := ZRX_INIT\<rparr>)" for n
    using ok by (simp_all add: zrx_ok_def)
  ultimately show ?thesis
    using assms zrx_on_eof_safe [OF assms(1), of x cf req] zrx_on_file_safe [OF ok, of a x] zrx_on_sinit_safe [OF ok, of a x]
    unfolding zrx_frame_def Let_def by (simp split: if_split)
qed

lemma zrx_pass_safe:
  assumes "\<not> conf_boolean cf ''zmodem_skip_by_pos''" "zrx_ok s"
  shows "zrx_safe (z_attn (zx_z s)) (last (zr_buf s) \<noteq> 0) zrx_ok (zrx_pass cf req caller t s)"
proof -
  let ?a = "z_attn (zx_z s)" and ?x = "last (zr_buf s) \<noteq> 0" and ?s = "s\<lparr>zx_w := (zx_w s)\<lparr>now := t\<rparr>\<rparr>"
  let ?P = "\<lambda>u. zrx_keeps ?a u \<and> (zr_state u = ZRX_INITACK \<longrightarrow> zr_buf u = zr_buf s)"
  have listen: "zrx_safe ?a ?x zrx_ok (zrx_listen cf req caller u)" if u: "?P u" for u
  proof -
    obtain c v where r: "zread_header u = (c, v)" by fastforce
    note v = zread_rx(2) [OF r]
    have "zrx_safe ?a ?x zrx_ok (zrx_frame cf req caller c v)" if "zr_state u \<in> {ZRX_INITACK, ZRX_RPOSACK}"
      by (rule zrx_frame_safe) (use that u v in \<open>auto simp: zrx_ok_def\<close>)
    then show ?thesis using r u by (auto simp: zrx_listen_def)
  qed
  have "zrx_safe ?a ?x (\<lambda>u. zrx_keeps ?a u \<and> zr_buf u = zr_buf s) (zrx_tries ?s)"
    using assms(2) by (simp add: zrx_tries_def Let_def zrx_ok_def)
  then have "zrx_safe ?a ?x ?P (zthen (zrx_tries ?s) (zrx_enter cf req))"
  proof (rule zhold_zthen)
    fix u
    assume u: "zrx_keeps ?a u \<and> zr_buf u = zr_buf s"
    show "zrx_safe ?a ?x ?P (zrx_enter cf req u)"
      by (rule zhold_mono [OF zhold_conj [OF zrx_enter_safe [OF conjunct1 [OF u] assms(1)] zrx_enter_buf]]) (use u in auto)
  qed
  then show ?thesis unfolding zrx_pass_def Let_def using zhold_zthen [OF _ listen] by simp
qed

lemma zclose_recv_some: "zrecv_open u \<Longrightarrow> zclose_recv cf req u \<noteq> None"
  by (cases "p_rx_fclose cf req (zx_g u) (zx_pi u) (zx_w u)")
    (auto simp: zrecv_open_def zclose_recv_def, simp add: p_rx_fclose_def split: option.splits)

text \<open>
  C35: What the other side of a Zmodem transfer can do to the receiver. In a pass of the loop the file being received stays open while it
  is needed, the names of received files stay free of characters that mean something to a path, and what is written to the
  array for blocks and to the array for the attention string stays within them; a pass never reads through a null pointer,
  unless skipped files are answered by a position. What is left are two strings that nothing ends. A pass hangs only
  when there is a break or a pause in the attention string. It reads behind an array only when the attention string fills
  the whole of its array, or when the array for blocks does not end in a zero - nobody clears it when it is allocated, and a block
  that is too long fills it - and a command is printed from it.
\<close>

theorem rx_zmodem_holds_out:
  assumes "\<not> conf_boolean cf ''zmodem_skip_by_pos''" "zrx_ok s"
  shows "case zrx_pass cf req caller t s of
      Go s' \<Rightarrow> zrx_ok s'
    | Over rc s' \<Rightarrow> True
    | Hangs \<Rightarrow> attn_hangs (z_attn (zx_z s))
    | Crash \<Rightarrow> 0 \<notin> set (z_attn (zx_z s)) \<or> last (zr_buf s) \<noteq> 0"
proof -
  have "zrx_safe (z_attn (zx_z s)) (last (zr_buf s) \<noteq> 0) zrx_ok (zrx_pass cf req caller t s)"
    by (rule zrx_pass_safe [OF assms])
  then show ?thesis by (cases "zrx_pass cf req caller t s") simp_all
qed

text \<open>
  How a command leaves the array: a block of a command that is one byte too long and has no zero in it fills the array and is
  answered by a NAK, and the next one that comes well, however short, is printed with all that is behind it.
\<close>

lemma command_fills_array:
  assumes "zread_data ZMAXBLOCKLEN (s\<lparr>zr_inithdrtype := ZRINIT\<rparr>) = (ZERROR, d, u)" "length d = length (zr_buf s)"
    "zx_sends u \<noteq> []" "hd (zx_sends u)"
  shows "\<exists>v. zrx_on_command s = Go v \<and> zr_state v = ZRX_INIT \<and> zr_buf v = d"
  using assms zread_rx(1) [OF assms(1)]
  by (auto simp: zrx_on_command_def Let_def znak_def zsend_def zwrite_def zthen_def zset_buf_def ZERROR_def ZHANGUP_def ZEXIT_def
      ZTIMER_def ZCRCW_def GOTOR_def split: prod.split)

lemma command_leaves_array:
  assumes "zread_data ZMAXBLOCKLEN (s\<lparr>zr_inithdrtype := ZRINIT\<rparr>) = (uint ZCRCW + GOTOR, d, u)" "0 \<notin> set d" "0 \<notin> set (zr_buf s)"
  shows "zrx_on_command s = Crash"
  using assms zread_rx(1) [OF assms(1)]
  by (auto simp: zrx_on_command_def Let_def zset_buf_def ZHANGUP_def ZEXIT_def ZTIMER_def ZCRCW_def GOTOR_def dest: in_set_dropD)

text \<open>The states in which the passes begin, and how the last of them ends.\<close>

fun zrx_visits :: "conf \<Rightarrow> req_processor \<Rightarrow> bool \<Rightarrow> int list \<Rightarrow> s_zmodem_rx \<Rightarrow> s_zmodem_rx list" where
  "zrx_visits cf req caller [] s = [s]"
| "zrx_visits cf req caller (t # ts) s =
     s # (case zrx_pass cf req caller t s of Go u \<Rightarrow> zrx_visits cf req caller ts u | _ \<Rightarrow> [])"

lemma zrx_visits_nonempty [simp]: "zrx_visits cf req caller ts s \<noteq> []"
  by (cases ts) simp_all

lemma zrx_passes_safe:
  assumes "\<not> conf_boolean cf ''zmodem_skip_by_pos''"
  shows "zrx_ok s \<Longrightarrow> last (zrx_visits cf req caller ts s) = u \<Longrightarrow>
    zrx_safe (z_attn (zx_z u)) (last (zr_buf u) \<noteq> 0) zrx_ok (zrx_passes cf req caller ts s)"
proof (induction ts arbitrary: s)
  case (Cons t ts)
  then show ?case using zrx_pass_safe [OF assms Cons.prems(1), of req caller t]
    by (cases "zrx_pass cf req caller t s") (simp_all add: zthen_def)
qed simp

text \<open>
  C36: The receiver of Zmodem comes to an end. Every pass of its loop comes nearer to a read of the line or reads what is
  there, so with \<open>n\<close> characters and failures still to come the transfer is over within \<open>3 * n + 3\<close> passes, whatever the characters
  are, whatever the time, and whatever happens to the files. It is over with a result of the protocol, unless the last pass begun is one of those that C36 leaves: it hangs, and then its attention string has a break or a pause in it, or it
  leaves an array, and then its attention string has no end or its array for blocks does not end in a zero.
\<close>

theorem rx_zmodem_ends:
  assumes "3 * length (zx_line s) + 3 \<le> length ts" "\<not> conf_boolean cf ''zmodem_skip_by_pos''" "zrx_ok s"
  shows "case rx_zmodem cf req caller ts s of
      Go s' \<Rightarrow> False
    | Over rc s' \<Rightarrow> True
    | Hangs \<Rightarrow> attn_hangs (z_attn (zx_z (last (zrx_visits cf req caller ts s))))
    | Crash \<Rightarrow> 0 \<notin> set (z_attn (zx_z (last (zrx_visits cf req caller ts s))))
        \<or> last (zr_buf (last (zrx_visits cf req caller ts s))) \<noteq> 0"
proof (cases "zrx_passes cf req caller ts s")
  case (Go u)
  then show ?thesis using zrx_passes_end [OF assms(1)] by blast
next
  case (Over rc u)
  then show ?thesis using zclose_recv_some [of u cf req] by (auto simp: rx_zmodem_def split: option.split)
qed (use zrx_passes_safe [OF assms(2,3) refl, of req caller ts] in \<open>simp_all add: rx_zmodem_def\<close>)

section \<open>Concrete transfers\<close>

definition zmodem_initial :: s_zmodem where
  "zmodem_initial = \<lparr>z_ctlesc = False, z_lastsent = 0, z_txfcs32 = False, z_txcrc32 = False, z_txnulls = 0, z_rxcrc32 = False,
     z_rxframeind = 0, z_rxtype = 0, z_rxcount = 0, z_rxhdr = [0, 0, 0, 0], z_rxpos = 0, z_attn = replicate 33 0\<rparr>"

definition example_rx :: s_zmodem_rx where
  "example_rx = zrx_start zmodem_initial zero_protinfo example_globals stat_world [Ch 0x2a, Timeout] [True] (replicate 8193 0)"

lemma example_rx_ok: "zrx_ok example_rx" "length (zx_line example_rx) = 2" "\<not> conf_boolean stat_conf ''zmodem_skip_by_pos''"
  by (simp_all add: example_rx_def stat_conf_def conf_boolean_def conf_first_def conf_entries_def zrx_ok_def zrx_start_def protinfo_ok_def
      zero_protinfo_def zmodem_initial_def ZMAXBLOCKLEN_def ZATTNLEN_def)

theorem rx_zmodem_ends_witness:
  "case rx_zmodem stat_conf (\<lambda>_ l w. (l, w)) True (replicate 9 0) example_rx of
      Go s' \<Rightarrow> False
    | Over rc s' \<Rightarrow> True
    | Hangs \<Rightarrow> attn_hangs (z_attn (zx_z (last (zrx_visits stat_conf (\<lambda>_ l w. (l, w)) True (replicate 9 0) example_rx))))
    | Crash \<Rightarrow> 0 \<notin> set (z_attn (zx_z (last (zrx_visits stat_conf (\<lambda>_ l w. (l, w)) True (replicate 9 0) example_rx))))
        \<or> last (zr_buf (last (zrx_visits stat_conf (\<lambda>_ l w. (l, w)) True (replicate 9 0) example_rx))) \<noteq> 0"
  by (rule rx_zmodem_ends) (simp_all add: example_rx_ok)

theorem rx_zmodem_holds_out_witness:
  "case zrx_pass stat_conf (\<lambda>_ l w. (l, w)) True 0 example_rx of
     Go s' \<Rightarrow> zrx_ok s'
   | Over rc s' \<Rightarrow> True
   | Hangs \<Rightarrow> attn_hangs (z_attn (zx_z example_rx))
   | Crash \<Rightarrow> 0 \<notin> set (z_attn (zx_z example_rx)) \<or> last (zr_buf example_rx) \<noteq> 0"
  by (rule rx_zmodem_holds_out) (simp_all add: example_rx_ok)

section \<open>The sender keeps its file\<close>

definition tx_needs_file :: "e_ztxstates \<Rightarrow> bool" where
  "tx_needs_file t \<longleftrightarrow> t \<in> {ZTX_FINFO, ZTX_FINFOACK, ZTX_STARTDATA, ZTX_DATA, ZTX_READCHECK, ZTX_CRCWACK, ZTX_CRCQACK, ZTX_EOF, ZTX_EOFACK}"

definition ztx_ok :: "s_zmodem_tx \<Rightarrow> bool" where
  "ztx_ok s \<longleftrightarrow> protinfo_ok (zx_pi s) \<and> (tx_needs_file (zt_state s) \<longrightarrow> open_file (sending (zx_pi s)))
     \<and> 32 \<le> zt_blocklen s \<and> zt_blocklen s \<le> int ZMAXBLOCKLEN \<and> zt_maxblk s \<le> int ZMAXBLOCKLEN"

abbreviation ztx_safe :: "s_zmodem_tx zpass \<Rightarrow> bool" where
  "ztx_safe \<equiv> zhold False False ztx_ok"

lemma tx_needs_file_simps [simp]:
  "\<not> tx_needs_file ZTX_START" "\<not> tx_needs_file ZTX_RQINIT" "\<not> tx_needs_file ZTX_RQINITACK" "\<not> tx_needs_file ZTX_NEXTFILE"
  "\<not> tx_needs_file ZTX_FIN" "\<not> tx_needs_file ZTX_FINACK" "tx_needs_file ZTX_FINFO" "tx_needs_file ZTX_FINFOACK"
  "tx_needs_file ZTX_STARTDATA" "tx_needs_file ZTX_DATA" "tx_needs_file ZTX_READCHECK" "tx_needs_file ZTX_CRCWACK"
  "tx_needs_file ZTX_CRCQACK" "tx_needs_file ZTX_EOF" "tx_needs_file ZTX_EOFACK"
  by (simp_all add: tx_needs_file_def)

lemma tx_needs_resend [simp]: "tx_needs_file (ztx_resend t) = tx_needs_file t" "tx_needs_file (ztx_timeout t) = tx_needs_file t"
  by (cases t; simp)+

lemma in_file_needs: "in_file t \<Longrightarrow> tx_needs_file t"
  by (auto simp: in_file_def)

lemma ztx_file:
  assumes "ztx_ok s" "tx_needs_file (zt_state s)"
  obtains fi fp where "sending (zx_pi s) = Some fi" "fi_fp fi = Some fp"
  using assms by (cases "sending (zx_pi s)") (auto simp: ztx_ok_def)

lemma zsend_to_safe:
  "ztx_ok s \<Longrightarrow> tx_needs_file t \<longrightarrow> open_file (sending (zx_pi s)) \<Longrightarrow> ztx_safe (zsend_to frame t s)"
  by (auto simp: zsend_to_def zto_def ztx_ok_def intro!: zhold_zsend)

lemma set_send_open: "protinfo_ok pi \<Longrightarrow> sending pi = Some fi \<Longrightarrow> fi_fp fi' \<noteq> None \<Longrightarrow> open_file (sending (set_send fi' pi))"
  by (simp add: sending_set_send)

lemma zfile_over_safe:
  assumes "ztx_ok s" "tx_needs_file (zt_state s)"
  shows "ztx_safe (zfile_over st s)"
  by (rule ztx_file [OF assms]) (use assms in \<open>auto simp: zfile_over_def zwith_send_def zto_def zset_send_def ztx_ok_def set_send_ok\<close>)

lemma zend_data_ok [simp]: "ztx_ok (zend_data s) = ztx_ok s" "zt_state (zend_data s) = zt_state s" "zx_pi (zend_data s) = zx_pi s"
  by (simp_all add: zend_data_def ztry_eq ztx_ok_def)

lemma ztx_nextfile_safe:
  assumes "ztx_ok s"
  shows "ztx_safe (ztx_nextfile cf s)"
proof -
  let ?s = "(zclose_send cf s)\<lparr>zx_tries := 0\<rparr>"
  have ok: "protinfo_ok (zx_pi ?s)" "32 \<le> zt_blocklen ?s" "zt_blocklen ?s \<le> int ZMAXBLOCKLEN" "zt_maxblk ?s \<le> int ZMAXBLOCKLEN"
    using assms p_tx_fclose_ok [of "zx_pi s" cf "zx_g s" "zx_w s"] by (auto simp: zclose_send_def ztx_ok_def split: prod.split)
  obtain rc g pi w where p: "p_tx_fopen cf None (zx_g ?s) (zx_pi ?s) (zx_w ?s) = (rc, g, pi, w)" by (metis prod_cases4)
  have "protinfo_ok pi" using p_tx_fopen_ok [OF ok(1), of cf None "zx_g ?s" "zx_w ?s"] p by simp
  moreover have "rc = 0 \<Longrightarrow> open_file (sending pi)" using tx_fopen_files [OF p] by simp
  ultimately show ?thesis using ok p by (simp add: ztx_nextfile_def zto_def ztx_ok_def)
qed

lemma grow_block_ok [simp]: "ztx_ok s \<Longrightarrow> ztx_ok (grow_block s)"
  "zx_pi (grow_block s) = zx_pi s" "zt_state (grow_block s) = zt_state s"
  by (auto simp: grow_block_def ztx_ok_def Let_def)

lemma shrink_block_ok [simp]: "ztx_ok s \<Longrightarrow> ztx_ok (shrink_block s)"
  "zx_pi (shrink_block s) = zx_pi s" "zt_state (shrink_block s) = zt_state s"
  by (auto simp: shrink_block_def ztx_ok_def Let_def)

lemma ztx_ok_update [simp]:
  "ztx_ok (s\<lparr>zt_bytescnt := x1\<rparr>) = ztx_ok s" "ztx_ok (s\<lparr>zt_junkcnt := x2\<rparr>) = ztx_ok s" "ztx_ok (s\<lparr>zx_tries := x3\<rparr>) = ztx_ok s"
  "ztx_ok (s\<lparr>zt_newcnt := x4\<rparr>) = ztx_ok s" "ztx_ok (s\<lparr>zt_lastsync := x5\<rparr>) = ztx_ok s" "ztx_ok (s\<lparr>zx_line := x6\<rparr>) = ztx_ok s"
  "ztx_ok (s\<lparr>zx_z := x7\<rparr>) = ztx_ok s" "ztx_ok (s\<lparr>zx_sends := x8\<rparr>) = ztx_ok s" "ztx_ok (s\<lparr>zx_out := x9\<rparr>) = ztx_ok s"
  "ztx_ok (s\<lparr>zx_w := x10\<rparr>) = ztx_ok s" "ztx_ok (s\<lparr>zx_deadtimer := x11\<rparr>) = ztx_ok s" "ztx_ok (s\<lparr>zt_rxlastpos := x12\<rparr>) = ztx_ok s"
  "ztx_ok (s\<lparr>zt_zrinitcnt := x13\<rparr>) = ztx_ok s" "ztx_ok (s\<lparr>zt_initacked := x14\<rparr>) = ztx_ok s" "ztx_ok (s\<lparr>zx_g := x15\<rparr>) = ztx_ok s"
  "ztx_ok (s\<lparr>zt_txwindow := x16\<rparr>) = ztx_ok s" "ztx_ok (s\<lparr>zt_rxbuflen := x17\<rparr>) = ztx_ok s"
  by (simp_all add: ztx_ok_def)

lemma ztx_ok_state: "ztx_ok s \<Longrightarrow> tx_needs_file t \<longrightarrow> tx_needs_file (zt_state s) \<Longrightarrow> ztx_ok (s\<lparr>zt_state := t\<rparr>)"
  by (auto simp: ztx_ok_def)

lemma ztx_ok_pi: "ztx_ok s \<Longrightarrow> protinfo_ok pi \<Longrightarrow> open_file (sending pi) \<Longrightarrow> ztx_ok (s\<lparr>zx_pi := pi\<rparr>)"
  by (simp add: ztx_ok_def)

text \<open>Changing the entry of the file keeps it open.\<close>

lemma zset_send_ok:
  assumes "ztx_ok s" "sending (zx_pi s) = Some fi" "fi_fp fi' \<noteq> None"
  shows "ztx_ok (zset_send fi' s)" "open_file (sending (zx_pi (zset_send fi' s)))"
  using assms set_send_open [of "zx_pi s" fi fi'] by (simp_all add: zset_send_def ztx_ok_def set_send_ok)

lemma ztx_junk_safe:
  assumes "ztx_ok s" "open_file (sending (zx_pi s))"
  shows "ztx_safe (ztx_junk s)"
  using assms
  by (cases "zjunk (zt_junkcnt s) (zx_line s)") (auto simp: ztx_junk_def zto_def Let_def ztx_ok_def split: option.split bool.split)

lemma ztx_sent_safe:
  assumes "ztx_ok s" "sending (zx_pi s) = Some fi" "fi_fp fi \<noteq> None"
  shows "ztx_safe (ztx_sent fi n dtype s)"
proof -
  let ?s = "zset_send (fi\<lparr>fi_sent := fi_sent fi + word_of_int n\<rparr>) (grow_block s)"
  have "ztx_ok ?s" "open_file (sending (zx_pi ?s))"
    using zset_send_ok [of "grow_block s" fi "fi\<lparr>fi_sent := fi_sent fi + word_of_int n\<rparr>"] assms by simp_all
  then show ?thesis using ztx_junk_safe [of "?s\<lparr>zt_bytescnt := sint (fi_sent fi + word_of_int n)\<rparr>"]
    by (simp add: ztx_sent_def Let_def zto_def) (simp add: ztx_ok_def)
qed

lemma ztx_data_safe:
  assumes "ztx_ok s" "zt_state s = ZTX_DATA"
  shows "ztx_safe (ztx_data s)"
proof -
  have f: "protinfo_ok (zx_pi s)" "open_file (sending (zx_pi s))" using assms by (simp_all add: ztx_ok_def)
  obtain n d pi w where r: "p_tx_readfile (nat (zt_blocklen s)) (zx_pi s) (zx_w s) = Some (n, d, pi, w)" "open_file (sending pi)" "protinfo_ok pi"
    by (rule tx_readfile_files [OF f, of "nat (zt_blocklen s)" "zx_w s"])
  then obtain fi where fi: "sending pi = Some fi" "fi_fp fi \<noteq> None" using open_file_some by fastforce
  obtain rc pi2 where i: "p_info pi False w = (rc, pi2)" by fastforce
  have pi2: "protinfo_ok pi2" "sending pi2 = Some fi" using p_info_files [OF i] r fi by simp_all
  obtain e left where b: "block_end (fi_eofseen fi) n ((zlive s)\<lparr>zx_pi := pi, zx_w := w\<rparr>) = (e, left)" by fastforce
  have "ztx_safe (ztx_data s)" if "n < 0"
    using that r assms by (auto simp: ztx_data_def zlive_def ztx_ok_def intro!: zsend_to_safe)
  moreover have "ztx_safe (ztx_data s)" if "n \<ge> 0"
  proof -
    have "ztx_ok (s\<lparr>zx_deadtimer := t, zx_w := w, zt_newcnt := left, zx_pi := pi2, zx_z := z, zx_sends := x, zx_out := y\<rparr>)" for t z x y
      using assms pi2 fi by (simp add: ztx_ok_def)
    then show ?thesis using r(1) fi i b that pi2
      by (auto simp: ztx_data_def zlive_def zwith_send_def Let_def intro!: zhold_zsend ztx_sent_safe)
  qed
  ultimately show ?thesis by linarith
qed

lemma ztx_enter_safe:
  assumes "ztx_ok s"
  shows "ztx_safe (ztx_enter cf s)"
proof (cases "tx_needs_file (zt_state s)")
  case True
  then obtain fi fp where fi: "sending (zx_pi s) = Some fi" "fi_fp fi = Some fp" using ztx_file [OF assms] by blast
  then have f: "open_file (sending (zx_pi s))" by simp
  have send: "ztx_safe (zsend_to frame t u)" if "ztx_ok u" "zx_pi u = zx_pi s" for frame t u
    using zsend_to_safe [of u t frame] that f by simp
  show ?thesis
    using True assms fi ztx_data_safe [OF assms] send
    by (cases "zt_state s") (simp_all add: ztx_enter_def ztx_finfo_def ztx_startdata_def zwith_send_def zhold_zsend)
next
  case False
  have to: "ztx_safe (zto ZTX_RQINIT u)" if "ztx_ok u" for u using that by (simp add: zto_def ztx_ok_state)
  show ?thesis
    using False assms ztx_nextfile_safe [OF assms] zsend_to_safe [OF assms]
    by (cases "zt_state s") (simp_all add: ztx_enter_def zhold_zsend to)
qed

lemma tx_rewind_files:
  assumes "protinfo_ok pi" "sending pi = Some fi" "fi_fp fi \<noteq> None" "p_tx_rewind pi n w = (rc, pi', w')"
  shows "protinfo_ok pi' \<and> open_file (sending pi')"
  using p_tx_rewind_ok [OF assms(1), of n w] assms by (auto simp: p_tx_rewind_def sending_set_send split: prod.splits)

lemma ztx_resync_safe:
  assumes "ztx_ok s" "tx_needs_file (zt_state s)"
  shows "ztx_safe (ztx_resync s)"
proof -
  obtain fi fp where fi: "sending (zx_pi s) = Some fi" "fi_fp fi = Some fp" by (rule ztx_file [OF assms])
  let ?pos = "z_rxpos (zx_z s)" and ?first = "zt_state s = ZTX_FINFOACK" and ?s = "zset_send (fi\<lparr>fi_eofseen := False\<rparr>) s"
  have s: "ztx_ok ?s" "open_file (sending (zx_pi ?s))" "zt_state ?s = zt_state s" "zx_z ?s = zx_z s"
    using zset_send_ok [OF assms(1) fi(1), of "fi\<lparr>fi_eofseen := False\<rparr>"] fi by (simp_all add: zset_send_def)
  then have pi: "protinfo_ok (zx_pi ?s)" by (simp add: ztx_ok_def)
  obtain fj where fj: "sending (zx_pi ?s) = Some fj" "fi_fp fj \<noteq> None" using s(2) open_file_some by fastforce
  obtain rc pi2 w where r: "(if ?pos \<noteq> 0 \<or> \<not> ?first then p_tx_rewind (zx_pi ?s) (nat ?pos) (zx_w ?s) else (0, zx_pi ?s, zx_w ?s)) = (rc, pi2, w)"
    by (metis prod_cases3)
  have pi2: "protinfo_ok pi2" "open_file (sending pi2)"
    using r pi s(2) tx_rewind_files [OF pi fj] by (auto split: if_splits)
  let ?t = "?s\<lparr>zx_pi := pi2, zx_w := w\<rparr>"
  have t: "ztx_ok ?t" using ztx_ok_pi [OF s(1) pi2] by simp
  obtain fk where fk: "sending pi2 = Some fk" "fi_fp fk \<noteq> None" using pi2(2) open_file_some by fastforce
  have end_ok: "ztx_safe (zto ZTX_STARTDATA ((zset_send fi' u)\<lparr>zt_bytescnt := b, zt_lastsync := l\<rparr>))"
    if "ztx_ok u" "zx_pi u = pi2" "fi_fp fi' \<noteq> None" for u fi' b l
    using zset_send_ok [of u fk fi'] that fk by (simp add: zto_def) (simp add: ztx_ok_def)
  show ?thesis
    using fi(1) s(3,4) r t fk end_ok [of ?t] end_ok [of "shrink_block ?t"] shrink_block_ok(1) [OF t]
    by (auto simp: ztx_resync_def zwith_send_def Let_def zto_def [of ZTX_NEXTFILE] ztx_ok_state)
qed

lemma ztx_on_crc_safe:
  assumes "ztx_ok s"
  shows "ztx_safe (ztx_on_crc s)"
proof (cases "zt_state s = ZTX_FINFOACK")
  case True
  then obtain fi fp where fi: "sending (zx_pi s) = Some fi" "fi_fp fi = Some fp" using ztx_file [OF assms] by auto
  have "ztx_ok (zset_send (fi\<lparr>fi_fp := Some fp'\<rparr>) s)" for fp' using zset_send_ok [OF assms fi(1)] by simp
  then show ?thesis using True fi
    by (auto simp: ztx_on_crc_def zwith_send_def Let_def intro!: zhold_zsend split: prod.split)
qed (use assms in \<open>simp add: ztx_on_crc_def\<close>)

lemma ztx_on_rinit_safe:
  assumes "ztx_ok s"
  shows "ztx_safe (ztx_on_rinit s)"
proof -
  have o: "ztx_ok (zoptions u) = ztx_ok u" "zt_state (zoptions u) = zt_state u" for u by (simp_all add: zoptions_def Let_def)
  have over: "tx_needs_file (zt_state s) \<Longrightarrow> ztx_safe (zfile_over FSTAT_SUCCESS s)"
    "tx_needs_file (zt_state s) \<Longrightarrow> ztx_safe (zfile_over FSTAT_SUCCESS (zend_data s))"
    using zfile_over_safe [of s] zfile_over_safe [of "zend_data s"] assms by simp_all
  have opt: "ztx_safe (zthen (if zt_initacked s then Go s else zsend (zpos ZRQINIT 0) (\<lambda>s. Go (s\<lparr>zt_initacked := True\<rparr>)) s)
      (\<lambda>s. zto ZTX_NEXTFILE (zoptions s)))"
    by (rule zhold_zthen [where P = ztx_ok]) (use assms in \<open>auto simp: zto_def o ztx_ok_state intro!: zhold_zsend\<close>)
  show ?thesis using assms over opt
    by (cases "zt_state s") (simp_all add: ztx_on_rinit_def zto_def ztx_ok_state Let_def)
qed

lemma ztx_frame_safe:
  assumes "ztx_ok s"
  shows "ztx_safe (ztx_frame t s)"
proof -
  have over: "ztx_safe (zfile_over st s)" "ztx_safe (zfile_over st (zend_data s))" if "in_file (zt_state s)" for st
    using zfile_over_safe [of s] zfile_over_safe [of "zend_data s"] in_file_needs [OF that] assms by simp_all
  have "ztx_safe (ztx_on_rpos s)"
  proof (cases "in_file (zt_state s)")
    case True
    have "ztx_safe (ztx_resync (s\<lparr>zt_rxlastpos := l, zx_z := z, zx_sends := x, zx_out := y\<rparr>))"
      "ztx_safe (ztx_resync (s\<lparr>zt_rxlastpos := l\<rparr>))" for l z x y
      by (rule ztx_resync_safe; use in_file_needs [OF True] assms in simp)+
    then show ?thesis using True by (simp add: ztx_on_rpos_def Let_def zhold_zsend)
  qed (use assms in \<open>simp add: ztx_on_rpos_def\<close>)
  moreover have "ztx_safe (ztx_on_ferr s)"
  proof (cases "in_file (zt_state s)")
    case True
    have "ztx_safe (zfile_over FSTAT_REFUSED (s\<lparr>zx_z := z, zx_sends := x, zx_out := y\<rparr>))" for z x y
      by (rule zfile_over_safe; use in_file_needs [OF True] assms in simp)
    then show ?thesis using over True by (simp add: ztx_on_ferr_def zhold_zsend)
  qed (use assms in \<open>simp add: ztx_on_ferr_def\<close>)
  moreover have "ztx_safe (ztx_on_ack s)"
  proof (cases "zt_state s = ZTX_CRCWACK")
    case True
    then obtain fi where "sending (zx_pi s) = Some fi" using ztx_file [OF assms] by auto
    then show ?thesis using True assms by (simp add: ztx_on_ack_def zwith_send_def Let_def ztx_ok_state)
  next
    case False
    then show ?thesis using assms by (auto simp: ztx_on_ack_def zto_def Let_def ztx_ok_state)
  qed
  moreover have "ztx_safe (ztx_on_rqinit s)"
    using assms zsend_to_safe [OF assms] by (auto simp: ztx_on_rqinit_def)
  moreover have "ztx_safe (zto (ztx_timeout (zt_state s)) (if zt_state s = ZTX_READCHECK then ztry (zsdata [] ZCRCE) s else s))"
    using assms by (auto simp: zto_def ztry_eq ztx_ok_state)
  moreover have "ztx_safe (zsend (zpos ZNAK 0) Go s)" "ztx_safe (zsend (zpos ZFIN 0) (Over PRC_REMOTEABORTED) s)"
    using assms by (simp_all add: zhold_zsend)
  moreover have "ztx_safe (zto (ztx_resend (zt_state s)) s)" "ztx_safe (zto ZTX_RQINIT s)"
    using assms by (simp_all add: zto_def ztx_ok_state)
  moreover have "ztx_safe (zsend_to frame ZTX_RQINIT s)" for frame using zsend_to_safe [OF assms] by simp
  ultimately show ?thesis
    using assms over ztx_on_rinit_safe [OF assms] ztx_on_crc_safe [OF assms]
    unfolding ztx_frame_def Let_def by (simp split: if_split)
qed

text \<open>
  C38: What the other side of a Zmodem transfer can do to the sender. Whatever frames and junk come in, in whatever order,
  the file being sent stays open while it is needed, the size of the blocks stays within the buffer and above 31, and no pass
  of the loop hangs or reads through a null pointer.
\<close>

theorem tx_zmodem_holds_out:
  assumes "ztx_ok s"
  shows "case ztx_pass cf t s of Go s' \<Rightarrow> ztx_ok s' | Over rc s' \<Rightarrow> True | Hangs \<Rightarrow> False | Crash \<Rightarrow> False"
proof -
  let ?s = "s\<lparr>zx_w := (zx_w s)\<lparr>now := t\<rparr>\<rparr>"
  have listen: "ztx_safe (ztx_listen u)" if u: "ztx_ok u" for u
  proof -
    obtain c v where r: "zread_header u = (c, v)" by fastforce
    then have "ztx_ok v" using u by (auto simp: zread_header_def split: prod.splits)
    then show ?thesis using r u ztx_frame_safe [of v c] by (simp add: ztx_listen_def)
  qed
  have "ztx_safe (ztx_tries ?s)" using assms by (simp add: ztx_tries_def Let_def)
  then have "ztx_safe (zthen (ztx_tries ?s) (ztx_enter cf))" by (rule zhold_zthen) (rule ztx_enter_safe)
  then have "ztx_safe (zthen (zthen (ztx_tries ?s) (ztx_enter cf)) ztx_listen)" by (rule zhold_zthen) (rule listen)
  then have "ztx_safe (ztx_pass cf t s)" unfolding ztx_pass_def Let_def by simp
  then show ?thesis by (simp add: zhold_def)
qed

text \<open>What closing a sent file does to it when no system call fails.\<close>

lemma file_close_sound: "\<forall>n. \<not> fails w n \<Longrightarrow>
    dir (snd (file_close fp w)) = dir w \<and> inode (snd (file_close fp w)) = inode w \<and> fails (snd (file_close fp w)) = fails w"
  by (simp add: file_close_def fclose_def syscall_def)

lemma tx_actions_sound:
  assumes "fi_fname fi = Some path" "\<not> has (fi_type fi) TYPE_FROMFLO" "dir w path = Some i" "\<not> is_dir (inode w i)" "\<forall>n. \<not> fails w n"
  shows "fi_action fi \<in> {ACTION_UNLINK, ACTION_FORCEUNLINK} \<Longrightarrow> stat path (tx_actions cf q fi w) = None"
    "fi_action fi = ACTION_TRUNCATE \<Longrightarrow> map_option content (stat path (tx_actions cf q fi w)) = Some []"
  using assms
  by (auto simp: tx_actions_def unlink_file_def fopen_def fclose_def syscall_def exists_def stat_def set_inode_def Let_def
      ACTION_UNLINK_def ACTION_FORCEUNLINK_def ACTION_TRUNCATE_def)

lemma zclose_send_actions:
  assumes "sending (zx_pi s) = Some fi" "fi_status fi = FSTAT_SUCCESS"
  shows "zx_w (zclose_send cf s) = tx_actions cf (ses_queue (zx_g s)) (fi\<lparr>fi_fp := None\<rparr>)
    (case fi_fp fi of None \<Rightarrow> zx_w s | Some fp \<Rightarrow> snd (file_close fp (zx_w s)))"
  using assms by (simp add: zclose_send_def p_tx_fclose_def Let_def)

lemma ztx_restart:
  assumes "protinfo_ok (zx_pi s)" "sending (zx_pi s) = Some fi" "zt_state s \<in> {ZTX_READCHECK, ZTX_CRCQACK, ZTX_CRCWACK}"
  shows "\<exists>s'. ztx_frame ZRINIT s = Go s' \<and> zt_state s' = ZTX_NEXTFILE \<and> zx_w s' = zx_w s
    \<and> sending (zx_pi s') = Some (fi\<lparr>fi_status := FSTAT_SUCCESS\<rparr>)"
proof -
  have "ztx_frame ZRINIT s = zfile_over FSTAT_SUCCESS (zend_data s)"
    using assms(3) by (auto simp: ztx_frame_def ztx_on_rinit_def ZRINIT_def ZCAN_def ZHANGUP_def ZEXIT_def ZTIMER_def ZERROR_def
        ZCRCERR_def ZRQINIT_def)
  then show ?thesis using assms(1,2)
    by (simp add: zfile_over_def zwith_send_def zto_def zset_send_def sending_set_send zend_data_def ztry_eq)
qed

text \<open>
  C39: Mail that is lost. When the receiver starts anew in the middle of a file, while the sender waits for the
  acknowledgement of a block, the file counts as sent, however little of it has been (nothing is asked of \<open>fi_sent\<close>), and closing it,
  the first thing that is done in the state the sender goes to, does with it what is to be done with a sent file: when its
  action is to remove it, as it is for netmail, and the system does not fail, its path is gone, and when its
  action is to truncate it, it is empty. (A file named by a flow file is left aside here, for which its line there is marked as well.)
\<close>

theorem zmodem_restart_loses_file:
  assumes "protinfo_ok (zx_pi s)" "sending (zx_pi s) = Some fi" "zt_state s \<in> {ZTX_READCHECK, ZTX_CRCQACK, ZTX_CRCWACK}"
    and "fi_fname fi = Some path" "fi_action fi \<in> {ACTION_UNLINK, ACTION_FORCEUNLINK, ACTION_TRUNCATE}" "\<not> has (fi_type fi) TYPE_FROMFLO"
    and "dir (zx_w s) path = Some i" "\<not> is_dir (inode (zx_w s) i)" "\<forall>n. \<not> fails (zx_w s) n"
  shows "\<exists>s'. ztx_frame ZRINIT s = Go s' \<and> zt_state s' = ZTX_NEXTFILE
      \<and> sending (zx_pi s') = Some (fi\<lparr>fi_status := FSTAT_SUCCESS\<rparr>)
      \<and> (if fi_action fi = ACTION_TRUNCATE then map_option content (stat path (zx_w (zclose_send cf s'))) = Some []
          else stat path (zx_w (zclose_send cf s')) = None)"
proof -
  obtain s' where s': "ztx_frame ZRINIT s = Go s'" "zt_state s' = ZTX_NEXTFILE" "zx_w s' = zx_w s"
      "sending (zx_pi s') = Some (fi\<lparr>fi_status := FSTAT_SUCCESS\<rparr>)"
    using ztx_restart [OF assms(1-3)] by blast
  let ?w = "case fi_fp fi of None \<Rightarrow> zx_w s' | Some fp \<Rightarrow> snd (file_close fp (zx_w s'))"
  have w: "dir ?w path = Some i" "\<not> is_dir (inode ?w i)" "\<forall>n. \<not> fails ?w n"
    using assms(7-9) s'(3) file_close_sound [of "zx_w s"] by (auto split: option.split)
  show ?thesis using s' assms(5) zclose_send_actions [OF s'(4), of cf]
      tx_actions_sound [of "fi\<lparr>fi_status := FSTAT_SUCCESS, fi_fp := None\<rparr>", OF _ _ w] assms(4,6)
    by auto
qed

definition example_sent :: s_finfo where
  "example_sent = example_recv\<lparr>fi_fname := Some ''/out/1.pkt'', fi_type := TYPE_NETMAIL, fi_fp := None, fi_total := 1000, fi_sent := 64, fi_action := ACTION_UNLINK, fi_status := FSTAT_PROCESS\<rparr>"

definition example_tx :: s_zmodem_tx where
  "example_tx = (ztx_start stat_conf (\<lambda>_. \<lparr>tm_sec = 0, tm_min = 0, tm_hour = 0, tm_mday = 1, tm_mon = 0, tm_year = 70, tm_wday = 4, tm_yday = 0\<rparr>)
       ''bforce'' None zmodem_initial (zero_protinfo\<lparr>pi_send := Some 0, pi_sentfiles := [example_sent]\<rparr>) example_globals stat_world
       [Ch 0x2a] [True])"

lemma example_tx_fields:
  "zx_pi example_tx = zero_protinfo\<lparr>pi_send := Some 0, pi_sentfiles := [example_sent], pi_start_time := now stat_world\<rparr>"
  "zt_state example_tx = ZTX_START" "zt_blocklen example_tx = 256" "zt_maxblk example_tx \<le> 8192"
  by (simp_all add: example_tx_def ztx_start_def start_block_def conf_number_def conf_boolean_def conf_first_def conf_entries_def
      stat_conf_def zero_protinfo_def)

theorem tx_zmodem_holds_out_witness:
  "case ztx_pass stat_conf 0 example_tx of Go s' \<Rightarrow> ztx_ok s' | Over rc s' \<Rightarrow> True | Hangs \<Rightarrow> False | Crash \<Rightarrow> False"
  by (rule tx_zmodem_holds_out) (simp add: ztx_ok_def example_tx_fields protinfo_ok_def zero_protinfo_def ZMAXBLOCKLEN_def)

definition example_lost :: s_zmodem_tx where
  "example_lost = example_tx\<lparr>zt_state := ZTX_CRCWACK, zx_w := stat_world\<lparr>dir := [''/out/1.pkt'' \<mapsto> 0],
     inode := (\<lambda>_. \<lparr>content = ''mail'', mtime = 0, fmode = 384, is_dir = False\<rparr>), fails := (\<lambda>_. False)\<rparr>\<rparr>"

theorem zmodem_restart_loses_file_witness:
  "\<exists>s'. ztx_frame ZRINIT example_lost = Go s' \<and> zt_state s' = ZTX_NEXTFILE
      \<and> sending (zx_pi s') = Some (example_sent\<lparr>fi_status := FSTAT_SUCCESS\<rparr>)
      \<and> (if fi_action example_sent = ACTION_TRUNCATE then map_option content (stat ''/out/1.pkt'' (zx_w (zclose_send stat_conf s'))) = Some []
          else stat ''/out/1.pkt'' (zx_w (zclose_send stat_conf s')) = None)"
  by (rule zmodem_restart_loses_file [where i = 0])
    (simp_all add: example_lost_def example_tx_fields protinfo_ok_def zero_protinfo_def sending_def example_sent_def has_def TYPE_NETMAIL_def TYPE_FROMFLO_def)

end
