(* ===== verification/Spec2Isabelle.thy ===== *)
theory Spec2Isabelle
  imports UMisc BinkpCrypt Md5 Locks Conf Outbound SessStat Queue QueueProps ProtProps NodelistProps BinkpProps HydraProps ZmodemProps ZmodemXferProps
begin

text \<open>
  BinkleyForce is a mailer of the FidoNet: it answers and places calls, finds out with which systems it talks, and
  exchanges the files of its outbound with them. The sources are those of \<open>src/source/bforce\<close>, with the compiler of the nodelist index from
  \<open>src/source/bfutil\<close>. The theories below translate the parts that decide something; system calls, devices and log lines stay outside.

  \<^bold>\<open>How the parts work together.\<close> The configuration (\<open>Conf\<close>) says which systems are known, with which passwords and limits. A session
  (\<open>Session\<close>) learns the addresses of the other side from a handshake, checks them against the configuration and the nodelist
  (\<open>Nodelist\<close>), takes their lock files (\<open>Locks\<close>), and makes the queue of files to send (\<open>Queue\<close>) from the outbound (\<open>Outbound\<close>, whose
  file names come from addresses, \<open>Ftn\<close>). A protocol (\<open>Binkp\<close>, \<open>Hydra\<close>, \<open>Zmodem\<close>) then moves the files over the line; all of them open,
  read, write and close files through the same operations (\<open>ProtCommon\<close>), which also move what is received to the inbound and
  remove what is sent. At the end the outcome goes into the statistics of the system (\<open>SessStat\<close>).

  \<^bold>\<open>Theories and sources.\<close>
  \<^item> \<open>Prelude\<close>: lemmas on lists, words and bytes. \<open>CString\<close>: C strings and character classes. \<open>CNum\<close>: numbers in texts.
  \<^item> \<open>UString\<close> (\<open>u_string.c\<close>), \<open>UMisc\<close> (\<open>u_misc.c\<close>: masks, byte order), \<open>UTime\<close> (\<open>u_time.c\<close>), \<open>Crc\<close> (\<open>u_crc.c\<close>), \<open>Md5\<close> (\<open>u_md5.c\<close>),
    \<open>BinkpCrypt\<close> (\<open>prot_binkp_crypt.c\<close>), \<open>Recode\<close> (\<open>u_recode.c\<close>), \<open>UPkt\<close> (\<open>u_pkt.c\<close>).
  \<^item> \<open>Files\<close> (\<open>u_file.c\<close>): the file system as a \<open>world\<close> of names and inodes with a clock, in which any call may fail (\<open>fails\<close>, indexed by
    the number of the call), and streams on it.
  \<^item> \<open>Ftn\<close> (\<open>u_ftn.c\<close>, \<open>outb_getname.c\<close>), \<open>Outbound\<close> (\<open>outb_scan.c\<close>, \<open>outb_flo.c\<close>, \<open>outb_fsqueue.c\<close>), \<open>Locks\<close> (\<open>u_plock.c\<close>, \<open>outb_bsy.c\<close>).
  \<^item> \<open>Conf\<close> (\<open>conf_proc.c\<close>, \<open>conf_read.c\<close>, \<open>conf_get.c\<close>), \<open>SessStat\<close> (\<open>sess_stat.c\<close>), \<open>Session\<close> and \<open>Queue\<close> (\<open>sess_main.c\<close>, \<open>sess_common.c\<close>),
    \<open>Nodelist\<close> (\<open>nodelist.c\<close>, \<open>bfindex.c\<close>).
  \<^item> \<open>ProtCommon\<close> (\<open>prot_common.c\<close>); \<open>Binkp\<close>, \<open>BinkpApi\<close> (\<open>prot_binkp.c\<close>, \<open>prot_binkp_misc.c\<close>, \<open>prot_binkp_api.c\<close>); \<open>HydraPkt\<close>, \<open>Hydra\<close>
    (\<open>prot_hydra.c\<close>); \<open>Zmodem\<close> (\<open>prot_zmmisc.c\<close>), \<open>ZmodemXfer\<close> (\<open>prot_zmrecv.c\<close>, \<open>prot_zmsend.c\<close>).
  \<^item> Theories ending in \<open>Props\<close>, and \<open>TransferFiles\<close>, hold the lemmas of the theory they are named after; \<open>QueueProps\<close> is about the queue
    \<open>Session\<close> makes from the outbound. Definitions have the names of the
    functions they translate, and constructors those of the enumerations and macros.

  \<^bold>\<open>State and errors.\<close> Structures are records and enumerations datatypes. What a function changes it returns; a pointer into a table is an
  index. A result that C returns as an integer stays one, with the codes of the source, except where a text says that true is
  success. A read through a null pointer or behind an array is an outcome of its own: \<open>None\<close>, \<open>Undefined\<close> in the loops of Binkp and Hydra,
  \<open>Crash\<close> in those of Zmodem. Machine words have their width on a 64-bit system with signed characters; values of \<open>int\<close> and \<open>long\<close> that are
  counted only are integers, and are cut to their width where the code lets them overflow.

  \<^bold>\<open>Loops.\<close> The loops of the protocols are given one pass at a time, as a function of the state and of what the system does in that pass
  (clock, readiness of the line, bytes read and written); a run is a fold over the list of these inputs, and statements about
  runs hold for every list. For Zmodem the future of the line is a list of events in the state, and the array a block is read into is kept whole, with what
  it held before behind the block, since the code prints from it. Other loops are structural recursions, or
  functions with a measure: the queue of files shrinks, the tokens of a text get shorter. Fuel appears in three places: includes of the configuration
  nest up to the depth the source allows, the search for a free name takes at most its 1024 tries, and the last packets of Hydra are sent in
  at most twenty rounds; each is the bound of the source.

  \<^bold>\<open>What the lemmas show.\<close> Round trips of every format that is both written and read; equivalence of the optimised checksums, masks and searches with
  plain definitions, MD5 with one that has the constants, functions and byte order of the RFC written out; the counters a session leaves in its
  statistics; which addresses, passwords and locks let a system in, and the cases in which the code lets in one it should not;
  for files, that nothing but a complete and safe file reaches the inbound, that only what was sent or refused for good is removed, and that sending
  ends; for the loops of the protocols, that whatever the other side sends they keep their buffers and files in order, and the exceptions: the attention string of Zmodem and the command it prints, the mail
  a restart of the receiver loses, the wrong password that is no error.
  Properties carry the prefix C and a number in their text; each with hypotheses is followed by a witness that applies it.

  \<^bold>\<open>Not modelled.\<close> Devices and sockets (\<open>io_*.c\<close>), the logger, the daemon with its scheduling of calls by processes and signals
  (\<open>daemon*.c\<close>, \<open>bforce.c\<close>), external commands and their environment (\<open>os_unix.c\<close>), the network spool (\<open>netspool.c\<close>), the handshakes EMSI and YooHoo, the
  processing of file requests (\<open>freq_*.c\<close>, a parameter of the model), the generated parser of conditions (\<open>expression.tab.c\<close>), and the
  programs that only print (\<open>nlookup.c\<close>, \<open>bfstat.c\<close>).
\<close>

end
